(* ===== verification/Prelude.thy ===== *)
theory Prelude
  imports Main "HOL-Library.AList" "HOL-Library.Word"
begin

text \<open>
  What the components of the Meshtastic Lab model share: the Python exceptions that the code
  raises, dictionaries (association lists that keep insertion order), bounded
  \<^verbatim>\<open>collections.deque\<close> and \<^verbatim>\<open>asyncio.Queue\<close>, slices, and the
  generic lemmas about them. The interfaces \<open>ordered_dict\<close> and \<open>bounded_fifo\<close> are
  locales; the laws are discharged here for the concrete operations.
\<close>

named_theorems dict_simps \<open>rewrite rules for dictionaries\<close>
named_theorems queue_simps \<open>rewrite rules for bounded queues\<close>

type_synonym byte = "8 word"
type_synonym bytes = "byte list"

subsection \<open>Python exceptions\<close>

text \<open>
  The exception classes that the modelled code raises, with the message where the code
  builds one. An operation that can raise returns \<open>pyerr + 'a\<close>; \<open>Inl\<close> is the raise.
\<close>

datatype pyerr =
    ValueError string
  | KeyError string
  | IndexError
  | StopIteration
  | RuntimeError string
  | GatewayError string
  | QueueFull
  | PacketIdQuarantineCapacityError string
  | FileNotFoundError string
  | SimulationConflict string string
  | OverflowError
  | DecodeError string
  | TypeError string
  | ZeroDivisionError
  | NodeConfigurationError string
  | TimeoutError
  | OSError string
  | AcceptanceFailure string

text \<open>\<^verbatim>\<open>str(exc)\<close>\<close>

definition exc_text :: "pyerr \<Rightarrow> string" where
  "exc_text e =
     (case e of
        ValueError s \<Rightarrow> s | RuntimeError s \<Rightarrow> s | GatewayError s \<Rightarrow> s
      | PacketIdQuarantineCapacityError s \<Rightarrow> s | FileNotFoundError s \<Rightarrow> s
      | SimulationConflict _ s \<Rightarrow> s | DecodeError s \<Rightarrow> s | TypeError s \<Rightarrow> s
      | NodeConfigurationError s \<Rightarrow> s | OSError s \<Rightarrow> s | AcceptanceFailure s \<Rightarrow> s
      | KeyError s \<Rightarrow> CHR 0x27 # s @ [CHR 0x27]
      | IndexError \<Rightarrow> ''Cannot choose from an empty sequence''
      | ZeroDivisionError \<Rightarrow> ''integer modulo by zero''
      | StopIteration \<Rightarrow> [] | QueueFull \<Rightarrow> [] | OverflowError \<Rightarrow> [] | TimeoutError \<Rightarrow> [])"

type_synonym 'a result = "pyerr + 'a"

definition isOk :: "'a result \<Rightarrow> bool" where
  "isOk r = (case r of Inl _ \<Rightarrow> False | Inr _ \<Rightarrow> True)"

lemma isOk_simps [simp]: "\<not> isOk (Inl e)" "isOk (Inr x)"
  by (simp_all add: isOk_def)

lemma isOk_iff: "isOk r \<longleftrightarrow> (\<exists>x. r = Inr x)"
  by (cases r) simp_all

definition bind_result :: "'a result \<Rightarrow> ('a \<Rightarrow> 'b result) \<Rightarrow> 'b result" where
  "bind_result r f = (case r of Inl e \<Rightarrow> Inl e | Inr x \<Rightarrow> f x)"

lemma bind_result_simps [simp]:
  "bind_result (Inl e) f = Inl e" "bind_result (Inr x) f = f x"
  by (simp_all add: bind_result_def)

lemma bind_result_eq_Inr:
  "bind_result r f = Inr y \<longleftrightarrow> (\<exists>x. r = Inr x \<and> f x = Inr y)"
  by (cases r) simp_all

lemma if_Inl_eq_Inr: "(if P then Inl e else r) = Inr y \<longleftrightarrow> \<not> P \<and> r = Inr y"
  by simp

text \<open>A list comprehension whose element expression can raise: the first failure wins.\<close>

fun traverse_result :: "('a \<Rightarrow> 'b result) \<Rightarrow> 'a list \<Rightarrow> 'b list result" where
  "traverse_result f [] = Inr []"
| "traverse_result f (x # xs) =
     bind_result (f x) (\<lambda>y. bind_result (traverse_result f xs) (\<lambda>ys. Inr (y # ys)))"

lemma traverse_result_Inr: "(\<And>x. x \<in> set xs \<Longrightarrow> f x = Inr (g x)) \<Longrightarrow> traverse_result f xs = Inr (map g xs)"
  by (induction xs) simp_all

lemma traverse_result_eq_Inr: "traverse_result f xs = Inr ys \<longleftrightarrow> map f xs = map Inr ys"
  by (induction xs arbitrary: ys) (auto simp: bind_result_eq_Inr Cons_eq_map_conv)

lemma isOk_traverse: "isOk (traverse_result f xs) \<longleftrightarrow> (\<forall>x \<in> set xs. isOk (f x))"
  by (induction xs) (auto simp: bind_result_def split: sum.splits)

subsection \<open>Dictionaries\<close>

text \<open>
  A Python \<^verbatim>\<open>dict\<close> is an association list in insertion order: storing under an existing
  key keeps its position, storing under a new key appends.
\<close>

type_synonym ('k, 'v) dict = "('k \<times> 'v) list"

abbreviation dict_get :: "('k, 'v) dict \<Rightarrow> 'k \<Rightarrow> 'v option" where
  "dict_get d k \<equiv> map_of d k"

abbreviation dict_set :: "'k \<Rightarrow> 'v \<Rightarrow> ('k, 'v) dict \<Rightarrow> ('k, 'v) dict" where
  "dict_set \<equiv> AList.update"

abbreviation dict_pop :: "'k \<Rightarrow> ('k, 'v) dict \<Rightarrow> ('k, 'v) dict" where
  "dict_pop \<equiv> AList.delete"

abbreviation dict_keys :: "('k, 'v) dict \<Rightarrow> 'k list" where
  "dict_keys d \<equiv> map fst d"

abbreviation dict_wf :: "('k, 'v) dict \<Rightarrow> bool" where
  "dict_wf d \<equiv> distinct (map fst d)"

definition dict_get_default :: "('k, 'v) dict \<Rightarrow> 'k \<Rightarrow> 'v \<Rightarrow> 'v" where
  "dict_get_default d k v = (case dict_get d k of None \<Rightarrow> v | Some w \<Rightarrow> w)"

text \<open>\<^verbatim>\<open>Counter\<close>: a missing key reads as zero.\<close>

definition counter_add :: "'k \<Rightarrow> int \<Rightarrow> ('k, int) dict \<Rightarrow> ('k, int) dict" where
  "counter_add k n d = dict_set k (dict_get_default d k 0 + n) d"

text \<open>A dict comprehension: later entries with the same key overwrite the value.\<close>

fun dict_of :: "('k \<times> 'v) list \<Rightarrow> ('k, 'v) dict \<Rightarrow> ('k, 'v) dict" where
  "dict_of [] d = d"
| "dict_of ((k, v) # kvs) d = dict_of kvs (dict_set k v d)"

text \<open>The laws a client of a dictionary relies on.\<close>

locale ordered_dict =
  fixes empty :: "'d"
    and store :: "'k \<Rightarrow> 'v \<Rightarrow> 'd \<Rightarrow> 'd"
    and remove :: "'k \<Rightarrow> 'd \<Rightarrow> 'd"
    and lookup :: "'d \<Rightarrow> 'k \<Rightarrow> 'v option"
    and keys :: "'d \<Rightarrow> 'k list"
  assumes lookup_empty: "lookup empty = Map.empty"
    and lookup_store: "lookup (store k v d) = (lookup d)(k \<mapsto> v)"
    and lookup_remove: "lookup (remove k d) = (lookup d)(k := None)"
    and set_keys: "set (keys d) = dom (lookup d)"
    and keys_store: "keys (store k v d) = (if k \<in> set (keys d) then keys d else keys d @ [k])"
begin

lemma store_then_lookup: "lookup (store k v d) k = Some v"
  by (simp add: lookup_store)

lemma store_other: "k \<noteq> k' \<Longrightarrow> lookup (store k v d) k' = lookup d k'"
  by (simp add: lookup_store)

lemma keys_store_prefix: "\<exists>ks. keys (store k v d) = keys d @ ks"
  by (simp add: keys_store)

lemma distinct_keys_store: "distinct (keys d) \<Longrightarrow> distinct (keys (store k v d))"
  by (simp add: keys_store)

end

lemma map_of_dict_set [dict_simps]: "map_of (AList.update k v d) = (map_of d)(k \<mapsto> v)"
  by (rule update_conv')

lemma map_of_dict_pop [dict_simps]: "map_of (AList.delete k d) = (map_of d)(k := None)"
  by (rule delete_conv')

lemma dict_keys_set [dict_simps]:
  "map fst (AList.update k v d) = (if k \<in> set (map fst d) then map fst d else map fst d @ [k])"
  by (induction d) auto

lemma dict_wf_set [simp]: "dict_wf d \<Longrightarrow> dict_wf (AList.update k v d)"
  by (rule distinct_update)

lemma dict_wf_pop [simp]: "dict_wf d \<Longrightarrow> dict_wf (AList.delete k d)"
  by (rule distinct_delete)

interpretation assoc: ordered_dict "[]" AList.update AList.delete map_of "map fst"
  by unfold_locales (auto simp: dict_simps dom_map_of_conv_image_fst)

lemma dict_of_wf: "dict_wf d \<Longrightarrow> dict_wf (dict_of kvs d)"
  by (induction kvs d rule: dict_of.induct) simp_all

lemma map_of_dict_of: "map_of (dict_of kvs d) = map_of d ++ map_of (rev kvs)"
  by (induction kvs d rule: dict_of.induct) (auto simp: dict_simps map_add_def fun_eq_iff split: option.splits)

lemma dict_set_fresh: "k \<notin> set (map fst d) \<Longrightarrow> AList.update k v d = d @ [(k, v)]"
  by (induction d) auto

lemma dict_of_fresh:
  "distinct (map fst d @ map fst kvs) \<Longrightarrow> dict_of kvs d = d @ kvs"
  by (induction kvs d rule: dict_of.induct) (auto simp: dict_set_fresh)

lemma dict_get_key: "map_of d k = Some v \<Longrightarrow> k \<in> set (map fst d)"
  by (drule map_of_SomeD) force

lemma dict_get_const: "map_of (map (\<lambda>n. (f n, c)) ns) s = (if s \<in> set (map f ns) then Some c else None)"
  by (induction ns) auto

lemma set_dict_set: "set (AList.update k v d) \<subseteq> insert (k, v) (set d)"
  by (induction d) auto

lemma set_dict_pop: "set (AList.delete k d) \<subseteq> set d"
  by (induction d) auto

lemma dict_keys_map_values [dict_simps]: "map (fst \<circ> (\<lambda>(i, s). (i, f s))) d = dict_keys d"
  by (induction d) auto

subsection \<open>Bounded deques and queues\<close>

text \<open>\<^verbatim>\<open>deque(maxlen=n).append\<close> drops from the left when the deque is full.\<close>

definition push_bounded :: "nat \<Rightarrow> 'a \<Rightarrow> 'a list \<Rightarrow> 'a list" where
  "push_bounded n x xs = drop (Suc (length xs) - n) (xs @ [x])"

lemma length_push_bounded: "length (push_bounded n x xs) = min n (Suc (length xs))"
  by (simp add: push_bounded_def)

lemma push_bounded_room: "length xs < n \<Longrightarrow> push_bounded n x xs = xs @ [x]"
  by (simp add: push_bounded_def)

lemma push_bounded_full: "length xs = n \<Longrightarrow> 0 < n \<Longrightarrow> push_bounded n x xs = tl xs @ [x]"
  by (cases xs) (simp_all add: push_bounded_def)

lemma set_push_bounded: "set (push_bounded n x xs) \<subseteq> insert x (set xs)"
  unfolding push_bounded_def by (metis set_drop_subset set_append list.set(1,2) Un_insert_right Un_empty_right)

text \<open>
  \<^verbatim>\<open>asyncio.Queue(maxsize)\<close>: \<open>None\<close> is the \<^verbatim>\<open>QueueFull\<close> exception of
  \<^verbatim>\<open>put_nowait\<close>. A maximum size of zero means unbounded.
\<close>

definition queue_full :: "nat \<Rightarrow> 'a list \<Rightarrow> bool" where
  "queue_full n q = (0 < n \<and> n \<le> length q)"

definition put_nowait :: "nat \<Rightarrow> 'a \<Rightarrow> 'a list \<Rightarrow> 'a list option" where
  "put_nowait n x q = (if queue_full n q then None else Some (q @ [x]))"

definition get_nowait :: "'a list \<Rightarrow> ('a \<times> 'a list) option" where
  "get_nowait q = (case q of [] \<Rightarrow> None | x # q' \<Rightarrow> Some (x, q'))"

text \<open>The contract of a bounded first-in first-out queue.\<close>

locale bounded_fifo =
  fixes put :: "nat \<Rightarrow> 'a \<Rightarrow> 'q \<Rightarrow> 'q option"
    and get :: "'q \<Rightarrow> ('a \<times> 'q) option"
    and contents :: "'q \<Rightarrow> 'a list"
  assumes put_Some: "put n x q = Some q' \<Longrightarrow> contents q' = contents q @ [x]"
    and put_None: "put n x q = None \<longleftrightarrow> 0 < n \<and> n \<le> length (contents q)"
    and get_Some: "get q = Some (x, q') \<Longrightarrow> contents q = x # contents q'"
    and get_None: "get q = None \<longleftrightarrow> contents q = []"
begin

lemma put_keeps_bound:
  assumes "put n x q = Some q'" and "0 < n"
  shows "length (contents q') \<le> n"
proof -
  from assms have "\<not> n \<le> length (contents q)"
    using put_None [of n x q] by auto
  with put_Some [OF assms(1)] show ?thesis by simp
qed

lemma full_get_then_put:
  assumes "put n x q = None" and "length (contents q) \<le> n"
  obtains y q' q'' where "get q = Some (y, q')" and "put n x q' = Some q''"
    and "contents q'' = tl (contents q) @ [x]"
proof -
  from assms(1) have full: "0 < n" "n \<le> length (contents q)"
    by (simp_all add: put_None)
  then obtain y q' where got: "get q = Some (y, q')"
    using get_None [of q] by (cases "get q") auto
  with get_Some [OF got] assms(2) full have "put n x q' \<noteq> None"
    by (simp add: put_None)
  then obtain q'' where q'': "put n x q' = Some q''" by blast
  with put_Some [OF q''] get_Some [OF got] got that show thesis by simp
qed

end

interpretation aq: bounded_fifo put_nowait get_nowait id
  by unfold_locales (auto simp: put_nowait_def queue_full_def get_nowait_def split: if_splits list.splits)

lemma put_nowait_simps [queue_simps]:
  "queue_full n q \<Longrightarrow> put_nowait n x q = None"
  "\<not> queue_full n q \<Longrightarrow> put_nowait n x q = Some (q @ [x])"
  by (simp_all add: put_nowait_def)

subsection \<open>Slices\<close>

text \<open>\<^verbatim>\<open>xs[-n:]\<close> for a positive \<open>n\<close>: the last \<open>n\<close> elements.\<close>

definition lastn :: "nat \<Rightarrow> 'a list \<Rightarrow> 'a list" where
  "lastn n xs = drop (length xs - n) xs"

lemma length_lastn: "length (lastn n xs) = min n (length xs)"
  by (simp add: lastn_def)

lemma lastn_suffix: "\<exists>ys. xs = ys @ lastn n xs"
  unfolding lastn_def by (metis append_take_drop_id)

end
