(* ===== verification/Py_Text.thy ===== *)
theory Py_Text
  imports Prelude
begin

text \<open>
  The parts of Python's text handling that the program uses: decimal and hexadecimal
  formatting of integers, \<^verbatim>\<open>bytes.decode("utf-8", errors="strict")\<close>,
  \<^verbatim>\<open>str.split(sep, maxsplit)\<close> and \<^verbatim>\<open>int(text)\<close>. Decoded text is a list of code
  points. The Unicode tables of the interpreter (which code points from 127 on are
  whitespace or decimal digits) are the parameters \<open>uspace\<close> and \<open>udigit\<close>.
\<close>

named_theorems text_simps \<open>text conversion rules\<close>

subsection \<open>Formatting integers\<close>

fun show_nat_codes :: "nat \<Rightarrow> nat list" where
  "show_nat_codes n =
     (if n < 10 then [48 + n] else show_nat_codes (n div 10) @ [48 + n mod 10])"

declare show_nat_codes.simps [simp del]

definition codes :: "string \<Rightarrow> nat list" where
  "codes s = map of_char s"

definition show_nat :: "nat \<Rightarrow> string" where
  "show_nat n = map char_of (show_nat_codes n)"

definition show_int :: "int \<Rightarrow> string" where
  "show_int i = (if i < 0 then CHR ''-'' # show_nat (nat (- i)) else show_nat (nat i))"

definition hex_digit :: "nat \<Rightarrow> char" where
  "hex_digit d = char_of (if d < 10 then 48 + d else 87 + d)"

text \<open>The format \<^verbatim>\<open>f"{n:08x}"\<close>: at least eight lower-case hexadecimal digits.\<close>

fun show_hex :: "nat \<Rightarrow> string" where
  "show_hex n = (if n < 16 then [hex_digit n] else show_hex (n div 16) @ [hex_digit (n mod 16)])"

declare show_hex.simps [simp del]

definition show_hex8 :: "nat \<Rightarrow> string" where
  "show_hex8 n = (let s = show_hex n in replicate (8 - length s) CHR ''0'' @ s)"

definition is_digit :: "nat \<Rightarrow> bool" where
  "is_digit c = (48 \<le> c \<and> c \<le> 57)"

definition digits_value :: "nat list \<Rightarrow> nat" where
  "digits_value ds = foldl (\<lambda>n d. 10 * n + (d - 48)) 0 ds"

lemma show_nat_codes_digits: "\<forall>c\<in>set (show_nat_codes n). is_digit c"
proof (induction n rule: show_nat_codes.induct)
  case (1 n)
  then show ?case
    by (subst show_nat_codes.simps) (auto simp: is_digit_def)
qed

lemma show_nat_codes_value: "digits_value (show_nat_codes n) = n"
proof (induction n rule: show_nat_codes.induct)
  case (1 n)
  then show ?case
    by (subst show_nat_codes.simps) (auto simp: digits_value_def)
qed

lemma show_nat_codes_nonempty [simp]: "show_nat_codes n \<noteq> []"
  by (subst show_nat_codes.simps) simp

lemma show_nat_codes_length: "n < 10 ^ k \<Longrightarrow> 0 < k \<Longrightarrow> length (show_nat_codes n) \<le> k"
proof (induction n arbitrary: k rule: show_nat_codes.induct)
  case (1 n)
  show ?case
  proof (cases "n < 10")
    case True
    with "1.prems" show ?thesis by (subst show_nat_codes.simps) simp
  next
    case False
    with "1.prems" obtain j where k: "k = Suc j" "0 < j"
      by (cases k; cases "k - 1") auto
    with "1.prems" have "n div 10 < 10 ^ j" by (simp add: less_mult_imp_div_less mult.commute)
    with "1.IH" [OF False] k False show ?thesis by (subst show_nat_codes.simps) simp
  qed
qed

lemma codes_append [text_simps]: "codes (s @ t) = codes s @ codes t"
  by (simp add: codes_def)

lemma codes_simps [text_simps]: "codes [] = []" "codes (c # s) = of_char c # codes s"
  by (simp_all add: codes_def)

lemma length_codes [simp]: "length (codes s) = length s"
  by (simp add: codes_def)

lemma codes_show_nat [text_simps]: "codes (show_nat n) = show_nat_codes n"
proof -
  have "map (\<lambda>c. of_char (char_of c :: char)) (show_nat_codes n) = show_nat_codes n"
    using show_nat_codes_digits [of n]
    by (intro map_idI) (auto simp: is_digit_def)
  then show ?thesis by (simp add: codes_def show_nat_def comp_def)
qed

lemma codes_inj: "codes s = codes t \<longleftrightarrow> s = t"
  by (simp add: codes_def inj_map_eq_map inj_on_def)

lemma show_nat_inj: "show_nat m = show_nat n \<longleftrightarrow> m = n"
  by (metis codes_show_nat show_nat_codes_value)

lemma length_show_nat: "n < 10 ^ k \<Longrightarrow> 0 < k \<Longrightarrow> length (show_nat n) \<le> k"
  by (simp add: show_nat_def show_nat_codes_length)

subsection \<open>Strict UTF-8\<close>

definition cont_byte :: "nat \<Rightarrow> bool" where
  "cont_byte b = (128 \<le> b \<and> b \<le> 191)"

fun utf8_codes :: "nat list \<Rightarrow> nat list option" where
  "utf8_codes [] = Some []"
| "utf8_codes (a # bs) =
     (if a < 128 then map_option (Cons a) (utf8_codes bs)
      else case bs of
        [] \<Rightarrow> None
      | b # cs \<Rightarrow>
        if 194 \<le> a \<and> a \<le> 223 then
          (if cont_byte b
           then map_option (Cons ((a - 192) * 64 + (b - 128))) (utf8_codes cs) else None)
        else case cs of
          [] \<Rightarrow> None
        | c # ds \<Rightarrow>
          if 224 \<le> a \<and> a \<le> 239 then
            (if cont_byte b \<and> cont_byte c \<and> (a = 224 \<longrightarrow> 160 \<le> b) \<and> (a = 237 \<longrightarrow> b \<le> 159)
             then map_option (Cons ((a - 224) * 4096 + (b - 128) * 64 + (c - 128))) (utf8_codes ds)
             else None)
          else case ds of
            [] \<Rightarrow> None
          | d # es \<Rightarrow>
            if 240 \<le> a \<and> a \<le> 244 \<and> cont_byte b \<and> cont_byte c \<and> cont_byte d \<and>
               (a = 240 \<longrightarrow> 144 \<le> b) \<and> (a = 244 \<longrightarrow> b \<le> 143)
            then map_option (Cons ((a - 240) * 262144 + (b - 128) * 4096 + (c - 128) * 64 + (d - 128)))
                   (utf8_codes es)
            else None)"

definition utf8_decode :: "bytes \<Rightarrow> nat list option" where
  "utf8_decode bs = utf8_codes (map unat bs)"

text \<open>\<^verbatim>\<open>str.encode()\<close> of ASCII text is one byte per character.\<close>

definition ascii_bytes :: "nat list \<Rightarrow> bytes" where
  "ascii_bytes cs = map of_nat cs"

lemma utf8_codes_ascii: "\<forall>c\<in>set cs. c < 128 \<Longrightarrow> utf8_codes cs = Some cs"
  by (induction cs) auto

lemma utf8_decode_ascii: "\<forall>c\<in>set cs. c < 128 \<Longrightarrow> utf8_decode (ascii_bytes cs) = Some cs"
proof -
  assume a: "\<forall>c\<in>set cs. c < 128"
  have "map (\<lambda>c. unat (of_nat c :: byte)) cs = cs"
    using a by (intro map_idI) (auto simp: unat_of_nat)
  with a show ?thesis
    by (simp add: utf8_decode_def ascii_bytes_def comp_def utf8_codes_ascii)
qed

subsection \<open>Splitting\<close>

fun split_once :: "'a \<Rightarrow> 'a list \<Rightarrow> ('a list \<times> 'a list) option" where
  "split_once sep [] = None"
| "split_once sep (x # xs) =
     (if x = sep then Some ([], xs) else map_option (\<lambda>(a, b). (x # a, b)) (split_once sep xs))"

fun split_max :: "nat \<Rightarrow> 'a \<Rightarrow> 'a list \<Rightarrow> 'a list list" where
  "split_max 0 sep xs = [xs]"
| "split_max (Suc n) sep xs =
     (case split_once sep xs of None \<Rightarrow> [xs] | Some (a, b) \<Rightarrow> a # split_max n sep b)"

lemma split_once_append: "sep \<notin> set xs \<Longrightarrow> split_once sep (xs @ sep # ys) = Some (xs, ys)"
  by (induction xs) auto

lemma split_once_Some: "split_once sep xs = Some (a, b) \<Longrightarrow> xs = a @ sep # b \<and> sep \<notin> set a"
  by (induction xs arbitrary: a) (auto split: if_splits)

subsection \<open>Parsing integers\<close>

text \<open>
  \<^verbatim>\<open>int(text)\<close>: code points below 127 stay, other whitespace becomes a space, other
  decimal digits become ASCII digits, anything else makes the text invalid. Then surrounding
  whitespace is skipped, an optional sign is read, and digits with single underscores between
  them. More than 4300 digits are refused (the interpreter's default limit).
\<close>

definition INT_MAX_STR_DIGITS :: nat where
  "INT_MAX_STR_DIGITS = 4300"

definition ascii_view :: "(nat \<Rightarrow> bool) \<Rightarrow> (nat \<Rightarrow> nat option) \<Rightarrow> nat \<Rightarrow> nat" where
  "ascii_view uspace udigit c =
     (if c < 127 then c else if uspace c then 32
      else case udigit c of None \<Rightarrow> 63 | Some d \<Rightarrow> 48 + d)"

definition is_space :: "nat \<Rightarrow> bool" where
  "is_space c = (c = 32 \<or> (9 \<le> c \<and> c \<le> 13))"

definition strip_codes :: "nat list \<Rightarrow> nat list" where
  "strip_codes cs = rev (dropWhile is_space (rev (dropWhile is_space cs)))"

fun scan_digits :: "nat list \<Rightarrow> nat list option" where
  "scan_digits [] = None"
| "scan_digits [d] = (if is_digit d then Some [d] else None)"
| "scan_digits (d # e # ds) =
     (if is_digit d
      then map_option (Cons d) (scan_digits (if e = 95 then ds else e # ds))
      else None)"

definition unsigned_int :: "nat list \<Rightarrow> nat option" where
  "unsigned_int cs =
     (case scan_digits cs of
        None \<Rightarrow> None
      | Some ds \<Rightarrow> if length ds \<le> INT_MAX_STR_DIGITS then Some (digits_value ds) else None)"

definition py_int :: "(nat \<Rightarrow> bool) \<Rightarrow> (nat \<Rightarrow> nat option) \<Rightarrow> nat list \<Rightarrow> int option" where
  "py_int uspace udigit cs =
     (case strip_codes (map (ascii_view uspace udigit) cs) of
        [] \<Rightarrow> None
      | c # cs' \<Rightarrow>
          if c = 45 then map_option (\<lambda>n. - int n) (unsigned_int cs')
          else if c = 43 then map_option int (unsigned_int cs')
          else map_option int (unsigned_int (c # cs')))"

lemma scan_digits_all: "ds \<noteq> [] \<Longrightarrow> \<forall>d\<in>set ds. is_digit d \<Longrightarrow> scan_digits ds = Some ds"
  by (induction ds rule: scan_digits.induct) (auto simp: is_digit_def)

lemma strip_digits: "\<forall>d\<in>set ds. is_digit d \<Longrightarrow> strip_codes ds = ds"
proof -
  assume d: "\<forall>d\<in>set ds. is_digit d"
  then have "\<forall>d\<in>set xs. \<not> is_space d" if "set xs = set ds" for xs
    using that by (auto simp: is_digit_def is_space_def)
  then have "dropWhile is_space ds = ds" and "dropWhile is_space (rev ds) = rev ds"
    by (metis dropWhile_eq_self_iff list.set_sel(1) set_rev)+
  then show ?thesis by (simp add: strip_codes_def)
qed

text \<open>Printing and parsing an integer are inverse, within the interpreter's digit limit.\<close>

lemma py_int_show_nat:
  assumes "length (show_nat_codes n) \<le> INT_MAX_STR_DIGITS"
  shows "py_int uspace udigit (show_nat_codes n) = Some (int n)"
proof -
  note d = show_nat_codes_digits [of n]
  have "map (ascii_view uspace udigit) (show_nat_codes n) = show_nat_codes n"
    using d by (intro map_idI) (auto simp: ascii_view_def is_digit_def)
  then have v: "strip_codes (map (ascii_view uspace udigit) (show_nat_codes n)) = show_nat_codes n"
    using d by (simp add: strip_digits)
  obtain c cs where cs: "show_nat_codes n = c # cs"
    by (metis list.exhaust show_nat_codes_nonempty)
  with d have "c \<noteq> 45" "c \<noteq> 43" by (auto simp: is_digit_def)
  moreover have "unsigned_int (show_nat_codes n) = Some n"
    using d assms by (simp add: unsigned_int_def scan_digits_all show_nat_codes_value)
  ultimately show ?thesis unfolding py_int_def v by (simp add: cs)
qed

end
