(* ===== verification/Framing.thy ===== *)
theory Framing
  imports Py_Text
begin

text \<open>
  The Meshtastic TCP stream framing of \<^verbatim>\<open>src/backend/app/gateway/framing.py\<close>: the
  incremental \<^verbatim>\<open>FrameParser\<close> and \<^verbatim>\<open>encode_frame\<close>. The parser's
  \<^verbatim>\<open>while\<close> loop is the recursive \<open>feed_loop\<close>; its termination proof is that every turn
  shortens the buffer. The lemmas show that the result does not depend on how the stream is
  cut into reads, that no byte is lost or invented, that frames carry their exact wire bytes,
  that the buffer stays bounded, and that encoding and parsing are inverse.
\<close>

named_theorems framing_simps \<open>unfolding rules of the frame parser\<close>

definition MAGIC :: bytes where
  "MAGIC = [0x94, 0xc3]"

definition HEADER_SIZE :: nat where
  "HEADER_SIZE = 4"

definition MAX_PROTOBUF_SIZE :: nat where
  "MAX_PROTOBUF_SIZE = 512"

record frame =
  raw :: bytes
  payload :: bytes

record frame_parser =
  buffer :: bytes
  maximum_payload_size :: nat
  discarded_bytes :: nat
  oversized_frames :: nat

definition new_parser :: "nat \<Rightarrow> frame_parser" where
  "new_parser m = \<lparr>buffer = [], maximum_payload_size = m, discarded_bytes = 0, oversized_frames = 0\<rparr>"

text \<open>\<^verbatim>\<open>bytearray.find(MAGIC)\<close>: the first index at which the two magic bytes stand.\<close>

fun find_magic :: "bytes \<Rightarrow> nat option" where
  "find_magic (a # b # bs) =
     (if a = 0x94 \<and> b = 0xc3 then Some 0 else map_option Suc (find_magic (b # bs)))"
| "find_magic _ = None"

text \<open>\<^verbatim>\<open>int.from_bytes(_, byteorder="big")\<close> and \<^verbatim>\<open>int.to_bytes(2, "big")\<close>.\<close>

definition from_bytes_big :: "bytes \<Rightarrow> nat" where
  "from_bytes_big bs = foldl (\<lambda>n b. 256 * n + unat b) 0 bs"

definition to_bytes2 :: "nat \<Rightarrow> bytes" where
  "to_bytes2 n = [of_nat (n div 256), of_nat (n mod 256)]"

lemma find_magic_bound: "find_magic bs = Some i \<Longrightarrow> i + 2 \<le> length bs"
  by (induction bs arbitrary: i rule: find_magic.induct) (auto split: if_splits)

lemma find_magic_drop: "find_magic bs = Some i \<Longrightarrow> \<exists>cs. drop i bs = 0x94 # 0xc3 # cs"
  by (induction bs arbitrary: i rule: find_magic.induct) (auto split: if_splits)

function feed_loop :: "frame_parser \<Rightarrow> frame list \<Rightarrow> frame_parser \<times> frame list" where
  "feed_loop p frames =
     (if buffer p = [] then (p, frames)
      else case find_magic (buffer p) of
        None \<Rightarrow>
          (let keep = (if last (buffer p) = 0x94 then 1 else 0)
           in (p\<lparr>discarded_bytes := discarded_bytes p + (length (buffer p) - keep),
                 buffer := (if keep = 1 then [last (buffer p)] else [])\<rparr>, frames))
      | Some start \<Rightarrow>
          (let buf = drop start (buffer p);
               p1 = p\<lparr>discarded_bytes := discarded_bytes p + start, buffer := buf\<rparr>
           in if length buf < HEADER_SIZE then (p1, frames)
              else let payload_size = from_bytes_big (take 2 (drop 2 buf))
           in if maximum_payload_size p < payload_size
              then feed_loop (p1\<lparr>oversized_frames := oversized_frames p + 1,
                                 discarded_bytes := discarded_bytes p1 + 1,
                                 buffer := tl buf\<rparr>) frames
              else let frame_size = HEADER_SIZE + payload_size
           in if length buf < frame_size then (p1, frames)
              else feed_loop (p1\<lparr>buffer := drop frame_size buf\<rparr>)
                     (frames @ [\<lparr>raw = take frame_size buf,
                                 payload = drop HEADER_SIZE (take frame_size buf)\<rparr>])))"
  by pat_completeness auto
termination
  by (relation "measure (\<lambda>(p, fs). length (buffer p))")
    (auto simp: HEADER_SIZE_def dest!: find_magic_bound)

declare feed_loop.simps [simp del]

definition feed :: "frame_parser \<Rightarrow> bytes \<Rightarrow> frame_parser \<times> frame list" where
  "feed p data = feed_loop (p\<lparr>buffer := buffer p @ data\<rparr>) []"

fun feed_all :: "frame_parser \<Rightarrow> bytes list \<Rightarrow> frame_parser \<times> frame list" where
  "feed_all p [] = (p, [])"
| "feed_all p (d # ds) =
     (let (p1, fs) = feed p d; (p2, gs) = feed_all p1 ds in (p2, fs @ gs))"

definition encode_frame :: "bytes \<Rightarrow> bytes result" where
  "encode_frame pl =
     (if MAX_PROTOBUF_SIZE < length pl then Inl (ValueError (''protobuf payload is '' @ show_nat (length pl) @
         '' bytes, maximum is '' @ show_nat MAX_PROTOBUF_SIZE))
      else Inr (MAGIC @ to_bytes2 (length pl) @ pl))"

subsection \<open>One turn of the loop\<close>

lemma feed_loop_empty [framing_simps]: "buffer p = [] \<Longrightarrow> feed_loop p fs = (p, fs)"
  by (simp add: feed_loop.simps)

lemma feed_loop_no_magic [framing_simps]:
  "buffer p \<noteq> [] \<Longrightarrow> find_magic (buffer p) = None \<Longrightarrow>
   feed_loop p fs =
     (p\<lparr>discarded_bytes := discarded_bytes p +
          (length (buffer p) - (if last (buffer p) = 0x94 then 1 else 0)),
        buffer := (if last (buffer p) = 0x94 then [0x94] else [])\<rparr>, fs)"
  by (simp add: feed_loop.simps Let_def)

text \<open>Skipping to the magic bytes first changes nothing: the loop does it itself.\<close>

lemma feed_loop_skip [framing_simps]:
  assumes "find_magic (buffer p) = Some i"
  shows "feed_loop p fs =
    feed_loop (p\<lparr>discarded_bytes := discarded_bytes p + i, buffer := drop i (buffer p)\<rparr>) fs"
proof -
  from find_magic_drop [OF assms] obtain cs where cs: "drop i (buffer p) = 0x94 # 0xc3 # cs" ..
  have "buffer p \<noteq> []" using assms by auto
  with assms cs show ?thesis
    by (subst (1 2) feed_loop.simps) (simp add: Let_def)
qed

definition starts_magic :: "bytes \<Rightarrow> bool" where
  "starts_magic bs = (take 2 bs = MAGIC)"

lemma starts_magic_conv: "starts_magic bs \<longleftrightarrow> (\<exists>cs. bs = 0x94 # 0xc3 # cs)"
  by (cases bs rule: find_magic.cases) (auto simp: starts_magic_def MAGIC_def)

lemma starts_magic_find: "starts_magic bs \<Longrightarrow> find_magic bs = Some 0"
  by (auto simp: starts_magic_conv)

lemma starts_magic_drop: "find_magic bs = Some i \<Longrightarrow> starts_magic (drop i bs)"
  by (simp add: starts_magic_conv find_magic_drop)

definition announced :: "bytes \<Rightarrow> nat" where
  "announced bs = from_bytes_big (take 2 (drop 2 bs))"

lemma feed_loop_at_magic:
  assumes "starts_magic (buffer p)"
  shows feed_loop_short: "length (buffer p) < 4 \<Longrightarrow> feed_loop p fs = (p, fs)"
    and feed_loop_oversized:
      "4 \<le> length (buffer p) \<Longrightarrow> maximum_payload_size p < announced (buffer p) \<Longrightarrow>
       feed_loop p fs = feed_loop (p\<lparr>oversized_frames := oversized_frames p + 1,
         discarded_bytes := discarded_bytes p + 1, buffer := tl (buffer p)\<rparr>) fs"
    and feed_loop_incomplete:
      "4 \<le> length (buffer p) \<Longrightarrow> announced (buffer p) \<le> maximum_payload_size p \<Longrightarrow>
       length (buffer p) < 4 + announced (buffer p) \<Longrightarrow> feed_loop p fs = (p, fs)"
    and feed_loop_frame:
      "4 + announced (buffer p) \<le> length (buffer p) \<Longrightarrow>
       announced (buffer p) \<le> maximum_payload_size p \<Longrightarrow>
       feed_loop p fs = feed_loop (p\<lparr>buffer := drop (4 + announced (buffer p)) (buffer p)\<rparr>)
         (fs @ [\<lparr>raw = take (4 + announced (buffer p)) (buffer p),
                 payload = drop 4 (take (4 + announced (buffer p)) (buffer p))\<rparr>])"
proof -
  have ne: "buffer p \<noteq> []" and fm: "find_magic (buffer p) = Some 0"
    using assms starts_magic_find by (auto simp: starts_magic_conv)
  note unfold = feed_loop.simps [of p fs] ne fm Let_def HEADER_SIZE_def announced_def
  show "length (buffer p) < 4 \<Longrightarrow> feed_loop p fs = (p, fs)"
    by (simp add: unfold)
  show "4 \<le> length (buffer p) \<Longrightarrow> maximum_payload_size p < announced (buffer p) \<Longrightarrow>
       feed_loop p fs = feed_loop (p\<lparr>oversized_frames := oversized_frames p + 1,
         discarded_bytes := discarded_bytes p + 1, buffer := tl (buffer p)\<rparr>) fs"
    by (simp add: unfold)
  show "4 \<le> length (buffer p) \<Longrightarrow> announced (buffer p) \<le> maximum_payload_size p \<Longrightarrow>
       length (buffer p) < 4 + announced (buffer p) \<Longrightarrow> feed_loop p fs = (p, fs)"
    by (simp add: unfold)
  show "4 + announced (buffer p) \<le> length (buffer p) \<Longrightarrow>
       announced (buffer p) \<le> maximum_payload_size p \<Longrightarrow>
       feed_loop p fs = feed_loop (p\<lparr>buffer := drop (4 + announced (buffer p)) (buffer p)\<rparr>)
         (fs @ [\<lparr>raw = take (4 + announced (buffer p)) (buffer p),
                 payload = drop 4 (take (4 + announced (buffer p)) (buffer p))\<rparr>])"
    by (simp add: unfold)
qed

text \<open>
  The induction the lemmas below use: one case per way a turn of the loop can go, in the
  parser's own terms.
\<close>

lemma feed_loop_cases_induct [case_names empty no_magic skip short oversized incomplete frame]:
  assumes empty: "\<And>p fs. buffer p = [] \<Longrightarrow> P p fs"
    and no_magic: "\<And>p fs. buffer p \<noteq> [] \<Longrightarrow> find_magic (buffer p) = None \<Longrightarrow> P p fs"
    and skip: "\<And>p fs i. find_magic (buffer p) = Some i \<Longrightarrow> 0 < i \<Longrightarrow>
      P (p\<lparr>discarded_bytes := discarded_bytes p + i, buffer := drop i (buffer p)\<rparr>) fs \<Longrightarrow> P p fs"
    and short: "\<And>p fs. starts_magic (buffer p) \<Longrightarrow> length (buffer p) < 4 \<Longrightarrow> P p fs"
    and oversized: "\<And>p fs. starts_magic (buffer p) \<Longrightarrow> 4 \<le> length (buffer p) \<Longrightarrow>
      maximum_payload_size p < announced (buffer p) \<Longrightarrow>
      P (p\<lparr>oversized_frames := oversized_frames p + 1,
         discarded_bytes := discarded_bytes p + 1, buffer := tl (buffer p)\<rparr>) fs \<Longrightarrow> P p fs"
    and incomplete: "\<And>p fs. starts_magic (buffer p) \<Longrightarrow> 4 \<le> length (buffer p) \<Longrightarrow>
      announced (buffer p) \<le> maximum_payload_size p \<Longrightarrow>
      length (buffer p) < 4 + announced (buffer p) \<Longrightarrow> P p fs"
    and frame: "\<And>p fs. starts_magic (buffer p) \<Longrightarrow> 4 + announced (buffer p) \<le> length (buffer p) \<Longrightarrow>
      announced (buffer p) \<le> maximum_payload_size p \<Longrightarrow>
      P (p\<lparr>buffer := drop (4 + announced (buffer p)) (buffer p)\<rparr>)
         (fs @ [\<lparr>raw = take (4 + announced (buffer p)) (buffer p),
                 payload = drop 4 (take (4 + announced (buffer p)) (buffer p))\<rparr>]) \<Longrightarrow> P p fs"
  shows "P p fs"
proof (induction "length (buffer p)" arbitrary: p fs rule: less_induct)
  case (less p fs)
  show ?case
  proof (cases "find_magic (buffer p)")
    case None
    then show ?thesis using empty no_magic by blast
  next
    case (Some i)
    show ?thesis
    proof (cases "i = 0")
      case False
      with find_magic_bound [OF Some] have "P (p\<lparr>discarded_bytes := discarded_bytes p + i,
          buffer := drop i (buffer p)\<rparr>) fs"
        by (intro less.hyps) simp
      with False show ?thesis using skip [OF Some, of fs] by simp
    next
      case True
      with Some have sm: "starts_magic (buffer p)"
        using starts_magic_drop by fastforce
      then have "0 < length (buffer p)" by (auto simp: starts_magic_conv)
      then have ne: "buffer p \<noteq> []" by simp
      consider "length (buffer p) < 4"
        | "4 \<le> length (buffer p)" "maximum_payload_size p < announced (buffer p)"
        | "4 \<le> length (buffer p)" "announced (buffer p) \<le> maximum_payload_size p"
          "length (buffer p) < 4 + announced (buffer p)"
        | "4 + announced (buffer p) \<le> length (buffer p)" "announced (buffer p) \<le> maximum_payload_size p"
        by linarith
      then show ?thesis
      proof cases
        case 1 with sm show ?thesis by (rule short)
      next
        case 2
        show ?thesis by (rule oversized [OF sm 2], rule less.hyps) (simp add: ne)
      next
        case 3 with sm show ?thesis by (rule incomplete)
      next
        case 4
        show ?thesis by (rule frame [OF sm 4], rule less.hyps) (simp add: ne)
      qed
    qed
  qed
qed

subsection \<open>The stream can be cut anywhere\<close>

lemma find_magic_append: "find_magic bs = Some i \<Longrightarrow> find_magic (bs @ ys) = Some i"
  by (induction bs arbitrary: i rule: find_magic.induct) (auto split: if_splits)

definition kept_tail :: "bytes \<Rightarrow> bytes" where
  "kept_tail bs = (if bs \<noteq> [] \<and> last bs = 0x94 then [0x94] else [])"

lemma length_kept_tail: "length (kept_tail bs) \<le> length bs"
  by (cases bs) (auto simp: kept_tail_def)

lemma find_magic_skip: "v \<noteq> 0x94 \<Longrightarrow> find_magic (v # ys) = map_option Suc (find_magic ys)"
  by (cases ys) simp_all

lemma find_magic_none_append:
  "find_magic bs = None \<Longrightarrow>
   find_magic (bs @ ys) =
     map_option (\<lambda>i. length bs - length (kept_tail bs) + i) (find_magic (kept_tail bs @ ys))"
proof (induction bs rule: find_magic.induct)
  case (1 a b bs)
  then have "find_magic (b # bs) = None" and nm: "\<not> (a = 0x94 \<and> b = 0xc3)"
    by (auto split: if_splits)
  with 1 have "find_magic ((b # bs) @ ys) = map_option
      (\<lambda>i. length (b # bs) - length (kept_tail (b # bs)) + i) (find_magic (kept_tail (b # bs) @ ys))"
    by auto
  moreover have "kept_tail (a # b # bs) = kept_tail (b # bs)"
    by (simp add: kept_tail_def)
  ultimately show ?case using nm length_kept_tail [of "b # bs"]
    by (cases "find_magic (kept_tail (b # bs) @ ys)") (auto simp: Suc_diff_le)
qed (auto simp: kept_tail_def find_magic_skip option.map_ident cong: option.map_cong)

text \<open>Junk in front of the buffer is dropped and counted, whatever follows it.\<close>

lemma feed_loop_junk:
  assumes shift: "find_magic (j @ c) = map_option (\<lambda>i. length j + i) (find_magic c)"
    and tail: "c = [] \<Longrightarrow> j \<noteq> [] \<Longrightarrow> last j \<noteq> 0x94"
  shows "feed_loop (p\<lparr>buffer := j @ c\<rparr>) fs =
    feed_loop (p\<lparr>discarded_bytes := discarded_bytes p + length j, buffer := c\<rparr>) fs"
proof (cases "find_magic c")
  case None
  with shift have none: "find_magic (j @ c) = None" by simp
  show ?thesis
  proof (cases "c = []")
    case True
    with none tail show ?thesis
      by (cases "j = []") (simp_all add: feed_loop_empty feed_loop_no_magic)
  next
    case False
    with None none show ?thesis
      by (cases c rule: rev_cases) (auto simp: feed_loop_no_magic)
  qed
next
  case (Some i)
  with shift have "find_magic (j @ c) = Some (length j + i)" by simp
  with Some show ?thesis
    using feed_loop_skip [of "p\<lparr>buffer := j @ c\<rparr>" "length j + i" fs]
      feed_loop_skip [of "p\<lparr>discarded_bytes := discarded_bytes p + length j, buffer := c\<rparr>" i fs]
    by (simp add: add.assoc)
qed

lemma announced_append: "4 \<le> length bs \<Longrightarrow> announced (bs @ ys) = announced bs"
  by (simp add: announced_def)

lemma starts_magic_append: "starts_magic bs \<Longrightarrow> starts_magic (bs @ ys)"
  by (auto simp: starts_magic_conv)

lemma feed_loop_none_state:
  assumes "buffer p \<noteq> []" and "find_magic (buffer p) = None"
  shows "feed_loop p fs = (p\<lparr>discarded_bytes :=
    discarded_bytes p + (length (buffer p) - length (kept_tail (buffer p))),
    buffer := kept_tail (buffer p)\<rparr>, fs)"
  using assms by (auto simp: feed_loop_no_magic kept_tail_def)

lemma feed_loop_append:
  "feed_loop (p\<lparr>buffer := buffer p @ ys\<rparr>) fs =
     (let (p', gs) = feed_loop p fs in feed_loop (p'\<lparr>buffer := buffer p' @ ys\<rparr>) gs)"
proof (induction p fs rule: feed_loop_cases_induct)
  case (no_magic p fs)
  let ?t = "kept_tail (buffer p)" and ?n = "length (buffer p) - length (kept_tail (buffer p))"
  let ?j = "take ?n (buffer p)"
  have split: "buffer p = ?j @ ?t"
    using no_magic(1) by (cases "buffer p" rule: rev_cases) (auto simp: kept_tail_def)
  have len: "length ?j = ?n" by simp
  have "?t = [] \<Longrightarrow> last (buffer p) \<noteq> 0x94"
    using no_magic(1) by (auto simp: kept_tail_def split: if_splits)
  then have tail: "?t @ ys = [] \<Longrightarrow> ?j \<noteq> [] \<Longrightarrow> last ?j \<noteq> 0x94"
    by simp
  have shift: "find_magic (?j @ (?t @ ys)) =
      map_option (\<lambda>i. length ?j + i) (find_magic (?t @ ys))"
    using find_magic_none_append [OF no_magic(2), of ys] split len
    by (metis append_assoc)
  have "feed_loop (p\<lparr>buffer := ?j @ (?t @ ys)\<rparr>) fs =
      feed_loop (p\<lparr>discarded_bytes := discarded_bytes p + length ?j, buffer := ?t @ ys\<rparr>) fs"
    by (rule feed_loop_junk [OF shift tail])
  moreover have "p\<lparr>buffer := buffer p @ ys\<rparr> = p\<lparr>buffer := ?j @ (?t @ ys)\<rparr>"
    using split by (metis append_assoc)
  ultimately show ?case
    by (simp add: feed_loop_none_state [OF no_magic])
next
  case (skip p fs i)
  note bound = find_magic_bound [OF skip(1)]
  have "feed_loop (p\<lparr>buffer := buffer p @ ys\<rparr>) fs =
    feed_loop (p\<lparr>discarded_bytes := discarded_bytes p + i, buffer := drop i (buffer p) @ ys\<rparr>) fs"
    using feed_loop_skip [of "p\<lparr>buffer := buffer p @ ys\<rparr>" i fs] find_magic_append [OF skip(1)] bound
    by simp
  with skip.IH show ?case by (simp add: feed_loop_skip [OF skip(1)])
next
  case (oversized p fs)
  then have "buffer p \<noteq> []" by auto
  with oversized show ?case
    using feed_loop_oversized [of "p\<lparr>buffer := buffer p @ ys\<rparr>" fs]
    by (simp add: feed_loop_oversized starts_magic_append announced_append)
next
  case (frame p fs)
  then show ?case
    using feed_loop_frame [of "p\<lparr>buffer := buffer p @ ys\<rparr>" fs]
    by (simp add: feed_loop_frame starts_magic_append announced_append)
qed (simp_all add: feed_loop_empty feed_loop_short feed_loop_incomplete)

lemma feed_loop_acc: "feed_loop p fs = (let (p', gs) = feed_loop p [] in (p', fs @ gs))"
proof -
  have "feed_loop p (es @ gs) = (let (p', hs) = feed_loop p gs in (p', es @ hs))" for es gs
  proof (induction p gs rule: feed_loop_cases_induct)
    case (no_magic p fs)
    then show ?case by (simp add: feed_loop_none_state)
  next
    case (skip p fs i)
    then show ?case by (simp add: feed_loop_skip [OF skip(1)])
  qed (simp_all add: feed_loop_empty feed_loop_short feed_loop_incomplete
        feed_loop_oversized feed_loop_frame)
  from this [of fs "[]"] show ?thesis by simp
qed

lemma feed_append:
  "feed p (xs @ ys) = (let (p1, fs) = feed p xs; (p2, gs) = feed p1 ys in (p2, fs @ gs))"
  unfolding feed_def
  using feed_loop_append [of "p\<lparr>buffer := buffer p @ xs\<rparr>" ys "[]"]
  by (simp add: split_beta Let_def feed_loop_acc [of _ "snd _"])

lemma feed_new_nil [simp]: "feed (new_parser m) [] = (new_parser m, [])"
  by (simp add: feed_def new_parser_def feed_loop_empty)

lemma feed_all_concat_Cons: "feed_all p (d # ds) = feed p (concat (d # ds))"
proof (induction ds arbitrary: p d)
  case Nil
  then show ?case by (simp add: split_beta Let_def)
next
  case (Cons e ds)
  have "feed_all p (d # e # ds) = (let (p1, fs) = feed p d; (p2, gs) = feed p1 (concat (e # ds)) in (p2, fs @ gs))"
    using Cons.IH by (simp add: split_beta Let_def)
  then show ?case by (simp add: feed_append split_beta Let_def)
qed

subsection \<open>Accounting, well-formed frames, bounded buffer\<close>

definition raw_total :: "frame list \<Rightarrow> nat" where
  "raw_total fs = sum_list (map (length \<circ> raw) fs)"

lemma raw_total_simps [simp]:
  "raw_total [] = 0" "raw_total (f # fs) = length (raw f) + raw_total fs"
  "raw_total (fs @ gs) = raw_total fs + raw_total gs"
  by (simp_all add: raw_total_def)

lemma feed_loop_account:
  "feed_loop p fs = (p', gs) \<Longrightarrow>
   discarded_bytes p' + raw_total gs + length (buffer p') =
   discarded_bytes p + raw_total fs + length (buffer p)"
proof (induction p fs rule: feed_loop_cases_induct)
  case (no_magic p fs)
  then show ?case using length_kept_tail [of "buffer p"]
    by (auto simp: feed_loop_none_state)
next
  case (skip p fs i)
  then show ?case using find_magic_bound [OF skip(1)]
    by (simp add: feed_loop_skip [OF skip(1)])
next
  case (oversized p fs)
  then show ?case by (simp add: feed_loop_oversized)
next
  case (frame p fs)
  then show ?case by (simp add: feed_loop_frame)
qed (simp_all add: feed_loop_empty feed_loop_short feed_loop_incomplete)

text \<open>A frame as the wire carries it: magic, two length bytes, payload.\<close>

definition wire_frame :: "nat \<Rightarrow> frame \<Rightarrow> bool" where
  "wire_frame m f \<longleftrightarrow>
     raw f = MAGIC @ to_bytes2 (length (payload f)) @ payload f \<and> length (payload f) \<le> m"

lemma header_lengths [simp]: "length (to_bytes2 n) = 2" "length MAGIC = 2"
  by (simp_all add: to_bytes2_def MAGIC_def)

lemma from_bytes_big_pair: "from_bytes_big [a, b] = 256 * unat a + unat b"
  by (simp add: from_bytes_big_def)

lemma unat_byte_less: "unat (b :: byte) < 256"
proof -
  have "unat b < 2 ^ LENGTH(8)" by (rule unsigned_less)
  then show ?thesis by simp
qed

lemma to_bytes2_from: "to_bytes2 (256 * unat a + unat b) = [a, b :: byte]"
  using unat_byte_less [of a] unat_byte_less [of b] by (simp add: to_bytes2_def)

lemma from_to_bytes2: "n < 65536 \<Longrightarrow> from_bytes_big (to_bytes2 n) = n"
  by (simp add: to_bytes2_def from_bytes_big_pair unat_of_nat)

lemma announced_frame:
  assumes "starts_magic bs" and "4 \<le> length bs"
  shows "take 4 bs = MAGIC @ to_bytes2 (announced bs)"
proof -
  from assms obtain cs where bs: "bs = 0x94 # 0xc3 # cs" "2 \<le> length cs"
    by (auto simp: starts_magic_conv)
  then obtain a b ds where "cs = a # b # ds"
    by (cases cs rule: find_magic.cases) auto
  with bs show ?thesis
    by (simp add: announced_def from_bytes_big_pair to_bytes2_from MAGIC_def)
qed

lemma wire_frame_taken:
  assumes "starts_magic bs" and "4 + announced bs \<le> length bs" and "announced bs \<le> m"
  shows "wire_frame m \<lparr>raw = take (4 + announced bs) bs,
    payload = drop 4 (take (4 + announced bs) bs)\<rparr>"
proof -
  have "take (4 + announced bs) bs = take 4 bs @ take (announced bs) (drop 4 bs)"
    by (rule take_add)
  moreover from assms(2) have "length (take (announced bs) (drop 4 bs)) = announced bs"
    by simp
  ultimately show ?thesis using announced_frame [of bs] assms
    by (simp add: wire_frame_def)
qed

lemma feed_loop_wire:
  "feed_loop p fs = (p', gs) \<Longrightarrow> \<forall>f\<in>set fs. wire_frame (maximum_payload_size p) f \<Longrightarrow>
   maximum_payload_size p' = maximum_payload_size p \<and>
   (\<forall>f\<in>set gs. wire_frame (maximum_payload_size p) f)"
proof (induction p fs rule: feed_loop_cases_induct)
  case (no_magic p fs)
  then show ?case by (auto simp: feed_loop_none_state)
next
  case (skip p fs i)
  then show ?case by (simp add: feed_loop_skip [OF skip(1)])
next
  case (frame p fs)
  then show ?case by (simp add: feed_loop_frame wire_frame_taken)
qed (simp_all add: feed_loop_empty feed_loop_short feed_loop_incomplete feed_loop_oversized)

lemma feed_loop_bounded:
  "feed_loop p fs = (p', gs) \<Longrightarrow> length (buffer p') < 4 + maximum_payload_size p"
proof (induction p fs rule: feed_loop_cases_induct)
  case (no_magic p fs)
  then show ?case by (auto simp: feed_loop_none_state kept_tail_def)
next
  case (skip p fs i)
  then show ?case by (simp add: feed_loop_skip [OF skip(1)])
qed (simp_all add: feed_loop_empty feed_loop_short feed_loop_incomplete
      feed_loop_oversized feed_loop_frame)

subsection \<open>Encoding\<close>

definition frame_of :: "bytes \<Rightarrow> frame" where
  "frame_of pl = \<lparr>raw = MAGIC @ to_bytes2 (length pl) @ pl, payload = pl\<rparr>"

lemma encode_frame_ok: "length pl \<le> 512 \<Longrightarrow> encode_frame pl = Inr (raw (frame_of pl))"
  by (simp add: encode_frame_def MAX_PROTOBUF_SIZE_def frame_of_def)

lemma announced_encoded:
  "length pl < 65536 \<Longrightarrow> announced (raw (frame_of pl) @ bs) = length pl"
  by (simp add: announced_def frame_of_def MAGIC_def from_to_bytes2)

lemma feed_loop_encoded:
  assumes "length pl \<le> maximum_payload_size p" and "length pl < 65536"
  shows "feed_loop (p\<lparr>buffer := raw (frame_of pl) @ bs\<rparr>) fs =
    feed_loop (p\<lparr>buffer := bs\<rparr>) (fs @ [frame_of pl])"
proof -
  let ?p = "p\<lparr>buffer := raw (frame_of pl) @ bs\<rparr>"
  have sm: "starts_magic (buffer ?p)" by (simp add: frame_of_def starts_magic_def MAGIC_def)
  have ann: "announced (buffer ?p) = length pl" using assms(2) by (simp add: announced_encoded)
  have len: "length (raw (frame_of pl)) = 4 + length pl" by (simp add: frame_of_def MAGIC_def)
  from len have tk: "take (4 + length pl) (buffer ?p) = raw (frame_of pl)"
    and dr: "drop (4 + length pl) (buffer ?p) = bs" by simp_all
  have "drop 4 (raw (frame_of pl)) = pl" by (simp add: frame_of_def MAGIC_def)
  with feed_loop_frame [OF sm, of fs, unfolded ann tk dr] len assms(1) show ?thesis
    by (simp add: frame_of_def)
qed

lemma feed_loop_encoded_all:
  assumes "\<forall>pl\<in>set pls. length pl \<le> 512" and "512 \<le> maximum_payload_size p"
  shows "feed_loop (p\<lparr>buffer := concat (map (raw \<circ> frame_of) pls)\<rparr>) fs =
    (p\<lparr>buffer := []\<rparr>, fs @ map frame_of pls)"
  using assms(1)
proof (induction pls arbitrary: fs)
  case Nil
  then show ?case by (simp add: feed_loop_empty)
next
  case (Cons pl pls)
  with assms(2) show ?case by (simp add: feed_loop_encoded)
qed

lemma find_magic_noise: "0x94 \<notin> set j \<Longrightarrow> find_magic (j @ c) = map_option (\<lambda>i. length j + i) (find_magic c)"
proof (induction j)
  case Nil
  then show ?case by (cases "find_magic c") simp_all
next
  case (Cons a j)
  then show ?case
    by (cases "j @ c") (auto simp: option.map_comp comp_def)
qed

lemma feed_loop_noise:
  assumes "0x94 \<notin> set noise"
  shows "feed_loop (p\<lparr>buffer := noise @ c\<rparr>) fs =
    feed_loop (p\<lparr>discarded_bytes := discarded_bytes p + length noise, buffer := c\<rparr>) fs"
  using assms by (intro feed_loop_junk find_magic_noise) (auto dest: last_in_set)

text \<open>
  C36. The frames and the parser state do not depend on where the TCP reads cut the stream:
  feeding a fresh parser any sequence of chunks gives what feeding their concatenation gives.
\<close>

theorem feed_chunking_independent:
  "feed_all (new_parser m) ds = feed (new_parser m) (concat ds)"
  by (cases ds) (simp_all only: feed_all_concat_Cons feed_all.simps concat.simps feed_new_nil)

text \<open>
  Byte accounting: what the parser discarded, emitted in frames and still buffers adds up
  to what it had and what it was given.
\<close>

theorem feed_accounts_for_every_byte:
  "discarded_bytes (fst (feed p data)) + raw_total (snd (feed p data)) +
     length (buffer (fst (feed p data))) =
   discarded_bytes p + length (buffer p) + length data"
  using feed_loop_account [of "p\<lparr>buffer := buffer p @ data\<rparr>" "[]" "fst (feed p data)" "snd (feed p data)"]
  by (simp add: feed_def)

text \<open>
  Every frame the parser emits carries its exact wire bytes: encoding its payload again
  gives the raw bytes, and the payload is within the parser's maximum.
\<close>

theorem feed_frames_are_wire_frames:
  assumes "maximum_payload_size p \<le> MAX_PROTOBUF_SIZE"
  shows "list_all (\<lambda>f. encode_frame (payload f) = Inr (raw f) \<and>
    length (payload f) \<le> maximum_payload_size p) (snd (feed p data))"
  using assms feed_loop_wire [of "p\<lparr>buffer := buffer p @ data\<rparr>" "[]" "fst (feed p data)" "snd (feed p data)"]
  by (auto simp: feed_def wire_frame_def encode_frame_def list_all_iff)

lemma feed_frames_are_wire_frames_witness:
  "list_all (\<lambda>f. encode_frame (payload f) = Inr (raw f) \<and> length (payload f) \<le> 512)
     (snd (feed (new_parser 512) [7, 0x94, 0xc3, 0, 1, 9])) \<and>
   snd (feed (new_parser 512) [7, 0x94, 0xc3, 0, 1, 9]) =
     [\<lparr>raw = [0x94, 0xc3, 0, 1, 9], payload = [9]\<rparr>]"
proof
  show "list_all (\<lambda>f. encode_frame (payload f) = Inr (raw f) \<and> length (payload f) \<le> 512)
     (snd (feed (new_parser 512) [7, 0x94, 0xc3, 0, 1, 9]))"
    using feed_frames_are_wire_frames [of "new_parser 512" "[7, 0x94, 0xc3, 0, 1, 9]"]
    by (simp add: MAX_PROTOBUF_SIZE_def new_parser_def)
  show "snd (feed (new_parser 512) [7, 0x94, 0xc3, 0, 1, 9]) =
     [\<lparr>raw = [0x94, 0xc3, 0, 1, 9], payload = [9]\<rparr>]"
    by (simp add: feed_def new_parser_def feed_loop.simps Let_def HEADER_SIZE_def from_bytes_big_def)
qed

text \<open>
  The buffer stays bounded: after any feed it holds less than one header and one maximal
  payload.
\<close>

theorem feed_buffer_bounded:
  "length (buffer (fst (feed p data))) < HEADER_SIZE + maximum_payload_size p"
  using feed_loop_bounded [of "p\<lparr>buffer := buffer p @ data\<rparr>" "[]" "fst (feed p data)" "snd (feed p data)"]
  by (simp add: feed_def HEADER_SIZE_def)

text \<open>
  C35. Round trip with resynchronisation: after noise without a magic start byte, a stream of
  encoded payloads parses back to exactly these payloads, the noise is counted as discarded
  and nothing stays buffered.
\<close>

theorem encode_feed_roundtrip:
  assumes "map encode_frame pls = map Inr encs" and "0x94 \<notin> set noise"
  shows "feed (new_parser MAX_PROTOBUF_SIZE) (noise @ concat encs) =
    ((new_parser MAX_PROTOBUF_SIZE)\<lparr>discarded_bytes := length noise\<rparr>, map frame_of pls)"
proof -
  have ok: "\<forall>pl\<in>set pls. length pl \<le> 512"
  proof
    fix pl assume "pl \<in> set pls"
    then have "encode_frame pl \<in> set (map encode_frame pls)" by simp
    with assms(1) have "isOk (encode_frame pl)" by auto
    then show "length pl \<le> 512" 
      by (simp add: encode_frame_def MAX_PROTOBUF_SIZE_def split: if_splits)
  qed
  then have "map encode_frame pls = map Inr (map (raw \<circ> frame_of) pls)"
    by (auto simp: encode_frame_ok)
  with assms(1) have encs: "encs = map (raw \<circ> frame_of) pls"
    by (metis (no_types, lifting) inj_Inr inj_map_eq_map)
  have "feed (new_parser MAX_PROTOBUF_SIZE) (noise @ concat encs) =
      feed_loop ((new_parser MAX_PROTOBUF_SIZE)\<lparr>discarded_bytes := length noise,
        buffer := concat encs\<rparr>) []"
    using feed_loop_noise [OF assms(2), where p = "new_parser MAX_PROTOBUF_SIZE" and c = "concat encs"]
    by (simp add: feed_def new_parser_def)
  also have "\<dots> = ((new_parser MAX_PROTOBUF_SIZE)\<lparr>discarded_bytes := length noise\<rparr>, map frame_of pls)"
    using feed_loop_encoded_all [OF ok, of "(new_parser MAX_PROTOBUF_SIZE)\<lparr>discarded_bytes := length noise\<rparr>" "[]"]
      encs by (simp add: MAX_PROTOBUF_SIZE_def new_parser_def)
  finally show ?thesis .
qed

lemma encode_feed_roundtrip_witness:
  "feed (new_parser MAX_PROTOBUF_SIZE) ([7, 0xc3] @ concat [[0x94, 0xc3, 0, 2, 1, 2], [0x94, 0xc3, 0, 0]]) =
    ((new_parser MAX_PROTOBUF_SIZE)\<lparr>discarded_bytes := length [7, 0xc3 :: byte]\<rparr>, map frame_of [[1, 2], []])"
  by (rule encode_feed_roundtrip)
    (simp_all add: encode_frame_def MAX_PROTOBUF_SIZE_def MAGIC_def to_bytes2_def)

end
