(* ===== verification/Py_Float.thy ===== *)
theory Py_Float
  imports Complex_Main Prelude "HOL-Library.Log_Nat"
begin

text \<open>
  Python's \<^verbatim>\<open>float\<close>: a value is a rational number, and every operation rounds the exact
  result to the nearest IEEE 754 double, ties to even (\<open>fl\<close>), subnormal numbers included.
  Results of magnitude \<open>2 ^ 1024\<close> or more (Python's infinity) are outside the model. The
  lemmas say that rounding is monotone, keeps representable values (small integers in
  particular) and keeps the sign; they carry the proofs about air time, percentiles and
  schedules.
\<close>

named_theorems float_simps \<open>unfolding rules of the float operations\<close>

type_synonym pyfloat = rat

subsection \<open>Rounding\<close>

text \<open>The exponent of a positive rational: \<open>2 powi k \<le> x < 2 powi (k + 1)\<close>.\<close>

definition ilog2 :: "rat \<Rightarrow> int" where
  "ilog2 x = (let (p, q) = quotient_of x; k = bitlen p - bitlen q
              in if 2 powi k \<le> x then k else k - 1)"

definition round_half_even :: "rat \<Rightarrow> int" where
  "round_half_even x =
     (let f = \<lfloor>x\<rfloor>; d = x - of_int f
      in if d < 1 / 2 then f else if 1 / 2 < d then f + 1 else if even f then f else f + 1)"

text \<open>The spacing of doubles around a positive number.\<close>

definition ulp_exp :: "rat \<Rightarrow> int" where
  "ulp_exp x = max (ilog2 x - 52) (- 1074)"

definition fl_pos :: "rat \<Rightarrow> rat" where
  "fl_pos x = (let u = 2 powi (ulp_exp x) in of_int (round_half_even (x / u)) * u)"

definition fl :: "rat \<Rightarrow> pyfloat" where
  "fl x = (if x = 0 then 0 else if 0 < x then fl_pos x else - fl_pos (- x))"

subsection \<open>The operations\<close>

definition fadd :: "pyfloat \<Rightarrow> pyfloat \<Rightarrow> pyfloat" where "fadd x y = fl (x + y)"
definition fsub :: "pyfloat \<Rightarrow> pyfloat \<Rightarrow> pyfloat" where "fsub x y = fl (x - y)"
definition fmul :: "pyfloat \<Rightarrow> pyfloat \<Rightarrow> pyfloat" where "fmul x y = fl (x * y)"

text \<open>Division by a divisor the code knows to be non-zero.\<close>

definition fdiv :: "pyfloat \<Rightarrow> pyfloat \<Rightarrow> pyfloat" where "fdiv x y = fl (x / y)"

definition float_of_int :: "int \<Rightarrow> pyfloat" where "float_of_int n = fl (of_int n)"

text \<open>\<^verbatim>\<open>int / int\<close> is the correctly rounded quotient.\<close>

definition int_truediv :: "int \<Rightarrow> int \<Rightarrow> pyfloat" where
  "int_truediv a b = fl (of_int a / of_int b)"

text \<open>\<^verbatim>\<open>int(x)\<close> truncates towards zero.\<close>

definition py_trunc :: "pyfloat \<Rightarrow> int" where
  "py_trunc x = (if 0 \<le> x then \<lfloor>x\<rfloor> else \<lceil>x\<rceil>)"

lemmas float_ops [float_simps] =
  fadd_def fsub_def fmul_def fdiv_def float_of_int_def int_truediv_def

subsection \<open>Exponents\<close>

lemma ilog2_bounds:
  assumes "0 < x"
  shows "2 powi (ilog2 x) \<le> x \<and> x < 2 powi (ilog2 x + 1)"
proof -
  obtain p q where pq: "quotient_of x = (p, q)" by (cases "quotient_of x")
  then have q: "0 < q" and x: "x = of_int p / of_int q"
    by (simp_all add: quotient_of_denom_pos quotient_of_div)
  with assms have p: "0 < p" by (simp add: zero_less_divide_iff)
  let ?k = "bitlen p - bitlen q"
  have pow: "of_int (2 ^ n) = (2 powi (int n) :: rat)" for n by simp
  have bp: "1 \<le> bitlen p" and bq: "1 \<le> bitlen q"
    using p q bitlen_eq_zero_iff [of p] bitlen_eq_zero_iff [of q] bitlen_nonneg [of p] bitlen_nonneg [of q]
    by linarith+
  have "of_int (2 ^ nat (bitlen p - 1)) \<le> (of_int p :: rat)" "of_int p < (of_int (2 ^ nat (bitlen p)) :: rat)"
    "of_int (2 ^ nat (bitlen q - 1)) \<le> (of_int q :: rat)" "of_int q < (of_int (2 ^ nat (bitlen q)) :: rat)"
    using bitlen_bounds [OF p] bitlen_bounds [OF q] by (simp_all only: of_int_le_iff of_int_less_iff)
  then have P: "2 powi (bitlen p - 1) \<le> (of_int p :: rat)" "of_int p < (2 powi bitlen p :: rat)"
    and Q: "2 powi (bitlen q - 1) \<le> (of_int q :: rat)" "of_int q < (2 powi bitlen q :: rat)"
    using bp bq unfolding pow by simp_all
  have "?k - 1 = (bitlen p - 1) - bitlen q" by simp
  then have "(2 :: rat) powi (?k - 1) = 2 powi (bitlen p - 1) / 2 powi bitlen q"
    by (simp only: power_int_diff [OF disjI1 [OF zero_neq_numeral [symmetric]]])
  also have "\<dots> \<le> x" unfolding x using P Q q p by (intro frac_le) auto
  finally have lo: "2 powi (?k - 1) \<le> x" .
  have "x < 2 powi bitlen p / 2 powi (bitlen q - 1)"
    unfolding x using P Q p by (intro frac_less) auto
  also have "\<dots> = 2 powi (?k + 1)" by (simp add: power_int_diff power_int_add)
  finally have hi: "x < 2 powi (?k + 1)" .
  from lo hi show ?thesis by (auto simp: ilog2_def pq Let_def)
qed

lemma powi_le_imp: "(2 :: rat) powi a < 2 powi b \<Longrightarrow> a < b"
  by (metis linorder_not_le power_int_increasing one_le_numeral)

lemma ilog2_mono: "0 < x \<Longrightarrow> x \<le> y \<Longrightarrow> ilog2 x \<le> ilog2 y"
  using ilog2_bounds [of x] ilog2_bounds [of y] powi_le_imp [of "ilog2 x" "ilog2 y + 1"] by fastforce

lemma ulp_exp_mono: "0 < x \<Longrightarrow> x \<le> y \<Longrightarrow> ulp_exp x \<le> ulp_exp y"
  using ilog2_mono [of x y] by (auto simp: ulp_exp_def)

subsection \<open>Rounding to an integer\<close>

lemma round_half_even_of_int [simp]: "round_half_even (of_int n) = n"
  by (simp add: round_half_even_def)

lemma round_half_even_bounds: "\<lfloor>x\<rfloor> \<le> round_half_even x" "round_half_even x \<le> \<lfloor>x\<rfloor> + 1"
  by (simp_all add: round_half_even_def Let_def)

lemma round_half_even_mono:
  assumes "x \<le> y"
  shows "round_half_even x \<le> round_half_even y"
proof (cases "\<lfloor>x\<rfloor> = \<lfloor>y\<rfloor>")
  case True
  define f where "f = \<lfloor>y\<rfloor>"
  have "x = y" if "\<not> x - of_int f < 1 / 2" "\<not> 1 / 2 < y - of_int f"
    using that assms by (simp add: not_less)
  then consider "x - of_int f < 1 / 2" | "1 / 2 < y - of_int f" | "x = y" by blast
  then show ?thesis
  proof cases
    case 1
    then have "round_half_even x = f" using True by (simp add: round_half_even_def f_def)
    then show ?thesis using round_half_even_bounds(1) [of y] by (simp add: f_def)
  next
    case 2
    then have "round_half_even y = f + 1" by (simp add: round_half_even_def f_def)
    then show ?thesis using round_half_even_bounds(2) [of x] True by (simp add: f_def)
  next
    case 3
    then show ?thesis by simp
  qed
next
  case False
  with floor_mono [OF assms] have "\<lfloor>x\<rfloor> + 1 \<le> \<lfloor>y\<rfloor>" by linarith
  then show ?thesis
    using round_half_even_bounds(2) [of x] round_half_even_bounds(1) [of y] by linarith
qed

lemma round_half_even_nonneg: "0 \<le> x \<Longrightarrow> 0 \<le> round_half_even x"
  using round_half_even_mono [of 0 x] round_half_even_of_int [of 0] by simp

subsection \<open>Representable numbers\<close>

definition representable :: "rat \<Rightarrow> bool" where
  "representable x \<longleftrightarrow> (\<exists>m e. x = of_int m * 2 powi e \<and> \<bar>m\<bar> \<le> 2 ^ 53 \<and> - 1074 \<le> e)"

lemma representable_minus [simp]: "representable (- x) \<longleftrightarrow> representable x"
proof -
  have "representable (- y)" if y: "representable y" for y
  proof -
    from y obtain m e where "y = of_int m * 2 powi e" "\<bar>m\<bar> \<le> 2 ^ 53" "- 1074 \<le> e"
      unfolding representable_def by blast
    then have "- y = of_int (- m) * 2 powi e" "\<bar>- m\<bar> \<le> 2 ^ 53" "- 1074 \<le> e" by simp_all
    then show ?thesis unfolding representable_def by blast
  qed
  from this [of x] this [of "- x"] show ?thesis by auto
qed

lemma representable_int: "\<bar>n\<bar> \<le> 2 ^ 53 \<Longrightarrow> representable (of_int n)"
  unfolding representable_def by (intro exI [of _ n] exI [of _ 0]) simp

text \<open>A positive representable number is an integer multiple of its own spacing.\<close>

lemma representable_grid:
  assumes "representable x" and "0 < x"
  obtains n where "x = of_int n * 2 powi (ulp_exp x)"
proof -
  from assms(1) obtain m e where m: "x = of_int m * 2 powi e" "\<bar>m\<bar> \<le> 2 ^ 53" "- 1074 \<le> e"
    unfolding representable_def by blast
  show thesis
  proof (cases "ulp_exp x \<le> e")
    case True
    have "(2 :: rat) powi e = 2 powi (e - ulp_exp x) * 2 powi (ulp_exp x)"
      by (simp add: power_int_diff)
    moreover from True have "(2 :: rat) powi (e - ulp_exp x) = of_int (2 ^ nat (e - ulp_exp x))"
      by (simp add: power_int_nonneg_exp)
    ultimately have "x = of_int (m * 2 ^ nat (e - ulp_exp x)) * 2 powi (ulp_exp x)"
      using m(1) by simp
    then show thesis by (rule that)
  next
    case False
    with m(3) have e: "e < ilog2 x - 52" by (auto simp: ulp_exp_def)
    have "of_int m \<le> (2 ^ 53 :: rat)" using m(2)
      by (metis abs_le_D1 of_int_le_iff of_int_numeral of_int_power)
    then have "x \<le> 2 ^ 53 * 2 powi e" by (simp add: m(1))
    also have "\<dots> = 2 powi (e + 53)" by (simp add: power_int_add)
    finally have x: "x \<le> 2 powi (e + 53)" .
    also have "\<dots> \<le> 2 powi (ilog2 x)" using e by (intro power_int_increasing) auto
    also have "\<dots> \<le> x" using ilog2_bounds [OF assms(2)] by simp
    finally have x_eq: "x = 2 powi (ilog2 x)"
      using ilog2_bounds [OF assms(2)] by (meson \<open>2 powi (e + 53) \<le> 2 powi ilog2 x\<close> order.antisym x order_trans)
    show thesis
    proof (cases "ilog2 x - 52 \<ge> - 1074")
      case True
      then have "x = of_int (2 ^ 52) * 2 powi (ulp_exp x)"
        by (subst x_eq) (simp add: ulp_exp_def power_int_diff)
      then show thesis by (rule that)
    next
      case False
      with e m(3) show thesis by simp
    qed
  qed
qed

lemma fl_pos_grid:
  assumes "0 < x" and "representable x"
  shows "fl_pos x = x"
proof -
  from representable_grid [OF assms(2,1)] obtain n where "x = of_int n * 2 powi (ulp_exp x)" .
  then have "x / 2 powi (ulp_exp x) = of_int n" by (metis nonzero_mult_div_cancel_right power_int_not_zero zero_neq_numeral)
  then have "fl_pos x = of_int n * 2 powi (ulp_exp x)" by (simp add: fl_pos_def Let_def)
  with \<open>x = of_int n * 2 powi (ulp_exp x)\<close> show ?thesis by simp
qed

lemma fl_representable: "representable x \<Longrightarrow> fl x = x"
  using fl_pos_grid [of x] fl_pos_grid [of "- x"] by (auto simp: fl_def)

lemma fl_of_int: "\<bar>n\<bar> \<le> 2 ^ 53 \<Longrightarrow> fl (of_int n) = of_int n"
  by (intro fl_representable representable_int)

lemma fl_0 [simp]: "fl 0 = 0"
  by (simp add: fl_def)

lemma fl_1 [simp]: "fl 1 = 1"
  using fl_of_int [of 1] by simp

lemma fl_minus: "fl (- x) = - fl x"
  by (simp add: fl_def)

subsection \<open>Monotonicity\<close>

lemma fl_pos_nonneg: "0 < x \<Longrightarrow> 0 \<le> fl_pos x"
  by (simp add: fl_pos_def Let_def round_half_even_nonneg)

lemma fl_pos_le_grid:
  assumes "x \<le> of_int n * 2 powi (ulp_exp x)"
  shows "fl_pos x \<le> of_int n * 2 powi (ulp_exp x)"
proof -
  from assms have "x / 2 powi (ulp_exp x) \<le> of_int n" by (simp add: divide_le_eq)
  from round_half_even_mono [OF this] show ?thesis by (simp add: fl_pos_def Let_def)
qed

lemma fl_pos_ge_grid:
  assumes "of_int n * 2 powi (ulp_exp x) \<le> x"
  shows "of_int n * 2 powi (ulp_exp x) \<le> fl_pos x"
proof -
  from assms have "of_int n \<le> x / 2 powi (ulp_exp x)" by (simp add: le_divide_eq)
  from round_half_even_mono [OF this] show ?thesis by (simp add: fl_pos_def Let_def)
qed

lemma fl_pos_mono:
  assumes "0 < x" and "x \<le> y"
  shows "fl_pos x \<le> fl_pos y"
proof (cases "ulp_exp x = ulp_exp y")
  case True
  have "x / 2 powi (ulp_exp y) \<le> y / 2 powi (ulp_exp y)"
    using assms(2) by (simp add: divide_right_mono)
  from round_half_even_mono [OF this] True show ?thesis
    by (simp add: fl_pos_def Let_def)
next
  case False
  with ulp_exp_mono [OF assms] have lt: "ulp_exp x < ulp_exp y" by simp
  then have uy: "ulp_exp y = ilog2 y - 52" and k: "ilog2 x + 1 \<le> ilog2 y" "ulp_exp x \<le> ilog2 y"
    by (auto simp: ulp_exp_def)
  let ?g = "2 powi (ilog2 y) :: rat"
  have "?g = 2 powi (ilog2 y - ulp_exp x) * 2 powi (ulp_exp x)" by (simp add: power_int_diff)
  also have "2 powi (ilog2 y - ulp_exp x) = (of_int (2 ^ nat (ilog2 y - ulp_exp x)) :: rat)"
    using k by (simp add: power_int_nonneg_exp)
  finally have gx: "?g = of_int (2 ^ nat (ilog2 y - ulp_exp x)) * 2 powi (ulp_exp x)" .
  have gy: "?g = of_int (2 ^ 52) * 2 powi (ulp_exp y)" by (simp add: uy power_int_diff)
  have "x < 2 powi (ilog2 x + 1)" using ilog2_bounds [OF assms(1)] by simp
  also have "\<dots> \<le> ?g" using k by (intro power_int_increasing) auto
  finally have "fl_pos x \<le> ?g" using fl_pos_le_grid [of x] gx by (metis less_imp_le)
  also have "?g \<le> y" using ilog2_bounds [of y] assms by simp
  then have "?g \<le> fl_pos y" using fl_pos_ge_grid [of _ y] gy by metis
  finally show ?thesis .
qed

lemma fl_mono: "x \<le> y \<Longrightarrow> fl x \<le> fl y"
proof -
  assume le: "x \<le> y"
  consider "0 < x" | "x \<le> 0" "0 \<le> y" | "y < 0" by linarith
  then show ?thesis
  proof cases
    case 1 with le show ?thesis by (simp add: fl_def fl_pos_mono)
  next
    case 2
    then have "fl x \<le> 0" "0 \<le> fl y"
      using fl_pos_nonneg [of "- x"] fl_pos_nonneg [of y] by (auto simp: fl_def)
    then show ?thesis by simp
  next
    case 3 with le fl_pos_mono [of "- y" "- x"] show ?thesis by (simp add: fl_def)
  qed
qed

lemma fl_nonneg: "0 \<le> x \<Longrightarrow> 0 \<le> fl x"
  using fl_mono [of 0 x] by simp

lemma fl_le_representable: "x \<le> y \<Longrightarrow> representable y \<Longrightarrow> fl x \<le> y"
  using fl_mono [of x y] by (simp add: fl_representable)

lemma fl_ge_representable: "y \<le> x \<Longrightarrow> representable y \<Longrightarrow> y \<le> fl x"
  using fl_mono [of y x] by (simp add: fl_representable)

lemma fl_le_int: "x \<le> of_int n \<Longrightarrow> \<bar>n\<bar> \<le> 2 ^ 53 \<Longrightarrow> fl x \<le> of_int n"
  by (intro fl_le_representable representable_int)

lemma fl_ge_int: "of_int n \<le> x \<Longrightarrow> \<bar>n\<bar> \<le> 2 ^ 53 \<Longrightarrow> of_int n \<le> fl x"
  by (intro fl_ge_representable representable_int)

lemma fl_pos_iff: "1 \<le> x \<Longrightarrow> 0 < fl x"
  using fl_ge_int [of 1 x] by simp

lemma py_trunc_mono:
  assumes "x \<le> y"
  shows "py_trunc x \<le> py_trunc y"
proof (cases "\<not> 0 \<le> x \<and> 0 \<le> y")
  case True
  then have "\<lceil>x\<rceil> \<le> 0" and "0 \<le> \<lfloor>y\<rfloor>" by (simp_all add: ceiling_le_iff)
  then have "\<lceil>x\<rceil> \<le> \<lfloor>y\<rfloor>" by linarith
  with True show ?thesis by (simp add: py_trunc_def)
next
  case False
  with floor_mono [OF assms] ceiling_mono [OF assms] assms show ?thesis
    by (auto simp: py_trunc_def)
qed

lemma py_trunc_ge_int: "of_int n \<le> x \<Longrightarrow> 0 \<le> n \<Longrightarrow> n \<le> py_trunc x"
proof -
  assume le: "of_int n \<le> x" and n: "0 \<le> n"
  from n have "(0 :: rat) \<le> of_int n" by simp
  with le have "0 \<le> x" by linarith
  with le show ?thesis by (simp add: py_trunc_def le_floor_iff)
qed

text \<open>Every result of rounding is a double: rounding twice is rounding once.\<close>

lemma fl_pos_is_representable:
  assumes "0 < x"
  shows "representable (fl_pos x)"
proof -
  let ?u = "2 powi (ulp_exp x) :: rat" and ?m = "round_half_even (x / 2 powi (ulp_exp x))"
  have "x \<le> of_int (2 ^ 53) * ?u"
  proof -
    have "x < 2 powi (ilog2 x + 1)" using ilog2_bounds [OF assms] by simp
    also have "\<dots> \<le> 2 powi (53 + ulp_exp x)" by (intro power_int_increasing) (auto simp: ulp_exp_def)
    also have "\<dots> = of_int (2 ^ 53) * ?u" by (simp add: power_int_add)
    finally show ?thesis by simp
  qed
  then have "x / ?u \<le> of_int (2 ^ 53)" by (simp add: divide_le_eq)
  from round_half_even_mono [OF this] have "?m \<le> 2 ^ 53" by (simp only: round_half_even_of_int)
  moreover have "0 \<le> ?m" using assms by (simp add: round_half_even_nonneg)
  ultimately have "\<bar>?m\<bar> \<le> 2 ^ 53" by simp
  moreover have "- 1074 \<le> ulp_exp x" by (simp add: ulp_exp_def)
  ultimately show ?thesis unfolding representable_def fl_pos_def Let_def by blast
qed

lemma fl_is_representable [simp]: "representable (fl x)"
  using fl_pos_is_representable [of x] fl_pos_is_representable [of "- x"] representable_int [of 0]
  by (auto simp: fl_def)

lemma fl_idem [simp]: "fl (fl x) = fl x"
  by (simp add: fl_representable)

end
