(* ===== verification/Mesh_Packets.thy ===== *)
theory Mesh_Packets
  imports Py_Float
begin

text \<open>
  The protobuf messages of the \<^verbatim>\<open>meshtastic\<close> package, as far as the program reads or
  writes their fields. The package itself is not part of the repository: its wire format is the
  parameter \<open>codec\<close>, a record of the parse and serialise functions the code calls. Enumeration
  values stay symbolic. Fields of a message that the program never reads travel in an opaque
  field, so that copying a message copies them too.
\<close>

datatype portnum =
    UNKNOWN_APP | TEXT_MESSAGE_APP | ROUTING_APP | NODEINFO_APP | TELEMETRY_APP | ADMIN_APP
  | SIMULATOR_APP | OTHER_APP int

record data_msg =
  d_portnum :: portnum
  d_payload :: bytes
  d_request_id :: int
  d_want_response :: bool
  d_other :: bytes

record compressed =
  c_portnum :: portnum
  c_data :: bytes

text \<open>The \<^verbatim>\<open>payload_variant\<close> oneof of a mesh packet.\<close>

datatype packet_variant = Decoded data_msg | Encrypted bytes | NoPayload

record mesh_packet =
  p_id :: int
  p_to :: int
  p_from :: int
  p_want_ack :: bool
  p_hop_limit :: int
  p_hop_start :: int
  p_reliable :: bool
  p_rx_rssi :: int
  p_rx_snr :: rat
  p_rx_time :: int
  p_variant :: packet_variant
  p_other :: bytes

text \<open>A routing error that the enumeration does not name keeps its number.\<close>

datatype routing_error = NO_ERROR | RATE_LIMIT_EXCEEDED | OTHER_ERROR string | UNNAMED_ERROR int

record queue_status =
  qs_res :: int
  qs_mesh_packet_id :: int

datatype from_radio =
    FR_packet mesh_packet
  | FR_queueStatus queue_status
  | FR_config_complete_id int
  | FR_other

datatype to_radio = TR_packet mesh_packet | TR_want_config_id int

record codec =
  parse_compressed :: "bytes \<Rightarrow> compressed option"
  parse_routing :: "bytes \<Rightarrow> routing_error option"
  parse_from_radio :: "bytes \<Rightarrow> from_radio option"
  serialize_data :: "data_msg \<Rightarrow> bytes"
  serialize_to_radio :: "to_radio \<Rightarrow> bytes"

definition decoded_data :: "mesh_packet \<Rightarrow> data_msg option" where
  "decoded_data p = (case p_variant p of Decoded d \<Rightarrow> Some d | _ \<Rightarrow> None)"

definition empty_packet :: mesh_packet where
  "empty_packet = \<lparr>p_id = 0, p_to = 0, p_from = 0, p_want_ack = False, p_hop_limit = 0,
     p_hop_start = 0, p_reliable = False, p_rx_rssi = 0, p_rx_snr = 0, p_rx_time = 0,
     p_variant = NoPayload, p_other = []\<rparr>"

definition text_data :: "bytes \<Rightarrow> data_msg" where
  "text_data b = \<lparr>d_portnum = TEXT_MESSAGE_APP, d_payload = b, d_request_id = 0,
     d_want_response = False, d_other = []\<rparr>"

text \<open>A codec whose parsers accept nothing and whose serialisers write nothing, for examples.\<close>

definition null_codec :: codec where
  "null_codec = \<lparr>parse_compressed = (\<lambda>_. None), parse_routing = (\<lambda>_. None),
     parse_from_radio = (\<lambda>_. None), serialize_data = d_payload,
     serialize_to_radio = (\<lambda>_. [])\<rparr>"

end
