(* ===== verification/Airtime.thy ===== *)
theory Airtime
  imports Mesh_Packets
begin

text \<open>
  LoRa air time, \<^verbatim>\<open>src/backend/app/metrics/airtime.py\<close>: the modem table,
  \<^verbatim>\<open>airtime_ms\<close>, the retransmission bound and the length and port of a packet on the air.
  The arithmetic is the code's: each float operation rounds to a double.
\<close>

definition MESH_PACKET_HEADER_BYTES :: int where
  "MESH_PACKET_HEADER_BYTES = 16"

definition MAX_RETRANSMISSION_CONTENTION_SLOTS :: int where
  "MAX_RETRANSMISSION_CONTENTION_SLOTS = 2 ^ 8 + 2 * 8 + 2 ^ 5"

definition RETRANSMISSION_PROCESSING_TIME_MS :: int where
  "RETRANSMISSION_PROCESSING_TIME_MS = 4500"

definition SLOT_FIXED_OVERHEAD_MS :: pyfloat where
  "SLOT_FIXED_OVERHEAD_MS = fl (76 / 10)"

record modem_parameters =
  bandwidth_khz :: int
  spreading_factor :: nat
  coding_rate :: int

definition modem :: "int \<Rightarrow> nat \<Rightarrow> int \<Rightarrow> modem_parameters" where
  "modem bw sf cr = \<lparr>bandwidth_khz = bw, spreading_factor = sf, coding_rate = cr\<rparr>"

definition MODEM_PARAMETERS :: "(string, modem_parameters) dict" where
  "MODEM_PARAMETERS =
    [(''SHORT_TURBO'', modem 500 7 5),
     (''SHORT_FAST'', modem 250 7 5),
     (''SHORT_SLOW'', modem 250 8 5),
     (''MEDIUM_FAST'', modem 250 9 5),
     (''MEDIUM_SLOW'', modem 250 10 5),
     (''LONG_TURBO'', modem 500 11 8),
     (''LONG_MODERATE'', modem 125 11 8),
     (''LONG_SLOW'', modem 125 12 8),
     (''LONG_FAST'', modem 250 11 5)]"

text \<open>The numeric part of \<^verbatim>\<open>airtime_ms\<close>, for a modem from the table.\<close>

definition symbol_time :: "modem_parameters \<Rightarrow> pyfloat" where
  "symbol_time m = int_truediv (2 ^ spreading_factor m) (bandwidth_khz m * 1000)"

definition low_data_rate :: "modem_parameters \<Rightarrow> bool" where
  "low_data_rate m \<longleftrightarrow> fl (16 / 1000) < symbol_time m"

definition payload_symbols :: "modem_parameters \<Rightarrow> int \<Rightarrow> int" where
  "payload_symbols m len =
     (let numerator = 8 * len - 4 * int (spreading_factor m) + 28 + 16;
          denominator = 4 * (int (spreading_factor m) - 2 * (if low_data_rate m then 1 else 0))
      in 8 + max \<lceil>fmul (int_truediv numerator denominator) (float_of_int (coding_rate m))\<rceil> 0)"

definition modem_airtime :: "modem_parameters \<Rightarrow> int \<Rightarrow> int \<Rightarrow> int" where
  "modem_airtime m preamble_symbols len =
     (let preamble_time = fmul (fadd (float_of_int preamble_symbols) (fl (425 / 100))) (symbol_time m)
      in py_trunc (fmul (fadd preamble_time
           (fmul (float_of_int (payload_symbols m len)) (symbol_time m))) 1000))"

definition airtime_ms_with :: "int \<Rightarrow> string \<Rightarrow> int \<Rightarrow> int result" where
  "airtime_ms_with len preset preamble_symbols =
     (if len < 0 then Inl (ValueError ''payload length cannot be negative'')
      else case dict_get MODEM_PARAMETERS preset of
        None \<Rightarrow> Inl (ValueError (''unsupported modem preset: '' @ preset))
      | Some m \<Rightarrow> Inr (modem_airtime m preamble_symbols len))"

abbreviation airtime_ms :: "int \<Rightarrow> string \<Rightarrow> int result" where
  "airtime_ms len preset \<equiv> airtime_ms_with len preset 16"

definition modem_retransmission_delay :: "modem_parameters \<Rightarrow> int \<Rightarrow> int" where
  "modem_retransmission_delay m packet_airtime_ms =
     (let symbol_time_ms = int_truediv (2 ^ spreading_factor m) (bandwidth_khz m);
          slot_time_ms = fadd (fmul (fl (25 / 10)) symbol_time_ms) SLOT_FIXED_OVERHEAD_MS
      in \<lceil>fadd (fadd (float_of_int (2 * packet_airtime_ms))
              (fmul (float_of_int MAX_RETRANSMISSION_CONTENTION_SLOTS) slot_time_ms))
            (float_of_int RETRANSMISSION_PROCESSING_TIME_MS)\<rceil>)"

definition maximum_retransmission_delay_ms :: "int \<Rightarrow> string \<Rightarrow> int result" where
  "maximum_retransmission_delay_ms len preset =
     (case dict_get MODEM_PARAMETERS preset of
        None \<Rightarrow> Inl (ValueError (''unsupported modem preset: '' @ preset))
      | Some m \<Rightarrow> bind_result (airtime_ms len preset) (\<lambda>t. Inr (modem_retransmission_delay m t)))"

text \<open>
  The length SimRadio used before wrapping a packet. A wrapper whose payload does not parse
  raises the decoder's exception.
\<close>

definition mesh_packet_payload_length :: "codec \<Rightarrow> mesh_packet \<Rightarrow> int result" where
  "mesh_packet_payload_length pb p =
     (case p_variant p of
        Encrypted bs \<Rightarrow> Inr (int (length bs) + MESH_PACKET_HEADER_BYTES)
      | NoPayload \<Rightarrow> Inr MESH_PACKET_HEADER_BYTES
      | Decoded d \<Rightarrow>
          if d_portnum d = SIMULATOR_APP then
            (case parse_compressed pb (d_payload d) of
               None \<Rightarrow> Inl (DecodeError ''Error parsing message'')
             | Some c \<Rightarrow>
                 if c_portnum c = UNKNOWN_APP
                 then Inr (int (length (c_data c)) + MESH_PACKET_HEADER_BYTES)
                 else Inr (int (length (serialize_data pb
                        (d\<lparr>d_portnum := c_portnum c, d_payload := c_data c\<rparr>)))
                        + MESH_PACKET_HEADER_BYTES))
          else Inr (int (length (serialize_data pb d)) + MESH_PACKET_HEADER_BYTES))"

definition mesh_packet_port_number :: "codec \<Rightarrow> mesh_packet \<Rightarrow> portnum option" where
  "mesh_packet_port_number pb p =
     (case p_variant p of
        Decoded d \<Rightarrow>
          if d_portnum d \<noteq> SIMULATOR_APP then Some (d_portnum d)
          else (case parse_compressed pb (d_payload d) of
                  None \<Rightarrow> Some SIMULATOR_APP
                | Some c \<Rightarrow> Some (c_portnum c))
      | _ \<Rightarrow> None)"

subsection \<open>Every modem of the table\<close>

definition modem_ok :: "modem_parameters \<Rightarrow> bool" where
  "modem_ok m \<longleftrightarrow> bandwidth_khz m \<in> {125, 250, 500} \<and> 7 \<le> spreading_factor m \<and>
     spreading_factor m \<le> 12 \<and> coding_rate m \<in> {5, 8}"

lemma modem_lookup_ok: "dict_get MODEM_PARAMETERS preset = Some m \<Longrightarrow> modem_ok m"
  by (auto simp: MODEM_PARAMETERS_def modem_def modem_ok_def split: if_splits)

lemma symbol_time_nonneg: "modem_ok m \<Longrightarrow> 0 \<le> symbol_time m"
  by (auto simp: symbol_time_def int_truediv_def modem_ok_def intro!: fl_nonneg)

lemma payload_symbols_mono:
  assumes "modem_ok m" and "a \<le> b"
  shows "payload_symbols m a \<le> payload_symbols m b"
proof -
  let ?d = "4 * (int (spreading_factor m) - 2 * (if low_data_rate m then 1 else 0))"
  have d: "0 < ?d" using assms(1) by (auto simp: modem_ok_def)
  have "int_truediv (8 * a - 4 * int (spreading_factor m) + 28 + 16) ?d
      \<le> int_truediv (8 * b - 4 * int (spreading_factor m) + 28 + 16) ?d"
    unfolding int_truediv_def using assms(2) d
    by (intro fl_mono divide_right_mono) (simp_all only: of_int_le_iff of_int_0_le_iff)
  moreover have "0 \<le> float_of_int (coding_rate m)"
    using assms(1) by (auto simp: modem_ok_def float_of_int_def intro!: fl_nonneg)
  ultimately show ?thesis
    unfolding payload_symbols_def Let_def fmul_def
    by (intro add_left_mono max.mono ceiling_mono fl_mono mult_right_mono order.refl)
qed

lemma payload_symbols_ge: "8 \<le> payload_symbols m len"
  by (simp add: payload_symbols_def Let_def)

lemma modem_airtime_mono:
  assumes "modem_ok m" and "a \<le> b"
  shows "modem_airtime m k a \<le> modem_airtime m k b"
  unfolding modem_airtime_def Let_def fmul_def fadd_def float_of_int_def
  using payload_symbols_mono [OF assms] symbol_time_nonneg [OF assms(1)]
  by (intro py_trunc_mono fl_mono mult_right_mono add_left_mono order.refl) simp_all

lemma modem_airtime_nonneg:
  assumes "modem_ok m" and "0 \<le> k"
  shows "0 \<le> modem_airtime m k len"
proof -
  note nonneg = fl_nonneg add_nonneg_nonneg mult_nonneg_nonneg symbol_time_nonneg [OF assms(1)]
  have "0 \<le> payload_symbols m len" using payload_symbols_ge [of m len] by simp
  with assms(2) have "0 \<le> fmul (fadd (fmul (fadd (float_of_int k) (fl (425 / 100))) (symbol_time m))
           (fmul (float_of_int (payload_symbols m len)) (symbol_time m))) 1000"
    unfolding fmul_def fadd_def float_of_int_def by (intro nonneg) simp_all
  then show ?thesis by (simp add: modem_airtime_def Let_def py_trunc_def)
qed

lemma modem_retransmission_delay_mono:
  "a \<le> b \<Longrightarrow> modem_retransmission_delay m a \<le> modem_retransmission_delay m b"
  unfolding modem_retransmission_delay_def Let_def fadd_def float_of_int_def
  by (intro ceiling_mono fl_mono add_right_mono) simp

lemma isOk_airtime: "isOk (airtime_ms_with len preset k) \<longleftrightarrow> 0 \<le> len \<and> preset \<in> dom (map_of MODEM_PARAMETERS)"
  by (auto simp: airtime_ms_with_def split: option.splits)

lemma airtime_ms_InrD:
  "airtime_ms_with len preset k = Inr t \<Longrightarrow>
   \<exists>m. dict_get MODEM_PARAMETERS preset = Some m \<and> modem_ok m \<and> 0 \<le> len \<and> t = modem_airtime m k len"
  by (auto simp: airtime_ms_with_def modem_lookup_ok split: if_splits option.splits)

text \<open>Every preset of the table is accepted for every length, and gives a non-negative time.\<close>

lemma airtime_total:
  assumes "preset \<in> set (map fst MODEM_PARAMETERS)" and "0 \<le> len"
  obtains t where "airtime_ms len preset = Inr t" and "0 \<le> t"
proof -
  from assms(1) obtain m where m: "dict_get MODEM_PARAMETERS preset = Some m"
    using map_of_eq_None_iff [of MODEM_PARAMETERS preset] by (auto simp: image_image)
  with assms(2) show thesis
    using modem_airtime_nonneg [OF modem_lookup_ok [OF m], of 16 len]
    by (intro that [of "modem_airtime m 16 len"]) (simp_all add: airtime_ms_with_def)
qed

end
