(* ===== verification/Airtime_Laws.thy ===== *)
theory Airtime_Laws
  imports Airtime
begin

text \<open>
  What the air-time functions of \<^verbatim>\<open>src/backend/app/metrics/airtime.py\<close> promise: monotonicity,
  a sufficient retransmission bound, and transparency of the simulator's packet wrapper.
\<close>

text \<open>
  C38. A longer packet never takes less air time: for every modem preset and preamble, the
  integer milliseconds are monotone in the payload length, rounding included.
\<close>

theorem airtime_monotone:
  assumes "airtime_ms_with a preset k = Inr s" and "airtime_ms_with b preset k = Inr t" and "a \<le> b"
  shows "s \<le> t"
  using airtime_ms_InrD [OF assms(1)] airtime_ms_InrD [OF assms(2)] modem_airtime_mono [OF _ assms(3)]
  by auto

lemma airtime_monotone_witness:
  "\<exists>s t. airtime_ms_with 0 ''SHORT_FAST'' 16 = Inr s \<and> airtime_ms_with 255 ''SHORT_FAST'' 16 = Inr t \<and> s \<le> t"
proof -
  have mem: "''SHORT_FAST'' \<in> set (map fst MODEM_PARAMETERS)" by (simp add: MODEM_PARAMETERS_def)
  obtain s where s: "airtime_ms_with 0 ''SHORT_FAST'' 16 = Inr s"
    by (rule airtime_total [OF mem, of 0]) simp_all
  obtain t where t: "airtime_ms_with 255 ''SHORT_FAST'' 16 = Inr t"
    by (rule airtime_total [OF mem, of 255]) simp_all
  from airtime_monotone [OF s t] s t show ?thesis by simp
qed

text \<open>
  The bound between two transmission attempts leaves room for two air times, all contention
  slots at seven milliseconds or more, and the processing time.
\<close>

lemma slot_time_ge: "modem_ok m \<Longrightarrow>
  7 \<le> fadd (fmul (fl (25 / 10)) (int_truediv (2 ^ spreading_factor m) (bandwidth_khz m))) SLOT_FIXED_OVERHEAD_MS"
proof -
  assume m: "modem_ok m"
  have "0 \<le> fmul (fl (25 / 10)) (int_truediv (2 ^ spreading_factor m) (bandwidth_khz m))"
    using m unfolding fmul_def int_truediv_def modem_ok_def
    by (intro fl_nonneg mult_nonneg_nonneg divide_nonneg_nonneg) auto
  moreover have "7 \<le> SLOT_FIXED_OVERHEAD_MS"
    using fl_ge_int [of 7 "76 / 10"] by (simp add: SLOT_FIXED_OVERHEAD_MS_def)
  ultimately show ?thesis
    unfolding fadd_def by (intro fl_ge_int [of 7, simplified]) simp
qed

text \<open>
  The retransmission bound is sufficient: between two attempts there is time for two air
  times of the packet, the contention window at no less than seven milliseconds a slot, and
  the firmware's processing time.
\<close>

theorem retransmission_delay_sufficient:
  assumes "airtime_ms len preset = Inr t" and "maximum_retransmission_delay_ms len preset = Inr r"
    and "0 \<le> t" and "t \<le> 2 ^ 50"
  shows "2 * t + 7 * MAX_RETRANSMISSION_CONTENTION_SLOTS + RETRANSMISSION_PROCESSING_TIME_MS \<le> r"
proof -
  from airtime_ms_InrD [OF assms(1)] obtain m
    where m: "dict_get MODEM_PARAMETERS preset = Some m" "modem_ok m" by blast
  define slot where "slot =
    fadd (fmul (fl (25 / 10)) (int_truediv (2 ^ spreading_factor m) (bandwidth_khz m))) SLOT_FIXED_OVERHEAD_MS"
  define x where "x = fadd (float_of_int (2 * t)) (fmul (float_of_int 304) slot)"
  from m assms(1,2) have r: "r = \<lceil>fadd x (float_of_int 4500)\<rceil>"
    by (simp add: maximum_retransmission_delay_ms_def modem_retransmission_delay_def Let_def
        MAX_RETRANSMISSION_CONTENTION_SLOTS_def RETRANSMISSION_PROCESSING_TIME_MS_def x_def slot_def)
  have "(304 :: rat) * 7 \<le> 304 * slot" 
    unfolding slot_def by (intro mult_left_mono slot_time_ge m) simp
  then have c: "of_int 2128 \<le> fmul (float_of_int 304) slot"
    unfolding fmul_def using fl_of_int [of 304] by (intro fl_ge_int) (simp_all add: float_of_int_def)
  have t: "float_of_int (2 * t) = of_int (2 * t)"
    unfolding float_of_int_def using assms(3,4) by (intro fl_of_int) simp
  have "of_int (2 * t + 2128) \<le> x"
    unfolding x_def fadd_def using c t assms(3,4) by (intro fl_ge_int) simp_all
  then have "of_int (2 * t + 6628) \<le> fadd x (float_of_int 4500)"
    using assms(3,4) fl_of_int [of 4500]
    unfolding fadd_def by (intro fl_ge_int) (simp_all add: float_of_int_def)
  then have "2 * t + 6628 \<le> r" unfolding r by (simp add: le_ceiling_iff)
  then show ?thesis
    by (simp add: MAX_RETRANSMISSION_CONTENTION_SLOTS_def RETRANSMISSION_PROCESSING_TIME_MS_def)
qed

text \<open>The reference value of the upstream equation that the repository's unit tests check.\<close>

lemma airtime_reference: "airtime_ms 100 ''SHORT_FAST'' = Inr 89"
  by code_simp

lemma retransmission_delay_sufficient_witness:
  "\<exists>r. maximum_retransmission_delay_ms 100 ''SHORT_FAST'' = Inr r \<and> 2 * 89 + 7 * 304 + 4500 \<le> r"
proof -
  obtain r where r: "maximum_retransmission_delay_ms 100 ''SHORT_FAST'' = Inr r"
    using airtime_reference
    by (simp add: maximum_retransmission_delay_ms_def MODEM_PARAMETERS_def)
  from retransmission_delay_sufficient [OF airtime_reference r] r show ?thesis
    by (simp add: MAX_RETRANSMISSION_CONTENTION_SLOTS_def RETRANSMISSION_PROCESSING_TIME_MS_def)
qed

text \<open>
  The length of a packet on the air always counts the mesh header, and wrapping a packet in
  the simulator's envelope does not change it: a wrapper around an application payload has the
  length of the packet it stands for.
\<close>

theorem simulator_wrapper_transparent:
  assumes "d_portnum d = SIMULATOR_APP"
    and "parse_compressed pb (d_payload d) = Some c" and "c_portnum c \<notin> {UNKNOWN_APP, SIMULATOR_APP}"
  shows "mesh_packet_payload_length pb (p\<lparr>p_variant := Decoded d\<rparr>) =
      mesh_packet_payload_length pb
        (p\<lparr>p_variant := Decoded (d\<lparr>d_portnum := c_portnum c, d_payload := c_data c\<rparr>)\<rparr>)
    \<and> mesh_packet_port_number pb (p\<lparr>p_variant := Decoded d\<rparr>) =
      mesh_packet_port_number pb
        (p\<lparr>p_variant := Decoded (d\<lparr>d_portnum := c_portnum c, d_payload := c_data c\<rparr>)\<rparr>)"
  using assms by (simp add: mesh_packet_payload_length_def mesh_packet_port_number_def)

lemma simulator_wrapper_transparent_witness:
  "let pb = null_codec\<lparr>parse_compressed := (\<lambda>b. Some \<lparr>c_portnum = TEXT_MESSAGE_APP, c_data = tl b\<rparr>)\<rparr>;
       d = (text_data [1, 2, 3])\<lparr>d_portnum := SIMULATOR_APP\<rparr>
   in mesh_packet_payload_length pb (empty_packet\<lparr>p_variant := Decoded d\<rparr>) = Inr 18"
proof -
  let ?pb = "null_codec\<lparr>parse_compressed := (\<lambda>b. Some \<lparr>c_portnum = TEXT_MESSAGE_APP, c_data = tl b\<rparr>)\<rparr>"
  let ?d = "(text_data [1, 2, 3])\<lparr>d_portnum := SIMULATOR_APP\<rparr>"
  have "parse_compressed ?pb (d_payload ?d) = Some \<lparr>c_portnum = TEXT_MESSAGE_APP, c_data = [2, 3]\<rparr>"
    by (simp add: text_data_def)
  from simulator_wrapper_transparent [of ?d ?pb, OF _ this, of empty_packet] show ?thesis
    by (simp add: mesh_packet_payload_length_def text_data_def null_codec_def MESH_PACKET_HEADER_BYTES_def)
qed

end
