(* ===== verification/Metrics.thy ===== *)
theory Metrics
  imports Py_Float Mesh_Packets
begin

text \<open>
  Run metrics, \<^verbatim>\<open>src/backend/app/metrics/calculations.py\<close>: percentiles with linear
  interpolation and \<^verbatim>\<open>calculate_metrics\<close>, which fills a snapshot from either complete
  lists (the final metrics) or running counters (the live metrics). The lemmas relate the two.
\<close>

named_theorems counter_simps \<open>rules for Counter dictionaries\<close>

subsection \<open>Counters\<close>

fun counter_of_from :: "('k, int) dict \<Rightarrow> 'k list \<Rightarrow> ('k, int) dict" where
  "counter_of_from d [] = d"
| "counter_of_from d (k # ks) = counter_of_from (counter_add k 1 d) ks"

text \<open>\<^verbatim>\<open>Counter(xs)\<close>\<close>

definition counter_of :: "'k list \<Rightarrow> ('k, int) dict" where
  "counter_of ks = counter_of_from [] ks"

text \<open>The loop over \<^verbatim>\<open>zip(keys, amounts)\<close> that accumulates amounts per key.\<close>

fun counter_sum_from :: "('k, int) dict \<Rightarrow> ('k \<times> int) list \<Rightarrow> ('k, int) dict" where
  "counter_sum_from d [] = d"
| "counter_sum_from d ((k, n) # kns) = counter_sum_from (counter_add k n d) kns"

definition counter_total :: "('k, int) dict \<Rightarrow> int" where
  "counter_total d = sum_list (map snd d)"

lemma counter_add_wf [simp]: "dict_wf d \<Longrightarrow> dict_wf (counter_add k n d)"
  by (simp add: counter_add_def)

lemma counter_total_add [counter_simps]:
  "dict_wf d \<Longrightarrow> counter_total (counter_add k n d) = counter_total d + n"
proof -
  have "dict_wf d \<Longrightarrow> sum_list (map snd (AList.update k v d)) =
      sum_list (map snd d) - dict_get_default d k 0 + v" for v :: int
    by (induction d) (auto simp: dict_get_default_def dest: map_of_SomeD split: option.splits)
  then show "dict_wf d \<Longrightarrow> ?thesis" by (simp add: counter_total_def counter_add_def)
qed

lemma counter_add_lookup [counter_simps]:
  "dict_get_default (counter_add k n d) j 0 = dict_get_default d j 0 + (if j = k then n else 0)"
  by (auto simp: counter_add_def dict_get_default_def dict_simps)

lemma counter_of_from_wf: "dict_wf d \<Longrightarrow> dict_wf (counter_of_from d ks)"
  by (induction d ks rule: counter_of_from.induct) simp_all

lemma counter_of_from_total [counter_simps]:
  "dict_wf d \<Longrightarrow> counter_total (counter_of_from d ks) = counter_total d + int (length ks)"
  by (induction d ks rule: counter_of_from.induct) (simp_all add: counter_simps)

lemma counter_of_from_lookup [counter_simps]:
  "dict_get_default (counter_of_from d ks) j 0 = dict_get_default d j 0 + int (count_list ks j)"
  by (induction d ks rule: counter_of_from.induct) (simp_all add: counter_simps)

lemma counter_sum_from_wf: "dict_wf d \<Longrightarrow> dict_wf (counter_sum_from d kns)"
  by (induction d kns rule: counter_sum_from.induct) simp_all

lemma counter_sum_from_total [counter_simps]:
  "dict_wf d \<Longrightarrow> counter_total (counter_sum_from d kns) = counter_total d + sum_list (map snd kns)"
  by (induction d kns rule: counter_sum_from.induct) (simp_all add: counter_simps)

lemma counter_of_from_snoc [counter_simps]:
  "counter_of_from d (ks @ [k]) = counter_add k 1 (counter_of_from d ks)"
  by (induction d ks rule: counter_of_from.induct) simp_all

lemma counter_sum_from_snoc [counter_simps]:
  "counter_sum_from d (kns @ [(k, n)]) = counter_add k n (counter_sum_from d kns)"
  by (induction d kns rule: counter_sum_from.induct) simp_all

lemma counter_of_snoc [counter_simps]: "counter_of (ks @ [k]) = counter_add k 1 (counter_of ks)"
  by (simp add: counter_of_def counter_simps)

lemma counter_of_nil [simp]: "counter_of [] = []"
  by (simp add: counter_of_def)

subsection \<open>Percentiles\<close>

text \<open>Python list indexing, negative indices included.\<close>

definition py_index :: "'a list \<Rightarrow> int \<Rightarrow> 'a result" where
  "py_index xs i =
     (if i < - int (length xs) \<or> int (length xs) \<le> i then Inl IndexError
      else Inr (xs ! nat (if i < 0 then i + int (length xs) else i)))"

definition interpolate :: "pyfloat list \<Rightarrow> pyfloat \<Rightarrow> pyfloat result" where
  "interpolate ordered position =
     (let lower = \<lfloor>position\<rfloor>; upper = \<lceil>position\<rceil>
      in if lower = upper then py_index ordered lower
         else bind_result (py_index ordered lower) (\<lambda>a.
              bind_result (py_index ordered upper) (\<lambda>b.
              Inr (fadd a (fmul (fsub b a) (fsub position (float_of_int lower)))))))"

definition percentile_ordered ::
  "pyfloat list \<Rightarrow> pyfloat \<Rightarrow> nat \<Rightarrow> pyfloat option result" where
  "percentile_ordered ordered proportion minimum_samples =
     (if length ordered < minimum_samples then Inr None
      else if \<not> (0 \<le> proportion \<and> proportion \<le> 1)
      then Inl (ValueError ''percentile proportion must be between zero and one'')
      else if length ordered = 1 then Inr (Some (ordered ! 0))
      else bind_result
             (interpolate ordered (fmul (float_of_int (int (length ordered) - 1)) proportion))
             (\<lambda>x. Inr (Some x)))"

definition percentile :: "pyfloat list \<Rightarrow> pyfloat \<Rightarrow> nat \<Rightarrow> pyfloat option result" where
  "percentile values proportion minimum_samples =
     (if length values < minimum_samples then Inr None
      else if \<not> (0 \<le> proportion \<and> proportion \<le> 1)
      then Inl (ValueError ''percentile proportion must be between zero and one'')
      else let ordered = sort values
      in if length ordered = 1 then Inr (Some (ordered ! 0))
      else bind_result
             (interpolate ordered (fmul (float_of_int (int (length ordered) - 1)) proportion))
             (\<lambda>x. Inr (Some x)))"

subsection \<open>Snapshots\<close>

record metrics_summary =
  m_generated :: int
  m_delivered :: int
  m_delivery_ratio :: "pyfloat option"
  m_receiver_deliveries :: int
  m_receiver_delivery_ratio :: "pyfloat option"
  m_acknowledgment_success_ratio :: "pyfloat option"
  m_median_latency_ms :: "pyfloat option"
  m_p95_latency_ms :: "pyfloat option"
  m_p99_latency_ms :: "pyfloat option"
  m_rf_transmissions :: int
  m_rf_transmissions_per_delivery :: "pyfloat option"
  m_relay_transmissions :: int
  m_duplicate_receptions :: int
  m_failed_receptions :: int
  m_drops_by_reason :: "(string, int) dict"
  m_observed_airtime_ms :: int
  m_per_node_transmit_counts :: "(string, int) dict"
  m_per_node_airtime_ms :: "(string, int) dict"
  m_event_loop_lag_ms :: "pyfloat option"

record metrics_snapshot = metrics_summary +
  m_receivers_per_broadcast :: "(string, int) dict"

text \<open>The keyword arguments of \<^verbatim>\<open>calculate_metrics\<close>.\<close>

record metrics_input =
  generated :: int
  delivered_ids :: "(string \<times> int) set"
  delivered_count :: "int option"
  acknowledged :: int
  acknowledgment_expected :: int
  latencies_ms :: "pyfloat list"
  rf_transmitters :: "string list"
  relay_transmissions :: int
  duplicate_receptions :: int
  failed_receptions :: int
  drop_reasons :: "string list"
  airtimes_ms :: "int list"
  event_loop_lag_ms :: "pyfloat option"
  receiver_deliveries :: "int option"
  receiver_delivery_opportunities :: "int option"
  receivers_per_broadcast :: "(string, int) dict option"
  rf_transmission_count :: "int option"
  observed_airtime_ms :: "int option"
  per_node_transmit_counts :: "(string, int) dict option"
  per_node_airtime_ms :: "(string, int) dict option"
  drops_by_reason :: "(string, int) dict option"

definition or_else :: "'a option \<Rightarrow> 'a \<Rightarrow> 'a" where
  "or_else x d = (case x of None \<Rightarrow> d | Some y \<Rightarrow> y)"

lemma or_else_simps [simp]: "or_else None d = d" "or_else (Some x) d = x"
  by (simp_all add: or_else_def)

definition ratio :: "int \<Rightarrow> int \<Rightarrow> pyfloat option" where
  "ratio a b = (if b = 0 then None else Some (int_truediv a b))"

text \<open>\<^verbatim>\<open>zip(rf_transmitters, airtimes_ms, strict=True)\<close> raises when the lengths differ.\<close>

definition airtime_by_transmitter :: "string list \<Rightarrow> int list \<Rightarrow> (string, int) dict result" where
  "airtime_by_transmitter txs ats =
     (if length txs = length ats then Inr (counter_sum_from [] (zip txs ats))
      else Inl (ValueError ''zip() arguments differ in length''))"

definition calculate_metrics :: "metrics_input \<Rightarrow> metrics_snapshot result" where
  "calculate_metrics a =
     (let delivered = or_else (delivered_count a) (int (card (delivered_ids a)));
          receiver_count = or_else (receiver_deliveries a) delivered;
          receiver_opportunities = or_else (receiver_delivery_opportunities a) (generated a);
          rf_count = or_else (rf_transmission_count a) (int (length (rf_transmitters a)));
          ordered_latencies = sort (latencies_ms a)
      in bind_result
           (case per_node_airtime_ms a of
              None \<Rightarrow> airtime_by_transmitter (rf_transmitters a) (airtimes_ms a)
            | Some d \<Rightarrow> Inr d) (\<lambda>per_node_airtime.
         bind_result (percentile_ordered ordered_latencies (1 / 2) 1) (\<lambda>p50.
         bind_result (percentile_ordered ordered_latencies (fl (95 / 100)) 20) (\<lambda>p95.
         bind_result (percentile_ordered ordered_latencies (fl (99 / 100)) 100) (\<lambda>p99.
         Inr \<lparr>m_generated = generated a,
              m_delivered = delivered,
              m_delivery_ratio = ratio delivered (generated a),
              m_receiver_deliveries = receiver_count,
              m_receiver_delivery_ratio = ratio receiver_count receiver_opportunities,
              m_acknowledgment_success_ratio = ratio (acknowledged a) (acknowledgment_expected a),
              m_median_latency_ms = p50, m_p95_latency_ms = p95, m_p99_latency_ms = p99,
              m_rf_transmissions = rf_count,
              m_rf_transmissions_per_delivery = ratio rf_count delivered,
              m_relay_transmissions = relay_transmissions a,
              m_duplicate_receptions = duplicate_receptions a,
              m_failed_receptions = failed_receptions a,
              m_drops_by_reason = or_else (drops_by_reason a) (counter_of (drop_reasons a)),
              m_observed_airtime_ms = or_else (observed_airtime_ms a) (sum_list (airtimes_ms a)),
              m_per_node_transmit_counts =
                or_else (per_node_transmit_counts a) (counter_of (rf_transmitters a)),
              m_per_node_airtime_ms = per_node_airtime,
              m_event_loop_lag_ms = event_loop_lag_ms a,
              m_receivers_per_broadcast = or_else (receivers_per_broadcast a) []\<rparr>)))))"

subsection \<open>Lemmas\<close>

lemma py_index_nth: "0 \<le> i \<Longrightarrow> i < int (length xs) \<Longrightarrow> py_index xs i = Inr (xs ! nat i)"
  by (simp add: py_index_def)

text \<open>
  The interpolated value exists, is not below the lower of the two neighbouring samples, and
  is a sample when the position is integral.
\<close>

lemma interpolate_between:
  assumes "0 \<le> pos" and "pos \<le> of_int (int (length xs) - 1)" and "sorted xs"
    and "\<forall>x\<in>set xs. representable x" and "int (length xs) \<le> 2 ^ 53"
  obtains y where "interpolate xs pos = Inr y" and "xs ! nat \<lfloor>pos\<rfloor> \<le> y"
    and "pos = of_int \<lfloor>pos\<rfloor> \<Longrightarrow> y = xs ! nat \<lfloor>pos\<rfloor>"
proof -
  let ?l = "\<lfloor>pos\<rfloor>" and ?u = "\<lceil>pos\<rceil>"
  have u: "?u \<le> int (length xs) - 1" using assms(2) by (simp only: ceiling_le_iff)
  moreover have lu: "?l \<le> ?u" and "0 \<le> ?l" using assms(1) by (simp_all add: floor_le_ceiling)
  ultimately have l: "0 \<le> ?l" "?l \<le> ?u" "?u < int (length xs)" "?l < int (length xs)" "0 \<le> ?u"
    by linarith+
  have "nat ?l \<le> nat ?u" using l(2) by (rule nat_mono)
  moreover have "nat ?u < length xs" using l by linarith
  ultimately have ge: "xs ! nat ?l \<le> xs ! nat ?u" using assms(3) by (intro sorted_nth_mono)
  show thesis
  proof (cases "?l = ?u")
    case True
    with l show thesis
      by (intro that [of "xs ! nat ?l"]) (simp_all add: interpolate_def py_index_nth)
  next
    case False
    let ?w = "fmul (fsub (xs ! nat ?u) (xs ! nat ?l)) (fsub pos (float_of_int ?l))"
    have "?l \<le> 2 ^ 53" using l(4) assms(5) by linarith
    with l(1) have "float_of_int ?l = of_int ?l"
      unfolding float_of_int_def by (intro fl_of_int) (simp only: abs_of_nonneg)
    then have "0 \<le> ?w"
      unfolding fmul_def fsub_def using ge by (intro fl_nonneg mult_nonneg_nonneg) simp_all
    moreover have "nat ?l < length xs" using l by linarith
    then have "representable (xs ! nat ?l)" using assms(4) nth_mem by blast
    ultimately have "xs ! nat ?l \<le> fadd (xs ! nat ?l) ?w"
      unfolding fadd_def by (intro fl_ge_representable) simp_all
    moreover have "interpolate xs pos = Inr (fadd (xs ! nat ?l) ?w)"
      using l False by (simp add: interpolate_def Let_def py_index_nth)
    moreover have "pos \<noteq> of_int ?l" using False by (metis ceiling_of_int)
    ultimately show thesis using that by blast
  qed
qed

lemma percentile_position:
  assumes "0 \<le> q" and "q \<le> 1" and "0 < n" and "int n \<le> 2 ^ 53"
  shows "0 \<le> fmul (float_of_int (int n - 1)) q"
    and "fmul (float_of_int (int n - 1)) q \<le> of_int (int n - 1)"
proof -
  have n: "float_of_int (int n - 1) = of_int (int n - 1)"
    unfolding float_of_int_def using assms(3,4) by (intro fl_of_int) simp
  from assms(3) have nn: "(0 :: rat) \<le> of_int (int n - 1)" by simp
  with assms(1) show "0 \<le> fmul (float_of_int (int n - 1)) q"
    unfolding fmul_def n by (intro fl_nonneg mult_nonneg_nonneg)
  have "of_int (int n - 1) * q \<le> of_int (int n - 1) * 1"
    using assms(2) nn by (rule mult_left_mono)
  then show "fmul (float_of_int (int n - 1)) q \<le> of_int (int n - 1)"
    unfolding fmul_def n using assms(3,4) by (intro fl_le_int) simp_all
qed

lemma percentile_ordered_some:
  assumes "sorted xs" and "xs \<noteq> []" and "\<forall>x\<in>set xs. representable x" and "int (length xs) \<le> 2 ^ 53"
    and "0 \<le> q" and "q \<le> 1" and "n \<le> length xs"
  obtains y where "percentile_ordered xs q n = Inr (Some y)" and "hd xs \<le> y"
proof (cases "length xs = 1")
  case True
  with assms show thesis
    by (intro that [of "xs ! 0"]) (auto simp: percentile_ordered_def hd_conv_nth)
next
  case False
  let ?pos = "fmul (float_of_int (int (length xs) - 1)) q"
  from assms(2) have "0 < length xs" by simp
  note pos = percentile_position [OF assms(5,6) this assms(4)]
  then obtain y where y: "interpolate xs ?pos = Inr y" "xs ! nat \<lfloor>?pos\<rfloor> \<le> y"
    using interpolate_between [OF pos assms(1,3,4)] by blast
  have "\<lfloor>?pos\<rfloor> \<le> int (length xs) - 1" using pos(2) by linarith
  with assms(2) have "nat \<lfloor>?pos\<rfloor> < length xs" by (cases xs) auto
  with assms(1,2) have "hd xs \<le> xs ! nat \<lfloor>?pos\<rfloor>"
    by (simp add: hd_conv_nth sorted_nth_mono)
  with y False assms show thesis
    by (intro that [of y]) (simp_all add: percentile_ordered_def)
qed

text \<open>Sorting once is right: presorting the sample changes nothing, errors included.\<close>

lemma percentile_ordered_equiv: "percentile_ordered (sort xs) q n = percentile xs q n"
  by (simp add: percentile_ordered_def percentile_def Let_def)

text \<open>
  A percentile exists exactly when there are enough samples, and is never below the
  smallest sample.
\<close>

theorem percentile_exists_and_bounded:
  assumes "xs \<noteq> []" and "list_all representable xs" and "int (length xs) \<le> 2 ^ 53"
    and "0 \<le> q" and "q \<le> 1"
  shows "(length xs < n \<longrightarrow> percentile xs q n = Inr None) \<and>
    (n \<le> length xs \<longrightarrow> (\<exists>y. percentile xs q n = Inr (Some y) \<and> Min (set xs) \<le> y))"
proof (intro conjI impI)
  show "length xs < n \<Longrightarrow> percentile xs q n = Inr None" by (simp add: percentile_def)
  assume n: "n \<le> length xs"
  have "\<forall>x\<in>set (sort xs). representable x" "sort xs \<noteq> []" "int (length (sort xs)) \<le> 2 ^ 53"
    "n \<le> length (sort xs)"
    using assms n by (auto simp: list_all_iff) (metis set_empty set_sort)
  from percentile_ordered_some [OF sorted_sort this(2,1,3) assms(4,5) this(4)]
  obtain y where y: "percentile_ordered (sort xs) q n = Inr (Some y)" "hd (sort xs) \<le> y" .
  have "Min (set xs) = hd (sort xs)"
  proof (rule Min_eqI)
    fix x assume "x \<in> set xs"
    then show "hd (sort xs) \<le> x"
      using sorted_sort [of xs] by (cases "sort xs") (metis set_sort list.set(1) empty_iff, metis
        set_sort list.sel(1) set_ConsD sorted_simps(2) order.refl)
  next
    show "hd (sort xs) \<in> set xs" using \<open>sort xs \<noteq> []\<close> by (metis hd_in_set set_sort)
  qed simp
  with y show "\<exists>y. percentile xs q n = Inr (Some y) \<and> Min (set xs) \<le> y"
    by (simp add: percentile_ordered_equiv)
qed

lemma percentile_exists_and_bounded_witness:
  "\<exists>y. percentile [3, 1] (1 / 2) 1 = Inr (Some y) \<and> 1 \<le> y"
proof -
  have "list_all representable [3, 1 :: rat]"
    using representable_int [of 3] representable_int [of 1] by simp
  from percentile_exists_and_bounded [OF _ this, of "1 / 2" 1] show ?thesis by simp
qed

lemma percentile_ordered_ok:
  assumes "sorted xs" and "list_all representable xs" and "int (length xs) \<le> 2 ^ 53"
    and "0 \<le> q" and "q \<le> 1" and "0 < n"
  obtains r where "percentile_ordered xs q n = Inr r"
proof (cases "length xs < n")
  case True
  then show thesis by (intro that [of None]) (simp add: percentile_ordered_def)
next
  case False
  with assms(6) have "xs \<noteq> []" and "n \<le> length xs" by auto
  moreover have "\<forall>x\<in>set xs. representable x" using assms(2) by (simp add: list_all_iff)
  ultimately obtain y where "percentile_ordered xs q n = Inr (Some y)"
    using percentile_ordered_some [OF assms(1) _ _ assms(3,4,5)] by blast
  then show thesis by (rule that)
qed

lemma fl_proportion: "0 \<le> x \<Longrightarrow> x \<le> 1 \<Longrightarrow> 0 \<le> fl x \<and> fl x \<le> 1"
  using fl_nonneg [of x] fl_le_int [of x 1] by simp

text \<open>
  The metrics of complete records can always be computed, except when the transmitter and
  air-time lists differ in length: then, and only then, the strict zip raises.
\<close>

theorem calculate_metrics_total:
  assumes "list_all representable (latencies_ms a)" and "int (length (latencies_ms a)) \<le> 2 ^ 53"
    and "per_node_airtime_ms a = None"
  shows "isOk (calculate_metrics a) \<longleftrightarrow> length (rf_transmitters a) = length (airtimes_ms a)"
proof -
  let ?xs = "sort (latencies_ms a)"
  have xs: "sorted ?xs" "list_all representable ?xs" "int (length ?xs) \<le> 2 ^ 53"
    using assms(1,2) by (simp_all add: list_all_iff)
  obtain p50 where "percentile_ordered ?xs (1 / 2) 1 = Inr p50"
    by (rule percentile_ordered_ok [OF xs, of "1 / 2" 1]) simp_all
  moreover obtain p95 where "percentile_ordered ?xs (fl (95 / 100)) 20 = Inr p95"
    using fl_proportion [of "95 / 100"]
    by (auto intro: percentile_ordered_ok [OF xs, of "fl (95 / 100)" 20])
  moreover obtain p99 where "percentile_ordered ?xs (fl (99 / 100)) 100 = Inr p99"
    using fl_proportion [of "99 / 100"]
    by (auto intro: percentile_ordered_ok [OF xs, of "fl (99 / 100)" 100])
  ultimately show ?thesis
    by (simp add: calculate_metrics_def Let_def assms(3) airtime_by_transmitter_def)
qed

definition empty_metrics_input :: metrics_input where
  "empty_metrics_input = \<lparr>generated = 0, delivered_ids = {}, delivered_count = None,
     acknowledged = 0, acknowledgment_expected = 0, latencies_ms = [], rf_transmitters = [],
     relay_transmissions = 0, duplicate_receptions = 0, failed_receptions = 0, drop_reasons = [],
     airtimes_ms = [], event_loop_lag_ms = None, receiver_deliveries = None,
     receiver_delivery_opportunities = None, receivers_per_broadcast = None,
     rf_transmission_count = None, observed_airtime_ms = None, per_node_transmit_counts = None,
     per_node_airtime_ms = None, drops_by_reason = None\<rparr>"

lemma calculate_metrics_total_witness:
  "isOk (calculate_metrics (empty_metrics_input\<lparr>rf_transmitters := [''node-1''], airtimes_ms := [7]\<rparr>)) \<and>
   \<not> isOk (calculate_metrics (empty_metrics_input\<lparr>rf_transmitters := [''node-1'']\<rparr>))"
  using calculate_metrics_total [of "empty_metrics_input\<lparr>rf_transmitters := [''node-1''], airtimes_ms := [7]\<rparr>"]
    calculate_metrics_total [of "empty_metrics_input\<lparr>rf_transmitters := [''node-1'']\<rparr>"]
  by (simp add: empty_metrics_input_def)

text \<open>
  The breakdowns add up: when the snapshot is computed from complete records, the per-node
  transmission counts sum to the number of transmissions and the per-node air times to the
  observed air time.
\<close>

theorem metrics_breakdowns_add_up:
  assumes "calculate_metrics a = Inr s"
    and "rf_transmission_count a = None" and "per_node_transmit_counts a = None"
    and "observed_airtime_ms a = None" and "per_node_airtime_ms a = None"
  shows "counter_total (m_per_node_transmit_counts s) = m_rf_transmissions s \<and>
    counter_total (m_per_node_airtime_ms s) = m_observed_airtime_ms s"
  using assms
  by (auto simp: calculate_metrics_def Let_def bind_result_eq_Inr airtime_by_transmitter_def
      counter_of_def counter_simps counter_total_def [of "[]"] split: if_splits)

lemma metrics_breakdowns_add_up_witness:
  "\<exists>s. calculate_metrics (empty_metrics_input\<lparr>rf_transmitters := [''a'', ''b'', ''a''], airtimes_ms := [7, 5, 2]\<rparr>) = Inr s
     \<and> counter_total (m_per_node_airtime_ms s) = 14 \<and> m_observed_airtime_ms s = 14"
proof -
  let ?a = "empty_metrics_input\<lparr>rf_transmitters := [''a'', ''b'', ''a''], airtimes_ms := [7, 5, 2]\<rparr>"
  obtain s where s: "calculate_metrics ?a = Inr s"
    by (simp add: calculate_metrics_def empty_metrics_input_def Let_def airtime_by_transmitter_def
        percentile_ordered_def)
  from s have "m_observed_airtime_ms s = 14"
    by (auto simp: calculate_metrics_def Let_def bind_result_eq_Inr empty_metrics_input_def)
  with metrics_breakdowns_add_up [OF s] s show ?thesis
    by (auto simp: empty_metrics_input_def)
qed

end
