(* ===== verification/Events.thy ===== *)
theory Events
  imports Py_Text Mesh_Packets "HOL-Library.Sublist"
begin

text \<open>
  The event history and the UI subscriptions of \<^verbatim>\<open>src/backend/app/metrics/events.py\<close>.
  An event's wall-clock timestamp is never read by the program and is left out; monotonic
  times and fresh stream identifiers are inputs. The subscriber set is a dictionary from a
  subscription's identity to its state: subscribers do not influence each other, so the set's
  iteration order does not matter. The lemmas show that history is a gapless window of the
  numbered stream, that replay pages are exact and complete, and that a slow subscriber loses
  only the oldest events and is told how many.
\<close>

named_theorems broker_simps \<open>unfolding rules of the event broker\<close>

subsection \<open>Data\<close>

datatype event_type =
    RF_TRANSMIT | LINK_DISABLED | RX_INJECTED | APPLICATION_RECEIVE | ACKNOWLEDGMENT
  | ROUTING_ERROR | LINK_UPDATED | COLLISION | NODE_STATE | LIFECYCLE | TRAFFIC | METRICS
  | UI_EVENTS_DROPPED

datatype metric_value =
    MV_int int | MV_float pyfloat | MV_counts "(string, int) dict" | MV_none

record packet_event =
  e_stream_id :: string
  e_sequence :: nat
  e_monotonic_seconds :: pyfloat
  e_event_type :: event_type
  e_transmitter :: "string option"
  e_intended_destination :: "string option"
  e_receiver :: "string option"
  e_receiver_set :: "string list"
  e_mesh_packet_id :: "int option"
  e_traffic_run_id :: "string option"
  e_traffic_sequence :: "int option"
  e_hop_limit :: "int option"
  e_hop_start :: "int option"
  e_rssi_dbm :: "int option"
  e_snr_db :: "rat option"
  e_port_number :: "portnum option"
  e_packet_length :: "int option"
  e_airtime_ms :: "int option"
  e_metric_update :: "(string, metric_value) dict"
  e_result :: "string option"
  e_detail :: "string option"

text \<open>An event with the model's defaults for every optional field.\<close>

definition new_event :: "pyfloat \<Rightarrow> event_type \<Rightarrow> packet_event" where
  "new_event now ty = \<lparr>e_stream_id = '''', e_sequence = 0, e_monotonic_seconds = now,
     e_event_type = ty, e_transmitter = None, e_intended_destination = None, e_receiver = None,
     e_receiver_set = [], e_mesh_packet_id = None, e_traffic_run_id = None,
     e_traffic_sequence = None, e_hop_limit = None, e_hop_start = None, e_rssi_dbm = None,
     e_snr_db = None, e_port_number = None, e_packet_length = None, e_airtime_ms = None,
     e_metric_update = [], e_result = None, e_detail = None\<rparr>"

record event_history_page =
  hp_stream_id :: string
  hp_stream_changed :: bool
  hp_events :: "packet_event list"
  hp_first_available_sequence :: "nat option"
  hp_latest_sequence :: nat
  hp_history_gap :: bool
  hp_has_more :: bool

record subscription =
  s_queue :: "packet_event list"
  s_maxsize :: nat
  s_stream_id :: string
  s_dropped :: nat
  s_delivered_drop_notice_last :: bool

record event_broker =
  b_history :: "packet_event list"
  b_history_size :: nat
  b_subscribers :: "(nat, subscription) dict"
  b_stream_id :: string
  b_sequence :: nat
  b_history_evictions :: nat
  b_subscriber_buffer_size :: nat

subsection \<open>Subscriptions\<close>

definition new_subscription :: "nat \<Rightarrow> string \<Rightarrow> subscription" where
  "new_subscription n sid = \<lparr>s_queue = [], s_maxsize = n, s_stream_id = sid,
     s_dropped = 0, s_delivered_drop_notice_last = False\<rparr>"

definition sub_publish :: "packet_event \<Rightarrow> subscription \<Rightarrow> subscription" where
  "sub_publish e s =
     (case put_nowait (s_maxsize s) e (s_queue s) of
        Some q \<Rightarrow> s\<lparr>s_queue := q\<rparr>
      | None \<Rightarrow>
          (case get_nowait (s_queue s) of
             None \<Rightarrow> s\<lparr>s_dropped := s_dropped s + 1\<rparr>
           | Some (_, q) \<Rightarrow>
               (case put_nowait (s_maxsize s) e q of
                  None \<Rightarrow> s\<lparr>s_dropped := s_dropped s + 1, s_queue := q\<rparr>
                | Some q' \<Rightarrow> s\<lparr>s_dropped := s_dropped s + 1, s_queue := q'\<rparr>)))"

definition sub_restart :: "pyfloat \<Rightarrow> string \<Rightarrow> subscription \<Rightarrow> subscription" where
  "sub_restart now sid s =
     s\<lparr>s_stream_id := sid, s_dropped := 0, s_delivered_drop_notice_last := False,
       s_queue := [(new_event now UI_EVENTS_DROPPED)\<lparr>e_stream_id := sid,
         e_result := Some ''stream-reset'',
         e_detail := Some ''packet evidence was cleared by simulation reset''\<rparr>]\<rparr>"

text \<open>\<^verbatim>\<open>next\<close> returns an event or (\<open>None\<close>) waits for the queue to fill.\<close>

definition drop_notice :: "pyfloat \<Rightarrow> subscription \<Rightarrow> packet_event" where
  "drop_notice now s = (new_event now UI_EVENTS_DROPPED)\<lparr>e_stream_id := s_stream_id s,
     e_result := Some ''dropped'',
     e_detail := Some (show_nat (s_dropped s) @ '' UI events dropped because the client was slow'')\<rparr>"

definition sub_next :: "pyfloat \<Rightarrow> subscription \<Rightarrow> (packet_event \<times> subscription) option" where
  "sub_next now s =
     (if s_dropped s \<noteq> 0 \<and> \<not> s_delivered_drop_notice_last s
      then Some (drop_notice now s, s\<lparr>s_dropped := 0, s_delivered_drop_notice_last := True\<rparr>)
      else case get_nowait (s_queue s) of
             None \<Rightarrow> None
           | Some (e, q) \<Rightarrow> Some (e, s\<lparr>s_queue := q, s_delivered_drop_notice_last := False\<rparr>))"

subsection \<open>The broker\<close>

definition new_broker :: "nat \<Rightarrow> nat \<Rightarrow> string \<Rightarrow> event_broker" where
  "new_broker history_size buffer_size sid =
     \<lparr>b_history = [], b_history_size = history_size, b_subscribers = [], b_stream_id = sid,
      b_sequence = 0, b_history_evictions = 0, b_subscriber_buffer_size = buffer_size\<rparr>"

definition broker_publish :: "packet_event \<Rightarrow> event_broker \<Rightarrow> packet_event \<times> event_broker" where
  "broker_publish e b =
     (let sequenced = e\<lparr>e_sequence := b_sequence b + 1, e_stream_id := b_stream_id b\<rparr>
      in (sequenced,
          b\<lparr>b_sequence := b_sequence b + 1,
            b_history_evictions := (if length (b_history b) = b_history_size b
              then b_history_evictions b + 1 else b_history_evictions b),
            b_history := push_bounded (b_history_size b) sequenced (b_history b),
            b_subscribers := map (\<lambda>(i, s). (i, sub_publish sequenced s)) (b_subscribers b)\<rparr>))"

definition broker_clear :: "pyfloat \<Rightarrow> string \<Rightarrow> event_broker \<Rightarrow> event_broker" where
  "broker_clear now new_id b =
     b\<lparr>b_history := [], b_sequence := 0, b_history_evictions := 0, b_stream_id := new_id,
       b_subscribers := map (\<lambda>(i, s). (i, sub_restart now new_id s)) (b_subscribers b)\<rparr>"

definition event_nodes :: "packet_event \<Rightarrow> string option set" where
  "event_nodes e = {e_transmitter e, e_receiver e} \<union> Some ` set (e_receiver_set e)"

definition event_matches :: "string option \<Rightarrow> event_type option \<Rightarrow> packet_event \<Rightarrow> bool" where
  "event_matches node_id ty e \<longleftrightarrow>
     (node_id = None \<or> node_id \<in> event_nodes e) \<and> (ty = None \<or> ty = Some (e_event_type e))"

text \<open>The loop of \<^verbatim>\<open>recent\<close> over the reversed history, with its \<^verbatim>\<open>break\<close>.\<close>

fun recent_loop :: "nat \<Rightarrow> string option \<Rightarrow> event_type option \<Rightarrow>
    packet_event list \<Rightarrow> packet_event list \<Rightarrow> packet_event list" where
  "recent_loop limit node_id ty [] acc = acc"
| "recent_loop limit node_id ty (e # es) acc =
     (if \<not> event_matches node_id ty e then recent_loop limit node_id ty es acc
      else if length (acc @ [e]) = limit then acc @ [e]
      else recent_loop limit node_id ty es (acc @ [e]))"

definition recent :: "nat \<Rightarrow> string option \<Rightarrow> event_type option \<Rightarrow> event_broker \<Rightarrow> packet_event list" where
  "recent limit node_id ty b = rev (recent_loop limit node_id ty (rev (b_history b)) [])"

definition history_page :: "nat \<Rightarrow> nat \<Rightarrow> string option \<Rightarrow> event_broker \<Rightarrow> event_history_page" where
  "history_page after_sequence limit sid b =
     (let retained = b_history b;
          first_available = (case retained of [] \<Rightarrow> None | e # _ \<Rightarrow> Some (e_sequence e));
          stream_changed = (sid \<noteq> None \<and> sid \<noteq> Some (b_stream_id b));
          effective_after_sequence = (if stream_changed then 0 else after_sequence);
          history_gap = (\<not> stream_changed \<and> 0 < after_sequence \<and>
            (case first_available of None \<Rightarrow> False
             | Some f \<Rightarrow> int after_sequence < int f - 1));
          events = take limit (filter (\<lambda>e. effective_after_sequence < e_sequence e) retained)
      in \<lparr>hp_stream_id = b_stream_id b, hp_stream_changed = stream_changed, hp_events = events,
          hp_first_available_sequence = first_available, hp_latest_sequence = b_sequence b,
          hp_history_gap = history_gap,
          hp_has_more = (events \<noteq> [] \<and> e_sequence (last events) < b_sequence b)\<rparr>)"

text \<open>Entering and leaving \<^verbatim>\<open>subscribe\<close>.\<close>

definition broker_subscribe :: "nat \<Rightarrow> event_broker \<Rightarrow> event_broker" where
  "broker_subscribe i b = b\<lparr>b_subscribers :=
     dict_set i (new_subscription (b_subscriber_buffer_size b) (b_stream_id b)) (b_subscribers b)\<rparr>"

definition broker_unsubscribe :: "nat \<Rightarrow> event_broker \<Rightarrow> event_broker" where
  "broker_unsubscribe i b = b\<lparr>b_subscribers := dict_pop i (b_subscribers b)\<rparr>"

definition broker_next :: "pyfloat \<Rightarrow> nat \<Rightarrow> event_broker \<Rightarrow> (packet_event \<times> event_broker) option" where
  "broker_next now i b =
     (case dict_get (b_subscribers b) i of
        None \<Rightarrow> None
      | Some s \<Rightarrow> map_option (\<lambda>(e, s'). (e, b\<lparr>b_subscribers := dict_set i s' (b_subscribers b)\<rparr>))
                   (sub_next now s))"

subsection \<open>The history is a gapless window of the stream\<close>

definition window :: "event_broker \<Rightarrow> bool" where
  "window b \<longleftrightarrow>
     map e_sequence (b_history b) = [Suc (b_sequence b) - length (b_history b) ..< Suc (b_sequence b)] \<and>
     length (b_history b) = min (b_history_size b) (b_sequence b) \<and>
     b_history_evictions b + length (b_history b) = b_sequence b \<and>
     list_all (\<lambda>e. e_stream_id e = b_stream_id b) (b_history b)"

definition sub_ok :: "subscription \<Rightarrow> bool" where
  "sub_ok s \<longleftrightarrow> 0 < s_maxsize s \<and> length (s_queue s) \<le> s_maxsize s"

lemma sub_publish_eq:
  "sub_ok s \<Longrightarrow> sub_publish e s =
     (if length (s_queue s) < s_maxsize s then s\<lparr>s_queue := s_queue s @ [e]\<rparr>
      else s\<lparr>s_dropped := s_dropped s + 1, s_queue := tl (s_queue s) @ [e]\<rparr>)"
  by (cases "s_queue s")
    (auto simp: sub_publish_def sub_ok_def put_nowait_def queue_full_def get_nowait_def)

lemma sub_publish_ok: "sub_ok s \<Longrightarrow> sub_ok (sub_publish e s)"
  by (auto simp: sub_publish_eq) (auto simp: sub_ok_def)

lemma sub_restart_ok: "sub_ok s \<Longrightarrow> sub_ok (sub_restart now sid s)"
  by (auto simp: sub_restart_def sub_ok_def)

lemma sub_next_ok: "sub_ok s \<Longrightarrow> sub_next now s = Some (e, s') \<Longrightarrow> sub_ok s'"
  by (auto simp: sub_next_def sub_ok_def get_nowait_def split: if_splits list.splits)

lemma window_publish: "window b \<Longrightarrow> window (snd (broker_publish e b))"
proof -
  assume w: "window b"
  let ?n = "b_sequence b" and ?h = "b_history b" and ?m = "b_history_size b"
  have len: "length ?h = min ?m ?n" and seqs: "map e_sequence ?h = [Suc ?n - length ?h ..< Suc ?n]"
    using w by (simp_all add: window_def)
  have grow: "map e_sequence (?h @ [e\<lparr>e_sequence := ?n + 1, e_stream_id := b_stream_id b\<rparr>]) =
      [Suc ?n - length ?h ..< Suc (Suc ?n)]"
    using seqs upt_Suc_append [of "Suc ?n - length ?h" "Suc ?n"] by simp
  then have "map e_sequence (push_bounded ?m (e\<lparr>e_sequence := ?n + 1, e_stream_id := b_stream_id b\<rparr>) ?h) =
      drop (Suc (length ?h) - ?m) [Suc ?n - length ?h ..< Suc (Suc ?n)]"
    by (simp only: push_bounded_def drop_map [symmetric] grow)
  also have "\<dots> = [Suc ?n - length ?h + (Suc (length ?h) - ?m) ..< Suc (Suc ?n)]"
    by (simp del: upt_Suc)
  also have "Suc ?n - length ?h + (Suc (length ?h) - ?m) = Suc (Suc ?n) - min ?m (Suc ?n)"
    using len by (auto simp: min_def)
  finally have "map e_sequence (push_bounded ?m (e\<lparr>e_sequence := ?n + 1, e_stream_id := b_stream_id b\<rparr>) ?h) =
      [Suc (Suc ?n) - min ?m (Suc ?n) ..< Suc (Suc ?n)]" .
  moreover have "min ?m (Suc (length ?h)) = min ?m (Suc ?n)" using len by (auto simp: min_def)
  moreover have "list_all (\<lambda>e. e_stream_id e = b_stream_id b)
      (push_bounded ?m (e\<lparr>e_sequence := ?n + 1, e_stream_id := b_stream_id b\<rparr>) ?h)"
    using w by (auto simp: window_def list_all_iff dest!: subsetD [OF set_push_bounded])
  moreover have "(if length ?h = ?m then b_history_evictions b + 1 else b_history_evictions b) +
      min ?m (Suc ?n) = Suc ?n"
    using w len by (auto simp: window_def min_def)
  ultimately show ?thesis
    by (simp add: window_def broker_publish_def Let_def length_push_bounded del: upt_Suc)
qed

lemma window_subscribers: "window (b\<lparr>b_subscribers := x\<rparr>) = window b"
  by (simp add: window_def)

lemma window_clear: "window (broker_clear now sid b)"
  by (simp add: window_def broker_clear_def)

subsection \<open>Runs of a broker\<close>

datatype broker_op =
    Publish packet_event | Clear pyfloat string | Subscribe nat | Unsubscribe nat
  | Next pyfloat nat

definition broker_apply :: "event_broker \<Rightarrow> broker_op \<Rightarrow> event_broker" where
  "broker_apply b op =
     (case op of
        Publish e \<Rightarrow> snd (broker_publish e b)
      | Clear now sid \<Rightarrow> broker_clear now sid b
      | Subscribe i \<Rightarrow> broker_subscribe i b
      | Unsubscribe i \<Rightarrow> broker_unsubscribe i b
      | Next now i \<Rightarrow> (case broker_next now i b of None \<Rightarrow> b | Some (_, b') \<Rightarrow> b'))"

definition broker_run :: "broker_op list \<Rightarrow> event_broker \<Rightarrow> event_broker" where
  "broker_run ops b = foldl broker_apply b ops"

lemma window_apply: "window b \<Longrightarrow> window (broker_apply b op)"
  by (cases op)
    (auto simp: broker_apply_def window_publish window_clear broker_subscribe_def
      broker_unsubscribe_def broker_next_def window_subscribers split: option.splits)

lemma apply_history_size: "b_history_size (broker_apply b op) = b_history_size b"
  by (cases op)
    (auto simp: broker_apply_def broker_publish_def Let_def broker_clear_def broker_subscribe_def
      broker_unsubscribe_def broker_next_def split: option.splits)

lemma run_history_size: "b_history_size (broker_run ops b) = b_history_size b"
  unfolding broker_run_def by (induction ops arbitrary: b) (simp_all add: apply_history_size)

lemma window_run: "window b \<Longrightarrow> window (broker_run ops b)"
  unfolding broker_run_def by (induction ops arbitrary: b) (simp_all add: window_apply)

lemma window_reachable: "window (broker_run ops (new_broker h n sid))"
  by (rule window_run) (simp add: new_broker_def window_def)

definition subs_ok :: "event_broker \<Rightarrow> bool" where
  "subs_ok b \<longleftrightarrow> (\<forall>(i, s) \<in> set (b_subscribers b). sub_ok s) \<and>
     0 < b_subscriber_buffer_size b \<and> dict_wf (b_subscribers b)"

lemma subs_ok_apply:
  assumes "subs_ok b"
  shows "subs_ok (broker_apply b op)"
proof (cases op)
  case (Publish e)
  then show ?thesis using assms
    by (auto simp: subs_ok_def broker_apply_def broker_publish_def Let_def dict_simps sub_publish_ok)
next
  case (Clear now sid)
  then show ?thesis using assms
    by (auto simp: subs_ok_def broker_apply_def broker_clear_def dict_simps sub_restart_ok)
next
  case (Subscribe i)
  moreover have "sub_ok (new_subscription (b_subscriber_buffer_size b) (b_stream_id b))"
    using assms by (simp add: subs_ok_def sub_ok_def new_subscription_def)
  ultimately show ?thesis using assms
    by (auto simp: subs_ok_def broker_apply_def broker_subscribe_def dest!: subsetD [OF set_dict_set])
next
  case (Unsubscribe i)
  then show ?thesis using assms
    by (auto simp: subs_ok_def broker_apply_def broker_unsubscribe_def dest: subsetD [OF set_dict_pop])
next
  case (Next now i)
  show ?thesis
  proof (cases "broker_next now i b")
    case None
    then show ?thesis using assms Next by (simp add: broker_apply_def)
  next
    case (Some r)
    then obtain s e s' where "dict_get (b_subscribers b) i = Some s" and step: "sub_next now s = Some (e, s')"
      and r: "r = (e, b\<lparr>b_subscribers := dict_set i s' (b_subscribers b)\<rparr>)"
      by (auto simp: broker_next_def split: option.splits)
    then have "sub_ok s" using assms by (auto simp: subs_ok_def dest: map_of_SomeD)
    then have "sub_ok s'" using step by (rule sub_next_ok)
    then show ?thesis using assms Next Some r
      by (auto simp: subs_ok_def broker_apply_def dest!: subsetD [OF set_dict_set])
  qed
qed

lemma subs_ok_run: "subs_ok b \<Longrightarrow> subs_ok (broker_run ops b)"
  unfolding broker_run_def by (induction ops arbitrary: b) (simp_all add: subs_ok_apply)

text \<open>C32. After any sequence of operations on a fresh broker the history holds the newest
  events of the stream, at most \<^verbatim>\<open>history_size\<close> of them: their sequence numbers are consecutive
  and end with the latest one, all carry the current stream identifier, and the eviction counter
  is exactly the number of published events that are no longer retained.\<close>

theorem history_is_newest_window:
  "let b = broker_run ops (new_broker history_size buffer_size sid);
       n = min history_size (b_sequence b)
   in map e_sequence (b_history b) = [Suc (b_sequence b) - n ..< Suc (b_sequence b)] \<and>
      b_history_evictions b = b_sequence b - n \<and>
      (\<forall>e. e \<in> set (b_history b) \<longrightarrow> e_stream_id e = b_stream_id b)"
proof -
  define b where "b = broker_run ops (new_broker history_size buffer_size sid)"
  have "window b" and "b_history_size b = history_size"
    by (simp_all add: b_def window_reachable run_history_size) (simp add: new_broker_def)
  then have "map e_sequence (b_history b) =
      [Suc (b_sequence b) - min history_size (b_sequence b) ..< Suc (b_sequence b)]"
    and "b_history_evictions b = b_sequence b - min history_size (b_sequence b)"
    and "\<forall>e \<in> set (b_history b). e_stream_id e = b_stream_id b"
    by (auto simp: window_def list_all_iff simp del: upt_Suc)
  then show ?thesis
    unfolding Let_def b_def [symmetric] by blast
qed

lemma history_is_newest_window_witness:
  "let b = broker_run [Publish (new_event 0 TRAFFIC), Publish (new_event 1 METRICS),
             Publish (new_event 2 LIFECYCLE)] (new_broker 2 8 ''s'')
   in map e_sequence (b_history b) = [2, 3] \<and> b_history_evictions b = 1 \<and>
      (\<forall>e. e \<in> set (b_history b) \<longrightarrow> e_stream_id e = b_stream_id b)"
proof -
  let ?ops = "[Publish (new_event 0 TRAFFIC), Publish (new_event 1 METRICS),
             Publish (new_event 2 LIFECYCLE)]"
  have "b_sequence (broker_run ?ops (new_broker 2 8 ''s'')) = 3"
    by (simp add: broker_run_def broker_apply_def broker_publish_def new_broker_def Let_def)
  then show ?thesis
    using history_is_newest_window [of ?ops 2 8 "''s''"] by (simp add: Let_def numeral_eq_Suc)
qed

subsection \<open>Replay pages\<close>

text \<open>What a client at a cursor has still to see.\<close>

definition unseen :: "nat \<Rightarrow> event_broker \<Rightarrow> packet_event list" where
  "unseen c b = filter (\<lambda>e. c < e_sequence e) (b_history b)"

text \<open>The cursor after a page: the last event's number, or the old cursor.\<close>

definition next_cursor :: "nat \<Rightarrow> event_history_page \<Rightarrow> nat" where
  "next_cursor c p = (if hp_events p = [] then c else e_sequence (last (hp_events p)))"

lemma last_take_nth: "0 < k \<Longrightarrow> k \<le> length xs \<Longrightarrow> last (take k xs) = xs ! (k - 1)"
  by (cases k) (simp_all add: take_Suc_conv_app_nth)

lemma filter_sorted_take:
  assumes "sorted_wrt (<) (map f xs)" and "0 < k" and "k \<le> length xs"
  shows "filter (\<lambda>x. f (xs ! (k - 1)) < (f x :: nat)) xs = drop k xs"
proof -
  have lt: "f (xs ! i) < f (xs ! j)" if "i < j" "j < length xs" for i j
    using assms(1) that by (simp add: sorted_wrt_iff_nth_less)
  have "\<not> f (xs ! (k - 1)) < f x" if "x \<in> set (take k xs)" for x
  proof -
    from that obtain i where "i < k" "x = xs ! i" by (auto simp: in_set_conv_nth)
    then show ?thesis using lt [of i "k - 1"] assms(2,3) by (cases "i = k - 1") force+
  qed
  then have "filter (\<lambda>x. f (xs ! (k - 1)) < f x) (take k xs) = []"
    by (simp add: filter_empty_conv)
  moreover have "filter (\<lambda>x. f (xs ! (k - 1)) < f x) (drop k xs) = drop k xs"
    using lt assms(2,3) by (auto simp: filter_id_conv in_set_conv_nth)
  ultimately show ?thesis
    by (metis append_take_drop_id append_Nil filter_append)
qed

lemma window_sorted: "window b \<Longrightarrow> sorted_wrt (<) (map e_sequence (b_history b))"
  by (simp add: window_def del: upt_Suc)

lemma unseen_sorted: "window b \<Longrightarrow> sorted_wrt (<) (map e_sequence (unseen c b))"
  unfolding unseen_def using window_sorted [of b] by (simp add: sorted_wrt_map sorted_wrt_filter)

lemma unseen_page_split:
  fixes c :: nat and b :: event_broker and limit :: nat
  assumes "window b" and "0 < limit"
  defines "page \<equiv> take limit (unseen c b)"
  shows "unseen c b = page @ unseen (if page = [] then c else e_sequence (last page)) b"
proof (cases "unseen c b = []")
  case True
  then show ?thesis by (simp add: page_def)
next
  case False
  let ?u = "unseen c b" and ?k = "min limit (length (unseen c b))"
  have k: "0 < ?k" "?k \<le> length ?u" using False assms(2) by auto
  have page: "page = take ?k ?u" "page \<noteq> []" using False assms(2) by (auto simp: page_def min_def)
  then have last: "last page = ?u ! (?k - 1)"
    using last_take_nth [OF k] by simp
  have mem: "last page \<in> set ?u"
    using page(2) unfolding page_def by (meson in_set_takeD last_in_set)
  have "unseen (e_sequence (last page)) b = filter (\<lambda>e. e_sequence (last page) < e_sequence e) ?u"
    using mem by (auto simp: unseen_def intro!: filter_cong)
  also have "\<dots> = drop ?k ?u"
    unfolding last using filter_sorted_take [OF unseen_sorted [OF assms(1)] k] .
  finally show ?thesis
    using page by (simp add: append_take_drop_id)
qed

lemma history_page_events:
  "hp_events (history_page c limit sid b) =
     take limit (unseen (if hp_stream_changed (history_page c limit sid b) then 0 else c) b)"
  by (simp add: history_page_def Let_def unseen_def)

lemma unseen_empty_iff: "window b \<Longrightarrow> unseen c b = [] \<longleftrightarrow> b_history b = [] \<or> b_sequence b \<le> c"
proof -
  assume w: "window b"
  show ?thesis
  proof (cases "b_history b = []")
    case True
    then show ?thesis by (simp add: unseen_def)
  next
    case False
    have le: "\<forall>e \<in> set (b_history b). e_sequence e \<le> b_sequence b"
    proof
      fix e assume "e \<in> set (b_history b)"
      then have "e_sequence e \<in> set (map e_sequence (b_history b))" by simp
      also have "map e_sequence (b_history b) = [Suc (b_sequence b) - length (b_history b) ..< Suc (b_sequence b)]"
        using w by (simp add: window_def)
      finally show "e_sequence e \<le> b_sequence b" by auto
    qed
    have "map e_sequence (b_history b) = [Suc (b_sequence b) - length (b_history b) ..< Suc (b_sequence b)]"
      using w by (simp add: window_def)
    moreover have "Suc (b_sequence b) - length (b_history b) < Suc (b_sequence b)" using False by simp
    ultimately have "b_sequence b \<in> set (map e_sequence (b_history b))" by simp
    then obtain e where "e \<in> set (b_history b)" "e_sequence e = b_sequence b" by auto
    then show ?thesis using False le
      by (auto simp: unseen_def filter_empty_conv not_less) 
  qed
qed

lemma last_page_cursor:
  assumes "window b" and "unseen c b \<noteq> []"
  shows "unseen (e_sequence (last (take (Suc l) (unseen c b)))) b = drop (Suc l) (unseen c b)"
proof -
  have "take (Suc l) (unseen c b) \<noteq> []" using assms(2) by (cases "unseen c b") simp_all
  then have "unseen c b = take (Suc l) (unseen c b) @
      unseen (e_sequence (last (take (Suc l) (unseen c b)))) b"
    using unseen_page_split [OF assms(1), of "Suc l" c] by simp
  then show ?thesis by (metis append_take_drop_id same_append_eq)
qed

lemma page_has_more:
  assumes "window b"
  shows "hp_has_more (history_page c (Suc l) sid b) \<longleftrightarrow>
    drop (Suc l) (unseen (if hp_stream_changed (history_page c (Suc l) sid b) then 0 else c) b) \<noteq> []"
    (is "_ \<longleftrightarrow> drop _ (unseen ?c b) \<noteq> []")
proof (cases "unseen ?c b = []")
  case True
  then show ?thesis
    by (simp add: history_page_def Let_def unseen_def split: if_splits)
next
  case False
  let ?page = "take (Suc l) (unseen ?c b)"
  have ne: "?page \<noteq> []" using False by (cases "unseen ?c b") simp_all
  then have nonempty: "b_history b \<noteq> []" by (auto simp: unseen_def)
  have "hp_has_more (history_page c (Suc l) sid b) \<longleftrightarrow> e_sequence (last ?page) < b_sequence b"
    using ne by (simp add: history_page_def Let_def unseen_def)
  also have "\<dots> \<longleftrightarrow> unseen (e_sequence (last ?page)) b \<noteq> []"
    using nonempty by (simp only: unseen_empty_iff [OF assms] not_le simp_thms de_Morgan_disj)
  also have "\<dots> \<longleftrightarrow> drop (Suc l) (unseen ?c b) \<noteq> []"
    using last_page_cursor [OF assms False] by simp
  finally show ?thesis .
qed

lemma page_gap:
  assumes "window b"
  shows "hp_history_gap (history_page c l sid b) \<longleftrightarrow>
    \<not> hp_stream_changed (history_page c l sid b) \<and> 0 < c \<and> b_history b \<noteq> [] \<and> c < b_history_evictions b"
proof (cases "b_history b")
  case Nil
  then show ?thesis by (simp add: history_page_def Let_def)
next
  case (Cons e es)
  have "map e_sequence (b_history b) = [Suc (b_sequence b) - length (b_history b) ..< Suc (b_sequence b)]"
    using assms by (simp add: window_def)
  also have "\<dots> = (Suc (b_sequence b) - length (b_history b)) # [Suc (Suc (b_sequence b) - length (b_history b)) ..< Suc (b_sequence b)]"
    using Cons by (subst upt_conv_Cons) simp_all
  finally have "e_sequence e = Suc (b_sequence b) - length (b_history b)" using Cons by simp
  moreover have "b_history_evictions b + length (b_history b) = b_sequence b"
    using assms by (simp add: window_def)
  ultimately show ?thesis using Cons by (auto simp: history_page_def Let_def)
qed

text \<open>C33. A replay page is exact. For a client at cursor \<open>c\<close> of a broker in any reachable
  state, the retained events after the cursor (from the beginning when the client names another
  stream) are the page followed by the events after the page's last event, so following the
  cursor delivers each of them once and in order; \<^verbatim>\<open>hasMore\<close> says exactly whether something is
  left after the page; and \<^verbatim>\<open>historyGap\<close> says exactly whether events between a client's
  cursor and the first retained event have been evicted.\<close>

theorem history_page_exact:
  "let b = broker_run ops (new_broker history_size buffer_size sid);
       p = history_page c (Suc l) client_stream b;
       start = (if hp_stream_changed p then 0 else c)
   in unseen start b = hp_events p @ unseen (next_cursor start p) b \<and>
      hp_has_more p = (unseen (next_cursor start p) b \<noteq> []) \<and>
      length (hp_events p) \<le> Suc l \<and>
      hp_stream_changed p = (\<exists>other. client_stream = Some other \<and> other \<noteq> b_stream_id b) \<and>
      hp_history_gap p = (\<not> hp_stream_changed p \<and> 0 < c \<and> b_history b \<noteq> [] \<and>
        c < b_history_evictions b)"
proof -
  define b where "b = broker_run ops (new_broker history_size buffer_size sid)"
  have w: "window b" unfolding b_def by (rule window_reachable)
  define p where "p = history_page c (Suc l) client_stream b"
  define start where "start = (if hp_stream_changed p then 0 else c)"
  have ev: "hp_events p = take (Suc l) (unseen start b)"
    unfolding p_def start_def by (rule history_page_events)
  have split: "unseen start b = hp_events p @ unseen (next_cursor start p) b"
    using unseen_page_split [OF w, of "Suc l" start] by (simp only: ev next_cursor_def zero_less_Suc simp_thms)
  then have rest: "unseen (next_cursor start p) b = drop (Suc l) (unseen start b)"
    by (metis ev append_take_drop_id same_append_eq)
  have "hp_has_more p = (unseen (next_cursor start p) b \<noteq> [])"
    unfolding rest unfolding p_def start_def by (rule page_has_more [OF w])
  moreover have "hp_stream_changed p = (\<exists>other. client_stream = Some other \<and> other \<noteq> b_stream_id b)"
    by (auto simp: p_def history_page_def Let_def)
  moreover note page_gap [OF w, of c "Suc l" client_stream, folded p_def] split
  ultimately show ?thesis
    unfolding Let_def b_def [symmetric] p_def [symmetric] start_def [symmetric] by (simp add: ev)
qed

subsection \<open>Recent events\<close>

lemma recent_loop_eq:
  "length acc < limit \<Longrightarrow>
   recent_loop limit node_id ty es acc = acc @ take (limit - length acc) (filter (event_matches node_id ty) es)"
  by (induction limit node_id ty es acc rule: recent_loop.induct)
    (auto simp: take_Cons' Suc_diff_Suc)

text \<open>The recent-events query returns exactly the last \<open>limit\<close> retained events that match
  the optional node and type filters, oldest first, for every limit the API accepts.\<close>

theorem recent_is_last_matching:
  "recent (Suc l) node_id ty b = lastn (Suc l) (filter (event_matches node_id ty) (b_history b))"
  by (simp add: recent_def recent_loop_eq lastn_def rev_take flip: rev_filter)

subsection \<open>Slow subscribers\<close>

datatype sub_op = Deliver packet_event | Take pyfloat

text \<open>
  An interleaving of publications and of the client's \<^verbatim>\<open>next\<close> calls: the published events,
  the events handed to the client, and the numbers that the client's drop notices carried.
\<close>

fun sub_trace :: "sub_op list \<Rightarrow> subscription \<Rightarrow>
    packet_event list \<times> packet_event list \<times> nat list \<times> subscription" where
  "sub_trace [] s = ([], [], [], s)"
| "sub_trace (Deliver e # ops) s =
     (let (pub, got, told, s') = sub_trace ops (sub_publish e s) in (e # pub, got, told, s'))"
| "sub_trace (Take now # ops) s =
     (case sub_next now s of
        None \<Rightarrow> sub_trace ops s
      | Some (e, s1) \<Rightarrow>
          (let (pub, got, told, s') = sub_trace ops s1
           in if e = drop_notice now s \<and> s_dropped s \<noteq> 0 \<and> \<not> s_delivered_drop_notice_last s
              then (pub, got, s_dropped s # told, s') else (pub, e # got, told, s')))"

lemma sub_trace_accounts:
  assumes "sub_ok s" and "sub_trace ops s = (pub, got, told, s')"
  shows "sub_ok s' \<and>
    s_dropped s + length (s_queue s) + length pub =
      length got + sum_list told + s_dropped s' + length (s_queue s') \<and>
    subseq (got @ s_queue s') (s_queue s @ pub)"
  using assms
proof (induction ops s arbitrary: pub got told rule: sub_trace.induct)
  case (1 s)
  then show ?case by simp
next
  case (2 e ops s)
  obtain pub1 where t: "sub_trace ops (sub_publish e s) = (pub1, got, told, s')" and pub: "pub = e # pub1"
    using "2.prems"(2) by (auto split: prod.splits)
  note IH = "2.IH" [OF sub_publish_ok [OF "2.prems"(1)] t]
  show ?case
  proof (cases "length (s_queue s) < s_maxsize s")
    case True
    then show ?thesis using IH "2.prems"(1) pub by (simp add: sub_publish_eq)
  next
    case False
    then have "s_queue s \<noteq> []" using "2.prems"(1) by (auto simp: sub_ok_def)
    then obtain x q where q: "s_queue s = x # q" by (cases "s_queue s") auto
    then have "subseq (got @ s_queue s') (x # q @ e # pub1)"
      using IH False "2.prems"(1) by (auto simp: sub_publish_eq intro: subseq_Cons')
    then show ?thesis using IH False "2.prems"(1) pub q by (simp add: sub_publish_eq)
  qed
next
  case (3 now ops s)
  show ?case
  proof (cases "sub_next now s")
    case None
    then show ?thesis using 3 by simp
  next
    case (Some r)
    then obtain e s1 where n: "sub_next now s = Some (e, s1)" by (cases r) auto
    obtain got1 told1 where t: "sub_trace ops s1 = (pub, got1, told1, s')"
      using "3.prems"(2) n by (auto simp: Let_def split: prod.splits if_splits)
    have IH: "sub_ok s' \<and> s_dropped s1 + length (s_queue s1) + length pub =
        length got1 + sum_list told1 + s_dropped s' + length (s_queue s') \<and>
      subseq (got1 @ s_queue s') (s_queue s1 @ pub)"
      using "3.IH"(2) [OF n refl sub_next_ok [OF "3.prems"(1) n] t] .
    show ?thesis
    proof (cases "s_dropped s \<noteq> 0 \<and> \<not> s_delivered_drop_notice_last s")
      case True
      then show ?thesis using IH "3.prems"(2) n t by (auto simp: sub_next_def)
    next
      case False
      then show ?thesis using IH "3.prems"(2) n t
        by (auto simp: sub_next_def get_nowait_def split: if_splits list.splits)
    qed
  qed
qed

text \<open>C34. A slow UI client loses events but is never misled. Whatever the interleaving of
  publications and reads on a fresh subscription, the queue never exceeds its bound, what the
  client received followed by what waits for it is a subsequence of the published events in
  order, and every published event was either received, is waiting, is counted as dropped, or was
  counted in a drop notice that the client received.\<close>

theorem slow_subscriber_accounting:
  "case sub_trace ops (new_subscription (Suc n) sid) of (published, received, notices, s) \<Rightarrow>
     length (s_queue s) \<le> Suc n \<and>
     subseq (received @ s_queue s) published \<and>
     length published = length received + length (s_queue s) + s_dropped s + sum_list notices"
proof -
  have max: "s_maxsize (snd (snd (snd (sub_trace ops s)))) = s_maxsize s" for s
    by (induction ops s rule: sub_trace.induct)
      (auto simp: Let_def sub_publish_def sub_next_def split: prod.splits option.splits if_splits)
  obtain pub got told s' where t: "sub_trace ops (new_subscription (Suc n) sid) = (pub, got, told, s')"
    by (cases "sub_trace ops (new_subscription (Suc n) sid)") auto
  have "s_maxsize s' = Suc n" using max [of "new_subscription (Suc n) sid"] t by (simp add: new_subscription_def)
  moreover have "sub_ok (new_subscription (Suc n) sid)" by (simp add: sub_ok_def new_subscription_def)
  note sub_trace_accounts [OF this t]
  ultimately show ?thesis unfolding t by (simp add: new_subscription_def sub_ok_def)
qed

text \<open>A reset leaves no stale evidence: after the broker is cleared, the history is empty,
  numbering starts again, and each connected client's next event is the reset notice of the new
  stream, with no drop count pending.\<close>

theorem clear_restarts_every_cursor:
  "let b' = broker_clear now new_id b
   in b_history b' = [] \<and> b_sequence b' = 0 \<and> b_stream_id b' = new_id \<and>
      dict_keys (b_subscribers b') = dict_keys (b_subscribers b) \<and>
      list_all (\<lambda>(i, s). case sub_next later s of
          None \<Rightarrow> False
        | Some (e, s1) \<Rightarrow> e_event_type e = UI_EVENTS_DROPPED \<and> e_result e = Some ''stream-reset'' \<and>
            e_stream_id e = new_id \<and> s_queue s1 = [] \<and> s_dropped s1 = 0) (b_subscribers b')"
  by (auto simp: broker_clear_def Let_def dict_simps list_all_iff sub_next_def sub_restart_def
      get_nowait_def new_event_def)

end
