(* ===== verification/Scenario.thy ===== *)
theory Scenario
  imports Py_Text Py_Float
begin

text \<open>
  The scenario schema of \<^verbatim>\<open>src/backend/app/models/scenario.py\<close>. Constructing a model object
  runs its field constraints and validators; here the constructor is a \<open>check\<close> that returns
  the record or the first \<^verbatim>\<open>ValueError\<close> (the library reports all of them at once). The region
  names belong to the \<^verbatim>\<open>meshtastic\<close> package and are a parameter. \<open>reachable_pairs\<close> is the
  breadth-first search; the order in which a Python set is iterated is a parameter, and the
  search's result does not depend on it.
\<close>

subsection \<open>Data\<close>

definition PUBLIC_PORT_MIN :: int where "PUBLIC_PORT_MIN = 45001"
definition PUBLIC_PORT_MAX :: int where "PUBLIC_PORT_MAX = 45010"

definition SUPPORTED_MODEM_PRESETS :: "string set" where
  "SUPPORTED_MODEM_PRESETS = {''LONG_FAST'', ''LONG_SLOW'', ''MEDIUM_SLOW'', ''MEDIUM_FAST'',
     ''SHORT_SLOW'', ''SHORT_FAST'', ''LONG_MODERATE'', ''SHORT_TURBO'', ''LONG_TURBO''}"

datatype node_role = CLIENT | CLIENT_MUTE | ROUTER | REPEATER
datatype collision_mode = NATIVE
datatype topology_preset = FULL_MESH | LINE | STAR | ALL_ISOLATED

record rf_settings =
  rf_region :: string
  rf_modem_preset :: string
  rf_frequency_slot :: int
  rf_hop_limit :: int
  rf_collision_mode :: collision_mode

record scenario_channel =
  ch_name :: string
  ch_psk :: string

record scenario_node =
  sn_id :: string
  sn_display_name :: string
  sn_role :: node_role
  sn_api_port :: int

record directed_link =
  from_node :: string
  to_node :: string
  enabled :: bool
  rssi_dbm :: int
  snr_db :: pyfloat

record scenario =
  sc_name :: string
  sc_seed :: int
  sc_node_count :: int
  sc_rf :: rf_settings
  sc_channel :: scenario_channel
  sc_nodes :: "scenario_node list"
  sc_links :: "directed_link list"
  sc_fresh_state :: bool

definition default_rf :: rf_settings where
  "default_rf = \<lparr>rf_region = ''US'', rf_modem_preset = ''LONG_FAST'', rf_frequency_slot = 20,
     rf_hop_limit = 4, rf_collision_mode = NATIVE\<rparr>"

definition default_channel :: scenario_channel where
  "default_channel = \<lparr>ch_name = ''Simulator'', ch_psk = ''AQ==''\<rparr>"

subsection \<open>Radio settings\<close>

definition in_range :: "int \<Rightarrow> int \<Rightarrow> int \<Rightarrow> bool" where
  "in_range lo hi n \<longleftrightarrow> lo \<le> n \<and> n \<le> hi"

definition validate_region :: "(string \<Rightarrow> bool) \<Rightarrow> string \<Rightarrow> string result" where
  "validate_region known v =
     (if v = ''UNSET'' then Inl (ValueError ''Meshtastic region must be set'')
      else if \<not> known v then Inl (ValueError (''unsupported Meshtastic region: '' @ v))
      else Inr v)"

definition check_rf :: "(string \<Rightarrow> bool) \<Rightarrow> rf_settings \<Rightarrow> rf_settings result" where
  "check_rf known r =
     bind_result (validate_region known (rf_region r)) (\<lambda>_.
       if \<not> in_range 0 255 (rf_frequency_slot r) then Inl (ValueError ''frequencySlot'')
       else if \<not> in_range 1 7 (rf_hop_limit r) then Inl (ValueError ''hopLimit'')
       else if rf_modem_preset r \<notin> SUPPORTED_MODEM_PRESETS
       then Inl (ValueError (''unsupported modem preset: '' @ rf_modem_preset r))
       else Inr r)"

subsection \<open>The channel key\<close>

text \<open>
  \<^verbatim>\<open>base64.b64decode(_, validate=True)\<close>, that is \<^verbatim>\<open>binascii.a2b_base64\<close> in strict mode:
  the state is the position in the quad, the bits left over, the number of pad characters and
  whether padding has started. \<open>None\<close> is \<^verbatim>\<open>binascii.Error\<close> or \<^verbatim>\<open>ValueError\<close>.
\<close>

definition base64_value :: "nat \<Rightarrow> nat option" where
  "base64_value c =
     (if 65 \<le> c \<and> c \<le> 90 then Some (c - 65)
      else if 97 \<le> c \<and> c \<le> 122 then Some (c - 97 + 26)
      else if 48 \<le> c \<and> c \<le> 57 then Some (c - 48 + 52)
      else if c = 43 then Some 62 else if c = 47 then Some 63 else None)"

fun a2b_loop :: "nat \<Rightarrow> nat \<Rightarrow> nat \<Rightarrow> bool \<Rightarrow> nat list \<Rightarrow> bytes \<Rightarrow> bytes option" where
  "a2b_loop quad_pos leftchar pads padding_started [] acc =
     (if quad_pos = 0 then Some acc else None)"
| "a2b_loop quad_pos leftchar pads padding_started (c # cs) acc =
     (if c = 61 then
        (if 2 \<le> quad_pos \<and> 4 \<le> quad_pos + (pads + 1)
         then (if cs = [] then Some acc else None)
         else a2b_loop quad_pos leftchar (if 2 \<le> quad_pos then pads + 1 else pads) True cs acc)
      else case base64_value c of
        None \<Rightarrow> None
      | Some v \<Rightarrow>
          if padding_started then None
          else if quad_pos = 0 then a2b_loop 1 v 0 padding_started cs acc
          else if quad_pos = 1
          then a2b_loop 2 (v mod 16) 0 padding_started cs (acc @ [of_nat (leftchar * 4 + v div 16)])
          else if quad_pos = 2
          then a2b_loop 3 (v mod 4) 0 padding_started cs (acc @ [of_nat (leftchar * 16 + v div 4)])
          else a2b_loop 0 0 0 padding_started cs (acc @ [of_nat (leftchar * 64 + v)]))"

definition b64decode :: "string \<Rightarrow> bytes option" where
  "b64decode s = (if s \<noteq> [] \<and> hd (codes s) = 61 then None else a2b_loop 0 0 0 False (codes s) [])"

definition check_channel :: "scenario_channel \<Rightarrow> scenario_channel result" where
  "check_channel c =
     (if \<not> in_range 1 12 (int (length (ch_name c))) then Inl (ValueError ''name'')
      else case b64decode (ch_psk c) of
        None \<Rightarrow> Inl (ValueError ''psk must be valid base64'')
      | Some decoded \<Rightarrow>
          if length decoded \<notin> {1, 16, 32}
          then Inl (ValueError ''psk must decode to 1, 16, or 32 bytes'')
          else Inr c)"

definition key_bytes :: "scenario_channel \<Rightarrow> bytes result" where
  "key_bytes c = (case b64decode (ch_psk c) of
     None \<Rightarrow> Inl (ValueError ''base64'') | Some b \<Rightarrow> Inr b)"

subsection \<open>Nodes and links\<close>

text \<open>The pattern \<^verbatim>\<open>^[a-z0-9][a-z0-9-]{0,31}$\<close>.\<close>

definition id_char :: "nat \<Rightarrow> bool" where
  "id_char c \<longleftrightarrow> (97 \<le> c \<and> c \<le> 122) \<or> is_digit c"

definition node_id_ok :: "string \<Rightarrow> bool" where
  "node_id_ok s = (case codes s of [] \<Rightarrow> False
     | c # cs \<Rightarrow> id_char c \<and> length cs \<le> 31 \<and> list_all (\<lambda>c. id_char c \<or> c = 45) cs)"

definition check_node :: "scenario_node \<Rightarrow> scenario_node result" where
  "check_node n =
     (if \<not> node_id_ok (sn_id n) then Inl (ValueError ''id'')
      else if \<not> in_range 1 40 (int (length (sn_display_name n))) then Inl (ValueError ''displayName'')
      else if \<not> in_range PUBLIC_PORT_MIN PUBLIC_PORT_MAX (sn_api_port n) then Inl (ValueError ''apiPort'')
      else Inr n)"

definition check_link :: "directed_link \<Rightarrow> directed_link result" where
  "check_link l =
     (if \<not> in_range (- 200) 0 (rssi_dbm l) then Inl (ValueError ''rssiDbm'')
      else if snr_db l < - 30 \<or> 30 < snr_db l then Inl (ValueError ''snrDb'')
      else Inr l)"

subsection \<open>The graph\<close>

definition arrow :: "string \<times> string \<Rightarrow> string" where
  "arrow k = fst k @ '' -> '' @ snd k"

fun check_links :: "string list \<Rightarrow> directed_link list \<Rightarrow> (string \<times> string) list \<Rightarrow>
    (string \<times> string) list result" where
  "check_links known [] link_keys = Inr link_keys"
| "check_links known (l # ls) link_keys =
     (let key = (from_node l, to_node l)
      in if from_node l = to_node l then Inl (ValueError ''self-links are not allowed'')
         else if from_node l \<notin> set known \<or> to_node l \<notin> set known
         then Inl (ValueError (''link references unknown node: '' @ arrow key))
         else if key \<in> set link_keys
         then Inl (ValueError (''duplicate directed link: '' @ arrow key))
         else check_links known ls (link_keys @ [key]))"

fun join :: "string \<Rightarrow> string list \<Rightarrow> string" where
  "join sep [] = ''''"
| "join sep [s] = s"
| "join sep (s # t # ss) = s @ sep @ join sep (t # ss)"

definition validate_graph :: "scenario \<Rightarrow> scenario result" where
  "validate_graph sc =
     (if sc_node_count sc \<noteq> int (length (sc_nodes sc))
      then Inl (ValueError ''nodeCount must equal the number of nodes'')
      else let node_ids = map sn_id (sc_nodes sc)
      in if length node_ids \<noteq> card (set node_ids) then Inl (ValueError ''node IDs must be unique'')
      else let ports = map sn_api_port (sc_nodes sc)
      in if length ports \<noteq> card (set ports) then Inl (ValueError ''public API ports must be unique'')
      else bind_result (check_links node_ids (sc_links sc) []) (\<lambda>link_keys.
        let missing = [arrow (source, target). source \<leftarrow> node_ids, target \<leftarrow> node_ids,
                         source \<noteq> target \<and> (source, target) \<notin> set link_keys]
        in if missing \<noteq> [] then Inl (ValueError (''missing directed links: '' @ join '', '' missing))
           else Inr sc))"

definition check_scenario :: "(string \<Rightarrow> bool) \<Rightarrow> scenario \<Rightarrow> scenario result" where
  "check_scenario known sc =
     (if \<not> in_range 1 80 (int (length (sc_name sc))) then Inl (ValueError ''name'')
      else if \<not> in_range 2 10 (sc_node_count sc) then Inl (ValueError ''nodeCount'')
      else bind_result (check_rf known (sc_rf sc)) (\<lambda>_.
           bind_result (check_channel (sc_channel sc)) (\<lambda>_.
           bind_result (traverse_result check_node (sc_nodes sc)) (\<lambda>_.
           bind_result (traverse_result check_link (sc_links sc)) (\<lambda>_.
           validate_graph sc)))))"

definition link_map :: "scenario \<Rightarrow> (string \<times> string, directed_link) dict" where
  "link_map sc = dict_of (map (\<lambda>l. ((from_node l, to_node l), l)) (sc_links sc)) []"

subsection \<open>Reachable pairs\<close>

type_synonym set_order = "string set \<Rightarrow> string list"

fun add_edges :: "directed_link list \<Rightarrow> (string, string set) dict \<Rightarrow> (string, string set) dict result" where
  "add_edges [] adj = Inr adj"
| "add_edges (l # ls) adj =
     (if \<not> enabled l then add_edges ls adj
      else case dict_get adj (from_node l) of
        None \<Rightarrow> Inl (KeyError (from_node l))
      | Some ts \<Rightarrow> add_edges ls (dict_set (from_node l) (insert (to_node l) ts) adj))"

definition adjacency :: "scenario \<Rightarrow> (string, string set) dict result" where
  "adjacency sc = add_edges (sc_links sc) (dict_of (map (\<lambda>n. (sn_id n, {})) (sc_nodes sc)) [])"

text \<open>The \<^verbatim>\<open>while pending\<close> loop: nodes pop with their hop count from a first-in first-out queue.\<close>

function search :: "set_order \<Rightarrow> (string, string set) dict \<Rightarrow> int option \<Rightarrow> string \<Rightarrow>
    (string \<times> nat) list \<Rightarrow> string set \<Rightarrow> (string \<times> string) set \<Rightarrow> (string \<times> string) set result" where
  "search order adj max_hops source [] visited reachable = Inr reachable"
| "search order adj max_hops source ((target, hops) # pending) visited reachable =
     (if target \<in> visited then search order adj max_hops source pending visited reachable
      else let visited' = insert target visited; reachable' = insert (source, target) reachable
      in if max_hops = None \<or> int hops < the max_hops then
           (case dict_get adj target of
              None \<Rightarrow> Inl (KeyError target)
            | Some neighbors \<Rightarrow>
                search order adj max_hops source
                  (pending @ map (\<lambda>n. (n, hops + 1)) (order (neighbors - visited')))
                  visited' reachable')
         else search order adj max_hops source pending visited' reachable')"
  by pat_completeness auto
termination
proof (relation "measures [\<lambda>(order, adj, mh, s, pending, visited, r). card (set (map fst adj) - visited),
    \<lambda>(order, adj, mh, s, pending, visited, r). length pending]", goal_cases)
  case 1
  show ?case by simp
next
  case (3 order adj max_hops source target hops pending visited reachable v' r' neighbors)
  then have "dict_get adj target = Some neighbors" "target \<notin> visited" by simp_all
  then have "target \<in> set (map fst adj) - visited" using dict_get_key by fast
  then have "set (map fst adj) - v' \<subset> set (map fst adj) - visited" using 3 by auto
  then have "card (set (map fst adj) - v') < card (set (map fst adj) - visited)"
    by (intro psubset_card_mono) simp_all
  then show ?case by simp
next
  case (4 order adj max_hops source target hops pending visited reachable v' r')
  then have "card (set (map fst adj) - v') \<le> card (set (map fst adj) - visited)"
    by (intro card_mono) auto
  then show ?case by auto
qed simp_all

fun search_all :: "set_order \<Rightarrow> (string, string set) dict \<Rightarrow> int option \<Rightarrow> string list \<Rightarrow>
    (string \<times> string) set \<Rightarrow> (string \<times> string) set result" where
  "search_all order adj max_hops [] reachable = Inr reachable"
| "search_all order adj max_hops (source # sources) reachable =
     (case dict_get adj source of
        None \<Rightarrow> Inl (KeyError source)
      | Some ts \<Rightarrow>
          bind_result (search order adj max_hops source (map (\<lambda>t. (t, 1)) (order ts)) {source} reachable)
            (search_all order adj max_hops sources))"

definition reachable_pairs :: "set_order \<Rightarrow> int option \<Rightarrow> scenario \<Rightarrow> (string \<times> string) set result" where
  "reachable_pairs order max_hops sc =
     bind_result (adjacency sc) (\<lambda>adj. search_all order adj max_hops (dict_keys adj) {})"

subsection \<open>Presets\<close>

definition default_nodes :: "int \<Rightarrow> scenario_node list result" where
  "default_nodes node_count =
     (if \<not> in_range 2 10 node_count then Inl (ValueError ''node count must be from 2 through 10'')
      else traverse_result (\<lambda>index. check_node
        \<lparr>sn_id = ''node-'' @ show_nat index, sn_display_name = ''Node '' @ show_nat index,
         sn_role = CLIENT, sn_api_port = PUBLIC_PORT_MIN + int index - 1\<rparr>) [1 ..< nat node_count + 1])"

definition preset_enabled :: "topology_preset \<Rightarrow> string \<Rightarrow> nat \<times> string \<Rightarrow> nat \<times> string \<Rightarrow> bool" where
  "preset_enabled preset hub s t =
     (case preset of
        FULL_MESH \<Rightarrow> True
      | LINE \<Rightarrow> \<bar>int (fst s) - int (fst t)\<bar> = 1
      | STAR \<Rightarrow> snd s = hub \<or> snd t = hub
      | ALL_ISOLATED \<Rightarrow> False)"

definition generate_links :: "string list \<Rightarrow> topology_preset \<Rightarrow> int \<Rightarrow> pyfloat \<Rightarrow> directed_link list result" where
  "generate_links node_ids preset rssi snr =
     (case node_ids of
        [] \<Rightarrow> Inl IndexError
      | hub # _ \<Rightarrow>
          traverse_result check_link
            [\<lparr>from_node = snd s, to_node = snd t, enabled = preset_enabled preset hub s t,
              rssi_dbm = rssi, snr_db = snr\<rparr>.
             s \<leftarrow> enumerate 0 node_ids, t \<leftarrow> enumerate 0 node_ids, snd s \<noteq> snd t])"

definition apply_topology_preset :: "scenario \<Rightarrow> topology_preset \<Rightarrow> scenario result" where
  "apply_topology_preset sc preset =
     bind_result (generate_links (map sn_id (sc_nodes sc)) preset (- 85) 8) (\<lambda>generated.
       let enabled_by_pair = dict_of (map (\<lambda>l. ((from_node l, to_node l), enabled l)) generated) []
       in bind_result (traverse_result (\<lambda>l.
            case dict_get enabled_by_pair (from_node l, to_node l) of
              None \<Rightarrow> Inl (KeyError (arrow (from_node l, to_node l)))
            | Some e \<Rightarrow> Inr (l\<lparr>enabled := e\<rparr>)) (sc_links sc))
          (\<lambda>links. Inr (sc\<lparr>sc_links := links\<rparr>)))"

definition default_scenario :: "(string \<Rightarrow> bool) \<Rightarrow> int \<Rightarrow> scenario result" where
  "default_scenario known node_count =
     bind_result (default_nodes node_count) (\<lambda>nodes.
     bind_result (generate_links (map sn_id nodes) FULL_MESH (- 85) 8) (\<lambda>links.
       check_scenario known
         \<lparr>sc_name = (if node_count = 5 then ''five-node-full-mesh''
                    else show_int node_count @ ''-node-full-mesh''),
          sc_seed = 1, sc_node_count = node_count, sc_rf = default_rf, sc_channel = default_channel,
          sc_nodes = nodes, sc_links = links, sc_fresh_state = True\<rparr>))"

subsection \<open>The accepted graphs\<close>

definition link_key :: "directed_link \<Rightarrow> string \<times> string" where
  "link_key l = (from_node l, to_node l)"

text \<open>A complete directed graph on distinct nodes with distinct ports, each link stated once.\<close>

definition graph_wf :: "scenario \<Rightarrow> bool" where
  "graph_wf sc \<longleftrightarrow>
     sc_node_count sc = int (length (sc_nodes sc)) \<and>
     distinct (map sn_id (sc_nodes sc)) \<and> distinct (map sn_api_port (sc_nodes sc)) \<and>
     distinct (map link_key (sc_links sc)) \<and>
     link_key ` set (sc_links sc) =
       {(s, t). s \<in> sn_id ` set (sc_nodes sc) \<and> t \<in> sn_id ` set (sc_nodes sc) \<and> s \<noteq> t}"

lemma check_links_Inr:
  "check_links known ls ks = Inr ks' \<longleftrightarrow>
     ks' = ks @ map link_key ls \<and> distinct (map link_key ls) \<and>
     set ks \<inter> link_key ` set ls = {} \<and>
     (\<forall>l \<in> set ls. from_node l \<noteq> to_node l \<and> from_node l \<in> set known \<and> to_node l \<in> set known)"
  by (induction known ls ks rule: check_links.induct) (auto simp: Let_def link_key_def)

lemma distinct_length_card: "length xs = card (set xs) \<longleftrightarrow> distinct xs"
  by (metis card_distinct distinct_card)

lemma validate_graph_Inr: "validate_graph sc = Inr sc' \<longleftrightarrow> sc' = sc \<and> graph_wf sc"
proof -
  let ?ids = "map sn_id (sc_nodes sc)"
  have missing: "[arrow (s, t). s \<leftarrow> ?ids, t \<leftarrow> ?ids, s \<noteq> t \<and> (s, t) \<notin> set ks] = [] \<longleftrightarrow>
      {(s, t). s \<in> set ?ids \<and> t \<in> set ?ids \<and> s \<noteq> t} \<subseteq> set ks" for ks
    by (auto simp: concat_eq_Nil_conv split: if_splits)
  have links: "(\<forall>l \<in> set (sc_links sc). from_node l \<noteq> to_node l \<and> from_node l \<in> set ?ids \<and> to_node l \<in> set ?ids) \<and>
      {(s, t). s \<in> set ?ids \<and> t \<in> set ?ids \<and> s \<noteq> t} \<subseteq> set (map link_key (sc_links sc)) \<longleftrightarrow>
      link_key ` set (sc_links sc) = {(s, t). s \<in> set ?ids \<and> t \<in> set ?ids \<and> s \<noteq> t}"
    (is "?A \<and> ?B \<longleftrightarrow> ?C")
  proof -
    have "?A \<longleftrightarrow> link_key ` set (sc_links sc) \<subseteq> {(s, t). s \<in> set ?ids \<and> t \<in> set ?ids \<and> s \<noteq> t}"
      by (auto simp: link_key_def)
    then show ?thesis by (simp only: set_map set_eq_subset)
  qed
  have "validate_graph sc = Inr sc' \<longleftrightarrow> sc' = sc \<and> sc_node_count sc = int (length (sc_nodes sc)) \<and>
      distinct ?ids \<and> distinct (map sn_api_port (sc_nodes sc)) \<and> distinct (map link_key (sc_links sc)) \<and> (\<forall>l \<in> set (sc_links sc). from_node l \<noteq> to_node l \<and> from_node l \<in> set ?ids \<and> to_node l \<in> set ?ids) \<and>
      {(s, t). s \<in> set ?ids \<and> t \<in> set ?ids \<and> s \<noteq> t} \<subseteq> set (map link_key (sc_links sc))"
    unfolding validate_graph_def Let_def distinct_length_card missing
    by (simp only: if_Inl_eq_Inr bind_result_eq_Inr check_links_Inr missing not_not) auto
  then show ?thesis unfolding links by (auto simp: graph_wf_def)
qed

text \<open>The graph validator accepts exactly the complete directed graphs: the declared node
  count is right, identifiers and ports are unique, there is no self-link and no link to an
  unknown node, and every ordered pair of different nodes has exactly one link. An accepted
  scenario is returned unchanged.\<close>

theorem validate_graph_accepts_complete_digraphs:
  "(isOk (validate_graph sc) \<longleftrightarrow> graph_wf sc) \<and>
   (case validate_graph sc of Inl _ \<Rightarrow> True | Inr sc' \<Rightarrow> sc' = sc)"
  using validate_graph_Inr [of sc] by (cases "validate_graph sc") auto

lemma check_scenario_Inr:
  "check_scenario known sc = Inr sc' \<longleftrightarrow>
     sc' = sc \<and> graph_wf sc \<and> in_range 1 80 (int (length (sc_name sc))) \<and> in_range 2 10 (sc_node_count sc) \<and>
     isOk (check_rf known (sc_rf sc)) \<and> isOk (check_channel (sc_channel sc)) \<and>
     (\<forall>n \<in> set (sc_nodes sc). isOk (check_node n)) \<and> (\<forall>l \<in> set (sc_links sc). isOk (check_link l))"
proof -
  have "check_scenario known sc = Inr sc' \<longleftrightarrow>
      in_range 1 80 (int (length (sc_name sc))) \<and> in_range 2 10 (sc_node_count sc) \<and>
      isOk (check_rf known (sc_rf sc)) \<and> isOk (check_channel (sc_channel sc)) \<and>
      isOk (traverse_result check_node (sc_nodes sc)) \<and> isOk (traverse_result check_link (sc_links sc)) \<and>
      validate_graph sc = Inr sc'"
    by (auto simp: check_scenario_def bind_result_eq_Inr isOk_iff)
  then show ?thesis by (auto simp: isOk_traverse validate_graph_Inr)
qed

subsection \<open>An example\<close>

text \<open>Three stations, with only the links from the first to the second and on to the third.\<close>

definition relay_scenario :: scenario where
  "relay_scenario = \<lparr>sc_name = ''relay'', sc_seed = 1, sc_node_count = 3, sc_rf = default_rf,
     sc_channel = default_channel,
     sc_nodes = map (\<lambda>(i, p). \<lparr>sn_id = i, sn_display_name = i, sn_role = CLIENT, sn_api_port = p\<rparr>)
       [(''a'', 45001), (''b'', 45002), (''c'', 45003)],
     sc_links = map (\<lambda>(s, t, e). \<lparr>from_node = s, to_node = t, enabled = e, rssi_dbm = - 85, snr_db = 8\<rparr>)
       [(''a'', ''b'', True), (''b'', ''c'', True), (''a'', ''c'', False),
        (''b'', ''a'', False), (''c'', ''b'', False), (''c'', ''a'', False)],
     sc_fresh_state = True\<rparr>"

lemma relay_valid: "validate_graph relay_scenario = Inr relay_scenario"
  unfolding validate_graph_Inr graph_wf_def relay_scenario_def by (auto simp: link_key_def)

end
