(* ===== verification/Reachability.thy ===== *)
theory Reachability
  imports Scenario "HOL-Library.Char_ord" "HOL-Library.List_Lexorder"
begin

text \<open>
  Correctness of \<^verbatim>\<open>Scenario.reachable_pairs\<close> of \<^verbatim>\<open>src/backend/app/models/scenario.py\<close>
  and of the topology presets. The search pops nodes level by level, so a node is visited with
  its smallest hop count; the invariant \<open>bfs_level\<close> states that, and the result is the set of
  pairs joined by a path of enabled links within the hop limit, whatever the order in which sets
  are iterated.
\<close>

subsection \<open>The specification\<close>

definition link_edges :: "scenario \<Rightarrow> (string \<times> string) set" where
  "link_edges sc = {(s, t). \<exists>l \<in> set (sc_links sc). enabled l \<and> from_node l = s \<and> to_node l = t}"

definition within_limit :: "int option \<Rightarrow> nat \<Rightarrow> bool" where
  "within_limit max_hops k \<longleftrightarrow> (case max_hops of None \<Rightarrow> True | Some m \<Rightarrow> int k \<le> max 1 m)"

definition connected_pairs :: "(string \<times> string) set \<Rightarrow> int option \<Rightarrow> (string \<times> string) set" where
  "connected_pairs E max_hops = {(s, t). s \<noteq> t \<and> (\<exists>k. within_limit max_hops k \<and> (s, t) \<in> E ^^ k)}"

definition hop_set :: "('a \<times> 'a) set \<Rightarrow> 'a \<Rightarrow> nat \<Rightarrow> 'a set" where
  "hop_set E s k = {t. \<exists>j \<le> k. (s, t) \<in> E ^^ j}"

lemma hop_set_0 [simp]: "hop_set E s 0 = {s}"
  by (auto simp: hop_set_def)

lemma hop_set_mono: "j \<le> k \<Longrightarrow> hop_set E s j \<subseteq> hop_set E s k"
  by (auto simp: hop_set_def intro: order.trans)

lemma hop_set_step: "u \<in> hop_set E s k \<Longrightarrow> (u, t) \<in> E \<Longrightarrow> t \<in> hop_set E s (Suc k)"
  unfolding hop_set_def using relpow_Suc_I [of s u _ E t] Suc_le_mono by fast

lemma hop_set_Suc: "hop_set E s (Suc k) = insert s (E `` hop_set E s k)"
proof (intro set_eqI iffI)
  fix t assume "t \<in> hop_set E s (Suc k)"
  then obtain j where j: "j \<le> Suc k" "(s, t) \<in> E ^^ j" by (auto simp: hop_set_def)
  show "t \<in> insert s (E `` hop_set E s k)"
  proof (cases j)
    case 0
    then show ?thesis using j by simp
  next
    case (Suc i)
    then obtain u where "(s, u) \<in> E ^^ i" "(u, t) \<in> E" using j by (auto elim: relpow_Suc_E)
    then show ?thesis using j Suc by (auto simp: hop_set_def)
  qed
next
  fix t assume "t \<in> insert s (E `` hop_set E s k)"
  then show "t \<in> hop_set E s (Suc k)"
    using hop_set_mono [of 0 "Suc k" E s] by (auto intro: hop_set_step)
qed

lemma hop_set_closed:
  assumes "E `` hop_set E s h \<subseteq> hop_set E s h"
  shows "hop_set E s k \<subseteq> hop_set E s h"
proof (induction k)
  case 0
  show ?case using hop_set_mono [of 0 h E s] by simp
next
  case (Suc k)
  then show ?case using assms hop_set_mono [of 0 h E s] by (auto simp: hop_set_Suc)
qed

subsection \<open>The search invariant\<close>

definition goes_on :: "int option \<Rightarrow> nat \<Rightarrow> bool" where
  "goes_on max_hops h \<longleftrightarrow> max_hops = None \<or> int h < the max_hops"

definition bfs_level :: "(string \<times> string) set \<Rightarrow> int option \<Rightarrow> string \<Rightarrow> nat \<Rightarrow>
    (string \<times> nat) list \<Rightarrow> (string \<times> nat) list \<Rightarrow> string set \<Rightarrow> bool" where
  "bfs_level E mh s h A B visited \<longleftrightarrow>
     0 < h \<and> within_limit mh h \<and> (\<not> goes_on mh h \<longrightarrow> B = []) \<and>
     snd ` set A \<subseteq> {h} \<and> snd ` set B \<subseteq> {Suc h} \<and>
     fst ` set A \<subseteq> hop_set E s h \<and> fst ` set B \<subseteq> hop_set E s (Suc h) \<and>
     hop_set E s (h - 1) \<subseteq> visited \<and> visited \<subseteq> hop_set E s h \<and>
     hop_set E s h \<subseteq> visited \<union> fst ` set A \<and>
     (goes_on mh h \<longrightarrow> E `` (visited - hop_set E s (h - 1)) \<subseteq> visited \<union> fst ` set B)"

lemma bfs_level_start:
  "bfs_level E mh s 1 (map (\<lambda>t. (t, 1)) ts) [] {s}" if "set ts = E `` {s}"
  using that by (auto simp: bfs_level_def hop_set_Suc within_limit_def image_image split: option.splits)

lemma bfs_level_next:
  assumes "bfs_level E mh s h [] B visited" and "B \<noteq> []"
  shows "bfs_level E mh s (Suc h) B [] visited"
proof -
  have h: "0 < h" "goes_on mh h" and v: "visited = hop_set E s h"
    and e: "E `` (visited - hop_set E s (h - 1)) \<subseteq> visited \<union> fst ` set B"
    using assms by (auto simp: bfs_level_def)
  have "hop_set E s (Suc h) \<subseteq> visited \<union> fst ` set B"
  proof
    fix t assume "t \<in> hop_set E s (Suc h)"
    then consider "t = s" | u where "u \<in> hop_set E s h" "(u, t) \<in> E" by (auto simp: hop_set_Suc)
    then show "t \<in> visited \<union> fst ` set B"
    proof cases
      case 1
      then show ?thesis using hop_set_mono [of 0 h E s] v by auto
    next
      case 2
      show ?thesis
      proof (cases "u \<in> hop_set E s (h - 1)")
        case True
        then show ?thesis using hop_set_step [OF True 2(2)] h v by simp
      next
        case False
        then show ?thesis using 2 v e by auto
      qed
    qed
  qed
  moreover have "within_limit mh (Suc h)"
    using h by (auto simp: goes_on_def within_limit_def split: option.splits)
  ultimately show ?thesis
    using assms v hop_set_mono [of h "Suc h" E s] by (auto simp: bfs_level_def)
qed

lemma bfs_level_done:
  assumes "bfs_level E mh s h [] [] visited" and "within_limit mh k"
  shows "hop_set E s k \<subseteq> visited"
proof (cases "goes_on mh h")
  case True
  have v: "visited = hop_set E s h" "0 < h" using assms(1) by (auto simp: bfs_level_def)
  have "E `` hop_set E s h \<subseteq> hop_set E s h"
  proof
    fix t assume "t \<in> E `` hop_set E s h"
    then obtain u where u: "u \<in> hop_set E s h" "(u, t) \<in> E" by blast
    show "t \<in> hop_set E s h"
    proof (cases "u \<in> hop_set E s (h - 1)")
      case True
      then show ?thesis using hop_set_step [OF True u(2)] v(2) by simp
    next
      case False
      then show ?thesis using u \<open>goes_on mh h\<close> assms(1) v(1) by (auto simp: bfs_level_def)
    qed
  qed
  then show ?thesis using hop_set_closed [of E s h k] v by simp
next
  case False
  then have "k \<le> h" using assms by (auto simp: goes_on_def within_limit_def bfs_level_def)
  then show ?thesis using assms(1) hop_set_mono [of k h E s] by (auto simp: bfs_level_def)
qed

definition limited_set :: "(string \<times> string) set \<Rightarrow> int option \<Rightarrow> string \<Rightarrow> string set" where
  "limited_set E mh s = (\<Union>k \<in> {k. within_limit mh k}. hop_set E s k)"

lemma bfs_level_visit:
  assumes "bfs_level E mh s h ((t, k) # A) B visited" and "t \<notin> visited"
    and "goes_on mh h \<Longrightarrow> set ns = E `` {t} - insert t visited"
  shows "bfs_level E mh s h A (if goes_on mh h then B @ map (\<lambda>n. (n, Suc h)) ns else B) (insert t visited)"
proof -
  have t: "t \<in> hop_set E s h" using assms(1) by (simp add: bfs_level_def)
  have "n \<in> hop_set E s (Suc h)" if "(t, n) \<in> E" for n
    using hop_set_step [OF t that] .
  then show ?thesis
    using assms by (auto simp: bfs_level_def image_image image_Un)
qed

lemma bfs_level_skip:
  "bfs_level E mh s h ((t, k) # A) B visited \<Longrightarrow> t \<in> visited \<Longrightarrow> bfs_level E mh s h A B visited"
  by (auto simp: bfs_level_def)

lemma bfs_level_normal:
  assumes "bfs_level E mh s h A B visited" and "A @ B = (t, k) # pending"
  obtains h' A' B' where "bfs_level E mh s h' ((t, k) # A') B' visited" and "pending = A' @ B'" and "k = h'"
proof (cases A)
  case Nil
  then show thesis
    using assms bfs_level_next [of E mh s h B visited] that [of "Suc h" pending "[]"]
    by (auto simp: bfs_level_def)
next
  case (Cons a A')
  then show thesis using assms that [of h A' B] by (auto simp: bfs_level_def)
qed

lemma bfs_level_limited: "bfs_level E mh s h A B visited \<Longrightarrow> hop_set E s h \<subseteq> limited_set E mh s"
  by (auto simp: limited_set_def bfs_level_def)

definition search_context :: "set_order \<Rightarrow> (string, string set) dict \<Rightarrow> (string \<times> string) set \<Rightarrow> bool" where
  "search_context order adj E \<longleftrightarrow>
     (\<forall>S. finite S \<longrightarrow> set (order S) = S) \<and> finite E \<and> E \<subseteq> set (dict_keys adj) \<times> set (dict_keys adj) \<and>
     (\<forall>s \<in> set (dict_keys adj). dict_get adj s = Some (E `` {s}))"

lemma search_context_nodes:
  "search_context order adj E \<Longrightarrow> s \<in> set (dict_keys adj) \<Longrightarrow> hop_set E s k \<subseteq> set (dict_keys adj)"
  by (induction k) (auto simp: hop_set_Suc search_context_def)

lemma search_result:
  "search_context order adj E \<Longrightarrow> s \<in> set (dict_keys adj) \<Longrightarrow> pending = A @ B \<Longrightarrow>
   bfs_level E mh s h A B visited \<Longrightarrow>
    search order adj mh s pending visited reachable =
      Inr (reachable \<union> Pair s ` (limited_set E mh s - visited))"
proof (induction order adj mh s pending visited reachable arbitrary: A B h
    rule: search.induct [case_names Nil Cons])
  case (Nil order adj mh s visited reachable)
  then have "limited_set E mh s \<subseteq> visited"
    using bfs_level_done [of E mh s h visited] by (auto simp: limited_set_def)
  then show ?case by auto
next
  case (Cons order adj mh s t k pending visited reachable)
  from bfs_level_normal [OF Cons.prems(4) Cons.prems(3) [symmetric]] obtain h' A' B'
    where lvl: "bfs_level E mh s h' ((t, k) # A') B' visited" and p: "pending = A' @ B'" and k: "k = h'" .
  show ?case
  proof (cases "t \<in> visited")
    case True
    then show ?thesis using Cons.IH(1) [OF True Cons.prems(1,2) p bfs_level_skip [OF lvl True]] by simp
  next
    case False
    have t: "t \<in> hop_set E s h'" using lvl by (auto simp: bfs_level_def)
    then have "t \<in> limited_set E mh s" using bfs_level_limited [OF lvl] by auto
    then have collect: "insert (s, t) reachable \<union> Pair s ` (limited_set E mh s - insert t visited) =
        reachable \<union> Pair s ` (limited_set E mh s - visited)" using False by auto
    show ?thesis
    proof (cases "goes_on mh h'")
      case go: True
      have "t \<in> set (dict_keys adj)" using search_context_nodes [OF Cons.prems(1,2)] t by blast
      then have adj: "dict_get adj t = Some (E `` {t})" and "finite (E `` {t} - insert t visited)"
        using Cons.prems(1) by (auto simp: search_context_def finite_Image)
      then have "set (order (E `` {t} - insert t visited)) = E `` {t} - insert t visited"
        using Cons.prems(1) unfolding search_context_def by blast
      from bfs_level_visit [OF lvl False this] go
      have "bfs_level E mh s h' A' (B' @ map (\<lambda>n. (n, Suc h')) (order (E `` {t} - insert t visited))) (insert t visited)"
        by simp
      with Cons.IH(2) [OF False refl refl _ adj Cons.prems(1,2) _ this] go False adj p k collect
      show ?thesis by (simp add: goes_on_def Let_def)
    next
      case stop: False
      from bfs_level_visit [OF lvl False] stop have "bfs_level E mh s h' A' B' (insert t visited)" by simp
      moreover obtain m where "mh = Some m" "\<not> int k < m" using stop k by (auto simp: goes_on_def)
      ultimately show ?thesis
        using Cons.IH(3) [OF False refl refl _ Cons.prems(1,2) p] False p collect by (simp add: Let_def)
    qed
  qed
qed

lemma search_all_result:
  assumes "search_context order adj E" and "set sources \<subseteq> set (dict_keys adj)"
  shows "search_all order adj mh sources reachable =
    Inr (reachable \<union> (\<Union>s \<in> set sources. Pair s ` (limited_set E mh s - {s})))"
  using assms(2)
proof (induction sources arbitrary: reachable)
  case (Cons s sources)
  then have s: "s \<in> set (dict_keys adj)" by simp
  have ts: "dict_get adj s = Some (E `` {s})" "set (order (E `` {s})) = E `` {s}"
    using assms(1) s by (auto simp: search_context_def finite_Image)
  from search_result [OF assms(1) s _ bfs_level_start [OF ts(2)]]
  have "search order adj mh s (map (\<lambda>t. (t, 1)) (order (E `` {s}))) {s} reachable =
      Inr (reachable \<union> Pair s ` (limited_set E mh s - {s}))" by simp
  then show ?case using Cons ts by (simp add: Un_assoc)
qed simp

lemma within_limit_le: "within_limit mh k \<Longrightarrow> j \<le> k \<Longrightarrow> within_limit mh j"
  by (auto simp: within_limit_def split: option.splits)

lemma limited_set_iff: "t \<in> limited_set E mh s \<longleftrightarrow> (\<exists>k. within_limit mh k \<and> (s, t) \<in> E ^^ k)"
  unfolding limited_set_def hop_set_def using within_limit_le [of mh] by blast

lemma connected_pairs_eq:
  assumes "E \<subseteq> N \<times> N"
  shows "(\<Union>s \<in> N. Pair s ` (limited_set E mh s - {s})) = connected_pairs E mh"
proof -
  have "s \<in> N" if "(s, t) \<in> E ^^ k" "s \<noteq> t" for s t k
    using that assms relpow_Suc_D2 [of s t _ E] by (cases k) (fastforce, blast)
  then show ?thesis by (fastforce simp: connected_pairs_def limited_set_iff)
qed

subsection \<open>The adjacency dictionary\<close>

lemma add_edges_result:
  "\<lbrakk>\<And>l. l \<in> set ls \<Longrightarrow> from_node l \<in> set (dict_keys adj)\<rbrakk> \<Longrightarrow>
   \<exists>adj'. add_edges ls adj = Inr adj' \<and> dict_keys adj' = dict_keys adj \<and>
     (\<forall>s. dict_get adj' s = map_option (\<lambda>ts. ts \<union> {to_node l |l. l \<in> set ls \<and> enabled l \<and> from_node l = s})
       (dict_get adj s))"
proof (induction ls adj rule: add_edges.induct)
  case (1 adj)
  then show ?case by (simp add: option.map_ident)
next
  case (2 l ls adj)
  show ?case
  proof (cases "enabled l")
    case False
    then have "{to_node k |k. k \<in> set (l # ls) \<and> enabled k \<and> from_node k = s} =
        {to_node k |k. k \<in> set ls \<and> enabled k \<and> from_node k = s}" for s by auto
    then show ?thesis using 2 False by simp
  next
    case True
    from 2(3) [of l] have "from_node l \<in> dom (map_of adj)" by (simp add: dom_map_of_conv_image_fst)
    then obtain ts where ts: "dict_get adj (from_node l) = Some ts" by blast
    let ?adj = "dict_set (from_node l) (insert (to_node l) ts) adj"
    have keys: "dict_keys ?adj = dict_keys adj" using 2(3) [of l] by (auto simp: dict_simps)
    from 2(2) [OF _ ts] True keys 2(3) obtain adj' where adj': "add_edges ls ?adj = Inr adj'"
      "dict_keys adj' = dict_keys adj"
      "\<forall>s. dict_get adj' s = map_option (\<lambda>ts. ts \<union> {to_node k |k. k \<in> set ls \<and> enabled k \<and> from_node k = s})
       (dict_get ?adj s)" by auto
    have "{to_node k |k. k \<in> set (l # ls) \<and> enabled k \<and> from_node k = s} =
        (if s = from_node l then {to_node l} else {}) \<union> {to_node k |k. k \<in> set ls \<and> enabled k \<and> from_node k = s}" for s
      using True by auto
    then show ?thesis using adj' ts True by (auto simp: dict_simps)
  qed
qed

lemma adjacency_context:
  assumes "graph_wf sc" and "\<And>S. finite S \<Longrightarrow> set (order S) = S"
  obtains adj where "adjacency sc = Inr adj" and "search_context order adj (link_edges sc)"
proof -
  let ?d = "dict_of (map (\<lambda>n. (sn_id n, {})) (sc_nodes sc)) []" and ?ids = "map sn_id (sc_nodes sc)"
  have d: "?d = map (\<lambda>n. (sn_id n, {})) (sc_nodes sc)"
    using assms(1) by (subst dict_of_fresh) (simp_all add: comp_def graph_wf_def)
  have ends: "from_node l \<in> set ?ids" "to_node l \<in> set ?ids" if "l \<in> set (sc_links sc)" for l
  proof -
    have "link_key l \<in> link_key ` set (sc_links sc)" using that by simp
    then show "from_node l \<in> set ?ids" "to_node l \<in> set ?ids"
      using assms(1) by (auto simp: graph_wf_def link_key_def)
  qed
  obtain adj where adj: "adjacency sc = Inr adj" "dict_keys adj = dict_keys ?d"
      "\<forall>s. dict_get adj s = map_option (\<lambda>ts. ts \<union> {to_node l |l. l \<in> set (sc_links sc) \<and> enabled l \<and> from_node l = s})
        (dict_get ?d s)"
    unfolding adjacency_def using add_edges_result [of "sc_links sc" ?d] ends(1) by (auto simp: d comp_def)
  have keys: "dict_keys adj = ?ids" using adj(2) by (simp add: d comp_def)
  have empty: "dict_get ?d s = (if s \<in> set ?ids then Some {} else None)" for s
    unfolding d by (rule dict_get_const)
  have edges: "{to_node l |l. l \<in> set (sc_links sc) \<and> enabled l \<and> from_node l = s} = link_edges sc `` {s}" for s
    by (auto simp: link_edges_def)
  have "dict_get adj s = Some (link_edges sc `` {s})" if "s \<in> set ?ids" for s
    using adj(3) [rule_format, of s] that unfolding empty edges by simp
  moreover have "link_edges sc \<subseteq> set ?ids \<times> set ?ids" using ends by (auto simp: link_edges_def)
  moreover have "finite (link_edges sc)" using \<open>link_edges sc \<subseteq> _\<close> by (rule finite_subset) simp
  ultimately have "search_context order adj (link_edges sc)"
    unfolding search_context_def keys using assms(2) by blast
  with adj(1) show thesis by (rule that)
qed

lemma reachable_graph:
  assumes "validate_graph sc = Inr sc" and "\<And>S. finite S \<Longrightarrow> set (order S) = S"
  shows "reachable_pairs order max_hops sc = Inr (connected_pairs (link_edges sc) max_hops)"
proof -
  from assms(1) have "graph_wf sc" by (simp add: validate_graph_Inr)
  from adjacency_context [OF this assms(2)] obtain adj
    where adj: "adjacency sc = Inr adj" "search_context order adj (link_edges sc)" .
  then have "link_edges sc \<subseteq> set (dict_keys adj) \<times> set (dict_keys adj)" by (simp add: search_context_def)
  then show ?thesis
    using search_all_result [OF adj(2) order.refl, of max_hops "{}"] connected_pairs_eq [of "link_edges sc" "set (dict_keys adj)"]
    by (simp add: reachable_pairs_def adj(1))
qed

text \<open>C37. For a valid scenario \<^verbatim>\<open>reachable_pairs\<close> never raises and returns exactly the
  ordered pairs of different nodes that a path of enabled links joins within the hop limit (one
  hop is always allowed), whatever the order in which Python iterates the sets.\<close>

theorem reachable_pairs_exact:
  assumes "validate_graph sc = Inr sc" and "\<And>S. finite S \<Longrightarrow> set (order S) = S"
  shows "reachable_pairs order max_hops sc = Inr (connected_pairs (link_edges sc) max_hops)"
  using assms by (rule reachable_graph)

subsection \<open>Topology presets\<close>

definition index_of :: "string list \<Rightarrow> string \<Rightarrow> nat" where
  "index_of ids s = the (map_of (zip ids [0 ..< length ids]) s)"

lemma index_of_nth [simp]: "distinct ids \<Longrightarrow> i < length ids \<Longrightarrow> index_of ids (ids ! i) = i"
  by (simp add: index_of_def map_of_zip_nth)

text \<open>The link between two nodes that a preset enables.\<close>

definition preset_link :: "topology_preset \<Rightarrow> string list \<Rightarrow> string \<times> string \<Rightarrow> bool" where
  "preset_link preset ids k =
     preset_enabled preset (hd ids) (index_of ids (fst k), fst k) (index_of ids (snd k), snd k)"

lemma dict_of_function:
  "(\<And>k v. (k, v) \<in> set kvs \<Longrightarrow> v = F k) \<Longrightarrow>
   dict_get (dict_of kvs []) k = (if k \<in> fst ` set kvs then Some (F k) else None)"
proof -
  assume F: "\<And>k v. (k, v) \<in> set kvs \<Longrightarrow> v = F k"
  show ?thesis
  proof (cases "map_of (rev kvs) k")
    case None
    then have "k \<notin> fst ` set kvs" by (simp add: map_of_eq_None_iff)
    then show ?thesis using None by (simp add: map_of_dict_of)
  next
    case (Some v)
    then have "(k, v) \<in> set kvs" using map_of_SomeD [OF Some] by simp
    then show ?thesis using F [of k v] Some by (force simp: map_of_dict_of)
  qed
qed

lemma keys_of_pairs:
  assumes "\<And>s t. f (mk s t) = (snd s, snd t)"
  shows "map f [mk s t. s \<leftarrow> es, t \<leftarrow> fs, snd s \<noteq> snd t] =
    filter (\<lambda>(s, t). s \<noteq> t) (List.product (map snd es) (map snd fs))"
proof -
  have "map f (concat (map (\<lambda>t. if snd e \<noteq> snd t then [mk e t] else []) fs)) =
      filter (\<lambda>(s, t). s \<noteq> t) (map (Pair (snd e)) (map snd fs))" for e
    using assms by (induction fs) auto
  then show ?thesis by (induction es) simp_all
qed

lemma generate_links_ok:
  assumes "ids \<noteq> []" and "distinct ids"
  obtains ls where "generate_links ids preset (- 85) 8 = Inr ls"
    and "\<And>l. l \<in> set ls \<Longrightarrow> enabled l = preset_link preset ids (link_key l)"
    and "link_key ` set ls = {(s, t). s \<in> set ids \<and> t \<in> set ids \<and> s \<noteq> t}"
    and "\<And>l. l \<in> set ls \<Longrightarrow> rssi_dbm l = - 85 \<and> snr_db l = 8"
    and "distinct (map link_key ls)"
proof -
  obtain hub xs where ids: "ids = hub # xs" using assms(1) by (cases ids) auto
  let ?mk = "\<lambda>s t. \<lparr>from_node = snd s, to_node = snd t, enabled = preset_enabled preset hub s t,
      rssi_dbm = - 85, snr_db = (8 :: rat)\<rparr>"
  define ls where "ls = [?mk s t. s \<leftarrow> enumerate 0 ids, t \<leftarrow> enumerate 0 ids, snd s \<noteq> snd t]"
  have "traverse_result check_link ls = Inr (map (\<lambda>l. l) ls)"
    by (rule traverse_result_Inr) (auto simp: ls_def check_link_def in_range_def split: if_splits)
  then have 1: "generate_links ids preset (- 85) 8 = Inr ls"
    by (simp only: generate_links_def ls_def ids list.case map_ident)
  have enum: "set (enumerate 0 ids) = (\<lambda>i. (i, ids ! i)) ` {..<length ids}"
    by (auto simp: in_set_enumerate_eq)
  have "l \<in> set ls \<longleftrightarrow> (\<exists>e \<in> set (enumerate 0 ids). \<exists>f \<in> set (enumerate 0 ids). snd e \<noteq> snd f \<and> l = ?mk e f)" for l
    by (auto simp: ls_def split: if_splits)
  then have mem: "l \<in> set ls \<longleftrightarrow> (\<exists>i < length ids. \<exists>j < length ids. ids ! i \<noteq> ids ! j \<and> l = ?mk (i, ids ! i) (j, ids ! j))" for l
    by (auto simp: enum)
  have 2: "enabled l = preset_link preset ids (link_key l)" if "l \<in> set ls" for l
    using that assms(2) by (auto simp: mem preset_link_def link_key_def) (simp_all add: ids)
  have keys: "map link_key ls = filter (\<lambda>(s, t). s \<noteq> t) (List.product ids ids)"
    unfolding ls_def by (simp add: keys_of_pairs link_key_def)
  have "link_key ` set ls = set (filter (\<lambda>(s, t). s \<noteq> t) (List.product ids ids))"
    by (simp only: set_map [symmetric] keys)
  then have 3: "link_key ` set ls = {(s, t). s \<in> set ids \<and> t \<in> set ids \<and> s \<noteq> t}" by auto
  have 5: "distinct (map link_key ls)" unfolding keys using assms(2) by (simp add: distinct_product)
  show thesis by (rule that [OF 1 2 3 _ 5]) (auto simp: mem)
qed

lemma apply_preset_ok:
  assumes "graph_wf sc" and "sc_nodes sc \<noteq> []"
  shows "apply_topology_preset sc preset =
    Inr (sc\<lparr>sc_links := map (\<lambda>l. l\<lparr>enabled := preset_link preset (map sn_id (sc_nodes sc)) (link_key l)\<rparr>)
      (sc_links sc)\<rparr>)"
proof -
  let ?ids = "map sn_id (sc_nodes sc)"
  have ids: "?ids \<noteq> []" "distinct ?ids" using assms by (auto simp: graph_wf_def)
  obtain ls where ls: "generate_links ?ids preset (- 85) 8 = Inr ls"
    "\<And>l. l \<in> set ls \<Longrightarrow> enabled l = preset_link preset ?ids (link_key l)"
    "link_key ` set ls = {(s, t). s \<in> set ?ids \<and> t \<in> set ?ids \<and> s \<noteq> t}"
    "\<And>l. l \<in> set ls \<Longrightarrow> rssi_dbm l = - 85 \<and> snr_db l = 8" "distinct (map link_key ls)"
    by (rule generate_links_ok [where preset = preset, OF ids]) (rule that)
  let ?d = "dict_of (map (\<lambda>l. ((from_node l, to_node l), enabled l)) ls) []"
  have fst: "fst ` set (map (\<lambda>l. ((from_node l, to_node l), enabled l)) ls) = link_key ` set ls"
    by (simp add: image_image link_key_def)
  have look: "dict_get ?d k = (if k \<in> link_key ` set ls then Some (preset_link preset ?ids k) else None)" for k
    unfolding fst [symmetric] using ls(2) by (intro dict_of_function) (auto simp: link_key_def)
  have "dict_get ?d (from_node l, to_node l) = Some (preset_link preset ?ids (link_key l))" if "l \<in> set (sc_links sc)" for l
  proof -
    have "link_key l \<in> link_key ` set ls"
      using that assms(1) unfolding ls(3) graph_wf_def by (metis imageI set_map)
    then show ?thesis using look [of "link_key l"] by (simp add: link_key_def)
  qed
  then have "traverse_result (\<lambda>l. case dict_get ?d (from_node l, to_node l) of
              None \<Rightarrow> Inl (KeyError (arrow (from_node l, to_node l)))
            | Some e \<Rightarrow> Inr (l\<lparr>enabled := e\<rparr>)) (sc_links sc) =
      Inr (map (\<lambda>l. l\<lparr>enabled := preset_link preset ?ids (link_key l)\<rparr>) (sc_links sc))"
    by (intro traverse_result_Inr) simp
  then show ?thesis by (simp add: apply_topology_preset_def ls(1) Let_def)
qed

lemma link_key_enabled [simp]: "link_key (l\<lparr>enabled := e\<rparr>) = link_key l"
  by (simp add: link_key_def)

lemma apply_preset_wf:
  "graph_wf sc \<Longrightarrow> graph_wf (sc\<lparr>sc_links := map (\<lambda>l. l\<lparr>enabled := f l\<rparr>) (sc_links sc)\<rparr>)"
  by (simp add: graph_wf_def comp_def image_image)

text \<open>Who reaches whom in a preset, by node position.\<close>

definition preset_reaches :: "topology_preset \<Rightarrow> int \<Rightarrow> nat \<Rightarrow> nat \<Rightarrow> bool" where
  "preset_reaches preset h i j =
     (case preset of
        FULL_MESH \<Rightarrow> True
      | LINE \<Rightarrow> \<bar>int i - int j\<bar> \<le> max 1 h
      | STAR \<Rightarrow> i = 0 \<or> j = 0 \<or> 2 \<le> h
      | ALL_ISOLATED \<Rightarrow> False)"

definition preset_edge :: "topology_preset \<Rightarrow> nat \<Rightarrow> nat \<Rightarrow> bool" where
  "preset_edge preset i j =
     (case preset of
        FULL_MESH \<Rightarrow> True | LINE \<Rightarrow> \<bar>int i - int j\<bar> = 1 | STAR \<Rightarrow> i = 0 \<or> j = 0 | ALL_ISOLATED \<Rightarrow> False)"

lemma preset_edges:
  assumes "graph_wf sc" and "ids = map sn_id (sc_nodes sc)"
  shows "link_edges (sc\<lparr>sc_links := map (\<lambda>l. l\<lparr>enabled := preset_link preset ids (link_key l)\<rparr>) (sc_links sc)\<rparr>) =
    {(ids ! i, ids ! j) |i j. i < length ids \<and> j < length ids \<and> i \<noteq> j \<and> preset_edge preset i j}"
proof -
  have d: "distinct ids" and keys: "link_key ` set (sc_links sc) = {(s, t). s \<in> set ids \<and> t \<in> set ids \<and> s \<noteq> t}"
    using assms by (auto simp: graph_wf_def)
  have "link_edges (sc\<lparr>sc_links := map (\<lambda>l. l\<lparr>enabled := preset_link preset ids (link_key l)\<rparr>) (sc_links sc)\<rparr>) =
      {k \<in> link_key ` set (sc_links sc). preset_link preset ids k}"
    by (auto simp: link_edges_def link_key_def)
  also have "\<dots> = {(ids ! i, ids ! j) |i j. i < length ids \<and> j < length ids \<and> i \<noteq> j \<and> preset_link preset ids (ids ! i, ids ! j)}"
    unfolding keys using d by (auto simp: in_set_conv_nth nth_eq_iff_index_eq) 
  also have "\<dots> = {(ids ! i, ids ! j) |i j. i < length ids \<and> j < length ids \<and> i \<noteq> j \<and> preset_edge preset i j}"
  proof -
    have "preset_link preset ids (ids ! i, ids ! j) = preset_edge preset i j" if "i < length ids" "j < length ids" for i j
    proof -
      have "hd ids = ids ! 0" "0 < length ids" using that by (cases ids, auto)+
      then show ?thesis
        using that d by (simp add: preset_link_def preset_edge_def preset_enabled_def nth_eq_iff_index_eq
            split: topology_preset.split)
    qed
    then show ?thesis by blast
  qed
  finally show ?thesis .
qed

lemma line_paths:
  fixes ids :: "'a list"
  defines "E \<equiv> {(ids ! i, ids ! j) |i j. i < length ids \<and> j < length ids \<and> i \<noteq> j \<and> preset_edge LINE i j}"
  assumes "distinct ids" and "i < length ids"
  shows "(ids ! i, t) \<in> E ^^ k \<Longrightarrow> \<exists>j < length ids. t = ids ! j \<and> \<bar>int i - int j\<bar> \<le> int k"
    and "j < length ids \<Longrightarrow> \<bar>int i - int j\<bar> = int k \<Longrightarrow> (ids ! i, ids ! j) \<in> E ^^ k"
proof -
  show "\<exists>j < length ids. t = ids ! j \<and> \<bar>int i - int j\<bar> \<le> int k" if "(ids ! i, t) \<in> E ^^ k"
    using that
  proof (induction k arbitrary: t)
    case 0
    then show ?case using assms(3) by auto
  next
    case (Suc k)
    from Suc.prems obtain u where "(ids ! i, u) \<in> E ^^ k" and e: "(u, t) \<in> E" by (auto elim: relpow_Suc_E)
    from Suc.IH [OF this(1)] obtain j where j: "j < length ids" "u = ids ! j" "\<bar>int i - int j\<bar> \<le> int k" by blast
    from e obtain a b where ab: "u = ids ! a" "t = ids ! b" "a < length ids" "b < length ids" "\<bar>int a - int b\<bar> = 1"
      by (auto simp: E_def preset_edge_def)
    then have "a = j" using j assms(2) by (simp add: nth_eq_iff_index_eq)
    then show ?case using ab j(3) by (intro exI [of _ b]) auto
  qed
  show "(ids ! i, ids ! j) \<in> E ^^ k" if "j < length ids" "\<bar>int i - int j\<bar> = int k"
    using that
  proof (induction k arbitrary: j)
    case 0
    then show ?case by auto
  next
    case (Suc k)
    define m where "m = (if j < i then j + 1 else j - 1)"
    have m: "m < length ids" "\<bar>int i - int m\<bar> = int k" "\<bar>int m - int j\<bar> = 1" "m \<noteq> j"
      using Suc.prems assms(3) by (auto simp: m_def of_nat_diff split: if_splits)
    then have "(ids ! m, ids ! j) \<in> E" using Suc.prems by (auto simp: E_def preset_edge_def)
    then show ?case using Suc.IH [OF m(1,2)] by (rule relpow_Suc_I [rotated])
  qed
qed

lemma preset_connected:
  fixes ids :: "string list"
  defines "E \<equiv> \<lambda>preset. {(ids ! i, ids ! j) |i j. i < length ids \<and> j < length ids \<and> i \<noteq> j \<and> preset_edge preset i j}"
  assumes d: "distinct ids"
  shows "connected_pairs (E preset) (Some h) =
    {(ids ! i, ids ! j) |i j. i < length ids \<and> j < length ids \<and> i \<noteq> j \<and> preset_reaches preset h i j}"
    (is "?L = ?R preset")
proof -
  have direct: "(s, t) \<in> connected_pairs (E preset) (Some h)" if "(s, t) \<in> E preset" for s t preset
  proof -
    have "s \<noteq> t" using that d by (auto simp: E_def nth_eq_iff_index_eq)
    then show ?thesis using that by (auto simp: connected_pairs_def within_limit_def intro!: exI [of _ 1])
  qed
  have ends: "(s, t) \<in> ?R FULL_MESH" if "(s, t) \<in> connected_pairs (E preset) (Some h)" for s t preset
  proof -
    from that obtain k where k: "s \<noteq> t" "(s, t) \<in> E preset ^^ k" by (auto simp: connected_pairs_def)
    then obtain k' where "k = Suc k'" by (cases k) auto
    then have "s \<in> set ids" "t \<in> set ids"
      using relpow_Suc_D2 [of s t k' "E preset"] k(2) by (auto simp: E_def elim!: relpow_Suc_E) 
    then show ?thesis using k(1) by (auto simp: in_set_conv_nth preset_reaches_def)
  qed
  show ?thesis
  proof (cases preset)
    case FULL_MESH
    show ?thesis unfolding FULL_MESH
    proof (intro equalityI subrelI)
      fix s t assume "(s, t) \<in> connected_pairs (E FULL_MESH) (Some h)"
      then show "(s, t) \<in> ?R FULL_MESH" by (rule ends)
    next
      fix s t assume "(s, t) \<in> ?R FULL_MESH"
      then have "(s, t) \<in> E FULL_MESH" by (simp add: E_def preset_edge_def preset_reaches_def)
      then show "(s, t) \<in> connected_pairs (E FULL_MESH) (Some h)" by (rule direct)
    qed
  next
    case ALL_ISOLATED
    have "E ALL_ISOLATED = {}" by (auto simp: E_def preset_edge_def)
    then have "s = t" if "(s, t) \<in> E ALL_ISOLATED ^^ k" for s t k
      using that by (cases k) (auto elim: relpow_Suc_E)
    then show ?thesis by (auto simp: ALL_ISOLATED preset_reaches_def connected_pairs_def)
  next
    case LINE
    show ?thesis unfolding LINE
    proof (intro equalityI subsetI)
      fix p assume p: "p \<in> connected_pairs (E LINE) (Some h)"
      obtain s t where st: "p = (s, t)" by (cases p)
      from ends [of s t LINE] p obtain i j where ij: "s = ids ! i" "t = ids ! j" "i < length ids" "j < length ids" "i \<noteq> j"
        by (auto simp: st)
      from p obtain k where k: "int k \<le> max 1 h" "(ids ! i, ids ! j) \<in> E LINE ^^ k"
        by (auto simp: st ij connected_pairs_def within_limit_def)
      from line_paths(1) [OF d ij(3)] k(2) obtain j' where "j' < length ids" "ids ! j = ids ! j'" "\<bar>int i - int j'\<bar> \<le> int k"
        unfolding E_def by blast
      then have "\<bar>int i - int j\<bar> \<le> max 1 h" using d ij k(1) by (auto simp: nth_eq_iff_index_eq)
      then show "p \<in> ?R LINE" using ij st by (auto simp: preset_reaches_def)
    next
      fix p assume "p \<in> ?R LINE"
      then obtain i j where ij: "p = (ids ! i, ids ! j)" "i < length ids" "j < length ids" "i \<noteq> j"
        "\<bar>int i - int j\<bar> \<le> max 1 h" by (auto simp: preset_reaches_def)
      have "(ids ! i, ids ! j) \<in> E LINE ^^ nat \<bar>int i - int j\<bar>"
        using line_paths(2) [OF d ij(2,3), of "nat \<bar>int i - int j\<bar>"] unfolding E_def by simp
      then show "p \<in> connected_pairs (E LINE) (Some h)"
        using ij d by (auto simp: connected_pairs_def within_limit_def nth_eq_iff_index_eq
            intro!: exI [of _ "nat \<bar>int i - int j\<bar>"])
    qed
  next
    case STAR
    show ?thesis unfolding STAR
    proof (intro equalityI subsetI)
      fix p assume p: "p \<in> connected_pairs (E STAR) (Some h)"
      obtain s t where st: "p = (s, t)" by (cases p)
      from ends [of s t STAR] p obtain i j where ij: "s = ids ! i" "t = ids ! j" "i < length ids" "j < length ids" "i \<noteq> j"
        by (auto simp: st)
      from p obtain k where k: "int k \<le> max 1 h" "(ids ! i, ids ! j) \<in> E STAR ^^ k" "ids ! i \<noteq> ids ! j"
        by (auto simp: st ij connected_pairs_def within_limit_def)
      have "i = 0 \<or> j = 0" if "k \<le> 1"
      proof -
        have "k = 1" using that k by (cases k) auto
        then have "(ids ! i, ids ! j) \<in> E STAR" using k(2) by simp
        then obtain a b where "ids ! i = ids ! a" "ids ! j = ids ! b" "a < length ids" "b < length ids" "a = 0 \<or> b = 0"
          by (auto simp: E_def preset_edge_def)
        then show ?thesis using d ij by (auto simp: nth_eq_iff_index_eq)
      qed
      then show "p \<in> ?R STAR" using k(1) ij st by (fastforce simp: preset_reaches_def)
    next
      fix p assume "p \<in> ?R STAR"
      then obtain i j where ij: "p = (ids ! i, ids ! j)" "i < length ids" "j < length ids" "i \<noteq> j"
        "i = 0 \<or> j = 0 \<or> 2 \<le> h" by (auto simp: preset_reaches_def)
      show "p \<in> connected_pairs (E STAR) (Some h)"
      proof (cases "i = 0 \<or> j = 0")
        case True
        then have "p \<in> E STAR" using ij by (auto simp: E_def preset_edge_def)
        then show ?thesis using direct [of _ _ STAR] by (cases p) simp
      next
        case False
        then have "(ids ! i, ids ! 0) \<in> E STAR" "(ids ! 0, ids ! j) \<in> E STAR"
          using ij unfolding E_def preset_edge_def by fastforce+
        then have "(ids ! i, ids ! j) \<in> E STAR ^^ 2" by (auto simp: numeral_2_eq_2)
        then show ?thesis
          using ij d False by (auto simp: connected_pairs_def within_limit_def nth_eq_iff_index_eq intro!: exI [of _ 2])
      qed
    qed
  qed
qed

text \<open>Applying a topology preset to a valid scenario cannot fail: it keeps the scenario
  valid and changes nothing but the \<open>enabled\<close> flags of its links, and the reachable pairs within
  \<open>h\<close> hops become those of the preset: everybody in a full mesh, nodes at most \<open>h\<close> positions
  apart on a line, everybody through the hub of a star when two hops are allowed (only pairs with
  the hub otherwise), nobody when all are isolated.\<close>

theorem preset_reachability:
  assumes "validate_graph sc = Inr sc" and "sc_nodes sc \<noteq> []"
    and "\<And>S. finite S \<Longrightarrow> set (order S) = S"
  defines "ids \<equiv> map sn_id (sc_nodes sc)"
  shows "\<exists>links. apply_topology_preset sc preset = Inr (sc\<lparr>sc_links := links\<rparr>) \<and>
    map (\<lambda>l. (link_key l, rssi_dbm l, snr_db l)) links =
      map (\<lambda>l. (link_key l, rssi_dbm l, snr_db l)) (sc_links sc) \<and>
    isOk (validate_graph (sc\<lparr>sc_links := links\<rparr>)) \<and>
    reachable_pairs order (Some h) (sc\<lparr>sc_links := links\<rparr>) =
      Inr {(ids ! i, ids ! j) |i j. i < length ids \<and> j < length ids \<and> i \<noteq> j \<and> preset_reaches preset h i j}"
proof -
  let ?links = "map (\<lambda>l. l\<lparr>enabled := preset_link preset ids (link_key l)\<rparr>) (sc_links sc)"
  let ?sc = "sc\<lparr>sc_links := ?links\<rparr>"
  have wf: "graph_wf sc" using assms(1) by (simp add: validate_graph_Inr)
  then have ok: "validate_graph ?sc = Inr ?sc"
    by (simp add: validate_graph_Inr apply_preset_wf)
  have "distinct ids" using wf by (simp add: graph_wf_def ids_def)
  then have "reachable_pairs order (Some h) ?sc =
      Inr {(ids ! i, ids ! j) |i j. i < length ids \<and> j < length ids \<and> i \<noteq> j \<and> preset_reaches preset h i j}"
    using reachable_graph [OF ok assms(3), of "Some h"] preset_edges [OF wf, of ids preset] preset_connected [of ids preset h]
    by (simp add: ids_def)
  then show ?thesis
    using apply_preset_ok [OF wf assms(2), of preset] ok
    by (intro exI [of _ ?links]) (simp add: ids_def comp_def)
qed

subsection \<open>The default scenario\<close>

definition default_node :: "nat \<Rightarrow> scenario_node" where
  "default_node index = \<lparr>sn_id = ''node-'' @ show_nat index, sn_display_name = ''Node '' @ show_nat index,
     sn_role = CLIENT, sn_api_port = PUBLIC_PORT_MIN + int index - 1\<rparr>"

lemma check_default_node: "1 \<le> i \<Longrightarrow> i \<le> 10 \<Longrightarrow> check_node (default_node i) = Inr (default_node i)"
proof -
  assume i: "1 \<le> i" "i \<le> 10"
  then have len: "length (show_nat i) \<le> 2" by (intro length_show_nat) simp_all
  have "codes (show_nat i) = show_nat_codes i" by (simp add: codes_show_nat)
  then have "codes (''node-'' @ show_nat i) = 110 # [111, 100, 101, 45] @ show_nat_codes i"
    by (simp add: codes_append) (simp add: codes_def)
  moreover have "length (show_nat_codes i) = length (show_nat i)" by (simp add: show_nat_def)
  moreover have "\<forall>c \<in> set (show_nat_codes i). id_char c"
    using show_nat_codes_digits [of i] by (simp add: id_char_def)
  ultimately have "node_id_ok (''node-'' @ show_nat i)"
    using len by (simp add: node_id_ok_def list_all_iff) (simp add: id_char_def)
  then show ?thesis
    using i len by (simp add: check_node_def default_node_def in_range_def PUBLIC_PORT_MIN_def PUBLIC_PORT_MAX_def)
qed

lemma default_nodes_ok:
  assumes "in_range 2 10 n"
  shows "default_nodes n = Inr (map default_node [1 ..< nat n + 1])"
proof -
  have "traverse_result (\<lambda>index. check_node (default_node index)) [1 ..< nat n + 1] =
      Inr (map default_node [1 ..< nat n + 1])"
    using assms by (intro traverse_result_Inr check_default_node) (auto simp: in_range_def)
  then show ?thesis using assms by (simp add: default_nodes_def default_node_def)
qed

lemma distinct_map_inj: "inj f \<Longrightarrow> distinct xs \<Longrightarrow> distinct (map f xs)"
  by (metis distinct_map inj_on_subset subset_UNIV)

text \<open>\<^verbatim>\<open>default_scenario\<close> builds a valid scenario for exactly two to ten nodes and raises
  for every other count. What it builds is a full mesh: the requested number of nodes named
  \<^verbatim>\<open>node-1\<close> onwards on consecutive public ports, every link enabled.\<close>

theorem default_scenario_valid:
  assumes "known ''US''"
  shows "case default_scenario known n of
      Inl _ \<Rightarrow> n < 2 \<or> 10 < n
    | Inr sc \<Rightarrow> 2 \<le> n \<and> n \<le> 10 \<and> validate_graph sc = Inr sc \<and>
        sc_nodes sc = map default_node [1 ..< nat n + 1] \<and> list_all enabled (sc_links sc)"
proof (cases "in_range 2 10 n")
  case False
  then show ?thesis by (auto simp: default_scenario_def default_nodes_def in_range_def)
next
  case True
  let ?nodes = "map default_node [1 ..< nat n + 1]"
  have ids: "map sn_id ?nodes = map (\<lambda>i. ''node-'' @ show_nat i) [1 ..< nat n + 1]"
    by (simp add: default_node_def)
  have "distinct (map sn_id ?nodes)"
    unfolding ids by (rule distinct_map_inj) (auto simp: inj_def show_nat_inj)
  have "map sn_id ?nodes \<noteq> []" using True by (auto simp: in_range_def)
  note ids_ok = this \<open>distinct (map sn_id ?nodes)\<close>
  obtain ls where ls: "generate_links (map sn_id ?nodes) FULL_MESH (- 85) 8 = Inr ls"
    "\<And>l. l \<in> set ls \<Longrightarrow> enabled l = preset_link FULL_MESH (map sn_id ?nodes) (link_key l)"
    "link_key ` set ls = {(s, t). s \<in> set (map sn_id ?nodes) \<and> t \<in> set (map sn_id ?nodes) \<and> s \<noteq> t}"
    "\<And>l. l \<in> set ls \<Longrightarrow> rssi_dbm l = - 85 \<and> snr_db l = 8" "distinct (map link_key ls)"
    by (rule generate_links_ok [where preset = FULL_MESH, OF ids_ok]) (rule that)
  let ?sc = "\<lparr>sc_name = (if n = 5 then ''five-node-full-mesh'' else show_int n @ ''-node-full-mesh''),
      sc_seed = 1, sc_node_count = n, sc_rf = default_rf, sc_channel = default_channel,
      sc_nodes = ?nodes, sc_links = ls, sc_fresh_state = True\<rparr>"
  have "distinct (map sn_api_port ?nodes)"
    unfolding map_map by (rule distinct_map_inj) (auto simp: inj_def default_node_def)
  then have wf: "graph_wf ?sc"
    using True \<open>distinct (map sn_id ?nodes)\<close> ls(3,5) by (simp add: graph_wf_def in_range_def del: upt_Suc map_map)
  have "isOk (check_rf known default_rf)"
    using assms by (simp add: check_rf_def default_rf_def validate_region_def in_range_def SUPPORTED_MODEM_PRESETS_def)
  moreover have "isOk (check_channel default_channel)"
    by (simp add: check_channel_def default_channel_def in_range_def b64decode_def codes_def base64_value_def)
  moreover have "\<forall>m \<in> set ?nodes. isOk (check_node m)"
    using True by (auto simp: check_default_node in_range_def simp del: upt_Suc)
  moreover have "\<forall>l \<in> set ls. isOk (check_link l)"
    using ls(4) by (auto simp: check_link_def in_range_def)
  moreover have "in_range 1 80 (int (length (sc_name ?sc)))"
  proof -
    have "length (show_nat (nat n)) \<le> 2" using True by (intro length_show_nat) (auto simp: in_range_def)
    then show ?thesis using True by (auto simp: in_range_def show_int_def)
  qed
  ultimately have "check_scenario known ?sc = Inr ?sc"
    using wf True by (simp add: check_scenario_Inr del: upt_Suc)
  then have "default_scenario known n = Inr ?sc"
    unfolding default_scenario_def default_nodes_ok [OF True] bind_result_simps ls(1) .
  moreover have "list_all enabled ls"
    using ls(2) by (auto simp: list_all_iff preset_link_def preset_enabled_def)
  ultimately show ?thesis
    using wf True by (simp add: validate_graph_Inr in_range_def del: upt_Suc)
qed

lemma default_scenario_valid_witness:
  "case default_scenario (\<lambda>r. r = ''US'') 3 of
      Inl _ \<Rightarrow> False
    | Inr sc \<Rightarrow> validate_graph sc = Inr sc \<and> length (sc_nodes sc) = 3 \<and> list_all enabled (sc_links sc)"
  using default_scenario_valid [of "\<lambda>r. r = ''US''" 3] by (auto split: sum.splits)

lemma reachable_pairs_exact_witness:
  "reachable_pairs sorted_list_of_set (Some 2) relay_scenario =
     Inr (connected_pairs (link_edges relay_scenario) (Some 2)) \<and>
   (''a'', ''c'') \<in> connected_pairs (link_edges relay_scenario) (Some 2)"
proof
  show "reachable_pairs sorted_list_of_set (Some 2) relay_scenario =
     Inr (connected_pairs (link_edges relay_scenario) (Some 2))"
    by (rule reachable_pairs_exact [OF relay_valid]) simp
  have "(''a'', ''b'') \<in> link_edges relay_scenario" "(''b'', ''c'') \<in> link_edges relay_scenario"
    by (auto simp: link_edges_def relay_scenario_def)
  then have "(''a'', ''c'') \<in> link_edges relay_scenario ^^ 2" by (auto simp: numeral_2_eq_2)
  then show "(''a'', ''c'') \<in> connected_pairs (link_edges relay_scenario) (Some 2)"
    by (auto simp: connected_pairs_def within_limit_def intro!: exI [of _ 2])
qed

lemma preset_reachability_witness:
  "\<exists>links. apply_topology_preset relay_scenario LINE = Inr (relay_scenario\<lparr>sc_links := links\<rparr>) \<and>
    (\<exists>R. reachable_pairs sorted_list_of_set (Some 1) (relay_scenario\<lparr>sc_links := links\<rparr>) = Inr R \<and>
      (''b'', ''a'') \<in> R \<and> (''a'', ''c'') \<notin> R)"
proof -
  have ids: "map sn_id (sc_nodes relay_scenario) = [''a'', ''b'', ''c'']" by (simp add: relay_scenario_def)
  let ?R = "{([''a'', ''b'', ''c''] ! i, [''a'', ''b'', ''c''] ! j) |i j.
    i < length [''a'', ''b'', ''c''] \<and> j < length [''a'', ''b'', ''c''] \<and> i \<noteq> j \<and> preset_reaches LINE 1 i j}"
  have "sc_nodes relay_scenario \<noteq> []" by (simp add: relay_scenario_def)
  from preset_reachability [OF relay_valid this, of sorted_list_of_set LINE 1] obtain links
    where "apply_topology_preset relay_scenario LINE = Inr (relay_scenario\<lparr>sc_links := links\<rparr>)"
      "reachable_pairs sorted_list_of_set (Some 1) (relay_scenario\<lparr>sc_links := links\<rparr>) = Inr ?R"
    unfolding ids by auto
  moreover have "(''b'', ''a'') \<in> ?R"
    by (intro CollectI exI [of _ 1] exI [of _ 0]) (simp add: preset_reaches_def)
  moreover have "(''a'', ''c'') \<notin> ?R"
    by (auto simp: preset_reaches_def less_Suc_eq nth_Cons' split: if_splits)
  ultimately show ?thesis by blast
qed

text \<open>A channel that passed validation always yields its key: \<^verbatim>\<open>key_bytes\<close> succeeds on it
  and returns 1, 16 or 32 bytes.\<close>

theorem channel_key_available:
  "isOk (check_channel c) \<longleftrightarrow> 1 \<le> length (ch_name c) \<and> length (ch_name c) \<le> 12 \<and>
     (case key_bytes c of Inl _ \<Rightarrow> False | Inr k \<Rightarrow> length k \<in> {1, 16, 32})"
  by (auto simp: check_channel_def key_bytes_def in_range_def split: option.splits)

end
