(* ===== verification/Provenance.thy ===== *)
theory Provenance
  imports Py_Text
begin

text \<open>
  The build metadata of \<^verbatim>\<open>src/backend/app/provenance.py\<close>. Reading and parsing the metadata
  file is outside the repository's code: \<open>load_build_metadata\<close> takes what the file system and
  the JSON validation return.
\<close>

record build_metadata =
  bm_firmware_commit :: string
  bm_collision_patch_sha256 :: string
  bm_firmware_binary_sha256 :: string
  bm_build_architecture :: string
  bm_client_library_version :: string
  bm_upstream_base_image_digest :: string
  bm_meshtasticator_commit :: string

definition unavailable_metadata :: build_metadata where
  "unavailable_metadata = \<lparr>bm_firmware_commit = ''unavailable'',
     bm_collision_patch_sha256 = ''unavailable'', bm_firmware_binary_sha256 = ''unavailable'',
     bm_build_architecture = ''unavailable'', bm_client_library_version = ''unavailable'',
     bm_upstream_base_image_digest = ''unavailable'', bm_meshtasticator_commit = ''unavailable''\<rparr>"

text \<open>\<^verbatim>\<open>str.strip()\<close> on characters below 256.\<close>

definition text_space :: "char \<Rightarrow> bool" where
  "text_space c = (let n = of_char c :: nat in
     (9 \<le> n \<and> n \<le> 13) \<or> (28 \<le> n \<and> n \<le> 32) \<or> n = 133 \<or> n = 160)"

definition strip_text :: "string \<Rightarrow> string" where
  "strip_text s = rev (dropWhile text_space (rev (dropWhile text_space s)))"

definition metadata_available :: "build_metadata \<Rightarrow> bool" where
  "metadata_available m =
     list_all (\<lambda>v. strip_text v \<notin> {'''', ''unavailable''})
       [bm_firmware_commit m, bm_collision_patch_sha256 m, bm_firmware_binary_sha256 m,
        bm_build_architecture m, bm_client_library_version m, bm_upstream_base_image_digest m,
        bm_meshtasticator_commit m]"

definition load_build_metadata :: "build_metadata result option \<Rightarrow> bool \<Rightarrow> string \<Rightarrow> build_metadata result" where
  "load_build_metadata file allow_missing path =
     (case file of
        None \<Rightarrow> if allow_missing then Inr unavailable_metadata else Inl (FileNotFoundError path)
      | Some parsed \<Rightarrow> parsed)"

lemma unavailable_not_available: "\<not> metadata_available unavailable_metadata"
  by (simp add: metadata_available_def unavailable_metadata_def strip_text_def text_space_def Let_def)

end
