(* ===== verification/Gateway.thy ===== *)
theory Gateway
  imports Framing Mesh_Packets
begin

text \<open>
  The gateway of one node, \<^verbatim>\<open>src/backend/app/gateway/node_gateway.py\<close>. The state has the
  three bounded queues, the connections as flags, and the pending configuration requests. What the
  gateway does to its surroundings (calls of the two handlers, bytes written to the daemon and to
  the client, closed connections, finished requests) is recorded in order in \<open>gw_out\<close>. A definition
  is a stretch of code between two suspension points, or a sequence of them during which no other
  coroutine of the gateway can act. What the operating system decides (a bound port, a connection
  that opens or breaks) is an argument.
\<close>

subsection \<open>Data\<close>

datatype gateway_state = GW_STOPPED | GW_CONNECTING | GW_RUNNING | GW_FAILED | GW_STOPPING

definition gateway_state_text :: "gateway_state \<Rightarrow> string" where
  "gateway_state_text s =
     (case s of GW_STOPPED \<Rightarrow> ''STOPPED'' | GW_CONNECTING \<Rightarrow> ''CONNECTING'' | GW_RUNNING \<Rightarrow> ''RUNNING''
      | GW_FAILED \<Rightarrow> ''FAILED'' | GW_STOPPING \<Rightarrow> ''STOPPING'')"

record downstream_write =
  w_raw :: bytes
  w_source :: string

datatype gateway_output =
    Emitted string string "frame option"
  | To_handler from_radio
  | To_daemon bytes
  | To_client bytes
  | Client_closed
  | Waiter_ready int
  | Waiter_failed int string

record gateway =
  gw_node_id :: string
  gw_public_port :: int
  gw_control_port :: int
  gw_public_clients_enabled :: bool
  gw_has_event_handler :: bool
  gw_has_from_radio_handler :: bool
  gw_queue_size :: nat
  gw_state :: gateway_state
  gw_external_connected :: bool
  gw_failed :: bool
  gw_client_disconnected :: bool
  gw_rejected_clients :: int
  gw_dropped_external_frames :: int
  gw_rf_frames :: "mesh_packet list"
  gw_downstream_writes :: "downstream_write list"
  gw_external_writes :: "bytes list"
  gw_downstream :: bool
  gw_tasks :: bool
  gw_client :: "nat option"
  gw_server :: bool
  gw_control_server :: bool
  gw_reserved :: bool
  gw_config_waiters :: "(int, bool) dict"
  gw_out :: "gateway_output list"

definition new_gateway :: "string \<Rightarrow> int \<Rightarrow> bool \<Rightarrow> bool \<Rightarrow> bool \<Rightarrow> nat \<Rightarrow> gateway" where
  "new_gateway node_id public_port public_clients_enabled event_handler from_radio_handler queue_size =
     \<lparr>gw_node_id = node_id, gw_public_port = public_port, gw_control_port = 0,
      gw_public_clients_enabled = public_clients_enabled, gw_has_event_handler = event_handler,
      gw_has_from_radio_handler = from_radio_handler, gw_queue_size = queue_size, gw_state = GW_STOPPED,
      gw_external_connected = False, gw_failed = False, gw_client_disconnected = True,
      gw_rejected_clients = 0, gw_dropped_external_frames = 0, gw_rf_frames = [],
      gw_downstream_writes = [], gw_external_writes = [], gw_downstream = False, gw_tasks = False,
      gw_client = None, gw_server = False, gw_control_server = False, gw_reserved = False,
      gw_config_waiters = [], gw_out = []\<rparr>"

definition put_out :: "gateway_output list \<Rightarrow> gateway \<Rightarrow> gateway" where
  "put_out os g = g\<lparr>gw_out := gw_out g @ os\<rparr>"

definition emit :: "string \<Rightarrow> string \<Rightarrow> frame option \<Rightarrow> gateway \<Rightarrow> gateway" where
  "emit kind detail fr g = (if gw_has_event_handler g then put_out [Emitted kind detail fr] g else g)"

subsection \<open>Writes to the daemon\<close>

definition put_downstream :: "bytes \<Rightarrow> string \<Rightarrow> gateway \<Rightarrow> gateway" where
  "put_downstream bs source g =
     g\<lparr>gw_downstream_writes := gw_downstream_writes g @ [\<lparr>w_raw = bs, w_source = source\<rparr>]\<rparr>"

definition send_to_radio :: "codec \<Rightarrow> to_radio \<Rightarrow> string \<Rightarrow> gateway \<Rightarrow> gateway \<times> unit result" where
  "send_to_radio pb message source g =
     (if gw_state g \<noteq> GW_RUNNING then (g, Inl (GatewayError (''gateway is '' @ gateway_state_text (gw_state g))))
      else case encode_frame (serialize_to_radio pb message) of
        Inl e \<Rightarrow> (g, Inl e)
      | Inr bs \<Rightarrow>
          if queue_full (gw_queue_size g) (gw_downstream_writes g)
          then (g, Inl (GatewayError (''downstream queue full for '' @ gw_node_id g)))
          else (put_downstream bs source g, Inr ()))"

definition inject_simulated_packet :: "codec \<Rightarrow> mesh_packet \<Rightarrow> gateway \<Rightarrow> gateway \<times> unit result" where
  "inject_simulated_packet pb p g = send_to_radio pb (TR_packet p) ''controller.rf'' g"

text \<open>\<^verbatim>\<open>request_config\<close> registers its waiter and sends; whatever ends the wait removes it.\<close>

definition request_config_begin :: "codec \<Rightarrow> int \<Rightarrow> gateway \<Rightarrow> gateway \<times> unit result" where
  "request_config_begin pb nonce g =
     (case send_to_radio pb (TR_want_config_id nonce) ''controller.config''
             (g\<lparr>gw_config_waiters := dict_set nonce False (gw_config_waiters g)\<rparr>) of
        (g1, Inl e) \<Rightarrow> (g1\<lparr>gw_config_waiters := dict_pop nonce (gw_config_waiters g1)\<rparr>, Inl e)
      | (g1, Inr _) \<Rightarrow> (g1, Inr ()))"

definition request_config_end :: "int \<Rightarrow> gateway \<Rightarrow> gateway" where
  "request_config_end nonce g = g\<lparr>gw_config_waiters := dict_pop nonce (gw_config_waiters g)\<rparr>"

text \<open>One turn of \<^verbatim>\<open>_downstream_writer_loop\<close>.\<close>

definition downstream_writer_turn :: "gateway \<Rightarrow> gateway" where
  "downstream_writer_turn g =
     (case gw_downstream_writes g of
        [] \<Rightarrow> g
      | w # ws \<Rightarrow> emit ''gateway.downstream_write'' (w_source w) None
                   (put_out [To_daemon (w_raw w)] (g\<lparr>gw_downstream_writes := ws\<rparr>)))"

subsection \<open>Failure\<close>

fun fail_waiters :: "(int \<times> bool) list \<Rightarrow> string \<Rightarrow> gateway_output list" where
  "fail_waiters [] detail = []"
| "fail_waiters ((nonce, finished) # ws) detail =
     (if finished then fail_waiters ws detail else Waiter_failed nonce detail # fail_waiters ws detail)"

definition gateway_fail :: "string \<Rightarrow> gateway \<Rightarrow> gateway" where
  "gateway_fail detail g =
     (if gw_state g \<in> {GW_STOPPING, GW_STOPPED, GW_FAILED} then g
      else let g1 = emit ''gateway.failed'' detail None (g\<lparr>gw_state := GW_FAILED, gw_failed := True\<rparr>);
               g2 = put_out (fail_waiters (gw_config_waiters g1) detail)
                      (g1\<lparr>gw_config_waiters := map (\<lambda>(n, _). (n, True)) (gw_config_waiters g1)\<rparr>)
           in if gw_client g2 \<noteq> None then put_out [Client_closed] g2 else g2)"

definition downstream_closed :: "gateway \<Rightarrow> gateway" where
  "downstream_closed g =
     (if gw_state g \<notin> {GW_STOPPING, GW_STOPPED} then gateway_fail ''downstream daemon disconnected'' g else g)"

subsection \<open>Frames from the daemon\<close>

definition settle_config :: "from_radio \<Rightarrow> gateway \<Rightarrow> gateway" where
  "settle_config message g =
     (case message of
        FR_config_complete_id nonce \<Rightarrow>
          if dict_get (gw_config_waiters g) nonce = Some False
          then put_out [Waiter_ready nonce] (g\<lparr>gw_config_waiters := dict_set nonce True (gw_config_waiters g)\<rparr>)
          else g
      | _ \<Rightarrow> g)"

definition simulated_rf :: "from_radio \<Rightarrow> mesh_packet option" where
  "simulated_rf message =
     (case message of
        FR_packet p \<Rightarrow>
          (case decoded_data p of
             Some d \<Rightarrow> if d_portnum d = SIMULATOR_APP then Some p else None
           | None \<Rightarrow> None)
      | _ \<Rightarrow> None)"

definition queue_rf_frame :: "frame \<Rightarrow> mesh_packet \<Rightarrow> gateway \<Rightarrow> gateway" where
  "queue_rf_frame fr p g =
     (if queue_full (gw_queue_size g) (gw_rf_frames g)
      then emit ''gateway.rf_queue_full'' ''RF frame dropped from controller queue'' None g
      else emit ''gateway.rf_transmit'' (show_int (p_id p)) (Some fr) (g\<lparr>gw_rf_frames := gw_rf_frames g @ [p]\<rparr>))"

definition forward_frame :: "frame \<Rightarrow> gateway \<Rightarrow> gateway" where
  "forward_frame fr g =
     (if gw_client g = None then g
      else if queue_full (gw_queue_size g) (gw_external_writes g)
      then emit ''gateway.external_backpressure'' ''external frame queue full'' None
             (g\<lparr>gw_dropped_external_frames := gw_dropped_external_frames g + 1\<rparr>)
      else g\<lparr>gw_external_writes := gw_external_writes g @ [raw fr]\<rparr>)"

definition handle_downstream_frame :: "codec \<Rightarrow> frame \<Rightarrow> gateway \<Rightarrow> gateway" where
  "handle_downstream_frame pb fr g =
     (case parse_from_radio pb (payload fr) of
        None \<Rightarrow> emit ''gateway.invalid_from_radio'' ''Error parsing message'' (Some fr) g
      | Some message \<Rightarrow>
          let g1 = (if gw_has_from_radio_handler g then put_out [To_handler message] g else g);
              g2 = settle_config message g1
          in case simulated_rf message of
               Some p \<Rightarrow> queue_rf_frame fr p g2
             | None \<Rightarrow> forward_frame fr g2)"

text \<open>One read of \<^verbatim>\<open>_downstream_reader_loop\<close> with the loop's own parser.\<close>

definition downstream_read :: "codec \<Rightarrow> bytes \<Rightarrow> frame_parser \<Rightarrow> gateway \<Rightarrow> frame_parser \<times> gateway" where
  "downstream_read pb data parser g =
     (let (parser1, frames) = feed parser data in (parser1, fold (handle_downstream_frame pb) frames g))"

subsection \<open>Clients\<close>

definition enable_public_clients :: "gateway \<Rightarrow> gateway \<times> unit result" where
  "enable_public_clients g =
     (if gw_state g \<in> {GW_STOPPED, GW_STOPPING}
      then (g, Inl (GatewayError (''cannot enable public clients while gateway is '' @ gateway_state_text (gw_state g))))
      else (emit ''gateway.public_clients_enabled'' ''public client admission enabled'' None
              (g\<lparr>gw_public_clients_enabled := True\<rparr>), Inr ()))"

text \<open>\<^verbatim>\<open>_handle_client\<close>: the admission of the client with writer \<open>w\<close>, and the end of its
  session; \<open>True\<close> means that the client was admitted.\<close>

definition client_connect :: "bool \<Rightarrow> string \<Rightarrow> nat \<Rightarrow> gateway \<Rightarrow> gateway \<times> bool" where
  "client_connect public peer w g =
     (if public \<and> \<not> gw_public_clients_enabled g
      then (emit ''gateway.client_rejected'' (''public client admission disabled: '' @ peer) None
              (g\<lparr>gw_rejected_clients := gw_rejected_clients g + 1\<rparr>), False)
      else if gw_client g \<noteq> None
      then (emit ''gateway.client_rejected'' (''second client rejected: '' @ peer) None
              (g\<lparr>gw_rejected_clients := gw_rejected_clients g + 1\<rparr>), False)
      else (emit ''gateway.client_connected'' ((if public then ''public'' else ''internal'') @ '': '' @ peer) None
              (g\<lparr>gw_external_connected := public, gw_client_disconnected := False, gw_client := Some w\<rparr>), True))"

definition client_end :: "string \<Rightarrow> nat \<Rightarrow> gateway \<Rightarrow> gateway" where
  "client_end peer w g =
     emit ''gateway.client_disconnected'' peer None
       (g\<lparr>gw_client := (if gw_client g = Some w then None else gw_client g),
          gw_external_connected := False, gw_client_disconnected := True, gw_external_writes := []\<rparr>)"

text \<open>\<^verbatim>\<open>_external_reader_loop\<close>: the frames of one read, which wait for room one by one.\<close>

definition external_put :: "frame \<Rightarrow> gateway \<Rightarrow> gateway" where
  "external_put fr g = put_downstream (raw fr) ''external'' g"

definition external_writer_turn :: "gateway \<Rightarrow> gateway" where
  "external_writer_turn g =
     (case gw_external_writes g of
        [] \<Rightarrow> g
      | bs # rest \<Rightarrow> put_out [To_client bs] (g\<lparr>gw_external_writes := rest\<rparr>))"

subsection \<open>Starting and stopping\<close>

definition reserve_public_listener :: "int result \<Rightarrow> gateway \<Rightarrow> gateway \<times> unit result" where
  "reserve_public_listener bound g =
     (if gw_server g \<or> gw_reserved g then (g, Inr ())
      else case bound of
        Inl e \<Rightarrow> (g, Inl e)
      | Inr port \<Rightarrow> (g\<lparr>gw_public_port := port, gw_reserved := True\<rparr>, Inr ()))"

definition close_transports :: "gateway \<Rightarrow> gateway" where
  "close_transports g =
     (let g1 = (if gw_client g \<noteq> None then put_out [Client_closed] g else g);
          g2 = g1\<lparr>gw_server := False, gw_control_server := False, gw_reserved := False,
                  gw_client := None, gw_downstream := False\<rparr>
      in put_out (fail_waiters (gw_config_waiters g2) (''gateway '' @ gw_node_id g2 @ '' stopped''))
           (g2\<lparr>gw_config_waiters := []\<rparr>))"

definition cancel_tasks :: "gateway \<Rightarrow> gateway" where
  "cancel_tasks g = g\<lparr>gw_tasks := False\<rparr>"

text \<open>\<^verbatim>\<open>True\<close> says that the start goes on, with a reserved listener.\<close>

definition start_begin :: "int result \<Rightarrow> gateway \<Rightarrow> gateway \<times> bool result" where
  "start_begin bound g =
     (if gw_state g = GW_RUNNING then (g, Inr False)
      else if gw_state g \<notin> {GW_STOPPED, GW_FAILED}
      then (g, Inl (GatewayError (''cannot start gateway from '' @ gateway_state_text (gw_state g))))
      else case reserve_public_listener bound (g\<lparr>gw_state := GW_CONNECTING, gw_failed := False\<rparr>) of
        (g1, Inl e) \<Rightarrow> (g1, Inl e)
      | (g1, Inr _) \<Rightarrow> (g1, Inr True))"

definition READINESS_NONCE :: int where "READINESS_NONCE = 0x4D4C0001"

text \<open>One attempt of \<^verbatim>\<open>_establish_ready_downstream\<close> after its connection opened, and its ends.\<close>

definition attempt_begin :: "codec \<Rightarrow> gateway \<Rightarrow> gateway \<times> unit result" where
  "attempt_begin pb g =
     (let g1 = g\<lparr>gw_downstream := True, gw_tasks := True,
                 gw_config_waiters := dict_set READINESS_NONCE False (gw_config_waiters g)\<rparr>
      in case encode_frame (serialize_to_radio pb (TR_want_config_id READINESS_NONCE)) of
           Inl e \<Rightarrow> (g1, Inl e)
         | Inr bs \<Rightarrow> (put_downstream bs ''gateway.readiness'' g1, Inr ()))"

definition attempt_retry :: "gateway \<Rightarrow> gateway" where
  "attempt_retry g =
     g\<lparr>gw_state := GW_CONNECTING, gw_failed := False, gw_tasks := False, gw_downstream := False,
       gw_downstream_writes := [], gw_config_waiters := dict_pop READINESS_NONCE (gw_config_waiters g)\<rparr>"

definition attempt_ready :: "gateway \<Rightarrow> gateway" where
  "attempt_ready g =
     emit ''gateway.downstream_ready'' (''config nonce '' @ show_int READINESS_NONCE) None
       (g\<lparr>gw_config_waiters := dict_pop READINESS_NONCE (gw_config_waiters g)\<rparr>)"

definition start_listen :: "int \<Rightarrow> gateway \<Rightarrow> gateway" where
  "start_listen control_port g = g\<lparr>gw_control_server := True, gw_control_port := control_port\<rparr>"

definition start_end :: "gateway \<Rightarrow> gateway \<times> unit result" where
  "start_end g =
     (if \<not> gw_reserved g then (g, Inl (GatewayError ''public listener was not reserved''))
      else (emit ''gateway.started'' (''public port '' @ show_int (gw_public_port g)) None
              (g\<lparr>gw_server := True, gw_reserved := False, gw_state := GW_RUNNING\<rparr>), Inr ()))"

definition start_failed :: "gateway \<Rightarrow> gateway" where
  "start_failed g = cancel_tasks (close_transports (g\<lparr>gw_state := GW_FAILED\<rparr>))"

definition stop_begin_gateway :: "gateway \<Rightarrow> gateway" where
  "stop_begin_gateway g = (if gw_state g = GW_STOPPED then close_transports g else g\<lparr>gw_state := GW_STOPPING\<rparr>)"

definition stop_end_gateway :: "gateway \<Rightarrow> gateway" where
  "stop_end_gateway g =
     emit ''gateway.stopped'' ''gateway stopped'' None
       ((cancel_tasks (close_transports g))\<lparr>gw_external_connected := False, gw_state := GW_STOPPED\<rparr>)"

end
