(* ===== verification/Gateway_Laws.thy ===== *)
theory Gateway_Laws
  imports Gateway
begin

text \<open>
  Laws of the gateway: its steps and reachable states, that everything it writes is a sequence of
  whole frames, that its queues stay bounded, what happens to every frame that the daemon sends, and
  that no configuration request is left waiting. The locale \<open>message_sink\<close> is what the RF medium
  and the traffic controller rely on when they send through a gateway.
\<close>

named_theorems gateway_simps \<open>what the operations of a gateway leave alone\<close>

subsection \<open>Steps\<close>

inductive gw_step :: "codec \<Rightarrow> gateway \<Rightarrow> gateway \<Rightarrow> bool" for pb where
  send: "gw_step pb g (fst (send_to_radio pb m source g))"
| config_begin: "gw_step pb g (fst (request_config_begin pb nonce g))"
| config_end: "gw_step pb g (request_config_end nonce g)"
| writer: "gw_tasks g \<Longrightarrow> gw_step pb g (downstream_writer_turn g)"
| failure: "gw_tasks g \<Longrightarrow> gw_step pb g (gateway_fail detail g)"
| closed: "gw_tasks g \<Longrightarrow> gw_step pb g (downstream_closed g)"
| daemon_read: "gw_tasks g \<Longrightarrow> maximum_payload_size parser = MAX_PROTOBUF_SIZE \<Longrightarrow>
    gw_step pb g (snd (downstream_read pb data parser g))"
| daemon_frame: "gw_tasks g \<Longrightarrow> maximum_payload_size parser = MAX_PROTOBUF_SIZE \<Longrightarrow>
    fr \<in> set (snd (feed parser data)) \<Longrightarrow> gw_step pb g (handle_downstream_frame pb fr g)"
| enable: "gw_step pb g (fst (enable_public_clients g))"
| connect: "gw_server g \<or> gw_control_server g \<Longrightarrow> gw_step pb g (fst (client_connect public peer w g))"
| client_end: "gw_step pb g (client_end peer w g)"
| external: "\<not> queue_full (gw_queue_size g) (gw_downstream_writes g) \<Longrightarrow>
    maximum_payload_size parser = MAX_PROTOBUF_SIZE \<Longrightarrow> fr \<in> set (snd (feed parser data)) \<Longrightarrow>
    gw_step pb g (external_put fr g)"
| client_write: "gw_step pb g (external_writer_turn g)"
| rf_get: "gw_step pb g (g\<lparr>gw_rf_frames := tl (gw_rf_frames g)\<rparr>)"
| start: "gw_step pb g (fst (start_begin bound g))"
| reserve: "gw_state g = GW_STOPPED \<Longrightarrow> gw_step pb g (fst (reserve_public_listener bound g))"
| attempt: "gw_state g = GW_CONNECTING \<Longrightarrow> \<not> queue_full (gw_queue_size g) (gw_downstream_writes g) \<Longrightarrow>
    gw_step pb g (fst (attempt_begin pb g))"
| retry: "gw_state g \<in> {GW_CONNECTING, GW_FAILED} \<Longrightarrow> \<not> gw_control_server g \<Longrightarrow> gw_step pb g (attempt_retry g)"
| ready: "gw_state g = GW_CONNECTING \<Longrightarrow> gw_step pb g (attempt_ready g)"
| listen: "gw_state g \<in> {GW_CONNECTING, GW_FAILED} \<Longrightarrow> gw_downstream g \<Longrightarrow> gw_step pb g (start_listen port g)"
| started: "gw_state g \<in> {GW_CONNECTING, GW_FAILED} \<Longrightarrow> gw_downstream g \<Longrightarrow> gw_control_server g \<Longrightarrow>
    gw_step pb g (fst (start_end g))"
| start_failed: "gw_state g \<in> {GW_CONNECTING, GW_FAILED} \<Longrightarrow> gw_step pb g (start_failed g)"
| stop: "gw_step pb g (stop_begin_gateway g)"
| stopped: "gw_state g = GW_STOPPING \<Longrightarrow> gw_step pb g (stop_end_gateway g)"

inductive gw_reachable :: "codec \<Rightarrow> gateway \<Rightarrow> bool" for pb where
  new: "gw_reachable pb (new_gateway node_id port public_clients handler radio_handler queue_size)"
| step: "gw_reachable pb g \<Longrightarrow> gw_step pb g g' \<Longrightarrow> gw_reachable pb g'"

subsection \<open>Whole frames in bounded queues\<close>

definition whole_frame :: "bytes \<Rightarrow> bool" where
  "whole_frame bs \<longleftrightarrow> (\<exists>pl. length pl \<le> 512 \<and> bs = raw (frame_of pl))"

lemma encoded_whole: "encode_frame pl = Inr bs \<Longrightarrow> whole_frame bs"
proof -
  assume e: "encode_frame pl = Inr bs"
  then have "length pl \<le> 512" by (auto simp: encode_frame_def MAX_PROTOBUF_SIZE_def split: if_splits)
  with e encode_frame_ok [of pl] show ?thesis by (auto simp: whole_frame_def)
qed

lemma fed_whole:
  assumes "maximum_payload_size p = MAX_PROTOBUF_SIZE" and "fr \<in> set (snd (feed p data))"
  shows "whole_frame (raw fr)"
proof -
  have "\<forall>x \<in> set (snd (feed p data)). wire_frame (maximum_payload_size p) x"
    using feed_loop_wire [of "p\<lparr>buffer := buffer p @ data\<rparr>" "[]" "fst (feed p data)" "snd (feed p data)"]
    by (simp add: feed_def list_all_iff)
  with assms have "encode_frame (payload fr) = Inr (raw fr)"
    by (auto simp: wire_frame_def encode_frame_def list_all_iff)
  then show ?thesis by (rule encoded_whole)
qed

fun daemon_writes :: "gateway_output list \<Rightarrow> bytes list" where
  "daemon_writes [] = []"
| "daemon_writes (To_daemon bs # os) = bs # daemon_writes os"
| "daemon_writes (_ # os) = daemon_writes os"

fun client_writes :: "gateway_output list \<Rightarrow> bytes list" where
  "client_writes [] = []"
| "client_writes (To_client bs # os) = bs # client_writes os"
| "client_writes (_ # os) = client_writes os"

lemma writes_append [simp]:
  "daemon_writes (os @ ps) = daemon_writes os @ daemon_writes ps"
  "client_writes (os @ ps) = client_writes os @ client_writes ps"
proof -
  show "daemon_writes (os @ ps) = daemon_writes os @ daemon_writes ps" by (induction os rule: daemon_writes.induct) simp_all
  show "client_writes (os @ ps) = client_writes os @ client_writes ps" by (induction os rule: client_writes.induct) simp_all
qed

lemma fail_waiters_writes [simp]: "daemon_writes (fail_waiters ws d) = []" "client_writes (fail_waiters ws d) = []"
  by (induction ws d rule: fail_waiters.induct) simp_all

text \<open>What the two streams carry and how full the queues are.\<close>

definition streams_ok :: "gateway \<Rightarrow> bool" where
  "streams_ok g \<longleftrightarrow>
     list_all whole_frame (daemon_writes (gw_out g)) \<and> list_all whole_frame (map w_raw (gw_downstream_writes g)) \<and>
     list_all whole_frame (client_writes (gw_out g)) \<and> list_all whole_frame (gw_external_writes g) \<and>
     (0 < gw_queue_size g \<longrightarrow> length (gw_downstream_writes g) \<le> gw_queue_size g \<and>
        length (gw_external_writes g) \<le> gw_queue_size g \<and> length (gw_rf_frames g) \<le> gw_queue_size g)"

lemma streams_fields [gateway_simps]:
  "streams_ok (g\<lparr>gw_state := st\<rparr>) = streams_ok g" "streams_ok (g\<lparr>gw_failed := b\<rparr>) = streams_ok g"
  "streams_ok (g\<lparr>gw_config_waiters := ws\<rparr>) = streams_ok g" "streams_ok (g\<lparr>gw_client := w\<rparr>) = streams_ok g"
  "streams_ok (g\<lparr>gw_server := b\<rparr>) = streams_ok g" "streams_ok (g\<lparr>gw_control_server := b\<rparr>) = streams_ok g"
  "streams_ok (g\<lparr>gw_control_port := k\<rparr>) = streams_ok g" "streams_ok (g\<lparr>gw_public_port := k\<rparr>) = streams_ok g"
  "streams_ok (g\<lparr>gw_reserved := b\<rparr>) = streams_ok g" "streams_ok (g\<lparr>gw_downstream := b\<rparr>) = streams_ok g"
  "streams_ok (g\<lparr>gw_tasks := b\<rparr>) = streams_ok g" "streams_ok (g\<lparr>gw_external_connected := b\<rparr>) = streams_ok g"
  "streams_ok (g\<lparr>gw_client_disconnected := b\<rparr>) = streams_ok g" "streams_ok (g\<lparr>gw_rejected_clients := k\<rparr>) = streams_ok g"
  "streams_ok (g\<lparr>gw_dropped_external_frames := k\<rparr>) = streams_ok g"
  "streams_ok (g\<lparr>gw_public_clients_enabled := b\<rparr>) = streams_ok g"
  by (simp_all add: streams_ok_def)

lemma streams_outputs [gateway_simps]:
  "streams_ok (emit kind detail fr g) = streams_ok g"
  "streams_ok (put_out [To_handler m] g) = streams_ok g" "streams_ok (put_out [Client_closed] g) = streams_ok g"
  "streams_ok (put_out [Waiter_ready n] g) = streams_ok g" "streams_ok (put_out (fail_waiters ws d) g) = streams_ok g"
  by (simp_all add: emit_def put_out_def streams_ok_def)

lemma streams_put:
  assumes "streams_ok g" and "whole_frame bs" and "\<not> queue_full (gw_queue_size g) (gw_downstream_writes g)"
  shows "streams_ok (put_downstream bs source g)"
  using assms by (auto simp: streams_ok_def put_downstream_def queue_full_def)

lemma streams_send: "streams_ok g \<Longrightarrow> streams_ok (fst (send_to_radio pb m source g))"
  by (auto simp: send_to_radio_def split: sum.splits intro!: streams_put dest: encoded_whole)

lemma streams_config_begin: "streams_ok g \<Longrightarrow> streams_ok (fst (request_config_begin pb nonce g))"
  using streams_send [of "g\<lparr>gw_config_waiters := dict_set nonce False (gw_config_waiters g)\<rparr>" pb
      "TR_want_config_id nonce" "''controller.config''"]
  by (auto simp: request_config_begin_def gateway_simps split: prod.splits sum.splits)

lemma streams_attempt_begin:
  assumes "streams_ok g" and "\<not> queue_full (gw_queue_size g) (gw_downstream_writes g)"
  shows "streams_ok (fst (attempt_begin pb g))"
  using assms
  by (auto simp: attempt_begin_def Let_def gateway_simps split: sum.splits intro!: streams_put dest: encoded_whole)

lemma streams_frame: "streams_ok g \<Longrightarrow> whole_frame (raw fr) \<Longrightarrow> streams_ok (handle_downstream_frame pb fr g)"
proof -
  have q: "streams_ok g \<Longrightarrow> streams_ok (queue_rf_frame fr p g)" for g p
    by (auto simp: queue_rf_frame_def gateway_simps) (auto simp: streams_ok_def queue_full_def)
  have f: "streams_ok g \<Longrightarrow> whole_frame (raw fr) \<Longrightarrow> streams_ok (forward_frame fr g)" for g
    by (auto simp: forward_frame_def gateway_simps) (auto simp: streams_ok_def queue_full_def)
  have s: "streams_ok (settle_config m g) = streams_ok g" for m g
    by (simp add: settle_config_def gateway_simps split: from_radio.split)
  show "streams_ok g \<Longrightarrow> whole_frame (raw fr) \<Longrightarrow> streams_ok (handle_downstream_frame pb fr g)"
    by (auto simp: handle_downstream_frame_def Let_def gateway_simps s intro!: q f split: option.split)
qed

lemma streams_read:
  assumes "streams_ok g" and "maximum_payload_size parser = MAX_PROTOBUF_SIZE"
  shows "streams_ok (snd (downstream_read pb data parser g))"
proof -
  have "streams_ok (fold (handle_downstream_frame pb) frs g)" if "\<forall>fr \<in> set frs. whole_frame (raw fr)" "streams_ok g" for frs g
    using that by (induction frs arbitrary: g) (simp_all add: streams_frame)
  with assms fed_whole [OF assms(2)] show ?thesis by (simp add: downstream_read_def case_prod_unfold Let_def)
qed

lemma streams_rest:
  "streams_ok g \<Longrightarrow> streams_ok (downstream_writer_turn g)" "streams_ok g \<Longrightarrow> streams_ok (external_writer_turn g)"
  "streams_ok g \<Longrightarrow> streams_ok (gateway_fail detail g)" "streams_ok g \<Longrightarrow> streams_ok (downstream_closed g)"
  "streams_ok g \<Longrightarrow> streams_ok (fst (enable_public_clients g))"
  "streams_ok g \<Longrightarrow> streams_ok (fst (client_connect public peer w g))" "streams_ok g \<Longrightarrow> streams_ok (client_end peer w g)"
  "streams_ok g \<Longrightarrow> streams_ok (close_transports g)" "streams_ok g \<Longrightarrow> streams_ok (attempt_retry g)"
proof -
  show fail: "streams_ok g \<Longrightarrow> streams_ok (gateway_fail detail g)" for detail
    by (simp add: gateway_fail_def Let_def gateway_simps)
  then show "streams_ok g \<Longrightarrow> streams_ok (downstream_closed g)" by (simp add: downstream_closed_def)
  show "streams_ok g \<Longrightarrow> streams_ok (downstream_writer_turn g)"
    by (cases "gw_downstream_writes g")
      (simp_all add: downstream_writer_turn_def gateway_simps, auto simp: streams_ok_def put_out_def)
  show "streams_ok g \<Longrightarrow> streams_ok (external_writer_turn g)"
    by (cases "gw_external_writes g") (auto simp: external_writer_turn_def streams_ok_def put_out_def)
  show "streams_ok g \<Longrightarrow> streams_ok (attempt_retry g)" by (simp add: attempt_retry_def streams_ok_def)
  show "streams_ok g \<Longrightarrow> streams_ok (client_end peer w g)"
    by (simp add: client_end_def gateway_simps) (simp add: streams_ok_def)
qed (simp_all add: enable_public_clients_def client_connect_def close_transports_def Let_def gateway_simps)

lemma streams_step: "gw_step pb g g' \<Longrightarrow> streams_ok g \<Longrightarrow> streams_ok g'"
proof (induction rule: gw_step.induct)
  case (external g parser fr data)
  then show ?case by (auto simp: external_put_def intro!: streams_put fed_whole)
next
  case (daemon_frame g parser fr data)
  then show ?case using streams_frame fed_whole by blast
next
  case (rf_get g)
  then show ?case by (simp add: streams_ok_def) linarith
qed (simp_all add: streams_send streams_config_begin streams_attempt_begin streams_read streams_rest
    request_config_end_def start_begin_def reserve_public_listener_def attempt_ready_def start_listen_def
    start_end_def start_failed_def cancel_tasks_def stop_begin_gateway_def stop_end_gateway_def gateway_simps
    split: sum.splits)

lemma reachable_streams: "gw_reachable pb g \<Longrightarrow> streams_ok g"
proof (induction rule: gw_reachable.induct)
  case (new node_id port public_clients handler radio_handler queue_size)
  show ?case by (simp add: new_gateway_def streams_ok_def)
qed (blast intro: streams_step)

lemma whole_frames_parse:
  assumes "list_all whole_frame ws"
  shows "\<exists>frs. feed (new_parser MAX_PROTOBUF_SIZE) (concat ws) = (new_parser MAX_PROTOBUF_SIZE, frs) \<and> map raw frs = ws"
proof -
  have "\<exists>pls. (\<forall>pl \<in> set pls. length pl \<le> 512) \<and> ws = map (raw \<circ> frame_of) pls"
    using assms
  proof (induction ws)
    case (Cons w ws)
    then obtain pl pls where "length pl \<le> 512" "w = raw (frame_of pl)" "\<forall>pl \<in> set pls. length pl \<le> 512"
      "ws = map (raw \<circ> frame_of) pls" by (auto simp: whole_frame_def)
    then show ?case by (intro exI [of _ "pl # pls"]) simp
  qed simp
  then obtain pls where pls: "\<forall>pl \<in> set pls. length pl \<le> 512" "ws = map (raw \<circ> frame_of) pls" by blast
  have "feed (new_parser MAX_PROTOBUF_SIZE) (concat ws) = (new_parser MAX_PROTOBUF_SIZE, map frame_of pls)"
    using feed_loop_encoded_all [OF pls(1), of "new_parser MAX_PROTOBUF_SIZE" "[]"]
    by (simp add: feed_def new_parser_def MAX_PROTOBUF_SIZE_def pls(2))
  then show ?thesis by (intro exI [of _ "map frame_of pls"]) (simp add: pls(2))
qed

text \<open>
  C8. Frames never interleave: in every reachable state, whatever the controller, the RF medium, the
  readiness handshake and an external client have written, a parser at the daemon's end reads the
  byte stream as exactly the frames the gateway wrote, one by one, with nothing discarded; the same
  holds for the stream to the client, and no queue exceeds its size.
\<close>

theorem gateway_streams_parse:
  assumes "gw_reachable pb g"
  shows "\<exists>frs gs. feed (new_parser MAX_PROTOBUF_SIZE) (concat (daemon_writes (gw_out g))) = (new_parser MAX_PROTOBUF_SIZE, frs) \<and>
      map raw frs = daemon_writes (gw_out g) \<and>
      feed (new_parser MAX_PROTOBUF_SIZE) (concat (client_writes (gw_out g))) = (new_parser MAX_PROTOBUF_SIZE, gs) \<and>
      map raw gs = client_writes (gw_out g) \<and>
      (0 < gw_queue_size g \<longrightarrow> length (gw_downstream_writes g) \<le> gw_queue_size g \<and>
        length (gw_external_writes g) \<le> gw_queue_size g \<and> length (gw_rf_frames g) \<le> gw_queue_size g)"
proof -
  have ok: "streams_ok g" using assms by (rule reachable_streams)
  obtain frs where "feed (new_parser MAX_PROTOBUF_SIZE) (concat (daemon_writes (gw_out g))) = (new_parser MAX_PROTOBUF_SIZE, frs)"
    "map raw frs = daemon_writes (gw_out g)"
    using whole_frames_parse [of "daemon_writes (gw_out g)"] ok by (auto simp: streams_ok_def)
  moreover obtain gs where "feed (new_parser MAX_PROTOBUF_SIZE) (concat (client_writes (gw_out g))) = (new_parser MAX_PROTOBUF_SIZE, gs)"
    "map raw gs = client_writes (gw_out g)"
    using whole_frames_parse [of "client_writes (gw_out g)"] ok by (auto simp: streams_ok_def)
  ultimately show ?thesis using ok by (intro exI [of _ frs] exI [of _ gs]) (simp add: streams_ok_def)
qed

text \<open>A gateway of node a that has started and has sent one configuration request.\<close>

definition lab_gateway :: "nat \<Rightarrow> gateway" where
  "lab_gateway n =
     (let g1 = fst (start_begin (Inr 4403) (new_gateway ''a'' 4403 True True True n));
          g2 = attempt_ready (downstream_writer_turn (fst (attempt_begin null_codec g1)))
      in fst (start_end (start_listen 50000 g2)))"

lemmas lab_gateway_simps = start_end_def start_listen_def attempt_ready_def downstream_writer_turn_def attempt_begin_def
  start_begin_def reserve_public_listener_def new_gateway_def emit_def put_out_def put_downstream_def null_codec_def
  encode_frame_def MAGIC_def to_bytes2_def Let_def

lemma lab_gateway_reachable: "gw_reachable null_codec (lab_gateway 2)"
proof -
  let ?r = "gw_reachable null_codec"
  define g1 where "g1 = fst (start_begin (Inr 4403) (new_gateway ''a'' 4403 True True True 2))"
  define g2 where "g2 = fst (attempt_begin null_codec g1)"
  define g3 where "g3 = downstream_writer_turn g2"
  define g4 where "g4 = attempt_ready g3"
  define g5 where "g5 = start_listen 50000 g4"
  have 1: "?r g1" unfolding g1_def by (rule gw_reachable.step [OF gw_reachable.new gw_step.start])
  have g1: "gw_state g1 = GW_CONNECTING" "\<not> queue_full (gw_queue_size g1) (gw_downstream_writes g1)" by (simp_all add: g1_def, code_simp+)
  have 2: "?r g2" unfolding g2_def by (intro gw_reachable.step [OF 1] gw_step.attempt g1)
  have "gw_tasks g2" unfolding g2_def g1_def by code_simp
  then have 3: "?r g3" unfolding g3_def by (intro gw_reachable.step [OF 2] gw_step.writer)
  have "gw_state g3 = GW_CONNECTING" unfolding g3_def g2_def g1_def by code_simp
  then have 4: "?r g4" unfolding g4_def by (intro gw_reachable.step [OF 3] gw_step.ready)
  have "gw_state g4 \<in> {GW_CONNECTING, GW_FAILED}" "gw_downstream g4" unfolding g4_def
    by (simp_all add: g3_def g2_def g1_def lab_gateway_simps)
  then have 5: "?r g5" unfolding g5_def by (intro gw_reachable.step [OF 4] gw_step.listen)
  have "gw_state g5 \<in> {GW_CONNECTING, GW_FAILED}" "gw_downstream g5" "gw_control_server g5"
    unfolding g5_def g4_def by (simp_all add: g3_def g2_def g1_def lab_gateway_simps)
  then have "?r (fst (start_end g5))" by (intro gw_reachable.step [OF 5] gw_step.started)
  then show ?thesis by (simp only: lab_gateway_def Let_def g1_def g2_def g3_def g4_def g5_def)
qed

lemma gateway_streams_parse_witness:
  "daemon_writes (gw_out (lab_gateway 2)) = [[0x94, 0xc3, 0, 0]] \<and>
   (\<exists>frs. feed (new_parser MAX_PROTOBUF_SIZE) (concat (daemon_writes (gw_out (lab_gateway 2)))) =
      (new_parser MAX_PROTOBUF_SIZE, frs) \<and> map raw frs = [[0x94, 0xc3, 0, 0]])"
proof -
  have w: "daemon_writes (gw_out (lab_gateway 2)) = [[0x94, 0xc3, 0, 0]]"
    by (simp add: lab_gateway_def Let_def lab_gateway_simps)
  from gateway_streams_parse [OF lab_gateway_reachable] w show ?thesis by metis
qed

subsection \<open>The fate of a frame from the daemon\<close>

definition simulated_frame :: "codec \<Rightarrow> frame \<Rightarrow> mesh_packet option" where
  "simulated_frame pb fr = Option.bind (parse_from_radio pb (payload fr)) simulated_rf"

definition forwardable :: "codec \<Rightarrow> frame \<Rightarrow> bool" where
  "forwardable pb fr \<longleftrightarrow> parse_from_radio pb (payload fr) \<noteq> None \<and> simulated_frame pb fr = None"

text \<open>A queue of bounded size takes elements until it is full.\<close>

definition fill :: "nat \<Rightarrow> 'a list \<Rightarrow> 'a list \<Rightarrow> 'a list" where
  "fill n q xs = (if n = 0 then q @ xs else q @ take (n - length q) xs)"

lemma fill_Cons: "fill n q (x # xs) = (if queue_full n q then fill n q xs else fill n (q @ [x]) xs)"
  by (auto simp: fill_def queue_full_def) (metis Suc_diff_Suc append_Cons append_Nil append_assoc not_le take_Suc_Cons)

lemma fill_Nil [simp]: "fill n q [] = q"
  by (simp add: fill_def)

lemma fill_full: "queue_full n q \<Longrightarrow> fill n q xs = q"
  by (simp add: fill_def queue_full_def)

lemma length_fill: "length q \<le> length (fill n q xs)" "length (fill n q xs) \<le> length q + length xs"
  by (simp_all add: fill_def)

text \<open>How often the event handler of the gateway has been told of events of a kind.\<close>

definition told :: "string \<Rightarrow> gateway \<Rightarrow> int" where
  "told kind g = int (length (filter (\<lambda>out. \<exists>detail fr. out = Emitted kind detail fr) (gw_out g)))"

lemma told_simps [simp]:
  "told kind (g\<lparr>gw_external_writes := ws\<rparr>) = told kind g" "told kind (g\<lparr>gw_rf_frames := ps\<rparr>) = told kind g"
  "told kind (g\<lparr>gw_dropped_external_frames := k\<rparr>) = told kind g"
  "told kind (emit kind' detail fr g) = told kind g + of_bool (gw_has_event_handler g \<and> kind = kind')"
  by (auto simp: told_def put_out_def emit_def)

lemma emit_fields [simp]:
  "gw_external_writes (emit k d fr g) = gw_external_writes g" "gw_rf_frames (emit k d fr g) = gw_rf_frames g"
  "gw_dropped_external_frames (emit k d fr g) = gw_dropped_external_frames g" "gw_queue_size (emit k d fr g) = gw_queue_size g"
  "gw_client (emit k d fr g) = gw_client g" "gw_has_event_handler (emit k d fr g) = gw_has_event_handler g"
  by (simp_all add: emit_def put_out_def)

text \<open>The handler of the simulator and a settled request touch no queue and report no event.\<close>

definition same_queues :: "gateway \<Rightarrow> gateway \<Rightarrow> bool" where
  "same_queues g g' \<longleftrightarrow> gw_external_writes g' = gw_external_writes g \<and> gw_rf_frames g' = gw_rf_frames g \<and>
     gw_dropped_external_frames g' = gw_dropped_external_frames g \<and> gw_queue_size g' = gw_queue_size g \<and>
     gw_client g' = gw_client g \<and> gw_has_event_handler g' = gw_has_event_handler g \<and> (\<forall>kind. told kind g' = told kind g)"

lemma settled_same: "same_queues g (settle_config m (if b then put_out [To_handler m'] g else g))"
  by (auto simp: same_queues_def settle_config_def put_out_def told_def split: from_radio.split)

lemma handle_frame_cases:
  obtains (invalid) d where "parse_from_radio pb (payload fr) = None" and "simulated_frame pb fr = None" and "\<not> forwardable pb fr"
      and "handle_downstream_frame pb fr g = emit ''gateway.invalid_from_radio'' d (Some fr) g"
  | (rf) p g2 where "simulated_frame pb fr = Some p" and "\<not> forwardable pb fr" and "parse_from_radio pb (payload fr) \<noteq> None"
      and "same_queues g g2" and "handle_downstream_frame pb fr g = queue_rf_frame fr p g2"
  | (other) g2 where "simulated_frame pb fr = None" and "forwardable pb fr" and "parse_from_radio pb (payload fr) \<noteq> None"
      and "same_queues g g2" and "handle_downstream_frame pb fr g = forward_frame fr g2"
proof (cases "parse_from_radio pb (payload fr)")
  case None
  then show thesis by (intro invalid) (simp_all add: handle_downstream_frame_def simulated_frame_def forwardable_def)
next
  case (Some m)
  let ?g2 = "settle_config m (if gw_has_from_radio_handler g then put_out [To_handler m] g else g)"
  show thesis
  proof (cases "simulated_rf m")
    case None
    with Some show thesis
      by (intro other [of ?g2] settled_same) (simp_all add: handle_downstream_frame_def simulated_frame_def forwardable_def Let_def)
  next
    case (Some p)
    with \<open>parse_from_radio pb (payload fr) = Some m\<close> show thesis
      by (intro rf [of p ?g2] settled_same) (simp_all add: handle_downstream_frame_def simulated_frame_def forwardable_def Let_def)
  qed
qed

lemma frame_fate:
  fixes g fr pb
  defines "g' \<equiv> handle_downstream_frame pb fr g"
  shows "gw_external_writes g' = fill (gw_queue_size g) (gw_external_writes g)
      (if forwardable pb fr \<and> gw_client g \<noteq> None then [raw fr] else [])"
    and "gw_rf_frames g' =
      fill (gw_queue_size g) (gw_rf_frames g) (case simulated_frame pb fr of None \<Rightarrow> [] | Some p \<Rightarrow> [p])"
    and "gw_dropped_external_frames g' = gw_dropped_external_frames g +
      of_bool (forwardable pb fr \<and> gw_client g \<noteq> None \<and> queue_full (gw_queue_size g) (gw_external_writes g))"
    and "gw_queue_size g' = gw_queue_size g" and "gw_client g' = gw_client g"
    and "gw_has_event_handler g' = gw_has_event_handler g"
    and "told ''gateway.rf_queue_full'' g' = told ''gateway.rf_queue_full'' g +
      of_bool (gw_has_event_handler g \<and> simulated_frame pb fr \<noteq> None \<and> queue_full (gw_queue_size g) (gw_rf_frames g))"
    and "told ''gateway.external_backpressure'' g' = told ''gateway.external_backpressure'' g +
      of_bool (gw_has_event_handler g \<and> forwardable pb fr \<and> gw_client g \<noteq> None \<and> queue_full (gw_queue_size g) (gw_external_writes g))"
    and "told ''gateway.invalid_from_radio'' g' = told ''gateway.invalid_from_radio'' g +
      of_bool (gw_has_event_handler g \<and> parse_from_radio pb (payload fr) = None)"
  unfolding g'_def
  by (rule handle_frame_cases [of pb fr g];
      simp add: same_queues_def queue_rf_frame_def forward_frame_def fill_Cons fill_full)+

text \<open>What happens to a list of frames, when no other task of the gateway runs in between.\<close>

abbreviation handle_frames :: "codec \<Rightarrow> frame list \<Rightarrow> gateway \<Rightarrow> gateway" where
  "handle_frames pb \<equiv> fold (handle_downstream_frame pb)"

lemma frames_external:
  assumes "gw_client g \<noteq> None"
  shows "gw_external_writes (handle_frames pb frs g) =
      fill (gw_queue_size g) (gw_external_writes g) (map raw (filter (forwardable pb) frs)) \<and>
    gw_dropped_external_frames (handle_frames pb frs g) + int (length (gw_external_writes (handle_frames pb frs g))) =
      gw_dropped_external_frames g + int (length (gw_external_writes g)) + int (length (filter (forwardable pb) frs))"
  using assms
proof (induction frs arbitrary: g)
  case (Cons fr frs)
  note fate = frame_fate [of pb fr g]
  from Cons.IH [of "handle_downstream_frame pb fr g"] fate(1-5) Cons.prems show ?case
    by (auto simp: fill_Cons fill_full)
qed simp

lemma frames_no_client:
  assumes "gw_client g = None"
  shows "gw_external_writes (handle_frames pb frs g) = gw_external_writes g \<and>
    gw_dropped_external_frames (handle_frames pb frs g) = gw_dropped_external_frames g"
  using assms
proof (induction frs arbitrary: g)
  case (Cons fr frs)
  note fate = frame_fate [of pb fr g]
  from Cons.IH [of "handle_downstream_frame pb fr g"] fate(1-5) Cons.prems show ?case by simp
qed simp

lemma frames_rf:
  "gw_rf_frames (handle_frames pb frs g) = fill (gw_queue_size g) (gw_rf_frames g) (List.map_filter (simulated_frame pb) frs)"
proof (induction frs arbitrary: g)
  case (Cons fr frs)
  note fate = frame_fate [of pb fr g]
  from Cons.IH [of "handle_downstream_frame pb fr g"] fate(2,4) show ?case
    by (auto simp: fill_Cons fill_full List.map_filter_simps split: option.splits)
qed (simp add: List.map_filter_simps)

lemma frames_told_external:
  assumes "gw_has_event_handler g"
  shows "told ''gateway.external_backpressure'' (handle_frames pb frs g) - told ''gateway.external_backpressure'' g =
    gw_dropped_external_frames (handle_frames pb frs g) - gw_dropped_external_frames g"
  using assms
proof (induction frs arbitrary: g)
  case (Cons fr frs)
  note fate = frame_fate [of pb fr g]
  from Cons.IH [of "handle_downstream_frame pb fr g"] fate(3,6,8) Cons.prems show ?case by auto
qed simp

lemma frames_told_rf:
  assumes "gw_has_event_handler g"
  shows "told ''gateway.rf_queue_full'' (handle_frames pb frs g) + int (length (gw_rf_frames (handle_frames pb frs g))) =
    told ''gateway.rf_queue_full'' g + int (length (gw_rf_frames g)) + int (length (List.map_filter (simulated_frame pb) frs))"
  using assms
proof (induction frs arbitrary: g)
  case (Cons fr frs)
  note fate = frame_fate [of pb fr g]
  from Cons.IH [of "handle_downstream_frame pb fr g"] fate(2,6,7) Cons.prems show ?case
    by (auto simp: fill_Cons fill_full List.map_filter_simps split: option.splits)
qed (simp add: List.map_filter_simps)

lemma frames_told_invalid:
  assumes "gw_has_event_handler g"
  shows "told ''gateway.invalid_from_radio'' (handle_frames pb frs g) =
    told ''gateway.invalid_from_radio'' g + int (length (filter (\<lambda>fr. parse_from_radio pb (payload fr) = None) frs))"
  using assms
proof (induction frs arbitrary: g)
  case (Cons fr frs)
  note fate = frame_fate [of pb fr g]
  from Cons.IH [of "handle_downstream_frame pb fr g"] fate(6,9) Cons.prems show ?case by auto
qed simp

lemma frame_kinds:
  "length frs = length (filter (\<lambda>fr. parse_from_radio pb (payload fr) = None) frs) +
    length (List.map_filter (simulated_frame pb) frs) + length (filter (forwardable pb) frs)"
  by (induction frs) (auto simp: forwardable_def simulated_frame_def List.map_filter_simps split: option.splits)


definition relay_codec :: codec where
  "relay_codec = null_codec\<lparr>parse_from_radio := (\<lambda>b. if b = [1] then Some FR_other
     else if b = [2] then Some (FR_packet (empty_packet\<lparr>p_variant := Decoded ((text_data [])\<lparr>d_portnum := SIMULATOR_APP\<rparr>)\<rparr>))
     else None)\<rparr>"


subsection \<open>Configuration requests\<close>

lemma fail_waiters_in: "(n, False) \<in> set ws \<Longrightarrow> Waiter_failed n d \<in> set (fail_waiters ws d)"
  by (induction ws d rule: fail_waiters.induct) auto

definition nothing_pending :: "gateway \<Rightarrow> bool" where
  "nothing_pending g \<longleftrightarrow> (\<forall>n. (n, False) \<notin> set (gw_config_waiters g))"

definition closed_ok :: "gateway \<Rightarrow> bool" where
  "closed_ok g \<longleftrightarrow> (gw_state g \<in> {GW_FAILED, GW_STOPPED} \<longrightarrow> nothing_pending g) \<and>
     (gw_state g = GW_RUNNING \<longrightarrow> gw_server g \<and> gw_control_server g \<and> gw_downstream g) \<and>
     (gw_state g = GW_STOPPED \<longrightarrow> \<not> gw_server g \<and> \<not> gw_control_server g \<and> \<not> gw_downstream g \<and>
        gw_client g = None)"

lemma pending_pop: "nothing_pending g \<Longrightarrow> nothing_pending (g\<lparr>gw_config_waiters := dict_pop n (gw_config_waiters g)\<rparr>)"
  by (auto simp: nothing_pending_def dest: subsetD [OF set_dict_pop])

lemma closed_fields [gateway_simps]:
  "closed_ok (g\<lparr>gw_failed := b\<rparr>) = closed_ok g" "closed_ok (g\<lparr>gw_out := os\<rparr>) = closed_ok g"
  "closed_ok (g\<lparr>gw_control_port := k\<rparr>) = closed_ok g" "closed_ok (g\<lparr>gw_public_port := k\<rparr>) = closed_ok g"
  "closed_ok (g\<lparr>gw_reserved := b\<rparr>) = closed_ok g" "closed_ok (g\<lparr>gw_tasks := b\<rparr>) = closed_ok g"
  "closed_ok (g\<lparr>gw_external_connected := b\<rparr>) = closed_ok g" "closed_ok (g\<lparr>gw_client_disconnected := b\<rparr>) = closed_ok g"
  "closed_ok (g\<lparr>gw_rejected_clients := k\<rparr>) = closed_ok g" "closed_ok (g\<lparr>gw_dropped_external_frames := k\<rparr>) = closed_ok g"
  "closed_ok (g\<lparr>gw_public_clients_enabled := b\<rparr>) = closed_ok g" "closed_ok (g\<lparr>gw_rf_frames := ps\<rparr>) = closed_ok g"
  "closed_ok (g\<lparr>gw_downstream_writes := ws\<rparr>) = closed_ok g" "closed_ok (g\<lparr>gw_external_writes := bss\<rparr>) = closed_ok g"
  "closed_ok (emit kind detail fr g) = closed_ok g" "closed_ok (put_out os g) = closed_ok g"
  "closed_ok (put_downstream bs source g) = closed_ok g"
  by (simp_all add: closed_ok_def nothing_pending_def emit_def put_out_def put_downstream_def)

lemma closed_pop: "closed_ok g \<Longrightarrow> closed_ok (g\<lparr>gw_config_waiters := dict_pop n (gw_config_waiters g)\<rparr>)"
  using pending_pop [of g n] by (simp add: closed_ok_def)

lemma send_fields: "send_to_radio pb m source g = (g', out) \<Longrightarrow>
    closed_ok g' = closed_ok g \<and> gw_state g' = gw_state g \<and> gw_config_waiters g' = gw_config_waiters g \<and>
    (out = Inr () \<longrightarrow> gw_state g = GW_RUNNING)"
  by (auto simp: send_to_radio_def gateway_simps put_downstream_def split: if_splits sum.splits)

lemma closed_config_begin:
  assumes "closed_ok g"
  shows "closed_ok (fst (request_config_begin pb nonce g))"
proof -
  let ?g0 = "g\<lparr>gw_config_waiters := dict_set nonce False (gw_config_waiters g)\<rparr>"
  obtain g1 out where s: "send_to_radio pb (TR_want_config_id nonce) ''controller.config'' ?g0 = (g1, out)" by fastforce
  note f = send_fields [OF s]
  show ?thesis
  proof (cases out)
    case (Inl e)
    with s have "g1 = ?g0" by (auto simp: send_to_radio_def split: if_splits sum.splits)
    with s Inl show ?thesis using closed_pop [OF assms, of nonce] by (simp add: request_config_begin_def AList.delete_update_same)
  next
    case (Inr u)
    with assms f s show ?thesis by (auto simp: request_config_begin_def closed_ok_def)
  qed
qed

lemma closed_frame: "closed_ok g \<Longrightarrow> closed_ok (handle_downstream_frame pb fr g)"
proof -
  have "nothing_pending (g\<lparr>gw_config_waiters := dict_set k True (gw_config_waiters g)\<rparr>)" if "nothing_pending g" for k g
    using that set_dict_set [of k True "gw_config_waiters g"] by (fastforce simp: nothing_pending_def)
  then have set_done: "closed_ok g \<Longrightarrow> closed_ok (g\<lparr>gw_config_waiters := dict_set k True (gw_config_waiters g)\<rparr>)" for k g
    by (simp add: closed_ok_def)
  have settle: "closed_ok g \<Longrightarrow> closed_ok (settle_config m g)" for m g
    by (simp add: settle_config_def gateway_simps set_done split: from_radio.split)
  have "closed_ok (queue_rf_frame fr p g) = closed_ok g" "closed_ok (forward_frame fr g) = closed_ok g" for p g
    by (simp_all add: queue_rf_frame_def forward_frame_def gateway_simps)
  with settle show "closed_ok g \<Longrightarrow> closed_ok (handle_downstream_frame pb fr g)"
    by (simp add: handle_downstream_frame_def Let_def gateway_simps split: option.split)
qed

lemma closed_fail: "closed_ok g \<Longrightarrow> closed_ok (gateway_fail detail g)"
  by (auto simp: gateway_fail_def Let_def gateway_simps closed_ok_def nothing_pending_def put_out_def emit_def)

lemma closed_transports:
  "nothing_pending (close_transports g)" "\<not> gw_server (close_transports g)" "\<not> gw_control_server (close_transports g)"
  "\<not> gw_downstream (close_transports g)" "gw_client (close_transports g) = None"
  "gw_state (close_transports g) = gw_state g" "gw_config_waiters (close_transports g) = []"
  by (simp_all add: close_transports_def Let_def put_out_def nothing_pending_def)

lemma closed_step: "gw_step pb g g' \<Longrightarrow> closed_ok g \<Longrightarrow> closed_ok g'"
proof (induction rule: gw_step.induct)
  case (send g m source)
  then show ?case using send_fields [of pb m source g] by (metis prod.collapse)
next
  case (daemon_read g parser data)
  have "closed_ok (fold (handle_downstream_frame pb) frs g)" if "closed_ok g" for frs g
    using that by (induction frs arbitrary: g) (simp_all add: closed_frame)
  with daemon_read show ?case by (simp add: downstream_read_def case_prod_unfold Let_def)
next
  case (daemon_frame g parser fr data)
  then show ?case by (simp add: closed_frame)
next
  case (connect g public peer w)
  then show ?case
    by (auto simp: client_connect_def gateway_simps) (auto simp: closed_ok_def nothing_pending_def)
next
  case (client_end g peer w)
  then show ?case by (auto simp: client_end_def gateway_simps) (auto simp: closed_ok_def nothing_pending_def)
next
  case (attempt g)
  then show ?case by (auto simp: attempt_begin_def Let_def gateway_simps split: sum.split) (simp_all add: closed_ok_def)
next
  case (retry g)
  then show ?case by (simp add: attempt_retry_def closed_ok_def)
next
  case (started g)
  then show ?case by (auto simp: start_end_def gateway_simps) (simp_all add: closed_ok_def)
next
  case (start g bound)
  then show ?case
    by (auto simp: start_begin_def reserve_public_listener_def gateway_simps split: sum.split) (simp_all add: closed_ok_def)
next
  case (listen g port)
  then show ?case by (simp add: start_listen_def gateway_simps) (auto simp: closed_ok_def nothing_pending_def)
qed (auto simp: closed_config_begin request_config_end_def closed_pop downstream_writer_turn_def gateway_simps closed_fail
    downstream_closed_def enable_public_clients_def external_put_def external_writer_turn_def reserve_public_listener_def
    attempt_ready_def start_failed_def cancel_tasks_def stop_begin_gateway_def stop_end_gateway_def
    split: list.split sum.split, auto simp: closed_ok_def closed_transports nothing_pending_def)

text \<open>
  C18. No configuration request hangs and no resource outlives a stopped gateway. In every reachable
  state a failed or stopped gateway has no request that is still waiting, a stopped one has no
  listener, no connection and no client, and a running one has both listeners and its connection. A failure
  delivers the reason to every request that was waiting and closes the client; it leaves the listeners
  to \<^verbatim>\<open>stop\<close>, which closes everything from any other state and answers every request that is waiting.
\<close>

theorem gateway_closes_completely:
  assumes "gw_reachable pb g"
  shows "(gw_state g \<in> {GW_FAILED, GW_STOPPED} \<longrightarrow> (\<forall>n. (n, False) \<notin> set (gw_config_waiters g))) \<and>
    (gw_state g = GW_STOPPED \<longrightarrow> \<not> gw_server g \<and> \<not> gw_control_server g \<and> \<not> gw_downstream g \<and> gw_client g = None) \<and>
    (gw_state g = GW_RUNNING \<longrightarrow> gw_server g \<and> gw_control_server g \<and> gw_downstream g) \<and>
    (gw_state g \<in> {GW_RUNNING, GW_CONNECTING} \<longrightarrow>
      (let g' = gateway_fail detail g in gw_state g' = GW_FAILED \<and>
        (gw_client g \<noteq> None \<longrightarrow> Client_closed \<in> set (gw_out g')) \<and>
        (\<forall>n. (n, False) \<in> set (gw_config_waiters g) \<longrightarrow> Waiter_failed n detail \<in> set (gw_out g')))) \<and>
    (gw_state g \<noteq> GW_STOPPED \<longrightarrow>
      (let g' = stop_end_gateway (stop_begin_gateway g) in gw_state g' = GW_STOPPED \<and> \<not> gw_tasks g' \<and>
        \<not> gw_server g' \<and> \<not> gw_control_server g' \<and> \<not> gw_reserved g' \<and> \<not> gw_downstream g' \<and> gw_client g' = None \<and>
        gw_config_waiters g' = [] \<and>
        (\<forall>n. (n, False) \<in> set (gw_config_waiters g) \<longrightarrow>
          Waiter_failed n (''gateway '' @ gw_node_id g @ '' stopped'') \<in> set (gw_out g'))))"
proof -
  have "closed_ok g" using assms
  proof (induction rule: gw_reachable.induct)
    case (new node_id port public_clients handler radio_handler queue_size)
    show ?case by (simp add: new_gateway_def closed_ok_def nothing_pending_def)
  qed (blast intro: closed_step)
  moreover have "let g' = gateway_fail detail g in gw_state g' = GW_FAILED \<and>
      (gw_client g \<noteq> None \<longrightarrow> Client_closed \<in> set (gw_out g')) \<and>
      (\<forall>n. (n, False) \<in> set (gw_config_waiters g) \<longrightarrow> Waiter_failed n detail \<in> set (gw_out g'))"
    if "gw_state g \<in> {GW_RUNNING, GW_CONNECTING}"
    using that by (auto simp: gateway_fail_def Let_def put_out_def emit_def intro: fail_waiters_in)
  moreover have "let g' = stop_end_gateway (stop_begin_gateway g) in gw_state g' = GW_STOPPED \<and> \<not> gw_tasks g' \<and>
      \<not> gw_server g' \<and> \<not> gw_control_server g' \<and> \<not> gw_reserved g' \<and> \<not> gw_downstream g' \<and> gw_client g' = None \<and>
      gw_config_waiters g' = [] \<and>
      (\<forall>n. (n, False) \<in> set (gw_config_waiters g) \<longrightarrow>
        Waiter_failed n (''gateway '' @ gw_node_id g @ '' stopped'') \<in> set (gw_out g'))"
    if "gw_state g \<noteq> GW_STOPPED"
    using that fail_waiters_in [of _ "gw_config_waiters g" "''gateway '' @ gw_node_id g @ '' stopped''"]
    by (simp add: stop_begin_gateway_def stop_end_gateway_def cancel_tasks_def close_transports_def Let_def put_out_def emit_def)
  ultimately show ?thesis unfolding closed_ok_def nothing_pending_def by blast
qed

lemma gateway_closes_completely_witness:
  "gw_state (lab_gateway 2) = GW_RUNNING \<and> gw_server (lab_gateway 2) \<and> gw_downstream (lab_gateway 2)"
  using gateway_closes_completely [OF lab_gateway_reachable]
  by (simp add: lab_gateway_def lab_gateway_simps)

subsection \<open>Restarting after a failure\<close>

text \<open>
  A gateway that fails while it is running cannot be started again by \<^verbatim>\<open>start\<close> alone: its
  old listener still counts as reserved, so the start runs the whole handshake and then always
  raises that the public listener was not reserved.
\<close>

theorem restart_after_failure_raises:
  assumes "gw_state g = GW_FAILED" and "gw_server g" and "\<not> gw_reserved g"
  shows "snd (start_begin bound g) = Inr True \<and>
    snd (start_end (start_listen port (attempt_ready (fst (attempt_begin pb (fst (start_begin bound g))))))) =
      Inl (GatewayError ''public listener was not reserved'')"
  using assms
  by (simp add: start_begin_def reserve_public_listener_def attempt_begin_def attempt_ready_def start_listen_def
      start_end_def emit_def put_out_def put_downstream_def Let_def split: sum.split)

lemma restart_after_failure_raises_witness:
  "gw_reachable null_codec (gateway_fail ''downstream daemon disconnected'' (lab_gateway 2)) \<and>
   snd (start_begin (Inr 4403) (gateway_fail ''downstream daemon disconnected'' (lab_gateway 2))) = Inr True"
proof -
  let ?g = "gateway_fail ''downstream daemon disconnected'' (lab_gateway 2)"
  have "gw_tasks (lab_gateway 2)" by (simp add: lab_gateway_def lab_gateway_simps)
  then have "gw_reachable null_codec ?g" by (intro gw_reachable.step [OF lab_gateway_reachable] gw_step.failure)
  moreover have "gw_state ?g = GW_FAILED" "gw_server ?g" "\<not> gw_reserved ?g"
    by (simp_all add: lab_gateway_def lab_gateway_simps gateway_fail_def)
  ultimately show ?thesis using restart_after_failure_raises [of ?g] by blast
qed

subsection \<open>Sending through a gateway\<close>

text \<open>What a client of a gateway relies on: a refused message changes nothing, an accepted one joins
  the end of the queue with its own encoding.\<close>

locale message_sink =
  fixes send_to :: "'m \<Rightarrow> 's \<Rightarrow> 's \<times> unit result"
    and accepted :: "'s \<Rightarrow> 'e list"
    and encodes :: "'m \<Rightarrow> 'e \<Rightarrow> bool"
  assumes refused: "send_to m s = (s', Inl e) \<Longrightarrow> s' = s"
    and sent: "send_to m s = (s', Inr u) \<Longrightarrow> \<exists>x. encodes m x \<and> accepted s' = accepted s @ [x]"
begin

fun send_all :: "'m list \<Rightarrow> 's \<Rightarrow> 's \<times> 'm list" where
  "send_all [] s = (s, [])"
| "send_all (m # ms) s =
     (case send_to m s of
        (s1, Inl e) \<Rightarrow> send_all ms s1
      | (s1, Inr _) \<Rightarrow> let (s2, ok) = send_all ms s1 in (s2, m # ok))"

lemma send_all_accepted:
  "send_all ms s = (s', ok) \<Longrightarrow> \<exists>xs. accepted s' = accepted s @ xs \<and> list_all2 encodes ok xs \<and> set ok \<subseteq> set ms"
proof (induction ms s arbitrary: s' ok rule: send_all.induct)
  case (2 m ms s)
  obtain s1 r where s1: "send_to m s = (s1, r)" by fastforce
  show ?case
  proof (cases r)
    case (Inl e)
    with "2.IH"(1) [OF s1 [symmetric] Inl] "2.prems" s1 refused show ?thesis by fastforce
  next
    case (Inr u)
    obtain x where x: "encodes m x" "accepted s1 = accepted s @ [x]" using sent s1 Inr by blast
    obtain ok' where ok: "send_all ms s1 = (s', ok')" "ok = m # ok'"
      using "2.prems" s1 Inr by (auto split: prod.splits)
    from "2.IH"(2) [OF s1 [symmetric] Inr ok(1)] obtain xs
      where "accepted s' = accepted s1 @ xs" "list_all2 encodes ok' xs" "set ok' \<subseteq> set ms" by blast
    with x ok show ?thesis by (intro exI [of _ "x # xs"]) auto
  qed
qed simp

end

definition radio_write :: "codec \<Rightarrow> string \<Rightarrow> to_radio \<Rightarrow> downstream_write \<Rightarrow> bool" where
  "radio_write pb source m w \<longleftrightarrow> encode_frame (serialize_to_radio pb m) = Inr (w_raw w) \<and> w_source w = source"

interpretation radio: message_sink "\<lambda>m. send_to_radio pb m source" gw_downstream_writes "radio_write pb source" for pb source
  by unfold_locales
    (auto simp: send_to_radio_def put_downstream_def radio_write_def split: if_splits sum.splits)

end
