(* ===== verification/Medium.thy ===== *)
theory Medium
  imports Scenario Airtime Events Gateway_Laws
begin

text \<open>
  The RF medium, \<^verbatim>\<open>src/backend/app/simulator/medium.py\<close>: the table of directed links and the
  forwarding of a firmware frame to every enabled link. The handlers that the medium calls and the
  event broker it publishes to act on a state of type \<open>'s\<close> and are the fields of \<open>observer\<close>; the
  gateways are a dictionary. \<^verbatim>\<open>transmit\<close> is one uninterrupted stretch up to its
  injections, and each injection is one step, because \<^verbatim>\<open>inject_simulated_packet\<close> never
  suspends. Protobuf stores the signal-to-noise ratio as a single-precision float: the rounding is
  the argument \<open>single\<close>.
\<close>

record medium =
  md_scenario :: scenario
  md_hardware_ids :: "(string, int) dict"
  md_links :: "(string \<times> string, directed_link) dict"
  md_running :: bool

definition new_medium :: "scenario \<Rightarrow> (string, int) dict \<Rightarrow> medium" where
  "new_medium sc hardware_ids =
     \<lparr>md_scenario = sc, md_hardware_ids = hardware_ids, md_links = link_map sc, md_running = False\<rparr>"

record 's observer =
  ob_transmitted :: "string \<Rightarrow> mesh_packet \<Rightarrow> int \<Rightarrow> 's \<Rightarrow> 's \<times> (string \<times> nat) option result"
  ob_dropped :: "string \<Rightarrow> mesh_packet \<Rightarrow> string \<Rightarrow> 's \<Rightarrow> 's"
  ob_publish :: "packet_event \<Rightarrow> 's \<Rightarrow> packet_event \<times> 's"

subsection \<open>The link table\<close>

definition link_update_event :: "pyfloat \<Rightarrow> directed_link \<Rightarrow> packet_event" where
  "link_update_event now l =
     (new_event now LINK_UPDATED)\<lparr>e_transmitter := Some (from_node l), e_receiver := Some (to_node l),
        e_result := Some (if enabled l then ''enabled'' else ''disabled''),
        e_rssi_dbm := Some (rssi_dbm l), e_snr_db := Some (snr_db l)\<rparr>"

definition update_link :: "'s observer \<Rightarrow> pyfloat \<Rightarrow> directed_link \<Rightarrow> medium \<Rightarrow> 's \<Rightarrow>
    medium \<times> 's \<times> packet_event result" where
  "update_link ob now l md s =
     (let key = (from_node l, to_node l) in
      if dict_get (md_links md) key = None
      then (md, s, Inl (KeyError (''unknown directed link: '' @ from_node l @ '' -> '' @ to_node l)))
      else let (event, s') = ob_publish ob (link_update_event now l) s
           in (md\<lparr>md_links := dict_set key l (md_links md)\<rparr>, s', Inr event))"

fun publish_links :: "'s observer \<Rightarrow> pyfloat \<Rightarrow> directed_link list \<Rightarrow> 's \<Rightarrow> packet_event list \<times> 's" where
  "publish_links ob now [] s = ([], s)"
| "publish_links ob now (l # ls) s =
     (let (event, s1) = ob_publish ob (link_update_event now l) s;
          (events, s2) = publish_links ob now ls s1
      in (event # events, s2))"

definition changed_links :: "(string \<times> string, directed_link) dict \<Rightarrow> (string \<times> string, directed_link) dict \<Rightarrow>
    directed_link list" where
  "changed_links links replacement =
     map snd (filter (\<lambda>(k, l). dict_get links k \<noteq> Some l) replacement)"

definition apply_links :: "'s observer \<Rightarrow> pyfloat \<Rightarrow> directed_link list \<Rightarrow> medium \<Rightarrow> 's \<Rightarrow>
    medium \<times> 's \<times> packet_event list result" where
  "apply_links ob now ls md s =
     (let replacement = dict_of (map (\<lambda>l. ((from_node l, to_node l), l)) ls) [] in
      if set (dict_keys replacement) \<noteq> set (dict_keys (md_links md))
      then (md, s, Inl (ValueError ''runtime topology must contain the existing directed link set''))
      else let (events, s') = publish_links ob now (changed_links (md_links md) replacement) s
           in (md\<lparr>md_links := replacement\<rparr>, s', Inr events))"

subsection \<open>Forwarding\<close>

definition destination_node :: "medium \<Rightarrow> int \<Rightarrow> string option" where
  "destination_node md n =
     (if n = 0xFFFFFFFF then Some ''broadcast''
      else case find (\<lambda>(node, hw). hw = n) (md_hardware_ids md) of
        Some (node, _) \<Rightarrow> Some node
      | None \<Rightarrow> if n \<noteq> 0 then Some (CHR ''!'' # show_hex8 (nat n)) else None)"

definition outgoing :: "string \<Rightarrow> medium \<Rightarrow> directed_link list" where
  "outgoing transmitter md = map snd (filter (\<lambda>((source, _), _). source = transmitter) (md_links md))"

definition transmit_event :: "medium \<Rightarrow> pyfloat \<Rightarrow> string \<Rightarrow> mesh_packet \<Rightarrow> (string \<times> nat) option \<Rightarrow>
    portnum option \<Rightarrow> int \<Rightarrow> int \<Rightarrow> packet_event" where
  "transmit_event md now transmitter p correlation port len airtime =
     (new_event now RF_TRANSMIT)\<lparr>e_transmitter := Some transmitter,
        e_intended_destination := destination_node md (p_to p),
        e_receiver_set := map to_node (filter enabled (outgoing transmitter md)),
        e_mesh_packet_id := Some (p_id p), e_traffic_run_id := map_option fst correlation,
        e_traffic_sequence := map_option (\<lambda>c. int (snd c)) correlation, e_port_number := port,
        e_hop_limit := Some (p_hop_limit p), e_hop_start := Some (p_hop_start p),
        e_packet_length := Some len, e_airtime_ms := Some airtime, e_result := Some ''transmitted''\<rparr>"

definition disabled_event :: "pyfloat \<Rightarrow> string \<Rightarrow> mesh_packet \<Rightarrow> (string \<times> nat) option \<Rightarrow> portnum option \<Rightarrow>
    directed_link \<Rightarrow> packet_event" where
  "disabled_event now transmitter p correlation port l =
     (new_event now LINK_DISABLED)\<lparr>e_transmitter := Some transmitter, e_receiver := Some (to_node l),
        e_mesh_packet_id := Some (p_id p), e_traffic_run_id := map_option fst correlation,
        e_traffic_sequence := map_option (\<lambda>c. int (snd c)) correlation, e_port_number := port,
        e_result := Some ''link-disabled''\<rparr>"

record injection =
  in_link :: directed_link
  in_packet :: mesh_packet
  in_correlation :: "(string \<times> nat) option"

fun scan_links :: "'s observer \<Rightarrow> (pyfloat \<Rightarrow> rat) \<Rightarrow> pyfloat \<Rightarrow> string \<Rightarrow> mesh_packet \<Rightarrow> (string \<times> nat) option \<Rightarrow>
    portnum option \<Rightarrow> directed_link list \<Rightarrow> 's \<Rightarrow> injection list \<times> 's" where
  "scan_links ob single now transmitter p correlation port [] s = ([], s)"
| "scan_links ob single now transmitter p correlation port (l # ls) s =
     (if \<not> enabled l
      then let (_, s1) = ob_publish ob (disabled_event now transmitter p correlation port l) s
           in scan_links ob single now transmitter p correlation port ls
                (ob_dropped ob transmitter p ''link-disabled'' s1)
      else let received = p\<lparr>p_rx_rssi := rssi_dbm l, p_rx_snr := single (snr_db l)\<rparr>;
               (rest, s1) = scan_links ob single now transmitter p correlation port ls s
           in (\<lparr>in_link = l, in_packet = received, in_correlation = correlation\<rparr> # rest, s1))"

definition transmit :: "codec \<Rightarrow> 's observer \<Rightarrow> (pyfloat \<Rightarrow> rat) \<Rightarrow> pyfloat \<Rightarrow> string \<Rightarrow> mesh_packet \<Rightarrow> medium \<Rightarrow> 's \<Rightarrow>
    's \<times> injection list result" where
  "transmit pb ob single now transmitter p md s =
     (case mesh_packet_payload_length pb p of
        Inl e \<Rightarrow> (s, Inl e)
      | Inr len \<Rightarrow>
          let port = mesh_packet_port_number pb p in
          case airtime_ms len (rf_modem_preset (sc_rf (md_scenario md))) of
            Inl e \<Rightarrow> (s, Inl e)
          | Inr airtime \<Rightarrow>
              (case ob_transmitted ob transmitter p airtime s of
                 (s1, Inl e) \<Rightarrow> (s1, Inl e)
               | (s1, Inr correlation) \<Rightarrow>
                   let (_, s2) = ob_publish ob (transmit_event md now transmitter p correlation port len airtime) s1;
                       (injections, s3) = scan_links ob single now transmitter p correlation port (outgoing transmitter md) s2
                   in (s3, Inr injections)))"

type_synonym fleet = "(string, gateway) dict"

definition injected_event :: "codec \<Rightarrow> pyfloat \<Rightarrow> injection \<Rightarrow> packet_event" where
  "injected_event pb now i =
     (new_event now RX_INJECTED)\<lparr>e_transmitter := Some (from_node (in_link i)), e_receiver := Some (to_node (in_link i)),
        e_mesh_packet_id := Some (p_id (in_packet i)), e_traffic_run_id := map_option fst (in_correlation i),
        e_traffic_sequence := map_option (\<lambda>c. int (snd c)) (in_correlation i),
        e_port_number := mesh_packet_port_number pb (in_packet i), e_hop_limit := Some (p_hop_limit (in_packet i)),
        e_hop_start := Some (p_hop_start (in_packet i)), e_rssi_dbm := Some (rssi_dbm (in_link i)),
        e_snr_db := Some (snr_db (in_link i)), e_result := Some ''injected-to-firmware''\<rparr>"

definition inject :: "codec \<Rightarrow> 's observer \<Rightarrow> pyfloat \<Rightarrow> injection \<Rightarrow> fleet \<Rightarrow> 's \<Rightarrow> fleet \<times> 's \<times> unit result" where
  "inject pb ob now i fleet s =
     (let receiver = to_node (in_link i) in
      case dict_get fleet receiver of
        None \<Rightarrow> (fleet, s, Inl (KeyError receiver))
      | Some g \<Rightarrow>
          (case inject_simulated_packet pb (in_packet i) g of
             (g', Inl e) \<Rightarrow> (dict_set receiver g' fleet, s, Inl e)
           | (g', Inr _) \<Rightarrow>
               (dict_set receiver g' fleet, snd (ob_publish ob (injected_event pb now i) s), Inr ())))"

text \<open>\<^verbatim>\<open>gather\<close> runs every injection and raises the first failure.\<close>

fun gather_injections :: "codec \<Rightarrow> 's observer \<Rightarrow> pyfloat \<Rightarrow> injection list \<Rightarrow> fleet \<Rightarrow> 's \<Rightarrow> fleet \<times> 's \<times> unit result" where
  "gather_injections pb ob now [] fleet s = (fleet, s, Inr ())"
| "gather_injections pb ob now (i # is) fleet s =
     (let (fleet1, s1, out) = inject pb ob now i fleet s;
          (fleet2, s2, rest) = gather_injections pb ob now is fleet1 s1
      in (fleet2, s2, case out of Inl e \<Rightarrow> Inl e | Inr _ \<Rightarrow> rest))"

text \<open>One turn of \<^verbatim>\<open>_node_loop\<close>; a failure ends the loop and is reported.\<close>

definition node_loop_turn :: "codec \<Rightarrow> 's observer \<Rightarrow> (pyfloat \<Rightarrow> rat) \<Rightarrow> pyfloat \<Rightarrow> string \<Rightarrow> medium \<Rightarrow> fleet \<Rightarrow> 's \<Rightarrow>
    fleet \<times> 's \<times> unit result" where
  "node_loop_turn pb ob single now node md fleet s =
     (case dict_get fleet node of
        None \<Rightarrow> (fleet, s, Inr ())
      | Some g \<Rightarrow>
          (case gw_rf_frames g of
             [] \<Rightarrow> (fleet, s, Inr ())
           | p # ps \<Rightarrow>
               let fleet1 = dict_set node (g\<lparr>gw_rf_frames := ps\<rparr>) fleet in
               case transmit pb ob single now node p md s of
                 (s1, Inl e) \<Rightarrow> (fleet1, s1, Inl e)
               | (s1, Inr injections) \<Rightarrow> gather_injections pb ob now injections fleet1 s1))"

text \<open>
  How a worker ends, and the exception that \<^verbatim>\<open>_supervised_node_loop\<close> reports to the failure handler:
  every end but a cancellation is a failure, a loop that returns included.
\<close>

datatype worker_end = Worker_cancelled | Worker_raised pyerr | Worker_returned

definition supervised_node_loop :: "worker_end \<Rightarrow> pyerr option" where
  "supervised_node_loop e =
     (case e of
        Worker_cancelled \<Rightarrow> None
      | Worker_raised exc \<Rightarrow> Some exc
      | Worker_returned \<Rightarrow> Some (RuntimeError ''medium worker exited unexpectedly''))"

subsection \<open>The link table is fixed\<close>

definition links_ok :: "medium \<Rightarrow> bool" where
  "links_ok md \<longleftrightarrow> dict_wf (md_links md) \<and> (\<forall>(k, l) \<in> set (md_links md). k = (from_node l, to_node l))"

inductive md_step :: "'s observer \<Rightarrow> medium \<times> 's \<Rightarrow> medium \<times> 's \<Rightarrow> bool" for ob where
  update: "update_link ob now l md s = (md', s', out) \<Longrightarrow> md_step ob (md, s) (md', s')"
| applied: "apply_links ob now ls md s = (md', s', out) \<Longrightarrow> md_step ob (md, s) (md', s')"
| other: "md_step ob (md, s) (md, s')"

inductive md_reachable :: "'s observer \<Rightarrow> scenario \<Rightarrow> (string, int) dict \<Rightarrow> medium \<times> 's \<Rightarrow> bool" for ob sc hw where
  new: "md_reachable ob sc hw (new_medium sc hw, s)"
| step: "md_reachable ob sc hw x \<Longrightarrow> md_step ob x y \<Longrightarrow> md_reachable ob sc hw y"

lemma keyed_dict_of:
  assumes "dict_wf d" and "\<forall>(k, l) \<in> set d. k = (from_node l, to_node l)"
  shows "dict_wf (dict_of (map (\<lambda>l. ((from_node l, to_node l), l)) ls) d) \<and>
    (\<forall>(k, l) \<in> set (dict_of (map (\<lambda>l. ((from_node l, to_node l), l)) ls) d). k = (from_node l, to_node l)) \<and>
    set (dict_keys (dict_of (map (\<lambda>l. ((from_node l, to_node l), l)) ls) d)) =
      set (dict_keys d) \<union> (\<lambda>l. (from_node l, to_node l)) ` set ls"
  using assms
proof (induction ls arbitrary: d)
  case (Cons l ls)
  let ?d = "dict_set (from_node l, to_node l) l d"
  have "dict_wf ?d" using Cons.prems(1) by simp
  moreover have "\<forall>(k, l) \<in> set ?d. k = (from_node l, to_node l)"
    using Cons.prems(2) set_dict_set [of "(from_node l, to_node l)" l d] by fastforce
  moreover have "set (dict_keys ?d) = insert (from_node l, to_node l) (set (dict_keys d))"
    by (simp add: dict_keys_set insert_absorb del: set_map)
  ultimately show ?case using Cons.IH [of ?d] by (simp del: set_map) 
qed simp

lemma new_medium_ok: "links_ok (new_medium sc hw)"
  using keyed_dict_of [of "[]" "sc_links sc"] by (simp add: links_ok_def new_medium_def link_map_def)

lemma md_step_ok:
  assumes "md_step ob (md, s) (md', s')" and "links_ok md"
  shows "links_ok md' \<and> set (dict_keys (md_links md')) = set (dict_keys (md_links md)) \<and>
    md_scenario md' = md_scenario md \<and> md_hardware_ids md' = md_hardware_ids md"
  using assms(1)
proof cases
  case (update now l out)
  show ?thesis
  proof (cases "dict_get (md_links md) (from_node l, to_node l) = None")
    case True
    with update assms(2) show ?thesis by (simp add: update_link_def Let_def)
  next
    case False
    then have "(from_node l, to_node l) \<in> set (dict_keys (md_links md))" by (auto dest: dict_get_key)
    moreover have "\<forall>(k, l) \<in> set (dict_set (from_node l, to_node l) l (md_links md)). k = (from_node l, to_node l)"
      using assms(2) set_dict_set [of "(from_node l, to_node l)" l "md_links md"] by (fastforce simp: links_ok_def)
    moreover have "md' = md\<lparr>md_links := dict_set (from_node l, to_node l) l (md_links md)\<rparr>"
      using update False by (simp add: update_link_def Let_def case_prod_unfold)
    ultimately show ?thesis using assms(2) by (simp add: links_ok_def dict_keys_set del: set_map)
  qed
next
  case (applied now ls out)
  let ?new = "dict_of (map (\<lambda>l. ((from_node l, to_node l), l)) ls) []"
  have new: "dict_wf ?new" "\<forall>(k, l) \<in> set ?new. k = (from_node l, to_node l)" using keyed_dict_of [of "[]" ls] by simp_all
  show ?thesis
  proof (cases "set (dict_keys ?new) = set (dict_keys (md_links md))")
    case True
    with applied have "md' = md\<lparr>md_links := ?new\<rparr>" by (simp add: apply_links_def Let_def case_prod_unfold del: set_map)
    with True new show ?thesis by (simp add: links_ok_def)
  next
    case False
    with applied assms(2) show ?thesis by (simp add: apply_links_def Let_def del: set_map)
  qed
qed (use assms(2) in simp)

lemma md_reachable_ok:
  assumes "md_reachable ob sc hw x"
  shows "links_ok (fst x) \<and> set (dict_keys (md_links (fst x))) = (\<lambda>l. (from_node l, to_node l)) ` set (sc_links sc) \<and>
    md_scenario (fst x) = sc \<and> md_hardware_ids (fst x) = hw"
  using assms
proof (induction rule: md_reachable.induct)
  case (new s)
  show ?case using new_medium_ok [of sc hw] keyed_dict_of [of "[]" "sc_links sc"]
    by (simp add: new_medium_def link_map_def)
next
  case (step x y)
  then show ?case using md_step_ok [of ob "fst x" "snd x" "fst y" "snd y"] by simp
qed

lemma graph_pairs:
  assumes "graph_wf sc"
  shows "(\<lambda>l. (from_node l, to_node l)) ` set (sc_links sc) =
    {(a, b). a \<noteq> b \<and> a \<in> set (map sn_id (sc_nodes sc)) \<and> b \<in> set (map sn_id (sc_nodes sc))}"
  using assms unfolding graph_wf_def by (auto simp: link_key_def)

text \<open>
  C27. The stations' topology is fixed at run time: in every state that link updates and topology
  applications can reach, the link table has exactly one entry for every ordered pair of different
  stations, an update is accepted exactly for such a pair, and a topology is applied exactly when its
  links are these pairs, all at once, announcing exactly the links that differ.
\<close>

theorem link_table_is_complete:
  assumes "graph_wf sc" and "md_reachable ob sc hw (md, s)"
  shows "dict_wf (md_links md) \<and>
    set (dict_keys (md_links md)) =
      {(a, b). a \<noteq> b \<and> a \<in> set (map sn_id (sc_nodes sc)) \<and> b \<in> set (map sn_id (sc_nodes sc))} \<and>
    (isOk (snd (snd (update_link ob now l md s))) \<longleftrightarrow> from_node l \<noteq> to_node l \<and>
      from_node l \<in> set (map sn_id (sc_nodes sc)) \<and> to_node l \<in> set (map sn_id (sc_nodes sc))) \<and>
    (case apply_links ob now ls md s of
       (md', s', Inl e) \<Rightarrow> md' = md \<and> s' = s \<and>
         (\<lambda>l. (from_node l, to_node l)) ` set ls \<noteq> set (dict_keys (md_links md))
     | (md', s', Inr events) \<Rightarrow> (\<lambda>l. (from_node l, to_node l)) ` set ls = set (dict_keys (md_links md)) \<and>
         length events = length (filter (\<lambda>(k, l). dict_get (md_links md) k \<noteq> Some l) (md_links md')))"
proof -
  let ?new = "dict_of (map (\<lambda>l. ((from_node l, to_node l), l)) ls) []"
  note ok = md_reachable_ok [OF assms(2), unfolded fst_conv] and pairs = graph_pairs [OF assms(1)]
  have keys: "set (dict_keys ?new) = (\<lambda>l. (from_node l, to_node l)) ` set ls"
    using keyed_dict_of [of "[]" ls] by simp
  have upd: "isOk (snd (snd (update_link ob now l md s))) \<longleftrightarrow> (from_node l, to_node l) \<in> set (dict_keys (md_links md))"
    by (simp add: update_link_def Let_def case_prod_unfold map_of_eq_None_iff)
  have len: "length (fst (publish_links ob now ks s)) = length ks" for ks s
    by (induction ks arbitrary: s) (simp_all add: case_prod_unfold Let_def)
  have app: "case apply_links ob now ls md s of
       (md', s', Inl e) \<Rightarrow> md' = md \<and> s' = s \<and>
         (\<lambda>l. (from_node l, to_node l)) ` set ls \<noteq> set (dict_keys (md_links md))
     | (md', s', Inr events) \<Rightarrow> (\<lambda>l. (from_node l, to_node l)) ` set ls = set (dict_keys (md_links md)) \<and>
         length events = length (filter (\<lambda>(k, l). dict_get (md_links md) k \<noteq> Some l) (md_links md'))"
  proof (cases "set (dict_keys ?new) = set (dict_keys (md_links md))")
    case True
    then have "apply_links ob now ls md s =
        (md\<lparr>md_links := ?new\<rparr>, snd (publish_links ob now (changed_links (md_links md) ?new) s),
         Inr (fst (publish_links ob now (changed_links (md_links md) ?new) s)))"
      by (simp add: apply_links_def Let_def case_prod_unfold del: set_map)
    with True keys show ?thesis by (simp add: len changed_links_def del: set_map)
  next
    case False
    then have "apply_links ob now ls md s =
        (md, s, Inl (ValueError ''runtime topology must contain the existing directed link set''))"
      by (simp add: apply_links_def Let_def del: set_map)
    with False keys show ?thesis by (simp del: set_map)
  qed
  have "set (dict_keys (md_links md)) =
      {(a, b). a \<noteq> b \<and> a \<in> set (map sn_id (sc_nodes sc)) \<and> b \<in> set (map sn_id (sc_nodes sc))}"
    using ok pairs by metis
  with app upd ok show ?thesis by (auto simp: links_ok_def)
qed

text \<open>The relay scenario of three stations, with observers that keep nothing.\<close>

definition silent :: "unit observer" where
  "silent = \<lparr>ob_transmitted = (\<lambda>_ _ _ s. (s, Inr None)), ob_dropped = (\<lambda>_ _ _ s. s), ob_publish = (\<lambda>e s. (e, s))\<rparr>"

lemma relay_graph: "graph_wf relay_scenario"
  using relay_valid validate_graph_Inr by blast

lemma link_table_is_complete_witness:
  "isOk (snd (snd (update_link silent 0 \<lparr>from_node = ''a'', to_node = ''c'', enabled = True, rssi_dbm = - 80, snr_db = 5\<rparr>
     (new_medium relay_scenario []) ()))) \<and> length (md_links (new_medium relay_scenario [])) = 6"
proof
  show "isOk (snd (snd (update_link silent 0 \<lparr>from_node = ''a'', to_node = ''c'', enabled = True, rssi_dbm = - 80, snr_db = 5\<rparr>
     (new_medium relay_scenario []) ())))"
    using link_table_is_complete [OF relay_graph md_reachable.new, where ob = silent and now = 0 and
        l = "\<lparr>from_node = ''a'', to_node = ''c'', enabled = True, rssi_dbm = - 80, snr_db = 5\<rparr>"]
    by (simp add: relay_scenario_def)
  show "length (md_links (new_medium relay_scenario [])) = 6"
    by (simp add: new_medium_def link_map_def relay_scenario_def)
qed

subsection \<open>Every station hears a frame or does not, by its link\<close>

definition heard_packet :: "(pyfloat \<Rightarrow> rat) \<Rightarrow> mesh_packet \<Rightarrow> directed_link \<Rightarrow> mesh_packet" where
  "heard_packet single p l = p\<lparr>p_rx_rssi := rssi_dbm l, p_rx_snr := single (snr_db l)\<rparr>"

lemma scan_links_injections:
  "fst (scan_links ob single now t p correlation port ls s) =
     map (\<lambda>l. \<lparr>in_link = l, in_packet = heard_packet single p l, in_correlation = correlation\<rparr>) (filter enabled ls)"
  by (induction ls arbitrary: s)
    (simp_all add: case_prod_unfold Let_def heard_packet_def)

lemma scan_links_effect:
  "snd (scan_links ob single now t p correlation port ls s) =
     fold (\<lambda>l s. ob_dropped ob t p ''link-disabled'' (snd (ob_publish ob (disabled_event now t p correlation port l) s)))
       (filter (\<lambda>l. \<not> enabled l) ls) s"
  by (induction ls arbitrary: s)
    (simp_all add: case_prod_unfold Let_def)

lemma transmit_injections:
  assumes "transmit pb ob single now t p md s = (s', Inr is)"
  shows "map in_link is = filter enabled (outgoing t md) \<and> (\<forall>i \<in> set is. in_packet i = heard_packet single p (in_link i))"
  using assms by (auto simp: transmit_def Let_def case_prod_unfold scan_links_injections comp_def split: sum.splits)

lemma outgoing_stations:
  assumes "graph_wf sc" and "md_reachable ob sc hw (md, s)" and "t \<in> set (map sn_id (sc_nodes sc))"
  shows "distinct (map to_node (outgoing t md))" and "set (map to_node (outgoing t md)) = set (map sn_id (sc_nodes sc)) - {t}"
    and "\<forall>l \<in> set (outgoing t md). from_node l = t"
proof -
  let ?out = "filter (\<lambda>((source, _), _). source = t) (md_links md)"
  note ok = md_reachable_ok [OF assms(2), unfolded fst_conv]
  have key: "k = (from_node l, to_node l)" if "(k, l) \<in> set (md_links md)" for k l
    using ok that by (auto simp: links_ok_def)
  then have from_t: "from_node l = t" if "(k, l) \<in> set ?out" for k l using that by fastforce
  then show "\<forall>l \<in> set (outgoing t md). from_node l = t" by (auto simp: outgoing_def)
  have to: "map to_node (outgoing t md) = map (snd \<circ> fst) ?out"
    using key by (auto simp: outgoing_def)
  have "distinct (map fst ?out)" using ok by (simp add: links_ok_def distinct_map_filter)
  moreover have "inj_on snd (set (map fst ?out))" by (auto simp: inj_on_def)
  ultimately have "distinct (map snd (map fst ?out))" unfolding distinct_map [of snd] by blast
  then show "distinct (map to_node (outgoing t md))" unfolding to map_map .
  have "set (map (snd \<circ> fst) ?out) = {b. (t, b) \<in> set (dict_keys (md_links md))}" by force
  also have "\<dots> = set (map sn_id (sc_nodes sc)) - {t}"
    using ok graph_pairs [OF assms(1)] assms(3) by auto
  finally show "set (map to_node (outgoing t md)) = set (map sn_id (sc_nodes sc)) - {t}" by (simp only: to)
qed

lemma gather_delivers:
  assumes "gather_injections pb ob now is fleet s = (fleet', s', Inr ())" and "distinct (map (to_node \<circ> in_link) is)"
  shows "(\<forall>n. n \<notin> set (map (to_node \<circ> in_link) is) \<longrightarrow> dict_get fleet' n = dict_get fleet n) \<and>
    (\<forall>i \<in> set is. \<exists>g g' w. dict_get fleet (to_node (in_link i)) = Some g \<and> dict_get fleet' (to_node (in_link i)) = Some g' \<and>
       radio_write pb ''controller.rf'' (TR_packet (in_packet i)) w \<and>
       gw_downstream_writes g' = gw_downstream_writes g @ [w])"
  using assms
proof (induction pb ob now "is" fleet s rule: gather_injections.induct)
  case (2 pb ob now i "is" fleet s)
  let ?r = "to_node (in_link i)"
  obtain fleet1 s1 where one: "inject pb ob now i fleet s = (fleet1, s1, Inr ())"
    and rest: "gather_injections pb ob now is fleet1 s1 = (fleet', s', Inr ())"
    using "2.prems"(1) by (auto simp: case_prod_unfold Let_def split: sum.splits) (metis prod.collapse)
  obtain g g1 u where g: "dict_get fleet ?r = Some g" "send_to_radio pb (TR_packet (in_packet i)) ''controller.rf'' g = (g1, Inr u)"
    "fleet1 = dict_set ?r g1 fleet"
    using one by (auto simp: inject_def Let_def inject_simulated_packet_def split: option.splits prod.splits sum.splits)
  obtain w where w: "radio_write pb ''controller.rf'' (TR_packet (in_packet i)) w"
    "gw_downstream_writes g1 = gw_downstream_writes g @ [w]"
    using radio.sent [OF g(2)] by blast
  have new: "?r \<notin> set (map (to_node \<circ> in_link) is)" "distinct (map (to_node \<circ> in_link) is)" using "2.prems"(2) by (simp_all add: comp_def)
  note IH = "2.IH" [OF refl one [symmetric] refl rest new(2)]
  have other: "dict_get fleet1 n = dict_get fleet n" if "n \<noteq> ?r" for n using that by (simp add: g(3) dict_simps)
  have "dict_get fleet' ?r = Some g1" using IH new(1) g(3) by (simp add: dict_simps)
  moreover have "to_node (in_link j) \<noteq> ?r" if "j \<in> set is" for j
  proof
    assume "to_node (in_link j) = ?r"
    with that have "?r \<in> (to_node \<circ> in_link) ` set is" by (intro image_eqI [where x = j]) simp_all
    with new(1) show False unfolding set_map by blast
  qed
  ultimately show ?case using IH other g(1) w by auto
qed simp

text \<open>
  C7. A frame of the firmware reaches exactly the stations whose link is enabled: when a worker
  forwards the next RF frame of station t without a failure, the other stations are split into those
  with an enabled link from t, whose gateways get exactly one more write, the encoded frame with
  that link's signal values, and those with a disabled link, whose gateways are left as they are.
\<close>

theorem frame_reaches_enabled_links:
  assumes "graph_wf sc" and "md_reachable ob sc hw (md, s)" and "t \<in> set (map sn_id (sc_nodes sc))"
    and "dict_get fleet t = Some gt" and "gw_rf_frames gt = p # ps"
    and "node_loop_turn pb ob single now t md fleet s = (fleet', s', Inr ())"
  shows "dict_get fleet' t = Some (gt\<lparr>gw_rf_frames := ps\<rparr>) \<and>
    (\<forall>n \<in> set (map sn_id (sc_nodes sc)) - {t}. \<exists>l. dict_get (md_links md) (t, n) = Some l \<and>
      (if enabled l
       then \<exists>g g' w. dict_get fleet n = Some g \<and> dict_get fleet' n = Some g' \<and>
          radio_write pb ''controller.rf'' (TR_packet (heard_packet single p l)) w \<and>
          gw_downstream_writes g' = gw_downstream_writes g @ [w]
       else dict_get fleet' n = dict_get fleet n))"
proof -
  let ?f1 = "dict_set t (gt\<lparr>gw_rf_frames := ps\<rparr>) fleet"
  obtain s1 "is" where tr: "transmit pb ob single now t p md s = (s1, Inr is)"
    and ga: "gather_injections pb ob now is ?f1 s1 = (fleet', s', Inr ())"
    using assms(4-6) by (auto simp: node_loop_turn_def Let_def split: prod.splits sum.splits)
  note out = outgoing_stations [OF assms(1-3)] and inj = transmit_injections [OF tr]
  have to: "map (to_node \<circ> in_link) is = map to_node (filter enabled (outgoing t md))"
    using inj by (metis map_map)
  have "distinct (map (to_node \<circ> in_link) is)" using out(1) by (simp add: to distinct_map_filter)
  note del = gather_delivers [OF ga this, unfolded to]
  have dkeys: "dict_wf (md_links md)" "\<forall>(k, l) \<in> set (md_links md). k = (from_node l, to_node l)"
    using md_reachable_ok [OF assms(2)] by (simp_all add: links_ok_def)
  have self: "dict_get fleet' t = Some (gt\<lparr>gw_rf_frames := ps\<rparr>)"
  proof -
    have "t \<notin> set (map to_node (filter enabled (outgoing t md)))" using out(2) by auto
    with del show ?thesis by (simp add: dict_simps del: set_map)
  qed
  have "\<exists>l. dict_get (md_links md) (t, n) = Some l \<and>
      (if enabled l
       then \<exists>g g' w. dict_get fleet n = Some g \<and> dict_get fleet' n = Some g' \<and>
          radio_write pb ''controller.rf'' (TR_packet (heard_packet single p l)) w \<and>
          gw_downstream_writes g' = gw_downstream_writes g @ [w]
       else dict_get fleet' n = dict_get fleet n)" if n: "n \<in> set (map sn_id (sc_nodes sc)) - {t}" for n
  proof -
    obtain l where l: "l \<in> set (outgoing t md)" "to_node l = n" using n out(2) by (metis (no_types, lifting) imageE set_map)
    then have "((t, n), l) \<in> set (md_links md)" using out(3) dkeys(2) by (fastforce simp: outgoing_def)
    then have get: "dict_get (md_links md) (t, n) = Some l" using dkeys(1) by simp
    show ?thesis
    proof (cases "enabled l")
      case True
      with l inj have "l \<in> set (map in_link is)" by simp
      then obtain i where i: "i \<in> set is" "in_link i = l" by auto
      with del l(2) inj obtain g g' w where "dict_get ?f1 n = Some g" "dict_get fleet' n = Some g'"
        "radio_write pb ''controller.rf'' (TR_packet (heard_packet single p l)) w"
        "gw_downstream_writes g' = gw_downstream_writes g @ [w]" by metis
      with get True n show ?thesis by (auto simp: dict_simps)
    next
      case False
      have "n \<notin> set (map to_node (filter enabled (outgoing t md)))"
        using out(1) l False by (auto simp: distinct_map inj_on_def)
      with del n get False show ?thesis by (auto simp: dict_simps)
    qed
  qed
  with self show ?thesis by blast
qed

definition relay_fleet :: fleet where
  "relay_fleet = [(''a'', (lab_gateway 2)\<lparr>gw_rf_frames := [empty_packet]\<rparr>), (''b'', lab_gateway 2), (''c'', lab_gateway 2)]"

lemma frame_reaches_enabled_links_witness:
  "\<exists>fleet'. fst (node_loop_turn null_codec silent id 0 ''a'' (new_medium relay_scenario []) relay_fleet ()) = fleet' \<and>
     dict_get fleet' ''c'' = dict_get relay_fleet ''c'' \<and>
     (\<exists>g. dict_get fleet' ''b'' = Some g \<and> map w_source (gw_downstream_writes g) = [''controller.rf''])"
proof -
  let ?md = "new_medium relay_scenario []" and ?ab = "\<lparr>from_node = ''a'', to_node = ''b'', enabled = True, rssi_dbm = - 85, snr_db = 8\<rparr>"
    and ?ga = "(lab_gateway 2)\<lparr>gw_rf_frames := [empty_packet]\<rparr>"
  have g: "gw_state (lab_gateway 2) = GW_RUNNING" "gw_downstream_writes (lab_gateway 2) = []" "gw_queue_size (lab_gateway 2) = 2"
    by (simp_all add: lab_gateway_def lab_gateway_simps)
  have links: "md_links ?md = map (\<lambda>l. ((from_node l, to_node l), l)) (sc_links relay_scenario)"
    by (simp add: new_medium_def link_map_def relay_scenario_def)
  obtain airtime where air: "airtime_ms 16 ''LONG_FAST'' = Inr airtime"
  proof -
    have "isOk (airtime_ms 16 ''LONG_FAST'')" by (simp add: isOk_airtime MODEM_PARAMETERS_def)
    then show thesis using that by (auto simp: isOk_iff)
  qed
  have preset: "rf_modem_preset (sc_rf (md_scenario ?md)) = ''LONG_FAST''"
    by (simp add: new_medium_def relay_scenario_def default_rf_def)
  have len: "mesh_packet_payload_length null_codec empty_packet = Inr 16"
    by (simp add: mesh_packet_payload_length_def empty_packet_def MESH_PACKET_HEADER_BYTES_def)
  have out: "filter enabled (outgoing ''a'' ?md) = [?ab]"
    unfolding outgoing_def links by (simp add: relay_scenario_def)
  have silent: "ob_transmitted silent t p k u = (u, Inr None)" "ob_publish silent e u = (e, u)" for t p k u e
    by (simp_all add: silent_def)
  have tr: "transmit null_codec silent id 0 ''a'' empty_packet ?md () = ((), Inr [\<lparr>in_link = ?ab,
      in_packet = heard_packet id empty_packet ?ab, in_correlation = None\<rparr>])"
    by (simp add: transmit_def len preset air silent Let_def case_prod_unfold scan_links_injections out)
  have codec: "serialize_to_radio null_codec m = []" for m by (simp add: null_codec_def)
  obtain fleet' where turn: "node_loop_turn null_codec silent id 0 ''a'' ?md relay_fleet () = (fleet', (), Inr ())"
    by (simp add: node_loop_turn_def relay_fleet_def tr inject_def inject_simulated_packet_def send_to_radio_def g codec
        encode_frame_def queue_full_def silent Let_def)
  have a: "''a'' \<in> set (map sn_id (sc_nodes relay_scenario))" by (simp add: relay_scenario_def)
  have ga: "dict_get relay_fleet ''a'' = Some ?ga" "gw_rf_frames ?ga = [empty_packet]" by (simp_all add: relay_fleet_def)
  note reached = frame_reaches_enabled_links [OF relay_graph md_reachable.new a ga turn]
  have b: "dict_get (md_links ?md) (''a'', ''b'') = Some \<lparr>from_node = ''a'', to_node = ''b'', enabled = True, rssi_dbm = - 85, snr_db = 8\<rparr>"
    and c: "dict_get (md_links ?md) (''a'', ''c'') = Some \<lparr>from_node = ''a'', to_node = ''c'', enabled = False, rssi_dbm = - 85, snr_db = 8\<rparr>"
    unfolding links by (simp_all add: relay_scenario_def)
  have mem: "''b'' \<in> set (map sn_id (sc_nodes relay_scenario)) - {''a''}" "''c'' \<in> set (map sn_id (sc_nodes relay_scenario)) - {''a''}"
    by (simp_all add: relay_scenario_def)
  note each = bspec [OF reached [THEN conjunct2]]
  have "dict_get fleet' ''c'' = dict_get relay_fleet ''c''" using each [OF mem(2)] unfolding c by simp
  moreover obtain gb gb' w where "dict_get relay_fleet ''b'' = Some gb" "dict_get fleet' ''b'' = Some gb'"
    "w_source w = ''controller.rf''" "gw_downstream_writes gb' = gw_downstream_writes gb @ [w]"
    using each [OF mem(1)] unfolding b by (auto simp: radio_write_def)
  moreover from this(1) have "gb = lab_gateway 2" by (simp add: relay_fleet_def)
  ultimately show ?thesis using g by (simp add: turn)
qed

end
