(* ===== verification/Traffic_Request.thy ===== *)
theory Traffic_Request
  imports Scenario "HOL-Library.Char_ord" "HOL-Library.List_Lexorder" "HOL-Library.Product_Lexorder"
begin

text \<open>
  What a traffic run is asked to do: the request models of
  \<^verbatim>\<open>src/backend/app/traffic/controller.py\<close>, their validation, the number of messages per
  source, the source offsets, the destination policies and the schedule that the run's loop works
  through. \<^verbatim>\<open>random.Random\<close> is a parameter: its state has a type variable and its methods are
  the fields of a record; SHA-256 is a function from the flow name to the first eight digest
  bytes. Decimal arithmetic is modelled: the shortest decimal that rounds to a float, and
  rounding to 28 significant digits.
\<close>

subsection \<open>Constants\<close>

definition PACKET_ID_RNG_SALT :: int where "PACKET_ID_RNG_SALT = 0x4D4C5F5041434B4554"
definition SOURCE_TIMING_RNG_SALT :: int where "SOURCE_TIMING_RNG_SALT = 0x4D4C5F534F55524345"
definition FLOW_DESTINATION_RNG_SALT :: int where "FLOW_DESTINATION_RNG_SALT = 0x4D4C5F464C4F575F"

subsection \<open>Random generators\<close>

record 'r rng =
  rng_seed :: "int \<Rightarrow> 'r"
  rng_random :: "'r \<Rightarrow> pyfloat \<times> 'r"
  rng_randrange :: "'r \<Rightarrow> int \<Rightarrow> int \<Rightarrow> int \<times> 'r"
  rng_choice_index :: "'r \<Rightarrow> nat \<Rightarrow> nat \<times> 'r"

text \<open>What the library documents: results lie in the requested range.\<close>

definition rng_ok :: "'r rng \<Rightarrow> bool" where
  "rng_ok g \<longleftrightarrow>
     (\<forall>s. 0 \<le> fst (rng_random g s) \<and> fst (rng_random g s) < 1) \<and>
     (\<forall>s lo hi. lo < hi \<longrightarrow> lo \<le> fst (rng_randrange g s lo hi) \<and> fst (rng_randrange g s lo hi) < hi) \<and>
     (\<forall>s n. 0 < n \<longrightarrow> fst (rng_choice_index g s n) < n)"

subsection \<open>Requests\<close>

datatype traffic_kind = BROADCAST_TEXT | DIRECT_TEXT
datatype destination_strategy = FIXED | ROUND_ROBIN | DETERMINISTIC_RANDOM
datatype source_timing = ALIGNED | EVENLY_STAGGERED | DETERMINISTIC_JITTER

record traffic_flow =
  f_name :: string
  f_source_nodes :: "string list"
  f_destination_strategy :: destination_strategy
  f_fixed_destination :: "string option"
  f_messages_per_minute :: pyfloat
  f_source_timing :: source_timing

record traffic_request =
  q_kind :: traffic_kind
  q_source_nodes :: "string list"
  q_destination_strategy :: destination_strategy
  q_fixed_destination :: "string option"
  q_messages_per_minute :: pyfloat
  q_payload_bytes :: int
  q_duration_seconds :: pyfloat
  q_acknowledgment_requested :: bool
  q_source_timing :: source_timing
  q_flows :: "traffic_flow list"
  q_seed :: int

definition check_flow :: "traffic_flow \<Rightarrow> traffic_flow result" where
  "check_flow f =
     (if \<not> node_id_ok (f_name f) then Inl (ValueError ''name'')
      else if \<not> in_range 1 10 (int (length (f_source_nodes f))) then Inl (ValueError ''sourceNodes'')
      else if f_messages_per_minute f \<le> 0 \<or> 600 < f_messages_per_minute f
      then Inl (ValueError ''messagesPerMinute'')
      else Inr f)"

text \<open>\<^verbatim>\<open>source_rates\<close>: the combined rate of every source over all flows.\<close>

fun add_rates :: "string list \<Rightarrow> pyfloat \<Rightarrow> (string, pyfloat) dict \<Rightarrow> (string, pyfloat) dict" where
  "add_rates [] rate d = d"
| "add_rates (s # ss) rate d = add_rates ss rate (dict_set s (fadd (dict_get_default d s 0) rate) d)"

fun source_rates :: "traffic_flow list \<Rightarrow> (string, pyfloat) dict \<Rightarrow> (string, pyfloat) dict" where
  "source_rates [] d = d"
| "source_rates (f # fs) d = source_rates fs (add_rates (f_source_nodes f) (f_messages_per_minute f) d)"

definition missing_destinations :: "traffic_request \<Rightarrow> string list" where
  "missing_destinations q =
     map fst (filter (\<lambda>(name, strategy, destination). strategy = FIXED \<and> destination = None)
       (if q_flows q \<noteq> []
        then map (\<lambda>f. (f_name f, f_destination_strategy f, f_fixed_destination f)) (q_flows q)
        else [(''default'', q_destination_strategy q, q_fixed_destination q)]))"

definition validate_request :: "traffic_request \<Rightarrow> traffic_request result" where
  "validate_request q =
     (if q_flows q \<noteq> [] \<and> q_source_nodes q \<noteq> []
      then Inl (ValueError ''use either flows or sourceNodes, not both'')
      else if q_flows q = [] \<and> q_source_nodes q = []
      then Inl (ValueError ''at least one traffic source or flow is required'')
      else if card (f_name ` set (q_flows q)) \<noteq> length (q_flows q)
      then Inl (ValueError ''traffic flow names must be unique'')
      else let overloaded = sort (map fst (filter (\<lambda>(s, rate). 600 < rate) (source_rates (q_flows q) [])))
      in if overloaded \<noteq> []
      then Inl (ValueError (''combined traffic flow rate exceeds 600 messages per minute for source: '' @ hd overloaded))
      else if q_kind q = DIRECT_TEXT \<and> missing_destinations q \<noteq> []
      then Inl (ValueError (''fixedDestination is required for fixed direct traffic flow: '' @ hd (missing_destinations q)))
      else Inr q)"

definition check_request :: "traffic_request \<Rightarrow> traffic_request result" where
  "check_request q =
     (if 10 < length (q_source_nodes q) then Inl (ValueError ''sourceNodes'')
      else if q_messages_per_minute q \<le> 0 \<or> 600 < q_messages_per_minute q
      then Inl (ValueError ''messagesPerMinute'')
      else if \<not> in_range 16 233 (q_payload_bytes q) then Inl (ValueError ''payloadBytes'')
      else if q_duration_seconds q \<le> 0 \<or> 3600 < q_duration_seconds q then Inl (ValueError ''durationSeconds'')
      else if 10 < length (q_flows q) then Inl (ValueError ''flows'')
      else bind_result (traverse_result check_flow (q_flows q)) (\<lambda>_. validate_request q))"

definition default_flow :: "traffic_request \<Rightarrow> traffic_flow" where
  "default_flow q = \<lparr>f_name = ''default'', f_source_nodes = q_source_nodes q,
     f_destination_strategy = q_destination_strategy q, f_fixed_destination = q_fixed_destination q,
     f_messages_per_minute = q_messages_per_minute q, f_source_timing = q_source_timing q\<rparr>"

text \<open>Building the default flow runs its field constraints on values that the request has
  already validated with the same bounds (\<open>scheduling_flows_valid\<close>), so it cannot raise.\<close>

definition scheduling_flows :: "traffic_request \<Rightarrow> traffic_flow list" where
  "scheduling_flows q = (if q_flows q \<noteq> [] then q_flows q else [default_flow q])"

definition validate_flow_nodes :: "traffic_kind \<Rightarrow> string list \<Rightarrow> traffic_flow \<Rightarrow> unit result" where
  "validate_flow_nodes kind known f =
     (let unknown_sources = set (f_source_nodes f) - set known
      in if unknown_sources \<noteq> {}
      then Inl (ValueError (''unknown traffic sources in flow '' @ f_name f))
      else if card (set (f_source_nodes f)) \<noteq> length (f_source_nodes f)
      then Inl (ValueError (''traffic source nodes in flow '' @ f_name f @ '' must be unique''))
      else if kind = DIRECT_TEXT \<and> f_destination_strategy f = FIXED
      then (case f_fixed_destination f of
              None \<Rightarrow> Inr ()
            | Some d \<Rightarrow>
                if d \<notin> set known
                then Inl (ValueError (''unknown fixed destination in flow '' @ f_name f @ '': '' @ d))
                else if d \<in> set (f_source_nodes f)
                then Inl (ValueError (''direct traffic destination cannot be one of its source nodes in flow '' @ f_name f))
                else Inr ())
      else Inr ())"

definition validate_request_nodes :: "traffic_request \<Rightarrow> scenario \<Rightarrow> unit result" where
  "validate_request_nodes q sc =
     bind_result (traverse_result (validate_flow_nodes (q_kind q) (map sn_id (sc_nodes sc))) (scheduling_flows q))
       (\<lambda>_. Inr ())"

subsection \<open>Decimal arithmetic\<close>

text \<open>The decimal exponent of a positive number, by counting digits.\<close>

definition ilog10 :: "rat \<Rightarrow> int" where
  "ilog10 x = (if 1 \<le> x then int (floorlog 10 (nat \<lfloor>x\<rfloor>)) - 1
     else - int (floorlog 10 (nat (\<lceil>1 / x\<rceil> - 1))))"

lemma digits_bounds:
  assumes "0 < n"
  shows "(10 :: rat) ^ (floorlog 10 n - 1) \<le> of_nat n" and "of_nat n + 1 \<le> (10 :: rat) ^ floorlog 10 n"
    and "0 < floorlog 10 n"
proof -
  have b: "10 ^ (floorlog 10 n - 1) \<le> n" "n + 1 \<le> 10 ^ floorlog 10 n"
    using floorlog_bounds [of n 10] assms by (simp_all add: Suc_le_eq)
  then have "(of_nat (10 ^ (floorlog 10 n - 1)) :: rat) \<le> of_nat n" "(of_nat (n + 1) :: rat) \<le> of_nat (10 ^ floorlog 10 n)"
    by (simp_all only: of_nat_le_iff)
  then show "(10 :: rat) ^ (floorlog 10 n - 1) \<le> of_nat n" "of_nat n + 1 \<le> (10 :: rat) ^ floorlog 10 n"
    by simp_all
  show "0 < floorlog 10 n" using assms by (simp add: floorlog_def)
qed

lemma ilog10_bounds:
  assumes "0 < x"
  shows "10 powi (ilog10 x) \<le> x" and "x < 10 powi (ilog10 x + 1)"
proof -
  have "10 powi (ilog10 x) \<le> x \<and> x < 10 powi (ilog10 x + 1)"
  proof (cases "1 \<le> x")
    case True
    define n where "n = nat \<lfloor>x\<rfloor>"
    have n: "0 < n" "of_nat n \<le> x" "x < of_nat n + 1"
      using True by (auto simp: n_def of_nat_nat zero_less_nat_eq le_floor_iff) linarith
    obtain d where d: "floorlog 10 n = Suc d" using digits_bounds(3) [OF n(1)] by (cases "floorlog 10 n") auto
    then have "10 ^ d \<le> x" using order.trans [OF digits_bounds(1) [OF n(1)] n(2)] by simp
    have "x < 10 ^ Suc d" using less_le_trans [OF n(3) digits_bounds(2) [OF n(1)]] d by simp
    with \<open>10 ^ d \<le> x\<close> show ?thesis using True d by (simp add: ilog10_def flip: n_def) (simp add: power_int_add)
  next
    case False
    then have y: "1 < 1 / x" using assms by simp
    define m where "m = nat (\<lceil>1 / x\<rceil> - 1)"
    have m: "0 < m" "of_nat m < 1 / x" "1 / x \<le> of_nat m + 1"
      using y by (auto simp: m_def of_nat_nat less_ceiling_iff) linarith+
    obtain d where d: "floorlog 10 m = Suc d" using digits_bounds(3) [OF m(1)] by (cases "floorlog 10 m") auto
    then have "10 ^ d < 1 / x" using le_less_trans [OF digits_bounds(1) [OF m(1)] m(2)] by simp
    moreover have "1 / x \<le> 10 ^ Suc d" using order.trans [OF m(3) digits_bounds(2) [OF m(1)]] d by simp
    ultimately have "x < 1 / 10 ^ d" "1 / 10 ^ Suc d \<le> x" using assms by (simp_all add: field_simps)
    then show ?thesis using False d by (simp add: ilog10_def power_int_minus power_int_diff field_simps flip: m_def)
  qed
  then show "10 powi (ilog10 x) \<le> x" and "x < 10 powi (ilog10 x + 1)" by simp_all
qed

text \<open>
  \<^verbatim>\<open>str(x)\<close> writes the shortest decimal that rounds to the float \<open>x\<close>, the nearest one
  among those: with \<open>n\<close> digits only the neighbours of \<open>x\<close> on the decimal grid can do it.
\<close>

definition repr_candidates :: "rat \<Rightarrow> nat \<Rightarrow> rat list" where
  "repr_candidates x n =
     (let q = 10 powi (ilog10 x - int n + 1)
      in filter (\<lambda>d. fl d = x) [of_int \<lfloor>x / q\<rfloor> * q, of_int \<lceil>x / q\<rceil> * q])"

fun shortest_decimal :: "rat \<Rightarrow> nat list \<Rightarrow> rat" where
  "shortest_decimal x [] = x"
| "shortest_decimal x (n # ns) =
     (case repr_candidates x n of
        [] \<Rightarrow> shortest_decimal x ns
      | d # ds \<Rightarrow> if ds \<noteq> [] \<and> \<bar>hd ds - x\<bar> < \<bar>d - x\<bar> then hd ds else d)"

definition decimal_of_float :: "pyfloat \<Rightarrow> rat" where
  "decimal_of_float x = (if x = 0 then 0 else shortest_decimal x [1 ..< 18])"

text \<open>The default context: 28 digits, half even.\<close>

definition decimal_round :: "rat \<Rightarrow> rat" where
  "decimal_round x =
     (if x = 0 then 0
      else let q = 10 powi (ilog10 \<bar>x\<bar> - 27)
           in (if x < 0 then - 1 else 1) * of_int (round_half_even (\<bar>x\<bar> / q)) * q)"

definition messages_per_source :: "pyfloat \<Rightarrow> pyfloat \<Rightarrow> int" where
  "messages_per_source duration_seconds messages_per_minute =
     (let offered = decimal_round (decimal_round
            (decimal_of_float duration_seconds * decimal_of_float messages_per_minute) / 60)
      in max 1 \<lceil>offered\<rceil>)"

definition messages_per_flow :: "traffic_request \<Rightarrow> traffic_flow \<Rightarrow> int" where
  "messages_per_flow q f = messages_per_source (q_duration_seconds q) (f_messages_per_minute f)"

definition maximum_sequence :: "traffic_request \<Rightarrow> int" where
  "maximum_sequence q =
     sum_list (map (\<lambda>f. int (length (f_source_nodes f)) * messages_per_flow q f) (scheduling_flows q))"

subsection \<open>Source offsets\<close>

fun random_offsets :: "'r rng \<Rightarrow> pyfloat \<Rightarrow> string list \<Rightarrow> 'r \<Rightarrow> (string \<times> pyfloat) list" where
  "random_offsets g interval [] s = []"
| "random_offsets g interval (n # ns) s =
     (let (x, s') = rng_random g s in (n, fmul x interval) # random_offsets g interval ns s')"

definition source_offsets_for :: "'r rng \<Rightarrow> string list \<Rightarrow> source_timing \<Rightarrow> pyfloat \<Rightarrow> int \<Rightarrow>
    (string, pyfloat) dict" where
  "source_offsets_for g source_nodes timing interval seed =
     (case timing of
        ALIGNED \<Rightarrow> dict_of (map (\<lambda>s. (s, 0)) source_nodes) []
      | EVENLY_STAGGERED \<Rightarrow>
          dict_of (map (\<lambda>(index, s). (s, fdiv (fmul (float_of_int (int index)) interval)
            (float_of_int (int (length source_nodes))))) (enumerate 0 source_nodes)) []
      | DETERMINISTIC_JITTER \<Rightarrow> dict_of (random_offsets g interval source_nodes (rng_seed g seed)) [])"

definition flow_source_offsets :: "'r rng \<Rightarrow> traffic_flow \<Rightarrow> pyfloat \<Rightarrow> int \<Rightarrow> (string, pyfloat) dict" where
  "flow_source_offsets g f interval seed =
     source_offsets_for g (f_source_nodes f) (f_source_timing f) interval seed"

definition flow_seed :: "(string \<Rightarrow> int) \<Rightarrow> int \<Rightarrow> string \<Rightarrow> int \<Rightarrow> int" where
  "flow_seed sha256_8 run_seed flow_name salt =
     Bit_Operations.xor (Bit_Operations.xor run_seed salt) (sha256_8 flow_name)"

subsection \<open>Destinations\<close>

definition candidates :: "scenario \<Rightarrow> string \<Rightarrow> string list" where
  "candidates sc source = filter (\<lambda>i. i \<noteq> source) (map sn_id (sc_nodes sc))"

text \<open>The result carries the generator's state and the round-robin counters back.\<close>

definition choose_destination :: "'r rng \<Rightarrow> scenario \<Rightarrow> traffic_kind \<Rightarrow> destination_strategy \<Rightarrow>
    string option \<Rightarrow> string \<Rightarrow> 'r \<Rightarrow> (string, nat) dict \<Rightarrow> (string \<times> 'r \<times> (string, nat) dict) result" where
  "choose_destination g sc kind strategy fixed source s round_robin =
     (if kind = BROADCAST_TEXT then Inr (''broadcast'', s, round_robin)
      else case strategy of
        FIXED \<Rightarrow>
          (case fixed of
             None \<Rightarrow> Inl (RuntimeError ''fixed destination was not validated'')
           | Some d \<Rightarrow> Inr (d, s, round_robin))
      | ROUND_ROBIN \<Rightarrow>
          (case dict_get round_robin source of
             None \<Rightarrow> Inl (KeyError source)
           | Some index \<Rightarrow>
               if candidates sc source = [] then Inl ZeroDivisionError
               else Inr (candidates sc source ! (index mod length (candidates sc source)), s,
                         dict_set source (index + 1) round_robin))
      | DETERMINISTIC_RANDOM \<Rightarrow>
          if candidates sc source = [] then Inl IndexError
          else let (i, s') = rng_choice_index g s (length (candidates sc source))
               in Inr (candidates sc source ! i, s', round_robin))"

text \<open>A generator that always returns the least value, for examples.\<close>

definition zero_rng :: "unit rng" where
  "zero_rng = \<lparr>rng_seed = (\<lambda>_. ()), rng_random = (\<lambda>s. (0, s)), rng_randrange = (\<lambda>s lo hi. (lo, s)),
     rng_choice_index = (\<lambda>s n. (0, s))\<rparr>"

lemma zero_rng_ok: "rng_ok zero_rng"
  by (simp add: rng_ok_def zero_rng_def)

end
