(* ===== verification/Traffic_Schedule.thy ===== *)
theory Traffic_Schedule
  imports Traffic_Request
begin

text \<open>
  The schedule of a traffic run: the \<^verbatim>\<open>while next_tick\<close> loop of
  \<^verbatim>\<open>TrafficController._run\<close> without its effects. The next message is the one with the
  smallest offset plus tick times interval, in double precision, ties broken by flow and source
  position. The loop is a partial function; the theorems show that it returns, that it is
  sorted, and that it contains every tick of every source of every flow exactly once.
\<close>

type_synonym sched_key = "nat \<times> string"

record run_plan =
  pl_flows :: "traffic_flow list"
  pl_intervals :: "pyfloat list"
  pl_counts :: "int list"
  pl_offsets :: "(string, pyfloat) dict list"

definition make_plan :: "'r rng \<Rightarrow> (string \<Rightarrow> int) \<Rightarrow> traffic_request \<Rightarrow> run_plan" where
  "make_plan g sha256_8 q =
     (let flows = scheduling_flows q;
          intervals = map (\<lambda>f. fdiv 60 (f_messages_per_minute f)) flows
      in \<lparr>pl_flows = flows, pl_intervals = intervals, pl_counts = map (messages_per_flow q) flows,
          pl_offsets = map (\<lambda>(f, interval). flow_source_offsets g f interval
            (flow_seed sha256_8 (q_seed q) (f_name f) SOURCE_TIMING_RNG_SALT)) (zip flows intervals)\<rparr>)"

text \<open>\<^verbatim>\<open>schedule_order\<close>: keys in the order of flows and their sources, with that position.\<close>

definition schedule_order :: "traffic_flow list \<Rightarrow> (sched_key, nat \<times> nat) dict" where
  "schedule_order flows =
     dict_of [((flow_index, source), (flow_index, source_index)).
       (flow_index, f) \<leftarrow> enumerate 0 flows, (source_index, source) \<leftarrow> enumerate 0 (f_source_nodes f)] []"

definition initial_ticks :: "traffic_flow list \<Rightarrow> (sched_key, nat) dict" where
  "initial_ticks flows = map (\<lambda>(k, _). (k, 0)) (schedule_order flows)"

definition initial_round_robin :: "traffic_flow list \<Rightarrow> (string, nat) dict list" where
  "initial_round_robin flows = map (\<lambda>f. dict_of (map (\<lambda>s. (s, 0)) (f_source_nodes f)) []) flows"

definition due_time :: "run_plan \<Rightarrow> sched_key \<Rightarrow> nat \<Rightarrow> pyfloat" where
  "due_time pl k tick =
     fadd (dict_get_default (pl_offsets pl ! fst k) (snd k) 0)
       (fmul (float_of_int (int tick)) (pl_intervals pl ! fst k))"

definition due_key :: "run_plan \<Rightarrow> sched_key \<Rightarrow> nat \<Rightarrow> pyfloat \<times> nat \<times> nat" where
  "due_key pl k tick =
     (due_time pl k tick, dict_get_default (schedule_order (pl_flows pl)) k (0, 0))"

text \<open>Python's \<^verbatim>\<open>min(_, key=_)\<close> on a non-empty sequence: the first least element.\<close>

fun py_min :: "('a \<Rightarrow> 'b :: linorder) \<Rightarrow> 'a \<Rightarrow> 'a list \<Rightarrow> 'a" where
  "py_min key best [] = best"
| "py_min key best (x # xs) = py_min key (if key x < key best then x else best) xs"

definition next_due :: "run_plan \<Rightarrow> (sched_key, nat) dict \<Rightarrow> sched_key \<times> nat" where
  "next_due pl next_tick = py_min (\<lambda>(k, tick). due_key pl k tick) (hd next_tick) (tl next_tick)"

definition advance :: "run_plan \<Rightarrow> sched_key \<Rightarrow> nat \<Rightarrow> (sched_key, nat) dict \<Rightarrow> (sched_key, nat) dict" where
  "advance pl k tick next_tick =
     (if int tick + 1 = pl_counts pl ! fst k then dict_pop k next_tick
      else dict_set k (tick + 1) next_tick)"

partial_function (option) schedule :: "run_plan \<Rightarrow> (sched_key, nat) dict \<Rightarrow> (sched_key \<times> nat) list option" where
  "schedule pl next_tick =
     (if next_tick = [] then Some []
      else case next_due pl next_tick of (k, tick) \<Rightarrow>
        Option.bind (schedule pl (advance pl k tick next_tick)) (\<lambda>rest. Some ((k, tick) # rest)))"

declare schedule.simps [code]

subsection \<open>The least element\<close>

lemma py_min_in: "py_min key best xs \<in> insert best (set xs)"
  by (induction key best xs rule: py_min.induct) auto

lemma py_min_le: "y \<in> insert best (set xs) \<Longrightarrow> key (py_min key best xs) \<le> key y"
proof (induction key best xs arbitrary: y rule: py_min.induct)
  case (2 key best x xs)
  have "key (py_min key (if key x < key best then x else best) xs) \<le> key (if key x < key best then x else best)"
    by (rule 2) simp
  then have "key (py_min key (if key x < key best then x else best) xs) \<le> key x"
    "key (py_min key (if key x < key best then x else best) xs) \<le> key best"
    by (auto split: if_splits)
  then show ?case using 2 by auto
qed simp

lemma next_due_in: "nt \<noteq> [] \<Longrightarrow> next_due pl nt \<in> set nt"
  unfolding next_due_def using py_min_in [of _ "hd nt" "tl nt"] by (cases nt) auto

lemma next_due_le:
  assumes "nt \<noteq> []" and "(k, t) \<in> set nt" and "next_due pl nt = (k0, t0)"
  shows "due_key pl k0 t0 \<le> due_key pl k t"
proof -
  have "(k, t) \<in> insert (hd nt) (set (tl nt))" using assms(1,2) by (cases nt) auto
  then show ?thesis
    using py_min_le [of "(k, t)" "hd nt" "tl nt" "\<lambda>(k, tick). due_key pl k tick"] assms(3)
    by (simp add: next_due_def)
qed

subsection \<open>Progress\<close>

definition ticks_left :: "run_plan \<Rightarrow> (sched_key, nat) dict \<Rightarrow> nat" where
  "ticks_left pl nt = (\<Sum>(k, t) \<leftarrow> nt. nat (pl_counts pl ! fst k) - t)"

definition ticks_ok :: "run_plan \<Rightarrow> (sched_key, nat) dict \<Rightarrow> bool" where
  "ticks_ok pl nt \<longleftrightarrow> dict_wf nt \<and> (\<forall>(k, t) \<in> set nt. int t < pl_counts pl ! fst k \<and> 0 \<le> pl_intervals pl ! fst k)"

lemma ticks_left_pop:
  "dict_wf nt \<Longrightarrow> (k, t) \<in> set nt \<Longrightarrow>
   ticks_left pl nt = ticks_left pl (dict_pop k nt) + (nat (pl_counts pl ! fst k) - t)"
proof (induction nt)
  case (Cons e nt)
  have "dict_pop k nt = nt" if "k \<notin> fst ` set nt"
    using that by (induction nt) auto
  then show ?case using Cons by (cases e) (auto simp: ticks_left_def image_iff)
qed simp

lemma ticks_left_set:
  "dict_wf nt \<Longrightarrow> (k, t) \<in> set nt \<Longrightarrow>
   ticks_left pl nt + (nat (pl_counts pl ! fst k) - t') = ticks_left pl (dict_set k t' nt) + (nat (pl_counts pl ! fst k) - t)"
  by (induction nt) (force simp: ticks_left_def)+

lemma advance_ok:
  assumes "ticks_ok pl nt" and "(k, t) \<in> set nt"
  shows "ticks_ok pl (advance pl k t nt)" and "ticks_left pl nt = Suc (ticks_left pl (advance pl k t nt))"
    and "dict_get (advance pl k t nt) = (dict_get nt)(k := (if int t + 1 = pl_counts pl ! fst k then None else Some (t + 1)))"
proof -
  have wf: "dict_wf nt" and c: "int t < pl_counts pl ! fst k" "0 \<le> pl_intervals pl ! fst k"
    using assms by (auto simp: ticks_ok_def)
  show "ticks_ok pl (advance pl k t nt)"
    using assms(1) c unfolding ticks_ok_def advance_def
    by (auto dest!: subsetD [OF set_dict_set] subsetD [OF set_dict_pop])
  show "ticks_left pl nt = Suc (ticks_left pl (advance pl k t nt))"
    using ticks_left_pop [OF wf assms(2), of pl] ticks_left_set [OF wf assms(2), of pl "t + 1"] c
    by (auto simp: advance_def)
  show "dict_get (advance pl k t nt) = (dict_get nt)(k := (if int t + 1 = pl_counts pl ! fst k then None else Some (t + 1)))"
    by (auto simp: advance_def dict_simps fun_upd_def fun_eq_iff)
qed

lemma due_key_mono: "0 \<le> pl_intervals pl ! fst k \<Longrightarrow> t \<le> t' \<Longrightarrow> due_key pl k t \<le> due_key pl k t'"
  unfolding due_key_def due_time_def fadd_def fmul_def float_of_int_def less_eq_prod_simp
  by (auto simp: le_less [symmetric] intro!: fl_mono add_left_mono mult_right_mono)

definition ticks_of :: "sched_key \<Rightarrow> (sched_key \<times> nat) list \<Rightarrow> nat list" where
  "ticks_of k S = map snd (filter (\<lambda>e. fst e = k) S)"

lemma schedule_runs:
  assumes "ticks_ok pl nt"
  shows "\<exists>S. schedule pl nt = Some S \<and> length S = ticks_left pl nt \<and>
    sorted (map (\<lambda>(k, t). due_key pl k t) S) \<and>
    (\<forall>k. ticks_of k S = (case dict_get nt k of None \<Rightarrow> [] | Some t \<Rightarrow> [t ..< nat (pl_counts pl ! fst k)]))"
  using assms
proof (induction "ticks_left pl nt" arbitrary: nt)
  case 0
  have "nt = []"
  proof (cases nt)
    case (Cons e nt')
    then have "ticks_left pl nt = Suc (ticks_left pl (advance pl (fst e) (snd e) nt))"
      using 0 by (intro advance_ok) auto
    then show ?thesis using 0 by simp
  qed
  then show ?case by (simp add: schedule.simps ticks_of_def ticks_left_def)
next
  case (Suc n)
  then have ne: "nt \<noteq> []" by (auto simp: ticks_left_def)
  obtain k t where kt: "next_due pl nt = (k, t)" by (cases "next_due pl nt")
  then have mem: "(k, t) \<in> set nt" using next_due_in [OF ne, of pl] by simp
  note adv = advance_ok [OF Suc.prems mem]
  let ?nt = "advance pl k t nt"
  have "n = ticks_left pl ?nt" using adv(2) Suc.hyps(2) by simp
  from Suc.hyps(1) [OF this adv(1)] obtain S where S: "schedule pl ?nt = Some S"
    "length S = ticks_left pl ?nt" "sorted (map (\<lambda>(k, t). due_key pl k t) S)"
    "\<And>k. ticks_of k S = (case dict_get ?nt k of None \<Rightarrow> [] | Some t \<Rightarrow> [t ..< nat (pl_counts pl ! fst k)])"
    by blast
  have get: "dict_get nt k = Some t" using mem Suc.prems by (simp add: ticks_ok_def)
  have bound: "int t < pl_counts pl ! fst k" "0 \<le> pl_intervals pl ! fst k"
    using Suc.prems mem by (auto simp: ticks_ok_def)
  have "due_key pl k t \<le> due_key pl k' t'" if "(k', t') \<in> set S" for k' t'
  proof -
    from that have "t' \<in> set (ticks_of k' S)" by (force simp: ticks_of_def)
    with S(4) [of k'] obtain u where u: "dict_get ?nt k' = Some u" "u \<le> t'"
      by (cases "dict_get ?nt k'") auto
    show ?thesis
    proof (cases "k' = k")
      case True
      then have "t \<le> t'" using u adv(3) by (auto split: if_splits)
      then show ?thesis using True due_key_mono [OF bound(2)] by simp
    next
      case False
      then have "(k', u) \<in> set nt" using u(1) adv(3) by (auto dest: map_of_SomeD)
      then show ?thesis
        using next_due_le [OF ne _ kt] due_key_mono [of pl k' u t'] u(2) Suc.prems
        by (fastforce simp: ticks_ok_def)
    qed
  qed
  then have "sorted (map (\<lambda>(k, t). due_key pl k t) ((k, t) # S))" using S(3) by auto
  moreover have "ticks_of k' ((k, t) # S) =
      (case dict_get nt k' of None \<Rightarrow> [] | Some t \<Rightarrow> [t ..< nat (pl_counts pl ! fst k')])" for k'
  proof (cases "k' = k")
    case True
    have "ticks_of k ((k, t) # S) = t # ticks_of k S" by (simp add: ticks_of_def)
    also have "\<dots> = [t ..< nat (pl_counts pl ! fst k)]"
    proof (cases "int t + 1 = pl_counts pl ! fst k")
      case True
      then have "nat (pl_counts pl ! fst k) = Suc t" by linarith
      then show ?thesis using True by (simp add: S(4) adv(3))
    next
      case False
      then have "Suc t < nat (pl_counts pl ! fst k)" using bound by linarith
      then show ?thesis using False by (simp add: S(4) adv(3) upt_conv_Cons)
    qed
    finally show ?thesis using True get by simp
  next
    case False
    then show ?thesis using S(4) [of k'] by (simp add: ticks_of_def adv(3))
  qed
  moreover have "schedule pl nt = Some ((k, t) # S)"
    by (subst schedule.simps) (simp add: ne kt S(1))
  ultimately show ?case using S(2) adv(2) by (intro exI [of _ "(k, t) # S"]) simp
qed

subsection \<open>The schedule of a request\<close>

lemma messages_per_source_pos: "1 \<le> messages_per_source d r"
  by (simp add: messages_per_source_def Let_def)

definition order_entries :: "traffic_flow list \<Rightarrow> (sched_key \<times> nat \<times> nat) list" where
  "order_entries flows = [((flow_index, source), (flow_index, source_index)).
     (flow_index, f) \<leftarrow> enumerate 0 flows, (source_index, source) \<leftarrow> enumerate 0 (f_source_nodes f)]"

lemma order_entries_concat:
  "order_entries flows = concat (map (\<lambda>(i, f). map (\<lambda>(j, s). ((i, s), (i, j))) (enumerate 0 (f_source_nodes f)))
     (enumerate 0 flows))"
  by (simp add: order_entries_def case_prod_unfold)

lemma order_keys:
  "map fst (order_entries flows) = concat (map (\<lambda>(i, f). map (Pair i) (f_source_nodes f)) (enumerate 0 flows))"
proof -
  have "map (fst \<circ> (\<lambda>(j, s). ((i, s), (i, j)))) (enumerate m xs) = map (Pair i) xs" for i m :: nat and xs :: "string list"
    by (induction xs arbitrary: m) simp_all
  then show ?thesis
    unfolding order_entries_concat map_concat map_map
    by (intro arg_cong [where f = concat] map_cong) (auto simp: comp_def case_prod_unfold)
qed

lemma indexed_in: "k \<in> set (concat (map (\<lambda>(i, f). map (Pair i) (g f)) (enumerate n fs))) \<longleftrightarrow>
    n \<le> fst k \<and> fst k < n + length fs \<and> snd k \<in> set (g (fs ! (fst k - n)))"
  by (cases k) (force simp: in_set_enumerate_eq)

lemma distinct_indexed:
  "(\<And>f. f \<in> set fs \<Longrightarrow> distinct (g f)) \<Longrightarrow>
   distinct (concat (map (\<lambda>(i, f). map (Pair i) (g f)) (enumerate n fs)))"
proof (induction fs arbitrary: n)
  case (Cons f fs)
  have "set (map (Pair n) (g f)) \<inter> set (concat (map (\<lambda>(i, f). map (Pair i) (g f)) (enumerate (Suc n) fs))) = {}"
    by (auto simp only: indexed_in disjoint_iff set_map) auto
  moreover have "distinct (map (Pair n) (g f))" using Cons.prems by (simp add: distinct_map inj_on_def)
  ultimately show ?case using Cons by simp
qed simp

lemma order_entries_dict:
  assumes "\<And>f. f \<in> set flows \<Longrightarrow> distinct (f_source_nodes f)"
  shows "schedule_order flows = order_entries flows" and "dict_wf (order_entries flows)"
proof -
  show wf: "dict_wf (order_entries flows)"
    unfolding order_keys using assms by (rule distinct_indexed)
  then show "schedule_order flows = order_entries flows"
    unfolding schedule_order_def order_entries_def [symmetric] by (simp add: dict_of_fresh)
qed

lemma initial_ticks_get:
  assumes "\<And>f. f \<in> set flows \<Longrightarrow> distinct (f_source_nodes f)"
  shows "dict_get (initial_ticks flows) k =
    (if fst k < length flows \<and> snd k \<in> set (f_source_nodes (flows ! fst k)) then Some 0 else None)"
proof -
  have "initial_ticks flows = map (\<lambda>e. (fst e, 0)) (order_entries flows)"
    by (simp add: initial_ticks_def order_entries_dict(1) [OF assms] case_prod_unfold)
  then have "dict_get (initial_ticks flows) k = (if k \<in> set (map fst (order_entries flows)) then Some 0 else None)"
    by (simp only: dict_get_const)
  moreover have "k \<in> set (map fst (order_entries flows)) \<longleftrightarrow>
      fst k < length flows \<and> snd k \<in> set (f_source_nodes (flows ! fst k))"
    unfolding order_keys indexed_in by simp
  ultimately show ?thesis by simp
qed

lemma validated_flows:
  assumes "check_request q = Inr q" and "validate_request_nodes q sc = Inr ()" and "f \<in> set (scheduling_flows q)"
  shows "distinct (f_source_nodes f)" and "0 < f_messages_per_minute f" and "f_source_nodes f \<noteq> []"
    and "set (f_source_nodes f) \<subseteq> set (map sn_id (sc_nodes sc))"
proof -
  have "isOk (validate_flow_nodes (q_kind q) (map sn_id (sc_nodes sc)) f)"
    using assms(2,3) unfolding validate_request_nodes_def bind_result_eq_Inr isOk_iff [symmetric]
    by (metis isOk_iff isOk_traverse)
  then show "distinct (f_source_nodes f)" "set (f_source_nodes f) \<subseteq> set (map sn_id (sc_nodes sc))"
    by (auto simp: validate_flow_nodes_def Let_def isOk_def card_distinct split: if_splits)
  have flow: "0 < f_messages_per_minute f \<and> f_source_nodes f \<noteq> []" if "isOk (check_flow f)"
    using that by (auto simp: check_flow_def in_range_def split: if_splits)
  have "0 < f_messages_per_minute f \<and> f_source_nodes f \<noteq> []"
  proof (cases "q_flows q = []")
    case True
    then show ?thesis using assms(1,3)
      by (auto simp: scheduling_flows_def default_flow_def check_request_def validate_request_def split: if_splits)
  next
    case False
    then have "f \<in> set (q_flows q)" using assms(3) by (simp add: scheduling_flows_def)
    moreover have "isOk (traverse_result check_flow (q_flows q))"
      using assms(1) by (auto simp: check_request_def bind_result_eq_Inr split: if_splits)
    ultimately show ?thesis by (intro flow) (simp add: isOk_traverse)
  qed
  then show "0 < f_messages_per_minute f" "f_source_nodes f \<noteq> []" by simp_all
qed

lemma sum_indexed:
  "(\<Sum>k \<leftarrow> concat (map (\<lambda>(i, f). map (Pair i) (g f)) (enumerate n fs)). c (fst k)) =
   (\<Sum>(i, f) \<leftarrow> enumerate n fs. length (g f) * (c i :: nat))"
proof -
  have "(\<Sum>k \<leftarrow> map (Pair i) xs. c (fst k)) = length xs * c i" for i and xs :: "'a list"
    by (induction xs) simp_all
  then show ?thesis by (induction fs arbitrary: n) simp_all
qed

lemma sum_enumerate:
  "(\<And>i. i < length fs \<Longrightarrow> h (n + i) (fs ! i) = g (fs ! i)) \<Longrightarrow> (\<Sum>(i, f) \<leftarrow> enumerate n fs. h i f) = (\<Sum>f \<leftarrow> fs. g f :: nat)"
proof (induction fs arbitrary: n)
  case (Cons f fs)
  have "h (Suc n + i) (fs ! i) = g (fs ! i)" if "i < length fs" for i
    using Cons.prems [of "Suc i"] that by simp
  then show ?case using Cons.IH [of "Suc n"] Cons.prems [of 0] by simp
qed simp

lemma initial_ticks_left:
  assumes "\<And>f. f \<in> set (scheduling_flows q) \<Longrightarrow> distinct (f_source_nodes f)"
  shows "int (ticks_left (make_plan g sha q) (initial_ticks (scheduling_flows q))) = maximum_sequence q"
proof -
  let ?flows = "scheduling_flows q" and ?c = "\<lambda>i. nat (pl_counts (make_plan g sha q) ! i)"
  have "ticks_left (make_plan g sha q) (initial_ticks ?flows) = (\<Sum>k \<leftarrow> map fst (order_entries ?flows). ?c (fst k))"
    by (simp add: ticks_left_def initial_ticks_def order_entries_dict(1) [OF assms] case_prod_unfold comp_def)
  also have "\<dots> = (\<Sum>(i, f) \<leftarrow> enumerate 0 ?flows. length (f_source_nodes f) * ?c i)"
    unfolding order_keys by (rule sum_indexed)
  also have "\<dots> = (\<Sum>f \<leftarrow> ?flows. length (f_source_nodes f) * nat (messages_per_flow q f))"
    by (rule sum_enumerate) (simp add: make_plan_def Let_def)
  finally have left: "ticks_left (make_plan g sha q) (initial_ticks ?flows) =
      (\<Sum>f \<leftarrow> ?flows. length (f_source_nodes f) * nat (messages_per_flow q f))" .
  have pos: "0 \<le> messages_per_flow q f" for f
    using messages_per_source_pos [of "q_duration_seconds q" "f_messages_per_minute f"]
    by (simp add: messages_per_flow_def)
  have "int (\<Sum>f \<leftarrow> fs. length (f_source_nodes f) * nat (messages_per_flow q f)) =
      (\<Sum>f \<leftarrow> fs. int (length (f_source_nodes f)) * messages_per_flow q f)" for fs
    by (induction fs) (simp_all add: pos)
  then show ?thesis by (simp add: left maximum_sequence_def)
qed

text \<open>C19. The schedule of an accepted request is complete. The loop over \<^verbatim>\<open>next_tick\<close> ends;
  the messages come in the order of their due times, ties broken by the position of the flow and
  the source; every source of every flow gets each of its ticks once and in order; and their
  number is the maximum sequence number against which the request was checked.\<close>

theorem schedule_exact:
  fixes g :: "'r rng" and sha :: "string \<Rightarrow> int" and q :: traffic_request
  assumes "check_request q = Inr q" and "validate_request_nodes q sc = Inr ()"
  defines "flows \<equiv> scheduling_flows q" and "pl \<equiv> make_plan g sha q"
  shows "\<exists>S. schedule pl (initial_ticks flows) = Some S \<and>
    sorted (map (\<lambda>(k, t). due_key pl k t) S) \<and>
    int (length S) = maximum_sequence q \<and>
    (\<forall>i < length flows. \<forall>s \<in> set (f_source_nodes (flows ! i)).
      ticks_of (i, s) S = [0 ..< nat (messages_per_flow q (flows ! i))])"
proof -
  note valid = validated_flows [OF assms(1,2)]
  have dist: "\<And>f. f \<in> set flows \<Longrightarrow> distinct (f_source_nodes f)" using valid(1) by (simp add: flows_def)
  have counts: "pl_counts pl ! i = messages_per_flow q (flows ! i)" "0 \<le> pl_intervals pl ! i" if "i < length flows" for i
  proof -
    have "0 < f_messages_per_minute (flows ! i)" using valid(2) that by (simp add: flows_def)
    then show "0 \<le> pl_intervals pl ! i"
      using that by (simp add: pl_def make_plan_def Let_def fdiv_def fl_nonneg flows_def)
    show "pl_counts pl ! i = messages_per_flow q (flows ! i)"
      using that by (simp add: pl_def make_plan_def Let_def flows_def)
  qed
  have "dict_wf (initial_ticks flows)"
    using order_entries_dict [OF dist] by (simp add: initial_ticks_def case_prod_unfold comp_def)
  moreover have "int t < pl_counts pl ! fst k \<and> 0 \<le> pl_intervals pl ! fst k" if "(k, t) \<in> set (initial_ticks flows)" for k t
  proof -
    have "dict_get (initial_ticks flows) k = Some t"
      using that \<open>dict_wf (initial_ticks flows)\<close> by simp
    then have "fst k < length flows" "t = 0"
      by (simp_all add: initial_ticks_get [OF dist] split: if_splits)
    moreover have "0 < messages_per_flow q f" for f
      using messages_per_source_pos [of "q_duration_seconds q" "f_messages_per_minute f"]
      by (simp add: messages_per_flow_def)
    ultimately show ?thesis using counts [of "fst k"] by simp
  qed
  ultimately have "ticks_ok pl (initial_ticks flows)" by (auto simp: ticks_ok_def)
  from schedule_runs [OF this] obtain S where S: "schedule pl (initial_ticks flows) = Some S"
    "length S = ticks_left pl (initial_ticks flows)" "sorted (map (\<lambda>(k, t). due_key pl k t) S)"
    "\<And>k. ticks_of k S = (case dict_get (initial_ticks flows) k of None \<Rightarrow> [] | Some t \<Rightarrow> [t ..< nat (pl_counts pl ! fst k)])"
    by blast
  have "int (length S) = maximum_sequence q"
    using S(2) initial_ticks_left [of q g sha] dist by (simp add: flows_def pl_def)
  moreover have "ticks_of (i, s) S = [0 ..< nat (messages_per_flow q (flows ! i))]"
    if "i < length flows" "s \<in> set (f_source_nodes (flows ! i))" for i s
    using that counts(1) by (simp add: S(4) initial_ticks_get [OF dist])
  ultimately show ?thesis using S(1,3) by blast
qed

text \<open>Two stations of the relay scenario send to the third one, twice a minute for a minute.\<close>

definition relay_request :: traffic_request where
  "relay_request = \<lparr>q_kind = DIRECT_TEXT, q_source_nodes = [''a'', ''b''], q_destination_strategy = FIXED,
     q_fixed_destination = Some ''c'', q_messages_per_minute = 2, q_payload_bytes = 64,
     q_duration_seconds = 60, q_acknowledgment_requested = True, q_source_timing = ALIGNED,
     q_flows = [], q_seed = 1\<rparr>"

lemma relay_request_valid:
  "check_request relay_request = Inr relay_request"
  "validate_request_nodes relay_request relay_scenario = Inr ()"
  by (simp_all add: check_request_def validate_request_def relay_request_def in_range_def missing_destinations_def
      validate_request_nodes_def scheduling_flows_def default_flow_def validate_flow_nodes_def relay_scenario_def)

lemma schedule_exact_witness:
  "\<exists>S. schedule (make_plan zero_rng (\<lambda>_. 0) relay_request) (initial_ticks (scheduling_flows relay_request)) = Some S \<and>
     int (length S) = maximum_sequence relay_request \<and>
     ticks_of (0, ''b'') S = [0 ..< nat (messages_per_flow relay_request (default_flow relay_request))]"
  using schedule_exact [OF relay_request_valid, of zero_rng "\<lambda>_. 0"]
  by (auto simp: scheduling_flows_def relay_request_def default_flow_def)

subsection \<open>Destinations\<close>

text \<open>The destination of a scheduled message is always well chosen: in an accepted direct
  run every strategy returns a node of the scenario other than the source, without raising; in a
  broadcast run the destination is the broadcast address.\<close>

theorem destination_is_another_node:
  assumes "rng_ok g" and "check_request q = Inr q" and "validate_request_nodes q sc = Inr ()"
    and "f \<in> set (scheduling_flows q)" and "source \<in> set (f_source_nodes f)"
    and "candidates sc source \<noteq> []" and "dict_get round_robin source = Some n"
  shows "\<exists>d s' rr. choose_destination g sc (q_kind q) (f_destination_strategy f) (f_fixed_destination f)
      source s round_robin = Inr (d, s', rr) \<and>
    (if q_kind q = BROADCAST_TEXT then d = ''broadcast''
     else d \<in> set (map sn_id (sc_nodes sc)) \<and> d \<noteq> source)"
proof -
  have valid: "isOk (validate_flow_nodes (q_kind q) (map sn_id (sc_nodes sc)) f)"
    using assms(3,4) unfolding validate_request_nodes_def bind_result_eq_Inr isOk_iff [symmetric]
    by (metis isOk_iff isOk_traverse)
  have fixed: "f_fixed_destination f \<noteq> None" if "q_kind q = DIRECT_TEXT" "f_destination_strategy f = FIXED"
  proof -
    have "missing_destinations q = []"
      using assms(2) that(1) by (auto simp: check_request_def validate_request_def Let_def bind_result_eq_Inr split: if_splits)
    then show ?thesis using assms(4) that(2)
      by (auto simp: missing_destinations_def scheduling_flows_def default_flow_def filter_empty_conv split: if_splits)
  qed
  have cand: "c \<in> set (map sn_id (sc_nodes sc)) \<and> c \<noteq> source" if "c \<in> set (candidates sc source)" for c
    using that by (auto simp: candidates_def)
  show ?thesis
  proof (cases "q_kind q")
    case BROADCAST_TEXT
    then show ?thesis by (simp add: choose_destination_def)
  next
    case DIRECT_TEXT
    show ?thesis
    proof (cases "f_destination_strategy f")
      case FIXED
      then obtain d where "f_fixed_destination f = Some d" using fixed DIRECT_TEXT by auto
      then show ?thesis using valid assms(5) FIXED DIRECT_TEXT
        by (auto simp: choose_destination_def validate_flow_nodes_def Let_def split: if_splits)
    next
      case ROUND_ROBIN
      then show ?thesis using DIRECT_TEXT assms(6,7) cand [OF nth_mem]
        by (simp add: choose_destination_def)
    next
      case DETERMINISTIC_RANDOM
      obtain i s' where "rng_choice_index g s (length (candidates sc source)) = (i, s')" by fastforce
      moreover from this have "i < length (candidates sc source)"
        using assms(1,6) unfolding rng_ok_def by (metis fst_conv length_greater_0_conv)
      ultimately show ?thesis using DIRECT_TEXT DETERMINISTIC_RANDOM assms(6) cand [OF nth_mem]
        by (simp add: choose_destination_def)
    qed
  qed
qed

lemma destination_is_another_node_witness:
  "\<exists>d s' rr. choose_destination zero_rng relay_scenario DIRECT_TEXT FIXED (Some ''c'') ''a'' () [(''a'', 0)] = Inr (d, s', rr) \<and>
     d \<in> {''a'', ''b'', ''c''} \<and> d \<noteq> ''a''"
proof -
  have "rng_ok zero_rng" by (simp add: rng_ok_def zero_rng_def)
  from destination_is_another_node [OF this relay_request_valid, of "default_flow relay_request" "''a''" "[(''a'', 0)]" 0 "()"]
  show ?thesis
    by (simp add: scheduling_flows_def default_flow_def relay_request_def candidates_def relay_scenario_def)
qed

text \<open>A source's successive calls of the round-robin strategy.\<close>

fun round_robin_picks :: "'r rng \<Rightarrow> scenario \<Rightarrow> string \<Rightarrow> 'r \<Rightarrow> (string, nat) dict \<Rightarrow> nat \<Rightarrow> string list result" where
  "round_robin_picks g sc source s rr 0 = Inr []"
| "round_robin_picks g sc source s rr (Suc k) =
     bind_result (choose_destination g sc DIRECT_TEXT ROUND_ROBIN None source s rr) (\<lambda>(d, s', rr').
     bind_result (round_robin_picks g sc source s' rr' k) (\<lambda>ds. Inr (d # ds)))"

lemma round_robin_picks_eq:
  "candidates sc source \<noteq> [] \<Longrightarrow> dict_get rr source = Some n \<Longrightarrow>
   round_robin_picks g sc source s rr k =
     Inr (map (\<lambda>i. candidates sc source ! (i mod length (candidates sc source))) [n ..< n + k])"
proof (induction k arbitrary: rr n)
  case (Suc k)
  have "[n ..< n + Suc k] = n # [Suc n ..< Suc n + k]" by (simp add: upt_conv_Cons)
  then show ?case using Suc.prems Suc.IH [of "dict_set source (n + 1) rr" "Suc n"]
    by (simp add: choose_destination_def dict_simps)
qed simp

text \<open>Round robin is fair: from the start of a run, as many picks as there are other nodes
  visit each other node once, in the scenario's order, and every further round repeats that.\<close>

theorem round_robin_fair:
  assumes "candidates sc source \<noteq> []" and "dict_get rr source = Some 0"
  shows "round_robin_picks g sc source s rr (m * length (candidates sc source)) =
    Inr (concat (replicate m (candidates sc source)))"
proof -
  let ?c = "candidates sc source"
  have "map (\<lambda>i. ?c ! (i mod length ?c)) [0 ..< m * length ?c] = concat (replicate m ?c)"
  proof (induction m)
    case (Suc m)
    have "[0 ..< Suc m * length ?c] = [0 ..< m * length ?c] @ map (\<lambda>i. i + m * length ?c) [0 ..< length ?c]"
      using upt_add_eq_append [of 0 "m * length ?c" "length ?c"]
      by (simp add: map_add_upt) (simp only: add.commute)
    moreover have "map (\<lambda>i. ?c ! (i mod length ?c)) (map (\<lambda>i. i + m * length ?c) [0 ..< length ?c]) = ?c"
      by (rule nth_equalityI) simp_all
    moreover have "concat (replicate (Suc m) ?c) = concat (replicate m ?c) @ ?c"
      by (simp flip: replicate_append_same)
    ultimately show ?case using Suc by simp
  qed simp
  then show ?thesis using round_robin_picks_eq [OF assms, of g s "m * length ?c"] by simp
qed

lemma round_robin_fair_witness:
  "round_robin_picks zero_rng relay_scenario ''a'' () [(''a'', 0)] (2 * length (candidates relay_scenario ''a'')) =
     Inr [''b'', ''c'', ''b'', ''c'']"
proof -
  have c: "candidates relay_scenario ''a'' = [''b'', ''c'']" by (simp add: candidates_def relay_scenario_def)
  have "concat (replicate 2 [''b'', ''c'']) = [''b'', ''c'', ''b'', ''c'']" by (simp add: eval_nat_numeral(2) numeral_2_eq_2)
  then show ?thesis
    using round_robin_fair [of relay_scenario "''a''" "[(''a'', 0)]" zero_rng "()" 2] by (simp add: c)
qed

end
