(* ===== verification/Traffic_Ids.thy ===== *)
theory Traffic_Ids
  imports Traffic_Request Mesh_Packets
begin

text \<open>
  How traffic messages are recognised: the text marker in the payload
  (\<^verbatim>\<open>TrafficController._submit\<close> writes it, \<^verbatim>\<open>_parse_identifier\<close> reads it back) and
  the random packet identifiers with their per-source quarantine. The rejection loop that draws an
  unused identifier may run forever and is a partial function. The last theorems show that no
  source uses an identifier twice within the quarantine time, unless a retirement was refused.
\<close>

subsection \<open>The payload marker\<close>

definition MAX_TRAFFIC_MESSAGES_PER_RUN :: int where "MAX_TRAFFIC_MESSAGES_PER_RUN = 10000"

definition TRAFFIC_PREFIX :: string where "TRAFFIC_PREFIX = ''ML1''"

definition traffic_marker :: "string \<Rightarrow> nat \<Rightarrow> string" where
  "traffic_marker run_id sequence =
     TRAFFIC_PREFIX @ '':'' @ run_id @ '':'' @ show_nat sequence @ '':''"

definition traffic_payload :: "string \<Rightarrow> nat \<Rightarrow> int \<Rightarrow> bytes result" where
  "traffic_payload run_id sequence requested_size =
     (let marker = ascii_bytes (codes (traffic_marker run_id sequence))
      in if requested_size < int (length marker)
         then Inl (ValueError (''payloadBytes '' @ show_int requested_size @
           '' is smaller than encoded traffic identifier '' @ show_nat (length marker)))
         else Inr (marker @ replicate (nat requested_size - length marker) 120))"

text \<open>Unpacking the four parts, \<^verbatim>\<open>int\<close> and decoding can raise; each becomes \<^verbatim>\<open>None\<close>.\<close>

definition parse_identifier :: "(nat \<Rightarrow> bool) \<Rightarrow> (nat \<Rightarrow> nat option) \<Rightarrow> bytes \<Rightarrow> (nat list \<times> int) option" where
  "parse_identifier uspace udigit payload =
     (case utf8_decode payload of
        None \<Rightarrow> None
      | Some text \<Rightarrow>
          (case split_max 3 58 text of
             [prefix, run_id, sequence, _] \<Rightarrow>
               if prefix \<noteq> codes TRAFFIC_PREFIX then None
               else map_option (Pair run_id) (py_int uspace udigit sequence)
           | _ \<Rightarrow> None))"

definition traffic_identifier_from_packet :: "codec \<Rightarrow> (nat \<Rightarrow> bool) \<Rightarrow> (nat \<Rightarrow> nat option) \<Rightarrow>
    mesh_packet \<Rightarrow> (nat list \<times> int) option" where
  "traffic_identifier_from_packet pb uspace udigit p =
     (case p_variant p of
        Decoded d \<Rightarrow>
          if d_portnum d = TEXT_MESSAGE_APP then parse_identifier uspace udigit (d_payload d)
          else if d_portnum d = SIMULATOR_APP
          then (case parse_compressed pb (d_payload d) of
                  None \<Rightarrow> None
                | Some c \<Rightarrow>
                    if c_portnum c \<noteq> TEXT_MESSAGE_APP then None
                    else parse_identifier uspace udigit (c_data c))
          else None
      | _ \<Rightarrow> None)"

definition plain_run_id :: "string \<Rightarrow> bool" where
  "plain_run_id s = list_all (\<lambda>c. c < 128 \<and> c \<noteq> 58) (codes s)"

text \<open>A message is recognised by its own payload: whatever padding follows, parsing the
  payload that a run writes gives back the run's identifier and the sequence number, for every run
  identifier of ASCII characters without a colon (a UUID is one) and every sequence number a
  run can reach.\<close>

theorem payload_identifier_roundtrip:
  assumes "plain_run_id run_id" and "int sequence \<le> MAX_TRAFFIC_MESSAGES_PER_RUN"
  shows "case traffic_payload run_id sequence sz of
      Inl _ \<Rightarrow> sz < int (length (traffic_marker run_id sequence))
    | Inr payload \<Rightarrow> int (length payload) = sz \<and>
        parse_identifier uspace udigit payload = Some (codes run_id, int sequence)"
proof (cases "sz < int (length (traffic_marker run_id sequence))")
  case True
  then show ?thesis by (simp add: traffic_payload_def Let_def ascii_bytes_def)
next
  case False
  let ?pad = "replicate (nat sz - length (traffic_marker run_id sequence)) (120 :: nat)"
  let ?text = "codes ''ML1'' @ 58 # codes run_id @ 58 # show_nat_codes sequence @ 58 # ?pad"
  have plain: "\<forall>c \<in> set (codes run_id). c < 128" "58 \<notin> set (codes run_id)"
    using assms(1) by (auto simp: plain_run_id_def list_all_iff)
  have digits: "\<forall>c \<in> set (show_nat_codes sequence). c < 128" "58 \<notin> set (show_nat_codes sequence)"
    using show_nat_codes_digits [of sequence] by (auto simp: is_digit_def)
  have prefix: "codes ''ML1'' = [77, 76, 49]" by (simp add: codes_def)
  have marker: "codes (traffic_marker run_id sequence) = codes ''ML1'' @ 58 # codes run_id @ 58 # show_nat_codes sequence @ [58]"
    by (simp add: traffic_marker_def TRAFFIC_PREFIX_def text_simps)
  have "length (show_nat_codes sequence) \<le> 5"
    using assms(2) by (intro show_nat_codes_length) (simp_all add: MAX_TRAFFIC_MESSAGES_PER_RUN_def)
  then have "length (show_nat_codes sequence) \<le> INT_MAX_STR_DIGITS"
    by (simp add: INT_MAX_STR_DIGITS_def)
  then have num: "py_int uspace udigit (show_nat_codes sequence) = Some (int sequence)"
    by (rule py_int_show_nat)
  have len: "length (ascii_bytes (codes (traffic_marker run_id sequence))) = length (traffic_marker run_id sequence)"
    by (simp add: ascii_bytes_def)
  have whole: "ascii_bytes (codes (traffic_marker run_id sequence)) @
      replicate (nat sz - length (traffic_marker run_id sequence)) 120 = ascii_bytes ?text"
    by (simp add: marker ascii_bytes_def)
  have "traffic_payload run_id sequence sz = Inr (ascii_bytes ?text)"
    unfolding traffic_payload_def Let_def len whole using False by simp
  moreover have "utf8_decode (ascii_bytes ?text) = Some ?text"
    using plain digits by (intro utf8_decode_ascii) (auto simp: prefix)
  moreover have "split_max 3 58 ?text = [codes ''ML1'', codes run_id, show_nat_codes sequence, ?pad]"
    using split_once_append [of 58 "codes ''ML1''"] split_once_append [OF plain(2)] split_once_append [OF digits(2)]
    by (simp add: numeral_3_eq_3 prefix)
  ultimately have "traffic_payload run_id sequence sz = Inr (ascii_bytes ?text)"
    and "parse_identifier uspace udigit (ascii_bytes ?text) = Some (codes run_id, int sequence)"
    using num by (simp_all add: parse_identifier_def TRAFFIC_PREFIX_def)
  moreover have "int (length (ascii_bytes ?text)) = sz"
  proof -
    have "length (ascii_bytes ?text) = length (codes (traffic_marker run_id sequence)) + length ?pad"
      unfolding marker by (simp add: ascii_bytes_def)
    then show ?thesis using False by simp
  qed
  ultimately show ?thesis by simp
qed

lemma payload_identifier_roundtrip_witness:
  "\<exists>payload. traffic_payload ''7e0a-11'' 7 32 = Inr payload \<and> length payload = 32 \<and>
     parse_identifier (\<lambda>_. False) (\<lambda>_. None) payload = Some (codes ''7e0a-11'', 7)"
proof -
  have "plain_run_id ''7e0a-11''" by (simp add: plain_run_id_def codes_def)
  moreover have "int 7 \<le> MAX_TRAFFIC_MESSAGES_PER_RUN" by (simp add: MAX_TRAFFIC_MESSAGES_PER_RUN_def)
  moreover have "length (traffic_marker ''7e0a-11'' 7) \<le> 32"
    using length_show_nat [of 7 1] by (simp add: traffic_marker_def TRAFFIC_PREFIX_def)
  ultimately show ?thesis
    using payload_identifier_roundtrip [of "''7e0a-11''" 7 32 "\<lambda>_. False" "\<lambda>_. None"]
    by (auto split: sum.splits)
qed

subsection \<open>Packet identifiers\<close>

definition PACKET_ID_QUARANTINE_SECONDS :: int where "PACKET_ID_QUARANTINE_SECONDS = 5 * 60"

definition MAX_QUARANTINED_PACKET_IDS_PER_SOURCE :: nat where
  "MAX_QUARANTINED_PACKET_IDS_PER_SOURCE = 600 * 60"

record packet_ids =
  ids_by_source :: "(string, (int, pyfloat) dict) dict"
  ids_quarantine :: "(string, (pyfloat \<times> int) list) dict"
  ids_quarantined :: "(string, int set) dict"

definition no_packet_ids :: packet_ids where
  "no_packet_ids = \<lparr>ids_by_source = [], ids_quarantine = [], ids_quarantined = []\<rparr>"

definition quarantine_expiry :: "pyfloat \<Rightarrow> pyfloat" where
  "quarantine_expiry allocated_at = fadd allocated_at (float_of_int PACKET_ID_QUARANTINE_SECONDS)"

fun purge_loop :: "pyfloat \<Rightarrow> (pyfloat \<times> int) list \<Rightarrow> int set \<Rightarrow> (pyfloat \<times> int) list \<times> int set" where
  "purge_loop now [] quarantined = ([], quarantined)"
| "purge_loop now ((expiry, i) # q) quarantined =
     (if expiry \<le> now then purge_loop now q (quarantined - {i}) else ((expiry, i) # q, quarantined))"

definition purge_packet_id_quarantine :: "string \<Rightarrow> pyfloat \<Rightarrow> packet_ids \<Rightarrow> packet_ids" where
  "purge_packet_id_quarantine source now ids =
     (let (q, qd) = purge_loop now (dict_get_default (ids_quarantine ids) source [])
            (dict_get_default (ids_quarantined ids) source {})
      in ids\<lparr>ids_quarantine := dict_set source q (ids_quarantine ids),
             ids_quarantined := dict_set source qd (ids_quarantined ids)\<rparr>)"

text \<open>The \<^verbatim>\<open>while True\<close> loop draws until an identifier is free.\<close>

partial_function (option) draw_packet_id :: "'r rng \<Rightarrow> int set \<Rightarrow> int set \<Rightarrow> 'r \<Rightarrow> (int \<times> 'r) option" where
  "draw_packet_id g used quarantined s =
     (case rng_randrange g s 1 0xFFFFFFFF of (i, s') \<Rightarrow>
        if i \<notin> used \<and> i \<notin> quarantined then Some (i, s') else draw_packet_id g used quarantined s')"

declare draw_packet_id.simps [code]

definition allocate_packet_id :: "'r rng \<Rightarrow> string \<Rightarrow> pyfloat \<Rightarrow> packet_ids \<Rightarrow> 'r \<Rightarrow>
    (int \<times> packet_ids \<times> 'r) option" where
  "allocate_packet_id g source now ids s =
     (let ids1 = purge_packet_id_quarantine source now ids;
          used = dict_get_default (ids_by_source ids1) source [];
          quarantined = dict_get_default (ids_quarantined ids1) source {}
      in Option.bind (draw_packet_id g (set (dict_keys used)) quarantined s) (\<lambda>(i, s').
           Some (i, ids1\<lparr>ids_by_source := dict_set source (dict_set i now used) (ids_by_source ids1)\<rparr>, s')))"

fun retire_sources :: "pyfloat \<Rightarrow> (string \<times> (int, pyfloat) dict) list \<Rightarrow> packet_ids \<Rightarrow> packet_ids \<times> unit result" where
  "retire_sources now [] ids = (ids, Inr ())"
| "retire_sources now ((source, packet_ids) # rest) ids =
     (let ids1 = purge_packet_id_quarantine source now ids;
          quarantine = dict_get_default (ids_quarantine ids1) source [];
          quarantined = dict_get_default (ids_quarantined ids1) source {};
          retained = map (\<lambda>(i, allocated_at). (quarantine_expiry allocated_at, i))
            (filter (\<lambda>(i, allocated_at). now < quarantine_expiry allocated_at) packet_ids)
      in if MAX_QUARANTINED_PACKET_IDS_PER_SOURCE < length quarantine + length retained
         then (ids1, Inl (PacketIdQuarantineCapacityError
           ''packet ID quarantine capacity is too small for the configured late-acknowledgment window''))
         else retire_sources now rest
           (ids1\<lparr>ids_quarantine := dict_set source (quarantine @ retained) (ids_quarantine ids1),
                 ids_quarantined := dict_set source (quarantined \<union> snd ` set retained) (ids_quarantined ids1)\<rparr>))"

definition retire_packet_ids :: "pyfloat \<Rightarrow> packet_ids \<Rightarrow> packet_ids \<times> unit result" where
  "retire_packet_ids now ids =
     (case retire_sources now (ids_by_source ids) ids of
        (ids1, Inl e) \<Rightarrow> (ids1, Inl e)
      | (ids1, Inr _) \<Rightarrow> (ids1\<lparr>ids_by_source := []\<rparr>, Inr ()))"

subsection \<open>The draw loop\<close>

lemma draw_packet_id_fresh:
  assumes "draw_packet_id g used quarantined s = Some (i, s')"
  shows "i \<notin> used \<and> i \<notin> quarantined"
proof -
  have "fst r \<notin> used \<and> fst r \<notin> quarantined" if "draw_packet_id g used quarantined s = Some r" for r
    using that
    by (rule draw_packet_id.raw_induct [rotated]) (auto split: prod.splits if_splits)
  from this [OF assms] show ?thesis by simp
qed

subsection \<open>Histories of allocations\<close>

text \<open>
  A history of what has happened to the identifiers, newest first: allocations, retirements, and
  retirements that were refused for lack of quarantine capacity, which raise and leave the sources that
  they had already handled both in use and in quarantine.
\<close>

datatype id_entry = Allocated string int pyfloat | Retired pyfloat | Refused pyfloat

inductive id_history :: "'r rng \<Rightarrow> pyfloat \<Rightarrow> packet_ids \<Rightarrow> id_entry list \<Rightarrow> bool" for g where
  start: "id_history g t no_packet_ids []"
| allocate: "id_history g t ids hist \<Longrightarrow> t \<le> now \<Longrightarrow> allocate_packet_id g source now ids s = Some (i, ids', s') \<Longrightarrow>
    id_history g now ids' (Allocated source i now # hist)"
| retire: "id_history g t ids hist \<Longrightarrow> t \<le> now \<Longrightarrow> retire_packet_ids now ids = (ids', Inr ()) \<Longrightarrow>
    id_history g now ids' (Retired now # hist)"
| refuse: "id_history g t ids hist \<Longrightarrow> t \<le> now \<Longrightarrow> retire_packet_ids now ids = (ids', Inl e) \<Longrightarrow>
    id_history g now ids' (Refused now # hist)"

abbreviation used_of :: "packet_ids \<Rightarrow> string \<Rightarrow> (int, pyfloat) dict" where
  "used_of ids s \<equiv> dict_get_default (ids_by_source ids) s []"

abbreviation queue_of :: "packet_ids \<Rightarrow> string \<Rightarrow> (pyfloat \<times> int) list" where
  "queue_of ids s \<equiv> dict_get_default (ids_quarantine ids) s []"

abbreviation blocked_of :: "packet_ids \<Rightarrow> string \<Rightarrow> int set" where
  "blocked_of ids s \<equiv> dict_get_default (ids_quarantined ids) s {}"

lemma dict_get_default_set: "dict_get_default (dict_set k v d) k' v0 = (if k' = k then v else dict_get_default d k' v0)"
  by (simp add: dict_get_default_def dict_simps)

text \<open>The quarantine holds exactly blocked identifiers, each once, and none that is in use.\<close>

definition ids_ok :: "packet_ids \<Rightarrow> string \<Rightarrow> bool" where
  "ids_ok ids s \<longleftrightarrow>
     snd ` set (queue_of ids s) \<subseteq> blocked_of ids s \<and> distinct (map snd (queue_of ids s)) \<and>
     set (dict_keys (used_of ids s)) \<inter> blocked_of ids s = {} \<and> dict_wf (used_of ids s)"

text \<open>An allocated identifier is in use, or waits in quarantine, or its time is over.\<close>

definition kept :: "packet_ids \<Rightarrow> pyfloat \<Rightarrow> string \<times> int \<times> pyfloat \<Rightarrow> bool" where
  "kept ids now = (\<lambda>(s, i, t). dict_get (used_of ids s) i = Some t \<or>
     (quarantine_expiry t, i) \<in> set (queue_of ids s) \<or> quarantine_expiry t \<le> now)"

lemma purge_loop_result:
  assumes "purge_loop now q b = (q', b')" and "snd ` set q \<subseteq> b" and "distinct (map snd q)"
  shows "snd ` set q' \<subseteq> b'" and "distinct (map snd q')" and "b' \<subseteq> b" and "set q' \<subseteq> set q"
    and "\<And>e i. (e, i) \<in> set q \<Longrightarrow> now < e \<Longrightarrow> (e, i) \<in> set q'"
proof -
  have "snd ` set q' \<subseteq> b' \<and> distinct (map snd q') \<and> b' \<subseteq> b \<and> set q' \<subseteq> set q \<and>
      (\<forall>(e, i) \<in> set q. now < e \<longrightarrow> (e, i) \<in> set q')"
    using assms
  proof (induction now q b rule: purge_loop.induct)
    case (2 now e i q b)
    show ?case
    proof (cases "e \<le> now")
      case True
      then have "snd ` set q \<subseteq> b - {i}" using 2 by auto
      then show ?thesis using 2 True by auto
    qed (use 2 in auto)
  qed auto
  then show "snd ` set q' \<subseteq> b'" "distinct (map snd q')" "b' \<subseteq> b" "set q' \<subseteq> set q"
    "\<And>e i. (e, i) \<in> set q \<Longrightarrow> now < e \<Longrightarrow> (e, i) \<in> set q'" by auto
qed

definition queue_ok :: "packet_ids \<Rightarrow> string \<Rightarrow> bool" where
  "queue_ok ids s \<longleftrightarrow> snd ` set (queue_of ids s) \<subseteq> blocked_of ids s \<and> distinct (map snd (queue_of ids s))"

lemma ids_ok_queue: "ids_ok ids s \<longleftrightarrow> queue_ok ids s \<and>
    set (dict_keys (used_of ids s)) \<inter> blocked_of ids s = {} \<and> dict_wf (used_of ids s)"
  by (auto simp: ids_ok_def queue_ok_def)

lemma purge_queue:
  fixes now :: pyfloat and source :: string and ids :: packet_ids
  assumes "queue_ok ids source"
  defines "ids1 \<equiv> purge_packet_id_quarantine source now ids"
  shows "queue_ok ids s \<Longrightarrow> queue_ok ids1 s" and "blocked_of ids1 s \<subseteq> blocked_of ids s"
    and "(e, i) \<in> set (queue_of ids s) \<Longrightarrow> now < e \<Longrightarrow> (e, i) \<in> set (queue_of ids1 s)"
    and "ids_by_source ids1 = ids_by_source ids"
proof -
  obtain q b where p: "purge_loop now (queue_of ids source) (blocked_of ids source) = (q, b)" by fastforce
  have ok: "snd ` set (queue_of ids source) \<subseteq> blocked_of ids source" "distinct (map snd (queue_of ids source))"
    using assms(1) by (simp_all add: queue_ok_def)
  note r = purge_loop_result [OF p ok]
  have ids1: "ids1 = ids\<lparr>ids_quarantine := dict_set source q (ids_quarantine ids),
      ids_quarantined := dict_set source b (ids_quarantined ids)\<rparr>"
    by (simp add: ids1_def purge_packet_id_quarantine_def p)
  show "ids_by_source ids1 = ids_by_source ids" by (simp add: ids1)
  show "queue_ok ids s \<Longrightarrow> queue_ok ids1 s" using r(1,2) by (auto simp: ids1 queue_ok_def dict_get_default_set)
  show "blocked_of ids1 s \<subseteq> blocked_of ids s" using r(3) by (auto simp: ids1 dict_get_default_set)
  show "(e, i) \<in> set (queue_of ids s) \<Longrightarrow> now < e \<Longrightarrow> (e, i) \<in> set (queue_of ids1 s)"
    using r(5) by (auto simp: ids1 dict_get_default_set)
qed

lemma purge_ok:
  fixes now :: pyfloat and source :: string and ids :: packet_ids
  assumes "\<And>s. ids_ok ids s"
  defines "ids1 \<equiv> purge_packet_id_quarantine source now ids"
  shows "ids_ok ids1 s" and "kept ids now e \<Longrightarrow> kept ids1 now e" and "ids_by_source ids1 = ids_by_source ids"
proof -
  have "queue_ok ids source" using assms(1) by (simp add: ids_ok_queue)
  note pq = purge_queue [OF this, where now = now, folded ids1_def]
  show "ids_by_source ids1 = ids_by_source ids" by (rule pq(4))
  show "ids_ok ids1 s" using assms(1) [of s] pq(1) [of s] pq(2) [of s] pq(4) by (auto simp: ids_ok_queue)
  show "kept ids1 now e" if "kept ids now e"
    using that pq(3) pq(4) by (cases e) (auto simp: kept_def not_le [symmetric])
qed

lemma kept_later: "kept ids t e \<Longrightarrow> t \<le> now \<Longrightarrow> kept ids now e"
  by (auto simp: kept_def)

text \<open>Who uses what: an allocation adds one fresh identifier, a failed retirement changes nothing.\<close>

lemma purge_used [simp]: "ids_by_source (purge_packet_id_quarantine s now ids) = ids_by_source ids"
  by (simp add: purge_packet_id_quarantine_def case_prod_unfold Let_def)

lemma allocate_used:
  assumes "allocate_packet_id g source now ids s = Some (i, ids', s')"
  shows "i \<notin> set (dict_keys (used_of ids source))"
    and "used_of ids' u = (if u = source then dict_set i now (used_of ids source) else used_of ids u)"
  using assms by (auto simp: allocate_packet_id_def Let_def bind_eq_Some_conv dict_get_default_set dest: draw_packet_id_fresh)

lemma retire_sources_used: "ids_by_source (fst (retire_sources now us ids)) = ids_by_source ids"
  by (induction now us ids rule: retire_sources.induct) (simp_all add: Let_def)

lemma retire_failed_used:
  "retire_packet_ids now ids = (ids', Inl e) \<Longrightarrow> ids_by_source ids' = ids_by_source ids"
  using retire_sources_used [of now "ids_by_source ids" ids]
  by (auto simp: retire_packet_ids_def split: prod.splits sum.splits)

text \<open>
  What a retirement does to the quarantine, also one that is refused half way: every entry that has not
  expired stays, an entry is new only for an identifier in use whose quarantine time is not over, and an
  identifier is unblocked only when one of its entries has expired.
\<close>

definition in_use :: "packet_ids \<Rightarrow> string \<Rightarrow> int \<Rightarrow> pyfloat \<Rightarrow> bool" where
  "in_use ids s i t \<longleftrightarrow> (\<exists>u. (s, u) \<in> set (ids_by_source ids) \<and> (i, t) \<in> set u)"

definition quarantine_kept :: "pyfloat \<Rightarrow> packet_ids \<Rightarrow> packet_ids \<Rightarrow> bool" where
  "quarantine_kept now ids ids' \<longleftrightarrow> (\<forall>s i.
     (\<forall>e. (e, i) \<in> set (queue_of ids s) \<and> now < e \<longrightarrow> (e, i) \<in> set (queue_of ids' s)) \<and>
     (\<forall>e. (e, i) \<in> set (queue_of ids' s) \<longrightarrow>
        (e, i) \<in> set (queue_of ids s) \<or> (\<exists>t. in_use ids s i t \<and> e = quarantine_expiry t \<and> now < e)) \<and>
     (i \<in> blocked_of ids s \<longrightarrow> i \<in> blocked_of ids' s \<or> (\<exists>e \<le> now. (e, i) \<in> set (queue_of ids s))) \<and>
     (i \<in> blocked_of ids' s \<longrightarrow>
        i \<in> blocked_of ids s \<or> (\<exists>t. in_use ids s i t \<and> now < quarantine_expiry t)))"

lemma purge_loop_any:
  "purge_loop now q b = (q', b') \<Longrightarrow> set q' \<subseteq> set q \<and> (\<forall>e i. (e, i) \<in> set q \<and> now < e \<longrightarrow> (e, i) \<in> set q') \<and>
    b' \<subseteq> b \<and> (\<forall>i \<in> b. i \<in> b' \<or> (\<exists>e \<le> now. (e, i) \<in> set q))"
proof (induction now q b rule: purge_loop.induct)
  case (2 now e i q b)
  show ?case
  proof (cases "e \<le> now")
    case True
    then have "purge_loop now q (b - {i}) = (q', b')" using 2(2) by simp
    from 2(1) [OF True this] True show ?thesis by fastforce
  qed (use 2(2) in auto)
qed simp

lemma purge_kept: "quarantine_kept now ids (purge_packet_id_quarantine source now ids)"
proof -
  obtain q b where p: "purge_loop now (queue_of ids source) (blocked_of ids source) = (q, b)" by fastforce
  from purge_loop_any [OF p] show ?thesis
    by (auto simp: quarantine_kept_def purge_packet_id_quarantine_def p dict_get_default_set)
qed

lemma kept_trans:
  assumes "quarantine_kept now ids0 ids1" and "quarantine_kept now ids1 ids2" and "ids_by_source ids1 = ids_by_source ids0"
  shows "quarantine_kept now ids0 ids2"
proof -
  have use: "in_use ids1 = in_use ids0" using assms(3) by (simp add: in_use_def fun_eq_iff)
  note k1 = assms(1) [unfolded quarantine_kept_def, rule_format]
    and k2 = assms(2) [unfolded quarantine_kept_def use, rule_format]
  show ?thesis unfolding quarantine_kept_def
  proof (intro allI conjI impI)
    fix s i assume "i \<in> blocked_of ids0 s"
    then consider "i \<in> blocked_of ids1 s" | e where "e \<le> now" "(e, i) \<in> set (queue_of ids0 s)" using k1 by blast
    then show "i \<in> blocked_of ids2 s \<or> (\<exists>e \<le> now. (e, i) \<in> set (queue_of ids0 s))"
    proof cases
      case 1
      then consider "i \<in> blocked_of ids2 s" | e where "e \<le> now" "(e, i) \<in> set (queue_of ids1 s)" using k2 by blast
      then show ?thesis
      proof cases
        case (2 e)
        then have "(e, i) \<in> set (queue_of ids0 s)" using k1 [of i s] by (meson leD)
        with 2 show ?thesis by blast
      qed blast
    qed blast
  qed (use k1 k2 in \<open>blast+\<close>)
qed

lemma retire_sources_kept:
  "retire_sources now us ids = (ids', out) \<Longrightarrow> set us \<subseteq> set (ids_by_source ids) \<Longrightarrow> quarantine_kept now ids ids'"
proof (induction now us ids rule: retire_sources.induct)
  case (1 now ids)
  then show ?case by (simp add: quarantine_kept_def)
next
  case (2 now source u us ids)
  define ids1 where "ids1 = purge_packet_id_quarantine source now ids"
  define retained where "retained = map (\<lambda>(i, allocated_at). (quarantine_expiry allocated_at, i))
      (filter (\<lambda>(i, allocated_at). now < quarantine_expiry allocated_at) u)"
  define ids2 where "ids2 = ids1\<lparr>ids_quarantine := dict_set source (queue_of ids1 source @ retained) (ids_quarantine ids1),
      ids_quarantined := dict_set source (blocked_of ids1 source \<union> snd ` set retained) (ids_quarantined ids1)\<rparr>"
  have k1: "quarantine_kept now ids ids1" unfolding ids1_def by (rule purge_kept)
  have by1: "ids_by_source ids1 = ids_by_source ids" "ids_by_source ids2 = ids_by_source ids" by (simp_all add: ids1_def ids2_def)
  show ?case
  proof (cases "MAX_QUARANTINED_PACKET_IDS_PER_SOURCE < length (queue_of ids1 source) + length retained")
    case True
    then have "ids' = ids1" using "2.prems"(1) by (simp add: Let_def ids1_def retained_def)
    with k1 show ?thesis by simp
  next
    case False
    then have step: "retire_sources now us ids2 = (ids', out)"
      using "2.prems"(1) by (simp add: Let_def ids1_def ids2_def retained_def)
    have ret: "\<exists>t. in_use ids1 source i t \<and> e = quarantine_expiry t \<and> now < e" if "(e, i) \<in> set retained" for e i
      using that "2.prems"(2) by (auto simp: retained_def in_use_def by1)
    then have "quarantine_kept now ids1 ids2" by (fastforce simp: quarantine_kept_def ids2_def dict_get_default_set)
    then have "quarantine_kept now ids ids2" by (rule kept_trans [OF k1 _ by1(1)])
    moreover have "quarantine_kept now ids2 ids'"
      using "2.IH" [OF refl refl refl refl, folded ids1_def, folded retained_def, folded ids2_def, OF False step]
        "2.prems"(2) by (simp add: by1)
    ultimately show ?thesis by (rule kept_trans [OF _ _ by1(2)])
  qed
qed

lemma retire_refused:
  assumes "retire_packet_ids now ids = (ids', Inl e)"
  shows "quarantine_kept now ids ids' \<and> ids_by_source ids' = ids_by_source ids"
proof -
  have r: "retire_sources now (ids_by_source ids) ids = (ids', Inl e)"
    using assms by (auto simp: retire_packet_ids_def split: prod.splits sum.splits)
  then show ?thesis
    using retire_sources_kept [OF r subset_refl] retire_sources_used [of now "ids_by_source ids" ids] by simp
qed

lemma allocate_ok:
  assumes "\<And>s. ids_ok ids s" and "allocate_packet_id g source now ids s = Some (i, ids', s')"
  shows "ids_ok ids' u" and "kept ids now e \<Longrightarrow> fst e = source \<and> fst (snd e) = i \<longrightarrow> quarantine_expiry (snd (snd e)) \<le> now"
    and "kept ids now e \<Longrightarrow> kept ids' now e" and "kept ids' now (source, i, now)"
proof -
  define ids1 where "ids1 = purge_packet_id_quarantine source now ids"
  note pu = purge_ok [OF assms(1), where source = source and now = now, folded ids1_def]
  from assms(2) obtain s1 where draw: "draw_packet_id g (set (dict_keys (used_of ids1 source))) (blocked_of ids1 source) s = Some (i, s1)"
    and ids': "ids' = ids1\<lparr>ids_by_source := dict_set source (dict_set i now (used_of ids1 source)) (ids_by_source ids1)\<rparr>"
    by (auto simp: allocate_packet_id_def Let_def ids1_def bind_eq_Some_conv)
  have fresh: "i \<notin> set (dict_keys (used_of ids1 source))" "i \<notin> blocked_of ids1 source"
    using draw_packet_id_fresh [OF draw] by simp_all
  show "ids_ok ids' u" using pu(1) [of u] fresh
    by (auto simp: ids' ids_ok_def dict_get_default_set dict_simps dest!: subsetD [OF set_dict_set])
  show "fst e = source \<and> fst (snd e) = i \<longrightarrow> quarantine_expiry (snd (snd e)) \<le> now" if "kept ids now e"
  proof -
    have "dict_get (used_of ids1 source) i = None" using fresh(1) by (simp only: map_of_eq_None_iff set_map) simp
    then show ?thesis using pu(1) [of source] pu(2) [OF that] fresh(2)
      by (cases e) (force simp: kept_def ids_ok_def)
  qed
  then show "kept ids' now e" if "kept ids now e"
    using that pu(2) [OF that] by (cases e) (auto simp: ids' kept_def dict_get_default_set dict_simps)
  show "kept ids' now (source, i, now)" by (simp add: ids' kept_def dict_get_default_set dict_simps)
qed

lemma retire_sources_ok:
  "retire_sources now us ids = (ids', Inr ()) \<Longrightarrow> (\<And>s. queue_ok ids s) \<Longrightarrow> dict_wf us \<Longrightarrow>
   (\<And>s u. (s, u) \<in> set us \<Longrightarrow> dict_wf u \<and> set (dict_keys u) \<inter> blocked_of ids s = {}) \<Longrightarrow>
   (\<forall>s. queue_ok ids' s) \<and>
   (\<forall>s i e. (e, i) \<in> set (queue_of ids s) \<and> now < e \<longrightarrow> (e, i) \<in> set (queue_of ids' s)) \<and>
   (\<forall>s u i t. (s, u) \<in> set us \<and> dict_get u i = Some t \<and> now < quarantine_expiry t \<longrightarrow>
      (quarantine_expiry t, i) \<in> set (queue_of ids' s))"
proof (induction now us ids rule: retire_sources.induct)
  case (1 now ids)
  then show ?case by simp
next
  case (2 now source u us ids)
  define ids1 where "ids1 = purge_packet_id_quarantine source now ids"
  note pq = purge_queue [OF "2.prems"(2) [of source], where now = now, folded ids1_def]
  define retained where "retained = map (\<lambda>(i, allocated_at). (quarantine_expiry allocated_at, i))
      (filter (\<lambda>(i, allocated_at). now < quarantine_expiry allocated_at) u)"
  define ids2 where "ids2 = ids1\<lparr>ids_quarantine := dict_set source (queue_of ids1 source @ retained) (ids_quarantine ids1),
      ids_quarantined := dict_set source (blocked_of ids1 source \<union> snd ` set retained) (ids_quarantined ids1)\<rparr>"
  have step: "retire_sources now us ids2 = (ids', Inr ())"
    using "2.prems"(1) by (simp add: Let_def ids1_def ids2_def retained_def split: if_splits)
  have u: "dict_wf u" "set (dict_keys u) \<inter> blocked_of ids source = {}" using "2.prems"(4) [of source u] by simp_all
  have "map snd retained = map fst (filter (\<lambda>(i, t). now < quarantine_expiry t) u)"
    by (simp add: retained_def case_prod_unfold comp_def)
  moreover have "distinct (map fst (filter (\<lambda>(i, t). now < quarantine_expiry t) u))"
    using u(1) by (simp add: distinct_map_filter)
  ultimately have "distinct (map snd retained)" by simp
  moreover have "snd ` set retained \<subseteq> set (dict_keys u)" by (force simp: retained_def)
  ultimately have ret: "distinct (map snd retained)" "snd ` set retained \<subseteq> set (dict_keys u)" by simp_all
  have q1: "queue_ok ids1 s" for s using pq(1) "2.prems"(2) by simp
  have "snd ` set (queue_of ids1 source) \<inter> snd ` set retained = {}"
    using q1 [of source] ret(2) u(2) pq(2) [of source] unfolding queue_ok_def by blast
  then have q2: "queue_ok ids2 s" for s
    using q1 [of s] ret(1) by (cases "s = source") (auto simp: queue_ok_def ids2_def dict_get_default_set)
  have b2: "blocked_of ids2 s \<subseteq> blocked_of ids s" if "s \<noteq> source" for s
    using that pq(2) [of s] by (simp add: ids2_def dict_get_default_set)
  have keep: "(e, i) \<in> set (queue_of ids2 s)" if "(e, i) \<in> set (queue_of ids s)" "now < e" for e i s
    using pq(3) [OF that] by (auto simp: ids2_def dict_get_default_set)
  have new: "(quarantine_expiry t, i) \<in> set (queue_of ids2 source)" if "dict_get u i = Some t" "now < quarantine_expiry t" for i t
    using map_of_SomeD [OF that(1)] that(2) by (force simp: ids2_def dict_get_default_set retained_def)
  have hyp: "dict_wf v \<and> set (dict_keys v) \<inter> blocked_of ids2 s = {}" if "(s, v) \<in> set us" for s v
  proof -
    have "s \<noteq> source" using that "2.prems"(3) by force
    then show ?thesis using "2.prems"(4) [of s v] that b2 by auto
  qed
  have "\<not> MAX_QUARANTINED_PACKET_IDS_PER_SOURCE < length (queue_of ids1 source) + length retained"
    using "2.prems"(1) by (auto simp: Let_def ids1_def retained_def split: if_splits)
  note IH = "2.IH" [OF refl refl refl refl, folded ids1_def, folded retained_def, folded ids2_def, OF this step q2 _ hyp]
  show ?case using IH "2.prems"(3) keep new by auto
qed

lemma retire_ok:
  assumes "\<And>s. ids_ok ids s" and "dict_wf (ids_by_source ids)" and "retire_packet_ids now ids = (ids', Inr ())"
  shows "ids_ok ids' u" and "kept ids now e \<Longrightarrow> kept ids' now e" and "dict_wf (ids_by_source ids')"
proof -
  obtain ids1 where r: "retire_sources now (ids_by_source ids) ids = (ids1, Inr ())" and ids': "ids' = ids1\<lparr>ids_by_source := []\<rparr>"
    using assms(3) by (auto simp: retire_packet_ids_def split: prod.splits sum.splits)
  have used: "used_of ids s = u" if "(s, u) \<in> set (ids_by_source ids)" for s u
    using that assms(2) by (simp add: dict_get_default_def)
  have "queue_ok ids s" for s using assms(1) by (simp add: ids_ok_queue)
  moreover have "dict_wf u \<and> set (dict_keys u) \<inter> blocked_of ids s = {}" if "(s, u) \<in> set (ids_by_source ids)" for s u
    using assms(1) [of s] used [OF that] by (simp add: ids_ok_queue)
  ultimately have q: "\<And>s. queue_ok ids1 s"
    "\<And>s i e. (e, i) \<in> set (queue_of ids s) \<Longrightarrow> now < e \<Longrightarrow> (e, i) \<in> set (queue_of ids1 s)"
    "\<And>s u i t. (s, u) \<in> set (ids_by_source ids) \<Longrightarrow> dict_get u i = Some t \<Longrightarrow> now < quarantine_expiry t \<Longrightarrow>
      (quarantine_expiry t, i) \<in> set (queue_of ids1 s)"
    using retire_sources_ok [OF r _ assms(2)] by blast+
  show "ids_ok ids' u" using q(1) [of u] by (simp add: ids' ids_ok_queue queue_ok_def dict_get_default_def)
  show "dict_wf (ids_by_source ids')" by (simp add: ids')
  show "kept ids' now e" if old: "kept ids now e"
  proof -
    obtain s i t where e: "e = (s, i, t)" by (cases e)
    consider "dict_get (used_of ids s) i = Some t" | "(quarantine_expiry t, i) \<in> set (queue_of ids s)"
      | "quarantine_expiry t \<le> now" using old by (auto simp: kept_def e)
    then show ?thesis
    proof cases
      case 1
      then obtain u where "(s, u) \<in> set (ids_by_source ids)" "dict_get u i = Some t"
        by (auto simp: dict_get_default_def dest: map_of_SomeD split: option.splits)
      then show ?thesis using q(3) by (auto simp: kept_def e ids' not_le [symmetric])
    qed (use q(2) in \<open>auto simp: kept_def e ids' not_le [symmetric]\<close>)
  qed
qed

lemma history_inv:
  "id_history g t ids hist \<Longrightarrow> (\<forall>u. Refused u \<notin> set hist) \<Longrightarrow>
   (\<forall>s. ids_ok ids s) \<and> dict_wf (ids_by_source ids) \<and> (\<forall>s i u. Allocated s i u \<in> set hist \<longrightarrow> kept ids t (s, i, u))"
proof (induction rule: id_history.induct)
  case (start t)
  show ?case by (simp add: no_packet_ids_def ids_ok_def dict_get_default_def)
next
  case (allocate t ids hist now source s i ids' s')
  then have "\<And>s. ids_ok ids s" "dict_wf (ids_by_source ids)" "\<And>s i u. Allocated s i u \<in> set hist \<Longrightarrow> kept ids t (s, i, u)"
    by simp_all
  note inv = this and al = allocate_ok [OF this(1) allocate.hyps(3)]
  have "dict_wf (ids_by_source ids')"
    using inv(2) purge_ok(3) [OF inv(1)] allocate.hyps(3) by (auto simp: allocate_packet_id_def Let_def bind_eq_Some_conv)
  moreover have "kept ids' now (s, i, u)" if "Allocated s i u \<in> set hist" for s i u
    using al(3) inv(3) [OF that] allocate.hyps(2) kept_later by blast
  ultimately show ?case using al(1,4) by auto
next
  case (retire t ids hist now ids')
  then have inv: "\<And>s. ids_ok ids s" "dict_wf (ids_by_source ids)" "\<And>s i u. Allocated s i u \<in> set hist \<Longrightarrow> kept ids t (s, i, u)"
    by simp_all
  note ret = retire_ok [OF inv(1,2) retire.hyps(3)]
  have "kept ids' now (s, i, u)" if "Allocated s i u \<in> set hist" for s i u
    using ret(2) inv(3) [OF that] retire.hyps(2) kept_later by blast
  then show ?case using ret(1,3) by simp
next
  case (refuse t ids hist now ids' e)
  then show ?case by auto
qed

text \<open>With or without refusals, what was allocated since the last retirement is in use.\<close>

lemma history_used:
  "id_history g t ids (newer @ Allocated s i u # older) \<Longrightarrow> (\<forall>v. Retired v \<notin> set newer) \<Longrightarrow> dict_get (used_of ids s) i \<noteq> None"
proof (induction t ids "newer @ Allocated s i u # older" arbitrary: newer rule: id_history.induct)
  case (allocate t ids hist now source s0 j ids' s1)
  note used = allocate_used(2) [OF allocate.hyps(4), of s]
  show ?case
  proof (cases newer)
    case Nil
    then show ?thesis using allocate.hyps(5) used by (simp add: dict_simps)
  next
    case (Cons e newer')
    then have "dict_get (used_of ids s) i \<noteq> None"
      using allocate.prems allocate.hyps(5) by (intro allocate.hyps(2)) auto
    then show ?thesis using used by (auto simp: dict_simps)
  qed
next
  case (retire t ids hist now ids')
  then show ?case by (cases newer) auto
next
  case (refuse t ids hist now ids' e)
  then obtain newer' where "newer = Refused now # newer'" "hist = newer' @ Allocated s i u # older" by (cases newer) auto
  then show ?case using refuse.hyps(2) refuse.prems retire_failed_used [OF refuse.hyps(4)] by simp
qed simp

lemma history_back: "id_history g now ids (newer @ hist) \<Longrightarrow> \<exists>t ids0. t \<le> now \<and> id_history g t ids0 hist"
proof (induction now ids "newer @ hist" arbitrary: newer rule: id_history.induct)
  case (start t)
  then show ?case using id_history.start by blast
next
  case (allocate t ids h now source s i ids' s')
  then show ?case by (cases newer) (auto intro: id_history.allocate order_trans)
next
  case (retire t ids h now ids')
  then show ?case by (cases newer) (auto intro: id_history.retire order_trans)
next
  case (refuse t ids h now ids' e)
  then show ?case by (cases newer) (auto intro: id_history.refuse order_trans)
qed

text \<open>
  C20. A packet identifier is not reused too early. Take any history of allocations and retirements,
  refused retirements included, with a clock that never goes back, and an identifier that a source is given
  again. The run of the earlier allocation has been retired in between, so within a run no identifier
  occurs twice; and the quarantine time since the earlier allocation has passed, provided that no
  retirement was refused for lack of capacity before. The proviso is needed: a refusal leaves identifiers
  queued twice, and \<open>refusal_allows_early_reuse\<close> below gives a history in which one is then reused early.
\<close>

theorem packet_id_reuse_is_late:
  assumes "id_history g now ids (newer @ Allocated source i t # between @ Allocated source i earlier # older)"
  shows "(\<exists>u. Retired u \<in> set between) \<and>
    (quarantine_expiry earlier \<le> t \<or> (\<exists>u. Refused u \<in> set (between @ older)))"
proof -
  let ?past = "between @ Allocated source i earlier # older"
  from history_back [OF assms] obtain t' ids' where "id_history g t' ids' (Allocated source i t # ?past)" by blast
  then obtain t0 ids0 s s' where past: "id_history g t0 ids0 ?past" "t0 \<le> t"
    and al: "allocate_packet_id g source t ids0 s = Some (i, ids', s')"
    by (cases rule: id_history.cases) auto
  have "\<exists>u. Retired u \<in> set between"
    using history_used [OF past(1)] allocate_used(1) [OF al] by (auto simp: map_of_eq_None_iff)
  moreover have "quarantine_expiry earlier \<le> t" if "\<forall>u. Refused u \<notin> set (between @ older)"
  proof -
    have "\<And>s. ids_ok ids0 s" and "kept ids0 t0 (source, i, earlier)" using history_inv [OF past(1)] that by auto
    from allocate_ok(2) [OF this(1) al kept_later [OF this(2) past(2)]] show ?thesis by simp
  qed
  ultimately show ?thesis by blast
qed

lemma expiry_300: "quarantine_expiry 0 = 300" "quarantine_expiry 300 = 600"
  using fl_of_int [of 300] fl_of_int [of 600]
  by (simp_all add: quarantine_expiry_def PACKET_ID_QUARANTINE_SECONDS_def fadd_def float_of_int_def)

lemma packet_id_reuse_is_late_witness:
  "\<exists>ids. id_history zero_rng 300 ids ([] @ Allocated ''a'' 1 300 # [Retired 0] @ Allocated ''a'' 1 0 # []) \<and> quarantine_expiry 0 \<le> 300"
proof -
  let ?i0 = "\<lparr>ids_by_source = [(''a'', [(1, 0)])], ids_quarantine = [(''a'', [])], ids_quarantined = [(''a'', {})]\<rparr>"
  let ?i1 = "\<lparr>ids_by_source = [], ids_quarantine = [(''a'', [(300, 1)])], ids_quarantined = [(''a'', {1})]\<rparr>"
  let ?i2 = "\<lparr>ids_by_source = [(''a'', [(1, 300)])], ids_quarantine = [(''a'', [])], ids_quarantined = [(''a'', {})]\<rparr>"
  have draw: "draw_packet_id zero_rng {} {} () = Some (1, ())"
    by (subst draw_packet_id.simps) (simp add: zero_rng_def)
  have "allocate_packet_id zero_rng ''a'' 0 no_packet_ids () = Some (1, ?i0, ())"
    by (simp add: allocate_packet_id_def no_packet_ids_def purge_packet_id_quarantine_def dict_get_default_def draw)
  from id_history.allocate [OF id_history.start [where t = 0] order.refl this]
  have "id_history zero_rng 0 ?i0 [Allocated ''a'' 1 0]" .
  moreover have "retire_packet_ids 0 ?i0 = (?i1, Inr ())"
    by (simp add: retire_packet_ids_def purge_packet_id_quarantine_def dict_get_default_def expiry_300
        MAX_QUARANTINED_PACKET_IDS_PER_SOURCE_def)
  ultimately have "id_history zero_rng 0 ?i1 [Retired 0, Allocated ''a'' 1 0]" by (auto intro: id_history.retire)
  moreover have "allocate_packet_id zero_rng ''a'' 300 ?i1 () = Some (1, ?i2, ())"
    by (simp add: allocate_packet_id_def purge_packet_id_quarantine_def dict_get_default_def draw)
  ultimately have h: "id_history zero_rng 300 ?i2 ([] @ Allocated ''a'' 1 300 # [Retired 0] @ Allocated ''a'' 1 0 # [])"
    using id_history.allocate [of zero_rng 0 ?i1 "[Retired 0, Allocated ''a'' 1 0]" 300 "''a''" "()" 1 ?i2 "()"] by simp
  from packet_id_reuse_is_late [OF h] h show ?thesis by auto
qed

subsection \<open>A refused retirement\<close>

text \<open>
  The proviso of the theorem is needed. Source a has used the identifiers 3, 1 and 2, and source b more
  than its quarantine can hold. The refused retirement puts a's identifiers into the quarantine and leaves
  them in use, so that the next successful retirement queues 1 and 2 a second time. Identifier 1 is reused
  when its first copy expires; the purge of its second copy then unblocks it while its newer entry still waits.
\<close>

definition echo_rng :: "int rng" where
  "echo_rng = \<lparr>rng_seed = (\<lambda>s. s), rng_random = (\<lambda>s. (0, s)), rng_randrange = (\<lambda>s _ _. (s, s)), rng_choice_index = (\<lambda>s _. (0, s))\<rparr>"

lemma echo_draw: "i \<notin> used \<Longrightarrow> i \<notin> blocked \<Longrightarrow> draw_packet_id echo_rng used blocked i = Some (i, i)"
  by (subst draw_packet_id.simps) (simp add: echo_rng_def)

definition many_ids :: "nat \<Rightarrow> (int, pyfloat) dict" where
  "many_ids n = map (\<lambda>k. (int k, 0)) [0..<n]"

definition two_sources :: "(string \<times> (int, pyfloat) dict) list \<Rightarrow> (pyfloat \<times> int) list \<Rightarrow> int set \<Rightarrow> packet_ids" where
  "two_sources used q blocked = \<lparr>ids_by_source = used, ids_quarantine = [(''a'', q), (''b'', [])],
     ids_quarantined = [(''a'', blocked), (''b'', {})]\<rparr>"

lemmas two_sources_defs = allocate_packet_id_def retire_packet_ids_def purge_packet_id_quarantine_def dict_get_default_def
  two_sources_def echo_draw

lemma history_many:
  "\<exists>hist. id_history echo_rng 0 (two_sources [(''a'', [(3, 0)]), (''b'', many_ids (Suc n))] [] {}) hist"
proof (induction n)
  case 0
  let ?i0 = "\<lparr>ids_by_source = [(''a'', [(3, 0)])], ids_quarantine = [(''a'', [])], ids_quarantined = [(''a'', {})]\<rparr>"
  have "allocate_packet_id echo_rng ''a'' 0 no_packet_ids 3 = Some (3, ?i0, 3)"
    by (simp add: two_sources_defs no_packet_ids_def)
  moreover have "allocate_packet_id echo_rng ''b'' 0 ?i0 0 =
      Some (0, two_sources [(''a'', [(3, 0)]), (''b'', many_ids (Suc 0))] [] {}, 0)"
    by (simp add: two_sources_defs many_ids_def)
  ultimately show ?case using id_history.allocate [OF _ order.refl] id_history.start [of echo_rng 0] by meson
next
  case (Suc n)
  then obtain hist where "id_history echo_rng 0 (two_sources [(''a'', [(3, 0)]), (''b'', many_ids (Suc n))] [] {}) hist" by blast
  moreover have "int (Suc n) \<notin> fst ` set (many_ids (Suc n))" by (auto simp: many_ids_def)
  then have "allocate_packet_id echo_rng ''b'' 0 (two_sources [(''a'', [(3, 0)]), (''b'', many_ids (Suc n))] [] {}) (int (Suc n)) =
      Some (int (Suc n), two_sources [(''a'', [(3, 0)]), (''b'', many_ids (Suc (Suc n)))] [] {}, int (Suc n))"
    by (simp add: two_sources_defs dict_set_fresh del: of_nat_Suc) (simp add: many_ids_def)
  ultimately show ?case using id_history.allocate [OF _ order.refl] by meson
qed

lemma expiries: "quarantine_expiry 0 = 300" "quarantine_expiry 50 = 350" "quarantine_expiry 100 = 400" "quarantine_expiry 350 = 650"
  using fl_of_int [of 300] fl_of_int [of 350] fl_of_int [of 400] fl_of_int [of 650]
  by (simp_all add: quarantine_expiry_def PACKET_ID_QUARANTINE_SECONDS_def fadd_def float_of_int_def)

lemma refused_steps:
  assumes "MAX_QUARANTINED_PACKET_IDS_PER_SOURCE < n"
  shows "allocate_packet_id echo_rng ''a'' 50 (two_sources [(''a'', [(3, 0)]), (''b'', many_ids n)] [] {}) 1 =
      Some (1, two_sources [(''a'', [(3, 0), (1, 50)]), (''b'', many_ids n)] [] {}, 1)"
    and "allocate_packet_id echo_rng ''a'' 100 (two_sources [(''a'', [(3, 0), (1, 50)]), (''b'', many_ids n)] [] {}) 2 =
      Some (2, two_sources [(''a'', [(3, 0), (1, 50), (2, 100)]), (''b'', many_ids n)] [] {}, 2)"
    and "\<exists>e. retire_packet_ids 100 (two_sources [(''a'', [(3, 0), (1, 50), (2, 100)]), (''b'', many_ids n)] [] {}) =
      (two_sources [(''a'', [(3, 0), (1, 50), (2, 100)]), (''b'', many_ids n)] [(300, 3), (350, 1), (400, 2)] {1, 2, 3}, Inl e)"
    and "retire_packet_ids 300 (two_sources [(''a'', [(3, 0), (1, 50), (2, 100)]), (''b'', many_ids n)] [(300, 3), (350, 1), (400, 2)] {1, 2, 3}) =
      (two_sources [] [(350, 1), (400, 2), (350, 1), (400, 2)] {1, 2}, Inr ())"
    and "allocate_packet_id echo_rng ''a'' 350 (two_sources [] [(350, 1), (400, 2), (350, 1), (400, 2)] {1, 2}) 1 =
      Some (1, two_sources [(''a'', [(1, 350)])] [(400, 2), (350, 1), (400, 2)] {2}, 1)"
    and "retire_packet_ids 360 (two_sources [(''a'', [(1, 350)])] [(400, 2), (350, 1), (400, 2)] {2}) =
      (two_sources [] [(400, 2), (350, 1), (400, 2), (650, 1)] {1, 2}, Inr ())"
    and "allocate_packet_id echo_rng ''a'' 400 (two_sources [] [(400, 2), (350, 1), (400, 2), (650, 1)] {1, 2}) 1 =
      Some (1, two_sources [(''a'', [(1, 400)])] [(650, 1)] {}, 1)"
proof -
  have many: "filter (\<lambda>(i, allocated_at). t < quarantine_expiry allocated_at) (many_ids n) = (if t < 300 then many_ids n else [])" for t
    unfolding many_ids_def by (auto simp: expiries filter_empty_conv intro: filter_True)
  have len: "length (many_ids n) = n" by (simp add: many_ids_def)
  note step = two_sources_defs expiries many len
  show "\<exists>e. retire_packet_ids 100 (two_sources [(''a'', [(3, 0), (1, 50), (2, 100)]), (''b'', many_ids n)] [] {}) =
      (two_sources [(''a'', [(3, 0), (1, 50), (2, 100)]), (''b'', many_ids n)] [(300, 3), (350, 1), (400, 2)] {1, 2, 3}, Inl e)"
    using assms by (auto simp: step MAX_QUARANTINED_PACKET_IDS_PER_SOURCE_def)
  show "allocate_packet_id echo_rng ''a'' 50 (two_sources [(''a'', [(3, 0)]), (''b'', many_ids n)] [] {}) 1 =
      Some (1, two_sources [(''a'', [(3, 0), (1, 50)]), (''b'', many_ids n)] [] {}, 1)"
    by (simp add: step image_iff insert_Diff_if)
  show "allocate_packet_id echo_rng ''a'' 100 (two_sources [(''a'', [(3, 0), (1, 50)]), (''b'', many_ids n)] [] {}) 2 =
      Some (2, two_sources [(''a'', [(3, 0), (1, 50), (2, 100)]), (''b'', many_ids n)] [] {}, 2)"
    by (simp add: step image_iff insert_Diff_if)
  show "retire_packet_ids 300 (two_sources [(''a'', [(3, 0), (1, 50), (2, 100)]), (''b'', many_ids n)] [(300, 3), (350, 1), (400, 2)] {1, 2, 3}) =
      (two_sources [] [(350, 1), (400, 2), (350, 1), (400, 2)] {1, 2}, Inr ())"
    by (auto simp: step MAX_QUARANTINED_PACKET_IDS_PER_SOURCE_def)
  show "allocate_packet_id echo_rng ''a'' 350 (two_sources [] [(350, 1), (400, 2), (350, 1), (400, 2)] {1, 2}) 1 =
      Some (1, two_sources [(''a'', [(1, 350)])] [(400, 2), (350, 1), (400, 2)] {2}, 1)"
    by (simp add: step image_iff insert_Diff_if)
  show "retire_packet_ids 360 (two_sources [(''a'', [(1, 350)])] [(400, 2), (350, 1), (400, 2)] {2}) =
      (two_sources [] [(400, 2), (350, 1), (400, 2), (650, 1)] {1, 2}, Inr ())"
    by (auto simp: step MAX_QUARANTINED_PACKET_IDS_PER_SOURCE_def)
  show "allocate_packet_id echo_rng ''a'' 400 (two_sources [] [(400, 2), (350, 1), (400, 2), (650, 1)] {1, 2}) 1 =
      Some (1, two_sources [(''a'', [(1, 400)])] [(650, 1)] {}, 1)"
    by (simp add: step image_iff insert_Diff_if)
qed

lemma refusal_allows_early_reuse:
  "\<exists>ids between older. id_history echo_rng 400 ids
     (Allocated ''a'' 1 400 # between @ Allocated ''a'' 1 350 # older) \<and> \<not> quarantine_expiry 350 \<le> 400"
proof -
  define n where "n = Suc MAX_QUARANTINED_PACKET_IDS_PER_SOURCE"
  then have "MAX_QUARANTINED_PACKET_IDS_PER_SOURCE < n" by simp
  note steps = refused_steps [OF this]
  obtain hist where "id_history echo_rng 0 (two_sources [(''a'', [(3, 0)]), (''b'', many_ids n)] [] {}) hist"
    using history_many unfolding n_def by blast
  from id_history.allocate [OF this _ steps(1)] have "id_history echo_rng 50
      (two_sources [(''a'', [(3, 0), (1, 50)]), (''b'', many_ids n)] [] {}) (Allocated ''a'' 1 50 # hist)" by simp
  note h = id_history.allocate [OF this _ steps(2)]
  obtain e where "retire_packet_ids 100 (two_sources [(''a'', [(3, 0), (1, 50), (2, 100)]), (''b'', many_ids n)] [] {}) =
      (two_sources [(''a'', [(3, 0), (1, 50), (2, 100)]), (''b'', many_ids n)] [(300, 3), (350, 1), (400, 2)] {1, 2, 3}, Inl e)"
    using steps(3) by blast
  note h = id_history.refuse [OF h _ this]
  note h = id_history.retire [OF h _ steps(4)]
  note h = id_history.allocate [OF h _ steps(5)]
  note h = id_history.retire [OF h _ steps(6)]
  note h = id_history.allocate [OF h _ steps(7)]
  from h have "id_history echo_rng 400 (two_sources [(''a'', [(1, 400)])] [(650, 1)] {})
      (Allocated ''a'' 1 400 # [Retired 360] @ Allocated ''a'' 1 350 #
       [Retired 300, Refused 100, Allocated ''a'' 2 100, Allocated ''a'' 1 50] @ hist)" by simp
  then show ?thesis by (intro exI conjI) (assumption, simp add: expiries)
qed

subsection \<open>When the draw loop returns\<close>

primrec nth_draw :: "'r rng \<Rightarrow> 'r \<Rightarrow> nat \<Rightarrow> int \<times> 'r" where
  "nth_draw g s 0 = rng_randrange g s 1 0xFFFFFFFF"
| "nth_draw g s (Suc n) = nth_draw g (snd (rng_randrange g s 1 0xFFFFFFFF)) n"

lemma draw_packet_id_nth:
  "fst (nth_draw g s n) \<notin> used \<union> blocked \<Longrightarrow> (\<And>m. m < n \<Longrightarrow> fst (nth_draw g s m) \<in> used \<union> blocked) \<Longrightarrow>
   draw_packet_id g used blocked s = Some (nth_draw g s n)"
proof (induction n arbitrary: s)
  case 0
  then show ?case by (subst draw_packet_id.simps) (auto split: prod.splits)
next
  case (Suc n)
  obtain i s' where d: "rng_randrange g s 1 0xFFFFFFFF = (i, s')" by fastforce
  have "fst (nth_draw g s' m) \<in> used \<union> blocked" if "m < n" for m
    using Suc.prems(2) [of "Suc m"] that d by simp
  then have "draw_packet_id g used blocked s' = Some (nth_draw g s' n)"
    using Suc.prems(1) d by (intro Suc.IH) simp_all
  moreover have "i \<in> used \<union> blocked" using Suc.prems(2) [of 0] d by simp
  ultimately show ?case using d by (subst draw_packet_id.simps) auto
qed

lemma draw_packet_id_diverges:
  "\<forall>n. fst (nth_draw g s n) \<in> used \<union> blocked \<Longrightarrow> draw_packet_id g used blocked s = None"
proof (rule ccontr)
  assume all: "\<forall>n. fst (nth_draw g s n) \<in> used \<union> blocked" and "draw_packet_id g used blocked s \<noteq> None"
  then obtain r where r: "draw_packet_id g used blocked s = Some r" by blast
  have "\<exists>n. r = nth_draw g s n" if "draw_packet_id g used blocked s = Some r" for r
    using that
  proof (rule draw_packet_id.raw_induct [where P = "\<lambda>g used blocked s r. \<exists>n. r = nth_draw g s n", rotated], goal_cases)
    case (1 draw g used blocked s r)
    obtain i s' where d: "rng_randrange g s 1 0xFFFFFFFF = (i, s')" by fastforce
    show ?case
    proof (cases "i \<notin> used \<and> i \<notin> blocked")
      case True
      then show ?thesis using 1(2) d by (intro exI [of _ 0]) simp
    next
      case False
      then have "draw g used blocked s' = Some r" using 1(2) d by auto
      from 1(1) [OF this] obtain n where "r = nth_draw g s' n" by blast
      then show ?thesis using d by (intro exI [of _ "Suc n"]) simp
    qed
  qed
  from this [OF r] obtain n where "r = nth_draw g s n" by blast
  then show False using draw_packet_id_fresh [of g used blocked s "fst r" "snd r"] r all by auto
qed

text \<open>The draw loop of a packet identifier returns exactly when the generator draws a free
  identifier at some point, and it returns the first one it draws.\<close>

theorem packet_id_draw_returns:
  "draw_packet_id g used blocked s =
     (if \<exists>n. fst (nth_draw g s n) \<notin> used \<union> blocked
      then Some (nth_draw g s (LEAST n. fst (nth_draw g s n) \<notin> used \<union> blocked)) else None)"
proof (cases "\<exists>n. fst (nth_draw g s n) \<notin> used \<union> blocked")
  case True
  then show ?thesis
    using draw_packet_id_nth [of g s "LEAST n. fst (nth_draw g s n) \<notin> used \<union> blocked" used blocked]
      LeastI_ex [OF True] not_less_Least by (metis (no_types, lifting))
next
  case False
  then show ?thesis using draw_packet_id_diverges by auto
qed

end

