(* ===== verification/Traffic_State.thy ===== *)
theory Traffic_State
  imports Traffic_Schedule Traffic_Ids Airtime Metrics Events Provenance
begin

text \<open>
  The state of \<^verbatim>\<open>TrafficController\<close> in \<^verbatim>\<open>src/backend/app/traffic/controller.py\<close> and
  its queries. The generated messages of the current run are the objects that the controller's
  dictionaries share: a reference to a message is its index in the run's message list, so a change
  through one dictionary is seen through all of them. Wall-clock timestamps are left out.
  \<^verbatim>\<open>time.monotonic()\<close> is an argument, read once per synchronous call. The task object is the
  flag \<open>t_task_active\<close>, and asyncio events are flags.
\<close>

subsection \<open>Constants\<close>

definition MAX_TOPOLOGY_CHANGES_PER_RUN :: nat where "MAX_TOPOLOGY_CHANGES_PER_RUN = 10000"
definition LIVE_LATENCY_SAMPLE_SIZE :: nat where "LIVE_LATENCY_SAMPLE_SIZE = 2048"
definition FIRMWARE_QUEUE_SUCCESS :: "int set" where "FIRMWARE_QUEUE_SUCCESS = {0, 35}"
definition INTERMEDIATE_TRANSMISSION_ATTEMPTS :: int where "INTERMEDIATE_TRANSMISSION_ATTEMPTS = 2"
definition RELIABLE_UNICAST_ATTEMPTS :: int where "RELIABLE_UNICAST_ATTEMPTS = 3"
definition MAX_DRAIN_SECONDS :: pyfloat where "MAX_DRAIN_SECONDS = 300"

subsection \<open>Data\<close>

record failed_reception_sample =
  fs_totals :: "(string, int) dict"
  fs_duplicate_totals :: "(string, int) dict"
  fs_missing_nodes :: "string list"

text \<open>What a sampler may return: nothing, a plain mapping, or a sample.\<close>

datatype raw_sample = No_Sample | Mapping_Sample "(string, int) dict" | Full_Sample failed_reception_sample

definition normalize_failed_reception_sample :: "raw_sample \<Rightarrow> failed_reception_sample" where
  "normalize_failed_reception_sample s =
     (case s of
        No_Sample \<Rightarrow> \<lparr>fs_totals = [], fs_duplicate_totals = [], fs_missing_nodes = []\<rparr>
      | Full_Sample f \<Rightarrow> f
      | Mapping_Sample d \<Rightarrow> \<lparr>fs_totals = d, fs_duplicate_totals = [], fs_missing_nodes = []\<rparr>)"

datatype run_state = Run_IDLE | Run_RUNNING | Run_STOPPING | Run_COMPLETED | Run_CANCELLED | Run_FAILED
datatype run_phase = Ph_GENERATING | Ph_DRAINING | Ph_FINALIZING | Ph_TERMINAL

record generated_message =
  g_sequence :: nat
  g_flow :: string
  g_source_node :: string
  g_destination_node :: string
  g_packet_id :: int
  g_generated_monotonic :: pyfloat
  g_submitted :: bool
  g_submission_error :: "string option"
  g_transmitted :: bool
  g_delivered_to :: "string list"
  g_acknowledged :: bool
  g_latency_ms :: "pyfloat option"

record topology_change =
  tc_event_sequence :: nat
  tc_monotonic_seconds :: pyfloat
  tc_link :: directed_link

record run_result =
  r_run_id :: string
  r_state :: run_state
  r_request :: traffic_request
  r_scenario :: scenario
  r_build :: build_metadata
  r_random_seed :: int
  r_finished :: bool
  r_requested :: int
  r_submitted :: int
  r_submission_failed :: int
  r_transmitted :: int
  r_delivered :: int
  r_failed_reception_metrics_complete :: bool
  r_missing_local_stats_nodes :: "string list"
  r_generated_messages :: "generated_message list"
  r_topology_changes :: "topology_change list"
  r_metrics :: metrics_snapshot
  r_failure :: "string option"

record controller =
  t_scenario :: scenario
  t_hardware_ids :: "(string, int) dict"
  t_broker :: event_broker
  t_build :: build_metadata
  t_settle_seconds :: "pyfloat option"
  t_has_sampler :: bool
  t_state :: run_state
  t_current :: "run_result option"
  t_frozen_result :: "run_result option"
  t_task_active :: bool
  t_finalization_done :: bool
  t_finalization_wait_timed_out :: bool
  t_phase :: run_phase
  t_drain_deadline :: "pyfloat option"
  t_event_stream_id :: "string option"
  t_run_scenario :: scenario
  t_sequence :: nat
  t_messages_by_packet :: "(int \<times> int, nat) dict"
  t_messages_by_key :: "(string \<times> nat, nat) dict"
  t_pending_submissions :: "(string \<times> int, nat) dict"
  t_routing_terminal_sequences :: "nat set"
  t_ids :: packet_ids
  t_delivered_sequences :: "nat set"
  t_latencies_ms :: "pyfloat list"
  t_live_latencies_ms :: "pyfloat list"
  t_rf_transmitters :: "string list"
  t_airtimes_ms :: "int list"
  t_relay_transmissions :: int
  t_duplicates :: int
  t_failed_receptions :: int
  t_latest_failed_receptions :: "(string, int) dict"
  t_latest_duplicate_receptions :: "(string, int) dict"
  t_drop_reasons :: "string list"
  t_drop_counts :: "(string, int) dict"
  t_event_loop_lag_ms :: "pyfloat option"
  t_generated_count :: int
  t_submitted_count :: int
  t_submission_failed_count :: int
  t_transmitted_count :: int
  t_unique_deliveries :: int
  t_receiver_deliveries :: int
  t_receiver_opportunities :: int
  t_acknowledgments :: int
  t_rf_transmission_count :: int
  t_observed_airtime_ms :: int
  t_per_node_transmit_counts :: "(string, int) dict"
  t_per_node_airtime_ms :: "(string, int) dict"
  t_maximum_packet_airtime_ms :: int
  t_maximum_retransmission_delay_ms :: int
  t_last_activity :: pyfloat
  t_activity_changed :: bool
  t_metrics :: "metrics_snapshot option"

definition new_controller :: "scenario \<Rightarrow> (string, int) dict \<Rightarrow> event_broker \<Rightarrow> build_metadata \<Rightarrow>
    pyfloat option \<Rightarrow> bool \<Rightarrow> pyfloat \<Rightarrow> controller" where
  "new_controller sc hardware_ids broker build settle has_sampler now =
     \<lparr>t_scenario = sc, t_hardware_ids = hardware_ids, t_broker = broker, t_build = build,
      t_settle_seconds = settle, t_has_sampler = has_sampler, t_state = Run_IDLE, t_current = None,
      t_frozen_result = None, t_task_active = False, t_finalization_done = True,
      t_finalization_wait_timed_out = False, t_phase = Ph_TERMINAL, t_drain_deadline = None,
      t_event_stream_id = None, t_run_scenario = sc, t_sequence = 0, t_messages_by_packet = [],
      t_messages_by_key = [], t_pending_submissions = [], t_routing_terminal_sequences = {},
      t_ids = no_packet_ids, t_delivered_sequences = {}, t_latencies_ms = [],
      t_live_latencies_ms = [], t_rf_transmitters = [], t_airtimes_ms = [],
      t_relay_transmissions = 0, t_duplicates = 0, t_failed_receptions = 0,
      t_latest_failed_receptions = [], t_latest_duplicate_receptions = [], t_drop_reasons = [],
      t_drop_counts = [], t_event_loop_lag_ms = None, t_generated_count = 0,
      t_submitted_count = 0, t_submission_failed_count = 0, t_transmitted_count = 0,
      t_unique_deliveries = 0, t_receiver_deliveries = 0, t_receiver_opportunities = 0,
      t_acknowledgments = 0, t_rf_transmission_count = 0, t_observed_airtime_ms = 0,
      t_per_node_transmit_counts = [], t_per_node_airtime_ms = [],
      t_maximum_packet_airtime_ms = 0, t_maximum_retransmission_delay_ms = 0,
      t_last_activity = now, t_activity_changed = False, t_metrics = None\<rparr>"

definition clear_accumulators :: "pyfloat \<Rightarrow> controller \<Rightarrow> controller" where
  "clear_accumulators now c =
     c\<lparr>t_finalization_wait_timed_out := False, t_sequence := 0,
       t_messages_by_packet := [], t_messages_by_key := [], t_pending_submissions := [],
       t_routing_terminal_sequences := {}, t_delivered_sequences := {}, t_latencies_ms := [],
       t_live_latencies_ms := [], t_rf_transmitters := [], t_airtimes_ms := [],
       t_relay_transmissions := 0, t_duplicates := 0, t_failed_receptions := 0,
       t_latest_failed_receptions := [], t_latest_duplicate_receptions := [],
       t_drop_reasons := [], t_drop_counts := [], t_event_loop_lag_ms := None,
       t_generated_count := 0, t_submitted_count := 0, t_submission_failed_count := 0,
       t_transmitted_count := 0, t_unique_deliveries := 0, t_receiver_deliveries := 0,
       t_receiver_opportunities := 0, t_acknowledgments := 0, t_rf_transmission_count := 0,
       t_observed_airtime_ms := 0, t_per_node_transmit_counts := [],
       t_per_node_airtime_ms := [], t_maximum_packet_airtime_ms := 0,
       t_maximum_retransmission_delay_ms := 0, t_last_activity := now,
       t_activity_changed := False, t_metrics := None\<rparr>"

definition reset_accumulators :: "pyfloat \<Rightarrow> controller \<Rightarrow> controller \<times> unit result" where
  "reset_accumulators now c =
     (case retire_packet_ids now (t_ids c) of
        (ids, Inl e) \<Rightarrow> (c\<lparr>t_ids := ids\<rparr>, Inl e)
      | (ids, Inr _) \<Rightarrow> (clear_accumulators now (c\<lparr>t_ids := ids\<rparr>), Inr ()))"

subsection \<open>Shared helpers\<close>

definition note_activity :: "pyfloat \<Rightarrow> controller \<Rightarrow> controller" where
  "note_activity now c = c\<lparr>t_last_activity := now, t_activity_changed := True\<rparr>"

definition accepts_run_events :: "bool \<Rightarrow> controller \<Rightarrow> bool" where
  "accepts_run_events allow_failed c \<longleftrightarrow>
     t_phase c \<in> {Ph_GENERATING, Ph_DRAINING} \<and>
     t_state c \<in> (if allow_failed then {Run_RUNNING, Run_STOPPING, Run_FAILED} else {Run_RUNNING, Run_STOPPING})"

definition publish_event :: "packet_event \<Rightarrow> controller \<Rightarrow> controller" where
  "publish_event e c = c\<lparr>t_broker := snd (broker_publish e (t_broker c))\<rparr>"

definition publish_metric_update_as :: "string \<Rightarrow> pyfloat \<Rightarrow> (string, metric_value) dict \<Rightarrow> controller \<Rightarrow> controller" where
  "publish_metric_update_as res now values c =
     (case t_current c of
        None \<Rightarrow> c
      | Some r \<Rightarrow>
          if t_event_stream_id c \<noteq> Some (b_stream_id (t_broker c)) then c
          else publish_event ((new_event now METRICS)\<lparr>e_traffic_run_id := Some (r_run_id r),
                 e_metric_update := values, e_result := Some res\<rparr>) c)"

abbreviation publish_metric_update :: "pyfloat \<Rightarrow> (string, metric_value) dict \<Rightarrow> controller \<Rightarrow> controller" where
  "publish_metric_update \<equiv> publish_metric_update_as ''update''"

text \<open>
  Changing a message through a reference, and a field of the current result. Once a run is frozen,
  \<^verbatim>\<open>current\<close> and the frozen result are the same object, so a change shows in both.
\<close>

definition map_current :: "(run_result \<Rightarrow> run_result) \<Rightarrow> controller \<Rightarrow> controller" where
  "map_current f c = c\<lparr>t_frozen_result := map_option f (t_frozen_result c), t_current := map_option f (t_current c)\<rparr>"

definition map_message :: "nat \<Rightarrow> (generated_message \<Rightarrow> generated_message) \<Rightarrow> controller \<Rightarrow> controller" where
  "map_message i f = map_current (\<lambda>r. r\<lparr>r_generated_messages :=
     (r_generated_messages r)[i := f (r_generated_messages r ! i)]\<rparr>)"

definition messages :: "controller \<Rightarrow> generated_message list" where
  "messages c = (case t_current c of None \<Rightarrow> [] | Some r \<Rightarrow> r_generated_messages r)"

definition traffic_event :: "pyfloat \<Rightarrow> string \<Rightarrow> string \<Rightarrow> generated_message \<Rightarrow> string \<Rightarrow> string option \<Rightarrow> packet_event" where
  "traffic_event now run_id source g res detail =
     (new_event now TRAFFIC)\<lparr>e_transmitter := Some source,
        e_intended_destination := Some (g_destination_node g),
        e_mesh_packet_id := Some (g_packet_id g), e_traffic_run_id := Some run_id,
        e_traffic_sequence := Some (int (g_sequence g)), e_port_number := Some TEXT_MESSAGE_APP,
        e_result := Some res, e_detail := detail\<rparr>"

subsection \<open>Metrics of the run\<close>

definition expected_acknowledgments :: "controller \<Rightarrow> int" where
  "expected_acknowledgments c =
     (case t_current c of
        None \<Rightarrow> 0
      | Some r \<Rightarrow> if q_kind (r_request r) = DIRECT_TEXT \<and> q_acknowledgment_requested (r_request r)
                  then t_submitted_count c else 0)"

definition delivered_ids_of :: "run_result \<Rightarrow> (string \<times> int) set" where
  "delivered_ids_of r =
     (if q_kind (r_request r) = DIRECT_TEXT
      then (\<lambda>m. (r_run_id r, int (g_sequence m))) `
        {m \<in> set (r_generated_messages r). g_destination_node m \<in> set (g_delivered_to m)}
      else (\<lambda>m. (r_run_id r, int (g_sequence m))) `
        {m \<in> set (r_generated_messages r). \<exists>v \<in> set (g_delivered_to m). v \<noteq> g_source_node m})"

definition receivers_per_broadcast_of :: "run_result \<Rightarrow> (string, int) dict" where
  "receivers_per_broadcast_of r =
     (if q_kind (r_request r) = BROADCAST_TEXT
      then dict_of (map (\<lambda>m. (show_nat (g_sequence m),
             int (card {v \<in> set (g_delivered_to m). v \<noteq> g_source_node m}))) (r_generated_messages r)) []
      else [])"

definition final_metrics :: "controller \<Rightarrow> metrics_snapshot result" where
  "final_metrics c = calculate_metrics
     \<lparr>generated = t_generated_count c,
      delivered_ids = (case t_current c of None \<Rightarrow> {} | Some r \<Rightarrow> delivered_ids_of r),
      delivered_count = None, acknowledged = t_acknowledgments c,
      acknowledgment_expected = expected_acknowledgments c, latencies_ms = t_latencies_ms c,
      rf_transmitters = t_rf_transmitters c, relay_transmissions = t_relay_transmissions c,
      duplicate_receptions = t_duplicates c, failed_receptions = t_failed_receptions c,
      drop_reasons = t_drop_reasons c, airtimes_ms = t_airtimes_ms c,
      event_loop_lag_ms = t_event_loop_lag_ms c,
      receiver_deliveries = Some (t_receiver_deliveries c),
      receiver_delivery_opportunities = Some (t_receiver_opportunities c),
      receivers_per_broadcast = Some (case t_current c of None \<Rightarrow> [] | Some r \<Rightarrow> receivers_per_broadcast_of r),
      rf_transmission_count = None, observed_airtime_ms = None, per_node_transmit_counts = None,
      per_node_airtime_ms = None, drops_by_reason = None\<rparr>"

definition live_metrics_snapshot :: "controller \<Rightarrow> metrics_snapshot result" where
  "live_metrics_snapshot c = calculate_metrics
     \<lparr>generated = t_generated_count c, delivered_ids = {},
      delivered_count = Some (t_unique_deliveries c), acknowledged = t_acknowledgments c,
      acknowledgment_expected = expected_acknowledgments c, latencies_ms = t_live_latencies_ms c,
      rf_transmitters = [], relay_transmissions = t_relay_transmissions c,
      duplicate_receptions = t_duplicates c, failed_receptions = t_failed_receptions c,
      drop_reasons = [], airtimes_ms = [], event_loop_lag_ms = t_event_loop_lag_ms c,
      receiver_deliveries = Some (t_receiver_deliveries c),
      receiver_delivery_opportunities = Some (t_receiver_opportunities c),
      receivers_per_broadcast = Some [], rf_transmission_count = Some (t_rf_transmission_count c),
      observed_airtime_ms = Some (t_observed_airtime_ms c),
      per_node_transmit_counts = Some (t_per_node_transmit_counts c),
      per_node_airtime_ms = Some (t_per_node_airtime_ms c),
      drops_by_reason = Some (t_drop_counts c)\<rparr>"

definition summary_metrics :: "metrics_snapshot \<Rightarrow> metrics_summary" where
  "summary_metrics s = metrics_summary.truncate s"

definition live_metrics :: "controller \<Rightarrow> metrics_summary result" where
  "live_metrics c = bind_result (live_metrics_snapshot c) (\<lambda>s. Inr (summary_metrics s))"

definition unresolved_direct_messages :: "controller \<Rightarrow> nat" where
  "unresolved_direct_messages c =
     (case t_current c of
        None \<Rightarrow> 0
      | Some r \<Rightarrow>
          if q_kind (r_request r) \<noteq> DIRECT_TEXT then 0
          else length (filter (\<lambda>m.
                 g_submission_error m = None \<and> g_sequence m \<notin> t_routing_terminal_sequences c \<and>
                 (\<not> g_submitted m \<or> g_destination_node m \<notin> set (g_delivered_to m) \<or>
                  (q_acknowledgment_requested (r_request r) \<and> \<not> g_acknowledged m)))
               (r_generated_messages r)))"

definition direct_messages_resolved :: "controller \<Rightarrow> bool" where
  "direct_messages_resolved c = (unresolved_direct_messages c = 0)"

definition drain_windows :: "controller \<Rightarrow> pyfloat \<times> pyfloat" where
  "drain_windows c =
     (case t_current c of
        None \<Rightarrow> (0, 0)
      | Some r \<Rightarrow>
          let packet_airtime_seconds = int_truediv (max (t_maximum_packet_airtime_ms c) 1) 1000;
              retransmission_delay_seconds = int_truediv
                (max (max (t_maximum_retransmission_delay_ms c) (t_maximum_packet_airtime_ms c)) 1) 1000;
              quiet_seconds = max 3 retransmission_delay_seconds;
              hop_limit = rf_hop_limit (sc_rf (t_run_scenario c));
              hop_transmissions = hop_limit + 1;
              origin_attempts = (if q_kind (r_request r) = DIRECT_TEXT \<and> q_acknowledgment_requested (r_request r)
                then RELIABLE_UNICAST_ATTEMPTS else 1);
              intermediate_attempts = (if 0 < hop_limit then INTERMEDIATE_TRANSMISSION_ATTEMPTS else 1);
              attempt_budget = max origin_attempts intermediate_attempts;
              deadline_seconds = fadd (fadd (fmul (fmul retransmission_delay_seconds (float_of_int hop_transmissions))
                  (float_of_int attempt_budget)) packet_airtime_seconds) quiet_seconds
          in (quiet_seconds, min MAX_DRAIN_SECONDS (max quiet_seconds deadline_seconds)))"

definition drain_deadline_seconds_remaining :: "pyfloat \<Rightarrow> controller \<Rightarrow> pyfloat option" where
  "drain_deadline_seconds_remaining now c =
     map_option (\<lambda>d. max 0 (fsub d now)) (t_drain_deadline c)"

subsection \<open>Results and summaries\<close>

record run_summary =
  s_run_id :: string
  s_state :: run_state
  s_phase :: run_phase
  s_request :: traffic_request
  s_scenario :: scenario
  s_build :: build_metadata
  s_random_seed :: int
  s_finished :: bool
  s_requested :: int
  s_submitted :: int
  s_submission_failed :: int
  s_transmitted :: int
  s_delivered :: int
  s_stats_complete :: bool
  s_missing_local_stats_nodes :: "string list"
  s_pending_firmware_admissions :: nat
  s_unresolved_direct_messages :: nat
  s_drain_deadline_seconds_remaining :: "pyfloat option"
  s_metrics :: metrics_summary
  s_failure :: "string option"

definition summarize_result :: "run_result \<Rightarrow> run_summary" where
  "summarize_result r =
     \<lparr>s_run_id = r_run_id r, s_state = r_state r, s_phase = Ph_TERMINAL, s_request = r_request r,
      s_scenario = r_scenario r, s_build = r_build r, s_random_seed = r_random_seed r,
      s_finished = r_finished r, s_requested = r_requested r, s_submitted = r_submitted r,
      s_submission_failed = r_submission_failed r, s_transmitted = r_transmitted r,
      s_delivered = r_delivered r, s_stats_complete = r_failed_reception_metrics_complete r,
      s_missing_local_stats_nodes = r_missing_local_stats_nodes r,
      s_pending_firmware_admissions = 0, s_unresolved_direct_messages = 0,
      s_drain_deadline_seconds_remaining = None, s_metrics = summary_metrics (r_metrics r),
      s_failure = r_failure r\<rparr>"

definition summary :: "pyfloat \<Rightarrow> controller \<Rightarrow> run_summary option result" where
  "summary now c =
     (case t_current c of
        None \<Rightarrow> Inr None
      | Some r \<Rightarrow>
          (case t_frozen_result c of
             Some f \<Rightarrow> Inr (Some (summarize_result f))
           | None \<Rightarrow>
               bind_result (live_metrics c) (\<lambda>m. Inr (Some
                 \<lparr>s_run_id = r_run_id r, s_state = t_state c, s_phase = t_phase c,
                  s_request = r_request r, s_scenario = r_scenario r, s_build = r_build r,
                  s_random_seed = r_random_seed r, s_finished = r_finished r,
                  s_requested = t_generated_count c, s_submitted = t_submitted_count c,
                  s_submission_failed = t_submission_failed_count c,
                  s_transmitted = t_transmitted_count c, s_delivered = t_unique_deliveries c,
                  s_stats_complete = r_failed_reception_metrics_complete r,
                  s_missing_local_stats_nodes = r_missing_local_stats_nodes r,
                  s_pending_firmware_admissions = length (t_pending_submissions c),
                  s_unresolved_direct_messages = unresolved_direct_messages c,
                  s_drain_deadline_seconds_remaining = drain_deadline_seconds_remaining now c,
                  s_metrics = m, s_failure = r_failure r\<rparr>))))"

definition run_result_of :: "controller \<Rightarrow> run_result option" where
  "run_result_of c = (case t_frozen_result c of Some f \<Rightarrow> Some f | None \<Rightarrow> t_current c)"

definition result_is_finalized :: "string \<Rightarrow> controller \<Rightarrow> bool" where
  "result_is_finalized run_id c =
     (case t_frozen_result c of None \<Rightarrow> False | Some f \<Rightarrow> r_run_id f = run_id)"

end
