(* ===== verification/Traffic_Handlers.thy ===== *)
theory Traffic_Handlers
  imports Traffic_State
begin

text \<open>
  The event handlers of \<^verbatim>\<open>TrafficController\<close> in
  \<^verbatim>\<open>src/backend/app/traffic/controller.py\<close>: what RF transmissions, drops, node statistics
  and messages from the radio do to the run. A handler that can raise returns the state it leaves
  behind together with the outcome, since the changes before the raise stay. One call reads the
  clock once. The protobuf parsers and Python's Unicode tables are the fields of \<open>env\<close>.
\<close>

record env =
  en_codec :: codec
  en_uspace :: "nat \<Rightarrow> bool"
  en_udigit :: "nat \<Rightarrow> nat option"
  en_error_name :: "int \<Rightarrow> string option"

subsection \<open>Correlating packets with messages\<close>

text \<open>The request that a routing response or an undecodable ciphertext of the sender stands for.\<close>

definition request_id_of :: "codec \<Rightarrow> string option \<Rightarrow> mesh_packet \<Rightarrow> controller \<Rightarrow> int option" where
  "request_id_of pb transmitter p c =
     (case (mesh_packet_port_number pb p, decoded_data p) of
        (Some ROUTING_APP, Some d) \<Rightarrow> if d_request_id d \<noteq> 0 then Some (d_request_id d) else None
      | (Some UNKNOWN_APP, _) \<Rightarrow>
          if p_rx_time p \<noteq> 0 \<and> transmitter \<noteq> None \<and>
             dict_get (t_hardware_ids c) (the transmitter) = Some (p_from p)
          then Some (p_rx_time p) else None
      | _ \<Rightarrow> None)"

text \<open>A response found this way is remembered under its own identity, for later retransmissions.\<close>

definition message_for_packet_identity ::
  "codec \<Rightarrow> string option \<Rightarrow> mesh_packet \<Rightarrow> controller \<Rightarrow> nat option \<times> controller" where
  "message_for_packet_identity pb transmitter p c =
     (case Option.bind (request_id_of pb transmitter p c)
             (\<lambda>rid. dict_get (t_messages_by_packet c) (p_to p, rid)) of
        Some i \<Rightarrow> (Some i, c\<lparr>t_messages_by_packet := dict_set (p_from p, p_id p) i (t_messages_by_packet c)\<rparr>)
      | None \<Rightarrow> (dict_get (t_messages_by_packet c) (p_from p, p_id p), c))"

definition correlated_delivery_message :: "env \<Rightarrow> mesh_packet \<Rightarrow> controller \<Rightarrow> nat option \<times> controller" where
  "correlated_delivery_message ev p c =
     (case t_current c of
        None \<Rightarrow> (None, c)
      | Some r \<Rightarrow>
          (case traffic_identifier_from_packet (en_codec ev) (en_uspace ev) (en_udigit ev) p of
             None \<Rightarrow> (None, c)
           | Some (run_id, sequence) \<Rightarrow>
               if run_id \<noteq> codes (r_run_id r) then (None, c)
               else (case message_for_packet_identity (en_codec ev) None p c of
                       (None, c1) \<Rightarrow> (None, c1)
                     | (Some i, c1) \<Rightarrow>
                         if int (g_sequence (r_generated_messages r ! i)) \<noteq> sequence then (None, c1)
                         else (Some i, c1))))"

subsection \<open>The RF medium reports\<close>

definition count_transmission :: "string \<Rightarrow> int \<Rightarrow> nat \<Rightarrow> controller \<Rightarrow> controller" where
  "count_transmission transmitter packet_airtime_ms i c =
     (let c1 = (if g_transmitted (messages c ! i) then c
                else map_message i (\<lambda>m. m\<lparr>g_transmitted := True\<rparr>)
                       (c\<lparr>t_transmitted_count := t_transmitted_count c + 1\<rparr>))
      in c1\<lparr>t_rf_transmitters := t_rf_transmitters c1 @ [transmitter],
            t_airtimes_ms := t_airtimes_ms c1 @ [packet_airtime_ms],
            t_rf_transmission_count := t_rf_transmission_count c1 + 1,
            t_observed_airtime_ms := t_observed_airtime_ms c1 + packet_airtime_ms,
            t_per_node_transmit_counts := counter_add transmitter 1 (t_per_node_transmit_counts c1),
            t_per_node_airtime_ms := counter_add transmitter packet_airtime_ms (t_per_node_airtime_ms c1)\<rparr>)"

definition record_rf_transmission :: "env \<Rightarrow> pyfloat \<Rightarrow> string \<Rightarrow> mesh_packet \<Rightarrow> int \<Rightarrow> controller \<Rightarrow>
    controller \<times> (string \<times> nat) option result" where
  "record_rf_transmission ev now transmitter p packet_airtime_ms c =
     (case t_current c of
        None \<Rightarrow> (c, Inr None)
      | Some r \<Rightarrow>
          if \<not> accepts_run_events False c then (c, Inr None)
          else case message_for_packet_identity (en_codec ev) (Some transmitter) p c of
            (None, c1) \<Rightarrow> (c1, Inr None)
          | (Some i, c1) \<Rightarrow>
              let m = messages c1 ! i in
              if \<not> g_submitted m then (c1, Inr None)
              else let c2 = count_transmission transmitter packet_airtime_ms i c1 in
                case dict_get (t_hardware_ids c2) transmitter of
                  None \<Rightarrow> (c2, Inl (KeyError transmitter))
                | Some hw \<Rightarrow>
                    let c3 = (if p_from p \<noteq> hw then c2\<lparr>t_relay_transmissions := t_relay_transmissions c2 + 1\<rparr> else c2);
                        c4 = publish_metric_update now
                          [(''rfTransmissions'', MV_int (t_rf_transmission_count c3)),
                           (''observedAirtimeMs'', MV_int (t_observed_airtime_ms c3)),
                           (''relayTransmissions'', MV_int (t_relay_transmissions c3)),
                           (''perNodeTransmitCounts'', MV_counts (t_per_node_transmit_counts c3)),
                           (''perNodeAirtimeMs'', MV_counts (t_per_node_airtime_ms c3))]
                          (note_activity now c3)
                    in (c4, Inr (Some (r_run_id r, g_sequence m))))"

definition add_drop :: "string \<Rightarrow> controller \<Rightarrow> controller" where
  "add_drop reason c = c\<lparr>t_drop_reasons := t_drop_reasons c @ [reason],
     t_drop_counts := counter_add reason 1 (t_drop_counts c)\<rparr>"

definition record_drop :: "env \<Rightarrow> pyfloat \<Rightarrow> string \<Rightarrow> mesh_packet \<Rightarrow> string \<Rightarrow> controller \<Rightarrow> controller" where
  "record_drop ev now transmitter p reason c =
     (if t_current c = None \<or> \<not> accepts_run_events False c then c
      else case message_for_packet_identity (en_codec ev) (Some transmitter) p c of
        (None, c1) \<Rightarrow> c1
      | (Some i, c1) \<Rightarrow>
          if \<not> g_submitted (messages c1 ! i) then c1
          else let c2 = note_activity now (add_drop reason c1)
               in publish_metric_update now [(''dropsByReason'', MV_counts (t_drop_counts c2))] c2)"

subsection \<open>Node statistics\<close>

definition record_failed_receptions :: "pyfloat \<Rightarrow> string \<Rightarrow> int \<Rightarrow> controller \<Rightarrow> controller" where
  "record_failed_receptions now node_id tot c =
     (if t_current c = None \<or> \<not> accepts_run_events True c then c
      else let c1 = c\<lparr>t_latest_failed_receptions := dict_set node_id tot (t_latest_failed_receptions c)\<rparr> in
        case dict_get (t_latest_failed_receptions c) node_id of
          None \<Rightarrow> c1
        | Some previous \<Rightarrow>
            let delta = max 0 (tot - previous);
                c2 = c1\<lparr>t_failed_receptions := t_failed_receptions c1 + delta\<rparr>
            in if delta \<noteq> 0
               then publish_metric_update now [(''failedReceptions'', MV_int (t_failed_receptions c2))] c2
               else c2)"

definition record_duplicate_receptions :: "pyfloat \<Rightarrow> string \<Rightarrow> int \<Rightarrow> controller \<Rightarrow> controller" where
  "record_duplicate_receptions now node_id tot c =
     (if t_current c = None \<or> \<not> accepts_run_events True c then c
      else let c1 = c\<lparr>t_latest_duplicate_receptions := dict_set node_id tot (t_latest_duplicate_receptions c)\<rparr> in
        case dict_get (t_latest_duplicate_receptions c) node_id of
          None \<Rightarrow> c1
        | Some previous \<Rightarrow>
            let delta = max 0 (tot - previous);
                c2 = c1\<lparr>t_duplicates := t_duplicates c1 + delta\<rparr>
            in if delta \<noteq> 0
               then publish_metric_update now [(''duplicateReceptions'', MV_int (t_duplicates c2))] c2
               else c2)"

subsection \<open>Topology changes and event-loop lag\<close>

definition ensure_topology_change_capacity :: "int \<Rightarrow> controller \<Rightarrow> unit result" where
  "ensure_topology_change_capacity additional c =
     (case t_current c of
        None \<Rightarrow> Inr ()
      | Some r \<Rightarrow>
          if \<not> accepts_run_events False c then Inr ()
          else if int MAX_TOPOLOGY_CHANGES_PER_RUN < int (length (r_topology_changes r)) + additional
          then Inl (RuntimeError (''traffic run cannot record more than '' @
            show_nat MAX_TOPOLOGY_CHANGES_PER_RUN @ '' topology changes''))
          else Inr ())"

definition record_topology_change :: "packet_event \<Rightarrow> directed_link \<Rightarrow> controller \<Rightarrow> controller \<times> unit result" where
  "record_topology_change e l c =
     (if t_current c = None \<or> \<not> accepts_run_events False c then (c, Inr ())
      else case ensure_topology_change_capacity 1 c of
        Inl err \<Rightarrow> (c, Inl err)
      | Inr _ \<Rightarrow>
          (map_current (\<lambda>r. r\<lparr>r_topology_changes := r_topology_changes r @
             [\<lparr>tc_event_sequence = e_sequence e, tc_monotonic_seconds = e_monotonic_seconds e, tc_link = l\<rparr>]\<rparr>) c,
           Inr ()))"

definition set_event_loop_lag :: "pyfloat \<Rightarrow> pyfloat \<Rightarrow> controller \<Rightarrow> controller" where
  "set_event_loop_lag now lag_ms c =
     (if t_current c \<noteq> None \<and> accepts_run_events False c
      then publish_metric_update now [(''eventLoopLagMs'', MV_float lag_ms)]
             (c\<lparr>t_event_loop_lag_ms := Some lag_ms\<rparr>)
      else c)"

subsection \<open>Firmware queue admission\<close>

definition lower_char :: "char \<Rightarrow> char" where
  "lower_char ch = (let n = of_char ch :: nat in if 65 \<le> n \<and> n \<le> 90 then char_of (n + 32) else ch)"

definition dashed :: "string \<Rightarrow> string" where
  "dashed s = map (\<lambda>ch. if ch = CHR ''_'' then CHR ''-'' else ch) (map lower_char s)"

definition firmware_queue_error :: "env \<Rightarrow> int \<Rightarrow> string" where
  "firmware_queue_error ev res =
     (let name = (if res = 32 then ''queue-full-or-unknown''
                  else if res = 33 then ''no-interface''
                  else if res = 34 then ''radio-disabled''
                  else case en_error_name ev res of Some n \<Rightarrow> dashed n | None \<Rightarrow> ''unknown'')
      in ''firmware queue rejected packet: '' @ name @ '' (res='' @ show_int res @ '')'')"

definition run_id_of :: "controller \<Rightarrow> string" where
  "run_id_of c = (case t_current c of None \<Rightarrow> [] | Some r \<Rightarrow> r_run_id r)"

definition publish_submission :: "pyfloat \<Rightarrow> string \<Rightarrow> nat \<Rightarrow> string \<Rightarrow> string option \<Rightarrow> controller \<Rightarrow> controller" where
  "publish_submission now source i res detail c =
     (let c1 = note_activity now c;
          c2 = publish_metric_update now
            [(''submitted'', MV_int (t_submitted_count c1)),
             (''submissionFailed'', MV_int (t_submission_failed_count c1))] c1
      in publish_event (traffic_event now (run_id_of c2) source (messages c2 ! i) res detail) c2)"

text \<open>The two outcomes of a submission, each counted once.\<close>

definition count_submitted :: "nat \<Rightarrow> controller \<Rightarrow> controller" where
  "count_submitted i c =
     map_current (\<lambda>r. r\<lparr>r_submitted := t_submitted_count c + 1\<rparr>)
       (map_message i (\<lambda>m. m\<lparr>g_submitted := True\<rparr>) (c\<lparr>t_submitted_count := t_submitted_count c + 1\<rparr>))"

definition count_submission_failed :: "nat \<Rightarrow> string \<Rightarrow> controller \<Rightarrow> controller" where
  "count_submission_failed i err c =
     map_current (\<lambda>r. r\<lparr>r_submission_failed := t_submission_failed_count c + 1\<rparr>)
       (map_message i (\<lambda>m. m\<lparr>g_submission_error := Some err\<rparr>)
          (c\<lparr>t_submission_failed_count := t_submission_failed_count c + 1\<rparr>))"

definition resolve_submission :: "pyfloat \<Rightarrow> string \<Rightarrow> nat \<Rightarrow> string option \<Rightarrow> controller \<Rightarrow> controller" where
  "resolve_submission now source i err c =
     (if t_current c = None \<or> g_submitted (messages c ! i) \<or> g_submission_error (messages c ! i) \<noteq> None then c
      else case err of
        None \<Rightarrow> publish_submission now source i ''submitted'' None (count_submitted i c)
      | Some e \<Rightarrow> publish_submission now source i ''submission-failed'' (Some e) (count_submission_failed i e c))"

definition record_queue_status :: "env \<Rightarrow> pyfloat \<Rightarrow> string \<Rightarrow> queue_status \<Rightarrow> controller \<Rightarrow> controller" where
  "record_queue_status ev now node_id status c =
     (let packet_id = qs_mesh_packet_id status in
      if packet_id = 0 then c
      else case dict_get (t_pending_submissions c) (node_id, packet_id) of
        None \<Rightarrow> c
      | Some i \<Rightarrow>
          let c1 = c\<lparr>t_pending_submissions := dict_pop (node_id, packet_id) (t_pending_submissions c)\<rparr> in
          if qs_res status \<in> FIRMWARE_QUEUE_SUCCESS then resolve_submission now node_id i None c1
          else resolve_submission now node_id i (Some (firmware_queue_error ev (qs_res status))) c1)"

fun resolve_all :: "pyfloat \<Rightarrow> ((string \<times> int) \<times> nat) list \<Rightarrow> controller \<Rightarrow> controller" where
  "resolve_all now [] c = c"
| "resolve_all now (((source, packet_id), i) # rest) c =
     resolve_all now rest (resolve_submission now source i (Some ''firmware queue admission timed out'') c)"

definition finalize_pending_submissions :: "pyfloat \<Rightarrow> controller \<Rightarrow> controller" where
  "finalize_pending_submissions now c =
     (resolve_all now (t_pending_submissions c) c)\<lparr>t_pending_submissions := []\<rparr>"

definition withdraw_submission :: "nat \<Rightarrow> controller \<Rightarrow> controller" where
  "withdraw_submission i c =
     (if g_submitted (messages c ! i)
      then map_current (\<lambda>r. r\<lparr>r_submitted := t_submitted_count c - 1\<rparr>)
             (map_message i (\<lambda>m. m\<lparr>g_submitted := False\<rparr>) (c\<lparr>t_submitted_count := t_submitted_count c - 1\<rparr>))
      else c)"

definition record_pretransmission_rejection :: "pyfloat \<Rightarrow> string \<Rightarrow> nat \<Rightarrow> string \<Rightarrow> controller \<Rightarrow> controller" where
  "record_pretransmission_rejection now source i reason c =
     (if t_current c = None \<or> g_submission_error (messages c ! i) \<noteq> None then c
      else let c1 = c\<lparr>t_pending_submissions :=
                 dict_pop (source, g_packet_id (messages c ! i)) (t_pending_submissions c)\<rparr>
           in publish_submission now source i ''submission-failed'' (Some reason)
                (count_submission_failed i reason (withdraw_submission i c1)))"

subsection \<open>Messages from the radio\<close>

text \<open>A delivery to node \<open>node_id\<close>, counted with its latency.\<close>

definition count_delivery :: "pyfloat \<Rightarrow> string \<Rightarrow> nat \<Rightarrow> controller \<Rightarrow> pyfloat \<times> controller" where
  "count_delivery now node_id i c =
     (let m = messages c ! i;
          c1 = map_message i (\<lambda>g. g\<lparr>g_delivered_to := g_delivered_to g @ [node_id]\<rparr>)
                 (c\<lparr>t_receiver_deliveries := t_receiver_deliveries c + 1\<rparr>);
          c2 = (if g_sequence m \<in> t_delivered_sequences c1 then c1
                else c1\<lparr>t_delivered_sequences := insert (g_sequence m) (t_delivered_sequences c1),
                        t_unique_deliveries := t_unique_deliveries c1 + 1\<rparr>);
          latency = fmul (fsub now (g_generated_monotonic m)) 1000;
          c3 = (if g_latency_ms m = None then map_message i (\<lambda>g. g\<lparr>g_latency_ms := Some latency\<rparr>) c2 else c2)
      in (latency, c3\<lparr>t_latencies_ms := t_latencies_ms c3 @ [latency],
            t_live_latencies_ms := push_bounded LIVE_LATENCY_SAMPLE_SIZE latency (t_live_latencies_ms c3)\<rparr>))"

definition handle_text :: "env \<Rightarrow> pyfloat \<Rightarrow> string \<Rightarrow> mesh_packet \<Rightarrow> run_result \<Rightarrow> controller \<Rightarrow> controller" where
  "handle_text ev now node_id p r c =
     (case correlated_delivery_message ev p c of
        (None, c1) \<Rightarrow> c1
      | (Some i, c1) \<Rightarrow>
          let m = messages c1 ! i in
          if \<not> g_submitted m then c1
          else if \<not> (if q_kind (r_request r) = DIRECT_TEXT then node_id = g_destination_node m
                     else node_id \<noteq> g_source_node m) then c1
          else if node_id \<in> set (g_delivered_to m)
          then (if t_has_sampler c1 then c1
                else let c2 = c1\<lparr>t_duplicates := t_duplicates c1 + 1\<rparr>
                     in publish_metric_update now [(''duplicateReceptions'', MV_int (t_duplicates c2))] c2)
          else let (latency, c2) = count_delivery now node_id i c1;
                   c3 = publish_metric_update now
                     [(''uniqueApplicationMessagesDelivered'', MV_int (t_unique_deliveries c2)),
                      (''receiverDeliveries'', MV_int (t_receiver_deliveries c2)),
                      (''latestLatencyMs'', MV_float latency)] (note_activity now c2)
               in publish_event ((new_event now APPLICATION_RECEIVE)
                    \<lparr>e_transmitter := Some (g_source_node m),
                     e_intended_destination := Some (g_destination_node m), e_receiver := Some node_id,
                     e_mesh_packet_id := Some (p_id p), e_traffic_run_id := Some (r_run_id r),
                     e_traffic_sequence := Some (int (g_sequence m)),
                     e_port_number := Some TEXT_MESSAGE_APP, e_result := Some ''delivered''\<rparr>) c3)"

text \<open>\<^verbatim>\<open>Routing.Error.Name\<close> raises for a number the enumeration does not name.\<close>

definition routing_error_name :: "routing_error \<Rightarrow> string result" where
  "routing_error_name e =
     (case e of
        NO_ERROR \<Rightarrow> Inr ''NONE''
      | RATE_LIMIT_EXCEEDED \<Rightarrow> Inr ''RATE_LIMIT_EXCEEDED''
      | OTHER_ERROR n \<Rightarrow> Inr n
      | UNNAMED_ERROR k \<Rightarrow> Inl (ValueError (''Enum Error has no name defined for value '' @ show_int k)))"

definition publish_routing :: "pyfloat \<Rightarrow> event_type \<Rightarrow> string \<Rightarrow> mesh_packet \<Rightarrow> run_result \<Rightarrow> nat \<Rightarrow> string \<Rightarrow>
    controller \<Rightarrow> controller" where
  "publish_routing now ty node_id p r sequence res c =
     publish_event ((new_event now ty)
       \<lparr>e_receiver := Some node_id, e_mesh_packet_id := Some (p_id p),
        e_traffic_run_id := Some (r_run_id r), e_traffic_sequence := Some (int sequence),
        e_port_number := Some ROUTING_APP, e_result := Some res\<rparr>) (note_activity now c)"

definition count_acknowledgment :: "pyfloat \<Rightarrow> nat \<Rightarrow> controller \<Rightarrow> controller" where
  "count_acknowledgment now i c =
     (if g_acknowledged (messages c ! i) then c
      else let c1 = map_message i (\<lambda>m. m\<lparr>g_acknowledged := True\<rparr>)
                      (c\<lparr>t_acknowledgments := t_acknowledgments c + 1\<rparr>)
           in publish_metric_update now [(''acknowledgments'', MV_int (t_acknowledgments c1))] c1)"

text \<open>An acknowledgment counts when it comes from the destination, or, for a broadcast, from
  another node than the sender.\<close>

definition handle_acknowledgment :: "pyfloat \<Rightarrow> string \<Rightarrow> mesh_packet \<Rightarrow> int \<Rightarrow> nat \<Rightarrow> run_result \<Rightarrow> controller \<Rightarrow>
    controller \<times> unit result" where
  "handle_acknowledgment now node_id p origin i r c =
     (let m = messages c ! i; accepted = (\<lambda>_ :: unit.
            (publish_routing now ACKNOWLEDGMENT node_id p r (g_sequence m) ''acknowledged''
               (count_acknowledgment now i c), Inr ()))
      in if q_kind (r_request r) = DIRECT_TEXT
         then case dict_get (t_hardware_ids c) (g_destination_node m) of
                None \<Rightarrow> (c, Inl (KeyError (g_destination_node m)))
              | Some hw \<Rightarrow> if p_from p \<noteq> hw then (c, Inr ()) else accepted ()
         else if p_from p = origin then (c, Inr ()) else accepted ())"

definition handle_routing_error :: "pyfloat \<Rightarrow> string \<Rightarrow> mesh_packet \<Rightarrow> nat \<Rightarrow> routing_error \<Rightarrow> run_result \<Rightarrow>
    controller \<Rightarrow> controller \<times> unit result" where
  "handle_routing_error now node_id p i e r c =
     (case routing_error_name e of
        Inl err \<Rightarrow> (c, Inl err)
      | Inr name \<Rightarrow>
          let sequence = g_sequence (messages c ! i);
              c1 = add_drop name (c\<lparr>t_routing_terminal_sequences := insert sequence (t_routing_terminal_sequences c)\<rparr>);
              c2 = publish_metric_update now [(''dropsByReason'', MV_counts (t_drop_counts c1))] c1
          in (publish_routing now ROUTING_ERROR node_id p r sequence name c2, Inr ()))"

definition handle_routing :: "env \<Rightarrow> pyfloat \<Rightarrow> string \<Rightarrow> mesh_packet \<Rightarrow> data_msg \<Rightarrow> run_result \<Rightarrow> controller \<Rightarrow>
    controller \<times> unit result" where
  "handle_routing ev now node_id p d r c =
     (case dict_get (t_hardware_ids c) node_id of
        None \<Rightarrow> (c, Inr ())
      | Some origin \<Rightarrow>
          (case dict_get (t_messages_by_packet c) (origin, d_request_id d) of
             None \<Rightarrow> (c, Inr ())
           | Some i \<Rightarrow>
               (case parse_routing (en_codec ev) (d_payload d) of
                  None \<Rightarrow> (c, Inl (DecodeError ''Error parsing message''))
                | Some e \<Rightarrow>
                    let transmitted = g_transmitted (messages c ! i) in
                    if e = RATE_LIMIT_EXCEEDED \<and> \<not> transmitted
                    then handle_routing_error now node_id p i e r
                           (record_pretransmission_rejection now node_id i
                              ''firmware text-message rate limit exceeded'' c)
                    else if \<not> transmitted then (c, Inr ())
                    else if e = NO_ERROR then handle_acknowledgment now node_id p origin i r c
                    else handle_routing_error now node_id p i e r c)))"

definition handle_from_radio :: "env \<Rightarrow> pyfloat \<Rightarrow> string \<Rightarrow> from_radio \<Rightarrow> controller \<Rightarrow> controller \<times> unit result" where
  "handle_from_radio ev now node_id message c =
     (case t_current c of
        None \<Rightarrow> (c, Inr ())
      | Some r \<Rightarrow>
          if \<not> accepts_run_events False c then (c, Inr ())
          else case message of
            FR_queueStatus status \<Rightarrow> (record_queue_status ev now node_id status c, Inr ())
          | FR_packet p \<Rightarrow>
              (case decoded_data p of
                 None \<Rightarrow> (c, Inr ())
               | Some d \<Rightarrow>
                   if d_portnum d = TEXT_MESSAGE_APP then (handle_text ev now node_id p r c, Inr ())
                   else if d_portnum d = ROUTING_APP \<and> d_request_id d \<noteq> 0
                   then handle_routing ev now node_id p d r c
                   else (c, Inr ()))
          | _ \<Rightarrow> (c, Inr ()))"

end
