(* ===== verification/Traffic_Run.thy ===== *)
theory Traffic_Run
  imports Traffic_Handlers
begin

text \<open>
  The life of a run in \<^verbatim>\<open>src/backend/app/traffic/controller.py\<close>: \<^verbatim>\<open>start\<close>,
  the task \<^verbatim>\<open>_run\<close> with its submissions and its drain, \<^verbatim>\<open>stop\<close>,
  \<^verbatim>\<open>fail\<close> and the finalization. Every stretch of code between two suspension points is
  one definition, so that the interleavings of the coroutines are sequences of these steps. The
  gateway is the function \<open>send\<close> on a world of type \<open>'w\<close>: \<^verbatim>\<open>send_to_radio\<close> never
  suspends, so a submission is one step.
\<close>

type_synonym 'w send = "string \<Rightarrow> to_radio \<Rightarrow> 'w \<Rightarrow> unit result \<times> 'w"

subsection \<open>Submitting one message\<close>

definition traffic_packet :: "controller \<Rightarrow> run_result \<Rightarrow> string \<Rightarrow> string \<Rightarrow> int \<Rightarrow> bytes \<Rightarrow> mesh_packet result" where
  "traffic_packet c r source destination packet_id payload =
     bind_result (if destination = ''broadcast'' then Inr 0xFFFFFFFF
                  else case dict_get (t_hardware_ids c) destination of
                         None \<Rightarrow> Inl (KeyError destination) | Some hw \<Rightarrow> Inr hw) (\<lambda>to.
       case dict_get (t_hardware_ids c) source of
         None \<Rightarrow> Inl (KeyError source)
       | Some from \<Rightarrow> Inr (empty_packet\<lparr>p_id := packet_id, p_to := to, p_from := from,
             p_want_ack := (q_kind (r_request r) = DIRECT_TEXT \<and> q_acknowledgment_requested (r_request r)),
             p_hop_limit := rf_hop_limit (sc_rf (t_run_scenario c)), p_reliable := True,
             p_variant := Decoded (text_data payload)\<rparr>))"

definition new_message :: "nat \<Rightarrow> string \<Rightarrow> string \<Rightarrow> string \<Rightarrow> int \<Rightarrow> pyfloat \<Rightarrow> generated_message" where
  "new_message sequence flow source destination packet_id now =
     \<lparr>g_sequence = sequence, g_flow = flow, g_source_node = source, g_destination_node = destination,
      g_packet_id = packet_id, g_generated_monotonic = now, g_submitted = False,
      g_submission_error = None, g_transmitted = False, g_delivered_to = [],
      g_acknowledged = False, g_latency_ms = None\<rparr>"

text \<open>The message joins the run's list and the three dictionaries that refer to it.\<close>

definition register_message :: "pyfloat \<Rightarrow> generated_message \<Rightarrow> int \<Rightarrow> controller \<Rightarrow> controller" where
  "register_message now m origin c =
     (case t_current c of
        None \<Rightarrow> c
      | Some r \<Rightarrow>
          let i = length (r_generated_messages r);
              c1 = map_current (\<lambda>r. r\<lparr>r_generated_messages := r_generated_messages r @ [m],
                     r_requested := t_generated_count c + 1\<rparr>)
                   (c\<lparr>t_generated_count := t_generated_count c + 1,
                      t_receiver_opportunities := t_receiver_opportunities c +
                        (if q_kind (r_request r) = BROADCAST_TEXT
                         then int (length (sc_nodes (t_run_scenario c))) - 1 else 1)\<rparr>);
              c2 = publish_metric_update now [(''generatedApplicationMessages'', MV_int (t_generated_count c1))] c1
          in c2\<lparr>t_messages_by_packet := dict_set (origin, g_packet_id m) i (t_messages_by_packet c2),
                t_messages_by_key := dict_set (r_run_id r, g_sequence m) i (t_messages_by_key c2),
                t_pending_submissions := dict_set (g_source_node m, g_packet_id m) i (t_pending_submissions c2)\<rparr>)"

definition measure_packet :: "env \<Rightarrow> pyfloat \<Rightarrow> mesh_packet \<Rightarrow> controller \<Rightarrow> controller \<times> unit result" where
  "measure_packet ev now p c =
     (case mesh_packet_payload_length (en_codec ev) p of
        Inl e \<Rightarrow> (c, Inl e)
      | Inr len \<Rightarrow>
          let preset = rf_modem_preset (sc_rf (t_run_scenario c)) in
          case airtime_ms len preset of
            Inl e \<Rightarrow> (c, Inl e)
          | Inr airtime \<Rightarrow>
              let c1 = c\<lparr>t_maximum_packet_airtime_ms := max (t_maximum_packet_airtime_ms c) airtime\<rparr> in
              case maximum_retransmission_delay_ms len preset of
                Inl e \<Rightarrow> (c1, Inl e)
              | Inr delay \<Rightarrow>
                  (note_activity now (c1\<lparr>t_maximum_retransmission_delay_ms :=
                     max (t_maximum_retransmission_delay_ms c1) delay\<rparr>), Inr ()))"

text \<open>Handing the packet to the gateway; a failure there fails this one submission only.\<close>

definition hand_over :: "'w send \<Rightarrow> pyfloat \<Rightarrow> string \<Rightarrow> mesh_packet \<Rightarrow> nat \<Rightarrow> 'w \<Rightarrow> controller \<Rightarrow> controller \<times> 'w" where
  "hand_over send now source p i w c =
     (case send source (TR_packet p) w of
        (Inr _, w') \<Rightarrow> (c, w')
      | (Inl e, w') \<Rightarrow>
          (resolve_submission now source i (Some (''gateway submission failed: '' @ exc_text e))
             (c\<lparr>t_pending_submissions := dict_pop (source, p_id p) (t_pending_submissions c)\<rparr>), w'))"

text \<open>\<open>None\<close> means that drawing a packet identifier never ends.\<close>

definition submit :: "env \<Rightarrow> 'r rng \<Rightarrow> 'w send \<Rightarrow> pyfloat \<Rightarrow> string \<Rightarrow> string \<Rightarrow> string \<Rightarrow> 'r \<Rightarrow> 'w \<Rightarrow>
    controller \<Rightarrow> (controller \<times> 'r \<times> 'w \<times> unit result) option" where
  "submit ev g send now source destination flow s w c =
     (case t_current c of
        None \<Rightarrow> Some (c, s, w, Inr ())
      | Some r \<Rightarrow>
          let c1 = c\<lparr>t_sequence := t_sequence c + 1\<rparr> in
          case traffic_payload (r_run_id r) (t_sequence c1) (q_payload_bytes (r_request r)) of
            Inl e \<Rightarrow> Some (c1, s, w, Inl e)
          | Inr payload \<Rightarrow>
              Option.bind (allocate_packet_id g source now (t_ids c1) s) (\<lambda>(packet_id, ids, s').
                let c2 = c1\<lparr>t_ids := ids\<rparr> in
                case traffic_packet c2 r source destination packet_id payload of
                  Inl e \<Rightarrow> Some (c2, s', w, Inl e)
                | Inr p \<Rightarrow>
                    let m = new_message (t_sequence c2) flow source destination packet_id now;
                        c3 = register_message now m (p_from p) c2
                    in case measure_packet ev now p c3 of
                         (c4, Inl e) \<Rightarrow> Some (c4, s', w, Inl e)
                       | (c4, Inr _) \<Rightarrow>
                           let (c5, w') = hand_over send now source p (length (r_generated_messages r)) w c4
                           in Some (c5, s', w', Inr ())))"

subsection \<open>The generating task\<close>

record 'r run_task =
  rt_request :: traffic_request
  rt_plan :: run_plan
  rt_next_tick :: "(sched_key, nat) dict"
  rt_round_robin :: "(string, nat) dict list"
  rt_destination_randomizers :: "'r list"
  rt_packet_id_randomizer :: 'r

definition begin_run :: "'r rng \<Rightarrow> (string \<Rightarrow> int) \<Rightarrow> traffic_request \<Rightarrow> 'r run_task" where
  "begin_run g sha256_8 q =
     (let flows = scheduling_flows q in
      \<lparr>rt_request = q, rt_plan = make_plan g sha256_8 q, rt_next_tick = initial_ticks flows,
       rt_round_robin = initial_round_robin flows,
       rt_destination_randomizers = map (\<lambda>f. rng_seed g
         (if q_flows q = [] then q_seed q
          else flow_seed sha256_8 (q_seed q) (f_name f) FLOW_DESTINATION_RNG_SALT)) flows,
       rt_packet_id_randomizer = rng_seed g (Bit_Operations.xor (q_seed q) PACKET_ID_RNG_SALT)\<rparr>)"

text \<open>How long the task sleeps before its next message, for a run that started at \<open>started\<close>.\<close>

definition turn_delay :: "pyfloat \<Rightarrow> pyfloat \<Rightarrow> 'r run_task \<Rightarrow> pyfloat" where
  "turn_delay started now rt =
     (let (k, tick) = next_due (rt_plan rt) (rt_next_tick rt);
          offset = dict_get_default (pl_offsets (rt_plan rt) ! fst k) (snd k) 0;
          scheduled = fadd (fadd started offset) (fmul (float_of_int (int tick)) (pl_intervals (rt_plan rt) ! fst k))
      in max 0 (fsub scheduled now))"

text \<open>One turn of the \<^verbatim>\<open>while next_tick\<close> loop after its sleep.\<close>

definition run_turn :: "env \<Rightarrow> 'r rng \<Rightarrow> 'w send \<Rightarrow> pyfloat \<Rightarrow> 'r run_task \<Rightarrow> 'w \<Rightarrow> controller \<Rightarrow>
    ('r run_task \<times> controller \<times> 'w \<times> unit result) option" where
  "run_turn ev g send now rt w c =
     (let (k, tick) = next_due (rt_plan rt) (rt_next_tick rt);
          flow_index = fst k; source = snd k; f = pl_flows (rt_plan rt) ! flow_index
      in case choose_destination g (t_run_scenario c) (q_kind (rt_request rt)) (f_destination_strategy f)
                (f_fixed_destination f) source (rt_destination_randomizers rt ! flow_index)
                (rt_round_robin rt ! flow_index) of
           Inl e \<Rightarrow> Some (rt, c, w, Inl e)
         | Inr (destination, s1, rr) \<Rightarrow>
             let rt1 = rt\<lparr>rt_destination_randomizers := (rt_destination_randomizers rt)[flow_index := s1],
                          rt_round_robin := (rt_round_robin rt)[flow_index := rr]\<rparr> in
             Option.bind (submit ev g send now source destination (f_name f) (rt_packet_id_randomizer rt1) w c)
               (\<lambda>(c1, s2, w1, out).
                  let rt2 = rt1\<lparr>rt_packet_id_randomizer := s2\<rparr> in
                  case out of
                    Inl e \<Rightarrow> Some (rt2, c1, w1, Inl e)
                  | Inr _ \<Rightarrow> Some (rt2\<lparr>rt_next_tick := advance (rt_plan rt2) k tick (rt_next_tick rt2)\<rparr>, c1, w1, Inr ())))"

subsection \<open>Draining\<close>

text \<open>The task sleeps for a fixed time when one is configured.\<close>

definition begin_draining :: "controller \<Rightarrow> controller" where
  "begin_draining c = c\<lparr>t_phase := Ph_DRAINING\<rparr>"

definition drain_begin :: "pyfloat \<Rightarrow> controller \<Rightarrow> controller" where
  "drain_begin now c =
     (case t_settle_seconds c of
        Some settle \<Rightarrow> c\<lparr>t_drain_deadline := Some (fadd now settle)\<rparr>
      | None \<Rightarrow>
          if t_current c = None then c
          else c\<lparr>t_drain_deadline := Some (fadd now (snd (drain_windows c)))\<rparr>)"

datatype drain_decision = Drain_Return | Drain_Timeout | Drain_Wait pyfloat

definition ready_to_settle :: "controller \<Rightarrow> bool" where
  "ready_to_settle c \<longleftrightarrow> t_pending_submissions c = [] \<and>
     (case t_current c of None \<Rightarrow> True
      | Some r \<Rightarrow> q_kind (r_request r) = BROADCAST_TEXT \<or> direct_messages_resolved c)"

text \<open>One turn of the drain loop: leave, give up, or wait for activity for some seconds.\<close>

definition drain_check :: "pyfloat \<Rightarrow> pyfloat \<Rightarrow> pyfloat \<Rightarrow> controller \<Rightarrow> drain_decision \<times> controller" where
  "drain_check now quiet_seconds deadline c =
     (let quiet_remaining = fsub (fadd (t_last_activity c) quiet_seconds) now;
          ready = ready_to_settle c;
          deadline_remaining = fsub deadline now
      in if ready \<and> quiet_remaining \<le> 0 then (Drain_Return, c)
         else if deadline_remaining \<le> 0 then (Drain_Timeout, c)
         else (Drain_Wait (if ready then min deadline_remaining (max quiet_remaining (fl (1 / 1000)))
                           else deadline_remaining),
               c\<lparr>t_activity_changed := False\<rparr>))"

text \<open>Leaving the drain; after a timeout or a fixed sleep, unanswered submissions fail.\<close>

definition drain_end :: "pyfloat \<Rightarrow> bool \<Rightarrow> controller \<Rightarrow> controller" where
  "drain_end now timed_out c =
     (if timed_out then finalize_pending_submissions now c else c)\<lparr>t_drain_deadline := None\<rparr>"

subsection \<open>The final sample of the node statistics\<close>

fun sample_failed :: "pyfloat \<Rightarrow> (string \<times> int) list \<Rightarrow> string set \<Rightarrow> controller \<Rightarrow> string set \<times> controller" where
  "sample_failed now [] missing c = (missing, c)"
| "sample_failed now ((node_id, tot) # rest) missing c =
     (if dict_get (t_latest_failed_receptions c) node_id = None
      then sample_failed now rest (insert node_id missing) c
      else sample_failed now rest missing (record_failed_receptions now node_id tot c))"

fun sample_duplicates :: "pyfloat \<Rightarrow> (string \<times> int) list \<Rightarrow> controller \<Rightarrow> controller" where
  "sample_duplicates now [] c = c"
| "sample_duplicates now ((node_id, tot) # rest) c =
     sample_duplicates now rest
       (if dict_get (t_latest_duplicate_receptions c) node_id = None then c
        else record_duplicate_receptions now node_id tot c)"

definition node_ids :: "scenario \<Rightarrow> string list" where
  "node_ids sc = map sn_id (sc_nodes sc)"

definition sample_final_failed_receptions :: "pyfloat \<Rightarrow> raw_sample result \<Rightarrow> controller \<Rightarrow> controller" where
  "sample_final_failed_receptions now sampled c =
     (if \<not> t_has_sampler c then c
      else let sample = (case sampled of
                 Inr raw \<Rightarrow> normalize_failed_reception_sample raw
               | Inl _ \<Rightarrow> \<lparr>fs_totals = [], fs_duplicate_totals = [], fs_missing_nodes = node_ids (t_run_scenario c)\<rparr>)
        in case t_current c of
             None \<Rightarrow> c
           | Some r \<Rightarrow>
               let (missing, c1) = sample_failed now (fs_totals sample)
                     (set (r_missing_local_stats_nodes r) \<union> set (fs_missing_nodes sample)) c;
                   c2 = sample_duplicates now (fs_duplicate_totals sample) c1;
                   missing2 = missing \<union> (set (node_ids (t_run_scenario c)) - set (dict_keys (fs_totals sample)))
               in map_current (\<lambda>r. r\<lparr>r_missing_local_stats_nodes := sorted_list_of_set missing2,
                    r_failed_reception_metrics_complete := (missing2 = {})\<rparr>) c2)"

subsection \<open>Finalization\<close>

text \<open>The fields of a metrics summary as the values of a metric event.\<close>

definition optional_float :: "pyfloat option \<Rightarrow> metric_value" where
  "optional_float x = (case x of None \<Rightarrow> MV_none | Some v \<Rightarrow> MV_float v)"

definition summary_values :: "metrics_summary \<Rightarrow> (string, metric_value) dict" where
  "summary_values m =
     [(''generatedApplicationMessages'', MV_int (m_generated m)),
      (''uniqueApplicationMessagesDelivered'', MV_int (m_delivered m)),
      (''deliveryRatio'', optional_float (m_delivery_ratio m)),
      (''receiverDeliveries'', MV_int (m_receiver_deliveries m)),
      (''receiverDeliveryRatio'', optional_float (m_receiver_delivery_ratio m)),
      (''acknowledgmentSuccessRatio'', optional_float (m_acknowledgment_success_ratio m)),
      (''medianLatencyMs'', optional_float (m_median_latency_ms m)),
      (''p95LatencyMs'', optional_float (m_p95_latency_ms m)),
      (''p99LatencyMs'', optional_float (m_p99_latency_ms m)),
      (''rfTransmissions'', MV_int (m_rf_transmissions m)),
      (''rfTransmissionsPerDelivery'', optional_float (m_rf_transmissions_per_delivery m)),
      (''relayTransmissions'', MV_int (m_relay_transmissions m)),
      (''duplicateReceptions'', MV_int (m_duplicate_receptions m)),
      (''failedReceptions'', MV_int (m_failed_receptions m)),
      (''dropsByReason'', MV_counts (m_drops_by_reason m)),
      (''observedAirtimeMs'', MV_int (m_observed_airtime_ms m)),
      (''perNodeTransmitCounts'', MV_counts (m_per_node_transmit_counts m)),
      (''perNodeAirtimeMs'', MV_counts (m_per_node_airtime_ms m)),
      (''eventLoopLagMs'', optional_float (m_event_loop_lag_ms m))]"

text \<open>
  \<^verbatim>\<open>_finish\<close> up to its first thread: nothing happens when the run is frozen already, or
  (\<open>None\<close>) while another finalization is under way, which the caller waits for and then looks again; the
  code does not look at the frozen result again after its wait.
\<close>

definition finish_begin :: "pyfloat \<Rightarrow> controller \<Rightarrow> controller option" where
  "finish_begin now c =
     (if t_current c = None \<or> t_frozen_result c \<noteq> None then Some c
      else if \<not> t_finalization_done c then None
      else Some (finalize_pending_submissions now (c\<lparr>t_finalization_done := False, t_phase := Ph_FINALIZING\<rparr>)))"

definition terminal_result :: "run_state \<Rightarrow> metrics_snapshot \<Rightarrow> controller \<Rightarrow> run_result \<Rightarrow> run_result" where
  "terminal_result st m c r =
     r\<lparr>r_state := st, r_finished := True, r_requested := t_generated_count c,
       r_submitted := t_submitted_count c, r_submission_failed := t_submission_failed_count c,
       r_transmitted := t_transmitted_count c, r_delivered := t_unique_deliveries c, r_metrics := m\<rparr>"

text \<open>After the metrics thread: the terminal copy and its snapshot event.\<close>

definition finish_metrics :: "pyfloat \<Rightarrow> run_state \<Rightarrow> controller \<Rightarrow> controller \<times> run_result option result" where
  "finish_metrics now st c =
     (case t_current c of
        None \<Rightarrow> (c, Inr None)
      | Some r \<Rightarrow>
          (case final_metrics c of
             Inl e \<Rightarrow> (c\<lparr>t_finalization_done := True\<rparr>, Inl e)
           | Inr m \<Rightarrow>
               (publish_metric_update_as ''snapshot'' now (summary_values (summary_metrics m)) (c\<lparr>t_metrics := Some m\<rparr>),
                Inr (Some (terminal_result st m c r)))))"

definition persistence_failed :: "string \<Rightarrow> run_result \<Rightarrow> run_result" where
  "persistence_failed exc r =
     (let text = ''result persistence failed: '' @ exc
      in r\<lparr>r_state := Run_FAILED,
           r_failure := Some (case r_failure r of
             Some (x # xs) \<Rightarrow> (x # xs) @ ''; '' @ text | _ \<Rightarrow> text)\<rparr>)"

text \<open>After the persistence thread, which wrote the files or raised with the given text.\<close>

definition finish_freeze :: "string option \<Rightarrow> run_result \<Rightarrow> controller \<Rightarrow> controller" where
  "finish_freeze persist_error terminal c =
     (let frozen = (case persist_error of None \<Rightarrow> terminal | Some exc \<Rightarrow> persistence_failed exc terminal)
      in c\<lparr>t_frozen_result := Some frozen, t_current := Some frozen, t_state := r_state frozen,
           t_phase := Ph_TERMINAL, t_finalization_done := True\<rparr>)"

definition finish_end :: "pyfloat \<Rightarrow> run_state \<Rightarrow> string option \<Rightarrow> controller \<Rightarrow> controller \<times> unit result" where
  "finish_end now st persist_error c =
     (case finish_metrics now st c of
        (c1, Inr (Some terminal)) \<Rightarrow> (finish_freeze persist_error terminal c1, Inr ())
      | (c1, Inr None) \<Rightarrow> (c1, Inr ())
      | (c1, Inl e) \<Rightarrow> (c1, Inl e))"

subsection \<open>Starting a run\<close>

definition missing_stats_nodes :: "scenario \<Rightarrow> raw_sample \<Rightarrow> failed_reception_sample \<Rightarrow> bool \<Rightarrow> string set" where
  "missing_stats_nodes snapshot raw baseline has_sampler =
     (let expected = set (node_ids snapshot)
      in set (fs_missing_nodes baseline) \<union>
         (if \<not> has_sampler \<or> raw = No_Sample then expected
          else expected - set (dict_keys (fs_totals baseline))))"

definition new_result :: "string \<Rightarrow> traffic_request \<Rightarrow> scenario \<Rightarrow> build_metadata \<Rightarrow> string set \<Rightarrow> metrics_snapshot \<Rightarrow> run_result" where
  "new_result run_id q snapshot build missing m =
     \<lparr>r_run_id = run_id, r_state = Run_RUNNING, r_request = q, r_scenario = snapshot, r_build = build,
      r_random_seed = q_seed q, r_finished = False, r_requested = 0, r_submitted = 0,
      r_submission_failed = 0, r_transmitted = 0, r_delivered = 0,
      r_failed_reception_metrics_complete = (missing = {}),
      r_missing_local_stats_nodes = sorted_list_of_set missing, r_generated_messages = [],
      r_topology_changes = [], r_metrics = m, r_failure = None\<rparr>"

text \<open>The checks before anything changes; the snapshot defaults to the controller's scenario.\<close>

definition check_start :: "string \<Rightarrow> traffic_request \<Rightarrow> scenario \<Rightarrow> controller \<Rightarrow> unit result" where
  "check_start run_id q snapshot c =
     (let max_sequence = maximum_sequence q;
          marker_size = int (length (traffic_marker run_id (nat max_sequence)))
      in if t_task_active c then Inl (RuntimeError ''a traffic run is already active'')
         else bind_result (validate_request_nodes q snapshot) (\<lambda>_.
           if MAX_TRAFFIC_MESSAGES_PER_RUN < max_sequence
           then Inl (ValueError (''traffic run cannot schedule more than '' @
                  show_int MAX_TRAFFIC_MESSAGES_PER_RUN @ '' messages''))
           else if q_payload_bytes q < marker_size
           then Inl (ValueError (''payloadBytes '' @ show_int (q_payload_bytes q) @
                  '' is smaller than encoded traffic identifier '' @ show_int marker_size @
                  '' for sequence '' @ show_int max_sequence))
           else Inr ()))"

text \<open>The baseline of the node statistics is what later totals are compared with.\<close>

definition set_baseline :: "scenario \<Rightarrow> raw_sample \<Rightarrow> controller \<Rightarrow> controller" where
  "set_baseline snapshot raw c =
     (let baseline = normalize_failed_reception_sample raw
      in c\<lparr>t_event_stream_id := Some (b_stream_id (t_broker c)),
           t_latest_failed_receptions := dict_of (fs_totals baseline) (t_latest_failed_receptions c),
           t_latest_duplicate_receptions := dict_of (fs_duplicate_totals baseline) (t_latest_duplicate_receptions c),
           t_run_scenario := snapshot\<rparr>)"

definition install_run :: "string \<Rightarrow> traffic_request \<Rightarrow> scenario \<Rightarrow> raw_sample \<Rightarrow> metrics_snapshot \<Rightarrow> controller \<Rightarrow> controller" where
  "install_run run_id q snapshot raw m c =
     c\<lparr>t_current := Some (new_result run_id q snapshot (t_build c)
          (missing_stats_nodes snapshot raw (normalize_failed_reception_sample raw) (t_has_sampler c)) m),
       t_frozen_result := None, t_state := Run_RUNNING, t_phase := Ph_GENERATING, t_task_active := True\<rparr>"

definition start_run :: "pyfloat \<Rightarrow> string \<Rightarrow> traffic_request \<Rightarrow> scenario option \<Rightarrow> raw_sample \<Rightarrow> controller \<Rightarrow>
    controller \<times> string result" where
  "start_run now run_id q scenario_snapshot raw c =
     (let snapshot = (case scenario_snapshot of Some sc \<Rightarrow> sc | None \<Rightarrow> t_scenario c)
      in case check_start run_id q snapshot c of
           Inl e \<Rightarrow> (c, Inl e)
         | Inr _ \<Rightarrow>
             (case reset_accumulators now c of
                (c1, Inl e) \<Rightarrow> (c1, Inl e)
              | (c1, Inr _) \<Rightarrow>
                  let c2 = set_baseline snapshot raw c1
                  in case live_metrics_snapshot c2 of
                       Inl e \<Rightarrow> (c2, Inl e)
                     | Inr m \<Rightarrow> (install_run run_id q snapshot raw m c2, Inr run_id)))"

subsection \<open>Stopping and failing\<close>

text \<open>Cancelling the task also leaves the drain loop, whose \<^verbatim>\<open>finally\<close> clears the deadline.\<close>

definition cancel_run_task :: "controller \<Rightarrow> controller" where
  "cancel_run_task c = (if t_task_active c then c\<lparr>t_task_active := False, t_drain_deadline := None\<rparr> else c)"

datatype stop_action =
    Already_stopped
  | Wait_for_finalization
  | Finalization_refused
  | Sample_then_finish
  | Finalize_then_finish

text \<open>\<^verbatim>\<open>_wait_for_active_finalization\<close>: nothing to wait for, a wait, or a refusal.\<close>

definition active_finalization :: "controller \<Rightarrow> stop_action option" where
  "active_finalization c =
     (if t_finalization_done c then None
      else if t_finalization_wait_timed_out c then Some Finalization_refused
      else Some Wait_for_finalization)"

definition finalization_wait_timeout :: "controller \<Rightarrow> controller" where
  "finalization_wait_timeout c = c\<lparr>t_finalization_wait_timed_out := True\<rparr>"

definition stop_begin :: "controller \<Rightarrow> stop_action \<times> controller" where
  "stop_begin c =
     (if t_frozen_result c \<noteq> None then (Already_stopped, c)
      else case active_finalization c of
        Some a \<Rightarrow> (a, c)
      | None \<Rightarrow>
          if t_state c = Run_FAILED then (Sample_then_finish, cancel_run_task c)
          else if \<not> t_task_active c then (Already_stopped, c)
          else (Finalize_then_finish, cancel_run_task (c\<lparr>t_state := Run_STOPPING\<rparr>)))"

definition stop_target :: "controller \<Rightarrow> run_state" where
  "stop_target c = (if t_state c = Run_FAILED then Run_FAILED else Run_CANCELLED)"

definition fail_begin :: "string \<Rightarrow> controller \<Rightarrow> stop_action \<times> controller" where
  "fail_begin reason c =
     (case active_finalization c of
        Some a \<Rightarrow> (a, c)
      | None \<Rightarrow>
          if t_current c = None \<or> t_state c \<notin> {Run_RUNNING, Run_STOPPING, Run_FAILED} then (Already_stopped, c)
          else (Finalize_then_finish,
                cancel_run_task (map_current (\<lambda>r. r\<lparr>r_failure := Some reason\<rparr>) (c\<lparr>t_state := Run_STOPPING\<rparr>))))"

text \<open>The \<^verbatim>\<open>except\<close> branch of the task, before it finishes as failed.\<close>

definition run_raised :: "pyerr \<Rightarrow> controller \<Rightarrow> controller" where
  "run_raised e c = map_current (\<lambda>r. r\<lparr>r_failure := Some (exc_text e)\<rparr>) (c\<lparr>t_state := Run_STOPPING\<rparr>)"

text \<open>The task returns after it has finished the run.\<close>

definition run_done :: "controller \<Rightarrow> controller" where
  "run_done c = c\<lparr>t_task_active := False\<rparr>"

end
