(* ===== verification/Traffic_Invariant.thy ===== *)
theory Traffic_Invariant
  imports Traffic_Run
begin

text \<open>
  The bookkeeping invariant of the traffic controller. The counters that
  \<^verbatim>\<open>TrafficController\<close> keeps for its live view are, in every state that its steps can
  reach, what a recount of the message records and evidence lists gives. The steps are the
  definitions of \<open>Traffic_Handlers\<close> and \<open>Traffic_Run\<close> in any order that the guards of the
  code allow; the invariant is proved for each of them and lifted to runs by rule induction.
\<close>

named_theorems ctl_simps \<open>what an operation does to a field of the controller\<close>

subsection \<open>Counting in lists\<close>

definition count_if :: "('a \<Rightarrow> bool) \<Rightarrow> 'a list \<Rightarrow> int" where
  "count_if P xs = int (length (filter P xs))"

lemma count_if_simps [simp]:
  "count_if P [] = 0" "count_if P (xs @ [x]) = count_if P xs + of_bool (P x)"
  by (simp_all add: count_if_def)

lemma count_if_update:
  "i < length xs \<Longrightarrow> count_if P (xs[i := y]) = count_if P xs - of_bool (P (xs ! i)) + of_bool (P y)"
proof (induction xs arbitrary: i)
  case (Cons x xs)
  then show ?case by (cases i) (auto simp: count_if_def)
qed simp

lemma sum_list_update_int:
  "i < length xs \<Longrightarrow> sum_list (map f (xs[i := y])) = sum_list (map f xs) - f (xs ! i) + (f y :: int)"
  by (induction xs arbitrary: i) (auto split: nat.splits)

lemma map_update_same: "i < length xs \<Longrightarrow> f y = f (xs ! i) \<Longrightarrow> map f (xs[i := y]) = map f xs"
  by (simp add: map_update list_update_same_conv)

subsection \<open>The parts of the invariant\<close>

text \<open>A message is submitted or refused, never both; it is acknowledged only after it was
  transmitted, and transmitted only after it was submitted.\<close>

definition message_ok :: "generated_message \<Rightarrow> bool" where
  "message_ok m \<longleftrightarrow> (g_submitted m \<longrightarrow> g_submission_error m = None) \<and>
     (g_transmitted m \<longrightarrow> g_submitted m) \<and> (g_acknowledged m \<longrightarrow> g_transmitted m)"

definition counters_ok :: "generated_message list \<Rightarrow> int \<Rightarrow> int \<Rightarrow> int \<Rightarrow> int \<Rightarrow> int \<Rightarrow> bool" where
  "counters_ok ms gen sub failed sent ack \<longleftrightarrow>
     list_all message_ok ms \<and> gen = int (length ms) \<and> sub = count_if g_submitted ms \<and>
     failed = count_if (\<lambda>m. g_submission_error m \<noteq> None) ms \<and> sent = count_if g_transmitted ms \<and>
     ack = count_if g_acknowledged ms"

text \<open>Only the destination of a direct message, and never the source of a broadcast, receives it,
  and each receiver is counted once.\<close>

definition receivers_ok :: "traffic_kind option \<Rightarrow> generated_message \<Rightarrow> bool" where
  "receivers_ok kind m \<longleftrightarrow> distinct (g_delivered_to m) \<and>
     (kind = Some DIRECT_TEXT \<longrightarrow> set (g_delivered_to m) \<subseteq> {g_destination_node m}) \<and>
     (kind = Some BROADCAST_TEXT \<longrightarrow> g_source_node m \<notin> set (g_delivered_to m))"

definition delivered :: "generated_message \<Rightarrow> bool" where
  "delivered m \<longleftrightarrow> g_delivered_to m \<noteq> []"

definition deliveries_ok :: "traffic_kind option \<Rightarrow> generated_message list \<Rightarrow> nat set \<Rightarrow> int \<Rightarrow> int \<Rightarrow>
    pyfloat list \<Rightarrow> pyfloat list \<Rightarrow> bool" where
  "deliveries_ok kind ms seqs unique deliveries lats live \<longleftrightarrow>
     list_all (receivers_ok kind) ms \<and> distinct (map g_sequence ms) \<and>
     seqs = g_sequence ` set (filter delivered ms) \<and> unique = count_if delivered ms \<and>
     deliveries = sum_list (map (\<lambda>m. int (length (g_delivered_to m))) ms) \<and>
     int (length lats) = deliveries \<and> live = lastn LIVE_LATENCY_SAMPLE_SIZE lats"

definition radio_ok :: "string list \<Rightarrow> int list \<Rightarrow> int \<Rightarrow> int \<Rightarrow> (string, int) dict \<Rightarrow> (string, int) dict \<Rightarrow> bool" where
  "radio_ok txs airs n tot counts air_by_node \<longleftrightarrow>
     length airs = length txs \<and> n = int (length txs) \<and> tot = sum_list airs \<and>
     counts = counter_of txs \<and> air_by_node = counter_sum_from [] (zip txs airs)"

text \<open>References point into the message list; sequence numbers are used at most once.\<close>

definition refs_ok :: "generated_message list \<Rightarrow> nat \<Rightarrow> (int \<times> int, nat) dict \<Rightarrow> (string \<times> nat, nat) dict \<Rightarrow>
    (string \<times> int, nat) dict \<Rightarrow> bool" where
  "refs_ok ms sequence by_packet by_key pending \<longleftrightarrow>
     (\<forall>m \<in> set ms. g_sequence m \<le> sequence) \<and> (\<forall>(k, i) \<in> set by_packet. i < length ms) \<and>
     (\<forall>(k, i) \<in> set by_key. i < length ms) \<and> (\<forall>(k, i) \<in> set pending. i < length ms)"

definition kind_of :: "controller \<Rightarrow> traffic_kind option" where
  "kind_of c = map_option (\<lambda>r. q_kind (r_request r)) (t_current c)"

definition accounting :: "controller \<Rightarrow> bool" where
  "accounting c \<longleftrightarrow>
     counters_ok (messages c) (t_generated_count c) (t_submitted_count c) (t_submission_failed_count c)
       (t_transmitted_count c) (t_acknowledgments c) \<and>
     deliveries_ok (kind_of c) (messages c) (t_delivered_sequences c) (t_unique_deliveries c)
       (t_receiver_deliveries c) (t_latencies_ms c) (t_live_latencies_ms c) \<and>
     radio_ok (t_rf_transmitters c) (t_airtimes_ms c) (t_rf_transmission_count c)
       (t_observed_airtime_ms c) (t_per_node_transmit_counts c) (t_per_node_airtime_ms c) \<and>
     t_drop_counts c = counter_of (t_drop_reasons c) \<and>
     refs_ok (messages c) (t_sequence c) (t_messages_by_packet c) (t_messages_by_key c) (t_pending_submissions c)"

subsection \<open>What the primitives change\<close>

definition metric_broker :: "string \<Rightarrow> pyfloat \<Rightarrow> (string, metric_value) dict \<Rightarrow> controller \<Rightarrow> event_broker" where
  "metric_broker res now values c = t_broker (publish_metric_update_as res now values c)"

text \<open>Publishing changes the broker only.\<close>

lemma publish_only_broker [ctl_simps]:
  "publish_metric_update_as res now values c = c\<lparr>t_broker := metric_broker res now values c\<rparr>"
  "publish_event e c = c\<lparr>t_broker := snd (broker_publish e (t_broker c))\<rparr>"
  by (auto simp: metric_broker_def publish_metric_update_as_def publish_event_def split: option.splits)

lemma messages_update [ctl_simps]:
  "messages (map_message i f c) = (if t_current c = None then [] else (messages c)[i := f (messages c ! i)])"
  by (cases "t_current c") (simp_all add: map_message_def map_current_def messages_def)

lemma kind_update [ctl_simps]: "kind_of (map_message i f c) = kind_of c"
  by (cases "t_current c") (simp_all add: map_message_def map_current_def kind_of_def)

lemma messages_cong: "t_current c' = t_current c \<Longrightarrow> messages c' = messages c"
  by (simp add: messages_def)

lemma kind_cong: "t_current c' = t_current c \<Longrightarrow> kind_of c' = kind_of c"
  by (simp add: kind_of_def)

lemmas update_defs = map_message_def map_current_def messages_def kind_of_def

subsection \<open>The primitives keep the invariant\<close>

text \<open>Replacing one message by another that counts the same for deliveries.\<close>

definition same_delivery :: "generated_message \<Rightarrow> generated_message \<Rightarrow> bool" where
  "same_delivery m m' \<longleftrightarrow> g_sequence m' = g_sequence m \<and> g_delivered_to m' = g_delivered_to m \<and>
     g_destination_node m' = g_destination_node m \<and> g_source_node m' = g_source_node m"

lemma list_all_update: "list_all P xs \<Longrightarrow> P y \<Longrightarrow> list_all P (xs[i := y])"
  by (auto simp: list_all_iff dest!: set_update_subset_insert [THEN subsetD])

lemma list_all_nth: "list_all P xs \<Longrightarrow> i < length xs \<Longrightarrow> P (xs ! i)"
  by (simp add: list_all_length)

lemma delivered_sequences_count:
  "distinct (map g_sequence ms) \<Longrightarrow> int (card (g_sequence ` set (filter delivered ms))) = count_if delivered ms"
  by (induction ms) (auto simp: count_if_def card_insert_if)

lemma deliveries_ok_same:
  assumes "deliveries_ok kind ms seqs u d lats live" and "i < length ms" and "same_delivery (ms ! i) m"
  shows "deliveries_ok kind (ms[i := m]) seqs u d lats live"
proof -
  note m = assms(3) [unfolded same_delivery_def]
  have recv: "list_all (receivers_ok kind) (ms[i := m])"
    using assms m list_all_nth [of "receivers_ok kind" ms i]
    by (intro list_all_update) (auto simp: deliveries_ok_def receivers_ok_def)
  have "g_sequence ` set (filter delivered (ms[i := m])) = g_sequence ` set (filter delivered ms)"
  proof -
    have "map (\<lambda>m. (g_sequence m, delivered m)) (ms[i := m]) = map (\<lambda>m. (g_sequence m, delivered m)) ms"
      using assms(2) m by (intro map_update_same) (auto simp: delivered_def)
    from this [THEN arg_cong [of _ _ "\<lambda>l. fst ` set (filter snd l)"]]
    show ?thesis by (simp add: filter_map comp_def image_image)
  qed
  with assms recv m show ?thesis
    by (simp add: deliveries_ok_def map_update_same count_if_update sum_list_update_int delivered_def)
qed

lemma refs_ok_same:
  "refs_ok ms n bp bk pd \<Longrightarrow> i < length ms \<Longrightarrow> g_sequence m = g_sequence (ms ! i) \<Longrightarrow> refs_ok (ms[i := m]) n bp bk pd"
  by (auto simp: refs_ok_def dest!: set_update_subset_insert [THEN subsetD])

lemma refs_ok_pop: "refs_ok ms n bp bk pd \<Longrightarrow> refs_ok ms n bp bk (dict_pop k pd)"
  using set_dict_pop [of k pd] by (auto simp: refs_ok_def)

lemma refs_ok_alias: "refs_ok ms n bp bk pd \<Longrightarrow> i < length ms \<Longrightarrow> refs_ok ms n (dict_set k i bp) bk pd"
  using set_dict_set [of k i bp] by (auto simp: refs_ok_def)

lemma refs_ok_get:
  assumes "refs_ok ms n bp bk pd"
  shows "dict_get bp k = Some i \<Longrightarrow> i < length ms" and "dict_get pd q = Some i \<Longrightarrow> i < length ms"
  using assms by (auto simp: refs_ok_def dest!: map_of_SomeD)

text \<open>What an update by reference needs: the reference is valid and the counters move with it.\<close>

lemma counters_ok_update:
  assumes "counters_ok ms gen sub failed sent ack" and "i < length ms" and "message_ok m"
    and "sub' = sub - of_bool (g_submitted (ms ! i)) + of_bool (g_submitted m)"
    and "failed' = failed - of_bool (g_submission_error (ms ! i) \<noteq> None) + of_bool (g_submission_error m \<noteq> None)"
    and "sent' = sent - of_bool (g_transmitted (ms ! i)) + of_bool (g_transmitted m)"
    and "ack' = ack - of_bool (g_acknowledged (ms ! i)) + of_bool (g_acknowledged m)"
  shows "counters_ok (ms[i := m]) gen sub' failed' sent' ack'"
  using assms by (auto simp: counters_ok_def list_all_update count_if_update)

subsection \<open>Updates the invariant does not see\<close>

lemma accounting_neutral [ctl_simps]:
  "accounting (c\<lparr>t_broker := b\<rparr>) = accounting c"
  "accounting (c\<lparr>t_ids := ids\<rparr>) = accounting c"
  "accounting (c\<lparr>t_last_activity := x\<rparr>) = accounting c"
  "accounting (c\<lparr>t_activity_changed := f\<rparr>) = accounting c"
  "accounting (c\<lparr>t_relay_transmissions := n\<rparr>) = accounting c"
  "accounting (c\<lparr>t_duplicates := n\<rparr>) = accounting c"
  "accounting (c\<lparr>t_failed_receptions := n\<rparr>) = accounting c"
  "accounting (c\<lparr>t_latest_failed_receptions := d\<rparr>) = accounting c"
  "accounting (c\<lparr>t_latest_duplicate_receptions := d\<rparr>) = accounting c"
  "accounting (c\<lparr>t_event_loop_lag_ms := l\<rparr>) = accounting c"
  "accounting (c\<lparr>t_routing_terminal_sequences := s\<rparr>) = accounting c"
  "accounting (c\<lparr>t_state := st\<rparr>) = accounting c"
  "accounting (c\<lparr>t_phase := ph\<rparr>) = accounting c"
  "accounting (c\<lparr>t_drain_deadline := dl\<rparr>) = accounting c"
  "accounting (c\<lparr>t_task_active := f\<rparr>) = accounting c"
  "accounting (c\<lparr>t_finalization_done := f\<rparr>) = accounting c"
  "accounting (c\<lparr>t_finalization_wait_timed_out := f\<rparr>) = accounting c"
  "accounting (c\<lparr>t_metrics := m\<rparr>) = accounting c"
  "accounting (c\<lparr>t_maximum_packet_airtime_ms := n\<rparr>) = accounting c"
  "accounting (c\<lparr>t_maximum_retransmission_delay_ms := n\<rparr>) = accounting c"
  by (simp_all add: accounting_def messages_def kind_of_def)

lemma accounting_note_activity [ctl_simps]: "accounting (note_activity now c) = accounting c"
  by (simp add: note_activity_def ctl_simps)

lemma accounting_publish [ctl_simps]:
  "accounting (publish_metric_update_as res now v c) = accounting c"
  "accounting (publish_event e c) = accounting c"
  by (simp_all add: ctl_simps)

text \<open>Changing a field of the result other than its messages or its request.\<close>

lemma accounting_map_current:
  assumes "\<And>r. r_generated_messages (f r) = r_generated_messages r" and "\<And>r. r_request (f r) = r_request r"
  shows "accounting (map_current f c) = accounting c"
  using assms by (cases "t_current c") (simp_all add: accounting_def messages_def kind_of_def map_current_def)

lemma accounting_refs:
  assumes "accounting c"
  shows "dict_get (t_messages_by_packet c) k = Some i \<Longrightarrow> i < length (messages c)"
    and "dict_get (t_pending_submissions c) q = Some i \<Longrightarrow> i < length (messages c)"
  using assms refs_ok_get unfolding accounting_def by blast+

lemma accounting_message_ok: "accounting c \<Longrightarrow> i < length (messages c) \<Longrightarrow> message_ok (messages c ! i)"
  by (auto simp: accounting_def counters_ok_def dest: list_all_nth)

lemma messages_some: "i < length (messages c) \<Longrightarrow> \<exists>r. t_current c = Some r \<and> messages c = r_generated_messages r"
  by (cases "t_current c") (simp_all add: messages_def)

subsection \<open>The counting primitives\<close>

lemma accounting_update:
  assumes "accounting c" and "i < length (messages c)" and "message_ok (f (messages c ! i))"
    and "same_delivery (messages c ! i) (f (messages c ! i))"
    and "sub = t_submitted_count c - of_bool (g_submitted (messages c ! i)) + of_bool (g_submitted (f (messages c ! i)))"
    and "failed = t_submission_failed_count c - of_bool (g_submission_error (messages c ! i) \<noteq> None) +
      of_bool (g_submission_error (f (messages c ! i)) \<noteq> None)"
    and "sent = t_transmitted_count c - of_bool (g_transmitted (messages c ! i)) + of_bool (g_transmitted (f (messages c ! i)))"
    and "ack = t_acknowledgments c - of_bool (g_acknowledged (messages c ! i)) + of_bool (g_acknowledged (f (messages c ! i)))"
  shows "accounting (map_message i f (c\<lparr>t_submitted_count := sub, t_submission_failed_count := failed,
     t_transmitted_count := sent, t_acknowledgments := ack\<rparr>))"
proof -
  obtain r where r: "t_current c = Some r" "messages c = r_generated_messages r" using messages_some [OF assms(2)] by blast
  note a = assms(1) [unfolded accounting_def]
  note cs = counters_ok_update [OF a [THEN conjunct1] assms(2,3,5,6,7,8)]
  have ds: "deliveries_ok (kind_of c) ((messages c)[i := f (messages c ! i)]) (t_delivered_sequences c)
      (t_unique_deliveries c) (t_receiver_deliveries c) (t_latencies_ms c) (t_live_latencies_ms c)"
    using a assms(2,4) by (intro deliveries_ok_same) simp_all
  have rs: "refs_ok ((messages c)[i := f (messages c ! i)]) (t_sequence c) (t_messages_by_packet c)
      (t_messages_by_key c) (t_pending_submissions c)"
    using a assms(2,4) by (intro refs_ok_same) (simp_all add: same_delivery_def)
  show ?thesis
    using cs ds rs a r by (simp add: accounting_def map_message_def map_current_def messages_def kind_of_def)
qed

lemma keep_counts:
  "(c :: controller)\<lparr>t_submitted_count := t_submitted_count c\<rparr> = c"
  "c\<lparr>t_submission_failed_count := t_submission_failed_count c\<rparr> = c"
  "c\<lparr>t_transmitted_count := t_transmitted_count c\<rparr> = c"
  "c\<lparr>t_acknowledgments := t_acknowledgments c\<rparr> = c"
  by (cases c; simp)+

lemma keep_submission:
  "(c :: controller)\<lparr>t_submitted_count := x, t_submission_failed_count := t_submission_failed_count c,
     t_transmitted_count := t_transmitted_count c, t_acknowledgments := t_acknowledgments c\<rparr> = c\<lparr>t_submitted_count := x\<rparr>"
  "c\<lparr>t_submitted_count := t_submitted_count c, t_submission_failed_count := x,
     t_transmitted_count := t_transmitted_count c, t_acknowledgments := t_acknowledgments c\<rparr> = c\<lparr>t_submission_failed_count := x\<rparr>"
  "c\<lparr>t_submitted_count := t_submitted_count c, t_submission_failed_count := t_submission_failed_count c,
     t_transmitted_count := x, t_acknowledgments := t_acknowledgments c\<rparr> = c\<lparr>t_transmitted_count := x\<rparr>"
  "c\<lparr>t_submitted_count := t_submitted_count c, t_submission_failed_count := t_submission_failed_count c,
     t_transmitted_count := t_transmitted_count c, t_acknowledgments := x\<rparr> = c\<lparr>t_acknowledgments := x\<rparr>"
  by (cases c; simp)+

lemmas accounting_update_one = accounting_update [where sub = s and failed = "t_submission_failed_count c"
    and sent = "t_transmitted_count c" and ack = "t_acknowledgments c" and c = c for s c, unfolded keep_submission]
  accounting_update [where sub = "t_submitted_count c" and failed = f'
    and sent = "t_transmitted_count c" and ack = "t_acknowledgments c" and c = c for f' c, unfolded keep_submission]
  accounting_update [where sub = "t_submitted_count c" and failed = "t_submission_failed_count c"
    and sent = s and ack = "t_acknowledgments c" and c = c for s c, unfolded keep_submission]
  accounting_update [where sub = "t_submitted_count c" and failed = "t_submission_failed_count c"
    and sent = "t_transmitted_count c" and ack = a and c = c for a c, unfolded keep_submission]

lemma accounting_count_submitted:
  assumes "accounting c" and "i < length (messages c)" and "\<not> g_submitted (messages c ! i)"
    and "g_submission_error (messages c ! i) = None"
  shows "accounting (count_submitted i c)"
proof -
  have "message_ok (messages c ! i)" using assms by (rule_tac accounting_message_ok)
  with assms have "accounting (map_message i (\<lambda>m. m\<lparr>g_submitted := True\<rparr>) (c\<lparr>t_submitted_count := t_submitted_count c + 1\<rparr>))"
    by (intro accounting_update_one(1)) (auto simp: message_ok_def same_delivery_def)
  then show ?thesis by (simp add: count_submitted_def accounting_map_current)
qed

lemma accounting_count_submission_failed:
  assumes "accounting c" and "i < length (messages c)" and "\<not> g_submitted (messages c ! i)"
    and "g_submission_error (messages c ! i) = None"
  shows "accounting (count_submission_failed i err c)"
proof -
  have "message_ok (messages c ! i)" using assms by (rule_tac accounting_message_ok)
  with assms have "accounting (map_message i (\<lambda>m. m\<lparr>g_submission_error := Some err\<rparr>)
      (c\<lparr>t_submission_failed_count := t_submission_failed_count c + 1\<rparr>))"
    by (intro accounting_update_one(2)) (auto simp: message_ok_def same_delivery_def)
  then show ?thesis by (simp add: count_submission_failed_def accounting_map_current)
qed

lemma accounting_withdraw:
  assumes "accounting c" and "i < length (messages c)" and "\<not> g_transmitted (messages c ! i)"
  shows "accounting (withdraw_submission i c)"
proof (cases "g_submitted (messages c ! i)")
  case True
  have "message_ok (messages c ! i)" using assms by (rule_tac accounting_message_ok)
  with assms True have "accounting (map_message i (\<lambda>m. m\<lparr>g_submitted := False\<rparr>) (c\<lparr>t_submitted_count := t_submitted_count c - 1\<rparr>))"
    by (intro accounting_update_one(1)) (auto simp: message_ok_def same_delivery_def)
  with True show ?thesis by (simp add: withdraw_submission_def accounting_map_current)
qed (use assms in \<open>simp add: withdraw_submission_def\<close>)

lemma accounting_acknowledge:
  assumes "accounting c" and "i < length (messages c)" and "g_transmitted (messages c ! i)"
  shows "accounting (count_acknowledgment now i c)"
proof (cases "g_acknowledged (messages c ! i)")
  case False
  have "message_ok (messages c ! i)" using assms by (rule_tac accounting_message_ok)
  with assms False have "accounting (map_message i (\<lambda>m. m\<lparr>g_acknowledged := True\<rparr>) (c\<lparr>t_acknowledgments := t_acknowledgments c + 1\<rparr>))"
    by (intro accounting_update_one(4)) (auto simp: message_ok_def same_delivery_def)
  with False show ?thesis by (simp add: count_acknowledgment_def Let_def ctl_simps)
qed (use assms in \<open>simp add: count_acknowledgment_def\<close>)

lemma accounting_evidence:
  assumes "accounting c"
  shows "accounting (c\<lparr>t_rf_transmitters := t_rf_transmitters c @ [n], t_airtimes_ms := t_airtimes_ms c @ [x],
      t_rf_transmission_count := t_rf_transmission_count c + 1, t_observed_airtime_ms := t_observed_airtime_ms c + x,
      t_per_node_transmit_counts := counter_add n 1 (t_per_node_transmit_counts c),
      t_per_node_airtime_ms := counter_add n x (t_per_node_airtime_ms c)\<rparr>)"
  using assms by (simp add: accounting_def radio_ok_def counter_simps messages_def kind_of_def)

lemma accounting_transmission:
  assumes "accounting c" and "i < length (messages c)" and "g_submitted (messages c ! i)"
  shows "accounting (count_transmission n x i c)"
proof -
  have "message_ok (messages c ! i)" using assms by (rule_tac accounting_message_ok)
  with assms have "accounting (map_message i (\<lambda>m. m\<lparr>g_transmitted := True\<rparr>) (c\<lparr>t_transmitted_count := t_transmitted_count c + 1\<rparr>))"
    if "\<not> g_transmitted (messages c ! i)"
    using that by (intro accounting_update_one(3)) (auto simp: message_ok_def same_delivery_def)
  with assms show ?thesis by (auto simp: count_transmission_def Let_def intro!: accounting_evidence)
qed

lemma accounting_drop: "accounting c \<Longrightarrow> accounting (add_drop reason c)"
  by (simp add: add_drop_def accounting_def counter_simps messages_def kind_of_def)

lemma accounting_pop: "accounting c \<Longrightarrow> accounting (c\<lparr>t_pending_submissions := dict_pop k (t_pending_submissions c)\<rparr>)"
  by (simp add: accounting_def refs_ok_pop messages_def kind_of_def)

lemma accounting_no_pending: "accounting c \<Longrightarrow> accounting (c\<lparr>t_pending_submissions := []\<rparr>)"
  by (simp add: accounting_def refs_ok_def messages_def kind_of_def)

lemma accounting_alias:
  "accounting c \<Longrightarrow> i < length (messages c) \<Longrightarrow> accounting (c\<lparr>t_messages_by_packet := dict_set k i (t_messages_by_packet c)\<rparr>)"
  by (simp add: accounting_def refs_ok_alias messages_def kind_of_def)

text \<open>A delivery to a node that has not received the message yet and may receive it.\<close>

lemma lastn_snoc: "push_bounded n x (lastn n xs) = lastn n (xs @ [x])"
proof -
  have "drop (Suc (length (lastn n xs)) - n) (lastn n xs) = drop (Suc (length xs) - n) xs"
    unfolding lastn_def drop_drop by (rule arg_cong [of _ _ "\<lambda>k. drop k xs"]) auto
  moreover have "Suc (length (lastn n xs)) - n \<le> length (lastn n xs) \<longleftrightarrow> Suc (length xs) - n \<le> length xs"
    by (auto simp: length_lastn)
  ultimately show ?thesis
    by (auto simp: push_bounded_def lastn_def)
qed

lemma deliveries_ok_deliver:
  assumes "deliveries_ok kind ms seqs u d lats live" and "i < length ms"
    and "receivers_ok kind (ms ! i)" and "node \<notin> set (g_delivered_to (ms ! i))"
    and "g_sequence m = g_sequence (ms ! i)" and "g_delivered_to m = g_delivered_to (ms ! i) @ [node]"
    and "receivers_ok kind m"
  shows "deliveries_ok kind (ms[i := m]) (insert (g_sequence (ms ! i)) seqs)
    (if g_sequence (ms ! i) \<in> seqs then u else u + 1) (d + 1) (lats @ [x])
    (push_bounded LIVE_LATENCY_SAMPLE_SIZE x live)"
proof -
  note d = assms(1) [unfolded deliveries_ok_def]
  have inj: "m' = ms ! i" if "m' \<in> set ms" "g_sequence m' = g_sequence (ms ! i)" for m'
    using d that assms(2) by (auto simp: distinct_map dest: inj_onD)
  have mem: "g_sequence (ms ! i) \<in> seqs \<longleftrightarrow> delivered (ms ! i)"
    using d inj assms(2) by auto
  have seqs: "g_sequence ` set (filter delivered (ms[i := m])) = insert (g_sequence (ms ! i)) seqs"
  proof (rule set_eqI)
    fix s
    have "s \<in> g_sequence ` set (filter delivered (ms[i := m])) \<longleftrightarrow>
        (\<exists>j < length ms. (if j = i then True else delivered (ms ! j)) \<and> g_sequence (ms ! j) = s)"
      using assms(2,5,6) by (auto simp: in_set_conv_nth nth_list_update delivered_def image_iff Bex_def cong: conj_cong)
    also have "\<dots> \<longleftrightarrow> s \<in> insert (g_sequence (ms ! i)) seqs"
      using d assms(2) by (auto simp: in_set_conv_nth image_iff)
    finally show "s \<in> g_sequence ` set (filter delivered (ms[i := m])) \<longleftrightarrow> s \<in> insert (g_sequence (ms ! i)) seqs" .
  qed
  have "count_if delivered (ms[i := m]) = (if g_sequence (ms ! i) \<in> seqs then u else u + 1)"
    using d assms(2,6) mem by (simp add: count_if_update delivered_def)
  with seqs d assms show ?thesis
    by (simp add: deliveries_ok_def map_update_same sum_list_update_int list_all_update lastn_snoc)
qed

lemma accounting_delivery:
  assumes "accounting c" and "i < length (messages c)" and "node \<notin> set (g_delivered_to (messages c ! i))"
    and "kind_of c = Some DIRECT_TEXT \<Longrightarrow> node = g_destination_node (messages c ! i)"
    and "kind_of c = Some BROADCAST_TEXT \<Longrightarrow> node \<noteq> g_source_node (messages c ! i)"
  shows "accounting (snd (count_delivery now node i c))"
proof -
  obtain r where r: "t_current c = Some r" "messages c = r_generated_messages r" using messages_some [OF assms(2)] by blast
  let ?m = "messages c ! i"
  let ?x = "fmul (fsub now (g_generated_monotonic ?m)) 1000"
  define m where "m = (if g_latency_ms ?m = None then ?m\<lparr>g_delivered_to := g_delivered_to ?m @ [node], g_latency_ms := Some ?x\<rparr>
      else ?m\<lparr>g_delivered_to := g_delivered_to ?m @ [node]\<rparr>)"
  note a = assms(1) [unfolded accounting_def]
  have old: "receivers_ok (kind_of c) ?m" "message_ok ?m"
    using a assms(2) by (auto simp: deliveries_ok_def counters_ok_def dest: list_all_nth)
  with assms(3-5) have recv: "receivers_ok (kind_of c) m" and same: "message_ok m"
    by (auto simp: m_def receivers_ok_def message_ok_def)
  have d: "deliveries_ok (kind_of c) ((messages c)[i := m]) (insert (g_sequence ?m) (t_delivered_sequences c))
     (if g_sequence ?m \<in> t_delivered_sequences c then t_unique_deliveries c else t_unique_deliveries c + 1)
     (t_receiver_deliveries c + 1) (t_latencies_ms c @ [?x]) (push_bounded LIVE_LATENCY_SAMPLE_SIZE ?x (t_live_latencies_ms c))"
    using a assms(2,3) old recv by (intro deliveries_ok_deliver [where node = node]) (simp_all add: m_def)
  have cs: "counters_ok ((messages c)[i := m]) (t_generated_count c) (t_submitted_count c) (t_submission_failed_count c)
      (t_transmitted_count c) (t_acknowledgments c)"
    using a [THEN conjunct1] assms(2) same by (rule counters_ok_update) (simp_all add: m_def)
  have rs: "refs_ok ((messages c)[i := m]) (t_sequence c) (t_messages_by_packet c) (t_messages_by_key c) (t_pending_submissions c)"
    using a assms(2) by (intro refs_ok_same) (simp_all add: m_def)
  show ?thesis
    using cs d rs a r assms(2)
    by (auto simp: accounting_def count_delivery_def Let_def update_defs m_def insert_absorb cong: if_cong)
qed

lemma deliveries_ok_new:
  assumes "deliveries_ok kind ms seqs u d lats live" and "g_sequence m \<notin> g_sequence ` set ms" and "g_delivered_to m = []"
  shows "deliveries_ok kind (ms @ [m]) seqs u d lats live"
  using assms by (simp add: deliveries_ok_def receivers_ok_def delivered_def)

lemma refs_ok_new:
  assumes "refs_ok ms n bp bk pd" and "g_sequence m \<le> n'" and "n \<le> n'"
  shows "refs_ok (ms @ [m]) n' (dict_set a (length ms) bp) (dict_set b (length ms) bk) (dict_set q (length ms) pd)"
  using assms set_dict_set [of a "length ms" bp] set_dict_set [of b "length ms" bk] set_dict_set [of q "length ms" pd]
  by (fastforce simp: refs_ok_def)

definition fresh_message :: "generated_message \<Rightarrow> bool" where
  "fresh_message m \<longleftrightarrow> \<not> g_submitted m \<and> g_submission_error m = None \<and> \<not> g_transmitted m \<and>
     g_delivered_to m = [] \<and> \<not> g_acknowledged m"

lemma new_message_fresh [simp]: "fresh_message (new_message sq flow source destination packet_id now)"
  by (simp add: fresh_message_def new_message_def)

lemma accounting_register:
  assumes "accounting c" and "t_current c \<noteq> None" and "fresh_message m" and "g_sequence m = Suc (t_sequence c)"
  shows "accounting (register_message now m origin (c\<lparr>t_sequence := Suc (t_sequence c), t_ids := ids\<rparr>))"
proof -
  obtain r where r: "t_current c = Some r" using assms(2) by blast
  let ?ms = "r_generated_messages r"
  have ms: "messages c = ?ms" by (simp add: messages_def r)
  note a = assms(1) [unfolded accounting_def ms]
  have "g_sequence m \<notin> g_sequence ` set ?ms" using a assms(4) by (auto simp: refs_ok_def)
  with a assms(3) have ds: "deliveries_ok (kind_of c) (?ms @ [m]) (t_delivered_sequences c) (t_unique_deliveries c)
      (t_receiver_deliveries c) (t_latencies_ms c) (t_live_latencies_ms c)"
    by (intro deliveries_ok_new) (simp_all add: fresh_message_def)
  have cs: "counters_ok (?ms @ [m]) (t_generated_count c + 1) (t_submitted_count c) (t_submission_failed_count c)
      (t_transmitted_count c) (t_acknowledgments c)"
    using a assms(3) by (simp add: counters_ok_def message_ok_def fresh_message_def)
  have rs: "refs_ok (?ms @ [m]) (Suc (t_sequence c)) (dict_set x (length ?ms) (t_messages_by_packet c))
      (dict_set y (length ?ms) (t_messages_by_key c)) (dict_set z (length ?ms) (t_pending_submissions c))" for x y z
    using a assms(4) by (intro refs_ok_new [where n = "t_sequence c"]) simp_all
  show ?thesis using cs ds rs a r
    by (simp add: register_message_def Let_def ctl_simps accounting_def update_defs)
qed

subsection \<open>The handlers keep the invariant\<close>

lemma accounting_identity:
  assumes "accounting c" and "message_for_packet_identity pb tr p c = (found, c')"
  shows "accounting c'" and "t_current c' = t_current c" and "found = Some i \<Longrightarrow> i < length (messages c')"
    and "accepts_run_events f c' = accepts_run_events f c" and "t_hardware_ids c' = t_hardware_ids c"
proof -
  consider (same) "c' = c" "dict_get (t_messages_by_packet c) (p_from p, p_id p) = found"
    | (remembered) j rid where "found = Some j" "dict_get (t_messages_by_packet c) rid = Some j"
        "c' = c\<lparr>t_messages_by_packet := dict_set (p_from p, p_id p) j (t_messages_by_packet c)\<rparr>"
  proof (cases "Option.bind (request_id_of pb tr p c) (\<lambda>rid. dict_get (t_messages_by_packet c) (p_to p, rid))")
    case None
    with assms(2) show thesis by (intro same) (auto simp: message_for_packet_identity_def)
  next
    case (Some j)
    then obtain rid where "dict_get (t_messages_by_packet c) (p_to p, rid) = Some j" by (auto simp: bind_eq_Some_conv)
    with Some assms(2) show thesis by (intro remembered [of j]) (simp_all add: message_for_packet_identity_def)
  qed
  then have "accounting c' \<and> t_current c' = t_current c \<and> (found = Some i \<longrightarrow> i < length (messages c')) \<and>
      accepts_run_events f c' = accepts_run_events f c \<and> t_hardware_ids c' = t_hardware_ids c"
  proof cases
    case same
    with assms(1) accounting_refs(1) [OF assms(1)] show ?thesis by auto
  next
    case (remembered j rid)
    with accounting_refs(1) [OF assms(1)] have "j < length (messages c)" by simp
    moreover have "messages c' = messages c" by (simp add: remembered(3) messages_def)
    ultimately show ?thesis
      using remembered assms(1) by (auto simp: accounting_alias accepts_run_events_def)
  qed
  then show "accounting c'" and "t_current c' = t_current c" and "found = Some i \<Longrightarrow> i < length (messages c')"
    and "accepts_run_events f c' = accepts_run_events f c" and "t_hardware_ids c' = t_hardware_ids c" by blast+
qed

lemma messages_of [simp]: "t_current c = Some r \<Longrightarrow> messages c = r_generated_messages r"
  by (simp add: messages_def)

lemma accounting_rf:
  assumes "accounting c"
  shows "accounting (fst (record_rf_transmission ev now tx p air c))"
proof -
  { fix r i c1
    assume r: "t_current c = Some r" and id: "message_for_packet_identity (en_codec ev) (Some tx) p c = (Some i, c1)"
      and sub: "g_submitted (messages c1 ! i)"
    note c1 = accounting_identity [OF assms id]
    have "accounting (count_transmission tx air i c1)"
      using accounting_transmission [OF c1(1) c1(3) [OF refl] sub] .
  }
  then show ?thesis
    using assms accounting_identity(1) [OF assms]
    by (auto simp: record_rf_transmission_def Let_def ctl_simps split: option.splits prod.splits)
qed

lemma accounting_record_drop:
  assumes "accounting c"
  shows "accounting (record_drop ev now tx p reason c)"
  using assms accounting_identity(1) [OF assms]
  by (auto simp: record_drop_def Let_def ctl_simps accounting_drop split: option.splits prod.splits)

lemma accounting_stats:
  "accounting c \<Longrightarrow> accounting (record_failed_receptions now n k c)"
  "accounting c \<Longrightarrow> accounting (record_duplicate_receptions now n k c)"
  by (auto simp: record_failed_receptions_def record_duplicate_receptions_def Let_def ctl_simps split: option.splits)

lemma accounting_topology: "accounting c \<Longrightarrow> accounting (fst (record_topology_change e l c))"
  by (auto simp: record_topology_change_def accounting_map_current split: sum.splits)

lemma accounting_lag: "accounting c \<Longrightarrow> accounting (set_event_loop_lag now x c)"
  by (simp add: set_event_loop_lag_def ctl_simps)

lemma accounting_publish_submission [ctl_simps]: "accounting (publish_submission now s i res detail c) = accounting c"
  by (simp add: publish_submission_def Let_def ctl_simps)

lemma accounting_resolve:
  "accounting c \<Longrightarrow> i < length (messages c) \<Longrightarrow> accounting (resolve_submission now s i err c)"
  by (auto simp: resolve_submission_def ctl_simps accounting_count_submitted accounting_count_submission_failed
      split: option.splits)

lemma resolve_current:
  "length (messages (resolve_submission now s i err c)) = length (messages c)"
  "t_pending_submissions (resolve_submission now s i err c) = t_pending_submissions c"
  by (auto simp: resolve_submission_def publish_submission_def Let_def ctl_simps count_submitted_def
      count_submission_failed_def update_defs note_activity_def split: option.splits)

lemma accounting_queue_status: "accounting c \<Longrightarrow> accounting (record_queue_status ev now n st c)"
  using accounting_refs(2) [of c]
  by (auto simp: record_queue_status_def Let_def messages_def intro!: accounting_resolve accounting_pop split: option.splits)

lemma accounting_resolve_all:
  "accounting c \<Longrightarrow> (\<forall>(k, i) \<in> set ps. i < length (messages c)) \<Longrightarrow> accounting (resolve_all now ps c)"
  by (induction now ps c rule: resolve_all.induct) (auto simp: accounting_resolve resolve_current)

lemma accounting_finalize: "accounting c \<Longrightarrow> accounting (finalize_pending_submissions now c)"
  unfolding finalize_pending_submissions_def
  by (intro accounting_no_pending accounting_resolve_all) (simp_all add: accounting_def refs_ok_def)

lemma accounting_rejection:
  assumes "accounting c" and "i < length (messages c)" and "\<not> g_transmitted (messages c ! i)"
  shows "accounting (record_pretransmission_rejection now s i reason c)"
proof -
  let ?c1 = "c\<lparr>t_pending_submissions := dict_pop (s, g_packet_id (messages c ! i)) (t_pending_submissions c)\<rparr>"
  obtain r where r: "t_current c = Some r" "messages c = r_generated_messages r" using messages_some [OF assms(2)] by blast
  have c1: "messages ?c1 = messages c" by (simp add: messages_def)
  have w: "accounting (withdraw_submission i ?c1)"
    using assms accounting_withdraw [OF accounting_pop [OF assms(1)]] by (simp add: c1)
  have "messages (withdraw_submission i ?c1) ! i = (messages c ! i)\<lparr>g_submitted := False\<rparr>"
    "length (messages (withdraw_submission i ?c1)) = length (messages c)"
    using assms(2) r by (auto simp: withdraw_submission_def update_defs)
  with w assms show ?thesis
    by (auto simp: record_pretransmission_rejection_def Let_def ctl_simps intro!: accounting_count_submission_failed)
qed

lemma accounting_correlated:
  assumes "accounting c" and "correlated_delivery_message ev p c = (found, c')"
  shows "accounting c'" and "t_current c' = t_current c" and "found = Some i \<Longrightarrow> i < length (messages c')"
proof -
  have "accounting c' \<and> t_current c' = t_current c \<and> (found = Some i \<longrightarrow> i < length (messages c'))"
  proof (cases "found = None \<and> c' = c")
    case False
    with assms(2) obtain r j where "t_current c = Some r"
      and id: "message_for_packet_identity (en_codec ev) None p c = (j, c')" and "found = None \<or> found = j"
      by (auto simp: correlated_delivery_message_def split: option.splits prod.splits if_splits)
    with accounting_identity [OF assms(1) id] show ?thesis by auto
  qed (use assms(1) in auto)
  then show "accounting c'" and "t_current c' = t_current c" and "found = Some i \<Longrightarrow> i < length (messages c')"
    by blast+
qed

lemma accounting_text:
  assumes "accounting c" and "t_current c = Some r"
  shows "accounting (handle_text ev now n p r c)"
proof -
  obtain found c1 where f: "correlated_delivery_message ev p c = (found, c1)" by fastforce
  note c1 = accounting_correlated [OF assms(1) f]
  show ?thesis
  proof (cases found)
    case None
    with f c1(1) show ?thesis by (simp add: handle_text_def)
  next
    case (Some i)
    have i: "i < length (messages c1)" using c1(3) Some by blast
    have kind: "kind_of c1 = Some (q_kind (r_request r))" using c1(2) assms(2) by (simp add: kind_of_def)
    have deliver: "accounting (snd (count_delivery now n i c1))"
      if "n \<notin> set (g_delivered_to (messages c1 ! i))"
        "if q_kind (r_request r) = DIRECT_TEXT then n = g_destination_node (messages c1 ! i) else n \<noteq> g_source_node (messages c1 ! i)"
      using that c1(1) i kind by (intro accounting_delivery) (auto split: if_splits)
    show ?thesis
      using f Some c1(1) deliver by (auto simp: handle_text_def Let_def ctl_simps split: prod.splits)
  qed
qed

lemma accounting_routing_error: "accounting c \<Longrightarrow> accounting (fst (handle_routing_error now n p i e r c))"
  by (auto simp: handle_routing_error_def publish_routing_def Let_def ctl_simps accounting_drop split: sum.splits)

lemma accounting_handle_ack:
  assumes "accounting c" and "i < length (messages c)" and "g_transmitted (messages c ! i)"
  shows "accounting (fst (handle_acknowledgment now n p origin i r c))"
  using accounting_acknowledge [OF assms]
  by (auto simp: handle_acknowledgment_def publish_routing_def Let_def ctl_simps assms split: option.splits)

lemma accounting_routing: "accounting c \<Longrightarrow> accounting (fst (handle_routing ev now n p d r c))"
  using accounting_refs(1) [of c]
  by (auto simp: handle_routing_def Let_def accounting_rejection accounting_routing_error accounting_handle_ack
      split: option.splits)

lemma accounting_radio: "accounting c \<Longrightarrow> accounting (fst (handle_from_radio ev now n msg c))"
  by (auto simp: handle_from_radio_def accounting_queue_status accounting_text accounting_routing
      split: option.splits from_radio.splits)

subsection \<open>The run's own steps keep the invariant\<close>

lemma accounting_measure: "accounting c \<Longrightarrow> accounting (fst (measure_packet ev now p c))"
  by (auto simp: measure_packet_def Let_def ctl_simps split: sum.splits)

lemma measure_current: "measure_packet ev now p c = (c', out) \<Longrightarrow> t_current c' = t_current c"
  by (auto simp: measure_packet_def Let_def note_activity_def split: sum.splits)

lemma accounting_hand_over:
  assumes "accounting c" and "i < length (messages c)"
  shows "accounting (fst (hand_over send now s p i w c))"
proof -
  have "i < length (messages (c\<lparr>t_pending_submissions := dict_pop k (t_pending_submissions c)\<rparr>))" for k
    using assms(2) by (simp add: messages_def)
  with assms(1) show ?thesis
    by (auto simp: hand_over_def intro!: accounting_resolve accounting_pop split: sum.splits prod.splits)
qed

lemma register_messages:
  "t_current c = Some r \<Longrightarrow> messages (register_message now m origin c) = r_generated_messages r @ [m]"
  by (simp add: register_message_def Let_def ctl_simps update_defs)

lemma accounting_sequence: "accounting c \<Longrightarrow> accounting (c\<lparr>t_sequence := Suc (t_sequence c), t_ids := ids\<rparr>)"
  "accounting c \<Longrightarrow> accounting (c\<lparr>t_sequence := Suc (t_sequence c)\<rparr>)"
  by (auto simp: accounting_def refs_ok_def messages_def kind_of_def intro: le_SucI)

text \<open>Where a submission can end.\<close>

lemma submit_cases:
  assumes "submit ev g send now source destination flow s w c = Some (c', s', w', out)"
  obtains (no_run) "t_current c = None" and "c' = c" and "w' = w"
  | (too_small) e where "out = Inl e" and "c' = c\<lparr>t_sequence := Suc (t_sequence c)\<rparr>" and "w' = w"
  | (unknown_node) pid ids s1 e where "out = Inl e" and "c' = c\<lparr>t_sequence := Suc (t_sequence c), t_ids := ids\<rparr>"
      and "allocate_packet_id g source now (t_ids c) s = Some (pid, ids, s1)" and "w' = w"
  | (registered) r pid ids s1 payload p c4 o4 where "t_current c = Some r"
      and "allocate_packet_id g source now (t_ids c) s = Some (pid, ids, s1)"
      and "traffic_packet (c\<lparr>t_sequence := Suc (t_sequence c), t_ids := ids\<rparr>) r source destination pid payload = Inr p"
      and "measure_packet ev now p (register_message now (new_message (Suc (t_sequence c)) flow source destination pid now)
          (p_from p) (c\<lparr>t_sequence := Suc (t_sequence c), t_ids := ids\<rparr>)) = (c4, o4)"
      and "c' = c4 \<and> w' = w \<and> (\<exists>e. out = Inl e \<and> o4 = Inl e) \<or>
        out = Inr () \<and> o4 = Inr () \<and> hand_over send now source p (length (r_generated_messages r)) w c4 = (c', w')"
proof (cases "t_current c")
  case None
  show thesis by (rule no_run) (use assms None in \<open>auto simp: submit_def\<close>)
next
  case (Some r)
  note run = assms [unfolded submit_def Let_def Some option.case]
  show thesis
  proof (cases "traffic_payload (r_run_id r) (Suc (t_sequence c)) (q_payload_bytes (r_request r))")
    case (Inl e)
    show thesis by (rule too_small [of e]) (use run Inl in auto)
  next
    case (Inr payload)
    with run obtain pid ids s1 where al: "allocate_packet_id g source now (t_ids c) s = Some (pid, ids, s1)"
      by (auto simp: bind_eq_Some_conv)
    let ?c2 = "c\<lparr>t_sequence := Suc (t_sequence c), t_ids := ids\<rparr>"
    show thesis
    proof (cases "traffic_packet ?c2 r source destination pid payload")
      case (Inl e)
      show thesis by (rule unknown_node [of e ids pid s1]) (use run Inr al Inl in auto)
    next
      case p: (Inr p)
      let ?m = "new_message (Suc (t_sequence c)) flow source destination pid now"
      obtain c4 o4 where c4: "measure_packet ev now p (register_message now ?m (p_from p) ?c2) = (c4, o4)" by fastforce
      obtain c5 w5 where c5: "hand_over send now source p (length (r_generated_messages r)) w c4 = (c5, w5)" by fastforce
      show thesis
      proof (rule registered [OF Some al p c4])
        show "c' = c4 \<and> w' = w \<and> (\<exists>e. out = Inl e \<and> o4 = Inl e) \<or>
            out = Inr () \<and> o4 = Inr () \<and> hand_over send now source p (length (r_generated_messages r)) w c4 = (c', w')"
          using run Inr al p c4 c5 by (cases o4) auto
      qed
    qed
  qed
qed

lemma accounting_submit:
  assumes "accounting c" and "submit ev g send now source destination flow s w c = Some (c', s', w', out)"
  shows "accounting c'"
  using assms(2)
proof (cases rule: submit_cases)
  case (registered r pid ids s1 payload p c4 o4)
  let ?m = "new_message (Suc (t_sequence c)) flow source destination pid now"
  define c3 where "c3 = register_message now ?m (p_from p) (c\<lparr>t_sequence := Suc (t_sequence c), t_ids := ids\<rparr>)"
  have c3: "accounting c3"
    using accounting_register [OF assms(1) _ new_message_fresh] registered(1) by (simp add: c3_def new_message_def)
  have m3: "messages c3 = r_generated_messages r @ [?m]" using registered(1) by (simp add: c3_def register_messages)
  have c4: "accounting c4" using accounting_measure [OF c3, of ev now p] registered(4) by (simp add: c3_def)
  have "messages c4 = messages c3" using measure_current [OF registered(4)] by (intro messages_cong) (simp add: c3_def)
  then have "accounting (fst (hand_over send now source p (length (r_generated_messages r)) w c4))"
    using m3 by (intro accounting_hand_over [OF c4]) simp
  with registered(5) c4 show ?thesis by auto
qed (use assms(1) in \<open>simp_all add: accounting_sequence\<close>)

lemma accounting_run_turn:
  assumes "accounting c" and "run_turn ev g send now rt w c = Some (rt', c', w', out)"
  shows "accounting c'"
proof -
  have "c' = c \<or> (\<exists>source destination flow s s'. submit ev g send now source destination flow s w c = Some (c', s', w', out))"
    using assms(2) by (auto simp: run_turn_def Let_def bind_eq_Some_conv split: prod.splits sum.splits)
      (metis old.unit.exhaust sumE)
  with assms(1) show ?thesis by (auto dest: accounting_submit)
qed

lemma accounting_drain:
  "accounting c \<Longrightarrow> accounting (drain_begin now c)"
  "accounting c \<Longrightarrow> accounting (snd (drain_check now quiet deadline c))"
  "accounting c \<Longrightarrow> accounting (drain_end now timed_out c)"
  "accounting c \<Longrightarrow> accounting (begin_draining c)"
  by (auto simp: drain_begin_def drain_check_def drain_end_def begin_draining_def Let_def ctl_simps
      accounting_finalize split: option.splits)

lemma accounting_samples:
  "accounting c \<Longrightarrow> accounting (snd (sample_failed now ts missing c))"
  "accounting c \<Longrightarrow> accounting (sample_duplicates now ts c)"
proof -
  show "accounting c \<Longrightarrow> accounting (snd (sample_failed now ts missing c))"
    by (induction now ts missing c rule: sample_failed.induct) (simp_all add: accounting_stats)
  show "accounting c \<Longrightarrow> accounting (sample_duplicates now ts c)"
    by (induction now ts c rule: sample_duplicates.induct) (simp_all add: accounting_stats)
qed

lemma accounting_sample_final: "accounting c \<Longrightarrow> accounting (sample_final_failed_receptions now sampled c)"
  by (auto simp: sample_final_failed_receptions_def Let_def accounting_map_current case_prod_unfold
      intro!: accounting_samples split: option.splits)

lemma accounting_finish_begin: "accounting c \<Longrightarrow> finish_begin now c = Some c' \<Longrightarrow> accounting c'"
  by (auto simp: finish_begin_def ctl_simps accounting_finalize split: if_splits)

lemma accounting_set_result:
  assumes "accounting c" and "t_current c = Some r" and "r_generated_messages f = r_generated_messages r"
    and "r_request f = r_request r"
  shows "accounting (c\<lparr>t_frozen_result := x, t_current := Some f\<rparr>)"
  using assms by (simp add: accounting_def kind_of_def messages_def)

lemma terminal_fields [simp]:
  "r_generated_messages (terminal_result st m c r) = r_generated_messages r"
  "r_request (terminal_result st m c r) = r_request r"
  "r_generated_messages (persistence_failed exc r) = r_generated_messages r"
  "r_request (persistence_failed exc r) = r_request r"
  by (simp_all add: terminal_result_def persistence_failed_def Let_def)

lemma accounting_finish_end: "accounting c \<Longrightarrow> accounting (fst (finish_end now st err c))"
proof (cases "t_current c")
  case (Some r)
  assume a: "accounting c"
  show ?thesis
  proof (cases "final_metrics c")
    case (Inl e)
    with Some a show ?thesis by (simp add: finish_end_def finish_metrics_def ctl_simps)
  next
    case (Inr m)
    define c1 where "c1 = publish_metric_update_as ''snapshot'' now (summary_values (summary_metrics m)) (c\<lparr>t_metrics := Some m\<rparr>)"
    have c1: "accounting c1" "t_current c1 = Some r" using a Some by (simp_all add: c1_def ctl_simps)
    have "accounting (finish_freeze err (terminal_result st m c r) c1)"
      using c1 by (auto simp: finish_freeze_def Let_def ctl_simps accounting_set_result split: option.splits)
    with Some Inr show ?thesis by (simp add: finish_end_def finish_metrics_def c1_def)
  qed
qed (simp add: finish_end_def finish_metrics_def)

lemma accounting_fresh:
  assumes "messages c = []" and "t_generated_count c = 0" "t_submitted_count c = 0"
    "t_submission_failed_count c = 0" "t_transmitted_count c = 0" "t_acknowledgments c = 0"
    "t_delivered_sequences c = {}" "t_unique_deliveries c = 0" "t_receiver_deliveries c = 0"
    "t_latencies_ms c = []" "t_live_latencies_ms c = []" "t_rf_transmitters c = []" "t_airtimes_ms c = []"
    "t_rf_transmission_count c = 0" "t_observed_airtime_ms c = 0" "t_per_node_transmit_counts c = []"
    "t_per_node_airtime_ms c = []" "t_drop_counts c = []" "t_drop_reasons c = []"
    "t_messages_by_packet c = []" "t_messages_by_key c = []" "t_pending_submissions c = []"
  shows "accounting c"
  unfolding accounting_def assms
  by (simp add: counters_ok_def deliveries_ok_def radio_ok_def refs_ok_def counter_of_def lastn_def)

lemma live_snapshot_empty:
  assumes "t_live_latencies_ms c = []"
  obtains m where "live_metrics_snapshot c = Inr m"
  using assms by (auto simp: live_metrics_snapshot_def calculate_metrics_def percentile_ordered_def Let_def)

lemma accounting_install:
  "accounting (install_run run_id q snapshot raw m (set_baseline snapshot raw (clear_accumulators now c)))"
  by (intro accounting_fresh)
    (simp_all add: install_run_def set_baseline_def clear_accumulators_def new_result_def messages_def Let_def)

lemma start_cases:
  assumes "start_run now run_id q sc raw c = (c', out)"
  obtains (rejected) e ids where "out = Inl e"
      and "c' = c \<or> c' = c\<lparr>t_ids := ids\<rparr> \<and> ids_by_source ids = ids_by_source (t_ids c)"
  | (started) snapshot m ids where "out = Inr run_id" and "check_start run_id q snapshot c = Inr ()"
      and "c' = install_run run_id q snapshot raw m (set_baseline snapshot raw (clear_accumulators now (c\<lparr>t_ids := ids\<rparr>)))"
proof -
  define snapshot where "snapshot = (case sc of Some s \<Rightarrow> s | None \<Rightarrow> t_scenario c)"
  obtain ids o1 where rt: "retire_packet_ids now (t_ids c) = (ids, o1)" by fastforce
  let ?c2 = "set_baseline snapshot raw (clear_accumulators now (c\<lparr>t_ids := ids\<rparr>))"
  have "t_live_latencies_ms ?c2 = []" by (simp add: set_baseline_def clear_accumulators_def Let_def)
  then obtain m where m: "live_metrics_snapshot ?c2 = Inr m" by (rule live_snapshot_empty)
  show thesis
  proof (cases "check_start run_id q snapshot c")
    case (Inl e)
    with assms show thesis
      by (intro rejected [where e = e]) (auto simp: start_run_def snapshot_def)
  next
    case ok: (Inr u)
    show thesis
    proof (cases o1)
      case (Inl e)
      with assms ok rt show thesis
        by (intro rejected [where e = e and ids = ids])
          (auto simp: start_run_def snapshot_def reset_accumulators_def dest: retire_failed_used)
    next
      case (Inr u)
      with assms ok rt m show thesis
        by (intro started [where snapshot = snapshot and m = m and ids = ids])
          (auto simp: start_run_def snapshot_def [symmetric] reset_accumulators_def)
    qed
  qed
qed

lemma accounting_start:
  assumes "accounting c"
  shows "accounting (fst (start_run now run_id q sc raw c))"
proof -
  obtain c' out where s: "start_run now run_id q sc raw c = (c', out)" by fastforce
  then show ?thesis
  proof (cases rule: start_cases)
    case (rejected e ids)
    with assms s show ?thesis by (auto simp: ctl_simps)
  qed (simp add: s accounting_install)
qed

lemma accounting_stop:
  "accounting c \<Longrightarrow> accounting (cancel_run_task c)"
  "accounting c \<Longrightarrow> accounting (snd (stop_begin c))"
  "accounting c \<Longrightarrow> accounting (snd (fail_begin reason c))"
  "accounting c \<Longrightarrow> accounting (run_raised e c)"
  "accounting c \<Longrightarrow> accounting (run_done c)"
  "accounting c \<Longrightarrow> accounting (finalization_wait_timeout c)"
proof -
  show c: "accounting c \<Longrightarrow> accounting (cancel_run_task c)" for c by (simp add: cancel_run_task_def ctl_simps)
  show "accounting c \<Longrightarrow> accounting (snd (stop_begin c))"
    by (auto simp: stop_begin_def ctl_simps c split: option.splits)
  show "accounting c \<Longrightarrow> accounting (snd (fail_begin reason c))"
    by (auto simp: fail_begin_def ctl_simps c accounting_map_current split: option.splits)
qed (simp_all add: run_raised_def run_done_def finalization_wait_timeout_def ctl_simps accounting_map_current)

lemma accounting_new_controller: "accounting (new_controller sc hw broker build settle has_sampler now)"
  by (intro accounting_fresh) (simp_all add: new_controller_def messages_def)

end
