(* ===== verification/Traffic_Lifecycle.thy ===== *)
theory Traffic_Lifecycle
  imports Traffic_Invariant
begin

text \<open>
  The steps of the traffic controller as a transition relation, its reachable states, and the
  lifecycle of a run: which phases and states go together, when the result is frozen, and that the
  counters a result carries are those of the controller. The event handlers do not move a run
  through its lifecycle (\<open>outline\<close>), so the lifecycle invariant has to be proved for the few
  operations that do.
\<close>

named_theorems outline_simps \<open>operations that leave the outline of the run unchanged\<close>

subsection \<open>What the handlers leave alone\<close>

definition outline :: "controller \<Rightarrow> run_phase \<times> run_state \<times> bool \<times> bool \<times> bool \<times> bool \<times>
    (string \<times> traffic_request) option" where
  "outline c = (t_phase c, t_state c, t_finalization_done c, t_task_active c, t_has_sampler c, t_frozen_result c = None,
     map_option (\<lambda>r. (r_run_id r, r_request r)) (t_current c))"

text \<open>The submission counters of the result follow those of the controller.\<close>

definition synced :: "controller \<Rightarrow> bool" where
  "synced c \<longleftrightarrow> (case t_current c of None \<Rightarrow> True | Some r \<Rightarrow> r_requested r = t_generated_count c \<and>
     r_submitted r = t_submitted_count c \<and> r_submission_failed r = t_submission_failed_count c)"

lemma outline_fields [outline_simps]:
  "outline (c\<lparr>t_broker := b\<rparr>) = outline c"
  "outline (c\<lparr>t_ids := ids\<rparr>) = outline c"
  "outline (c\<lparr>t_sequence := n\<rparr>) = outline c"
  "outline (c\<lparr>t_last_activity := x\<rparr>) = outline c"
  "outline (c\<lparr>t_activity_changed := f\<rparr>) = outline c"
  "outline (c\<lparr>t_relay_transmissions := k\<rparr>) = outline c"
  "outline (c\<lparr>t_duplicates := k\<rparr>) = outline c"
  "outline (c\<lparr>t_failed_receptions := k\<rparr>) = outline c"
  "outline (c\<lparr>t_latest_failed_receptions := d\<rparr>) = outline c"
  "outline (c\<lparr>t_latest_duplicate_receptions := d\<rparr>) = outline c"
  "outline (c\<lparr>t_event_loop_lag_ms := l\<rparr>) = outline c"
  "outline (c\<lparr>t_routing_terminal_sequences := s\<rparr>) = outline c"
  "outline (c\<lparr>t_messages_by_packet := mp\<rparr>) = outline c"
  "outline (c\<lparr>t_messages_by_key := mk\<rparr>) = outline c"
  "outline (c\<lparr>t_pending_submissions := pd\<rparr>) = outline c"
  "outline (c\<lparr>t_drain_deadline := dl\<rparr>) = outline c"
  "outline (c\<lparr>t_metrics := m\<rparr>) = outline c"
  "outline (c\<lparr>t_maximum_packet_airtime_ms := k\<rparr>) = outline c"
  "outline (c\<lparr>t_maximum_retransmission_delay_ms := k\<rparr>) = outline c"
  "outline (c\<lparr>t_transmitted_count := k\<rparr>) = outline c"
  "outline (c\<lparr>t_acknowledgments := k\<rparr>) = outline c"
  "outline (c\<lparr>t_receiver_deliveries := k\<rparr>) = outline c"
  "outline (c\<lparr>t_receiver_opportunities := k\<rparr>) = outline c"
  "outline (c\<lparr>t_unique_deliveries := k\<rparr>) = outline c"
  "outline (c\<lparr>t_delivered_sequences := s\<rparr>) = outline c"
  "outline (c\<lparr>t_latencies_ms := xs\<rparr>) = outline c"
  "outline (c\<lparr>t_live_latencies_ms := xs\<rparr>) = outline c"
  "outline (c\<lparr>t_rf_transmitters := ts\<rparr>) = outline c"
  "outline (c\<lparr>t_airtimes_ms := as\<rparr>) = outline c"
  "outline (c\<lparr>t_rf_transmission_count := k\<rparr>) = outline c"
  "outline (c\<lparr>t_observed_airtime_ms := k\<rparr>) = outline c"
  "outline (c\<lparr>t_per_node_transmit_counts := d\<rparr>) = outline c"
  "outline (c\<lparr>t_per_node_airtime_ms := d\<rparr>) = outline c"
  "outline (c\<lparr>t_drop_reasons := rs\<rparr>) = outline c"
  "outline (c\<lparr>t_drop_counts := d\<rparr>) = outline c"
  "synced (c\<lparr>t_broker := b\<rparr>) = synced c"
  "synced (c\<lparr>t_ids := ids\<rparr>) = synced c"
  "synced (c\<lparr>t_sequence := n\<rparr>) = synced c"
  "synced (c\<lparr>t_last_activity := x\<rparr>) = synced c"
  "synced (c\<lparr>t_activity_changed := f\<rparr>) = synced c"
  "synced (c\<lparr>t_relay_transmissions := k\<rparr>) = synced c"
  "synced (c\<lparr>t_duplicates := k\<rparr>) = synced c"
  "synced (c\<lparr>t_failed_receptions := k\<rparr>) = synced c"
  "synced (c\<lparr>t_latest_failed_receptions := d\<rparr>) = synced c"
  "synced (c\<lparr>t_latest_duplicate_receptions := d\<rparr>) = synced c"
  "synced (c\<lparr>t_event_loop_lag_ms := l\<rparr>) = synced c"
  "synced (c\<lparr>t_routing_terminal_sequences := s\<rparr>) = synced c"
  "synced (c\<lparr>t_messages_by_packet := mp\<rparr>) = synced c"
  "synced (c\<lparr>t_messages_by_key := mk\<rparr>) = synced c"
  "synced (c\<lparr>t_pending_submissions := pd\<rparr>) = synced c"
  "synced (c\<lparr>t_drain_deadline := dl\<rparr>) = synced c"
  "synced (c\<lparr>t_metrics := m\<rparr>) = synced c"
  "synced (c\<lparr>t_maximum_packet_airtime_ms := k\<rparr>) = synced c"
  "synced (c\<lparr>t_maximum_retransmission_delay_ms := k\<rparr>) = synced c"
  "synced (c\<lparr>t_transmitted_count := k\<rparr>) = synced c"
  "synced (c\<lparr>t_acknowledgments := k\<rparr>) = synced c"
  "synced (c\<lparr>t_receiver_deliveries := k\<rparr>) = synced c"
  "synced (c\<lparr>t_receiver_opportunities := k\<rparr>) = synced c"
  "synced (c\<lparr>t_unique_deliveries := k\<rparr>) = synced c"
  "synced (c\<lparr>t_delivered_sequences := s\<rparr>) = synced c"
  "synced (c\<lparr>t_latencies_ms := xs\<rparr>) = synced c"
  "synced (c\<lparr>t_live_latencies_ms := xs\<rparr>) = synced c"
  "synced (c\<lparr>t_rf_transmitters := ts\<rparr>) = synced c"
  "synced (c\<lparr>t_airtimes_ms := as\<rparr>) = synced c"
  "synced (c\<lparr>t_rf_transmission_count := k\<rparr>) = synced c"
  "synced (c\<lparr>t_observed_airtime_ms := k\<rparr>) = synced c"
  "synced (c\<lparr>t_per_node_transmit_counts := d\<rparr>) = synced c"
  "synced (c\<lparr>t_per_node_airtime_ms := d\<rparr>) = synced c"
  "synced (c\<lparr>t_drop_reasons := rs\<rparr>) = synced c"
  "synced (c\<lparr>t_drop_counts := d\<rparr>) = synced c"
  by (simp_all add: outline_def synced_def cong: option.case_cong)

lemma synced_flags [outline_simps]:
  "synced (c\<lparr>t_phase := ph\<rparr>) = synced c" "synced (c\<lparr>t_state := st\<rparr>) = synced c"
  "synced (c\<lparr>t_task_active := f\<rparr>) = synced c" "synced (c\<lparr>t_finalization_done := f\<rparr>) = synced c"
  "synced (c\<lparr>t_finalization_wait_timed_out := f\<rparr>) = synced c"
  by (simp_all add: synced_def cong: option.case_cong)

lemma outline_primitives [outline_simps]:
  "outline (note_activity now c) = outline c" "synced (note_activity now c) = synced c"
  "outline (publish_metric_update_as res now v c) = outline c" "synced (publish_metric_update_as res now v c) = synced c"
  "outline (publish_event e c) = outline c" "synced (publish_event e c) = synced c"
  by (simp_all add: note_activity_def ctl_simps outline_simps)

lemma outline_map_current:
  assumes "\<And>r. r_run_id (f r) = r_run_id r" and "\<And>r. r_request (f r) = r_request r"
  shows "outline (map_current f c) = outline c"
  using assms by (cases "t_current c") (simp_all add: map_current_def outline_def)

lemma synced_map_current:
  assumes "\<And>r. r_requested (f r) = r_requested r" and "\<And>r. r_submitted (f r) = r_submitted r"
    and "\<And>r. r_submission_failed (f r) = r_submission_failed r"
  shows "synced (map_current f c) = synced c"
  using assms by (cases "t_current c") (simp_all add: map_current_def synced_def)

lemma outline_map_message [outline_simps]:
  "outline (map_message i f c) = outline c" "synced (map_message i f c) = synced c"
  by (simp_all add: map_message_def outline_map_current synced_map_current)

lemma outline_counting [outline_simps]:
  "outline (count_submitted i c) = outline c" "outline (count_submission_failed i err c) = outline c"
  "outline (withdraw_submission i c) = outline c" "outline (register_message now m origin c) = outline c"
  "synced c \<Longrightarrow> synced (count_submitted i c)" "synced c \<Longrightarrow> synced (count_submission_failed i err c)"
  "synced c \<Longrightarrow> synced (withdraw_submission i c)" "synced c \<Longrightarrow> synced (register_message now m origin c)"
  by (cases "t_current c"; simp add: count_submitted_def count_submission_failed_def withdraw_submission_def
      register_message_def Let_def ctl_simps map_message_def map_current_def outline_def synced_def)+

lemma outline_small [outline_simps]:
  "outline (count_transmission tx air i c) = outline c" "synced (count_transmission tx air i c) = synced c"
  "outline (add_drop reason c) = outline c" "synced (add_drop reason c) = synced c"
  "outline (publish_submission now s i res detail c) = outline c" "synced (publish_submission now s i res detail c) = synced c"
  "outline (snd (count_delivery now n i c)) = outline c" "synced (snd (count_delivery now n i c)) = synced c"
  "outline (count_acknowledgment now i c) = outline c" "synced (count_acknowledgment now i c) = synced c"
  "outline (publish_routing now ty n p r sq res c) = outline c" "synced (publish_routing now ty n p r sq res c) = synced c"
  by (simp_all add: count_transmission_def add_drop_def publish_submission_def count_delivery_def
      count_acknowledgment_def publish_routing_def Let_def outline_simps)

lemma outline_identity:
  assumes "message_for_packet_identity pb tr p c = (found, c')"
  shows "outline c' = outline c" and "synced c' = synced c"
  using assms by (auto simp: message_for_packet_identity_def outline_simps split: option.splits)

lemma outline_correlated:
  assumes "correlated_delivery_message ev p c = (found, c')"
  shows "outline c' = outline c" and "synced c' = synced c"
  using assms by (auto simp: correlated_delivery_message_def dest: outline_identity split: option.splits prod.splits if_splits)

lemma outline_resolve [outline_simps]:
  "outline (resolve_submission now s i err c) = outline c" "synced c \<Longrightarrow> synced (resolve_submission now s i err c)"
  by (simp_all add: resolve_submission_def outline_simps split: option.splits)

lemma outline_resolve_all [outline_simps]:
  "outline (resolve_all now ps c) = outline c" "synced c \<Longrightarrow> synced (resolve_all now ps c)"
  by (induction now ps c rule: resolve_all.induct) (simp_all add: outline_simps)

lemma outline_finalize [outline_simps]:
  "outline (finalize_pending_submissions now c) = outline c" "synced c \<Longrightarrow> synced (finalize_pending_submissions now c)"
  by (simp_all add: finalize_pending_submissions_def outline_simps)

lemma outline_reports [outline_simps]:
  "outline (record_drop ev now tx p reason c) = outline c" "synced (record_drop ev now tx p reason c) = synced c"
  "outline (record_failed_receptions now n k c) = outline c" "synced (record_failed_receptions now n k c) = synced c"
  "outline (record_duplicate_receptions now n k c) = outline c" "synced (record_duplicate_receptions now n k c) = synced c"
  "outline (set_event_loop_lag now x c) = outline c" "synced (set_event_loop_lag now x c) = synced c"
  by (auto simp: record_drop_def record_failed_receptions_def record_duplicate_receptions_def set_event_loop_lag_def
      Let_def outline_simps outline_identity split: option.splits prod.splits)

lemma outline_rf [outline_simps]:
  "outline (fst (record_rf_transmission ev now tx p air c)) = outline c"
  "synced (fst (record_rf_transmission ev now tx p air c)) = synced c"
  by (auto simp: record_rf_transmission_def Let_def outline_simps outline_identity split: option.splits prod.splits)

lemma outline_topology [outline_simps]:
  "outline (fst (record_topology_change e l c)) = outline c" "synced (fst (record_topology_change e l c)) = synced c"
  by (simp_all add: record_topology_change_def outline_map_current synced_map_current split: sum.splits)

lemma outline_queue_status [outline_simps]:
  "outline (record_queue_status ev now n st c) = outline c" "synced c \<Longrightarrow> synced (record_queue_status ev now n st c)"
  by (simp_all add: record_queue_status_def Let_def outline_simps split: option.splits)

lemma outline_rejection [outline_simps]:
  "outline (record_pretransmission_rejection now s i reason c) = outline c"
  "synced c \<Longrightarrow> synced (record_pretransmission_rejection now s i reason c)"
  by (simp_all add: record_pretransmission_rejection_def Let_def outline_simps)

lemma outline_text [outline_simps]:
  "outline (handle_text ev now n p r c) = outline c" "synced (handle_text ev now n p r c) = synced c"
proof -
  obtain found c1 where f: "correlated_delivery_message ev p c = (found, c1)" by fastforce
  note c1 = outline_correlated [OF f]
  have "outline c2 = outline c1 \<and> synced c2 = synced c1" if "count_delivery now n i c1 = (x, c2)" for i x c2
    using outline_small(7,8) [where now = now and n = n and i = i and c = c1] by (simp add: that)
  with f c1 show "outline (handle_text ev now n p r c) = outline c" "synced (handle_text ev now n p r c) = synced c"
    by (auto simp: handle_text_def Let_def outline_simps split: option.splits prod.splits)
qed

lemma outline_routing_parts [outline_simps]:
  "outline (fst (handle_routing_error now n p i e r c)) = outline c"
  "synced (fst (handle_routing_error now n p i e r c)) = synced c"
  "outline (fst (handle_acknowledgment now n p origin i r c)) = outline c"
  "synced (fst (handle_acknowledgment now n p origin i r c)) = synced c"
  by (simp_all add: handle_routing_error_def handle_acknowledgment_def Let_def outline_simps split: sum.splits option.splits)

lemma outline_radio [outline_simps]:
  "outline (fst (handle_from_radio ev now n msg c)) = outline c"
  "synced c \<Longrightarrow> synced (fst (handle_from_radio ev now n msg c))"
proof -
  have "outline (fst (handle_routing ev now n p d r c)) = outline c \<and> (synced c \<longrightarrow> synced (fst (handle_routing ev now n p d r c)))" for p d r
    unfolding handle_routing_def Let_def by (simp add: outline_simps split: option.split)
  then show "outline (fst (handle_from_radio ev now n msg c)) = outline c"
    "synced c \<Longrightarrow> synced (fst (handle_from_radio ev now n msg c))"
    by (auto simp: handle_from_radio_def outline_simps split: option.splits from_radio.splits)
qed

text \<open>A submission is a step of the generating task: it leaves the outline too, whatever happens.\<close>

lemma outline_measure:
  "outline (fst (measure_packet ev now p c)) = outline c" "synced (fst (measure_packet ev now p c)) = synced c"
  by (simp_all add: measure_packet_def Let_def outline_simps split: sum.splits)

lemma outline_hand_over:
  "outline (fst (hand_over send now s p i w c)) = outline c" "synced c \<Longrightarrow> synced (fst (hand_over send now s p i w c))"
  by (simp_all add: hand_over_def outline_simps split: prod.splits sum.splits)

lemma outline_submit:
  assumes "submit ev g send now source destination flow s w c = Some (c', s', w', out)"
  shows "outline c' = outline c" and "synced c \<Longrightarrow> synced c'"
proof -
  have "outline c' = outline c \<and> (synced c \<longrightarrow> synced c')"
    using assms
  proof (cases rule: submit_cases)
    case (registered r pid ids s1 payload p c4 o4)
    have c4: "outline c4 = outline c \<and> (synced c \<longrightarrow> synced c4)"
      using outline_measure [where ev = ev and now = now and p = p] registered(4) by (metis fst_conv outline_simps)
    show ?thesis
      using registered(5) c4 outline_hand_over [where c = c4 and send = send and now = now and s = source and p = p
          and i = "length (r_generated_messages r)" and w = w] by auto
  qed (simp_all add: outline_simps)
  then show "outline c' = outline c" and "synced c \<Longrightarrow> synced c'" by blast+
qed

lemma outline_turn:
  assumes "run_turn ev g send now rt w c = Some (rt', c', w', out)"
  shows "outline c' = outline c" and "synced c \<Longrightarrow> synced c'"
proof -
  have "c' = c \<or> (\<exists>source destination flow s s'. submit ev g send now source destination flow s w c = Some (c', s', w', out))"
    using assms by (auto simp: run_turn_def Let_def bind_eq_Some_conv split: prod.splits sum.splits)
      (metis old.unit.exhaust sumE)
  then show "outline c' = outline c" and "synced c \<Longrightarrow> synced c'" by (auto dest: outline_submit)
qed

lemma outline_drain [outline_simps]:
  "outline (drain_begin now c) = outline c" "synced (drain_begin now c) = synced c"
  "outline (snd (drain_check now quiet deadline c)) = outline c" "synced (snd (drain_check now quiet deadline c)) = synced c"
  "outline (drain_end now timed_out c) = outline c" "synced c \<Longrightarrow> synced (drain_end now timed_out c)"
  by (simp_all add: drain_begin_def drain_check_def drain_end_def Let_def outline_simps split: option.splits)

lemma outline_samples [outline_simps]:
  "outline (snd (sample_failed now ts missing c)) = outline c" "synced (snd (sample_failed now ts missing c)) = synced c"
  "outline (sample_duplicates now ts c) = outline c" "synced (sample_duplicates now ts c) = synced c"
proof -
  show "outline (snd (sample_failed now ts missing c)) = outline c" "synced (snd (sample_failed now ts missing c)) = synced c"
    by (induction now ts missing c rule: sample_failed.induct) (simp_all add: outline_simps)
  show "outline (sample_duplicates now ts c) = outline c" "synced (sample_duplicates now ts c) = synced c"
    by (induction now ts c rule: sample_duplicates.induct) (simp_all add: outline_simps)
qed

lemma outline_sample_final [outline_simps]:
  "outline (sample_final_failed_receptions now sampled c) = outline c"
  "synced (sample_final_failed_receptions now sampled c) = synced c"
  by (simp_all add: sample_final_failed_receptions_def Let_def case_prod_unfold outline_map_current synced_map_current
      outline_simps split: option.splits)

subsection \<open>Finished runs are left alone\<close>

definition running :: "controller \<Rightarrow> bool" where
  "running c \<longleftrightarrow> t_phase c = Ph_GENERATING \<or> t_phase c = Ph_DRAINING"

lemma not_running_accepts: "\<not> running c \<Longrightarrow> \<not> accepts_run_events f c"
  by (auto simp: running_def accepts_run_events_def)

lemma stats_ignored:
  "\<not> running c \<Longrightarrow> record_failed_receptions now n k c = c"
  "\<not> running c \<Longrightarrow> record_duplicate_receptions now n k c = c"
  by (simp_all add: record_failed_receptions_def record_duplicate_receptions_def not_running_accepts)

lemma samples_ignored:
  "\<not> running c \<Longrightarrow> snd (sample_failed now ts missing c) = c" "\<not> running c \<Longrightarrow> sample_duplicates now ts c = c"
proof -
  show "\<not> running c \<Longrightarrow> snd (sample_failed now ts missing c) = c"
    by (induction now ts missing c rule: sample_failed.induct) (simp_all add: stats_ignored)
  show "\<not> running c \<Longrightarrow> sample_duplicates now ts c = c"
    by (induction now ts c rule: sample_duplicates.induct) (simp_all add: stats_ignored)
qed

lemma handlers_ignore:
  assumes "\<not> running c"
  shows "record_rf_transmission ev now tx p air c = (c, Inr None)" and "record_drop ev now tx p reason c = c"
    and "record_failed_receptions now n k c = c" and "record_duplicate_receptions now n k c = c"
    and "record_topology_change e l c = (c, Inr ())" and "set_event_loop_lag now x c = c"
    and "handle_from_radio ev now n msg c = (c, Inr ())"
  using not_running_accepts [OF assms]
  by (simp_all add: record_rf_transmission_def record_drop_def record_topology_change_def set_event_loop_lag_def
      handle_from_radio_def stats_ignored [OF assms] split: option.splits)

subsection \<open>The steps\<close>

text \<open>
  One step is one uninterrupted stretch of code: a report of the medium, a node statistic, a
  message from a radio that the environment may send (\<open>allowed\<close>), a turn of the generating or
  draining task, or a stretch of \<^verbatim>\<open>start\<close>, \<^verbatim>\<open>stop\<close>, \<^verbatim>\<open>fail\<close> and
  \<^verbatim>\<open>_finish\<close>. The premises are the control flow of the task and of its callers; the
  premise of \<open>start\<close> holds because the simulator service serialises start and stop by a lock.
  The generating task works on the request of the run that started it: \<open>task_of\<close> holds when it begins
  and is kept by every turn that leaves a tick (\<open>task_begins\<close>, \<open>task_continues\<close>).
\<close>

definition task_of :: "traffic_request \<Rightarrow> 'r run_task \<Rightarrow> bool" where
  "task_of q rt \<longleftrightarrow> rt_request rt = q \<and> pl_flows (rt_plan rt) = scheduling_flows q \<and> rt_next_tick rt \<noteq> [] \<and>
     (\<forall>(k, t) \<in> set (rt_next_tick rt). fst k < length (scheduling_flows q) \<and>
        snd k \<in> set (f_source_nodes (scheduling_flows q ! fst k)))"

lemma task_begins:
  assumes "check_request q = Inr q" and "validate_request_nodes q sc = Inr ()"
  shows "task_of q (begin_run g sha q)"
proof -
  note valid = validated_flows [OF assms]
  have keys: "fst k < length (scheduling_flows q) \<and> snd k \<in> set (f_source_nodes (scheduling_flows q ! fst k))"
    if "(k, t) \<in> set (initial_ticks (scheduling_flows q))" for k t
  proof -
    have "k \<in> set (dict_keys (initial_ticks (scheduling_flows q)))" using that by force
    then have "dict_get (initial_ticks (scheduling_flows q)) k \<noteq> None" by (simp add: map_of_eq_None_iff)
    then show ?thesis using initial_ticks_get [of "scheduling_flows q" k, OF valid(1)] by (simp split: if_splits)
  qed
  obtain f fs where f: "scheduling_flows q = f # fs" by (cases "q_flows q") (simp_all add: scheduling_flows_def)
  then obtain s where "s \<in> set (f_source_nodes f)" using valid(3) [of f] by (cases "f_source_nodes f") auto
  with f have "dict_get (initial_ticks (scheduling_flows q)) (0, s) \<noteq> None"
    using initial_ticks_get [of "scheduling_flows q" "(0, s)", OF valid(1)] by simp
  then have "initial_ticks (scheduling_flows q) \<noteq> []" by auto
  with keys show ?thesis by (auto simp: task_of_def begin_run_def make_plan_def Let_def)
qed

lemma unit_result: "r \<noteq> Inr () \<longleftrightarrow> (\<exists>e. r = Inl e)"
  by (cases r) auto

lemma task_continues:
  assumes "task_of q rt" and "run_turn ev g send now rt w c = Some (rt', c', w', out)"
  shows "rt_next_tick rt' = [] \<or> task_of q rt'"
proof -
  obtain k t where n: "next_due (rt_plan rt) (rt_next_tick rt) = (k, t)" by fastforce
  have mem: "(k, t) \<in> set (rt_next_tick rt)" using next_due_in [of "rt_next_tick rt" "rt_plan rt"] assms(1) n by (simp add: task_of_def)
  have "set (advance pl k t nt) \<subseteq> set nt \<union> {(k, t + 1)}" for pl nt
    by (auto simp: advance_def dest: set_dict_set [THEN subsetD] set_dict_pop [THEN subsetD])
  moreover have "rt_request rt' = rt_request rt \<and> rt_plan rt' = rt_plan rt \<and>
      (rt_next_tick rt' = rt_next_tick rt \<or> rt_next_tick rt' = advance (rt_plan rt) k t (rt_next_tick rt))"
    using assms(2) n
    by (auto simp: run_turn_def Let_def bind_eq_Some_conv unit_result split: sum.splits prod.splits)
  ultimately show ?thesis using assms(1) mem by (fastforce simp: task_of_def)
qed

inductive ctl_step :: "env \<Rightarrow> 'r rng \<Rightarrow> 'w send \<Rightarrow> (string \<Rightarrow> from_radio \<Rightarrow> controller \<Rightarrow> bool) \<Rightarrow>
    controller \<Rightarrow> controller \<Rightarrow> bool" for ev g send allowed where
  rf: "ctl_step ev g send allowed c (fst (record_rf_transmission ev now tx p air c))"
| drop: "ctl_step ev g send allowed c (record_drop ev now tx p reason c)"
| failed_stat: "ctl_step ev g send allowed c (record_failed_receptions now n k c)"
| duplicate_stat: "ctl_step ev g send allowed c (record_duplicate_receptions now n k c)"
| topology: "ctl_step ev g send allowed c (fst (record_topology_change e l c))"
| lag: "ctl_step ev g send allowed c (set_event_loop_lag now x c)"
| radio: "allowed n msg c \<Longrightarrow> ctl_step ev g send allowed c (fst (handle_from_radio ev now n msg c))"
| turn: "t_task_active c \<Longrightarrow> t_phase c = Ph_GENERATING \<Longrightarrow> (\<And>r. t_current c = Some r \<Longrightarrow> task_of (r_request r) rt) \<Longrightarrow>
    run_turn ev g send now rt w c = Some (rt', c', w', out) \<Longrightarrow>
    ctl_step ev g send allowed c c'"
| draining: "t_task_active c \<Longrightarrow> t_phase c = Ph_GENERATING \<Longrightarrow> ctl_step ev g send allowed c (begin_draining c)"
| drain_begin: "t_task_active c \<Longrightarrow> t_phase c = Ph_DRAINING \<Longrightarrow> ctl_step ev g send allowed c (drain_begin now c)"
| drain_check: "t_task_active c \<Longrightarrow> t_phase c = Ph_DRAINING \<Longrightarrow>
    ctl_step ev g send allowed c (snd (drain_check now quiet deadline c))"
| drain_end: "t_task_active c \<Longrightarrow> t_phase c = Ph_DRAINING \<Longrightarrow> ctl_step ev g send allowed c (drain_end now timed_out c)"
| sample: "ctl_step ev g send allowed c (sample_final_failed_receptions now sampled c)"
| finish_begin: "finish_begin now c = Some c' \<Longrightarrow> ctl_step ev g send allowed c c'"
| finish_end: "t_phase c = Ph_FINALIZING \<Longrightarrow> ctl_step ev g send allowed c (fst (finish_end now st err c))"
| raised: "t_task_active c \<Longrightarrow> running c \<Longrightarrow> ctl_step ev g send allowed c (run_raised e c)"
| task_done: "\<not> running c \<Longrightarrow> ctl_step ev g send allowed c (run_done c)"
| wait_timeout: "ctl_step ev g send allowed c (finalization_wait_timeout c)"
| stop: "ctl_step ev g send allowed c (snd (stop_begin c))"
| fail: "ctl_step ev g send allowed c (snd (fail_begin reason c))"
| stop_finalize: "ctl_step ev g send allowed c (finalize_pending_submissions now c)"
| start: "t_finalization_done c \<Longrightarrow> ctl_step ev g send allowed c (fst (start_run now run_id q sc raw c))"

inductive ctl_reachable :: "env \<Rightarrow> 'r rng \<Rightarrow> 'w send \<Rightarrow> (string \<Rightarrow> from_radio \<Rightarrow> controller \<Rightarrow> bool) \<Rightarrow>
    controller \<Rightarrow> bool" for ev g send allowed where
  new: "ctl_reachable ev g send allowed (new_controller sc hw broker build settle has_sampler now)"
| step: "ctl_reachable ev g send allowed c \<Longrightarrow> ctl_step ev g send allowed c c' \<Longrightarrow> ctl_reachable ev g send allowed c'"

lemmas accounting_intros = accounting_rf accounting_record_drop accounting_stats accounting_topology accounting_lag
  accounting_radio accounting_run_turn accounting_drain accounting_sample_final accounting_finish_begin
  accounting_finish_end accounting_stop accounting_finalize accounting_start

lemma ctl_step_accounting: "ctl_step ev g send allowed c c' \<Longrightarrow> accounting c \<Longrightarrow> accounting c'"
  by (induction rule: ctl_step.induct) (blast intro: accounting_intros)+

lemma ctl_reachable_accounting: "ctl_reachable ev g send allowed c \<Longrightarrow> accounting c"
  by (induction rule: ctl_reachable.induct) (blast intro: accounting_new_controller ctl_step_accounting)+

subsection \<open>The lifecycle invariant\<close>

text \<open>
  A frozen result belongs to a finished run, is the controller's current result, and carries the
  counters and the metrics that the controller has; a run that is not frozen is not terminal.
  Unanswered submissions and the states of an active run exist only while a run is active.
\<close>

definition frozen_ok :: "controller \<Rightarrow> run_result \<Rightarrow> bool" where
  "frozen_ok c f \<longleftrightarrow> t_current c = Some f \<and> t_phase c = Ph_TERMINAL \<and> r_finished f \<and>
     r_transmitted f = t_transmitted_count c \<and> r_delivered f = t_unique_deliveries c \<and>
     final_metrics c = Inr (r_metrics f)"

definition lifecycle :: "controller \<Rightarrow> bool" where
  "lifecycle c \<longleftrightarrow> synced c \<and>
     (case t_frozen_result c of Some f \<Rightarrow> frozen_ok c f | None \<Rightarrow> t_phase c = Ph_TERMINAL \<longrightarrow> t_current c = None) \<and>
     (\<not> running c \<longrightarrow> t_pending_submissions c = []) \<and>
     (running c \<longrightarrow> t_current c \<noteq> None \<and> t_state c \<in> {Run_RUNNING, Run_STOPPING} \<and> t_finalization_done c) \<and>
     (t_state c = Run_FAILED \<longrightarrow> t_phase c = Ph_TERMINAL)"

lemma lifecycleI_running:
  assumes "lifecycle c" and "running c" and "outline c' = outline c" and "synced c \<Longrightarrow> synced c'"
  shows "lifecycle c'"
proof -
  have same: "t_phase c' = t_phase c" "t_state c' = t_state c" "t_finalization_done c' = t_finalization_done c"
    "t_frozen_result c' = None \<longleftrightarrow> t_frozen_result c = None" "t_current c' = None \<longleftrightarrow> t_current c = None"
    using assms(3) by (auto simp: outline_def dest: arg_cong [of _ _ "\<lambda>x. x = None"])
  have "t_frozen_result c = None"
    using assms(1,2) by (cases "t_frozen_result c") (auto simp: lifecycle_def frozen_ok_def running_def)
  moreover have "t_phase c \<noteq> Ph_TERMINAL" "running c'" using assms(2) same(1) by (auto simp: running_def)
  ultimately show ?thesis using assms(1,2,4) same by (simp add: lifecycle_def)
qed

lemma final_metrics_cong:
  assumes "t_generated_count c' = t_generated_count c" and "t_current c = Some r" and "t_current c' = Some r'"
    and "r_generated_messages r' = r_generated_messages r" and "r_run_id r' = r_run_id r" and "r_request r' = r_request r"
    and "t_acknowledgments c' = t_acknowledgments c" and "t_submitted_count c' = t_submitted_count c"
    and "t_latencies_ms c' = t_latencies_ms c" and "t_rf_transmitters c' = t_rf_transmitters c"
    and "t_relay_transmissions c' = t_relay_transmissions c" and "t_duplicates c' = t_duplicates c"
    and "t_failed_receptions c' = t_failed_receptions c" and "t_drop_reasons c' = t_drop_reasons c"
    and "t_airtimes_ms c' = t_airtimes_ms c" and "t_event_loop_lag_ms c' = t_event_loop_lag_ms c"
    and "t_receiver_deliveries c' = t_receiver_deliveries c" and "t_receiver_opportunities c' = t_receiver_opportunities c"
  shows "final_metrics c' = final_metrics c"
  using assms by (simp add: final_metrics_def expected_acknowledgments_def delivered_ids_of_def receivers_per_broadcast_of_def)

text \<open>An idle controller keeps the invariant when only its task flags, its missing-statistics list or
  its failure text change.\<close>

lemma lifecycle_idle:
  assumes "lifecycle c" and "\<And>r. r_run_id (f r) = r_run_id r" and "\<And>r. r_request (f r) = r_request r"
    and "\<And>r. r_generated_messages (f r) = r_generated_messages r" and "\<And>r. r_finished (f r) = r_finished r"
    and "\<And>r. r_requested (f r) = r_requested r" and "\<And>r. r_submitted (f r) = r_submitted r"
    and "\<And>r. r_submission_failed (f r) = r_submission_failed r" and "\<And>r. r_transmitted (f r) = r_transmitted r"
    and "\<And>r. r_delivered (f r) = r_delivered r" and "\<And>r. r_metrics (f r) = r_metrics r"
  shows "lifecycle (map_current f c)"
proof -
  have "synced (map_current f c)" using assms by (simp add: synced_map_current lifecycle_def)
  moreover have "frozen_ok (map_current f c) (f r)" if "frozen_ok c r" for r
  proof -
    have "final_metrics (map_current f c) = final_metrics c"
      using that assms by (intro final_metrics_cong [where r = r and r' = "f r"]) (simp_all add: frozen_ok_def map_current_def)
    with that assms show ?thesis by (simp add: frozen_ok_def map_current_def)
  qed
  moreover have "t_phase (map_current f c) = t_phase c" "t_state (map_current f c) = t_state c"
    "t_finalization_done (map_current f c) = t_finalization_done c" "running (map_current f c) = running c"
    "t_pending_submissions (map_current f c) = t_pending_submissions c"
    "t_frozen_result (map_current f c) = map_option f (t_frozen_result c)"
    "t_current (map_current f c) = map_option f (t_current c)"
    by (simp_all add: map_current_def running_def)
  ultimately show ?thesis using assms(1) by (cases "t_frozen_result c") (simp_all add: lifecycle_def)
qed

lemma final_metrics_flags [simp]:
  "final_metrics (c\<lparr>t_task_active := a\<rparr>) = final_metrics c"
  "final_metrics (c\<lparr>t_drain_deadline := dl\<rparr>) = final_metrics c"
  "final_metrics (c\<lparr>t_state := st\<rparr>) = final_metrics c"
  "final_metrics (c\<lparr>t_phase := ph\<rparr>) = final_metrics c"
  "final_metrics (c\<lparr>t_pending_submissions := pd\<rparr>) = final_metrics c"
  "final_metrics (c\<lparr>t_finalization_done := f\<rparr>) = final_metrics c"
  "final_metrics (c\<lparr>t_finalization_wait_timed_out := f\<rparr>) = final_metrics c"
  "final_metrics (c\<lparr>t_ids := ids\<rparr>) = final_metrics c"
  "final_metrics (c\<lparr>t_broker := b\<rparr>) = final_metrics c"
  "final_metrics (c\<lparr>t_metrics := ms\<rparr>) = final_metrics c"
  by (cases "t_current c"; simp add: final_metrics_def expected_acknowledgments_def)+

lemma lifecycle_flags:
  "lifecycle (c\<lparr>t_task_active := a\<rparr>) = lifecycle c"
  "lifecycle (c\<lparr>t_drain_deadline := dl\<rparr>) = lifecycle c"
  "lifecycle (c\<lparr>t_finalization_wait_timed_out := f\<rparr>) = lifecycle c"
  "lifecycle (c\<lparr>t_ids := ids\<rparr>) = lifecycle c"
  "lifecycle c \<Longrightarrow> lifecycle (c\<lparr>t_state := Run_STOPPING\<rparr>)"
  "lifecycle c \<Longrightarrow> lifecycle (c\<lparr>t_pending_submissions := []\<rparr>)"
  by (auto simp: lifecycle_def frozen_ok_def running_def synced_def cong: option.case_cong split: option.splits)

lemma lifecycle_sample:
  assumes "lifecycle c"
  shows "lifecycle (sample_final_failed_receptions now sampled c)"
proof (cases "running c")
  case True
  with assms show ?thesis by (rule lifecycleI_running) (simp_all add: outline_simps)
next
  case False
  then show ?thesis
    by (simp add: sample_final_failed_receptions_def Let_def case_prod_unfold samples_ignored assms lifecycle_idle
        split: option.split)
qed

lemma lifecycle_finish_begin:
  assumes "lifecycle c" and "finish_begin now c = Some c'"
  shows "lifecycle c'"
proof (cases "t_current c = None \<or> t_frozen_result c \<noteq> None")
  case True
  with assms show ?thesis by (simp add: finish_begin_def)
next
  case False
  let ?c1 = "c\<lparr>t_finalization_done := False, t_phase := Ph_FINALIZING\<rparr>"
  from False assms(2) have c': "c' = finalize_pending_submissions now ?c1"
    by (simp add: finish_begin_def split: if_splits)
  have "synced ?c1" using assms(1) by (simp add: lifecycle_def outline_simps)
  then have "synced c'" by (simp add: c' outline_simps)
  moreover have "outline c' = outline ?c1" by (simp add: c' outline_simps)
  then have "t_phase c' = Ph_FINALIZING" "t_state c' = t_state c" "t_frozen_result c' = None"
    using False by (auto simp: outline_def)
  moreover have "t_pending_submissions c' = []" by (simp add: c' finalize_pending_submissions_def)
  moreover have "t_state c \<noteq> Run_FAILED" using assms(1) False by (auto simp: lifecycle_def)
  ultimately show ?thesis by (simp add: lifecycle_def running_def)
qed

lemma lifecycle_finish_end:
  assumes "lifecycle c" and "t_phase c = Ph_FINALIZING"
  shows "lifecycle (fst (finish_end now st err c))"
proof (cases "t_current c")
  case None
  with assms show ?thesis by (simp add: finish_end_def finish_metrics_def)
next
  case (Some r)
  have "t_frozen_result c = None"
    using assms by (cases "t_frozen_result c") (auto simp: lifecycle_def frozen_ok_def)
  show ?thesis
  proof (cases "final_metrics c")
    case (Inl e)
    with assms Some show ?thesis
      by (simp add: finish_end_def finish_metrics_def lifecycle_def running_def synced_def \<open>t_frozen_result c = None\<close>)
  next
    case (Inr m)
    define t where "t = terminal_result st m c r"
    define f where "f = (case err of None \<Rightarrow> t | Some exc \<Rightarrow> persistence_failed exc t)"
    define b where "b = metric_broker ''snapshot'' now (summary_values (summary_metrics m)) (c\<lparr>t_metrics := Some m\<rparr>)"
    define c' where "c' = c\<lparr>t_metrics := Some m, t_broker := b, t_frozen_result := Some f, t_current := Some f,
        t_state := r_state f, t_phase := Ph_TERMINAL, t_finalization_done := True\<rparr>"
    have f: "r_generated_messages f = r_generated_messages r" "r_run_id f = r_run_id r" "r_request f = r_request r"
      "r_finished f" "r_transmitted f = t_transmitted_count c" "r_delivered f = t_unique_deliveries c" "r_metrics f = m"
      "r_requested f = t_generated_count c" "r_submitted f = t_submitted_count c" "r_submission_failed f = t_submission_failed_count c"
      by (auto simp: f_def t_def terminal_result_def persistence_failed_def Let_def split: option.splits)
    have "final_metrics c' = final_metrics c"
      by (rule final_metrics_cong [where r = r and r' = f]) (simp_all add: c'_def Some f)
    then have "frozen_ok c' f" using Inr f by (simp add: frozen_ok_def c'_def)
    then have "lifecycle c'"
      using f assms by (simp add: lifecycle_def running_def synced_def c'_def)
    moreover have "fst (finish_end now st err c) = c'"
      by (simp add: finish_end_def finish_metrics_def Some Inr finish_freeze_def Let_def ctl_simps
          c'_def b_def f_def t_def [symmetric])
    ultimately show ?thesis by simp
  qed
qed

lemma lifecycle_start:
  assumes "lifecycle c" and "t_finalization_done c"
  shows "lifecycle (fst (start_run now run_id q sc raw c))"
proof -
  obtain c' out where s: "start_run now run_id q sc raw c = (c', out)" by fastforce
  then show ?thesis
  proof (cases rule: start_cases)
    case (rejected e ids)
    with assms(1) s show ?thesis by (auto simp: lifecycle_flags)
  next
    case (started snapshot m ids)
    with assms(2) s show ?thesis
      by (simp add: install_run_def set_baseline_def clear_accumulators_def new_result_def Let_def
          lifecycle_def running_def synced_def)
  qed
qed

lemma lifecycle_stop:
  "lifecycle c \<Longrightarrow> lifecycle (cancel_run_task c)"
  "lifecycle c \<Longrightarrow> lifecycle (snd (stop_begin c))"
  "lifecycle c \<Longrightarrow> lifecycle (snd (fail_begin reason c))"
  "lifecycle c \<Longrightarrow> lifecycle (run_raised e c)"
  "lifecycle c \<Longrightarrow> lifecycle (run_done c)"
  "lifecycle c \<Longrightarrow> lifecycle (finalization_wait_timeout c)"
proof -
  show c: "lifecycle c \<Longrightarrow> lifecycle (cancel_run_task c)" for c
    by (simp add: cancel_run_task_def lifecycle_flags)
  show "lifecycle c \<Longrightarrow> lifecycle (snd (stop_begin c))"
    by (auto simp: stop_begin_def c lifecycle_flags split: option.splits)
  show "lifecycle c \<Longrightarrow> lifecycle (snd (fail_begin reason c))"
    by (auto simp: fail_begin_def intro!: c lifecycle_idle lifecycle_flags(5) split: option.splits)
  show "lifecycle c \<Longrightarrow> lifecycle (run_raised e c)"
    by (auto simp: run_raised_def intro!: lifecycle_idle lifecycle_flags(5))
qed (simp_all add: run_done_def finalization_wait_timeout_def lifecycle_flags)

lemma lifecycle_finalize:
  assumes "lifecycle c"
  shows "lifecycle (finalize_pending_submissions now c)"
proof (cases "running c")
  case True
  with assms show ?thesis by (rule lifecycleI_running) (simp_all add: outline_simps)
next
  case False
  with assms have "t_pending_submissions c = []" by (simp add: lifecycle_def)
  with assms show ?thesis
    by (simp add: finalize_pending_submissions_def lifecycle_flags)
qed

lemma lifecycle_draining: "lifecycle c \<Longrightarrow> t_phase c = Ph_GENERATING \<Longrightarrow> lifecycle (begin_draining c)"
  by (cases "t_frozen_result c") (auto simp: begin_draining_def lifecycle_def running_def outline_simps frozen_ok_def)

end
