(* ===== verification/Traffic_Results.thy ===== *)
theory Traffic_Results
  imports Traffic_Lifecycle
begin

text \<open>
  What the invariants of the traffic controller give for its users: the live view equals the
  recount, a frozen result counts its own message records, late events change nothing, and every
  submission is accounted for when the run ends.
\<close>

subsection \<open>Reachable states\<close>

lemma lifecycle_handlers:
  assumes "lifecycle c"
  shows "lifecycle (fst (record_rf_transmission ev now tx p air c))" and "lifecycle (record_drop ev now tx p reason c)"
    and "lifecycle (record_failed_receptions now n k c)" and "lifecycle (record_duplicate_receptions now n k c)"
    and "lifecycle (fst (record_topology_change e l c))" and "lifecycle (set_event_loop_lag now x c)"
    and "lifecycle (fst (handle_from_radio ev now n msg c))"
proof -
  have run: "lifecycle c'" if "running c" "outline c' = outline c" "synced c \<Longrightarrow> synced c'" for c'
    using lifecycleI_running [OF assms] that by blast
  show "lifecycle (fst (record_rf_transmission ev now tx p air c))"
    by (cases "running c") (use assms run in \<open>simp_all add: outline_simps handlers_ignore\<close>)
  show "lifecycle (record_drop ev now tx p reason c)"
    by (cases "running c") (use assms run in \<open>simp_all add: outline_simps handlers_ignore\<close>)
  show "lifecycle (record_failed_receptions now n k c)"
    by (cases "running c") (use assms run in \<open>simp_all add: outline_simps handlers_ignore\<close>)
  show "lifecycle (record_duplicate_receptions now n k c)"
    by (cases "running c") (use assms run in \<open>simp_all add: outline_simps handlers_ignore\<close>)
  show "lifecycle (fst (record_topology_change e l c))"
    by (cases "running c") (use assms run in \<open>simp_all add: outline_simps handlers_ignore\<close>)
  show "lifecycle (set_event_loop_lag now x c)"
    by (cases "running c") (use assms run in \<open>simp_all add: outline_simps handlers_ignore\<close>)
  show "lifecycle (fst (handle_from_radio ev now n msg c))"
    by (cases "running c") (use assms run in \<open>simp_all add: outline_simps handlers_ignore\<close>)
qed

lemma lifecycle_task:
  "lifecycle c \<Longrightarrow> t_phase c = Ph_GENERATING \<Longrightarrow> run_turn ev g send now rt w c = Some (rt', c', w', out) \<Longrightarrow> lifecycle c'"
  "lifecycle c \<Longrightarrow> t_phase c = Ph_DRAINING \<Longrightarrow> lifecycle (drain_begin now c)"
  "lifecycle c \<Longrightarrow> t_phase c = Ph_DRAINING \<Longrightarrow> lifecycle (snd (drain_check now quiet deadline c))"
  "lifecycle c \<Longrightarrow> t_phase c = Ph_DRAINING \<Longrightarrow> lifecycle (drain_end now timed_out c)"
  using lifecycleI_running [of c] outline_turn [of ev g send now rt w c rt' c' w' out]
  by (simp_all add: running_def outline_simps)

lemmas lifecycle_intros = lifecycle_handlers lifecycle_task lifecycle_sample lifecycle_finish_begin
  lifecycle_finish_end lifecycle_start lifecycle_stop lifecycle_finalize lifecycle_draining

lemma ctl_step_lifecycle: "ctl_step ev g send allowed c c' \<Longrightarrow> lifecycle c \<Longrightarrow> lifecycle c'"
  by (induction rule: ctl_step.induct) (blast intro: lifecycle_intros)+

lemma ctl_reachable_lifecycle: "ctl_reachable ev g send allowed c \<Longrightarrow> lifecycle c"
proof (induction rule: ctl_reachable.induct)
  case (new sc hw broker build settle has_sampler now)
  show ?case by (simp add: new_controller_def lifecycle_def synced_def running_def)
qed (blast intro: ctl_step_lifecycle)

subsection \<open>The live view\<close>

lemma delivered_ids_count:
  assumes "accounting c" and "t_current c = Some r"
  shows "int (card (delivered_ids_of r)) = t_unique_deliveries c"
proof -
  let ?ms = "r_generated_messages r"
  have d: "deliveries_ok (Some (q_kind (r_request r))) ?ms (t_delivered_sequences c) (t_unique_deliveries c)
      (t_receiver_deliveries c) (t_latencies_ms c) (t_live_latencies_ms c)"
    using assms by (simp add: accounting_def kind_of_def)
  have ok: "receivers_ok (Some (q_kind (r_request r))) m" if "m \<in> set ?ms" for m
    using d that by (simp add: deliveries_ok_def list_all_iff)
  have "delivered_ids_of r = (\<lambda>m. (r_run_id r, int (g_sequence m))) ` set (filter delivered ?ms)"
  proof (cases "q_kind (r_request r)")
    case BROADCAST_TEXT
    have "(\<exists>v \<in> set (g_delivered_to m). v \<noteq> g_source_node m) = delivered m" if "m \<in> set ?ms" for m
      using ok [OF that] BROADCAST_TEXT by (cases "g_delivered_to m") (auto simp: receivers_ok_def delivered_def)
    then have "{m \<in> set ?ms. \<exists>v \<in> set (g_delivered_to m). v \<noteq> g_source_node m} = set (filter delivered ?ms)" by auto
    with BROADCAST_TEXT show ?thesis by (simp add: delivered_ids_of_def)
  next
    case DIRECT_TEXT
    have "(g_destination_node m \<in> set (g_delivered_to m)) = delivered m" if "m \<in> set ?ms" for m
      using ok [OF that] DIRECT_TEXT by (cases "g_delivered_to m") (auto simp: receivers_ok_def delivered_def)
    then have "{m \<in> set ?ms. g_destination_node m \<in> set (g_delivered_to m)} = set (filter delivered ?ms)" by auto
    with DIRECT_TEXT show ?thesis by (simp add: delivered_ids_of_def)
  qed
  then have "delivered_ids_of r = (\<lambda>n. (r_run_id r, int n)) ` (g_sequence ` set (filter delivered ?ms))"
    by (simp add: image_image)
  then have "card (delivered_ids_of r) = card (g_sequence ` set (filter delivered ?ms))"
    by (simp add: card_image inj_on_def)
  with d delivered_sequences_count [of ?ms] show ?thesis by (simp add: deliveries_ok_def)
qed

text \<open>
  C5. The live metrics are a recount: in every state that a run can reach, the running counters of the
  live view give exactly the metrics that a full recount of the message records and evidence lists gives
  when its latencies are the newest 2048 of all that were recorded. So every field but the three latency
  percentiles is that of the full recount always, and these are too until the window has overflowed.
\<close>

theorem live_metrics_are_a_recount:
  assumes "ctl_reachable ev g send allowed c"
  shows "live_metrics c =
      bind_result (final_metrics (c\<lparr>t_latencies_ms := lastn LIVE_LATENCY_SAMPLE_SIZE (t_latencies_ms c)\<rparr>))
        (\<lambda>s. Inr (summary_metrics s)) \<and>
    (case (live_metrics c, final_metrics c) of
       (Inr l, Inr f) \<Rightarrow> summary_metrics f = l\<lparr>m_median_latency_ms := m_median_latency_ms f,
         m_p95_latency_ms := m_p95_latency_ms f, m_p99_latency_ms := m_p99_latency_ms f\<rparr>
     | _ \<Rightarrow> True) \<and>
    (length (t_latencies_ms c) \<le> LIVE_LATENCY_SAMPLE_SIZE \<longrightarrow>
      live_metrics c = bind_result (final_metrics c) (\<lambda>s. Inr (summary_metrics s)))"
proof -
  let ?window = "lastn LIVE_LATENCY_SAMPLE_SIZE (t_latencies_ms c)"
  note a = ctl_reachable_accounting [OF assms]
  have live: "t_live_latencies_ms c = ?window" using a by (simp add: accounting_def deliveries_ok_def)
  have ids: "int (card (case t_current c of None \<Rightarrow> {} | Some r \<Rightarrow> delivered_ids_of r)) = t_unique_deliveries c"
    using a delivered_ids_count [OF a]
    by (auto simp: accounting_def deliveries_ok_def messages_def split: option.splits)
  have radio: "airtime_by_transmitter (t_rf_transmitters c) (t_airtimes_ms c) = Inr (t_per_node_airtime_ms c)"
    "t_rf_transmission_count c = int (length (t_rf_transmitters c))" "t_observed_airtime_ms c = sum_list (t_airtimes_ms c)"
    "t_per_node_transmit_counts c = counter_of (t_rf_transmitters c)" "t_drop_counts c = counter_of (t_drop_reasons c)"
    using a by (simp_all add: accounting_def radio_ok_def airtime_by_transmitter_def)
  have ack: "expected_acknowledgments (c\<lparr>t_latencies_ms := xs\<rparr>) = expected_acknowledgments c" for xs
    by (simp add: expected_acknowledgments_def split: option.split)
  note defs = live_metrics_def live_metrics_snapshot_def final_metrics_def calculate_metrics_def Let_def
    live ids radio ack or_else_def summary_metrics_def metrics_summary.truncate_def
  have recount: "live_metrics c =
      bind_result (final_metrics (c\<lparr>t_latencies_ms := ?window\<rparr>)) (\<lambda>s. Inr (summary_metrics s))"
    by (simp add: defs bind_result_def split: sum.splits)
  moreover have "case (live_metrics c, final_metrics c) of
       (Inr l, Inr f) \<Rightarrow> summary_metrics f = l\<lparr>m_median_latency_ms := m_median_latency_ms f,
         m_p95_latency_ms := m_p95_latency_ms f, m_p99_latency_ms := m_p99_latency_ms f\<rparr>
     | _ \<Rightarrow> True"
    by (auto simp: defs bind_result_eq_Inr split: sum.splits)
  moreover have "?window = t_latencies_ms c" if "length (t_latencies_ms c) \<le> LIVE_LATENCY_SAMPLE_SIZE"
    using that by (simp add: lastn_def)
  then have "c\<lparr>t_latencies_ms := ?window\<rparr> = c" if "length (t_latencies_ms c) \<le> LIVE_LATENCY_SAMPLE_SIZE"
    using that by simp
  ultimately show ?thesis by (metis (no_types, lifting))
qed

text \<open>A laboratory of three nodes whose gateways accept everything, for examples.\<close>

definition lab_env :: env where
  "lab_env = \<lparr>en_codec = null_codec, en_uspace = (\<lambda>_. False), en_udigit = (\<lambda>_. None), en_error_name = (\<lambda>_. None)\<rparr>"

definition accept_all :: "unit send" where "accept_all n m w = (Inr (), w)"

definition lab :: controller where
  "lab = new_controller relay_scenario [(''a'', 1), (''b'', 2), (''c'', 3)] (new_broker 8 8 ''s'')
     unavailable_metadata None True 0"

definition lab_started :: controller where
  "lab_started = fst (start_run 0 ''r1'' relay_request None No_Sample lab)"

abbreviation lab_reachable :: "(string \<Rightarrow> from_radio \<Rightarrow> controller \<Rightarrow> bool) \<Rightarrow> controller \<Rightarrow> bool" where
  "lab_reachable \<equiv> ctl_reachable lab_env zero_rng accept_all"

lemma lab_accepts: "isOk (check_start ''r1'' relay_request relay_scenario lab)"
  by code_simp

lemma lab_started_shape:
  obtains m where "lab_started = install_run ''r1'' relay_request relay_scenario No_Sample m
      (set_baseline relay_scenario No_Sample (clear_accumulators 0 lab))"
proof -
  let ?c2 = "set_baseline relay_scenario No_Sample (clear_accumulators 0 (lab\<lparr>t_ids := no_packet_ids\<rparr>))"
  have "t_live_latencies_ms ?c2 = []" by (simp add: set_baseline_def clear_accumulators_def Let_def)
  then obtain m where m: "live_metrics_snapshot ?c2 = Inr m" by (rule live_snapshot_empty)
  have same: "lab\<lparr>t_ids := no_packet_ids\<rparr> = lab" by (simp add: lab_def new_controller_def)
  have "t_scenario lab = relay_scenario" "retire_packet_ids 0 (t_ids lab) = (no_packet_ids, Inr ())"
    by (simp_all add: lab_def new_controller_def retire_packet_ids_def no_packet_ids_def)
  with lab_accepts m show thesis
    by (intro that [of m])
      (auto simp: lab_started_def start_run_def Let_def reset_accumulators_def isOk_iff same)
qed

lemma lab_flags: "t_finalization_done lab" "t_has_sampler lab"
  by (simp_all add: lab_def new_controller_def)

lemma lab_started_fields: "t_latencies_ms lab_started = []" "running lab_started" "t_frozen_result lab_started = None"
  "t_finalization_done lab_started" "t_task_active lab_started" "t_state lab_started = Run_RUNNING"
  "t_pending_submissions lab_started = []" "map_option r_run_id (t_current lab_started) = Some ''r1''"
  "messages lab_started = []" "t_has_sampler lab_started" and lab_started_phase: "t_phase lab_started = Ph_GENERATING"
proof -
  obtain m where eq: "lab_started = install_run ''r1'' relay_request relay_scenario No_Sample m
      (set_baseline relay_scenario No_Sample (clear_accumulators 0 lab))"
    by (rule lab_started_shape)
  show "t_latencies_ms lab_started = []" "running lab_started" "t_frozen_result lab_started = None"
    "t_finalization_done lab_started" "t_task_active lab_started" "t_state lab_started = Run_RUNNING"
    "t_pending_submissions lab_started = []" "map_option r_run_id (t_current lab_started) = Some ''r1''"
    "messages lab_started = []" "t_has_sampler lab_started" "t_phase lab_started = Ph_GENERATING"
    by (simp_all add: eq install_run_def set_baseline_def clear_accumulators_def running_def new_result_def messages_def
        Let_def lab_flags)
qed

lemma lab_started_reachable: "lab_reachable allowed lab_started"
proof -
  have "lab_reachable allowed lab" unfolding lab_def by (rule ctl_reachable.new)
  moreover have "t_finalization_done lab" by (simp add: lab_def new_controller_def)
  ultimately show ?thesis unfolding lab_started_def by (intro ctl_reachable.step [OF _ ctl_step.start])
qed

lemma live_metrics_are_a_recount_witness:
  "t_current lab_started \<noteq> None \<and>
   live_metrics lab_started = bind_result (final_metrics lab_started) (\<lambda>s. Inr (summary_metrics s))"
  using live_metrics_are_a_recount [OF lab_started_reachable [of "\<lambda>_ _ _. True"]] lab_started_fields(8)
  by (auto simp: lab_started_fields(1) LIVE_LATENCY_SAMPLE_SIZE_def)

subsection \<open>The frozen result\<close>

lemma calculated_fields:
  assumes "calculate_metrics a = Inr m"
  shows "m_generated m = generated a \<and> m_delivered m = or_else (delivered_count a) (int (card (delivered_ids a))) \<and>
    m_receiver_deliveries m = or_else (receiver_deliveries a) (m_delivered m)"
  using assms by (auto simp: calculate_metrics_def Let_def bind_result_eq_Inr)

lemma message_counts_ordered:
  assumes "list_all message_ok ms"
  shows "count_if g_transmitted ms \<le> count_if g_submitted ms"
    and "count_if g_submitted ms + count_if (\<lambda>m. g_submission_error m \<noteq> None) ms \<le> int (length ms)"
  using assms by (induction ms) (auto simp: count_if_def message_ok_def)

text \<open>The totals of a frozen result are the counters, which are the counts of its records.\<close>

lemma frozen_totals:
  assumes "ctl_reachable ev g send allowed c" and "t_frozen_result c = Some f"
  shows "t_current c = Some f" and "r_finished f" and "final_metrics c = Inr (r_metrics f)"
    and "counters_ok (r_generated_messages f) (r_requested f) (r_submitted f) (r_submission_failed f) (r_transmitted f)
      (t_acknowledgments c)"
    and "r_delivered f = count_if delivered (r_generated_messages f)" and "r_requested f = t_generated_count c"
    and "r_delivered f = t_unique_deliveries c"
    and "list_all (receivers_ok (Some (q_kind (r_request f)))) (r_generated_messages f)"
    and "t_receiver_deliveries c = sum_list (map (\<lambda>m. int (length (g_delivered_to m))) (r_generated_messages f))"
proof -
  note a = ctl_reachable_accounting [OF assms(1)]
  have f: "frozen_ok c f" "synced c" using ctl_reachable_lifecycle [OF assms(1)] assms(2) by (simp_all add: lifecycle_def)
  then show cur: "t_current c = Some f" and "r_finished f" and "final_metrics c = Inr (r_metrics f)" by (simp_all add: frozen_ok_def)
  show "counters_ok (r_generated_messages f) (r_requested f) (r_submitted f) (r_submission_failed f) (r_transmitted f)
      (t_acknowledgments c)" "r_delivered f = count_if delivered (r_generated_messages f)"
    "r_requested f = t_generated_count c" "r_delivered f = t_unique_deliveries c"
    "list_all (receivers_ok (Some (q_kind (r_request f)))) (r_generated_messages f)"
    "t_receiver_deliveries c = sum_list (map (\<lambda>m. int (length (g_delivered_to m))) (r_generated_messages f))"
    using a f cur by (simp_all add: accounting_def deliveries_ok_def frozen_ok_def synced_def messages_def kind_of_def)
qed

text \<open>
  C2. A finalized result tells the truth about its own records: its totals are the counts of the
  generated messages it contains, every total is bounded by the one before it, and its metrics
  have been computed from the same records.
\<close>

theorem finalized_result_is_exact:
  assumes "ctl_reachable ev g send allowed c" and "t_frozen_result c = Some f"
  shows "r_requested f = int (length (r_generated_messages f)) \<and>
    r_submitted f = count_if g_submitted (r_generated_messages f) \<and>
    r_submission_failed f = count_if (\<lambda>m. g_submission_error m \<noteq> None) (r_generated_messages f) \<and>
    r_transmitted f = count_if g_transmitted (r_generated_messages f) \<and>
    r_delivered f = count_if delivered (r_generated_messages f) \<and>
    r_transmitted f \<le> r_submitted f \<and> r_submitted f + r_submission_failed f \<le> r_requested f \<and>
    m_generated (r_metrics f) = r_requested f \<and> m_delivered (r_metrics f) = r_delivered f \<and>
    m_receiver_deliveries (r_metrics f) =
      sum_list (map (\<lambda>m. int (length (g_delivered_to m))) (r_generated_messages f)) \<and> r_finished f"
proof -
  note tot = frozen_totals [OF assms]
  have "m_generated (r_metrics f) = t_generated_count c" "m_delivered (r_metrics f) = t_unique_deliveries c"
    "m_receiver_deliveries (r_metrics f) = t_receiver_deliveries c"
    using tot(3) delivered_ids_count [OF ctl_reachable_accounting [OF assms(1)] tot(1)] tot(1)
    by (auto simp: final_metrics_def or_else_def dest!: calculated_fields)
  moreover have "list_all message_ok (r_generated_messages f)" using tot(4) by (simp add: counters_ok_def)
  ultimately show ?thesis using message_counts_ordered tot by (simp add: counters_ok_def)
qed

text \<open>The first message of the laboratory's run is on its way when the run fails.\<close>

definition lab_task :: "unit run_task" where
  "lab_task = begin_run zero_rng (\<lambda>_. 0) relay_request"

lemma lab_task_next: "next_due (rt_plan lab_task) (rt_next_tick lab_task) = ((0, ''a''), 0)"
  "pl_flows (rt_plan lab_task) ! 0 = default_flow relay_request" "rt_request lab_task = relay_request"
  by code_simp+

lemma lab_payload: "traffic_payload ''r1'' (Suc 0) 64 = Inr (ascii_bytes (codes ''ML1:r1:1:'') @ replicate 55 120)"
  by code_simp

lemma lab_packet_id: "allocate_packet_id zero_rng ''a'' 0 no_packet_ids () = Some (1,
    \<lparr>ids_by_source = [(''a'', [(1, 0)])], ids_quarantine = [(''a'', [])], ids_quarantined = [(''a'', {})]\<rparr>, ())"
  by (simp add: allocate_packet_id_def no_packet_ids_def purge_packet_id_quarantine_def dict_get_default_def Let_def
      draw_packet_id.simps zero_rng_def)
lemma lab_turn:
  obtains rt w c out where "run_turn lab_env zero_rng accept_all 0 lab_task () lab_started = Some (rt, c, w, out)"
    and "length (messages c) = 1" and "t_latencies_ms c = []"
proof -
  obtain m where sh: "lab_started = install_run ''r1'' relay_request relay_scenario No_Sample m
      (set_baseline relay_scenario No_Sample (clear_accumulators 0 lab))" by (rule lab_started_shape)
  obtain r where r: "t_current lab_started = Some r" "r_run_id r = ''r1''" "r_request r = relay_request" "r_generated_messages r = []"
    by (simp add: sh install_run_def new_result_def)
  have f: "t_ids lab_started = no_packet_ids" "t_sequence lab_started = 0" "t_hardware_ids lab_started = [(''a'', 1), (''b'', 2), (''c'', 3)]"
    "t_run_scenario lab_started = relay_scenario"
    by (simp_all add: sh install_run_def set_baseline_def clear_accumulators_def Let_def lab_def new_controller_def)
  define q where "q = relay_request"
  have q: "q_kind q = DIRECT_TEXT" "q_payload_bytes q = 64" "f_destination_strategy (default_flow q) = FIXED"
    "f_fixed_destination (default_flow q) = Some ''c''"
    by (simp_all add: q_def relay_request_def default_flow_def)
  let ?c0 = "\<lambda>ids. lab_started\<lparr>t_sequence := Suc 0, t_ids := ids\<rparr>"
  have p: "\<exists>p. traffic_packet (?c0 ids) r ''a'' ''c'' 1 payload = Inr p" for ids payload
    by (simp add: traffic_packet_def f)
  have measured: "messages (fst (measure_packet ev now p c)) = messages c" for ev now p c
    by (simp add: measure_packet_def Let_def ctl_simps note_activity_def messages_def split: sum.split)
  have no_latencies: "t_latencies_ms (fst (measure_packet ev now p (register_message now m origin c))) = t_latencies_ms c" for ev now p m origin c
    by (simp add: measure_packet_def register_message_def map_current_def Let_def ctl_simps note_activity_def split: sum.split option.split)
  define turn where "turn = run_turn lab_env zero_rng accept_all 0 lab_task () lab_started"
  have "\<exists>rt c w out. turn = Some (rt, c, w, out) \<and> length (messages c) = 1 \<and> t_latencies_ms c = []"
  proof -
    obtain ids where ids: "allocate_packet_id zero_rng ''a'' 0 no_packet_ids () = Some (1, ids, ())"
      using lab_packet_id by blast
    obtain payload where pay: "traffic_payload ''r1'' (Suc 0) 64 = Inr payload" using lab_payload by blast
    obtain p where p: "traffic_packet (?c0 ids) r ''a'' ''c'' 1 payload = Inr p" using p by blast
    define m where "m = new_message 1 (f_name (default_flow relay_request)) ''a'' ''c'' 1 0"
    obtain c4 out where c4: "measure_packet lab_env 0 p (register_message 0 m (p_from p) (?c0 ids)) = (c4, out)" by fastforce
    have "messages c4 = [m]"
      using measured [of lab_env 0 p "register_message 0 m (p_from p) (?c0 ids)"] register_messages [where c = "?c0 ids" and r = r and m = m and now = 0 and origin = "p_from p"] r c4
      by simp
    moreover have "t_latencies_ms c4 = []"
      using no_latencies [where ev = lab_env and now = 0 and p = p and m = m and origin = "p_from p" and c = "?c0 ids"] c4
      by (simp add: lab_started_fields)
    moreover have "submit lab_env zero_rng accept_all 0 ''a'' ''c'' (f_name (default_flow relay_request)) () () lab_started
        = Some (c4, (), (), out)"
      using c4 by (cases out) (simp_all add: submit_def r f q [unfolded q_def] pay ids p m_def hand_over_def accept_all_def Let_def)
    ultimately show ?thesis
      using q lab_task_next
      by (cases out) (simp_all add: turn_def run_turn_def Let_def q_def lab_task_next choose_destination_def)
  qed
  then show thesis using that by (auto simp: turn_def)
qed

definition lab_busy :: controller where
  "lab_busy = (case run_turn lab_env zero_rng accept_all 0 lab_task () lab_started of
     Some (rt, c, w, out) \<Rightarrow> c | None \<Rightarrow> lab_started)"

lemma lab_task_of: "t_current lab_started = Some r \<Longrightarrow> task_of (r_request r) lab_task"
proof -
  assume r: "t_current lab_started = Some r"
  obtain m where sh: "lab_started = install_run ''r1'' relay_request relay_scenario No_Sample m
      (set_baseline relay_scenario No_Sample (clear_accumulators 0 lab))" by (rule lab_started_shape)
  from r have "r_request r = relay_request" by (auto simp: sh install_run_def new_result_def)
  then show ?thesis using task_begins [OF relay_request_valid] by (simp add: lab_task_def)
qed

lemma lab_busy_facts: "lab_reachable allowed lab_busy" "length (messages lab_busy) = 1" "t_latencies_ms lab_busy = []"
  "outline lab_busy = outline lab_started"
proof -
  obtain rt w c out where turn: "run_turn lab_env zero_rng accept_all 0 lab_task () lab_started = Some (rt, c, w, out)"
    and c: "length (messages c) = 1" "t_latencies_ms c = []" by (rule lab_turn)
  then have "lab_busy = c" by (simp add: lab_busy_def)
  with c turn outline_turn(1) [OF turn] show "length (messages lab_busy) = 1" "t_latencies_ms lab_busy = []"
    "outline lab_busy = outline lab_started" "lab_reachable allowed lab_busy"
    using ctl_reachable.step [OF lab_started_reachable [of allowed] ctl_step.turn [OF lab_started_fields(5) lab_started_phase lab_task_of turn]]
    by simp_all
qed

definition lab_failed :: controller where
  "lab_failed = fst (finish_end 2 Run_FAILED None
     (case finish_begin 1 (snd (fail_begin ''node a exited'' lab_busy)) of Some c \<Rightarrow> c | None \<Rightarrow> lab_started))"

lemma latencies_settled:
  "t_latencies_ms (resolve_submission now s i err c) = t_latencies_ms c"
  "t_latencies_ms (finalize_pending_submissions now c) = t_latencies_ms c"
  "length (messages (finalize_pending_submissions now c)) = length (messages c)"
  "map_option r_failure (t_current (finalize_pending_submissions now c)) = map_option r_failure (t_current c)"
proof -
  show one: "t_latencies_ms (resolve_submission now s i err c) = t_latencies_ms c" for now s i err c
    by (simp add: resolve_submission_def publish_submission_def count_submitted_def count_submission_failed_def Let_def
        ctl_simps note_activity_def map_message_def map_current_def split: option.split)
  have two: "map_option r_failure (t_current (resolve_submission now s i err c)) = map_option r_failure (t_current c)" for now s i err c
    by (simp add: resolve_submission_def publish_submission_def count_submitted_def count_submission_failed_def Let_def
        ctl_simps note_activity_def map_message_def map_current_def option.map_comp comp_def split: option.split)
  have "t_latencies_ms (resolve_all now ps c) = t_latencies_ms c \<and> length (messages (resolve_all now ps c)) = length (messages c) \<and>
      map_option r_failure (t_current (resolve_all now ps c)) = map_option r_failure (t_current c)" for ps
    by (induction now ps c rule: resolve_all.induct) (simp_all add: one two resolve_current)
  then show "t_latencies_ms (finalize_pending_submissions now c) = t_latencies_ms c"
    "length (messages (finalize_pending_submissions now c)) = length (messages c)"
    "map_option r_failure (t_current (finalize_pending_submissions now c)) = map_option r_failure (t_current c)"
    by (simp_all add: finalize_pending_submissions_def messages_def)
qed

lemma lab_failed_steps:
  obtains r where "t_frozen_result lab_failed = Some r" and "lab_reachable allowed lab_failed"
    and "length (r_generated_messages r) = 1"
    and "t_state lab_failed = Run_FAILED \<and> t_finalization_done lab_failed \<and> \<not> t_task_active lab_failed"
    and "r_failure r = Some ''node a exited''"
proof -
  define c1 where "c1 = snd (fail_begin ''node a exited'' lab_busy)"
  have c1: "lab_reachable allowed c1" unfolding c1_def by (intro ctl_reachable.step [OF lab_busy_facts(1)] ctl_step.fail)
  have busy: "t_current lab_busy \<noteq> None" "t_frozen_result lab_busy = None" "t_finalization_done lab_busy" "t_state lab_busy = Run_RUNNING"
    using lab_busy_facts(4) lab_started_fields by (auto simp: outline_def)
  then have c1_fields: "t_current c1 \<noteq> None" "t_frozen_result c1 = None" "t_finalization_done c1" "t_latencies_ms c1 = []"
    "length (messages c1) = 1" "\<not> t_task_active c1" "map_option r_failure (t_current c1) = Some (Some ''node a exited'')"
    using lab_busy_facts(2,3)
    by (auto simp: c1_def fail_begin_def active_finalization_def cancel_run_task_def map_current_def messages_def)
  define c2 where "c2 = finalize_pending_submissions 1 (c1\<lparr>t_finalization_done := False, t_phase := Ph_FINALIZING\<rparr>)"
  have fb: "finish_begin 1 c1 = Some c2" using c1_fields by (auto simp: finish_begin_def c2_def)
  then have c2: "lab_reachable allowed c2" by (intro ctl_reachable.step [OF c1] ctl_step.finish_begin)
  have out: "outline c2 = outline (c1\<lparr>t_finalization_done := False, t_phase := Ph_FINALIZING\<rparr>)"
    by (simp add: c2_def outline_simps)
  then have phase: "t_phase c2 = Ph_FINALIZING" "\<not> t_task_active c2" using c1_fields(6) by (simp_all add: outline_def)
  from out c1_fields obtain r2 where r2: "t_current c2 = Some r2" by (auto simp: outline_def)
  have lf: "lab_failed = fst (finish_end 2 Run_FAILED None c2)" by (simp add: lab_failed_def c1_def [symmetric] fb)
  have "t_latencies_ms c2 = []" using c1_fields by (simp add: c2_def latencies_settled)
  with ctl_reachable_accounting [OF c2] obtain m where "final_metrics c2 = Inr m"
    by (auto simp: final_metrics_def calculate_metrics_def Let_def percentile_ordered_def accounting_def radio_ok_def
        airtime_by_transmitter_def)
  with r2 phase(2) obtain f where "t_frozen_result lab_failed = Some f" "r_generated_messages f = r_generated_messages r2"
    "t_state lab_failed = Run_FAILED \<and> t_finalization_done lab_failed \<and> \<not> t_task_active lab_failed" "r_failure f = r_failure r2"
    by (simp add: ctl_simps lf finish_end_def finish_metrics_def finish_freeze_def terminal_result_def Let_def)
  moreover have "map_option r_failure (t_current c2) = Some (Some ''node a exited'')"
    using c1_fields(7) by (simp add: c2_def latencies_settled)
  moreover have "length (messages c2) = 1" using c1_fields(5) by (simp add: c2_def latencies_settled, simp add: messages_def)
  moreover have "lab_reachable allowed lab_failed"
    unfolding lf by (intro ctl_reachable.step [OF c2] ctl_step.finish_end phase(1))
  ultimately show thesis using that r2 by (simp add: messages_def)
qed

lemma finalized_result_is_exact_witness:
  "\<exists>f. t_frozen_result lab_failed = Some f \<and> r_requested f = 1 \<and> r_finished f"
proof -
  obtain f where f: "t_frozen_result lab_failed = Some f" and r: "lab_reachable (\<lambda>_ _ _. True) lab_failed"
    and n: "length (r_generated_messages f) = 1" by (rule lab_failed_steps)
  from finalized_result_is_exact [OF r f] f n show ?thesis by simp
qed

end
