(* ===== verification/Traffic_Pending.thy ===== *)
theory Traffic_Pending
  imports Traffic_Results
begin

text \<open>
  No submission gets lost: a message that the firmware has neither accepted nor refused is always
  in the dictionary of pending submissions, so the finalization of a run settles every message.
  The handlers that do not touch submissions keep the \<open>sketch\<close> of a state; the others are
  treated one by one. The packet identifiers of a run are distinct per source because an
  identifier in use is never drawn again.
\<close>

named_theorems sketch_simps \<open>operations that leave the pending submissions alone\<close>

definition message_key :: "generated_message \<Rightarrow> string \<times> int" where
  "message_key m = (g_source_node m, g_packet_id m)"

definition unresolved :: "generated_message \<Rightarrow> bool" where
  "unresolved m \<longleftrightarrow> \<not> g_submitted m \<and> g_submission_error m = None"

definition profile :: "generated_message \<Rightarrow> (string \<times> int) \<times> bool" where
  "profile m = (message_key m, unresolved m)"

definition sketch :: "controller \<Rightarrow> ((string \<times> int) \<times> bool) list \<times> (string \<times> int, nat) dict \<times> packet_ids" where
  "sketch c = (map profile (messages c), t_pending_submissions c, t_ids c)"

definition pending_inv :: "((string \<times> int) \<times> bool) list \<Rightarrow> (string \<times> int, nat) dict \<Rightarrow> packet_ids \<Rightarrow> bool" where
  "pending_inv ps pd ids \<longleftrightarrow>
     (\<forall>i < length ps. snd (ps ! i) \<longrightarrow> dict_get pd (fst (ps ! i)) = Some i) \<and> distinct (map fst ps) \<and>
     (\<forall>((s, pid), u) \<in> set ps. pid \<in> set (dict_keys (used_of ids s)))"

definition pending_ok :: "controller \<Rightarrow> bool" where
  "pending_ok c \<longleftrightarrow> (case sketch c of (ps, pd, ids) \<Rightarrow> pending_inv ps pd ids)"

subsection \<open>Operations outside the submission protocol\<close>

lemma sketch_fields [sketch_simps]:
  "sketch (c\<lparr>t_broker := b\<rparr>) = sketch c"
  "sketch (c\<lparr>t_sequence := n\<rparr>) = sketch c"
  "sketch (c\<lparr>t_last_activity := x\<rparr>) = sketch c"
  "sketch (c\<lparr>t_activity_changed := f\<rparr>) = sketch c"
  "sketch (c\<lparr>t_relay_transmissions := k\<rparr>) = sketch c"
  "sketch (c\<lparr>t_duplicates := k\<rparr>) = sketch c"
  "sketch (c\<lparr>t_failed_receptions := k\<rparr>) = sketch c"
  "sketch (c\<lparr>t_latest_failed_receptions := d\<rparr>) = sketch c"
  "sketch (c\<lparr>t_latest_duplicate_receptions := d\<rparr>) = sketch c"
  "sketch (c\<lparr>t_event_loop_lag_ms := l\<rparr>) = sketch c"
  "sketch (c\<lparr>t_routing_terminal_sequences := s\<rparr>) = sketch c"
  "sketch (c\<lparr>t_messages_by_packet := mp\<rparr>) = sketch c"
  "sketch (c\<lparr>t_messages_by_key := mk\<rparr>) = sketch c"
  "sketch (c\<lparr>t_state := st\<rparr>) = sketch c"
  "sketch (c\<lparr>t_phase := ph\<rparr>) = sketch c"
  "sketch (c\<lparr>t_task_active := a\<rparr>) = sketch c"
  "sketch (c\<lparr>t_finalization_done := f\<rparr>) = sketch c"
  "sketch (c\<lparr>t_finalization_wait_timed_out := f\<rparr>) = sketch c"
  "sketch (c\<lparr>t_drain_deadline := dl\<rparr>) = sketch c"
  "sketch (c\<lparr>t_metrics := m\<rparr>) = sketch c"
  "sketch (c\<lparr>t_maximum_packet_airtime_ms := k\<rparr>) = sketch c"
  "sketch (c\<lparr>t_maximum_retransmission_delay_ms := k\<rparr>) = sketch c"
  "sketch (c\<lparr>t_submitted_count := k\<rparr>) = sketch c"
  "sketch (c\<lparr>t_submission_failed_count := k\<rparr>) = sketch c"
  "sketch (c\<lparr>t_transmitted_count := k\<rparr>) = sketch c"
  "sketch (c\<lparr>t_acknowledgments := k\<rparr>) = sketch c"
  "sketch (c\<lparr>t_receiver_deliveries := k\<rparr>) = sketch c"
  "sketch (c\<lparr>t_unique_deliveries := k\<rparr>) = sketch c"
  "sketch (c\<lparr>t_delivered_sequences := s\<rparr>) = sketch c"
  "sketch (c\<lparr>t_latencies_ms := xs\<rparr>) = sketch c"
  "sketch (c\<lparr>t_live_latencies_ms := xs\<rparr>) = sketch c"
  "sketch (c\<lparr>t_rf_transmitters := ts\<rparr>) = sketch c"
  "sketch (c\<lparr>t_airtimes_ms := as\<rparr>) = sketch c"
  "sketch (c\<lparr>t_rf_transmission_count := k\<rparr>) = sketch c"
  "sketch (c\<lparr>t_observed_airtime_ms := k\<rparr>) = sketch c"
  "sketch (c\<lparr>t_per_node_transmit_counts := d\<rparr>) = sketch c"
  "sketch (c\<lparr>t_per_node_airtime_ms := d\<rparr>) = sketch c"
  "sketch (c\<lparr>t_drop_reasons := rs\<rparr>) = sketch c"
  "sketch (c\<lparr>t_drop_counts := d\<rparr>) = sketch c"
  by (simp_all add: sketch_def messages_def)

lemma sketch_map_current:
  assumes "\<And>r. r_generated_messages (f r) = r_generated_messages r"
  shows "sketch (map_current f c) = sketch c"
  using assms by (cases "t_current c") (simp_all add: map_current_def sketch_def messages_def)

lemma sketch_map_message:
  assumes "\<And>m. profile (f m) = profile m"
  shows "sketch (map_message i f c) = sketch c"
proof (cases "t_current c")
  case (Some r)
  have "map profile (ms[i := f (ms ! i)]) = map profile ms" for ms
    unfolding map_update assms by (metis list_update_id map_update)
  with Some show ?thesis by (simp add: sketch_def messages_def map_message_def map_current_def)
qed (simp add: map_message_def map_current_def sketch_def messages_def)

lemma profile_fields [simp]:
  "profile (m\<lparr>g_transmitted := b\<rparr>) = profile m" "profile (m\<lparr>g_delivered_to := ns\<rparr>) = profile m"
  "profile (m\<lparr>g_acknowledged := b\<rparr>) = profile m" "profile (m\<lparr>g_latency_ms := x\<rparr>) = profile m"
  by (simp_all add: profile_def message_key_def unresolved_def)

lemma sketch_small [sketch_simps]:
  "sketch (note_activity now c) = sketch c"
  "sketch (publish_metric_update_as res now v c) = sketch c"
  "sketch (publish_event e c) = sketch c"
  "sketch (count_transmission tx air i c) = sketch c"
  "sketch (add_drop reason c) = sketch c"
  "sketch (publish_submission now s i res detail c) = sketch c"
  "sketch (snd (count_delivery now n i c)) = sketch c"
  "sketch (count_acknowledgment now i c) = sketch c"
  "sketch (publish_routing now ty n p r sq res c) = sketch c"
  by (simp_all add: note_activity_def count_transmission_def add_drop_def publish_submission_def count_delivery_def
      count_acknowledgment_def publish_routing_def Let_def ctl_simps sketch_fields sketch_map_message)

lemma sketch_identity: "message_for_packet_identity pb tr p c = (found, c') \<Longrightarrow> sketch c' = sketch c"
  by (auto simp: message_for_packet_identity_def sketch_simps split: option.splits)

lemma sketch_correlated: "correlated_delivery_message ev p c = (found, c') \<Longrightarrow> sketch c' = sketch c"
  by (auto simp: correlated_delivery_message_def dest: sketch_identity split: option.splits prod.splits if_splits)

lemma sketch_reports [sketch_simps]:
  "sketch (fst (record_rf_transmission ev now tx p air c)) = sketch c"
  "sketch (record_drop ev now tx p reason c) = sketch c"
  "sketch (record_failed_receptions now n k c) = sketch c"
  "sketch (record_duplicate_receptions now n k c) = sketch c"
  "sketch (fst (record_topology_change e l c)) = sketch c"
  "sketch (set_event_loop_lag now x c) = sketch c"
  by (auto simp: record_rf_transmission_def record_drop_def record_failed_receptions_def
      record_duplicate_receptions_def record_topology_change_def set_event_loop_lag_def Let_def
      sketch_simps sketch_identity sketch_map_current split: option.splits prod.splits sum.splits)

lemma sketch_text [sketch_simps]: "sketch (handle_text ev now n p r c) = sketch c"
proof -
  obtain found c1 where f: "correlated_delivery_message ev p c = (found, c1)" by fastforce
  have "sketch c2 = sketch c1" if "count_delivery now n i c1 = (x, c2)" for i x c2
    using sketch_small(7) [where now = now and n = n and i = i and c = c1] by (simp add: that)
  with f sketch_correlated [OF f] show ?thesis
    by (auto simp: handle_text_def Let_def sketch_simps split: option.splits prod.splits)
qed

lemma sketch_routing_parts [sketch_simps]:
  "sketch (fst (handle_routing_error now n p i e r c)) = sketch c"
  "sketch (fst (handle_acknowledgment now n p origin i r c)) = sketch c"
  by (simp_all add: handle_routing_error_def handle_acknowledgment_def Let_def sketch_simps split: sum.splits option.splits)

lemma sketch_control [sketch_simps]:
  "sketch (drain_begin now c) = sketch c" "sketch (snd (drain_check now quiet deadline c)) = sketch c"
  "sketch (begin_draining c) = sketch c" "sketch (cancel_run_task c) = sketch c"
  "sketch (snd (stop_begin c)) = sketch c" "sketch (snd (fail_begin reason c)) = sketch c"
  "sketch (run_raised e c) = sketch c" "sketch (run_done c) = sketch c"
  "sketch (finalization_wait_timeout c) = sketch c" "sketch (fst (measure_packet ev now p c)) = sketch c"
  by (simp_all add: drain_begin_def drain_check_def begin_draining_def cancel_run_task_def stop_begin_def
      fail_begin_def run_raised_def run_done_def finalization_wait_timeout_def measure_packet_def Let_def
      sketch_simps sketch_map_current split: option.splits sum.splits)

lemma sketch_samples [sketch_simps]:
  "sketch (snd (sample_failed now ts missing c)) = sketch c" "sketch (sample_duplicates now ts c) = sketch c"
  "sketch (sample_final_failed_receptions now sampled c) = sketch c"
proof -
  show a: "sketch (snd (sample_failed now ts missing c)) = sketch c" for ts missing c
    by (induction now ts missing c rule: sample_failed.induct) (simp_all add: sketch_simps)
  show b: "sketch (sample_duplicates now ts c) = sketch c" for ts c
    by (induction now ts c rule: sample_duplicates.induct) (simp_all add: sketch_simps)
  show "sketch (sample_final_failed_receptions now sampled c) = sketch c"
    by (simp add: sample_final_failed_receptions_def Let_def case_prod_unfold a b sketch_map_current split: option.splits)
qed

subsection \<open>Settling a submission\<close>

text \<open>Everything is in order but possibly for the message \<open>i\<close>, which is about to be settled.\<close>

definition pending_except :: "nat \<Rightarrow> controller \<Rightarrow> bool" where
  "pending_except i c \<longleftrightarrow>
     (\<forall>j < length (messages c). j \<noteq> i \<longrightarrow> unresolved (messages c ! j) \<longrightarrow>
        dict_get (t_pending_submissions c) (message_key (messages c ! j)) = Some j) \<and>
     distinct (map message_key (messages c)) \<and>
     (\<forall>m \<in> set (messages c). g_packet_id m \<in> set (dict_keys (used_of (t_ids c) (g_source_node m))))"

lemma pending_ok_iff:
  "pending_ok c \<longleftrightarrow>
     (\<forall>i < length (messages c). unresolved (messages c ! i) \<longrightarrow>
        dict_get (t_pending_submissions c) (message_key (messages c ! i)) = Some i) \<and>
     distinct (map message_key (messages c)) \<and>
     (\<forall>m \<in> set (messages c). g_packet_id m \<in> set (dict_keys (used_of (t_ids c) (g_source_node m))))"
proof -
  have "map fst (map profile (messages c)) = map message_key (messages c)" by (simp add: profile_def)
  then show ?thesis
    by (simp add: pending_ok_def pending_inv_def sketch_def profile_def message_key_def case_prod_unfold del: map_map)
qed

lemma pending_except_iff:
  assumes "i < length (messages c)"
  shows "pending_ok c \<longleftrightarrow> pending_except i c \<and>
    (unresolved (messages c ! i) \<longrightarrow> dict_get (t_pending_submissions c) (message_key (messages c ! i)) = Some i)"
  using assms unfolding pending_ok_iff pending_except_def by blast

lemma pending_ok_sketch: "sketch c' = sketch c \<Longrightarrow> pending_ok c' = pending_ok c"
  by (simp add: pending_ok_def)

lemma pending_except_pop:
  assumes "pending_ok c" and "dict_get (t_pending_submissions c) k = Some i \<or> i < length (messages c) \<and> k = message_key (messages c ! i)"
  shows "pending_except i (c\<lparr>t_pending_submissions := dict_pop k (t_pending_submissions c)\<rparr>)"
proof -
  have "message_key (messages c ! j) \<noteq> k" if "j < length (messages c)" "j \<noteq> i" "unresolved (messages c ! j)" for j
  proof (cases "dict_get (t_pending_submissions c) k = Some i")
    case True
    with assms(1) that show ?thesis by (auto simp: pending_ok_iff)
  next
    case False
    with assms(2) have "i < length (messages c)" "k = message_key (messages c ! i)" by simp_all
    with assms(1) that show ?thesis by (auto simp: pending_ok_iff distinct_conv_nth)
  qed
  moreover have "messages (c\<lparr>t_pending_submissions := pd\<rparr>) = messages c" for pd by (simp add: messages_def)
  ultimately show ?thesis using assms(1) by (simp add: pending_except_def pending_ok_iff dict_simps)
qed

lemma map_message_messages:
  assumes "i < length (messages c)"
  shows "messages (map_message i f c) = (messages c)[i := f (messages c ! i)]"
    and "t_pending_submissions (map_message i f c) = t_pending_submissions c" and "t_ids (map_message i f c) = t_ids c"
  using messages_some [OF assms] by (auto simp: map_message_def map_current_def messages_def)

text \<open>A message that is settled by any of the primitives.\<close>

lemma pending_settled:
  assumes "pending_except i c" and "i < length (messages c)" and "message_key m = message_key (messages c ! i)"
    and "\<not> unresolved m" and "messages c' = (messages c)[i := m]"
    and "t_pending_submissions c' = t_pending_submissions c" and "t_ids c' = t_ids c"
  shows "pending_ok c'"
proof -
  have keys: "map message_key (messages c') = map message_key (messages c)"
    using assms(2,3,5) by (simp add: map_update list_update_same_conv)
  have used: "g_packet_id x \<in> set (dict_keys (used_of (t_ids c') (g_source_node x)))" if "x \<in> set (messages c')" for x
  proof -
    have "message_key x \<in> set (map message_key (messages c))" unfolding keys [symmetric] using that by simp
    then obtain y where y: "y \<in> set (messages c)" "message_key y = message_key x" by auto
    then have "g_source_node y = g_source_node x" "g_packet_id y = g_packet_id x" by (simp_all add: message_key_def)
    with y(1) assms(1) show ?thesis unfolding pending_except_def assms(7) by metis
  qed
  have "unresolved (messages c' ! j) \<longrightarrow> dict_get (t_pending_submissions c') (message_key (messages c' ! j)) = Some j"
    if "j < length (messages c')" for j
    using that assms(1,4) by (cases "j = i") (auto simp: assms(5,6) pending_except_def)
  moreover have "distinct (map message_key (messages c'))" using assms(1) by (simp add: keys pending_except_def)
  ultimately show ?thesis using used by (simp add: pending_ok_iff)
qed

lemma map_current_messages:
  assumes "\<And>r. r_generated_messages (f r) = r_generated_messages r"
  shows "messages (map_current f c) = messages c" and "t_pending_submissions (map_current f c) = t_pending_submissions c"
    and "t_ids (map_current f c) = t_ids c"
  using assms by (cases "t_current c") (simp_all add: map_current_def messages_def)

lemma messages_counts [simp]:
  "messages (c\<lparr>t_submitted_count := x\<rparr>) = messages c" "messages (c\<lparr>t_submission_failed_count := x\<rparr>) = messages c"
  "messages (c\<lparr>t_pending_submissions := pd\<rparr>) = messages c"
  by (simp_all add: messages_def)

lemma pending_count_submitted:
  assumes "pending_except i c" and "i < length (messages c)"
  shows "pending_ok (count_submitted i c)"
  by (rule pending_settled [where m = "(messages c ! i)\<lparr>g_submitted := True\<rparr>", OF assms])
    (use assms(2) in \<open>simp_all add: count_submitted_def map_current_messages map_message_messages message_key_def unresolved_def\<close>)

lemma pending_count_failed:
  assumes "pending_except i c" and "i < length (messages c)"
  shows "pending_ok (count_submission_failed i err c)"
  by (rule pending_settled [where m = "(messages c ! i)\<lparr>g_submission_error := Some err\<rparr>", OF assms])
    (use assms(2) in \<open>simp_all add: count_submission_failed_def map_current_messages map_message_messages message_key_def unresolved_def\<close>)

lemma pending_resolve:
  assumes "pending_except i c" and "i < length (messages c)"
  shows "pending_ok (resolve_submission now s i err c)"
proof (cases "t_current c = None \<or> g_submitted (messages c ! i) \<or> g_submission_error (messages c ! i) \<noteq> None")
  case True
  with messages_some [OF assms(2)] have "\<not> unresolved (messages c ! i)" by (auto simp: unresolved_def)
  with True assms pending_except_iff [OF assms(2)] show ?thesis by (simp add: resolve_submission_def)
next
  case False
  with assms show ?thesis
    by (auto simp: resolve_submission_def pending_ok_sketch [OF sketch_small(6)] pending_count_submitted
        pending_count_failed split: option.splits)
qed

subsection \<open>The submission protocol\<close>

text \<open>The environment: a rate-limit error reaches the node whose own message it refuses, since the
  firmware's client interface reports it before the packet is sent.\<close>

definition rate_limit_is_local :: "env \<Rightarrow> string \<Rightarrow> from_radio \<Rightarrow> controller \<Rightarrow> bool" where
  "rate_limit_is_local ev n msg c =
     (case msg of
        FR_packet p \<Rightarrow>
          (case decoded_data p of
             Some d \<Rightarrow>
               (case dict_get (t_hardware_ids c) n of
                  Some origin \<Rightarrow>
                    (case dict_get (t_messages_by_packet c) (origin, d_request_id d) of
                       Some i \<Rightarrow> parse_routing (en_codec ev) (d_payload d) = Some RATE_LIMIT_EXCEEDED \<longrightarrow>
                         g_source_node (messages c ! i) = n
                     | None \<Rightarrow> True)
                | None \<Rightarrow> True)
           | None \<Rightarrow> True)
      | _ \<Rightarrow> True)"

lemma pending_queue_status:
  assumes "accounting c" and "pending_ok c"
  shows "pending_ok (record_queue_status ev now n st c)"
proof (cases "qs_mesh_packet_id st = 0 \<or> dict_get (t_pending_submissions c) (n, qs_mesh_packet_id st) = None")
  case True
  with assms show ?thesis by (auto simp: record_queue_status_def Let_def)
next
  case False
  then obtain i where i: "dict_get (t_pending_submissions c) (n, qs_mesh_packet_id st) = Some i" by auto
  have "i < length (messages c)" using accounting_refs(2) [OF assms(1) i] .
  with pending_except_pop [OF assms(2)] i have "pending_ok (resolve_submission now n i err
      (c\<lparr>t_pending_submissions := dict_pop (n, qs_mesh_packet_id st) (t_pending_submissions c)\<rparr>))" for err
    by (intro pending_resolve) simp_all
  with False i show ?thesis by (simp add: record_queue_status_def Let_def)
qed

lemma not_submitted_same: "\<not> g_submitted m \<Longrightarrow> m\<lparr>g_submitted := False\<rparr> = m"
  by (cases m) simp

lemma pending_rejection:
  assumes "accounting c" and "pending_ok c" and "i < length (messages c)" and "s = g_source_node (messages c ! i)"
  shows "pending_ok (record_pretransmission_rejection now s i reason c)"
proof (cases "g_submission_error (messages c ! i) \<noteq> None")
  case True
  with assms(2) show ?thesis by (simp add: record_pretransmission_rejection_def)
next
  case False
  let ?c1 = "c\<lparr>t_pending_submissions := dict_pop (s, g_packet_id (messages c ! i)) (t_pending_submissions c)\<rparr>"
  let ?m = "(messages c ! i)\<lparr>g_submitted := False, g_submission_error := Some reason\<rparr>"
  have "pending_except i ?c1" using assms by (intro pending_except_pop) (simp_all add: message_key_def)
  then have "pending_ok (count_submission_failed i reason (withdraw_submission i ?c1))"
  proof (rule pending_settled [where m = ?m])
    show "messages (count_submission_failed i reason (withdraw_submission i ?c1)) = (messages ?c1)[i := ?m]"
      using assms(3) by (cases "g_submitted (messages c ! i)")
        (simp_all add: count_submission_failed_def withdraw_submission_def map_current_messages map_message_messages
          not_submitted_same)
    show "t_pending_submissions (count_submission_failed i reason (withdraw_submission i ?c1)) = t_pending_submissions ?c1"
      "t_ids (count_submission_failed i reason (withdraw_submission i ?c1)) = t_ids ?c1"
      by (simp_all add: count_submission_failed_def withdraw_submission_def map_message_def map_current_def)
  qed (use assms(3) in \<open>simp_all add: message_key_def unresolved_def\<close>)
  with False assms messages_some [OF assms(3)] show ?thesis
    by (auto simp: record_pretransmission_rejection_def Let_def pending_ok_sketch [OF sketch_small(6)])
qed

lemma pending_radio:
  assumes "accounting c" and "pending_ok c" and "rate_limit_is_local ev n msg c"
  shows "pending_ok (fst (handle_from_radio ev now n msg c))"
proof -
  have "pending_ok (fst (handle_routing ev now n p d r c))" if "msg = FR_packet p" "decoded_data p = Some d" for p d r
  proof -
    have "pending_ok (record_pretransmission_rejection now n i reason c)"
      if "dict_get (t_hardware_ids c) n = Some origin" "dict_get (t_messages_by_packet c) (origin, d_request_id d) = Some i"
        "parse_routing (en_codec ev) (d_payload d) = Some RATE_LIMIT_EXCEEDED" for origin i reason
      using assms that \<open>msg = FR_packet p\<close> \<open>decoded_data p = Some d\<close> accounting_refs(1) [OF assms(1) that(2)]
      by (intro pending_rejection) (simp_all add: rate_limit_is_local_def)
    then show ?thesis
      using assms(2) by (auto simp: handle_routing_def Let_def pending_ok_sketch [OF sketch_routing_parts(1)]
          pending_ok_sketch [OF sketch_routing_parts(2)] split: option.splits)
  qed
  then show ?thesis
    using assms(1,2) by (auto simp: handle_from_radio_def pending_queue_status pending_ok_sketch [OF sketch_text]
        split: option.splits from_radio.splits)
qed

text \<open>Finalization settles everything that is pending.\<close>

lemma resolve_keeps:
  assumes "i < length (messages c)"
  shows "map message_key (messages (resolve_submission now s i err c)) = map message_key (messages c)"
    and "t_ids (resolve_submission now s i err c) = t_ids c"
    and "j < length (messages c) \<Longrightarrow> unresolved (messages (resolve_submission now s i err c) ! j) \<longleftrightarrow>
      unresolved (messages c ! j) \<and> j \<noteq> i"
proof -
  have pub: "messages (publish_submission now s i res detail c) = messages c" "t_ids (publish_submission now s i res detail c) = t_ids c" for res detail c
    by (simp_all add: publish_submission_def Let_def ctl_simps note_activity_def messages_def)
  note simps = resolve_submission_def pub count_submitted_def count_submission_failed_def map_current_messages
    map_message_messages map_update message_key_def
  show "map message_key (messages (resolve_submission now s i err c)) = map message_key (messages c)"
    using assms by (auto simp: simps list_update_same_conv split: option.splits)
  show "t_ids (resolve_submission now s i err c) = t_ids c" using assms by (auto simp: simps split: option.splits)
  show "j < length (messages c) \<Longrightarrow> unresolved (messages (resolve_submission now s i err c) ! j) \<longleftrightarrow>
      unresolved (messages c ! j) \<and> j \<noteq> i"
    using assms messages_some [OF assms] by (auto simp: simps unresolved_def nth_list_update split: option.splits)
qed

lemma resolve_all_keeps:
  "\<forall>(k, i) \<in> set ps. i < length (messages c) \<Longrightarrow>
   map message_key (messages (resolve_all now ps c)) = map message_key (messages c) \<and> t_ids (resolve_all now ps c) = t_ids c \<and>
   (\<forall>j < length (messages c). unresolved (messages (resolve_all now ps c) ! j) \<longleftrightarrow>
      unresolved (messages c ! j) \<and> j \<notin> snd ` set ps)"
proof (induction now ps c rule: resolve_all.induct)
  case (2 now source pid i rest c)
  let ?c1 = "resolve_submission now source i (Some ''firmware queue admission timed out'') c"
  have i: "i < length (messages c)" using "2.prems" by simp
  have len: "length (messages ?c1) = length (messages c)" by (rule resolve_current)
  have "\<forall>(k, i) \<in> set rest. i < length (messages ?c1)" using "2.prems" len by auto
  from "2.IH" [OF this] show ?case using resolve_keeps [OF i] len by auto
qed simp

lemma pending_finalize:
  assumes "accounting c" and "pending_ok c"
  shows "pending_ok (finalize_pending_submissions now c)"
    and "m \<in> set (messages (finalize_pending_submissions now c)) \<Longrightarrow> \<not> unresolved m"
proof -
  let ?c1 = "resolve_all now (t_pending_submissions c) c"
  have "\<forall>(k, i) \<in> set (t_pending_submissions c). i < length (messages c)"
    using assms(1) by (auto simp: accounting_def refs_ok_def)
  note all = resolve_all_keeps [OF this, of now]
  have len: "length (messages ?c1) = length (messages c)" using all by (metis length_map)
  have msgs: "messages (finalize_pending_submissions now c) = messages ?c1"
    by (simp add: finalize_pending_submissions_def)
  have none: "\<not> unresolved (messages ?c1 ! j)" if j: "j < length (messages c)" for j
  proof
    assume "unresolved (messages ?c1 ! j)"
    with all j have u: "unresolved (messages c ! j)" "j \<notin> snd ` set (t_pending_submissions c)" by auto
    with assms(2) j have "(message_key (messages c ! j), j) \<in> set (t_pending_submissions c)"
      by (auto simp: pending_ok_iff intro: map_of_SomeD)
    with u(2) show False by force
  qed
  show "m \<in> set (messages (finalize_pending_submissions now c)) \<Longrightarrow> \<not> unresolved m"
    using none len msgs by (auto simp: in_set_conv_nth)
  have keys: "map message_key (messages ?c1) = map message_key (messages c)" using all by blast
  have "set (map message_key (messages ?c1)) = set (map message_key (messages c))" by (simp only: keys)
  then have "message_key ` set (messages ?c1) = message_key ` set (messages c)" by simp
  with assms(2) all have "\<forall>m \<in> set (messages ?c1). g_packet_id m \<in> set (dict_keys (used_of (t_ids ?c1) (g_source_node m)))"
    by (auto simp: pending_ok_iff message_key_def set_eq_iff image_iff) metis
  moreover have "distinct (map message_key (messages ?c1))" using assms(2) keys by (simp add: pending_ok_iff)
  moreover have "t_ids (finalize_pending_submissions now c) = t_ids ?c1" by (simp add: finalize_pending_submissions_def)
  ultimately show "pending_ok (finalize_pending_submissions now c)"
    using none by (simp add: pending_ok_iff msgs len)
qed

subsection \<open>New submissions\<close>

lemma pending_used:
  assumes "pending_ok c" and "\<And>s. set (dict_keys (used_of (t_ids c) s)) \<subseteq> set (dict_keys (used_of ids s))"
  shows "pending_ok (c\<lparr>t_sequence := n, t_ids := ids\<rparr>)" and "pending_ok (c\<lparr>t_ids := ids\<rparr>)"
  using assms unfolding pending_ok_iff by (simp_all add: messages_def cong: option.case_cong) blast+

lemma pending_register:
  assumes "pending_ok c" and "t_current c = Some r" and "accounting c"
    and "g_packet_id m \<notin> set (dict_keys (used_of (t_ids c) (g_source_node m)))"
    and "t_ids c0 = ids" and "t_current c0 = t_current c" and "t_pending_submissions c0 = t_pending_submissions c"
    and "\<And>s. set (dict_keys (used_of ids s)) =
      (if s = g_source_node m then insert (g_packet_id m) else id) (set (dict_keys (used_of (t_ids c) s)))"
  shows "pending_ok (register_message now m origin c0)"
proof -
  let ?c' = "register_message now m origin c0"
  have ms: "messages c = r_generated_messages r" "messages ?c' = messages c @ [m]"
    using register_messages [of c0 r] assms(2,6) by (simp_all add: messages_def)
  have pd: "t_pending_submissions ?c' = dict_set (message_key m) (length (messages c)) (t_pending_submissions c)"
    and ids: "t_ids ?c' = ids"
    using assms(2,5,6,7) ms by (simp_all add: register_message_def Let_def ctl_simps message_key_def map_current_def)
  have new: "message_key x \<noteq> message_key m" if "x \<in> set (messages c)" for x
  proof
    assume "message_key x = message_key m"
    then have "g_source_node x = g_source_node m" "g_packet_id x = g_packet_id m" by (simp_all add: message_key_def)
    with that assms(1,4) show False unfolding pending_ok_iff by metis
  qed
  have "message_key m \<notin> message_key ` set (messages c)" using new by force
  with assms(1) have "distinct (map message_key (messages ?c'))" by (simp add: ms(2) pending_ok_iff)
  moreover have "dict_get (t_pending_submissions ?c') (message_key (messages ?c' ! i)) = Some i"
    if "i < length (messages ?c')" "unresolved (messages ?c' ! i)" for i
    using that assms(1) new [OF nth_mem, of i]
    by (cases "i < length (messages c)") (auto simp: ms(2) pd pending_ok_iff dict_simps nth_append less_Suc_eq)
  moreover have "g_packet_id x \<in> set (dict_keys (used_of (t_ids ?c') (g_source_node x)))" if "x \<in> set (messages ?c')" for x
  proof -
    have sub: "set (dict_keys (used_of (t_ids c) s)) \<subseteq> set (dict_keys (used_of ids s))" for s
      by (simp only: assms(8)) auto
    have own: "g_packet_id m \<in> set (dict_keys (used_of ids (g_source_node m)))" by (simp only: assms(8)) simp
    have "x \<in> set (messages c) \<or> x = m" using that by (auto simp: ms(2))
    then show ?thesis using assms(1) sub own unfolding pending_ok_iff ids by blast
  qed
  ultimately show ?thesis by (simp add: pending_ok_iff)
qed

lemma allocated_keys:
  assumes "allocate_packet_id g source now ids s = Some (i, ids', s')"
  shows "set (dict_keys (used_of ids' u)) = (if u = source then insert i else id) (set (dict_keys (used_of ids u)))"
  unfolding allocate_used(2) [OF assms] by (simp add: dict_keys_set insert_absorb del: set_map)

lemma pending_submit:
  assumes "accounting c" and "pending_ok c" and "submit ev g send now source destination flow s w c = Some (c', s', w', out)"
  shows "pending_ok c'"
  using assms(3)
proof (cases rule: submit_cases)
  case (too_small e)
  with assms(2) show ?thesis by (simp add: pending_ok_sketch [OF sketch_fields(2)])
next
  case (unknown_node pid ids s1 e)
  have "set (dict_keys (used_of (t_ids c) u)) \<subseteq> set (dict_keys (used_of ids u))" for u
    by (simp only: allocated_keys [OF unknown_node(3)]) auto
  from pending_used(1) [OF assms(2) this] show ?thesis by (simp only: unknown_node(2))
next
  case (registered r pid ids s1 payload p c4 o4)
  let ?m = "new_message (Suc (t_sequence c)) flow source destination pid now"
  let ?c0 = "c\<lparr>t_sequence := Suc (t_sequence c), t_ids := ids\<rparr>"
  define c3 where "c3 = register_message now ?m (p_from p) ?c0"
  have ok3: "pending_ok c3" unfolding c3_def
    by (rule pending_register [OF assms(2) registered(1) assms(1), where ids = ids])
      (use allocate_used(1) [OF registered(2)] allocated_keys [OF registered(2)] in \<open>simp_all add: new_message_def del: set_map\<close>)
  have c4: "sketch c4 = sketch c3" using sketch_control(10) [of ev now p c3] registered(4) by (simp add: c3_def)
  then have ok4: "pending_ok c4" using ok3 by (simp only: pending_ok_sketch [OF c4])
  let ?i = "length (r_generated_messages r)"
  have "messages c3 = r_generated_messages r @ [?m]" using register_messages [of ?c0 r] registered(1) by (simp add: c3_def)
  moreover have "map profile (messages c4) = map profile (messages c3)" using c4 by (simp add: sketch_def)
  ultimately have prof: "map profile (messages c4) = map profile (r_generated_messages r) @ [profile ?m]" by simp
  then have i: "?i < length (messages c4)" by (metis length_append_singleton length_map lessI)
  with prof have "profile (messages c4 ! ?i) = profile ?m" by (metis length_map nth_append_length nth_map)
  have "p_id p = pid" using registered(3) by (auto simp: traffic_packet_def bind_result_eq_Inr split: option.splits)
  with \<open>profile (messages c4 ! ?i) = profile ?m\<close> have "(source, p_id p) = message_key (messages c4 ! ?i)" by (simp add: profile_def message_key_def new_message_def)
  then have "pending_except ?i (c4\<lparr>t_pending_submissions := dict_pop (source, p_id p) (t_pending_submissions c4)\<rparr>)"
    using ok4 i by (intro pending_except_pop) simp_all
  then have "pending_ok (resolve_submission now source ?i err
      (c4\<lparr>t_pending_submissions := dict_pop (source, p_id p) (t_pending_submissions c4)\<rparr>))" for err
    by (rule pending_resolve) (simp add: i)
  with ok4 registered(5) show ?thesis by (auto simp: hand_over_def split: prod.splits sum.splits)
qed (simp add: assms(2))

lemma pending_turn:
  assumes "accounting c" and "pending_ok c" and "run_turn ev g send now rt w c = Some (rt', c', w', out)"
  shows "pending_ok c'"
proof -
  have "c' = c \<or> (\<exists>source destination flow s s'. submit ev g send now source destination flow s w c = Some (c', s', w', out))"
    using assms(3) by (auto simp: run_turn_def Let_def bind_eq_Some_conv split: prod.splits sum.splits)
      (metis old.unit.exhaust sumE)
  with assms(1,2) show ?thesis by (auto dest: pending_submit)
qed

lemma pending_start:
  assumes "pending_ok c"
  shows "pending_ok (fst (start_run now run_id q sc raw c))"
proof -
  obtain c' out where s: "start_run now run_id q sc raw c = (c', out)" by fastforce
  then show ?thesis
  proof (cases rule: start_cases)
    case (rejected e ids)
    with assms s show ?thesis by (auto simp: pending_used)
  next
    case (started snapshot m ids)
    with s show ?thesis by (simp add: pending_ok_iff install_run_def new_result_def messages_def)
  qed
qed

subsection \<open>Every reachable state\<close>

text \<open>Once a run leaves its active phases, every message is settled, and stays settled.\<close>

definition settled :: "controller \<Rightarrow> bool" where
  "settled c \<longleftrightarrow> running c \<or> (\<forall>m \<in> set (messages c). \<not> unresolved m)"

lemma settled_profiles:
  assumes "map profile (messages c') = map profile (messages c)" and "settled c" and "running c \<Longrightarrow> running c'"
  shows "settled c'"
proof -
  have "snd ` set (map profile (messages c')) = snd ` set (map profile (messages c))" by (simp only: assms(1))
  then have "unresolved ` set (messages c') = unresolved ` set (messages c)" by (simp add: profile_def image_image)
  with assms(2,3) show ?thesis unfolding settled_def by (metis image_iff)
qed

lemma settled_sketch: "sketch c' = sketch c \<Longrightarrow> outline c' = outline c \<Longrightarrow> settled c \<Longrightarrow> settled c'"
  by (rule settled_profiles) (simp_all add: sketch_def outline_def running_def)

lemma settled_running: "running c \<Longrightarrow> settled c" by (simp add: settled_def)

definition tidy :: "controller \<Rightarrow> bool" where
  "tidy c \<longleftrightarrow> pending_ok c \<and> settled c"

lemma tidy_sketch: "sketch c' = sketch c \<Longrightarrow> outline c' = outline c \<Longrightarrow> tidy c \<Longrightarrow> tidy c'"
  unfolding tidy_def by (metis pending_ok_sketch settled_sketch)

lemma tidy_phase: "sketch c' = sketch c \<Longrightarrow> t_phase c' = t_phase c \<Longrightarrow> tidy c \<Longrightarrow> tidy c'"
  unfolding tidy_def running_def
  by (metis (no_types, lifting) pending_ok_sketch settled_profiles running_def sketch_def prod.inject)

lemma tidy_running: "running c' \<Longrightarrow> pending_ok c' \<Longrightarrow> tidy c'"
  by (simp add: tidy_def settled_running)

lemma tidy_outline: "outline c' = outline c \<Longrightarrow> running c \<Longrightarrow> pending_ok c' \<Longrightarrow> tidy c'"
  by (rule tidy_running) (simp_all add: outline_def running_def)

lemma running_phases: "t_phase c = Ph_GENERATING \<Longrightarrow> running c" "t_phase c = Ph_DRAINING \<Longrightarrow> running c"
  by (simp_all add: running_def)

lemma tidy_handlers:
  assumes "tidy c"
  shows "tidy (fst (record_rf_transmission ev now tx p air c))" and "tidy (record_drop ev now tx p reason c)"
    and "tidy (record_failed_receptions now n k c)" and "tidy (record_duplicate_receptions now n k c)"
    and "tidy (fst (record_topology_change e l c))" and "tidy (set_event_loop_lag now x c)"
    and "tidy (sample_final_failed_receptions now sampled c)"
  by (rule tidy_sketch [OF _ _ assms]; simp add: sketch_simps outline_simps)+

lemma tidy_radio:
  assumes "accounting c" and "tidy c" and "rate_limit_is_local ev n msg c"
  shows "tidy (fst (handle_from_radio ev now n msg c))"
proof (cases "running c")
  case True
  then show ?thesis
    using assms by (intro tidy_outline [OF outline_radio(1)] pending_radio) (simp_all add: tidy_def)
qed (simp add: handlers_ignore assms(2))

lemma tidy_task:
  assumes "accounting c" and "tidy c"
  shows "t_phase c = Ph_GENERATING \<Longrightarrow> run_turn ev g send now rt w c = Some (rt', c', w', out) \<Longrightarrow> tidy c'"
    and "t_phase c = Ph_DRAINING \<Longrightarrow> tidy (drain_begin now c)"
    and "t_phase c = Ph_DRAINING \<Longrightarrow> tidy (snd (drain_check now quiet deadline c))"
    and "t_phase c = Ph_DRAINING \<Longrightarrow> tidy (drain_end now timed_out c)"
    and "t_phase c = Ph_GENERATING \<Longrightarrow> tidy (begin_draining c)"
proof -
  show "tidy c'" if "t_phase c = Ph_GENERATING" "run_turn ev g send now rt w c = Some (rt', c', w', out)"
    using pending_turn [OF assms(1) _ that(2)] assms(2)
    by (intro tidy_outline [OF outline_turn(1) [OF that(2)]] running_phases that) (simp_all add: tidy_def)
  show "tidy (drain_begin now c)" "tidy (snd (drain_check now quiet deadline c))"
    by (rule tidy_sketch [OF _ _ assms(2)]; simp add: sketch_simps outline_simps)+
  show "tidy (drain_end now timed_out c)" if "t_phase c = Ph_DRAINING"
  proof -
    have "pending_ok (drain_end now timed_out c)"
      using pending_finalize(1) [OF assms(1)] assms(2)
      by (simp add: drain_end_def tidy_def pending_ok_sketch [OF sketch_fields(19)])
    then show ?thesis by (intro tidy_outline [OF outline_drain(5)] running_phases that)
  qed
  show "tidy (begin_draining c)" if "t_phase c = Ph_GENERATING"
    using assms(2) by (intro tidy_running)
      (simp_all add: begin_draining_def running_def tidy_def pending_ok_sketch [OF sketch_fields(15)])
qed

lemma tidy_finalize:
  assumes "accounting c" and "pending_ok c"
  shows "tidy (finalize_pending_submissions now c)"
  using pending_finalize [OF assms] by (auto simp: tidy_def settled_def)

lemma tidy_finish:
  assumes "accounting c" and "tidy c"
  shows "finish_begin now c = Some c' \<Longrightarrow> tidy c'"
    and "t_phase c = Ph_FINALIZING \<Longrightarrow> tidy (fst (finish_end now st err c))"
proof -
  have "pending_ok (c\<lparr>t_finalization_done := False, t_phase := Ph_FINALIZING\<rparr>)"
    using assms(2) by (simp add: pending_ok_sketch [OF sketch_fields(15)] pending_ok_sketch [OF sketch_fields(17)] tidy_def)
  moreover have "accounting (c\<lparr>t_finalization_done := False, t_phase := Ph_FINALIZING\<rparr>)"
    using assms(1) by (simp add: ctl_simps)
  ultimately show "finish_begin now c = Some c' \<Longrightarrow> tidy c'"
    using assms(2) by (auto simp: finish_begin_def tidy_finalize split: if_splits)
  assume ph: "t_phase c = Ph_FINALIZING"
  then have all: "\<forall>m \<in> set (messages c). \<not> unresolved m" using assms(2) by (simp add: tidy_def settled_def running_def)
  have "messages (fst (finish_end now st err c)) = messages c \<and> t_ids (fst (finish_end now st err c)) = t_ids c"
    by (auto simp: finish_end_def finish_metrics_def finish_freeze_def persistence_failed_def terminal_result_def Let_def
        ctl_simps messages_def split: option.splits sum.splits)
  with assms(2) all show "tidy (fst (finish_end now st err c))"
    by (simp add: tidy_def settled_def pending_ok_iff)
qed

lemma tidy_start:
  assumes "tidy c"
  shows "tidy (fst (start_run now run_id q sc raw c))"
proof -
  obtain c' out where s: "start_run now run_id q sc raw c = (c', out)" by fastforce
  have "settled c'" using s
  proof (cases rule: start_cases)
    case (rejected e ids)
    then have "messages c' = messages c" "running c' = running c" by (auto simp: messages_def running_def)
    with assms show ?thesis by (simp add: tidy_def settled_def)
  next
    case (started snapshot m ids)
    then show ?thesis by (simp add: install_run_def settled_def running_def)
  qed
  with pending_start [of c now run_id q sc raw] assms s show ?thesis by (simp add: tidy_def)
qed

lemma tidy_control:
  "tidy c \<Longrightarrow> tidy (snd (stop_begin c))" "tidy c \<Longrightarrow> tidy (snd (fail_begin reason c))"
  "tidy c \<Longrightarrow> tidy (run_raised e c)" "tidy c \<Longrightarrow> tidy (run_done c)" "tidy c \<Longrightarrow> tidy (finalization_wait_timeout c)"
proof -
  have cancel: "t_phase (cancel_run_task c) = t_phase c" for c by (simp add: cancel_run_task_def)
  then have phases: "t_phase (snd (stop_begin c)) = t_phase c" "t_phase (snd (fail_begin reason c)) = t_phase c"
    "t_phase (run_raised e c) = t_phase c" "t_phase (run_done c) = t_phase c" "t_phase (finalization_wait_timeout c) = t_phase c"
    by (simp_all add: stop_begin_def fail_begin_def run_raised_def run_done_def finalization_wait_timeout_def
        map_current_def split: option.split)
  show "tidy c \<Longrightarrow> tidy (snd (stop_begin c))" "tidy c \<Longrightarrow> tidy (snd (fail_begin reason c))"
    "tidy c \<Longrightarrow> tidy (run_raised e c)" "tidy c \<Longrightarrow> tidy (run_done c)" "tidy c \<Longrightarrow> tidy (finalization_wait_timeout c)"
    by (rule tidy_phase; simp add: sketch_simps phases)+
qed

lemmas tidy_intros = tidy_handlers tidy_radio tidy_task tidy_finish tidy_start tidy_control

lemma ctl_step_tidy:
  "ctl_step ev g send (rate_limit_is_local ev) c c' \<Longrightarrow> accounting c \<Longrightarrow> tidy c \<Longrightarrow> tidy c'"
  by (induction rule: ctl_step.induct) (blast intro: tidy_intros tidy_finalize dest: tidy_def [THEN iffD1])+

lemma ctl_reachable_tidy: "ctl_reachable ev g send (rate_limit_is_local ev) c \<Longrightarrow> tidy c"
proof (induction rule: ctl_reachable.induct)
  case (new sc hw broker build settle has_sampler now)
  show ?case by (simp add: new_controller_def tidy_def settled_def pending_ok_iff messages_def)
qed (blast intro: ctl_step_tidy ctl_reachable_accounting)

lemma count_if_split: "\<forall>m \<in> set ms. P m \<longleftrightarrow> \<not> Q m \<Longrightarrow> count_if P ms + count_if Q ms = int (length ms)"
  by (induction ms) (auto simp: count_if_def)

text \<open>
  C1. No submission is lost: when a run is finalized, however it ended, each of its messages has
  been accepted or has failed with a reason, so the two totals add up to the messages requested.
  The environment's assumption is that a rate-limit error only reaches the sender of the message.
\<close>

theorem every_submission_settled:
  assumes "ctl_reachable ev g send (rate_limit_is_local ev) c" and "t_frozen_result c = Some f"
  shows "r_submitted f + r_submission_failed f = r_requested f \<and>
    (\<forall>m \<in> set (r_generated_messages f). g_submitted m \<longleftrightarrow> g_submission_error m = None)"
proof -
  note a = ctl_reachable_accounting [OF assms(1)] and l = ctl_reachable_lifecycle [OF assms(1)]
  have f: "frozen_ok c f" "synced c" using l assms(2) by (simp_all add: lifecycle_def)
  then have cur: "messages c = r_generated_messages f" "\<not> running c" by (simp_all add: frozen_ok_def messages_def running_def)
  then have open_none: "\<forall>m \<in> set (r_generated_messages f). \<not> unresolved m"
    using ctl_reachable_tidy [OF assms(1)] by (simp add: tidy_def settled_def)
  have cs: "counters_ok (r_generated_messages f) (t_generated_count c) (t_submitted_count c) (t_submission_failed_count c)
      (t_transmitted_count c) (t_acknowledgments c)"
    using a cur(1) by (simp add: accounting_def)
  then have ok: "list_all message_ok (r_generated_messages f)" by (simp add: counters_ok_def)
  then have one: "\<forall>m \<in> set (r_generated_messages f). g_submitted m \<longleftrightarrow> g_submission_error m = None"
    using open_none by (auto simp: list_all_iff message_ok_def unresolved_def)
  then have "count_if g_submitted (r_generated_messages f) + count_if (\<lambda>m. g_submission_error m \<noteq> None) (r_generated_messages f)
      = int (length (r_generated_messages f))"
    by (intro count_if_split) simp
  with cs f one show ?thesis by (simp add: counters_ok_def frozen_ok_def synced_def)
qed

lemma every_submission_settled_witness:
  "\<exists>f. t_frozen_result lab_failed = Some f \<and> length (r_generated_messages f) = 1 \<and>
     r_submitted f + r_submission_failed f = r_requested f"
proof -
  obtain f where f: "t_frozen_result lab_failed = Some f" and r: "lab_reachable (rate_limit_is_local lab_env) lab_failed"
    and n: "length (r_generated_messages f) = 1" by (rule lab_failed_steps)
  from every_submission_settled [OF r f] f n show ?thesis by blast
qed

end
