(* ===== verification/System.thy ===== *)
theory System
  imports Medium Traffic_Outcome
begin

text \<open>
  How the parts work together: the traffic controller sends through the gateways of the nodes, and it
  observes the RF medium. The controller's send function on the dictionary of gateways is
  \<open>fleet_send\<close>, and \<open>controller_observer\<close> is the set of handlers with which
  \<^verbatim>\<open>src/backend/app/simulator/service.py\<close> wires the medium to the controller.
\<close>

subsection \<open>The controller sends through the gateways\<close>

text \<open>\<^verbatim>\<open>self.gateways[source].send_to_radio(request, source="traffic")\<close>\<close>

definition fleet_send :: "codec \<Rightarrow> fleet send" where
  "fleet_send pb node message fleet =
     (case dict_get fleet node of
        None \<Rightarrow> (Inl (KeyError node), fleet)
      | Some g \<Rightarrow> (case send_to_radio pb message ''traffic'' g of (g', out) \<Rightarrow> (out, dict_set node g' fleet)))"

lemma fleet_send_cases:
  assumes "fleet_send pb node m fleet = (out, fleet')"
  obtains (refused) e where "out = Inl e" and "dict_get fleet' = dict_get fleet"
  | (sent) g g' w where "out = Inr ()" and "dict_get fleet node = Some g" and "fleet' = dict_set node g' fleet"
      and "radio_write pb ''traffic'' m w" and "gw_downstream_writes g' = gw_downstream_writes g @ [w]"
proof (cases "dict_get fleet node")
  case None
  with assms show thesis by (intro refused [of "KeyError node"]) (simp_all add: fleet_send_def)
next
  case (Some g)
  obtain g' r where s: "send_to_radio pb m ''traffic'' g = (g', r)" by fastforce
  show thesis
  proof (cases r)
    case (Inl e)
    with radio.refused s have "g' = g" by blast
    with assms Some s Inl show thesis by (intro refused [of e]) (auto simp: fleet_send_def dict_simps)
  next
    case (Inr u)
    with s obtain w where "radio_write pb ''traffic'' m w" "gw_downstream_writes g' = gw_downstream_writes g @ [w]"
      using radio.sent by blast
    with assms Some s Inr show thesis by (intro sent [of g g' w]) (simp_all add: fleet_send_def)
  qed
qed

text \<open>A message that has been registered is the newest of the run, unresolved and pending.\<close>

lemma submission_registered:
  assumes "t_current c = Some r" and "c0 = c\<lparr>t_sequence := n, t_ids := ids\<rparr>"
    and "measure_packet ev now p (register_message now (new_message k flow source destination pid now) origin c0) = (c4, o4)"
  shows "messages c4 = messages c @ [new_message k flow source destination pid now] \<and>
    t_pending_submissions c4 = dict_set (source, pid) (length (messages c)) (t_pending_submissions c) \<and>
    t_submission_failed_count c4 = t_submission_failed_count c"
proof -
  let ?m = "new_message k flow source destination pid now"
  have msgs: "messages c = r_generated_messages r" "messages c0 = messages c" "t_current c0 = Some r"
    using assms(1,2) by (simp_all add: messages_def)
  have m: "g_source_node ?m = source" "g_packet_id ?m = pid" by (simp_all add: new_message_def)
  define c3 where "c3 = register_message now ?m origin c0"
  have "messages c3 = messages c @ [?m]"
    using register_messages [OF msgs(3), of now ?m origin] msgs by (simp add: c3_def)
  moreover have "t_pending_submissions c3 = dict_set (source, pid) (length (messages c)) (t_pending_submissions c)"
    "t_submission_failed_count c3 = t_submission_failed_count c"
    using msgs assms(2) by (simp_all add: c3_def register_message_def Let_def ctl_simps m map_current_def)
  moreover have "messages (fst (measure_packet ev now p c)) = messages c"
    "t_pending_submissions (fst (measure_packet ev now p c)) = t_pending_submissions c"
    "t_submission_failed_count (fst (measure_packet ev now p c)) = t_submission_failed_count c" for c
    by (simp_all add: measure_packet_def Let_def ctl_simps note_activity_def messages_def split: sum.split)
  ultimately show ?thesis using assms(3) unfolding c3_def [symmetric] by (metis fst_conv)
qed

text \<open>A refusal resolves the submission with its reason, once.\<close>

lemma submission_refused:
  assumes "messages c = ms @ [m]" and "unresolved m"
  shows "messages (resolve_submission now source (length ms) (Some err) c) = ms @ [m\<lparr>g_submission_error := Some err\<rparr>] \<and>
    t_pending_submissions (resolve_submission now source (length ms) (Some err) c) = t_pending_submissions c \<and>
    t_submission_failed_count (resolve_submission now source (length ms) (Some err) c) = t_submission_failed_count c + 1"
proof -
  let ?i = "length ms" and ?c = "count_submission_failed (length ms) err c"
  obtain r where r: "t_current c = Some r" using messages_some [of ?i c] assms(1) by auto
  then have resolve: "resolve_submission now source ?i (Some err) c =
      publish_submission now source ?i ''submission-failed'' (Some err) ?c"
    using assms by (simp add: resolve_submission_def unresolved_def)
  have pub: "messages (publish_submission now source ?i res det c) = messages c"
    "t_pending_submissions (publish_submission now source ?i res det c) = t_pending_submissions c"
    "t_submission_failed_count (publish_submission now source ?i res det c) = t_submission_failed_count c" for c res det
    by (simp_all add: publish_submission_def Let_def ctl_simps note_activity_def messages_def)
  have "messages ?c = (messages c)[?i := (messages c ! ?i)\<lparr>g_submission_error := Some err\<rparr>]"
  proof -
    have "messages (c\<lparr>t_submission_failed_count := k\<rparr>) = messages c" for k by (simp add: messages_def)
    then show ?thesis using assms(1) by (simp add: count_submission_failed_def map_current_messages map_message_messages)
  qed
  moreover have "t_pending_submissions ?c = t_pending_submissions c" "t_submission_failed_count ?c = t_submission_failed_count c + 1"
    using r by (simp_all add: count_submission_failed_def map_current_def map_message_def)
  ultimately show ?thesis using assms(1)
    by (simp add: resolve pub)
qed

text \<open>
  C4. Every submission of a run is accounted for. When \<^verbatim>\<open>_submit\<close> returns, exactly one message has
  joined the run, from the source to the destination, and its packet carries the message's identifier
  and the source's hardware address. Either the source's gateway has exactly one more write, that
  packet encoded, and the message is unresolved and pending; or the gateways' \<^verbatim>\<open>send_to_radio\<close> of that packet has
  raised, every gateway is as it was, and the message has failed with the text of that very exception,
  counted once and no longer pending. When \<^verbatim>\<open>_submit\<close> raises, no gateway has been asked: either no message has been
  added, or the message is left unresolved and pending, for the end of the run to settle.
\<close>

theorem submission_reaches_gateway:
  assumes "t_current c = Some r"
    and "submit ev g (fleet_send pb) now source destination flow s fleet c = Some (c', s', fleet', out)"
  shows "case out of
    Inr _ \<Rightarrow> \<exists>m p. messages c' = messages c @ [m] \<and> g_source_node m = source \<and> g_destination_node m = destination \<and>
      p_id p = g_packet_id m \<and> dict_get (t_hardware_ids c) source = Some (p_from p) \<and>
      ((\<exists>gw gw' w. dict_get fleet source = Some gw \<and> fleet' = dict_set source gw' fleet \<and>
          radio_write pb ''traffic'' (TR_packet p) w \<and> gw_downstream_writes gw' = gw_downstream_writes gw @ [w] \<and>
          unresolved m \<and> dict_get (t_pending_submissions c') (source, g_packet_id m) = Some (length (messages c)) \<and>
          t_submission_failed_count c' = t_submission_failed_count c) \<or>
       (\<exists>e. fst (fleet_send pb source (TR_packet p) fleet) = Inl e \<and> dict_get fleet' = dict_get fleet \<and>
          g_submission_error m = Some (''gateway submission failed: '' @ exc_text e) \<and> \<not> g_submitted m \<and>
          dict_get (t_pending_submissions c') (source, g_packet_id m) = None \<and>
          t_submission_failed_count c' = t_submission_failed_count c + 1))
  | Inl _ \<Rightarrow> fleet' = fleet \<and> t_submission_failed_count c' = t_submission_failed_count c \<and>
      (messages c' = messages c \<and> t_pending_submissions c' = t_pending_submissions c \<or>
       (\<exists>m. messages c' = messages c @ [m] \<and> g_source_node m = source \<and> unresolved m \<and>
          dict_get (t_pending_submissions c') (source, g_packet_id m) = Some (length (messages c))))"
  using assms(2)
proof (cases rule: submit_cases)
  case (registered r' pid ids s1 payload p c4 o4)
  let ?m = "new_message (Suc (t_sequence c)) flow source destination pid now"
  have r: "r' = r" and n: "length (r_generated_messages r) = length (messages c)"
    using registered(1) assms(1) by (simp_all add: messages_def)
  have m: "g_source_node ?m = source" "g_destination_node ?m = destination" "g_packet_id ?m = pid" "unresolved ?m" "\<not> g_submitted ?m"
    by (simp_all add: new_message_def unresolved_def)
  note c4 = submission_registered [OF assms(1) refl registered(4)]
  have p: "p_id p = pid" "dict_get (t_hardware_ids c) source = Some (p_from p)"
    using registered(3) by (auto simp: traffic_packet_def bind_result_eq_Inr split: option.splits)
  show ?thesis
  proof (cases out)
    case (Inl e)
    then have "c' = c4" "fleet' = fleet" using registered(5) by auto
    then show ?thesis using Inl c4 m by (auto simp: dict_simps)
  next
    case (Inr u)
    then have ho: "hand_over (fleet_send pb) now source p (length (messages c)) fleet c4 = (c', fleet')"
      using registered(5) r n by auto
    obtain res fleet1 where fs: "fleet_send pb source (TR_packet p) fleet = (res, fleet1)" by fastforce
    then show ?thesis
    proof (cases rule: fleet_send_cases)
      case (sent gw gw' w)
      then have "c' = c4" "fleet' = dict_set source gw' fleet" using ho fs by (simp_all add: hand_over_def)
      with sent c4 p m have "messages c' = messages c @ [?m]" "t_submission_failed_count c' = t_submission_failed_count c"
        "dict_get (t_pending_submissions c') (source, pid) = Some (length (messages c))" by (simp_all add: dict_simps)
      with sent p m \<open>fleet' = dict_set source gw' fleet\<close> show ?thesis unfolding Inr sum.case
        by (intro exI [of _ ?m] exI [of _ p] conjI disjI1 exI [of _ gw] exI [of _ gw'] exI [of _ w]) simp_all
    next
      case (refused e)
      let ?c5 = "c4\<lparr>t_pending_submissions := dict_pop (source, p_id p) (t_pending_submissions c4)\<rparr>"
      let ?err = "''gateway submission failed: '' @ exc_text e"
      have c': "c' = resolve_submission now source (length (messages c)) (Some ?err) ?c5" "fleet' = fleet1"
        using ho fs refused by (simp_all add: hand_over_def)
      have "messages ?c5 = messages c @ [?m]" using c4 by (simp add: messages_def)
      note submission_refused [OF this m(4), of now source ?err]
      with c4 p c' have "messages c' = messages c @ [?m\<lparr>g_submission_error := Some ?err\<rparr>]"
        "t_submission_failed_count c' = t_submission_failed_count c + 1"
        "dict_get (t_pending_submissions c') (source, pid) = None" by (simp_all add: dict_simps)
      with refused fs c'(2) p m show ?thesis unfolding Inr sum.case
        by (intro exI [of _ "?m\<lparr>g_submission_error := Some ?err\<rparr>"] exI [of _ p] conjI disjI2 exI [of _ e]) simp_all
    qed
  qed
qed (use assms(1) in \<open>simp_all add: messages_def\<close>)

text \<open>The first message of the laboratory goes through the gateway of station a.\<close>

lemma lab_submits:
  obtains c' s' fleet' where "submit lab_env zero_rng (fleet_send null_codec) 0 ''a'' ''c'' ''default'' () relay_fleet lab_started =
      Some (c', s', fleet', Inr ())"
proof -
  obtain m where sh: "lab_started = install_run ''r1'' relay_request relay_scenario No_Sample m
      (set_baseline relay_scenario No_Sample (clear_accumulators 0 lab))" by (rule lab_started_shape)
  obtain r where r: "t_current lab_started = Some r" "r_run_id r = ''r1''" "r_request r = relay_request" "r_generated_messages r = []"
    by (simp add: sh install_run_def new_result_def)
  have f: "t_ids lab_started = no_packet_ids" "t_sequence lab_started = 0" "t_hardware_ids lab_started = [(''a'', 1), (''b'', 2), (''c'', 3)]"
    "t_run_scenario lab_started = relay_scenario"
    by (simp_all add: sh install_run_def set_baseline_def clear_accumulators_def Let_def lab_def new_controller_def)
  have q: "q_payload_bytes relay_request = 64" by (simp add: relay_request_def)
  obtain ids where ids: "allocate_packet_id zero_rng ''a'' 0 no_packet_ids () = Some (1, ids, ())" using lab_packet_id by blast
  obtain payload where pay: "traffic_payload ''r1'' (Suc 0) 64 = Inr payload" "length payload = 64"
  proof -
    have "length (ascii_bytes (codes ''ML1:r1:1:'') @ replicate 55 (120 :: byte)) = 64" by (simp add: ascii_bytes_def codes_def)
    with lab_payload that show thesis by blast
  qed
  let ?c0 = "lab_started\<lparr>t_sequence := Suc 0, t_ids := ids\<rparr>"
  obtain p where p: "traffic_packet ?c0 r ''a'' ''c'' 1 payload = Inr p" "p_variant p = Decoded (text_data payload)"
    by (simp add: traffic_packet_def f)
  have len: "mesh_packet_payload_length null_codec p = Inr 80"
    by (simp add: mesh_packet_payload_length_def p text_data_def null_codec_def pay MESH_PACKET_HEADER_BYTES_def)
  obtain mp where mp: "dict_get MODEM_PARAMETERS ''LONG_FAST'' = Some mp" by (simp add: MODEM_PARAMETERS_def)
  then obtain a d where air: "airtime_ms 80 ''LONG_FAST'' = Inr a" "maximum_retransmission_delay_ms 80 ''LONG_FAST'' = Inr d"
    by (simp add: airtime_ms_with_def maximum_retransmission_delay_ms_def)
  define c3 where "c3 = register_message 0 (new_message (Suc 0) ''default'' ''a'' ''c'' 1 0) (p_from p) ?c0"
  have "t_run_scenario c3 = relay_scenario"
    using r f by (simp add: c3_def register_message_def Let_def ctl_simps map_current_def)
  then have "rf_modem_preset (sc_rf (t_run_scenario c3)) = ''LONG_FAST''" by (simp add: relay_scenario_def default_rf_def)
  then obtain c4 where c4: "measure_packet lab_env 0 p c3 = (c4, Inr ())"
    by (simp add: measure_packet_def lab_env_def len air Let_def)
  obtain c5 fleet' where "hand_over (fleet_send null_codec) 0 ''a'' p 0 relay_fleet c4 = (c5, fleet')" by fastforce
  with r f q pay(1) ids p(1) c4 show thesis
    by (intro that [of c5 "()" fleet']) (simp add: submit_def Let_def c3_def)
qed

lemma submission_reaches_gateway_witness:
  "\<exists>c' s' fleet' m. submit lab_env zero_rng (fleet_send null_codec) 0 ''a'' ''c'' ''default'' () relay_fleet lab_started =
      Some (c', s', fleet', Inr ()) \<and> messages c' = [m] \<and> g_source_node m = ''a'' \<and> g_destination_node m = ''c''"
proof -
  obtain c' s' fleet' where s: "submit lab_env zero_rng (fleet_send null_codec) 0 ''a'' ''c'' ''default'' () relay_fleet lab_started =
      Some (c', s', fleet', Inr ())" by (rule lab_submits)
  obtain r where "t_current lab_started = Some r" using lab_started_fields(8) by auto
  from submission_reaches_gateway [OF this s] s show ?thesis by (auto simp: lab_started_fields(9))
qed

end
