(* ===== verification/Log_Files.thy ===== *)
theory Log_Files
  imports Py_Text
begin

text \<open>
  The daemon logs on disk, \<^verbatim>\<open>_BoundedLogWriter\<close> in
  \<^verbatim>\<open>src/backend/app/runtime/processes.py\<close>, and the part of Python's UTF-8 codec that it
  uses: the encoder, and the decoder with the error handlers \<^verbatim>\<open>ignore\<close> and
  \<^verbatim>\<open>replace\<close>. Text is a list of code points and a file is the list of its byte values. The two
  files of a writer are its log and the backup it was rotated to. An operation of the
  file system that fails raises \<^verbatim>\<open>OSError\<close>; how far a write has got when it fails is an answer of
  the disk. The output of a child is read line by line, and a line beyond the limit of the stream raises.
\<close>

type_synonym octets = "nat list"
type_synonym text_line = "nat list"

subsection \<open>UTF-8 with error handlers\<close>

definition scalar_value :: "nat \<Rightarrow> bool" where
  "scalar_value c \<longleftrightarrow> c < 0xD800 \<or> 0xE000 \<le> c \<and> c \<le> 0x10FFFF"

definition utf8_encode_code :: "nat \<Rightarrow> octets" where
  "utf8_encode_code c =
     (if c < 0x80 then [c]
      else if c < 0x800 then [192 + c div 64, 128 + c mod 64]
      else if c < 0x10000 then [224 + c div 4096, 128 + c div 64 mod 64, 128 + c mod 64]
      else [240 + c div 262144, 128 + c div 4096 mod 64, 128 + c div 64 mod 64, 128 + c mod 64])"

definition utf8_encode :: "text_line \<Rightarrow> octets" where
  "utf8_encode cs = concat (map utf8_encode_code cs)"

text \<open>\<^verbatim>\<open>str.encode("utf-8")\<close>: surrogates cannot be encoded.\<close>

definition encode_text :: "text_line \<Rightarrow> octets result" where
  "encode_text cs =
     (if list_all scalar_value cs then Inr (utf8_encode cs) else Inl (ValueError ''surrogates not allowed''))"

text \<open>
  The first character of a byte string: how many bytes the decoder consumes, and the code point, or
  \<open>None\<close> for an error that spans these bytes.
\<close>

definition utf8_head :: "nat \<Rightarrow> octets \<Rightarrow> nat \<times> nat option" where
  "utf8_head a bs =
     (if a < 128 then (1, Some a)
      else case bs of
        [] \<Rightarrow> (1, None)
      | b # cs \<Rightarrow>
        if 194 \<le> a \<and> a \<le> 223 then
          (if cont_byte b then (2, Some ((a - 192) * 64 + (b - 128))) else (1, None))
        else if 224 \<le> a \<and> a \<le> 239 then
          (if cont_byte b \<and> (a = 224 \<longrightarrow> 160 \<le> b) \<and> (a = 237 \<longrightarrow> b \<le> 159) then
             (case cs of
                [] \<Rightarrow> (2, None)
              | c # ds \<Rightarrow> if cont_byte c then (3, Some ((a - 224) * 4096 + (b - 128) * 64 + (c - 128))) else (2, None))
           else (1, None))
        else if 240 \<le> a \<and> a \<le> 244 then
          (if cont_byte b \<and> (a = 240 \<longrightarrow> 144 \<le> b) \<and> (a = 244 \<longrightarrow> b \<le> 143) then
             (case cs of
                [] \<Rightarrow> (2, None)
              | c # ds \<Rightarrow>
                  if \<not> cont_byte c then (2, None)
                  else case ds of
                    [] \<Rightarrow> (3, None)
                  | d # es \<Rightarrow>
                      if cont_byte d
                      then (4, Some ((a - 240) * 262144 + (b - 128) * 4096 + (c - 128) * 64 + (d - 128)))
                      else (3, None))
           else (1, None))
        else (1, None))"

text \<open>The handler replaces every error by \<open>sub\<close>: nothing, or the replacement character.\<close>

function utf8_decode_with :: "text_line \<Rightarrow> octets \<Rightarrow> text_line" where
  "utf8_decode_with sub [] = []"
| "utf8_decode_with sub (a # bs) =
     (case utf8_head a bs of (k, decoded) \<Rightarrow>
        (case decoded of Some c \<Rightarrow> [c] | None \<Rightarrow> sub) @ utf8_decode_with sub (drop (k - 1) bs))"
  by pat_completeness auto
termination by (relation "measure (\<lambda>(sub, bs). length bs)") auto

definition decode_ignore :: "octets \<Rightarrow> text_line" where "decode_ignore = utf8_decode_with []"
definition decode_replace :: "octets \<Rightarrow> text_line" where "decode_replace = utf8_decode_with [0xFFFD]"

lemma utf8_encode_simps [simp]:
  "utf8_encode [] = []" "utf8_encode (c # cs) = utf8_encode_code c @ utf8_encode cs"
  "utf8_encode (cs @ ds) = utf8_encode cs @ utf8_encode ds"
  by (simp_all add: utf8_encode_def)

lemma cont_byte_mod [simp]: "cont_byte (128 + n mod 64)"
  by (simp add: cont_byte_def)

lemma base64_digits:
  fixes c :: nat
  shows "c div 4096 = c div 64 div 64" "c div 262144 = c div 64 div 64 div 64"
    "c = 64 * (c div 64) + c mod 64"
  by (simp_all flip: div_mult2_eq)

lemma utf8_head_encode:
  assumes "scalar_value c" and "utf8_encode_code c = a # bs"
  shows "utf8_head a (bs @ rest) = (Suc (length bs), Some c)"
proof -
  consider (one) "c < 0x80" | (two) "0x80 \<le> c" "c < 0x800" | (three) "0x800 \<le> c" "c < 0x10000" | (four) "0x10000 \<le> c"
    by linarith
  then show ?thesis
  proof cases
    case one
    with assms(2) show ?thesis by (auto simp: utf8_encode_code_def utf8_head_def)
  next
    case two
    then have "c div 64 \<ge> 2" "c div 64 < 32" by (auto simp: div_le_mono less_mult_imp_div_less)
    then show ?thesis using assms(2) two by (auto simp: utf8_encode_code_def utf8_head_def)
  next
    case three
    define x y z where "x = c div 64 div 64" and "y = c div 64 mod 64" and "z = c mod 64"
    have c: "c = 4096 * x + 64 * y + z" "y < 64" "z < 64"
      unfolding x_def y_def z_def using base64_digits(3) [of c] base64_digits(3) [of "c div 64"] by (linarith, simp_all)
    have "x < 16" "x = 0 \<longrightarrow> 32 \<le> y" "x = 13 \<longrightarrow> y < 32"
      using c three assms(1) by (auto simp: scalar_value_def)
    moreover have "a = 224 + x" "bs = [128 + y, 128 + z]"
      using assms(2) three by (auto simp: utf8_encode_code_def x_def y_def z_def base64_digits(1))
    moreover have "cont_byte (128 + y)" "cont_byte (128 + z)" by (simp_all add: y_def z_def)
    ultimately show ?thesis using c(1) by (auto simp: utf8_head_def)
  next
    case four
    define w x y z where "w = c div 64 div 64 div 64" and "x = c div 64 div 64 mod 64"
      and "y = c div 64 mod 64" and "z = c mod 64"
    have c: "c = 262144 * w + 4096 * x + 64 * y + z" "x < 64" "y < 64" "z < 64"
      unfolding w_def x_def y_def z_def
      using base64_digits(3) [of c] base64_digits(3) [of "c div 64"] base64_digits(3) [of "c div 64 div 64"]
      by (linarith, simp_all)
    have "w \<le> 4" "w = 0 \<longrightarrow> 16 \<le> x" "w = 4 \<longrightarrow> x < 16"
      using c four assms(1) by (auto simp: scalar_value_def)
    moreover have "a = 240 + w" "bs = [128 + x, 128 + y, 128 + z]"
      using assms(2) four by (auto simp: utf8_encode_code_def w_def x_def y_def z_def base64_digits)
    moreover have "cont_byte (128 + x)" "cont_byte (128 + y)" "cont_byte (128 + z)" by (simp_all add: x_def y_def z_def)
    ultimately show ?thesis using c(1) by (auto simp: utf8_head_def)
  qed
qed

lemma utf8_encode_code_shape:
  obtains a bs where "utf8_encode_code c = a # bs" and "list_all cont_byte bs" and "length bs \<le> 3"
proof -
  have "\<exists>a bs. utf8_encode_code c = a # bs \<and> list_all cont_byte bs \<and> length bs \<le> 3"
    by (simp add: utf8_encode_code_def)
  with that show thesis by blast
qed

lemma decode_with_encode: "list_all scalar_value cs \<Longrightarrow> utf8_decode_with sub (utf8_encode cs) = cs"
proof (induction cs)
  case (Cons c cs)
  obtain a bs where c: "utf8_encode_code c = a # bs" using utf8_encode_code_shape by metis
  with Cons show ?case by (simp add: utf8_head_encode [OF _ c])
qed simp

lemma utf8_head_cont: "cont_byte b \<Longrightarrow> utf8_head b bs = (1, None)"
  by (simp add: utf8_head_def cont_byte_def split: list.split)

lemma decode_ignore_skips: "list_all cont_byte bs \<Longrightarrow> decode_ignore (bs @ rest) = decode_ignore rest"
  by (induction bs) (simp_all add: decode_ignore_def utf8_head_cont)

text \<open>A tail of an encoded text is a few continuation bytes and the encoding of the last characters.\<close>

lemma encoded_tail:
  "\<exists>bs cs'. drop n (utf8_encode cs) = bs @ utf8_encode cs' \<and> list_all cont_byte bs \<and> (\<exists>ds. cs = ds @ cs')"
proof (induction cs arbitrary: n)
  case (Cons c cs)
  obtain a bs where c: "utf8_encode_code c = a # bs" "list_all cont_byte bs" using utf8_encode_code_shape by metis
  show ?case
  proof (cases "n = 0")
    case True
    then show ?thesis by (intro exI [of _ "[]"] exI [of _ "c # cs"]) simp
  next
    case False
    show ?thesis
    proof (cases "n \<le> length bs")
      case True
      with False c have "drop n (utf8_encode (c # cs)) = drop (n - 1) bs @ utf8_encode cs"
        by (cases n) simp_all
      moreover have "list_all cont_byte (drop (n - 1) bs)" using c(2) by (auto simp: list_all_iff dest: in_set_dropD)
      ultimately show ?thesis by (intro exI [of _ "drop (n - 1) bs"] exI [of _ cs]) (auto intro: exI [of _ "[c]"])
    next
      case False
      with c have "drop n (utf8_encode (c # cs)) = drop (n - length (utf8_encode_code c)) (utf8_encode cs)"
        by (cases n) simp_all
      with Cons.IH [of "n - length (utf8_encode_code c)"] show ?thesis by (metis append_Cons)
    qed
  qed
qed simp

lemma scalar_three:
  assumes "x < 16" and "y < 64" and "z < 64" and "x = 13 \<longrightarrow> y < 32"
  shows "scalar_value (x * 4096 + y * 64 + z)"
proof -
  consider "x < 13" | "x = 13" | "14 \<le> x" by linarith
  then show ?thesis using assms by cases (auto simp: scalar_value_def)
qed

lemma scalar_four:
  assumes "w \<le> 4" and "x < 64" and "y < 64" and "z < 64" and "w = 0 \<longrightarrow> 16 \<le> x" and "w = 4 \<longrightarrow> x < 16"
  shows "scalar_value (w * 262144 + x * 4096 + y * 64 + z)"
proof -
  consider "w = 0" | "1 \<le> w" "w \<le> 3" | "w = 4" using assms(1) by linarith
  then show ?thesis using assms by cases (auto simp: scalar_value_def)
qed

lemma cont_byte_offset: "cont_byte b \<longleftrightarrow> (\<exists>y < 64. b = 128 + y)"
  by (auto simp: cont_byte_def intro!: exI [of _ "b - 128"])

lemma utf8_head_scalar:
  assumes "utf8_head a bs = (k, Some c)"
  shows "scalar_value c"
proof -
  consider "a < 128" | "194 \<le> a" "a \<le> 223" | x where "a = 224 + x" "x < 16" | w where "a = 240 + w" "w \<le> 4"
    | "128 \<le> a" "a < 194" | "244 < a"
  proof -
    have "a < 128 \<or> 194 \<le> a \<and> a \<le> 223 \<or> a = 224 + (a - 224) \<and> a - 224 < 16 \<or> a = 240 + (a - 240) \<and> a - 240 \<le> 4 \<or>
      128 \<le> a \<and> a < 194 \<or> 244 < a" by linarith
    with that show thesis by blast
  qed
  then show ?thesis
  proof cases
    case 2
    with assms show ?thesis by (auto simp: utf8_head_def scalar_value_def cont_byte_offset split: if_splits list.splits)
  next
    case (3 x)
    with assms show ?thesis
      by (auto simp: utf8_head_def cont_byte_offset split: if_splits list.splits intro!: scalar_three)
  next
    case (4 w)
    with assms show ?thesis
      by (auto simp: utf8_head_def cont_byte_offset split: if_splits list.splits intro!: scalar_four)
  qed (use assms in \<open>auto simp: utf8_head_def scalar_value_def split: list.splits\<close>)
qed

lemma decode_with_scalar: "list_all scalar_value sub \<Longrightarrow> list_all scalar_value (utf8_decode_with sub bs)"
proof (induction sub bs rule: utf8_decode_with.induct)
  case (2 sub a bs)
  obtain k dec where h: "utf8_head a bs = (k, dec)" by fastforce
  have "list_all scalar_value (utf8_decode_with sub (drop (k - 1) bs))" using 2(1) [OF h [symmetric]] 2(2) by blast
  with 2(2) h show ?case by (auto dest: utf8_head_scalar split: option.split)
qed simp

subsection \<open>The writer\<close>

record log_writer =
  lw_max_bytes :: nat
  lw_main :: octets
  lw_backup :: "octets option"
  lw_size :: nat

definition NEWLINE :: nat where "NEWLINE = 10"

text \<open>Opening an existing log: what exceeds the limit is cut off at the start, up to the end of a line.\<close>

definition trim_existing :: "log_writer \<Rightarrow> log_writer" where
  "trim_existing w =
     (let tail = lastn (lw_max_bytes w) (lw_main w);
          kept = (case split_once NEWLINE tail of None \<Rightarrow> [] | Some (_, rest) \<Rightarrow> rest)
      in w\<lparr>lw_main := kept, lw_size := length kept\<rparr>)"

definition open_log :: "nat \<Rightarrow> octets \<Rightarrow> octets option \<Rightarrow> log_writer" where
  "open_log max_bytes existing backup =
     (let w = \<lparr>lw_max_bytes = max_bytes, lw_main = existing, lw_backup = backup, lw_size = length existing\<rparr>
      in if max_bytes < lw_size w then trim_existing w else w)"

definition rotate_log :: "log_writer \<Rightarrow> log_writer" where
  "rotate_log w = w\<lparr>lw_backup := Some (lw_main w), lw_main := [], lw_size := 0\<rparr>"

text \<open>The bytes of a line, cut to its last \<^verbatim>\<open>max_bytes\<close> bytes at a character boundary.\<close>

definition line_payload :: "nat \<Rightarrow> text_line \<Rightarrow> octets result" where
  "line_payload max_bytes line =
     bind_result (encode_text (line @ [NEWLINE])) (\<lambda>payload.
       if max_bytes < length payload then encode_text (decode_ignore (lastn max_bytes payload)) else Inr payload)"

text \<open>What the disk does with one write: where it raises, or that it does not.\<close>

datatype disk_answer = Disk_ok | Unlink_fails | Replace_fails | Reopen_fails | Write_fails nat

definition DISK_ERROR :: pyerr where "DISK_ERROR = OSError ''disk''"

text \<open>
  \<^verbatim>\<open>write_line\<close>: an encoding error raises before anything is done; a rotation can raise before the old
  backup is removed, after that, or after the log became the backup; and a write can leave a part of the line.
\<close>

definition write_line :: "disk_answer \<Rightarrow> text_line \<Rightarrow> log_writer \<Rightarrow> log_writer \<times> unit result" where
  "write_line d line w =
     (case line_payload (lw_max_bytes w) line of
        Inl e \<Rightarrow> (w, Inl e)
      | Inr payload \<Rightarrow>
          let rotating = (lw_size w \<noteq> 0 \<and> lw_max_bytes w < lw_size w + length payload);
              w1 = (if rotating then rotate_log w else w)
          in if rotating \<and> d = Unlink_fails then (w, Inl DISK_ERROR)
             else if rotating \<and> d = Replace_fails then (w\<lparr>lw_backup := None\<rparr>, Inl DISK_ERROR)
             else if rotating \<and> d = Reopen_fails then (w1, Inl DISK_ERROR)
             else case d of
               Write_fails k \<Rightarrow> (w1\<lparr>lw_main := lw_main w1 @ take k payload\<rparr>, Inl DISK_ERROR)
             | _ \<Rightarrow> (w1\<lparr>lw_main := lw_main w1 @ payload, lw_size := lw_size w1 + length payload\<rparr>, Inr ()))"

text \<open>\<^verbatim>\<open>line.decode("utf-8", errors="replace").rstrip()\<close> in \<^verbatim>\<open>_drain_output\<close>.\<close>

definition py_space :: "nat \<Rightarrow> bool" where
  "py_space c \<longleftrightarrow> 9 \<le> c \<and> c \<le> 13 \<or> 28 \<le> c \<and> c \<le> 32 \<or> c \<in> {133, 160, 5760} \<or> 8192 \<le> c \<and> c \<le> 8202 \<or>
     c \<in> {8232, 8233, 8239, 8287, 12288}"

definition drain_text :: "octets \<Rightarrow> text_line" where
  "drain_text line = rev (dropWhile py_space (rev (decode_replace line)))"

text \<open>
  \<^verbatim>\<open>stream.readline()\<close> on what the child still prints until its output ends: a line with its newline, the
  rest after the last newline, or nothing at the end. A line longer than the limit raises;
  the text of the error depends on how the output arrives and is not used.
\<close>

definition STREAM_LIMIT :: nat where "STREAM_LIMIT = 65536"

definition read_line :: "octets \<Rightarrow> (octets \<times> octets) result" where
  "read_line out =
     (case split_once NEWLINE out of
        Some (content, rest) \<Rightarrow>
          if STREAM_LIMIT < length content then Inl (ValueError ''Separator is found, but chunk is longer than limit'')
          else Inr (content @ [NEWLINE], rest)
      | None \<Rightarrow>
          if STREAM_LIMIT < length out then Inl (ValueError ''Separator is not found, and chunk exceed the limit'')
          else Inr (out, []))"

lemma read_line_shorter: "read_line out = Inr (line, rest) \<Longrightarrow> line \<noteq> [] \<Longrightarrow> length rest < length out"
  by (auto simp: read_line_def split: option.splits if_splits dest!: split_once_Some)

text \<open>
  The state of \<^verbatim>\<open>_drain_output\<close>: the window of recent lines, the files, and whether the writer is
  open. Its loop over the output of the child: the window always grows, and the first \<^verbatim>\<open>OSError\<close>
  closes the writer, but does not end the draining. The \<open>n\<close>-th write gets the \<open>n\<close>-th answer of the disk.
\<close>

record drain_state =
  ds_recent :: "text_line list"
  ds_log :: log_writer
  ds_open :: bool

definition drain_line :: "nat \<Rightarrow> disk_answer \<Rightarrow> octets \<Rightarrow> drain_state \<Rightarrow> drain_state \<times> unit result" where
  "drain_line window d line s =
     (let t = drain_text line; s1 = s\<lparr>ds_recent := lastn window (ds_recent s @ [t])\<rparr>
      in if \<not> ds_open s1 then (s1, Inr ())
         else case write_line d t (ds_log s1) of
           (w, Inr _) \<Rightarrow> (s1\<lparr>ds_log := w\<rparr>, Inr ())
         | (w, Inl (OSError _)) \<Rightarrow> (s1\<lparr>ds_log := w, ds_open := False\<rparr>, Inr ())
         | (w, Inl e) \<Rightarrow> (s1\<lparr>ds_log := w\<rparr>, Inl e))"

function drain_stream :: "nat \<Rightarrow> (nat \<Rightarrow> disk_answer) \<Rightarrow> octets \<Rightarrow> drain_state \<Rightarrow> drain_state \<times> unit result" where
  "drain_stream window disk out s =
     (case read_line out of
        Inl e \<Rightarrow> (s, Inl e)
      | Inr (line, rest) \<Rightarrow>
          if line = [] then (s, Inr ())
          else case drain_line window (disk 0) line s of
            (s1, Inl e) \<Rightarrow> (s1, Inl e)
          | (s1, Inr _) \<Rightarrow> drain_stream window (\<lambda>n. disk (Suc n)) rest s1)"
  by pat_completeness auto
termination by (relation "measure (\<lambda>(window, disk, out, s). length out)") (auto dest: read_line_shorter)

declare drain_stream.simps [simp del]

lemma drain_text_scalar: "list_all scalar_value (drain_text line)"
proof -
  have "list_all scalar_value (decode_replace line)"
    unfolding decode_replace_def by (rule decode_with_scalar) (simp add: scalar_value_def)
  then show ?thesis unfolding drain_text_def list_all_iff by (metis set_dropWhileD set_rev)
qed

subsection \<open>What a log keeps\<close>

lemma encoded_line_nonempty: "utf8_encode (line @ [NEWLINE]) = utf8_encode line @ [NEWLINE]"
  by (simp add: utf8_encode_code_def NEWLINE_def)

lemma cut_line:
  assumes "0 < max_bytes" and "list_all scalar_value line"
  obtains ys cs where "decode_ignore (lastn max_bytes (utf8_encode (line @ [NEWLINE]))) = cs"
    and "list_all scalar_value cs" and "utf8_encode (line @ [NEWLINE]) = ys @ utf8_encode cs"
    and "utf8_encode cs \<noteq> []" and "length (utf8_encode cs) \<le> max_bytes"
proof -
  let ?cs = "line @ [NEWLINE]" and ?e = "utf8_encode (line @ [NEWLINE])"
  define n where "n = length ?e - max_bytes"
  obtain bs cs' ds where t: "drop n ?e = bs @ utf8_encode cs'" "list_all cont_byte bs" "?cs = ds @ cs'"
    using encoded_tail [of n ?cs] by blast
  have all: "list_all scalar_value ?cs" using assms(2) by (simp add: scalar_value_def NEWLINE_def)
  then have sc: "list_all scalar_value cs'" using t(3) by simp
  have cut: "decode_ignore (lastn max_bytes ?e) = cs'"
    using t sc by (simp add: lastn_def n_def decode_ignore_skips) (simp add: decode_ignore_def decode_with_encode)
  have "n < length ?e" using assms(1) encoded_line_nonempty [of line] by (simp add: n_def)
  then have "drop n ?e \<noteq> []" "last (drop n ?e) = NEWLINE" by (simp_all add: encoded_line_nonempty del: utf8_encode_simps)
  then have "utf8_encode cs' \<noteq> []"
    using t by (cases "bs = []") (auto simp: NEWLINE_def cont_byte_def list_all_iff dest!: last_in_set)
  moreover have "length (utf8_encode cs') \<le> max_bytes"
  proof -
    have "length (bs @ utf8_encode cs') \<le> max_bytes" unfolding t(1) [symmetric] by (simp add: n_def)
    then show ?thesis by simp
  qed
  moreover have "?e = utf8_encode ds @ utf8_encode cs'" using t(3) by (metis utf8_encode_simps(3))
  ultimately show thesis using that cut sc by blast
qed

lemma line_payload_ok:
  assumes "0 < max_bytes" and "list_all scalar_value line"
  obtains p ys where "line_payload max_bytes line = Inr p" and "utf8_encode (line @ [NEWLINE]) = ys @ p"
    and "p \<noteq> []" and "length p \<le> max_bytes"
    and "length (utf8_encode (line @ [NEWLINE])) \<le> max_bytes \<longrightarrow> ys = []"
proof -
  let ?e = "utf8_encode (line @ [NEWLINE])"
  have enc: "encode_text (line @ [NEWLINE]) = Inr ?e"
    using assms(2) by (simp add: encode_text_def scalar_value_def NEWLINE_def)
  show thesis
  proof (cases "max_bytes < length ?e")
    case True
    obtain ys cs where c: "decode_ignore (lastn max_bytes ?e) = cs" "list_all scalar_value cs"
      "?e = ys @ utf8_encode cs" "utf8_encode cs \<noteq> []" "length (utf8_encode cs) \<le> max_bytes"
      using cut_line [OF assms] .
    then have "line_payload max_bytes line = Inr (utf8_encode cs)"
      unfolding line_payload_def enc bind_result_simps using True by (simp add: encode_text_def)
    with c True that show thesis by (metis linorder_not_less)
  next
    case False
    then have "line_payload max_bytes line = Inr ?e" unfolding line_payload_def enc by simp
    with False that [of ?e "[]"] show thesis by (simp add: encoded_line_nonempty del: utf8_encode_simps)
  qed
qed

definition log_kept :: "nat \<Rightarrow> octets option \<Rightarrow> octets \<Rightarrow> log_writer \<Rightarrow> bool" where
  "log_kept max_bytes backup written w \<longleftrightarrow>
     lw_max_bytes w = max_bytes \<and> lw_size w = length (lw_main w) \<and> length (lw_main w) \<le> max_bytes \<and>
     (lw_backup w = backup \<and> lw_main w = written \<or>
      (\<exists>b lost. lw_backup w = Some b \<and> length b \<le> max_bytes \<and> written = lost @ b @ lw_main w \<and>
         max_bytes < length b + length (lw_main w)))"

text \<open>What a write that raised leaves: still no more than the limit, and still the newest bytes.\<close>

definition log_left :: "nat \<Rightarrow> octets option \<Rightarrow> octets \<Rightarrow> log_writer \<Rightarrow> bool" where
  "log_left max_bytes backup written w \<longleftrightarrow> length (lw_main w) \<le> max_bytes \<and>
     (lw_backup w = backup \<and> lw_main w = written \<or>
      (\<exists>b lost. (lw_backup w = Some b \<or> lw_backup w = None \<and> b = []) \<and> length b \<le> max_bytes \<and> written = lost @ b @ lw_main w))"

lemma log_kept_write:
  assumes "log_kept max_bytes backup written w" and "line_payload max_bytes line = Inr p"
    and "p \<noteq> []" and "length p \<le> max_bytes"
  shows "case write_line d line w of
      (w', Inr _) \<Rightarrow> log_kept max_bytes backup (written @ p) w'
    | (w', Inl e) \<Rightarrow> d \<noteq> Disk_ok \<and> e = DISK_ERROR \<and> (\<exists>k. log_left max_bytes backup (written @ take k p) w')"
proof (cases "lw_size w \<noteq> 0 \<and> max_bytes < lw_size w + length p")
  case True
  have size: "lw_max_bytes w = max_bytes" using assms(1) by (simp add: log_kept_def)
  have wr: "write_line d line w = (case d of Disk_ok \<Rightarrow> ((rotate_log w)\<lparr>lw_main := p, lw_size := length p\<rparr>, Inr ())
      | Unlink_fails \<Rightarrow> (w, Inl DISK_ERROR) | Replace_fails \<Rightarrow> (w\<lparr>lw_backup := None\<rparr>, Inl DISK_ERROR)
      | Reopen_fails \<Rightarrow> (rotate_log w, Inl DISK_ERROR)
      | Write_fails k \<Rightarrow> ((rotate_log w)\<lparr>lw_main := take k p\<rparr>, Inl DISK_ERROR))"
    using True assms(2) size by (simp add: write_line_def Let_def rotate_log_def split: disk_answer.split)
  have none: "\<exists>k. log_left max_bytes backup (written @ take k p) w'" if "log_left max_bytes backup written w'" for w'
    using that by (intro exI [of _ 0]) simp
  have "log_left max_bytes backup written w" "log_left max_bytes backup written (w\<lparr>lw_backup := None\<rparr>)"
    "log_left max_bytes backup written (rotate_log w)"
    "log_left max_bytes backup (written @ take k p) ((rotate_log w)\<lparr>lw_main := take k p\<rparr>)" for k
    using assms(1,4) by (auto simp: log_left_def log_kept_def rotate_log_def)
  moreover have "log_kept max_bytes backup (written @ p) ((rotate_log w)\<lparr>lw_main := p, lw_size := length p\<rparr>)"
    using assms True by (auto simp: log_kept_def rotate_log_def)
  ultimately show ?thesis unfolding wr by (cases d) (auto intro: none)
next
  case False
  then have "length (lw_main w) + length p \<le> max_bytes" using assms(1,4) by (auto simp: log_kept_def)
  then have "log_left max_bytes backup (written @ take k p) (w\<lparr>lw_main := lw_main w @ take k p\<rparr>)"
    "log_kept max_bytes backup (written @ p) (w\<lparr>lw_main := lw_main w @ p, lw_size := lw_size w + length p\<rparr>)" for k
    using assms(1) by (auto simp: log_left_def log_kept_def)
  then show ?thesis using assms(1,2) False by (auto simp: write_line_def Let_def log_kept_def split: disk_answer.split)
qed

lemma split_once_length: "split_once sep xs = Some (a, b) \<Longrightarrow> length b < length xs"
  by (induction xs arbitrary: a b) (auto split: if_splits)

lemma log_kept_open: "log_kept max_bytes backup (lw_main (open_log max_bytes existing backup)) (open_log max_bytes existing backup)"
  by (auto simp: open_log_def trim_existing_def log_kept_def Let_def length_lastn dest!: split_once_length split: option.split)

lemma lastn_append_lastn: "lastn n (lastn n xs @ ys) = lastn n (xs @ ys)"
  by (cases "length xs \<le> n") (simp_all add: lastn_def add.commute)

subsection \<open>Draining the output of a child\<close>

text \<open>The lines of an output, each with its newline but for the last one, and the ones that can be read.\<close>

fun output_lines :: "octets \<Rightarrow> octets list" where
  "output_lines [] = []"
| "output_lines (c # cs) =
     (if c = NEWLINE then [c] # output_lines cs
      else case output_lines cs of [] \<Rightarrow> [[c]] | l # ls \<Rightarrow> (c # l) # ls)"

definition line_fits :: "octets \<Rightarrow> bool" where
  "line_fits line \<longleftrightarrow> length (takeWhile (\<lambda>c. c \<noteq> NEWLINE) line) \<le> STREAM_LIMIT"

lemma output_lines_split:
  "split_once NEWLINE out = None \<Longrightarrow> output_lines out = (if out = [] then [] else [out])"
  "split_once NEWLINE out = Some (a, b) \<Longrightarrow> output_lines out = (a @ [NEWLINE]) # output_lines b"
  by (induction out arbitrary: a b) (auto split: if_splits list.splits)

lemma concat_output_lines: "concat (output_lines out) = out"
  by (induction out) (auto split: list.split)

lemma takeWhile_no_newline: "NEWLINE \<notin> set a \<Longrightarrow> takeWhile (\<lambda>c. c \<noteq> NEWLINE) (a @ [NEWLINE]) = a"
  "NEWLINE \<notin> set a \<Longrightarrow> takeWhile (\<lambda>c. c \<noteq> NEWLINE) a = a"
  by (induction a) auto

lemma split_once_None: "split_once sep xs = None \<Longrightarrow> sep \<notin> set xs"
  by (induction xs) (auto split: if_splits)

lemma read_line_output:
  "case output_lines out of
     [] \<Rightarrow> read_line out = Inr ([], [])
   | l # ls \<Rightarrow> l \<noteq> [] \<and> (if line_fits l then \<exists>rest. read_line out = Inr (l, rest) \<and> output_lines rest = ls
       else \<exists>e. read_line out = Inl (ValueError e))"
proof (cases "split_once NEWLINE out")
  case None
  note none = output_lines_split(1) [OF None] split_once_None [OF None]
  then show ?thesis using None by (auto simp: read_line_def line_fits_def takeWhile_no_newline(2) STREAM_LIMIT_def)
next
  case (Some ab)
  obtain a b where ab: "split_once NEWLINE out = Some (a, b)" using Some by (cases ab) auto
  then show ?thesis using output_lines_split(2) [OF ab] split_once_Some [OF ab]
    by (auto simp: read_line_def line_fits_def takeWhile_no_newline(1))
qed

text \<open>What the draining of the first lines of an output gives, their texts being \<open>ts\<close>.\<close>

definition drained :: "nat \<Rightarrow> octets option \<Rightarrow> octets \<Rightarrow> (nat \<Rightarrow> disk_answer) \<Rightarrow> text_line list \<Rightarrow> drain_state \<Rightarrow> bool" where
  "drained max_bytes backup written disk ts s \<longleftrightarrow> (\<exists>ps.
     if ds_open s then map (line_payload max_bytes) ts = map Inr ps \<and> log_kept max_bytes backup (written @ concat ps) (ds_log s)
     else \<exists>k p j. k < length ts \<and> disk k \<noteq> Disk_ok \<and> map (line_payload max_bytes) (take k ts) = map Inr ps \<and>
       line_payload max_bytes (ts ! k) = Inr p \<and> log_left max_bytes backup (written @ concat ps @ take j p) (ds_log s))"

lemma drained_refused:
  "\<not> ds_open s \<Longrightarrow> k < length ts \<Longrightarrow> disk k \<noteq> Disk_ok \<Longrightarrow> map (line_payload max_bytes) (take k ts) = map Inr ps \<Longrightarrow>
   line_payload max_bytes (ts ! k) = Inr p \<Longrightarrow> log_left max_bytes backup (written @ concat ps @ take j p) (ds_log s) \<Longrightarrow>
   drained max_bytes backup written disk ts s"
  unfolding drained_def by auto

lemma drained_Cons:
  assumes "drained max_bytes backup (written @ p) (\<lambda>n. disk (Suc n)) ts s" and "line_payload max_bytes t = Inr p"
  shows "drained max_bytes backup written disk (t # ts) s"
proof (cases "ds_open s")
  case True
  with assms(1) obtain ps where "map (line_payload max_bytes) ts = map Inr ps"
    "log_kept max_bytes backup (written @ p @ concat ps) (ds_log s)" unfolding drained_def by auto
  with assms(2) True show ?thesis unfolding drained_def by (intro exI [of _ "p # ps"]) simp
next
  case False
  with assms(1) obtain ps k q j where "k < length ts" "disk (Suc k) \<noteq> Disk_ok"
    "map (line_payload max_bytes) (take k ts) = map Inr ps" "line_payload max_bytes (ts ! k) = Inr q"
    "log_left max_bytes backup ((written @ p) @ concat ps @ take j q) (ds_log s)" unfolding drained_def by auto
  with assms(2) False show ?thesis
    by (intro drained_refused [where k = "Suc k" and ps = "p # ps" and p = q and j = j]) simp_all
qed

lemma drain_line_open:
  assumes "0 < max_bytes" and "ds_open s" and "log_kept max_bytes backup written (ds_log s)"
  obtains s1 p where "drain_line window d line s = (s1, Inr ())" and "ds_recent s1 = lastn window (ds_recent s @ [drain_text line])"
    and "line_payload max_bytes (drain_text line) = Inr p"
    and "if ds_open s1 then log_kept max_bytes backup (written @ p) (ds_log s1)
      else d \<noteq> Disk_ok \<and> (\<exists>j. log_left max_bytes backup (written @ take j p) (ds_log s1))"
proof -
  obtain p where p: "line_payload max_bytes (drain_text line) = Inr p" "p \<noteq> []" "length p \<le> max_bytes"
    using line_payload_ok [OF assms(1) drain_text_scalar] by metis
  obtain w r where w: "write_line d (drain_text line) (ds_log s) = (w, r)" by fastforce
  note wr = log_kept_write [OF assms(3) p, of d, unfolded w]
  let ?s1 = "s\<lparr>ds_recent := lastn window (ds_recent s @ [drain_text line]), ds_log := w, ds_open := isOk r\<rparr>"
  have "drain_line window d line s = (?s1, Inr ())" using wr assms(2) w
    by (cases r) (auto simp: drain_line_def Let_def DISK_ERROR_def)
  with wr p(1) show thesis by (intro that [of ?s1 p]) (auto split: sum.splits)
qed

text \<open>One line more, whether the writer is still open after it or not.\<close>

lemma drained_line:
  assumes "line_payload max_bytes t = Inr p"
    and "if ds_open s1 then log_kept max_bytes backup (written @ p) (ds_log s1)
      else disk 0 \<noteq> Disk_ok \<and> (\<exists>j. log_left max_bytes backup (written @ take j p) (ds_log s1))"
    and "if ds_open s1 then drained max_bytes backup (written @ p) (\<lambda>n. disk (Suc n)) ts s'
      else \<not> ds_open s' \<and> ds_log s' = ds_log s1"
  shows "drained max_bytes backup written disk (t # ts) s'"
proof (cases "ds_open s1")
  case True
  with assms show ?thesis by (intro drained_Cons) simp_all
next
  case False
  with assms(2) obtain j where "log_left max_bytes backup (written @ take j p) (ds_log s1)" "disk 0 \<noteq> Disk_ok" by auto
  with assms(1,3) False show ?thesis
    by (intro drained_refused [where k = 0 and ps = "[]" and p = p and j = j]) simp_all
qed

lemma drain_stream_result:
  assumes "0 < max_bytes"
  shows "ds_recent s = lastn window old \<Longrightarrow> (ds_open s \<Longrightarrow> log_kept max_bytes backup written (ds_log s)) \<Longrightarrow>
    ds_recent (fst (drain_stream window disk out s)) =
      lastn window (old @ map drain_text (takeWhile line_fits (output_lines out))) \<and>
    (if list_all line_fits (output_lines out) then snd (drain_stream window disk out s) = Inr ()
     else \<exists>e. snd (drain_stream window disk out s) = Inl (ValueError e)) \<and>
    (if ds_open s
     then drained max_bytes backup written disk (map drain_text (takeWhile line_fits (output_lines out)))
       (fst (drain_stream window disk out s))
     else \<not> ds_open (fst (drain_stream window disk out s)) \<and> ds_log (fst (drain_stream window disk out s)) = ds_log s)"
proof (induction "output_lines out" arbitrary: out s old written disk)
  case Nil
  then have "read_line out = Inr ([], [])" using read_line_output [of out] by simp
  then show ?case using Nil by (auto simp: drain_stream.simps [of window disk out] drained_def intro!: exI [of _ "[]"])
next
  case (Cons l ls)
  have lines: "output_lines out = l # ls" using Cons.hyps(2) by simp
  show ?case
  proof (cases "line_fits l")
    case False
    then obtain e where "read_line out = Inl (ValueError e)" using read_line_output [of out] lines by auto
    then show ?thesis using Cons.prems False lines
      by (auto simp: drain_stream.simps [of window disk out] drained_def intro!: exI [of _ "[]"])
  next
    case True
    then obtain rest where rd: "read_line out = Inr (l, rest)" "ls = output_lines rest" and ne: "l \<noteq> []"
      using read_line_output [of out] lines by auto
    let ?disk = "\<lambda>n. disk (Suc n)"
    show ?thesis
    proof (cases "ds_open s")
      case False
      let ?s1 = "s\<lparr>ds_recent := lastn window (ds_recent s @ [drain_text l])\<rparr>"
      have step: "drain_stream window disk out s = drain_stream window ?disk rest ?s1"
        using rd ne False by (simp add: drain_stream.simps [of window disk out] drain_line_def Let_def)
      have "ds_recent ?s1 = lastn window (old @ [drain_text l])" using Cons.prems(1) by (simp add: lastn_append_lastn)
      from Cons.hyps(1) [OF rd(2) this, of written ?disk] False show ?thesis unfolding step lines using True rd(2) by simp
    next
      case op: True
      obtain s1 p where s1: "drain_line window (disk 0) l s = (s1, Inr ())" "ds_recent s1 = lastn window (ds_recent s @ [drain_text l])"
        "line_payload max_bytes (drain_text l) = Inr p"
        "if ds_open s1 then log_kept max_bytes backup (written @ p) (ds_log s1)
         else disk 0 \<noteq> Disk_ok \<and> (\<exists>j. log_left max_bytes backup (written @ take j p) (ds_log s1))"
        using drain_line_open [OF assms op Cons.prems(2) [OF op]] by blast
      have step: "drain_stream window disk out s = drain_stream window ?disk rest s1"
        using rd ne s1(1) by (simp add: drain_stream.simps [of window disk out])
      have "ds_recent s1 = lastn window (old @ [drain_text l])" using Cons.prems(1) s1(2) by (simp add: lastn_append_lastn)
      note IH = Cons.hyps(1) [OF rd(2) this, of "written @ p" ?disk]
      then have "if ds_open s1 then log_kept max_bytes backup (written @ p) (ds_log s1) else True" using s1(4) by simp
      with IH have "if ds_open s1 then drained max_bytes backup (written @ p) ?disk (map drain_text (takeWhile line_fits ls))
          (fst (drain_stream window ?disk rest s1))
        else \<not> ds_open (fst (drain_stream window ?disk rest s1)) \<and> ds_log (fst (drain_stream window ?disk rest s1)) = ds_log s1"
        unfolding rd(2) by (cases "ds_open s1") simp_all
      from drained_line [OF s1(3,4) this] show ?thesis unfolding step lines
        using IH s1(4) \<open>line_fits l\<close> rd(2) op by (cases "ds_open s1") (simp_all del: map_append)
    qed
  qed
qed



end
