(* ===== verification/Processes.thy ===== *)
theory Processes
  imports Log_Files Scenario Framing "HOL-Library.Char_ord" "HOL-Library.List_Lexorder"
begin

text \<open>
  The firmware child processes, \<^verbatim>\<open>NativeProcessSupervisor\<close> in
  \<^verbatim>\<open>src/backend/app/runtime/processes.py\<close>. A definition is a stretch of code between two
  suspension points; what the operating system decides (a created process, an exit code, a line of
  output) is an argument. A path is the list of its components. The asyncio tasks of a record are the
  set of those that have not ended; calls of the failure handler are recorded in order in
  \<open>sp_reports\<close>. SHA-256 is the argument \<open>sha256\<close>.
\<close>

subsection \<open>Data\<close>

type_synonym path = "string list"

datatype process_state = P_STOPPED | P_STARTING | P_RUNNING | P_STOPPING | P_FAILED
datatype record_task = Task_stdout | Task_stderr | Task_exit

record child =
  pc_pid :: int
  pc_returncode :: "int option"

record process_record =
  pr_node_id :: string
  pr_hardware_id :: int
  pr_internal_port :: int
  pr_data_directory :: path
  pr_stdout_path :: path
  pr_stderr_path :: path
  pr_state :: process_state
  pr_process :: "child option"
  pr_stdout_lines :: "text_line list"
  pr_stderr_lines :: "text_line list"
  pr_tasks :: "record_task set"

definition pid :: "process_record \<Rightarrow> int option" where
  "pid r = map_option pc_pid (pr_process r)"

record archived_logs =
  al_stdout_lines :: "text_line list"
  al_stderr_lines :: "text_line list"

record supervisor =
  sp_binary_path :: path
  sp_data_root :: path
  sp_internal_port_base :: int
  sp_log_max_bytes :: int
  sp_has_failure_handler :: bool
  sp_records :: "(string, process_record) dict"
  sp_archived_logs :: "(string, archived_logs) dict"
  sp_stopping :: bool
  sp_reports :: "(string \<times> int) list"

definition new_supervisor :: "path \<Rightarrow> path \<Rightarrow> int \<Rightarrow> int \<Rightarrow> bool \<Rightarrow> supervisor result" where
  "new_supervisor binary nodes_root base log_max_bytes handler =
     (if log_max_bytes \<le> 0 then Inl (ValueError ''log_max_bytes must be positive'')
      else Inr \<lparr>sp_binary_path = binary, sp_data_root = nodes_root, sp_internal_port_base = base,
             sp_log_max_bytes = log_max_bytes, sp_has_failure_handler = handler, sp_records = [],
             sp_archived_logs = [], sp_stopping = False, sp_reports = []\<rparr>)"

subsection \<open>Hardware ids\<close>

definition hardware_id_candidate :: "(octets \<Rightarrow> bytes) \<Rightarrow> string \<Rightarrow> nat \<Rightarrow> nat" where
  "hardware_id_candidate sha256 node_id salt =
     from_bytes_big (take 4 (sha256 (utf8_encode (codes (''meshtastic-lab:'' @ node_id @ '':'' @ show_nat salt)))))"

definition hardware_id_free :: "nat set \<Rightarrow> nat \<Rightarrow> bool" where
  "hardware_id_free used h \<longleftrightarrow> h \<notin> {0, 0xFFFFFFFF} \<and> h \<notin> used"

partial_function (option) draw_hardware_id :: "(octets \<Rightarrow> bytes) \<Rightarrow> nat set \<Rightarrow> string \<Rightarrow> nat \<Rightarrow> nat option" where
  "draw_hardware_id sha256 used node_id salt =
     (let h = hardware_id_candidate sha256 node_id salt
      in if hardware_id_free used h then Some h else draw_hardware_id sha256 used node_id (salt + 1))"

declare draw_hardware_id.simps [code]

fun draw_hardware_ids :: "(octets \<Rightarrow> bytes) \<Rightarrow> string list \<Rightarrow> nat set \<Rightarrow> (string, nat) dict \<Rightarrow> (string, nat) dict option" where
  "draw_hardware_ids sha256 [] used hardware_ids = Some hardware_ids"
| "draw_hardware_ids sha256 (node_id # rest) used hardware_ids =
     Option.bind (draw_hardware_id sha256 used node_id 0)
       (\<lambda>h. draw_hardware_ids sha256 rest (insert h used) (dict_set node_id h hardware_ids))"

definition hardware_ids_for :: "(octets \<Rightarrow> bytes) \<Rightarrow> string list \<Rightarrow> (string, nat) dict option" where
  "hardware_ids_for sha256 node_ids = draw_hardware_ids sha256 (sort node_ids) {} []"

subsection \<open>Starting\<close>

definition record_for :: "supervisor \<Rightarrow> string \<Rightarrow> nat \<Rightarrow> nat \<Rightarrow> process_record" where
  "record_for s node_id index hardware_id =
     (let node_root = sp_data_root s @ [node_id]
      in \<lparr>pr_node_id = node_id, pr_hardware_id = int hardware_id,
          pr_internal_port = sp_internal_port_base s + int index,
          pr_data_directory = node_root @ [''state''], pr_stdout_path = node_root @ [''stdout.log''],
          pr_stderr_path = node_root @ [''stderr.log''], pr_state = P_STOPPED, pr_process = None,
          pr_stdout_lines = [], pr_stderr_lines = [], pr_tasks = {}\<rparr>)"

definition path_text :: "path \<Rightarrow> string" where
  "path_text p = ''/'' @ join ''/'' p"

definition start_command :: "supervisor \<Rightarrow> process_record \<Rightarrow> bool \<Rightarrow> string list" where
  "start_command s r erase =
     path_text (sp_binary_path s) # (if erase then [''--erase''] else []) @
       [''--sim'', ''--fsdir'', path_text (pr_data_directory r), ''--hwid'', show_int (pr_hardware_id r),
        ''--port'', show_int (pr_internal_port r)]"

text \<open>
  What the operating system answers to \<^verbatim>\<open>_start_one\<close>: the directories cannot be prepared,
  the process cannot be created, or it has a process id and perhaps no pipes.
\<close>

datatype spawn = Prepare_raises pyerr | Spawn_raises pyerr | Spawned int bool

definition start_one :: "spawn \<Rightarrow> process_record \<Rightarrow> process_record \<times> unit result" where
  "start_one answer r =
     (case answer of
        Prepare_raises e \<Rightarrow> (r, Inl e)
      | Spawn_raises e \<Rightarrow> (r\<lparr>pr_state := P_STARTING\<rparr>, Inl e)
      | Spawned p pipes \<Rightarrow>
          let r1 = r\<lparr>pr_state := P_STARTING, pr_process := Some \<lparr>pc_pid = p, pc_returncode = None\<rparr>\<rparr>
          in if \<not> pipes then (r1, Inl (RuntimeError (''failed to capture output for '' @ pr_node_id r)))
             else (r1\<lparr>pr_state := P_RUNNING, pr_tasks := {Task_stdout, Task_stderr, Task_exit}\<rparr>, Inr ()))"

text \<open>One turn of the loop over the nodes.\<close>

definition start_node :: "spawn \<Rightarrow> string \<times> nat \<times> nat \<Rightarrow> supervisor \<Rightarrow> supervisor \<times> unit result" where
  "start_node answer job s =
     (case job of (node_id, index, hardware_id) \<Rightarrow>
        let (r, outcome) = start_one answer (record_for s node_id index hardware_id)
        in (s\<lparr>sp_records := dict_set node_id r (sp_records s)\<rparr>, outcome))"

definition clear_archived_logs :: "supervisor \<Rightarrow> supervisor" where
  "clear_archived_logs s = s\<lparr>sp_archived_logs := []\<rparr>"

text \<open>The checks before the loop; the jobs are the nodes with their indices and hardware ids.\<close>

definition start_check :: "bool \<Rightarrow> supervisor \<Rightarrow> supervisor \<times> unit result" where
  "start_check binary_exists s =
     (if sp_records s \<noteq> [] then (s, Inl (RuntimeError ''firmware processes are already allocated''))
      else let s1 = clear_archived_logs s
           in if \<not> binary_exists
              then (s1, Inl (FileNotFoundError (''native firmware binary not found: '' @ path_text (sp_binary_path s))))
              else (s1\<lparr>sp_stopping := False\<rparr>, Inr ()))"

definition start_jobs :: "(string, nat) dict \<Rightarrow> scenario \<Rightarrow> (string \<times> nat \<times> nat) list" where
  "start_jobs hardware_ids sc =
     map (\<lambda>(index, node). (sn_id node, index, the (dict_get hardware_ids (sn_id node)))) (List.enumerate 0 (sc_nodes sc))"

subsection \<open>Stopping\<close>

definition alive :: "process_record \<Rightarrow> bool" where
  "alive r \<longleftrightarrow> (\<exists>c. pr_process r = Some c \<and> pc_returncode c = None)"

definition map_records :: "(process_record \<Rightarrow> process_record) \<Rightarrow> supervisor \<Rightarrow> supervisor" where
  "map_records f s = s\<lparr>sp_records := map (\<lambda>(n, r). (n, f r)) (sp_records s)\<rparr>"

definition stop_begin_processes :: "supervisor \<Rightarrow> supervisor" where
  "stop_begin_processes s =
     (if sp_records s = [] then s
      else map_records (\<lambda>r. if alive r then r\<lparr>pr_state := P_STOPPING\<rparr> else r) (s\<lparr>sp_stopping := True\<rparr>))"

text \<open>After every process has returned: the tasks have ended or are cancelled, and the logs are archived.\<close>

definition stopped_record :: "process_record \<Rightarrow> process_record" where
  "stopped_record r = r\<lparr>pr_tasks := {}, pr_state := (if pr_state r \<noteq> P_FAILED then P_STOPPED else P_FAILED)\<rparr>"

fun archive_records :: "(string \<times> process_record) list \<Rightarrow> (string, archived_logs) dict \<Rightarrow> (string, archived_logs) dict" where
  "archive_records [] logs = logs"
| "archive_records ((_, r) # rest) logs =
     archive_records rest (dict_set (pr_node_id r)
       \<lparr>al_stdout_lines = pr_stdout_lines r, al_stderr_lines = pr_stderr_lines r\<rparr> logs)"

definition stop_end_processes :: "supervisor \<Rightarrow> supervisor" where
  "stop_end_processes s =
     (if sp_records s = [] then s
      else s\<lparr>sp_archived_logs := archive_records (sp_records (map_records stopped_record s)) (sp_archived_logs s),
             sp_records := [], sp_stopping := False\<rparr>)"

subsection \<open>Events of a child\<close>

definition map_record :: "string \<Rightarrow> (process_record \<Rightarrow> process_record) \<Rightarrow> supervisor \<Rightarrow> supervisor" where
  "map_record node_id f s =
     (case dict_get (sp_records s) node_id of
        None \<Rightarrow> s
      | Some r \<Rightarrow> s\<lparr>sp_records := dict_set node_id (f r) (sp_records s)\<rparr>)"

definition child_exits :: "int \<Rightarrow> process_record \<Rightarrow> process_record" where
  "child_exits code r = r\<lparr>pr_process := map_option (\<lambda>c. c\<lparr>pc_returncode := Some code\<rparr>) (pr_process r)\<rparr>"

text \<open>\<^verbatim>\<open>_monitor_exit\<close> after the child has returned.\<close>

definition monitor_exit :: "string \<Rightarrow> int \<Rightarrow> supervisor \<Rightarrow> supervisor" where
  "monitor_exit node_id code s =
     (if sp_stopping s then map_record node_id (\<lambda>r. r\<lparr>pr_tasks := pr_tasks r - {Task_exit}\<rparr>) s
      else let s1 = map_record node_id (\<lambda>r. r\<lparr>pr_tasks := pr_tasks r - {Task_exit}, pr_state := P_FAILED\<rparr>) s
           in if sp_has_failure_handler s then s1\<lparr>sp_reports := sp_reports s1 @ [(node_id, code)]\<rparr> else s1)"

definition RECENT_LINES :: nat where "RECENT_LINES = 250"

text \<open>One turn of \<^verbatim>\<open>_drain_output\<close> with a line that the child printed.\<close>

definition drain_output :: "bool \<Rightarrow> octets \<Rightarrow> process_record \<Rightarrow> process_record" where
  "drain_output is_stderr line r =
     (if is_stderr then r\<lparr>pr_stderr_lines := push_bounded RECENT_LINES (drain_text line) (pr_stderr_lines r)\<rparr>
      else r\<lparr>pr_stdout_lines := push_bounded RECENT_LINES (drain_text line) (pr_stdout_lines r)\<rparr>)"

subsection \<open>Queries\<close>

text \<open>The slice \<^verbatim>\<open>lines[-limit:]\<close>; for a limit of zero it is the whole list.\<close>

definition py_last :: "int \<Rightarrow> 'a list \<Rightarrow> 'a list" where
  "py_last limit xs = (if 0 < limit then lastn (nat limit) xs else drop (nat (- limit)) xs)"

definition recent_logs :: "string \<Rightarrow> string \<Rightarrow> int \<Rightarrow> supervisor \<Rightarrow> text_line list result" where
  "recent_logs node_id stream limit s =
     (case dict_get (sp_records s) node_id of
        Some r \<Rightarrow> Inr (py_last limit (if stream = ''stderr'' then pr_stderr_lines r else pr_stdout_lines r))
      | None \<Rightarrow>
          (case dict_get (sp_archived_logs s) node_id of
             None \<Rightarrow> Inl (KeyError node_id)
           | Some a \<Rightarrow> Inr (py_last limit (if stream = ''stderr'' then al_stderr_lines a else al_stdout_lines a))))"

definition has_logs :: "string \<Rightarrow> supervisor \<Rightarrow> bool" where
  "has_logs node_id s \<longleftrightarrow> dict_get (sp_records s) node_id \<noteq> None \<or> dict_get (sp_archived_logs s) node_id \<noteq> None"

end
