(* ===== verification/Processes_Laws.thy ===== *)
theory Processes_Laws
  imports Processes "HOL-Library.Multiset"
begin

text \<open>
  Laws of the process supervisor: the hardware ids that it hands out, the logs across a stop,
  and the step relation of starts, stops, child exits and output lines with the invariant that
  no child process is left without its record and its exit monitor.
\<close>

subsection \<open>Hardware ids\<close>

lemma from_bytes_big_snoc: "from_bytes_big (bs @ [b]) = 256 * from_bytes_big bs + unat b"
  by (simp add: from_bytes_big_def)

lemma from_bytes_big_bound: "from_bytes_big bs < 256 ^ length bs"
proof (induction bs rule: rev_induct)
  case Nil
  show ?case by (simp add: from_bytes_big_def)
next
  case (snoc b bs)
  with unat_byte_less [of b] show ?case by (simp add: from_bytes_big_snoc)
qed

lemma hardware_id_bound: "hardware_id_candidate sha256 node_id salt < 2 ^ 32"
proof -
  let ?bs = "take 4 (sha256 (utf8_encode (codes (''meshtastic-lab:'' @ node_id @ '':'' @ show_nat salt))))"
  have "from_bytes_big ?bs < 256 ^ length ?bs" by (rule from_bytes_big_bound)
  also have "\<dots> \<le> 256 ^ 4" by (rule power_increasing) simp_all
  finally show ?thesis by (simp add: hardware_id_candidate_def)
qed

lemma draw_hardware_id_Some:
  assumes "draw_hardware_id sha256 used node_id salt = Some h"
  shows "hardware_id_free used h \<and> h < 2 ^ 32"
proof -
  have "\<exists>n. h = hardware_id_candidate sha256 node_id n \<and> hardware_id_free used h"
    using assms
  proof (rule draw_hardware_id.raw_induct
      [where P = "\<lambda>sha256 used node_id salt h. \<exists>n. h = hardware_id_candidate sha256 node_id n \<and> hardware_id_free used h",
       rotated], goal_cases)
    case (1 draw sha256 used node_id salt h)
    then show ?case by (auto simp: Let_def split: if_splits)
  qed
  with hardware_id_bound show ?thesis by blast
qed

lemma draw_hardware_id_returns:
  "hardware_id_free used (hardware_id_candidate sha256 node_id (salt + n)) \<Longrightarrow>
   draw_hardware_id sha256 used node_id salt \<noteq> None"
proof (induction n arbitrary: salt)
  case 0
  then show ?case by (subst draw_hardware_id.simps) (simp add: Let_def)
next
  case (Suc n)
  then have "draw_hardware_id sha256 used node_id (salt + 1) \<noteq> None" by simp
  then show ?case by (subst draw_hardware_id.simps) (simp add: Let_def)
qed

lemma draw_hardware_ids_Some:
  "draw_hardware_ids sha256 ids used d = Some hw \<Longrightarrow> distinct (dict_keys d @ ids) \<Longrightarrow> snd ` set d = used \<Longrightarrow>
   distinct (map snd d) \<Longrightarrow> \<forall>h \<in> used. hardware_id_free {} h \<and> h < 2 ^ 32 \<Longrightarrow>
   dict_keys hw = dict_keys d @ ids \<and> distinct (map snd hw) \<and> (\<forall>h \<in> snd ` set hw. hardware_id_free {} h \<and> h < 2 ^ 32)"
proof (induction sha256 ids used d rule: draw_hardware_ids.induct)
  case (2 sha256 n ids used d)
  then obtain h where h: "draw_hardware_id sha256 used n 0 = Some h"
    "draw_hardware_ids sha256 ids (insert h used) (dict_set n h d) = Some hw"
    by (auto simp: bind_eq_Some_conv)
  from h(1) have ok: "hardware_id_free used h" "h < 2 ^ 32" using draw_hardware_id_Some by blast+
  have "dict_set n h d = d @ [(n, h)]" using 2(3) by (intro dict_set_fresh) auto
  moreover have "h \<notin> set (map snd d)" using ok(1) 2(4) by (auto simp: hardware_id_free_def)
  moreover have "\<forall>k \<in> insert h used. hardware_id_free {} k \<and> k < 2 ^ 32"
    using 2(6) ok by (simp add: hardware_id_free_def)
  ultimately show ?case using 2(1) [OF h] 2(3-5) by simp
qed auto

text \<open>
  The hardware ids that the supervisor derives are in the range of node numbers, never zero
  or the broadcast address, distinct for distinct nodes, and do not depend on the order in which the
  scenario lists its nodes.
\<close>

theorem hardware_ids_distinct:
  assumes "distinct node_ids" and "hardware_ids_for sha256 node_ids = Some hw"
  shows "dict_keys hw = sort node_ids \<and> distinct (map snd hw) \<and>
    (\<forall>h \<in> snd ` set hw. 0 < h \<and> h < 0xFFFFFFFF) \<and>
    (\<forall>other. mset other = mset node_ids \<longrightarrow> hardware_ids_for sha256 other = Some hw)"
proof -
  have "dict_keys hw = sort node_ids \<and> distinct (map snd hw) \<and>
      (\<forall>h \<in> snd ` set hw. hardware_id_free {} h \<and> h < 2 ^ 32)"
    using draw_hardware_ids_Some [where ids = "sort node_ids" and d = "[]" and used = "{}"] assms
    unfolding hardware_ids_for_def by simp
  moreover have "sort other = sort node_ids" if "mset other = mset node_ids" for other
    using that by (metis mset_sort properties_for_sort sorted_sort)
  moreover have "hardware_ids_for sha256 other = Some hw" if "mset other = mset node_ids" for other
    using assms(2) calculation(2) [OF that] by (simp only: hardware_ids_for_def)
  moreover have "0 < h \<and> h < 0xFFFFFFFF" if "hardware_id_free {} h" "h < 2 ^ 32" for h
    using that by (simp add: hardware_id_free_def)
  ultimately show ?thesis by blast
qed

lemma fresh_hardware_id:
  assumes "finite used" and "card used + 2 < card (hardware_id_candidate sha256 node_id ` {..<k})"
  shows "draw_hardware_id sha256 used node_id 0 \<noteq> None"
proof -
  have "\<not> hardware_id_candidate sha256 node_id ` {..<k} \<subseteq> used \<union> {0, 0xFFFFFFFF}"
  proof
    assume "hardware_id_candidate sha256 node_id ` {..<k} \<subseteq> used \<union> {0, 0xFFFFFFFF}"
    then have "card (hardware_id_candidate sha256 node_id ` {..<k}) \<le> card (used \<union> {0, 0xFFFFFFFF})"
      using assms(1) by (intro card_mono) simp_all
    also have "\<dots> \<le> card used + 2" by (rule order_trans [OF card_Un_le]) simp
    finally show False using assms(2) by simp
  qed
  then obtain n where "hardware_id_free used (hardware_id_candidate sha256 node_id n)"
    by (auto simp: hardware_id_free_def)
  then show ?thesis using draw_hardware_id_returns [of used sha256 node_id 0 n] by simp
qed

lemma draw_hardware_ids_returns:
  "finite used \<Longrightarrow> \<forall>n \<in> set ids. \<exists>k. card used + length ids + 2 \<le> card (hardware_id_candidate sha256 n ` {..<k}) \<Longrightarrow>
   draw_hardware_ids sha256 ids used d \<noteq> None"
proof (induction sha256 ids used d rule: draw_hardware_ids.induct)
  case (2 sha256 n ids used d)
  then obtain k where "card used + length (n # ids) + 2 \<le> card (hardware_id_candidate sha256 n ` {..<k})" by auto
  then have "card used + 2 < card (hardware_id_candidate sha256 n ` {..<k})" by simp
  then obtain h where h: "draw_hardware_id sha256 used n 0 = Some h" using fresh_hardware_id [OF 2(2)] by blast
  then have "h \<notin> used" using draw_hardware_id_Some by (auto simp: hardware_id_free_def)
  with 2(2,3) have "\<forall>m \<in> set ids. \<exists>k. card (insert h used) + length ids + 2 \<le> card (hardware_id_candidate sha256 m ` {..<k})"
    by simp
  with 2(1,2) h show ?case by simp
qed simp

text \<open>
  The search for hardware ids ends: it returns whenever the digests of every node take at
  least two values more than there are nodes.
\<close>

theorem hardware_ids_return:
  assumes "\<forall>n \<in> set node_ids. \<exists>k. length node_ids + 2 \<le> card (hardware_id_candidate sha256 n ` {..<k})"
  shows "\<exists>hw. hardware_ids_for sha256 node_ids = Some hw"
  using draw_hardware_ids_returns [of "{}" "sort node_ids" sha256 "[]"] assms by (simp add: hardware_ids_for_def)

text \<open>A hash for the examples: the last four bytes of the message.\<close>

definition toy_sha256 :: "octets \<Rightarrow> bytes" where
  "toy_sha256 m = map of_nat (lastn 4 m)"

lemma toy_candidates: "map (hardware_id_candidate toy_sha256 ''a'') [0, 1, 2, 3] = [979450416, 979450417, 979450418, 979450419]"
  "map (hardware_id_candidate toy_sha256 ''b'') [0, 1, 2, 3] = [979515952, 979515953, 979515954, 979515955]"
  by (simp_all add: hardware_id_candidate_def toy_sha256_def codes_def utf8_encode_def utf8_encode_code_def show_nat_def
      show_nat_codes.simps lastn_def from_bytes_big_def)

theorem hardware_ids_distinct_witness:
  "\<exists>hw. hardware_ids_for toy_sha256 [''b'', ''a''] = Some hw \<and>
    dict_keys hw = sort [''b'', ''a''] \<and> distinct (map snd hw) \<and>
    (\<forall>h \<in> snd ` set hw. 0 < h \<and> h < 0xFFFFFFFF) \<and>
    (\<forall>other. mset other = mset [''b'', ''a''] \<longrightarrow> hardware_ids_for toy_sha256 other = Some hw)"
proof -
  have s: "sort [''b'', ''a''] = [''a'', ''b'']" by simp
  have "hardware_ids_for toy_sha256 [''b'', ''a''] = Some [(''a'', 979450416), (''b'', 979515952)]"
    unfolding hardware_ids_for_def s using toy_candidates
    by (simp add: draw_hardware_id.simps [of _ _ _ 0] hardware_id_free_def)
  moreover have "distinct [''b'', ''a'']" by simp
  ultimately show ?thesis using hardware_ids_distinct by blast
qed

theorem hardware_ids_return_witness:
  "\<exists>hw. hardware_ids_for toy_sha256 [''b'', ''a''] = Some hw"
proof (rule hardware_ids_return)
  have "card (set (map (hardware_id_candidate toy_sha256 n) [0, 1, 2, 3])) = 4" if "n \<in> {''a'', ''b''}" for n
    using that by (elim insertE emptyE) (simp_all only: toy_candidates, simp_all)
  moreover have "set [0, 1, 2, 3 :: nat] = {..<4}" by auto
  ultimately have four: "card (hardware_id_candidate toy_sha256 n ` {..<4}) = 4" if "n \<in> {''a'', ''b''}" for n
    using that by (metis set_map)
  show "\<forall>n \<in> set [''b'', ''a'']. \<exists>k. length [''b'', ''a''] + 2 \<le> card (hardware_id_candidate toy_sha256 n ` {..<k})"
  proof
    fix n assume "n \<in> set [''b'', ''a'']"
    then have "card (hardware_id_candidate toy_sha256 n ` {..<4}) = 4" by (intro four) auto
    then show "\<exists>k. length [''b'', ''a''] + 2 \<le> card (hardware_id_candidate toy_sha256 n ` {..<k})"
      by (intro exI [of _ 4]) simp
  qed
qed

subsection \<open>Logs across a stop\<close>

definition records_ok :: "supervisor \<Rightarrow> bool" where
  "records_ok s \<longleftrightarrow> dict_wf (sp_records s) \<and> (\<forall>(n, r) \<in> set (sp_records s). pr_node_id r = n)"

lemma archive_records_get:
  "distinct (map fst rs) \<Longrightarrow> \<forall>(n, r) \<in> set rs. pr_node_id r = n \<Longrightarrow>
   dict_get (archive_records rs logs) node =
     (case dict_get rs node of
        Some r \<Rightarrow> Some \<lparr>al_stdout_lines = pr_stdout_lines r, al_stderr_lines = pr_stderr_lines r\<rparr>
      | None \<Rightarrow> dict_get logs node)"
proof (induction rs logs rule: archive_records.induct)
  case (2 k r rest logs)
  then have "dict_get rest (pr_node_id r) = None" by (simp add: map_of_eq_None_iff)
  with 2 show ?case by (auto simp: dict_simps split: option.splits)
qed simp

lemma map_records_get: "dict_get (sp_records (map_records f s)) n = map_option f (dict_get (sp_records s) n)"
proof -
  have "map_of (map (\<lambda>(n, r). (n, f r)) d) n = map_option f (map_of d n)" for d
    by (induction d) auto
  then show ?thesis by (simp add: map_records_def)
qed

lemma records_ok_map: "records_ok s \<Longrightarrow> (\<And>r. pr_node_id (f r) = pr_node_id r) \<Longrightarrow> records_ok (map_records f s)"
  by (auto simp: records_ok_def map_records_def comp_def case_prod_unfold)

text \<open>
  A stop loses no log: what the API shows of a node's output is the same before and after the
  supervisor reaps the children, for every node, stream and limit.
\<close>

theorem logs_survive_stop:
  assumes "records_ok s"
  shows "recent_logs node_id stream limit (stop_end_processes s) = recent_logs node_id stream limit s \<and>
    (has_logs node_id (stop_end_processes s) \<longleftrightarrow> has_logs node_id s) \<and> sp_records (stop_end_processes s) = []"
proof -
  have "records_ok (map_records stopped_record s)" using assms by (rule records_ok_map) (simp add: stopped_record_def)
  then have "dict_get (sp_archived_logs (stop_end_processes s)) node_id =
    (case dict_get (sp_records s) node_id of
       Some r \<Rightarrow> Some \<lparr>al_stdout_lines = pr_stdout_lines r, al_stderr_lines = pr_stderr_lines r\<rparr>
     | None \<Rightarrow> dict_get (sp_archived_logs s) node_id)"
    by (auto simp: stop_end_processes_def records_ok_def archive_records_get map_records_get stopped_record_def split: option.split)
  moreover have "sp_records (stop_end_processes s) = []" by (simp add: stop_end_processes_def)
  ultimately show ?thesis by (auto simp: recent_logs_def has_logs_def split: option.splits)
qed

subsection \<open>The step relation\<close>

text \<open>
  The supervisor with its lifecycle lock, and the process ids that the operating system is running.
  A new process id is not one of a running process.
  A start can be cancelled; a stop runs to its end.
\<close>

datatype sup_phase = Sup_idle | Sup_starting "(string \<times> nat \<times> nat) list" | Sup_stopping

inductive sup_step :: "(octets \<Rightarrow> bytes) \<Rightarrow> supervisor \<times> sup_phase \<times> int set \<Rightarrow> supervisor \<times> sup_phase \<times> int set \<Rightarrow> bool"
  for sha256 :: "octets \<Rightarrow> bytes" where
  start: "start_check binary_exists s = (s', Inr ()) \<Longrightarrow> hardware_ids_for sha256 (map sn_id (sc_nodes sc)) = Some hw \<Longrightarrow>
    distinct (map sn_id (sc_nodes sc)) \<Longrightarrow>
    sup_step sha256 (s, Sup_idle, live) (s', Sup_starting (start_jobs hw sc), live)"
| start_refused: "start_check binary_exists s = (s', Inl e) \<Longrightarrow> sup_step sha256 (s, Sup_idle, live) (s', Sup_idle, live)"
| spawned: "start_node (Spawned p True) job s = (s', Inr ()) \<Longrightarrow> p \<notin> live \<Longrightarrow>
    sup_step sha256 (s, Sup_starting (job # jobs), live) (s', Sup_starting jobs, insert p live)"
| spawn_failed: "start_node answer job s = (s', Inl e) \<Longrightarrow> (\<And>p pipes. answer = Spawned p pipes \<Longrightarrow> p \<notin> live) \<Longrightarrow>
    sup_step sha256 (s, Sup_starting (job # jobs), live)
      (stop_begin_processes s', Sup_stopping, live \<union> (case answer of Spawned p _ \<Rightarrow> {p} | _ \<Rightarrow> {}))"
| start_cancelled: "start_node (Spawn_raises e) job s = (s', Inl e) \<Longrightarrow>
    sup_step sha256 (s, Sup_starting (job # jobs), live) (s', Sup_idle, live)"
| started: "sup_step sha256 (s, Sup_starting [], live) (s, Sup_idle, live)"
| stop: "sup_step sha256 (s, Sup_idle, live) (stop_begin_processes s, Sup_stopping, live)"
| child_exit: "dict_get (sp_records s) node = Some r \<Longrightarrow> alive r \<Longrightarrow> pid r = Some p \<Longrightarrow>
    sup_step sha256 (s, ph, live) (map_record node (child_exits code) s, ph, live - {p})"
| monitor: "dict_get (sp_records s) node = Some r \<Longrightarrow> Task_exit \<in> pr_tasks r \<Longrightarrow>
    pr_process r = Some \<lparr>pc_pid = p, pc_returncode = Some code\<rparr> \<Longrightarrow>
    sup_step sha256 (s, ph, live) (monitor_exit node code s, ph, live)"
| print: "sup_step sha256 (s, ph, live) (map_record node (drain_output is_stderr line) s, ph, live)"
| stopped: "\<forall>(n, r) \<in> set (sp_records s). \<not> alive r \<Longrightarrow>
    sup_step sha256 (s, Sup_stopping, live) (stop_end_processes s, Sup_idle, live)"

inductive_cases sup_step_cases: "sup_step sha256 (s, ph, live) (s', ph', live')"

definition sup_reachable :: "(octets \<Rightarrow> bytes) \<Rightarrow> supervisor \<Rightarrow> sup_phase \<Rightarrow> int set \<Rightarrow> bool" where
  "sup_reachable sha256 s ph live \<longleftrightarrow>
     (\<exists>binary nodes_root base bytes handler s0. new_supervisor binary nodes_root base bytes handler = Inr s0 \<and>
        (sup_step sha256)\<^sup>*\<^sup>* (s0, Sup_idle, {}) (s, ph, live))"

text \<open>
  The running child of every node, as one map; a child that runs is watched when it is marked as
  running and its exit monitor waits.
\<close>

definition runs :: "process_record \<Rightarrow> int option" where
  "runs r = (if alive r then pid r else None)"

definition running :: "supervisor \<Rightarrow> string \<Rightarrow> int option" where
  "running s n = Option.bind (dict_get (sp_records s) n) runs"

definition watched :: "process_record \<Rightarrow> bool" where
  "watched r \<longleftrightarrow> runs r \<noteq> None \<longrightarrow> pr_state r = P_RUNNING \<and> Task_exit \<in> pr_tasks r"

definition all_watched :: "supervisor \<Rightarrow> bool" where
  "all_watched s \<longleftrightarrow> (\<forall>n r. dict_get (sp_records s) n = Some r \<longrightarrow> watched r)"

definition jobs_ok :: "supervisor \<Rightarrow> sup_phase \<Rightarrow> bool" where
  "jobs_ok s ph \<longleftrightarrow> (case ph of Sup_starting jobs \<Rightarrow>
     distinct (map fst jobs) \<and> (\<forall>n \<in> fst ` set jobs. dict_get (sp_records s) n = None) | _ \<Rightarrow> True)"

definition children_ok :: "supervisor \<times> sup_phase \<times> int set \<Rightarrow> bool" where
  "children_ok st \<longleftrightarrow> (case st of (s, ph, live) \<Rightarrow>
     records_ok s \<and> inj_on (running s) (dom (running s)) \<and> live = ran (running s) \<and>
     (sp_stopping s \<longrightarrow> ph = Sup_stopping \<and> sp_records s \<noteq> []) \<and> (ph \<noteq> Sup_stopping \<longrightarrow> all_watched s) \<and> jobs_ok s ph)"

lemma map_record_get: "dict_get (sp_records (map_record n f s)) = (case dict_get (sp_records s) n of
    None \<Rightarrow> dict_get (sp_records s) | Some r \<Rightarrow> (dict_get (sp_records s))(n \<mapsto> f r))"
  by (simp add: map_record_def map_of_dict_set fun_eq_iff split: option.split)

lemma map_record_fields: "sp_stopping (map_record n f s) = sp_stopping s"
  "sp_records (map_record n f s) = [] \<longleftrightarrow> sp_records s = []"
  by (cases "sp_records s"; simp add: map_record_def split: option.split)+

lemma records_ok_set:
  assumes "records_ok s" and "pr_node_id r = n"
  shows "records_ok (s\<lparr>sp_records := dict_set n r (sp_records s)\<rparr>)"
  using assms set_dict_set [of n r "sp_records s"] by (auto simp: records_ok_def)

lemma records_ok_record: "records_ok s \<Longrightarrow> (\<And>r. pr_node_id (f r) = pr_node_id r) \<Longrightarrow> records_ok (map_record n f s)"
  by (auto simp: map_record_def intro!: records_ok_set split: option.split dest!: map_of_SomeD) (auto simp: records_ok_def)

lemma running_record:
  "dict_get (sp_records s) n = Some r \<Longrightarrow> running (map_record n f s) = (running s)(n := runs (f r))"
  by (simp add: running_def map_record_get fun_eq_iff)

lemma all_watched_record:
  "all_watched s \<Longrightarrow> (\<And>r. watched r \<Longrightarrow> watched (f r)) \<Longrightarrow> all_watched (map_record n f s)"
  by (simp add: all_watched_def map_record_get split: option.split)

lemma jobs_ok_record: "jobs_ok s ph \<Longrightarrow> jobs_ok (map_record n f s) ph"
  unfolding jobs_ok_def map_record_get
  by (cases "dict_get (sp_records s) n"; cases ph) (simp_all, force)

lemma children_same:
  assumes ok: "children_ok (s, ph, live)" and id: "\<And>r. pr_node_id (f r) = pr_node_id r"
    and same: "\<And>r. dict_get (sp_records s) n = Some r \<Longrightarrow> runs (f r) = runs r \<and> (watched r \<longrightarrow> watched (f r))"
  shows "children_ok (map_record n f s, ph, live)"
proof -
  have "running (map_record n f s) = running s"
  proof (cases "dict_get (sp_records s) n")
    case (Some r)
    then show ?thesis using same by (simp add: running_record) (simp add: running_def fun_eq_iff)
  qed (simp add: map_record_def)
  moreover have "all_watched s \<longrightarrow> all_watched (map_record n f s)"
    using same by (auto simp: all_watched_def map_record_get split: option.split)
  ultimately show ?thesis using ok id
    by (simp add: children_ok_def records_ok_record jobs_ok_record map_record_fields)
qed

lemma children_exit:
  assumes "children_ok (s, ph, live)" and r: "dict_get (sp_records s) n = Some r" "alive r" "pid r = Some p"
  shows "children_ok (map_record n (child_exits code) s, ph, live - {p})"
proof -
  have dead: "runs (child_exits code r) = None" for r by (auto simp: runs_def alive_def child_exits_def)
  then have run: "running (map_record n (child_exits code) s) = (running s)(n := None)"
    by (simp add: running_record [OF r(1)])
  have np: "running s n = Some p" using r by (simp add: running_def runs_def)
  have inj: "inj_on (running s) (dom (running s))" and live: "live = ran (running s)" using assms(1) by (simp_all add: children_ok_def)
  have "ran ((running s)(n := None)) = ran (running s) - {p}"
  proof (intro set_eqI iffI)
    fix q assume "q \<in> ran (running s) - {p}"
    then obtain m where "running s m = Some q" "q \<noteq> p" by (auto simp: ran_def)
    moreover from this have "m \<noteq> n" using np by auto
    ultimately have "((running s)(n := None)) m = Some q" by simp
    then show "q \<in> ran ((running s)(n := None))" by (rule ranI)
  next
    fix q assume "q \<in> ran ((running s)(n := None))"
    then obtain m where m: "running s m = Some q" "m \<noteq> n" by (auto simp: ran_def split: if_splits)
    then have "q \<noteq> p" using inj np unfolding inj_on_def by (metis domI)
    with m show "q \<in> ran (running s) - {p}" by (auto simp: ran_def)
  qed
  moreover have "inj_on ((running s)(n := None)) (dom ((running s)(n := None)))"
    using inj by (auto simp: inj_on_def)
  moreover have "watched (child_exits code r)" for r by (simp add: watched_def dead)
  moreover have "records_ok (map_record n (child_exits code) s)"
    using assms(1) by (intro records_ok_record) (simp_all add: children_ok_def child_exits_def)
  ultimately show ?thesis
    using assms(1) live by (simp add: children_ok_def run all_watched_record jobs_ok_record map_record_fields)
qed

lemma new_record: "pr_node_id (record_for s n i h) = n" "\<not> alive (record_for s n i h)"
  by (simp_all add: record_for_def alive_def Let_def)

lemma start_one_cases:
  assumes "start_one answer r = (r', outcome)" and "\<not> alive r"
  shows "pr_node_id r' = pr_node_id r \<and>
    (case answer of
       Spawned p pipes \<Rightarrow> runs r' = Some p \<and> (if pipes then outcome = Inr () \<and> watched r' else isl outcome)
     | _ \<Rightarrow> runs r' = None \<and> isl outcome)"
  using assms by (auto simp: start_one_def alive_def pid_def watched_def runs_def Let_def split: spawn.splits if_splits)

lemma children_start_node:
  assumes ok: "children_ok (s, Sup_starting (job # jobs), live)" and "start_node answer job s = (s', outcome)"
    and fresh: "\<And>p pipes. answer = Spawned p pipes \<Longrightarrow> p \<notin> live"
    and ph: "ph = Sup_stopping \<or> ph = Sup_idle \<and> answer = Spawn_raises e \<or> ph = Sup_starting jobs \<and> outcome = Inr ()"
  shows "children_ok (s', ph, live \<union> (case answer of Spawned p _ \<Rightarrow> {p} | _ \<Rightarrow> {}))"
proof -
  obtain n i h where job: "job = (n, i, h)" by (cases job)
  obtain r out where r: "start_one answer (record_for s n i h) = (r, out)" by fastforce
  then have s': "s' = s\<lparr>sp_records := dict_set n r (sp_records s)\<rparr>" "outcome = out"
    using assms(2) job by (auto simp: start_node_def)
  note cases = start_one_cases [OF r new_record(2), unfolded new_record(1)]
  have get: "dict_get (sp_records s') = (dict_get (sp_records s))(n \<mapsto> r)" by (simp add: s' map_of_dict_set fun_eq_iff)
  have new: "dict_get (sp_records s) n = None" "n \<notin> fst ` set jobs" "jobs_ok s (Sup_starting jobs)"
    using ok job by (auto simp: children_ok_def jobs_ok_def)
  have run: "running s' = (running s)(n := runs r)" by (simp add: running_def get fun_eq_iff)
  have "running s n = None" using new by (simp add: running_def)
  then have ran: "ran (running s') = live \<union> (case answer of Spawned p _ \<Rightarrow> {p} | _ \<Rightarrow> {})"
    using ok cases by (cases answer) (simp_all add: run children_ok_def fun_upd_idem split: if_splits)
  have "inj_on (running s') (dom (running s'))"
    using ok cases fresh by (cases answer) (auto simp: run children_ok_def inj_on_def dom_def ran_def)
  moreover have "records_ok s'" unfolding s' using ok cases by (intro records_ok_set) (auto simp: children_ok_def)
  moreover have "all_watched s'" if "ph \<noteq> Sup_stopping"
  proof -
    have "watched r" using that ph cases s'(2) by (cases answer) (auto simp: watched_def split: if_splits)
    then show ?thesis using ok by (simp add: all_watched_def get children_ok_def)
  qed
  moreover have "jobs_ok s' ph" using ph new by (auto simp: jobs_ok_def get split: sup_phase.split)
  moreover have "\<not> sp_stopping s'" using ok by (simp add: s' children_ok_def)
  ultimately show ?thesis by (simp add: children_ok_def ran)
qed

lemma children_stop_begin:
  assumes "children_ok (s, ph, live)"
  shows "children_ok (stop_begin_processes s, Sup_stopping, live)"
proof -
  let ?f = "\<lambda>r. if alive r then r\<lparr>pr_state := P_STOPPING\<rparr> else r"
  have f: "runs (?f r) = runs r" "pr_node_id (?f r) = pr_node_id r" for r
    by (cases "pr_process r"; simp add: alive_def pid_def runs_def)+
  have "records_ok (map_records ?f (s\<lparr>sp_stopping := True\<rparr>))"
    using assms by (intro records_ok_map) (auto simp: children_ok_def records_ok_def)
  moreover have "running (map_records ?f (s\<lparr>sp_stopping := True\<rparr>)) = running s"
    by (simp add: running_def map_records_get fun_eq_iff f split: option.split bind_split)
  moreover have "sp_records (map_records ?f (s\<lparr>sp_stopping := True\<rparr>)) = [] \<longleftrightarrow> sp_records s = []"
    by (simp add: map_records_def)
  ultimately show ?thesis using assms by (auto simp: stop_begin_processes_def children_ok_def jobs_ok_def)
qed

lemma children_stop_end:
  assumes "children_ok (s, Sup_stopping, live)" and "\<forall>(n, r) \<in> set (sp_records s). \<not> alive r"
  shows "children_ok (stop_end_processes s, Sup_idle, {}) \<and> live = {}"
proof -
  have "running s n = None" for n
    using assms(2) by (cases "dict_get (sp_records s) n") (auto simp: running_def runs_def dest: map_of_SomeD)
  then have "live = {}" using assms(1) by (auto simp: children_ok_def ran_def)
  moreover have "running (stop_end_processes s) = Map.empty" by (simp add: running_def stop_end_processes_def fun_eq_iff)
  moreover have "sp_records (stop_end_processes s) = []" "\<not> sp_stopping (stop_end_processes s)"
    using assms(1) by (auto simp: stop_end_processes_def children_ok_def)
  ultimately show ?thesis by (simp add: children_ok_def records_ok_def all_watched_def jobs_ok_def)
qed

lemma start_check_fields:
  "start_check binary_exists s = (s', outcome) \<Longrightarrow>
   sp_records s' = sp_records s \<and> (sp_stopping s' \<longrightarrow> sp_stopping s) \<and> (outcome = Inr () \<longrightarrow> sp_records s = [])"
  by (auto simp: start_check_def clear_archived_logs_def Let_def split: if_splits)

lemma children_cong:
  "children_ok (s, ph, live) \<Longrightarrow> sp_records s' = sp_records s \<Longrightarrow> (sp_stopping s' \<longrightarrow> sp_stopping s) \<Longrightarrow>
   jobs_ok s' ph' \<Longrightarrow> ph \<noteq> Sup_stopping \<Longrightarrow> children_ok (s', ph', live)"
  by (simp add: children_ok_def records_ok_def all_watched_def running_def [abs_def])

lemma start_jobs_keys: "map fst (start_jobs hw sc) = map sn_id (sc_nodes sc)"
proof -
  have "map fst (start_jobs hw sc) = map sn_id (map snd (List.enumerate 0 (sc_nodes sc)))"
    unfolding start_jobs_def map_map by (rule map_cong) auto
  then show ?thesis by (simp add: enumerate_eq_zip)
qed

lemma children_reports: "children_ok (s\<lparr>sp_reports := x\<rparr>, ph, live) = children_ok (s, ph, live)"
  by (cases ph) (simp_all add: children_ok_def records_ok_def all_watched_def jobs_ok_def running_def [abs_def])

lemma sup_step_children: "sup_step sha256 st st' \<Longrightarrow> children_ok st \<Longrightarrow> children_ok st'"
proof (induction rule: sup_step.induct)
  case (start binary_exists s s' sc hw live)
  then have "sp_records s' = []" "sp_records s = []" "sp_stopping s' \<longrightarrow> sp_stopping s"
    using start_check_fields by (metis)+
  with start show ?case
    by (intro children_cong [OF start.prems]) (simp_all add: jobs_ok_def start_jobs_keys)
next
  case (start_refused binary_exists s s' e live)
  then show ?case using start_check_fields by (intro children_cong [OF start_refused.prems]) (auto simp: jobs_ok_def)
next
  case (spawned p job s s' live jobs)
  then show ?case using children_start_node [of s job jobs live "Spawned p True" s' "Inr ()" "Sup_starting jobs"] by simp
next
  case (spawn_failed answer job s s' e live jobs)
  then show ?case
    using children_start_node [of s job jobs live answer s' "Inl e" Sup_stopping] by (auto intro: children_stop_begin)
next
  case (start_cancelled e job s s' jobs live)
  then show ?case using children_start_node [of s job jobs live "Spawn_raises e" s' "Inl e" Sup_idle] by simp
next
  case (started s live)
  then show ?case by (simp add: children_ok_def jobs_ok_def)
next
  case (stop s live)
  then show ?case by (rule children_stop_begin)
next
  case (child_exit s node r p ph live code)
  then show ?case by (intro children_exit)
next
  case (monitor s node r p code ph live)
  then have dead: "runs r = None" by (simp add: runs_def alive_def)
  have "runs (r\<lparr>pr_tasks := t\<rparr>) = None" "runs (r\<lparr>pr_tasks := t, pr_state := st\<rparr>) = None" for t st
    using monitor(3) by (simp_all add: runs_def alive_def)
  with dead monitor(1,4) have "children_ok (map_record node (\<lambda>r. r\<lparr>pr_tasks := pr_tasks r - {Task_exit}\<rparr>) s, ph, live)"
    "children_ok (map_record node (\<lambda>r. r\<lparr>pr_tasks := pr_tasks r - {Task_exit}, pr_state := P_FAILED\<rparr>) s, ph, live)"
    by (auto intro!: children_same simp: watched_def)
  then show ?case by (simp add: monitor_exit_def Let_def children_reports)
next
  case (print s ph live node is_stderr line)
  then show ?case
    by (intro children_same) (auto simp: drain_output_def runs_def alive_def pid_def watched_def)
next
  case (stopped s live)
  then show ?case using children_stop_end by blast
qed

lemma sup_steps_children: "(sup_step sha256)\<^sup>*\<^sup>* st st' \<Longrightarrow> children_ok st \<Longrightarrow> children_ok st'"
  by (induction rule: rtranclp_induct) (auto intro: sup_step_children)

lemma running_empty: "sp_records s = [] \<Longrightarrow> running s = Map.empty"
  by (simp add: running_def fun_eq_iff)

lemma new_supervisor_children: "new_supervisor binary nodes_root base bytes handler = Inr s \<Longrightarrow> children_ok (s, Sup_idle, {})"
  by (auto simp: new_supervisor_def children_ok_def records_ok_def running_empty all_watched_def jobs_ok_def split: if_splits)

text \<open>
  C25. No firmware child is orphaned or unobserved: in every reachable state the running processes
  are exactly the live children of the records, one each, nothing runs when the records are empty,
  and unless a stop is under way every live child is marked as running and has an exit monitor
  that reports its end.
\<close>

theorem no_orphan_children:
  assumes "sup_reachable sha256 s ph live"
  shows "live = ran (running s) \<and> inj_on (running s) (dom (running s)) \<and> (sp_records s = [] \<longrightarrow> live = {}) \<and>
    (ph \<noteq> Sup_stopping \<longrightarrow> (\<forall>n r. dict_get (sp_records s) n = Some r \<and> runs r \<noteq> None \<longrightarrow>
       pr_state r = P_RUNNING \<and> Task_exit \<in> pr_tasks r))"
proof -
  have "children_ok (s, ph, live)"
    using assms sup_steps_children new_supervisor_children unfolding sup_reachable_def by blast
  then show ?thesis by (auto simp: children_ok_def all_watched_def watched_def running_def ran_def)
qed

text \<open>A supervisor with one node, started and printing.\<close>

definition lab_supervisor :: supervisor where
  "lab_supervisor = \<lparr>sp_binary_path = [''usr'', ''bin'', ''meshtasticd''], sp_data_root = [''data''],
     sp_internal_port_base = 46001, sp_log_max_bytes = 8388608, sp_has_failure_handler = True, sp_records = [],
     sp_archived_logs = [], sp_stopping = False, sp_reports = []\<rparr>"

definition lab_job :: "string \<times> nat \<times> nat" where "lab_job = (''a'', 0, 979450416)"

definition lab_up :: supervisor where "lab_up = fst (start_node (Spawned 77 True) lab_job lab_supervisor)"

lemma lab_up_records: "\<exists>r. sp_records lab_up = [(''a'', r)] \<and> pr_node_id r = ''a'' \<and> runs r = Some 77"
  by (simp add: lab_up_def lab_job_def lab_supervisor_def start_node_def start_one_def record_for_def runs_def alive_def pid_def Let_def)

lemma lab_up_reachable: "sup_reachable toy_sha256 lab_up (Sup_starting []) {77}"
proof -
  let ?sc = "relay_scenario\<lparr>sc_nodes := [\<lparr>sn_id = ''a'', sn_display_name = ''A'', sn_role = CLIENT, sn_api_port = 45001\<rparr>]\<rparr>"
  have "hardware_ids_for toy_sha256 [''a''] = Some [(''a'', 979450416)]"
    using toy_candidates by (simp add: hardware_ids_for_def draw_hardware_id.simps [of _ _ _ 0] hardware_id_free_def)
  then have "sup_step toy_sha256 (lab_supervisor, Sup_idle, {})
      (lab_supervisor, Sup_starting (start_jobs [(''a'', 979450416)] ?sc), {})"
    by (intro sup_step.start [of True]) (simp_all add: start_check_def lab_supervisor_def clear_archived_logs_def)
  moreover have "start_jobs [(''a'', 979450416)] ?sc = [lab_job]" by (simp add: start_jobs_def lab_job_def)
  ultimately have "sup_step toy_sha256 (lab_supervisor, Sup_idle, {}) (lab_supervisor, Sup_starting [lab_job], {})" by simp
  moreover have "sup_step toy_sha256 (lab_supervisor, Sup_starting [lab_job], {}) (lab_up, Sup_starting [], {77})"
    by (intro sup_step.spawned) (simp_all add: lab_up_def lab_job_def start_node_def start_one_def Let_def)
  moreover have "new_supervisor [''usr'', ''bin'', ''meshtasticd''] [''data''] 46001 8388608 True = Inr lab_supervisor"
    by (simp add: new_supervisor_def lab_supervisor_def)
  ultimately show ?thesis unfolding sup_reachable_def by (blast intro: rtranclp.rtrancl_into_rtrancl)
qed

theorem no_orphan_children_witness:
  "sup_reachable toy_sha256 lab_up (Sup_starting []) {77} \<and> {77} = ran (running lab_up) \<and>
   inj_on (running lab_up) (dom (running lab_up)) \<and>
   (\<exists>r. dict_get (sp_records lab_up) ''a'' = Some r \<and> runs r = Some 77 \<and> pr_state r = P_RUNNING \<and> Task_exit \<in> pr_tasks r)"
proof -
  obtain r where r: "sp_records lab_up = [(''a'', r)]" "runs r = Some 77" using lab_up_records by blast
  then have "dict_get (sp_records lab_up) ''a'' = Some r \<and> runs r \<noteq> None" by simp
  moreover have "Sup_starting [] \<noteq> Sup_stopping" by simp
  ultimately show ?thesis using lab_up_reachable no_orphan_children [OF lab_up_reachable] r by blast
qed

theorem logs_survive_stop_witness:
  "recent_logs ''a'' ''stderr'' 5 (stop_end_processes lab_up) = recent_logs ''a'' ''stderr'' 5 lab_up \<and>
    (has_logs ''a'' (stop_end_processes lab_up) \<longleftrightarrow> has_logs ''a'' lab_up) \<and> sp_records (stop_end_processes lab_up) = []"
  by (rule logs_survive_stop) (use lab_up_records in \<open>auto simp: records_ok_def\<close>)

end
