(* ===== verification/Configure.thy ===== *)
theory Configure
  imports Scenario Py_Float
begin

text \<open>
  Configuring one node through the official client, \<^verbatim>\<open>src/backend/app/runtime/configure.py\<close>.
  The client library is not part of the repository: a connection interface is the record of the
  attributes that the code reads, the outcome of every connection attempt and the reply to every admin
  message are arguments, and the protobuf enumerations are the functions \<open>enums\<close>. What
  the code does to the client is recorded in order as \<open>client_event\<close>s.
\<close>

subsection \<open>Data\<close>

record verification =
  v_node_id :: string
  v_node_number :: int
  v_firmware_version :: string
  v_owner_long_name :: string
  v_owner_short_name :: string
  v_role :: string
  v_region :: string
  v_modem_preset :: string
  v_frequency_slot :: int
  v_hop_limit :: int
  v_channel_name :: string

text \<open>The settings that the code copies and changes; \<open>lo_rest\<close> and the like are their other fields.\<close>

record lora_config =
  lo_use_preset :: bool
  lo_region :: int
  lo_modem_preset :: int
  lo_channel_num :: int
  lo_hop_limit :: int
  lo_tx_enabled :: bool
  lo_rest :: bytes

record device_config =
  dv_role :: int
  dv_rest :: bytes

record channel_config =
  cc_role :: int
  cc_name :: string
  cc_psk :: bytes
  cc_rest :: bytes

record interface =
  if_my_node_num :: "int option"
  if_firmware_version :: "string option"
  if_users :: "(int, (string, string) dict) dict"
  if_lora :: lora_config
  if_device :: device_config
  if_channels :: "channel_config list"

record enums =
  en_region_value :: "string \<Rightarrow> int result"
  en_region_name :: "int \<Rightarrow> string result"
  en_preset_value :: "string \<Rightarrow> int result"
  en_preset_name :: "int \<Rightarrow> string result"
  en_role_value :: "string \<Rightarrow> int result"
  en_role_name :: "int \<Rightarrow> string result"

datatype admin_message =
    Begin_edit_settings
  | Set_owner string string
  | Set_lora lora_config
  | Set_device device_config
  | Set_channel channel_config
  | Commit_edit_settings

datatype client_event = Connected | Admin_sent admin_message | Rebooted int | Closed

definition role_text :: "node_role \<Rightarrow> string" where
  "role_text r = (case r of CLIENT \<Rightarrow> ''CLIENT'' | CLIENT_MUTE \<Rightarrow> ''CLIENT_MUTE'' | ROUTER \<Rightarrow> ''ROUTER'' | REPEATER \<Rightarrow> ''REPEATER'')"

definition PRIMARY :: int where "PRIMARY = 1"

text \<open>\<^verbatim>\<open>node.id.removeprefix("node-")\<close>, and \<^verbatim>\<open>f"N{suffix}"[:4]\<close>.\<close>

definition remove_prefix :: "string \<Rightarrow> string \<Rightarrow> string" where
  "remove_prefix p s = (if take (length p) s = p then drop (length p) s else s)"

definition short_name :: "scenario_node \<Rightarrow> string" where
  "short_name n = take 4 (CHR ''N'' # remove_prefix ''node-'' (sn_id n))"

subsection \<open>Connecting\<close>

text \<open>
  \<^verbatim>\<open>_connect\<close>: every turn of the loop reads the clock and, before the deadline, makes one
  attempt, which gives an interface or raises (the failed interface is closed). The
  list holds the observations of the turns; \<open>None\<close> means that they end before the loop does.
\<close>

definition connect_timeout :: "pyfloat \<Rightarrow> pyfloat \<Rightarrow> int" where
  "connect_timeout deadline now = max 1 (py_trunc (fsub deadline now))"

definition connect_failed :: "pyerr option \<Rightarrow> pyerr" where
  "connect_failed last_error =
     NodeConfigurationError (''official client could not complete config handshake: '' @
       (case last_error of None \<Rightarrow> ''deadline expired before connect'' | Some e \<Rightarrow> exc_text e))"

fun connect :: "pyfloat \<Rightarrow> (pyfloat \<times> interface result) list \<Rightarrow> pyerr option \<Rightarrow> interface result option" where
  "connect deadline [] last_error = None"
| "connect deadline ((now, attempt) # turns) last_error =
     (if now < deadline
      then (case attempt of Inr i \<Rightarrow> Some (Inr i) | Inl e \<Rightarrow> connect deadline turns (Some e))
      else Some (Inl (connect_failed last_error)))"

subsection \<open>Admin messages\<close>

text \<open>
  What \<^verbatim>\<open>_send_admin_and_wait\<close> observes: sending raises, no response arrives before the
  deadline, or a response with its \<^verbatim>\<open>errorReason\<close>, when it has one.
\<close>

datatype admin_reply = Send_raises pyerr | No_response | Response "string option"

definition admin_outcome :: "admin_reply \<Rightarrow> unit result" where
  "admin_outcome reply =
     (case reply of
        Send_raises e \<Rightarrow> Inl e
      | No_response \<Rightarrow> Inl (NodeConfigurationError ''timed out waiting for firmware admin response'')
      | Response reason \<Rightarrow>
          (case reason of
             None \<Rightarrow> Inr ()
           | Some r \<Rightarrow> if r = ''NONE'' then Inr ()
                       else Inl (NodeConfigurationError (''firmware rejected admin write: '' @ r))))"

definition lora_message :: "enums \<Rightarrow> interface \<Rightarrow> rf_settings \<Rightarrow> admin_message result" where
  "lora_message en i rf =
     bind_result (en_region_value en (rf_region rf)) (\<lambda>region.
     bind_result (en_preset_value en (rf_modem_preset rf)) (\<lambda>preset.
       Inr (Set_lora ((if_lora i)\<lparr>lo_use_preset := True, lo_region := region, lo_modem_preset := preset,
              lo_channel_num := rf_frequency_slot rf, lo_hop_limit := rf_hop_limit rf, lo_tx_enabled := True\<rparr>))))"

text \<open>The device settings are written only when the role differs.\<close>

definition device_messages :: "enums \<Rightarrow> interface \<Rightarrow> scenario_node \<Rightarrow> admin_message list result" where
  "device_messages en i node =
     bind_result (en_role_value en (role_text (sn_role node))) (\<lambda>requested.
       Inr (if dv_role (if_device i) \<noteq> requested then [Set_device ((if_device i)\<lparr>dv_role := requested\<rparr>)] else []))"

definition channel_message :: "interface \<Rightarrow> scenario_channel \<Rightarrow> admin_message result" where
  "channel_message i channel =
     (case if_channels i of
        [] \<Rightarrow> Inl IndexError
      | primary # _ \<Rightarrow> bind_result (key_bytes channel) (\<lambda>psk.
          Inr (Set_channel (primary\<lparr>cc_role := PRIMARY, cc_name := ch_name channel, cc_psk := psk\<rparr>))))"

text \<open>The steps of the session in order: each builds its messages, which may raise, and sends them.\<close>

definition session_steps :: "enums \<Rightarrow> interface \<Rightarrow> scenario_node \<Rightarrow> rf_settings \<Rightarrow> scenario_channel \<Rightarrow>
    admin_message list result list" where
  "session_steps en i node rf channel =
     [Inr [Begin_edit_settings], Inr [Set_owner (sn_display_name node) (short_name node)],
      bind_result (lora_message en i rf) (\<lambda>m. Inr [m]), device_messages en i node,
      bind_result (channel_message i channel) (\<lambda>m. Inr [m]), Inr [Commit_edit_settings]]"

fun send_admins :: "admin_message list \<Rightarrow> (admin_message \<Rightarrow> admin_reply) \<Rightarrow> client_event list \<times> unit result" where
  "send_admins [] replies = ([], Inr ())"
| "send_admins (m # ms) replies =
     (case admin_outcome (replies m) of
        Inl e \<Rightarrow> ([Admin_sent m], Inl e)
      | Inr _ \<Rightarrow> (case send_admins ms replies of (trace, r) \<Rightarrow> (Admin_sent m # trace, r)))"

fun run_steps :: "admin_message list result list \<Rightarrow> (admin_message \<Rightarrow> admin_reply) \<Rightarrow> client_event list \<times> unit result" where
  "run_steps [] replies = ([], Inr ())"
| "run_steps (Inl e # steps) replies = ([], Inl e)"
| "run_steps (Inr ms # steps) replies =
     (case send_admins ms replies of
        (trace, Inl e) \<Rightarrow> (trace, Inl e)
      | (trace, Inr _) \<Rightarrow> (case run_steps steps replies of (trace', r) \<Rightarrow> (trace @ trace', r)))"

subsection \<open>Verification\<close>

datatype config_value = CV_text string | CV_int int | CV_bytes bytes

type_synonym differences = "(string \<times> config_value \<times> config_value) list"

definition reported_settings :: "enums \<Rightarrow> interface \<Rightarrow> channel_config \<Rightarrow> (string, string) dict \<Rightarrow> (string, config_value) dict result" where
  "reported_settings en i primary user =
     bind_result (en_role_name en (dv_role (if_device i))) (\<lambda>role.
     bind_result (en_region_name en (lo_region (if_lora i))) (\<lambda>region.
     bind_result (en_preset_name en (lo_modem_preset (if_lora i))) (\<lambda>preset.
       Inr [(''owner_long_name'', CV_text (dict_get_default user ''longName'' [])),
            (''owner_short_name'', CV_text (dict_get_default user ''shortName'' [])),
            (''role'', CV_text role), (''region'', CV_text region), (''modem_preset'', CV_text preset),
            (''frequency_slot'', CV_int (lo_channel_num (if_lora i))), (''hop_limit'', CV_int (lo_hop_limit (if_lora i))),
            (''channel_name'', CV_text (cc_name primary))])))"

definition actual_values :: "enums \<Rightarrow> interface \<Rightarrow> channel_config \<Rightarrow> (string, string) dict \<Rightarrow> (string, config_value) dict result" where
  "actual_values en i primary user =
     bind_result (reported_settings en i primary user) (\<lambda>values. Inr (values @ [(''channel_psk'', CV_bytes (cc_psk primary))]))"

definition requested_settings :: "scenario_node \<Rightarrow> rf_settings \<Rightarrow> scenario_channel \<Rightarrow> (string, config_value) dict" where
  "requested_settings node rf channel =
     [(''owner_long_name'', CV_text (sn_display_name node)), (''owner_short_name'', CV_text (short_name node)),
      (''role'', CV_text (role_text (sn_role node))), (''region'', CV_text (rf_region rf)),
      (''modem_preset'', CV_text (rf_modem_preset rf)), (''frequency_slot'', CV_int (rf_frequency_slot rf)),
      (''hop_limit'', CV_int (rf_hop_limit rf)), (''channel_name'', CV_text (ch_name channel))]"

definition expected_values :: "scenario_node \<Rightarrow> rf_settings \<Rightarrow> scenario_channel \<Rightarrow> (string, config_value) dict result" where
  "expected_values node rf channel =
     bind_result (key_bytes channel) (\<lambda>psk. Inr (requested_settings node rf channel @ [(''channel_psk'', CV_bytes psk)]))"

definition redacted :: config_value where "redacted = CV_text ''<redacted>''"

fun differences_of :: "(string, config_value) dict \<Rightarrow> (string, config_value) dict \<Rightarrow> differences" where
  "differences_of actual [] = []"
| "differences_of actual ((key, expected) # rest) =
     (if dict_get actual key = Some expected then differences_of actual rest
      else (if key = ''channel_psk'' then (key, redacted, redacted)
            else (key, expected, dict_get_default actual key expected)) # differences_of actual rest)"

definition verification_of :: "string \<Rightarrow> int \<Rightarrow> string \<Rightarrow> (string, config_value) dict \<Rightarrow> verification" where
  "verification_of node_id num version values =
     (let txt = (\<lambda>key. case dict_get values key of Some (CV_text t) \<Rightarrow> t | _ \<Rightarrow> []);
          num_of = (\<lambda>key. case dict_get values key of Some (CV_int n) \<Rightarrow> n | _ \<Rightarrow> 0)
      in \<lparr>v_node_id = node_id, v_node_number = num, v_firmware_version = version,
          v_owner_long_name = txt ''owner_long_name'', v_owner_short_name = txt ''owner_short_name'',
          v_role = txt ''role'', v_region = txt ''region'', v_modem_preset = txt ''modem_preset'',
          v_frequency_slot = num_of ''frequency_slot'', v_hop_limit = num_of ''hop_limit'',
          v_channel_name = txt ''channel_name''\<rparr>)"

text \<open>\<open>render\<close> is Python's representation of the dictionary of differences.\<close>

definition verify :: "enums \<Rightarrow> (differences \<Rightarrow> string) \<Rightarrow> interface \<Rightarrow> scenario_node \<Rightarrow> rf_settings \<Rightarrow>
    scenario_channel \<Rightarrow> verification result" where
  "verify en render i node rf channel =
     (case (if_my_node_num i, if_firmware_version i) of
        (Some num, Some version) \<Rightarrow>
          (case if_channels i of
             [] \<Rightarrow> Inl IndexError
           | primary # _ \<Rightarrow>
               let user = dict_get_default (if_users i) num [] in
               bind_result (actual_values en i primary user) (\<lambda>actual.
               bind_result (expected_values node rf channel) (\<lambda>expected.
                 let differences = differences_of actual expected
                 in if differences \<noteq> []
                    then Inl (NodeConfigurationError (sn_id node @ '' configuration verification failed: '' @ render differences))
                    else Inr (verification_of (sn_id node) num version actual))))
      | _ \<Rightarrow> Inl (NodeConfigurationError (sn_id node @ '' did not return my_info and metadata'')))"

subsection \<open>Sessions\<close>

text \<open>\<^verbatim>\<open>verify_node\<close>: \<open>connection\<close> is the outcome of \<^verbatim>\<open>_connect\<close>.\<close>

definition verify_node :: "enums \<Rightarrow> (differences \<Rightarrow> string) \<Rightarrow> interface result \<Rightarrow> scenario_node \<Rightarrow> rf_settings \<Rightarrow>
    scenario_channel \<Rightarrow> client_event list \<times> verification result" where
  "verify_node en render connection node rf channel =
     (case connection of
        Inl e \<Rightarrow> ([], Inl e)
      | Inr i \<Rightarrow> ([Connected, Closed], verify en render i node rf channel))"

definition configure_session :: "enums \<Rightarrow> interface result \<Rightarrow> (admin_message \<Rightarrow> admin_reply) \<Rightarrow> scenario_node \<Rightarrow>
    rf_settings \<Rightarrow> scenario_channel \<Rightarrow> client_event list \<times> unit result" where
  "configure_session en connection replies node rf channel =
     (case connection of
        Inl e \<Rightarrow> ([], Inl e)
      | Inr i \<Rightarrow> (case run_steps (session_steps en i node rf channel) replies of
          (trace, r) \<Rightarrow> (Connected # trace @ [Closed], r)))"

definition configure_and_verify_node :: "enums \<Rightarrow> (differences \<Rightarrow> string) \<Rightarrow> interface result \<Rightarrow>
    (admin_message \<Rightarrow> admin_reply) \<Rightarrow> interface result \<Rightarrow> unit result \<Rightarrow> bool \<Rightarrow> scenario_node \<Rightarrow> rf_settings \<Rightarrow> scenario_channel \<Rightarrow>
    client_event list \<times> verification result" where
  "configure_and_verify_node en render first replies second rebooted reboot_after_apply node rf channel =
     (case configure_session en first replies node rf channel of
        (trace, Inl e) \<Rightarrow> (trace, Inl e)
      | (trace, Inr _) \<Rightarrow>
          (case second of
             Inl e \<Rightarrow> (trace, Inl e)
           | Inr i \<Rightarrow>
               (case verify en render i node rf channel of
                  Inl e \<Rightarrow> (trace @ [Connected, Closed], Inl e)
                | Inr v \<Rightarrow>
                    if reboot_after_apply
                    then (trace @ [Connected, Rebooted 1, Closed], bind_result rebooted (\<lambda>_. Inr v))
                    else (trace @ [Connected, Closed], Inr v))))"

text \<open>\<^verbatim>\<open>request_node_info\<close>: the id of the packet that the client sent.\<close>

definition request_node_info :: "interface result \<Rightarrow> (interface \<Rightarrow> int result) \<Rightarrow> client_event list \<times> int result" where
  "request_node_info connection send_data =
     (case connection of Inl e \<Rightarrow> ([], Inl e) | Inr i \<Rightarrow> ([Connected, Closed], send_data i))"

end
