(* ===== verification/Configure_Laws.thy ===== *)
theory Configure_Laws
  imports Configure
begin

text \<open>
  Laws of node configuration: what a verification means, that no channel key reaches an error
  message, the shape of a session with the client, and that a firmware which applies the settings it
  acknowledges passes its verification.
\<close>

subsection \<open>What a verification compares\<close>

lemma reported_keys: "reported_settings en i primary user = Inr a \<Longrightarrow> dict_keys a = dict_keys (requested_settings node rf channel)"
  by (auto simp: reported_settings_def requested_settings_def bind_result_eq_Inr)

lemma no_key_requested: "''channel_psk'' \<notin> set (dict_keys (requested_settings node rf channel))"
  by (simp add: requested_settings_def)

lemma differences_append: "differences_of a (e @ f) = differences_of a e @ differences_of a f"
  by (induction a e rule: differences_of.induct) auto

lemma differences_cong:
  "(\<And>k. k \<in> fst ` set e \<Longrightarrow> dict_get a k = dict_get b k) \<Longrightarrow> differences_of a e = differences_of b e"
  by (induction a e rule: differences_of.induct) (auto simp: dict_get_default_def)

text \<open>The key is one difference apart from the others.\<close>

lemma differences_key:
  assumes "dict_keys a = dict_keys e" and "''channel_psk'' \<notin> set (dict_keys e)"
  shows "differences_of (a @ [(''channel_psk'', CV_bytes r)]) (e @ [(''channel_psk'', CV_bytes w)]) =
    differences_of a e @ (if r = w then [] else [(''channel_psk'', redacted, redacted)])"
proof -
  have "dict_get (a @ [(''channel_psk'', CV_bytes r)]) k = dict_get a k" if "k \<in> fst ` set e" for k
  proof -
    have "k \<in> fst ` set a" using that assms(1) by (metis set_map)
    then obtain v where "dict_get a k = Some v" by (metis map_of_eq_None_iff not_None_eq)
    then show ?thesis by simp
  qed
  then have "differences_of (a @ [(''channel_psk'', CV_bytes r)]) e = differences_of a e" by (rule differences_cong)
  moreover have "dict_get a ''channel_psk'' = None" using assms by (metis map_of_eq_None_iff set_map)
  ultimately show ?thesis by (simp add: differences_append map_add_def)
qed

lemma differences_nil: "differences_of actual expected = [] \<longleftrightarrow> (\<forall>(k, v) \<in> set expected. dict_get actual k = Some v)"
  by (induction actual expected rule: differences_of.induct) auto

lemma verification_without_key: "verification_of n num version (a @ [(''channel_psk'', v)]) = verification_of n num version a"
proof -
  have "dict_get (a @ [(''channel_psk'', v)]) k = dict_get a k" if "k \<noteq> ''channel_psk''" for k
    using that by (simp add: map_add_def split: option.split)
  then show ?thesis by (simp add: verification_of_def Let_def del: map_of_append)
qed

lemma verify_conv:
  assumes "if_my_node_num i = Some num" and "if_firmware_version i = Some version" and "if_channels i = primary # rest"
    and a: "reported_settings en i primary (dict_get_default (if_users i) num []) = Inr a" and "key_bytes channel = Inr w"
  shows "verify en render i node rf channel =
    (let ds = differences_of a (requested_settings node rf channel) @
           (if cc_psk primary = w then [] else [(''channel_psk'', redacted, redacted)])
     in if ds \<noteq> [] then Inl (NodeConfigurationError (sn_id node @ '' configuration verification failed: '' @ render ds))
        else Inr (verification_of (sn_id node) num version a))"
  unfolding verify_def actual_values_def expected_values_def assms option.case prod.case list.case Let_def bind_result_simps
    differences_key [OF reported_keys [OF a] no_key_requested]
  by (simp add: verification_without_key)

text \<open>The effective settings of an interface are those that the scenario asks for.\<close>

definition settings_match :: "enums \<Rightarrow> interface \<Rightarrow> scenario_node \<Rightarrow> rf_settings \<Rightarrow> scenario_channel \<Rightarrow> bool" where
  "settings_match en i node rf channel \<longleftrightarrow>
     (\<exists>num primary rest. if_my_node_num i = Some num \<and> if_channels i = primary # rest \<and>
        (let user = dict_get_default (if_users i) num []
         in dict_get_default user ''longName'' [] = sn_display_name node \<and>
            dict_get_default user ''shortName'' [] = short_name node) \<and>
        en_role_name en (dv_role (if_device i)) = Inr (role_text (sn_role node)) \<and>
        en_region_name en (lo_region (if_lora i)) = Inr (rf_region rf) \<and>
        en_preset_name en (lo_modem_preset (if_lora i)) = Inr (rf_modem_preset rf) \<and>
        lo_channel_num (if_lora i) = rf_frequency_slot rf \<and> lo_hop_limit (if_lora i) = rf_hop_limit rf \<and>
        cc_name primary = ch_name channel \<and> key_bytes channel = Inr (cc_psk primary))"

lemma verify_matching:
  "verify en render i node rf channel = Inr v \<longleftrightarrow>
   settings_match en i node rf channel \<and> if_firmware_version i \<noteq> None \<and>
   v = \<lparr>v_node_id = sn_id node, v_node_number = the (if_my_node_num i), v_firmware_version = the (if_firmware_version i),
        v_owner_long_name = sn_display_name node, v_owner_short_name = short_name node, v_role = role_text (sn_role node),
        v_region = rf_region rf, v_modem_preset = rf_modem_preset rf, v_frequency_slot = rf_frequency_slot rf,
        v_hop_limit = rf_hop_limit rf, v_channel_name = ch_name channel\<rparr>"
proof (cases "\<exists>num version primary rest. if_my_node_num i = Some num \<and> if_firmware_version i = Some version \<and> if_channels i = primary # rest")
  case True
  then obtain num version primary rest where i: "if_my_node_num i = Some num" "if_firmware_version i = Some version"
    "if_channels i = primary # rest" by blast
  let ?user = "dict_get_default (if_users i) num []"
  show ?thesis
  proof (cases "\<exists>a e. actual_values en i primary ?user = Inr a \<and> expected_values node rf channel = Inr e")
    case True
    then obtain role region preset psk where
      "en_role_name en (dv_role (if_device i)) = Inr role" "en_region_name en (lo_region (if_lora i)) = Inr region"
      "en_preset_name en (lo_modem_preset (if_lora i)) = Inr preset" "key_bytes channel = Inr psk"
      by (auto simp: actual_values_def reported_settings_def expected_values_def bind_result_eq_Inr)
    with i show ?thesis
      by (auto simp: verify_def verification_of_def actual_values_def reported_settings_def expected_values_def requested_settings_def settings_match_def Let_def)
  next
    case False
    then have "\<not> settings_match en i node rf channel"
      using i by (auto simp: settings_match_def actual_values_def reported_settings_def expected_values_def)
    with False i show ?thesis by (auto simp: verify_def bind_result_eq_Inr Let_def)
  qed
next
  case False
  then show ?thesis by (auto simp: verify_def settings_match_def split: option.split list.split)
qed

text \<open>
  Verification is exact: it succeeds just when the node reported its number and firmware version
  and every one of the nine effective settings is the one of the scenario; the result then carries
  the reported number and version and the requested settings.
\<close>

theorem verify_exact:
  "verify en render i node rf channel = Inr v \<longleftrightarrow>
   settings_match en i node rf channel \<and> if_firmware_version i \<noteq> None \<and>
   v = \<lparr>v_node_id = sn_id node, v_node_number = the (if_my_node_num i), v_firmware_version = the (if_firmware_version i),
        v_owner_long_name = sn_display_name node, v_owner_short_name = short_name node, v_role = role_text (sn_role node),
        v_region = rf_region rf, v_modem_preset = rf_modem_preset rf, v_frequency_slot = rf_frequency_slot rf,
        v_hop_limit = rf_hop_limit rf, v_channel_name = ch_name channel\<rparr>"
  by (rule verify_matching)

subsection \<open>Channel keys stay secret\<close>

definition with_key :: "bytes \<Rightarrow> interface \<Rightarrow> interface" where
  "with_key psk i = i\<lparr>if_channels := (case if_channels i of [] \<Rightarrow> [] | c # cs \<Rightarrow> c\<lparr>cc_psk := psk\<rparr> # cs)\<rparr>"

text \<open>
  The outcome of a verification, its error message included, depends on the channel keys only
  through whether they are equal: replacing the node's key and the scenario's key by others that
  agree or differ in the same way gives the same result.
\<close>

theorem channel_key_not_disclosed:
  assumes "key_bytes channel = Inr wanted" and "key_bytes channel' = Inr wanted'" and "ch_name channel' = ch_name channel"
    and "reported = wanted \<longleftrightarrow> reported' = wanted'"
  shows "verify en render (with_key reported i) node rf channel = verify en render (with_key reported' i) node rf channel'"
proof (cases "if_channels i")
  case Nil
  then show ?thesis by (simp add: verify_def with_key_def split: option.split)
next
  case (Cons primary rest)
  let ?set = "\<lambda>psk. primary\<lparr>cc_psk := psk\<rparr>"
  have same: "reported_settings en (with_key psk i) (?set psk) user = reported_settings en i primary user" for psk user
    by (simp add: reported_settings_def with_key_def)
  have req: "requested_settings node rf channel' = requested_settings node rf channel"
    using assms(3) by (simp add: requested_settings_def)
  have iff: "(if reported = wanted then x else y) = (if reported' = wanted' then x else y)" for x y :: differences
    using assms(4) by simp
  show ?thesis
  proof (cases "\<exists>num version a. if_my_node_num i = Some num \<and> if_firmware_version i = Some version \<and>
      reported_settings en i primary (dict_get_default (if_users i) num []) = Inr a")
    case True
    then obtain num version a where a: "if_my_node_num i = Some num" "if_firmware_version i = Some version"
      "reported_settings en i primary (dict_get_default (if_users i) num []) = Inr a" by blast
    have "reported_settings en (with_key psk i) (?set psk) (dict_get_default (if_users (with_key psk i)) num []) = Inr a" for psk
      using a(3) same by (simp add: with_key_def)
    then have "verify en render (with_key psk i) node rf c =
        (let ds = differences_of a (requested_settings node rf c) @
           (if psk = w then [] else [(''channel_psk'', redacted, redacted)])
         in if ds \<noteq> [] then Inl (NodeConfigurationError (sn_id node @ '' configuration verification failed: '' @ render ds))
            else Inr (verification_of (sn_id node) num version a))" if "key_bytes c = Inr w" for psk c w
      using verify_conv [of "with_key psk i" num version "?set psk" rest en a c w render node rf] that a Cons
      by (simp add: with_key_def)
    from this [OF assms(1)] this [OF assms(2)] show ?thesis by (simp only: req iff)
  next
    case False
    then show ?thesis using Cons same
      by (auto simp: verify_def with_key_def actual_values_def bind_result_def Let_def split: option.split sum.split)
  qed
qed

subsection \<open>The settings transaction\<close>

abbreviation acknowledged_by :: "(admin_message \<Rightarrow> admin_reply) \<Rightarrow> admin_message \<Rightarrow> bool" where
  "acknowledged_by replies m \<equiv> admin_outcome (replies m) = Inr ()"

lemma send_admins_sent:
  "send_admins ms replies = (trace, r) \<Longrightarrow>
   set trace \<subseteq> Admin_sent ` set ms \<and> (r = Inr () \<longrightarrow> trace = map Admin_sent ms \<and> (\<forall>m \<in> set ms. acknowledged_by replies m))"
  by (induction ms arbitrary: trace r) (force split: sum.splits prod.splits)+

lemma run_steps_sent: "run_steps steps replies = (trace, r) \<Longrightarrow> set trace \<subseteq> range Admin_sent"
proof (induction steps replies arbitrary: trace r rule: run_steps.induct)
  case (3 ms steps replies)
  obtain t1 r1 where s: "send_admins ms replies = (t1, r1)" by fastforce
  then have "set t1 \<subseteq> range Admin_sent" using send_admins_sent by blast
  with 3 s show ?case by (force split: sum.splits prod.splits)
qed auto

lemma commit_is_last:
  assumes "run_steps (steps @ [Inr [Commit_edit_settings]]) replies = (trace, r)"
    and "Admin_sent Commit_edit_settings \<in> set trace \<or> r = Inr ()"
    and "\<And>ms. Inr ms \<in> set steps \<Longrightarrow> Commit_edit_settings \<notin> set ms"
  shows "\<exists>mss. steps = map Inr mss \<and> (\<forall>m \<in> set (concat mss). acknowledged_by replies m) \<and>
    trace = map Admin_sent (concat mss @ [Commit_edit_settings]) \<and> (r = Inr () \<longleftrightarrow> acknowledged_by replies Commit_edit_settings)"
  using assms
proof (induction steps arbitrary: trace)
  case Nil
  then show ?case by (auto split: sum.splits)
next
  case (Cons x steps)
  show ?case
  proof (cases x)
    case (Inl e)
    with Cons.prems show ?thesis by auto
  next
    case (Inr ms)
    obtain t1 r1 where s: "send_admins ms replies = (t1, r1)" by fastforce
    have "Commit_edit_settings \<notin> set ms" using Cons.prems(3) Inr by simp
    then have no: "Admin_sent Commit_edit_settings \<notin> set t1" using send_admins_sent [OF s] by auto
    show ?thesis
    proof (cases r1)
      case (Inl e)
      with Cons.prems(1,2) Inr s no show ?thesis by auto
    next
      case (Inr u)
      obtain t2 r2 where t2: "run_steps (steps @ [Inr [Commit_edit_settings]]) replies = (t2, r2)" by fastforce
      with Cons.prems(1) \<open>x = Inr ms\<close> s Inr have t: "trace = t1 @ t2" "r2 = r" by auto
      have "\<exists>mss. steps = map Inr mss \<and> (\<forall>m \<in> set (concat mss). acknowledged_by replies m) \<and>
          t2 = map Admin_sent (concat mss @ [Commit_edit_settings]) \<and> (r = Inr () \<longleftrightarrow> acknowledged_by replies Commit_edit_settings)"
        using t2 t Cons.prems(2,3) no by (intro Cons.IH) auto
      then obtain mss where "steps = map Inr mss" "\<forall>m \<in> set (concat mss). acknowledged_by replies m"
        "t2 = map Admin_sent (concat mss @ [Commit_edit_settings])" "r = Inr () \<longleftrightarrow> acknowledged_by replies Commit_edit_settings" by blast
      with t send_admins_sent [OF s] \<open>x = Inr ms\<close> Inr show ?thesis by (intro exI [of _ "ms # mss"]) auto
    qed
  qed
qed

definition settings_steps :: "enums \<Rightarrow> interface \<Rightarrow> scenario_node \<Rightarrow> rf_settings \<Rightarrow> scenario_channel \<Rightarrow>
    admin_message list result list" where
  "settings_steps en i node rf channel = butlast (session_steps en i node rf channel)"

lemma session_steps_commit:
  "session_steps en i node rf channel = settings_steps en i node rf channel @ [Inr [Commit_edit_settings]]"
  "Inr ms \<in> set (settings_steps en i node rf channel) \<Longrightarrow> Commit_edit_settings \<notin> set ms"
  by (auto simp: settings_steps_def session_steps_def lora_message_def device_messages_def channel_message_def
      bind_result_eq_Inr bind_result_def split: sum.splits if_splits list.splits)

text \<open>
  C23. The settings of a node are written as one transaction and never half: the commit is sent only
  after every other message of the session was built, sent and acknowledged; the node is rebooted
  only after an acknowledged commit and a successful verification over a fresh connection;
  and whatever raises, every connection that was opened has been closed.
\<close>

theorem settings_are_transactional:
  assumes "configure_and_verify_node en render first replies second rebooted reboot node rf channel = (trace, r)"
  shows "(Admin_sent Commit_edit_settings \<in> set trace \<longrightarrow>
      (\<exists>i mss. first = Inr i \<and> settings_steps en i node rf channel = map Inr mss \<and>
         (\<forall>m \<in> set (concat mss). acknowledged_by replies m))) \<and>
    (Rebooted 1 \<in> set trace \<longrightarrow> reboot \<and> acknowledged_by replies Commit_edit_settings \<and>
      (\<exists>j v. second = Inr j \<and> verify en render j node rf channel = Inr v)) \<and>
    length (filter (\<lambda>e. e = Connected) trace) = length (filter (\<lambda>e. e = Closed) trace)"
proof (cases first)
  case (Inl e)
  with assms show ?thesis by (auto simp: configure_and_verify_node_def configure_session_def)
next
  case (Inr i)
  obtain t1 r1 where t1: "run_steps (session_steps en i node rf channel) replies = (t1, r1)" by fastforce
  have only: "e \<in> range Admin_sent" if "e \<in> set t1" for e using run_steps_sent [OF t1] that by blast
  then have quiet: "Connected \<notin> set t1" "Closed \<notin> set t1" "Rebooted 1 \<notin> set t1" by blast+
  then have none: "filter (\<lambda>e. e = Connected) t1 = []" "filter (\<lambda>e. e = Closed) t1 = []" by (auto simp: filter_empty_conv)
  have commit: "(\<exists>mss. settings_steps en i node rf channel = map Inr mss \<and> (\<forall>m \<in> set (concat mss). acknowledged_by replies m)) \<and>
      (r1 = Inr () \<longrightarrow> acknowledged_by replies Commit_edit_settings)"
    if "Admin_sent Commit_edit_settings \<in> set t1 \<or> r1 = Inr ()"
    using commit_is_last [OF t1 [unfolded session_steps_commit(1)] that] session_steps_commit(2) by blast
  from assms Inr t1 quiet none commit show ?thesis
    by (auto simp: configure_and_verify_node_def configure_session_def split: sum.splits if_splits) 
qed

subsection \<open>Firmware that applies what it acknowledges\<close>

definition owner_of :: "interface \<Rightarrow> string \<times> string" where
  "owner_of i = (let user = dict_get_default (if_users i) (the (if_my_node_num i)) []
     in (dict_get_default user ''longName'' [], dict_get_default user ''shortName'' []))"

text \<open>
  What the firmware documents about admin messages: each sets its part of the configuration, as the
  next connection reports it, and leaves the rest alone.
\<close>

definition firmware_applies :: "(interface \<Rightarrow> admin_message \<Rightarrow> interface) \<Rightarrow> bool" where
  "firmware_applies applied \<longleftrightarrow> (\<forall>i m.
     owner_of (applied i m) = (case m of Set_owner l s \<Rightarrow> (l, s) | _ \<Rightarrow> owner_of i) \<and>
     if_lora (applied i m) = (case m of Set_lora l \<Rightarrow> l | _ \<Rightarrow> if_lora i) \<and>
     if_device (applied i m) = (case m of Set_device d \<Rightarrow> d | _ \<Rightarrow> if_device i) \<and>
     if_channels (applied i m) = (case m of Set_channel c \<Rightarrow> c # tl (if_channels i) | _ \<Rightarrow> if_channels i) \<and>
     if_my_node_num (applied i m) = if_my_node_num i \<and> if_firmware_version (applied i m) = if_firmware_version i)"

text \<open>The names and values of the protobuf enumerations belong together.\<close>

definition enums_consistent :: "enums \<Rightarrow> bool" where
  "enums_consistent en \<longleftrightarrow>
     (\<forall>s n. en_region_value en s = Inr n \<longrightarrow> en_region_name en n = Inr s) \<and>
     (\<forall>s n. en_preset_value en s = Inr n \<longrightarrow> en_preset_name en n = Inr s) \<and>
     (\<forall>s n. en_role_value en s = Inr n \<longrightarrow> en_role_name en n = Inr s)"

lemma run_steps_acknowledged:
  "\<forall>m. acknowledged_by replies m \<Longrightarrow> run_steps (map Inr mss) replies = (map Admin_sent (concat mss), Inr ())"
proof (induction mss)
  case (Cons ms mss)
  have "send_admins ms replies = (map Admin_sent ms, Inr ())" for ms using Cons.prems by (induction ms) simp_all
  with Cons show ?case by simp
qed simp

lemma session_steps_built:
  assumes "session_steps en i node rf channel = map Inr mss"
  obtains region preset primary rest psk role where "en_region_value en (rf_region rf) = Inr region"
    and "en_preset_value en (rf_modem_preset rf) = Inr preset" and "if_channels i = primary # rest"
    and "key_bytes channel = Inr psk" and "en_role_value en (role_text (sn_role node)) = Inr role"
    and "concat mss = [Begin_edit_settings, Set_owner (sn_display_name node) (short_name node),
      Set_lora ((if_lora i)\<lparr>lo_use_preset := True, lo_region := region, lo_modem_preset := preset,
        lo_channel_num := rf_frequency_slot rf, lo_hop_limit := rf_hop_limit rf, lo_tx_enabled := True\<rparr>)] @
      (if dv_role (if_device i) \<noteq> role then [Set_device ((if_device i)\<lparr>dv_role := role\<rparr>)] else []) @
      [Set_channel (primary\<lparr>cc_role := PRIMARY, cc_name := ch_name channel, cc_psk := psk\<rparr>), Commit_edit_settings]"
proof -
  obtain l ds c where "lora_message en i rf = Inr l" "device_messages en i node = Inr ds" "channel_message i channel = Inr c"
    and mss: "mss = [[Begin_edit_settings], [Set_owner (sn_display_name node) (short_name node)], [l], ds, [c], [Commit_edit_settings]]"
    using assms by (auto simp: session_steps_def Cons_eq_map_conv bind_result_eq_Inr)
  then show thesis using that
    by (auto simp: lora_message_def device_messages_def channel_message_def bind_result_eq_Inr split: list.splits)
qed

text \<open>
  C24. Configuring a node works: with a firmware that applies the messages it acknowledges, a session
  whose messages could all be built ends with a successful verification of exactly the
  requested settings, for every prior configuration of the node.
\<close>

theorem configured_node_verifies:
  assumes "firmware_applies applied" and "enums_consistent en" and "\<forall>m. acknowledged_by replies m"
    and "if_my_node_num i = Some num" and "if_firmware_version i = Some version"
    and "session_steps en i node rf channel = map Inr mss"
  shows "snd (configure_and_verify_node en render (Inr i) replies (Inr (foldl applied i (concat mss))) (Inr ()) reboot node rf channel) =
    Inr \<lparr>v_node_id = sn_id node, v_node_number = num, v_firmware_version = version,
        v_owner_long_name = sn_display_name node, v_owner_short_name = short_name node, v_role = role_text (sn_role node),
        v_region = rf_region rf, v_modem_preset = rf_modem_preset rf, v_frequency_slot = rf_frequency_slot rf,
        v_hop_limit = rf_hop_limit rf, v_channel_name = ch_name channel\<rparr>"
proof -
  let ?j = "foldl applied i (concat mss)"
  obtain region preset primary rest psk role where b: "en_region_value en (rf_region rf) = Inr region"
    "en_preset_value en (rf_modem_preset rf) = Inr preset" "if_channels i = primary # rest" "key_bytes channel = Inr psk"
    "en_role_value en (role_text (sn_role node)) = Inr role"
    and sent: "concat mss = [Begin_edit_settings, Set_owner (sn_display_name node) (short_name node),
      Set_lora ((if_lora i)\<lparr>lo_use_preset := True, lo_region := region, lo_modem_preset := preset,
        lo_channel_num := rf_frequency_slot rf, lo_hop_limit := rf_hop_limit rf, lo_tx_enabled := True\<rparr>)] @
      (if dv_role (if_device i) \<noteq> role then [Set_device ((if_device i)\<lparr>dv_role := role\<rparr>)] else []) @
      [Set_channel (primary\<lparr>cc_role := PRIMARY, cc_name := ch_name channel, cc_psk := psk\<rparr>), Commit_edit_settings]"
    using session_steps_built [OF assms(6)] .
  note a = assms(1) [unfolded firmware_applies_def, rule_format]
  have j: "owner_of ?j = (sn_display_name node, short_name node)" "lo_region (if_lora ?j) = region"
    "lo_modem_preset (if_lora ?j) = preset" "lo_channel_num (if_lora ?j) = rf_frequency_slot rf"
    "lo_hop_limit (if_lora ?j) = rf_hop_limit rf" "dv_role (if_device ?j) = role"
    "if_channels ?j = primary\<lparr>cc_role := PRIMARY, cc_name := ch_name channel, cc_psk := psk\<rparr> # rest"
    "if_my_node_num ?j = Some num" "if_firmware_version ?j = Some version"
    using b(3) assms(4,5) unfolding sent by (simp_all add: a)
  then have "settings_match en ?j node rf channel"
    using b assms(2) by (simp add: settings_match_def owner_of_def Let_def enums_consistent_def)
  with \<open>if_my_node_num ?j = Some num\<close> \<open>if_firmware_version ?j = Some version\<close>
  have v: "verify en render ?j node rf channel = Inr \<lparr>v_node_id = sn_id node, v_node_number = num, v_firmware_version = version,
        v_owner_long_name = sn_display_name node, v_owner_short_name = short_name node, v_role = role_text (sn_role node),
        v_region = rf_region rf, v_modem_preset = rf_modem_preset rf, v_frequency_slot = rf_frequency_slot rf,
        v_hop_limit = rf_hop_limit rf, v_channel_name = ch_name channel\<rparr>"
    by (simp add: verify_matching)
  then show ?thesis
    by (simp add: configure_and_verify_node_def configure_session_def assms(6) run_steps_acknowledged [OF assms(3)])
qed

subsection \<open>Examples\<close>

definition lab_enums :: enums where
  "lab_enums = \<lparr>en_region_value = (\<lambda>s. if s = ''US'' then Inr 1 else Inl (ValueError s)), en_region_name = (\<lambda>n. Inr ''US''),
     en_preset_value = (\<lambda>s. if s = ''LONG_FAST'' then Inr 0 else Inl (ValueError s)), en_preset_name = (\<lambda>n. Inr ''LONG_FAST''),
     en_role_value = (\<lambda>s. if s = ''CLIENT'' then Inr 0 else Inl (ValueError s)), en_role_name = (\<lambda>n. Inr ''CLIENT'')\<rparr>"

definition lab_interface :: interface where
  "lab_interface = \<lparr>if_my_node_num = Some 7, if_firmware_version = Some ''2.6'', if_users = [],
     if_lora = \<lparr>lo_use_preset = False, lo_region = 0, lo_modem_preset = 3, lo_channel_num = 0, lo_hop_limit = 3,
       lo_tx_enabled = False, lo_rest = []\<rparr>,
     if_device = \<lparr>dv_role = 5, dv_rest = []\<rparr>, if_channels = [\<lparr>cc_role = 0, cc_name = '''', cc_psk = [9], cc_rest = []\<rparr>]\<rparr>"

definition lab_applied :: "interface \<Rightarrow> admin_message \<Rightarrow> interface" where
  "lab_applied i m = (case m of
       Set_owner l s \<Rightarrow> i\<lparr>if_users := [(the (if_my_node_num i), [(''longName'', l), (''shortName'', s)])]\<rparr>
     | Set_lora l \<Rightarrow> i\<lparr>if_lora := l\<rparr> | Set_device d \<Rightarrow> i\<lparr>if_device := d\<rparr>
     | Set_channel c \<Rightarrow> i\<lparr>if_channels := c # tl (if_channels i)\<rparr> | _ \<Rightarrow> i)"

definition lab_node :: scenario_node where
  "lab_node = \<lparr>sn_id = ''node-1'', sn_display_name = ''Node 1'', sn_role = CLIENT, sn_api_port = 45001\<rparr>"

lemma default_key: "key_bytes default_channel = Inr [1]"
  by (simp add: key_bytes_def default_channel_def b64decode_def codes_def base64_value_def)

definition lab_sent :: "admin_message list list" where
  "lab_sent = [[Begin_edit_settings], [Set_owner ''Node 1'' ''N1''],
     [Set_lora \<lparr>lo_use_preset = True, lo_region = 1, lo_modem_preset = 0, lo_channel_num = 20, lo_hop_limit = 4,
       lo_tx_enabled = True, lo_rest = []\<rparr>],
     [Set_device \<lparr>dv_role = 0, dv_rest = []\<rparr>],
     [Set_channel \<lparr>cc_role = 1, cc_name = ''Simulator'', cc_psk = [1], cc_rest = []\<rparr>], [Commit_edit_settings]]"

lemma lab_session: "session_steps lab_enums lab_interface lab_node default_rf default_channel = map Inr lab_sent"
  by (simp add: session_steps_def lab_sent_def lora_message_def device_messages_def channel_message_def default_key lab_enums_def
      lab_interface_def lab_node_def short_name_def remove_prefix_def role_text_def PRIMARY_def default_rf_def)
    (simp add: default_channel_def)

theorem configured_node_verifies_witness:
  "snd (configure_and_verify_node lab_enums (\<lambda>_. []) (Inr lab_interface) (\<lambda>_. Response None)
      (Inr (foldl lab_applied lab_interface (concat lab_sent))) (Inr ()) True lab_node default_rf default_channel) =
    Inr \<lparr>v_node_id = sn_id lab_node, v_node_number = 7, v_firmware_version = ''2.6'',
        v_owner_long_name = sn_display_name lab_node, v_owner_short_name = short_name lab_node, v_role = role_text (sn_role lab_node),
        v_region = rf_region default_rf, v_modem_preset = rf_modem_preset default_rf,
        v_frequency_slot = rf_frequency_slot default_rf, v_hop_limit = rf_hop_limit default_rf, v_channel_name = ch_name default_channel\<rparr>"
proof (rule configured_node_verifies)
  show "firmware_applies lab_applied"
    by (auto simp: firmware_applies_def lab_applied_def owner_of_def Let_def dict_get_default_def split: admin_message.split)
  show "enums_consistent lab_enums" by (auto simp: enums_consistent_def lab_enums_def split: if_splits)
  show "session_steps lab_enums lab_interface lab_node default_rf default_channel = map Inr lab_sent" by (rule lab_session)
qed (simp_all add: admin_outcome_def lab_interface_def)

theorem settings_are_transactional_witness:
  "\<exists>trace r. configure_and_verify_node lab_enums (\<lambda>_. []) (Inr lab_interface) (\<lambda>_. Response None)
      (Inr (foldl lab_applied lab_interface (concat lab_sent))) (Inr ()) True lab_node default_rf default_channel = (trace, r) \<and>
    (Admin_sent Commit_edit_settings \<in> set trace \<longrightarrow>
      (\<exists>i mss. Inr lab_interface = (Inr i :: interface result) \<and> settings_steps lab_enums i lab_node default_rf default_channel = map Inr mss \<and>
         (\<forall>m \<in> set (concat mss). acknowledged_by (\<lambda>_. Response None) m))) \<and>
    (Rebooted 1 \<in> set trace \<longrightarrow> True \<and> acknowledged_by (\<lambda>_. Response None) Commit_edit_settings \<and>
      (\<exists>j v. Inr (foldl lab_applied lab_interface (concat lab_sent)) = (Inr j :: interface result) \<and>
         verify lab_enums (\<lambda>_. []) j lab_node default_rf default_channel = Inr v)) \<and>
    length (filter (\<lambda>e. e = Connected) trace) = length (filter (\<lambda>e. e = Closed) trace)"
proof -
  obtain trace r where t: "configure_and_verify_node lab_enums (\<lambda>_. []) (Inr lab_interface) (\<lambda>_. Response None)
      (Inr (foldl lab_applied lab_interface (concat lab_sent))) (Inr ()) True lab_node default_rf default_channel = (trace, r)"
    by fastforce
  from settings_are_transactional [OF t] t show ?thesis by blast
qed

theorem channel_key_not_disclosed_witness:
  "verify lab_enums (\<lambda>_. []) (with_key [3] lab_interface) lab_node default_rf default_channel =
   verify lab_enums (\<lambda>_. []) (with_key [4] lab_interface) lab_node default_rf (default_channel\<lparr>ch_psk := ''Ag==''\<rparr>)"
proof (rule channel_key_not_disclosed)
  show "key_bytes (default_channel\<lparr>ch_psk := ''Ag==''\<rparr>) = Inr [2]"
    by (simp add: key_bytes_def default_channel_def b64decode_def codes_def base64_value_def)
  show "([3] :: bytes) = [1] \<longleftrightarrow> ([4] :: bytes) = [2]" by code_simp
qed (simp_all add: default_key)

end
