(* ===== verification/Service.thy ===== *)
theory Service
  imports System Processes Configure
begin

text \<open>
  The simulator service, \<^verbatim>\<open>src/backend/app/simulator/service.py\<close>: its state, its queries,
  the handlers that the gateways, the medium and the supervisor call, the topology and traffic
  operations, and the stretches of code between two suspension points of the lifecycle commands,
  which \<open>Service_Steps\<close> composes. The event broker is one object that the service, the
  traffic controller and the medium share: \<open>sv_broker\<close> is its state, and the controller
  works on a copy that \<open>put_traffic\<close> writes back. Identifiers and clock readings that the
  code takes from its surroundings are arguments.
\<close>

subsection \<open>Data\<close>

datatype lifecycle_state = L_STOPPED | L_STARTING | L_WARMING_UP | L_RUNNING | L_STOPPING | L_FAILED

definition lifecycle_text :: "lifecycle_state \<Rightarrow> string" where
  "lifecycle_text s =
     (case s of L_STOPPED \<Rightarrow> ''STOPPED'' | L_STARTING \<Rightarrow> ''STARTING'' | L_WARMING_UP \<Rightarrow> ''WARMING_UP''
      | L_RUNNING \<Rightarrow> ''RUNNING'' | L_STOPPING \<Rightarrow> ''STOPPING'' | L_FAILED \<Rightarrow> ''FAILED'')"

record node_metrics =
  nm_tx :: int
  nm_rx :: int
  nm_rx_bad :: int
  nm_rx_bad_initialized :: bool
  nm_rx_duplicate :: int
  nm_channel_utilization :: "pyfloat option"

definition new_node_metrics :: "bool \<Rightarrow> node_metrics" where
  "new_node_metrics rx_bad_initialized =
     \<lparr>nm_tx = 0, nm_rx = 0, nm_rx_bad = 0, nm_rx_bad_initialized = rx_bad_initialized,
      nm_rx_duplicate = 0, nm_channel_utilization = None\<rparr>"

text \<open>The task that cleans up after a failure at run time: none, scheduled for a reason, or ended.\<close>

datatype cleanup_task = No_cleanup | Cleanup_pending string | Cleanup_done

text \<open>
  \<open>sv_traffic_serial\<close> counts the traffic controllers that were created, so that it tells whether two
  references are the same object; \<open>sv_late\<close> holds the controllers whose finalization
  continues after they were detached.
\<close>

record service =
  sv_build :: build_metadata
  sv_warmup_seconds :: pyfloat
  sv_local_stats_deadline_seconds :: pyfloat
  sv_local_stats_retry_seconds :: pyfloat
  sv_scenario :: scenario
  sv_state :: lifecycle_state
  sv_simulation_id :: "string option"
  sv_message :: string
  sv_warming_up_until :: "pyfloat option"
  sv_broker :: event_broker
  sv_supervisor :: supervisor
  sv_gateways :: fleet
  sv_verifications :: "(string, verification) dict"
  sv_node_metrics :: "(string, node_metrics) dict"
  sv_nodeinfo_observations :: "(string \<times> string) set"
  sv_local_stats_response_ids :: "(string, int) dict"
  sv_control_packet_id :: "32 word"
  sv_medium :: "medium option"
  sv_traffic :: "controller option"
  sv_traffic_serial :: nat
  sv_volatile_results :: "(string, run_result) dict"
  sv_last_traffic_summary :: "run_summary option"
  sv_failure_cleanup :: cleanup_task
  sv_startup_task :: bool
  sv_lag_task :: bool
  sv_late :: "controller list"

definition MAX_VOLATILE_RESULTS :: nat where "MAX_VOLATILE_RESULTS = 8"

definition new_service :: "build_metadata \<Rightarrow> pyfloat \<Rightarrow> pyfloat \<Rightarrow> pyfloat \<Rightarrow> scenario \<Rightarrow> event_broker \<Rightarrow> supervisor \<Rightarrow>
    service result" where
  "new_service build warmup deadline retry scenario broker processes =
     (if deadline \<le> 0 \<or> retry \<le> 0 then Inl (ValueError ''local-stat sampling intervals must be positive'')
      else Inr \<lparr>sv_build = build, sv_warmup_seconds = warmup, sv_local_stats_deadline_seconds = deadline,
        sv_local_stats_retry_seconds = retry, sv_scenario = scenario, sv_state = L_STOPPED,
        sv_simulation_id = None, sv_message = ''Ready to start'', sv_warming_up_until = None, sv_broker = broker,
        sv_supervisor = processes, sv_gateways = [], sv_verifications = [], sv_node_metrics = [],
        sv_nodeinfo_observations = {}, sv_local_stats_response_ids = [], sv_control_packet_id = 0x4D4C0000,
        sv_medium = None, sv_traffic = None, sv_traffic_serial = 0, sv_volatile_results = [],
        sv_last_traffic_summary = None, sv_failure_cleanup = No_cleanup, sv_startup_task = False,
        sv_lag_task = False, sv_late = []\<rparr>)"

subsection \<open>The shared broker\<close>

definition publish :: "packet_event \<Rightarrow> service \<Rightarrow> service" where
  "publish e s = s\<lparr>sv_broker := snd (broker_publish e (sv_broker s))\<rparr>"

definition shared :: "service \<Rightarrow> controller \<Rightarrow> controller" where
  "shared s c = c\<lparr>t_broker := sv_broker s\<rparr>"

definition put_traffic :: "controller \<Rightarrow> service \<Rightarrow> service" where
  "put_traffic c s = s\<lparr>sv_traffic := Some c, sv_broker := t_broker c\<rparr>"

definition with_traffic :: "(controller \<Rightarrow> controller) \<Rightarrow> service \<Rightarrow> service" where
  "with_traffic f s = (case sv_traffic s of None \<Rightarrow> s | Some c \<Rightarrow> put_traffic (f (shared s c)) s)"

definition with_traffic_result :: "(controller \<Rightarrow> controller \<times> 'a) \<Rightarrow> 'a \<Rightarrow> service \<Rightarrow> service \<times> 'a" where
  "with_traffic_result f absent s =
     (case sv_traffic s of
        None \<Rightarrow> (s, absent)
      | Some c \<Rightarrow> (case f (shared s c) of (c', x) \<Rightarrow> (put_traffic c' s, x)))"

text \<open>The handlers with which the service creates the medium.\<close>

definition service_observer :: "env \<Rightarrow> pyfloat \<Rightarrow> service observer" where
  "service_observer ev now =
     \<lparr>ob_transmitted = (\<lambda>node p airtime. with_traffic_result (record_rf_transmission ev now node p airtime) (Inr None)),
      ob_dropped = (\<lambda>node p reason. with_traffic (record_drop ev now node p reason)),
      ob_publish = (\<lambda>e s. (fst (broker_publish e (sv_broker s)), publish e s))\<rparr>"

definition publish_lifecycle :: "pyfloat \<Rightarrow> service \<Rightarrow> service" where
  "publish_lifecycle now s =
     publish ((new_event now LIFECYCLE)\<lparr>e_result := Some (lifecycle_text (sv_state s)), e_detail := Some (sv_message s)\<rparr>) s"

subsection \<open>Views\<close>

record capability_view =
  cv_collision_available :: bool
  cv_collision_detail :: string
  cv_maximum_nodes :: int
  cv_provenance_available :: bool
  cv_build :: build_metadata

definition capabilities :: "bool \<Rightarrow> service \<Rightarrow> capability_view" where
  "capabilities marker_exists s =
     \<lparr>cv_collision_available = marker_exists,
      cv_collision_detail = (if marker_exists then ''Native SimRadio overlap handling was compiled and probed.''
        else ''Native collision marker is absent. Simulation start is disabled.''),
      cv_maximum_nodes = 10, cv_provenance_available = metadata_available (sv_build s), cv_build = sv_build s\<rparr>"

record lifecycle_view =
  lv_state :: lifecycle_state
  lv_simulation_id :: "string option"
  lv_message :: string
  lv_warming_up_until :: "pyfloat option"
  lv_active_traffic_run_id :: "string option"

definition active_run :: "service \<Rightarrow> string option" where
  "active_run s =
     (case sv_traffic s of
        None \<Rightarrow> None
      | Some c \<Rightarrow> (case t_current c of
          None \<Rightarrow> None
        | Some r \<Rightarrow> if t_state c \<in> {Run_RUNNING, Run_STOPPING} then Some (r_run_id r) else None))"

definition lifecycle :: "service \<Rightarrow> lifecycle_view" where
  "lifecycle s =
     \<lparr>lv_state = sv_state s, lv_simulation_id = sv_simulation_id s, lv_message = sv_message s,
      lv_warming_up_until = sv_warming_up_until s, lv_active_traffic_run_id = active_run s\<rparr>"

record node_view =
  nv_id :: string
  nv_name :: string
  nv_role :: string
  nv_process_state :: process_state
  nv_process_id :: "int option"
  nv_gateway_state :: gateway_state
  nv_external_client_connected :: bool
  nv_public_endpoint :: string
  nv_firmware_version :: "string option"
  nv_node_number :: "int option"
  nv_transmit_count :: int
  nv_receive_count :: int
  nv_failed_receive_count :: int
  nv_duplicate_receive_count :: int
  nv_channel_utilization :: "pyfloat option"

definition node_view_of :: "service \<Rightarrow> scenario_node \<Rightarrow> node_view" where
  "node_view_of s node =
     (let rec = dict_get (sp_records (sv_supervisor s)) (sn_id node);
          gateway = dict_get (sv_gateways s) (sn_id node);
          verification = dict_get (sv_verifications s) (sn_id node);
          metrics = dict_get_default (sv_node_metrics s) (sn_id node) (new_node_metrics False)
      in \<lparr>nv_id = sn_id node, nv_name = sn_display_name node, nv_role = role_text (sn_role node),
          nv_process_state = (case rec of None \<Rightarrow> P_STOPPED | Some r \<Rightarrow> pr_state r),
          nv_process_id = Option.bind rec pid,
          nv_gateway_state = (case gateway of None \<Rightarrow> GW_STOPPED | Some g \<Rightarrow> gw_state g),
          nv_external_client_connected = (case gateway of None \<Rightarrow> False | Some g \<Rightarrow> gw_external_connected g),
          nv_public_endpoint = ''127.0.0.1:'' @ show_int (sn_api_port node),
          nv_firmware_version = map_option v_firmware_version verification,
          nv_node_number = map_option v_node_number verification,
          nv_transmit_count = nm_tx metrics, nv_receive_count = nm_rx metrics,
          nv_failed_receive_count = nm_rx_bad metrics, nv_duplicate_receive_count = nm_rx_duplicate metrics,
          nv_channel_utilization = nm_channel_utilization metrics\<rparr>)"

definition nodes :: "service \<Rightarrow> node_view list" where
  "nodes s = map (node_view_of s) (sc_nodes (sv_scenario s))"

subsection \<open>Results\<close>

text \<open>
  \<open>stored\<close> tells what the results directory holds for a run: no file, or what validating the
  file gives.
\<close>

definition current_matches :: "string \<Rightarrow> service \<Rightarrow> controller option" where
  "current_matches run_id s =
     (case sv_traffic s of
        None \<Rightarrow> None
      | Some c \<Rightarrow> (case t_current c of
          None \<Rightarrow> None
        | Some r \<Rightarrow> if r_run_id r = run_id then Some c else None))"

definition saved_result :: "(string \<Rightarrow> run_result result option) \<Rightarrow> string \<Rightarrow> service \<Rightarrow> run_result result" where
  "saved_result stored run_id s =
     (case stored run_id of
        Some r \<Rightarrow> r
      | None \<Rightarrow> (case dict_get (sv_volatile_results s) run_id of
          Some r \<Rightarrow> Inr r
        | None \<Rightarrow> Inl (FileNotFoundError run_id)))"

definition traffic_result :: "(string \<Rightarrow> run_result result option) \<Rightarrow> string \<Rightarrow> service \<Rightarrow> run_result result" where
  "traffic_result stored run_id s =
     (case Option.bind (current_matches run_id s) run_result_of of
        Some r \<Rightarrow> Inr r
      | None \<Rightarrow> saved_result stored run_id s)"

definition traffic_result_is_complete :: "(string \<Rightarrow> run_result result option) \<Rightarrow> string \<Rightarrow> service \<Rightarrow> bool result" where
  "traffic_result_is_complete stored run_id s =
     (case current_matches run_id s of
        Some c \<Rightarrow> Inr (result_is_finalized run_id c)
      | None \<Rightarrow>
          if stored run_id \<noteq> None \<or> dict_get (sv_volatile_results s) run_id \<noteq> None then Inr True
          else Inl (FileNotFoundError run_id))"

definition traffic_summary :: "(string \<Rightarrow> run_result result option) \<Rightarrow> (string \<Rightarrow> run_summary result option) \<Rightarrow> pyfloat \<Rightarrow> string \<Rightarrow>
    service \<Rightarrow> run_summary result" where
  "traffic_summary stored stored_summary now run_id s =
     bind_result (case current_matches run_id s of None \<Rightarrow> Inr None | Some c \<Rightarrow> summary now c) (\<lambda>current.
       case current of
         Some sm \<Rightarrow> Inr sm
       | None \<Rightarrow>
           (case stored_summary run_id of
              Some sm \<Rightarrow> sm
            | None \<Rightarrow> bind_result (traffic_result stored run_id s) (\<lambda>r. Inr (summarize_result r))))"

definition current_traffic_summary :: "pyfloat \<Rightarrow> service \<Rightarrow> run_summary option result" where
  "current_traffic_summary now s =
     (case sv_traffic s of Some c \<Rightarrow> summary now c | None \<Rightarrow> Inr (sv_last_traffic_summary s))"

text \<open>\<open>listing\<close> holds the file names in the results directory, when it exists.\<close>

definition ends_with :: "string \<Rightarrow> string \<Rightarrow> bool" where
  "ends_with ending s \<longleftrightarrow> drop (length s - length ending) s = ending"

definition path_stem :: "string \<Rightarrow> string" where
  "path_stem name = (if name = ''.json'' then name else take (length name - 5) name)"

definition completed_runs :: "string list option \<Rightarrow> service \<Rightarrow> string list" where
  "completed_runs listing s =
     (let persisted = (case listing of None \<Rightarrow> {}
            | Some names \<Rightarrow> path_stem ` {n \<in> set names. ends_with ''.json'' n \<and> \<not> ends_with ''.summary.json'' n})
      in sorted_list_of_set (persisted \<union> set (dict_keys (sv_volatile_results s))))"

text \<open>The \<^verbatim>\<open>while\<close> loop that drops the oldest volatile results.\<close>

definition trim_volatile :: "(string, run_result) dict \<Rightarrow> (string, run_result) dict" where
  "trim_volatile d = drop (length d - MAX_VOLATILE_RESULTS) d"

definition archive_result :: "bool \<Rightarrow> controller \<Rightarrow> service \<Rightarrow> service" where
  "archive_result file_exists c s =
     (case t_current c of
        None \<Rightarrow> s
      | Some r \<Rightarrow>
          if \<not> result_is_finalized (r_run_id r) c \<or> file_exists then s
          else case run_result_of c of
            None \<Rightarrow> s
          | Some f \<Rightarrow>
              if \<not> r_finished f then s
              else s\<lparr>sv_volatile_results := trim_volatile (dict_set (r_run_id f) f (sv_volatile_results s))\<rparr>)"

text \<open>\<^verbatim>\<open>_settle_late_traffic_finalization\<close> after the controller has finalized.\<close>

definition settle_late :: "pyfloat \<Rightarrow> bool \<Rightarrow> controller \<Rightarrow> service \<Rightarrow> service \<times> unit result" where
  "settle_late now file_exists c s =
     (case summary now c of
        Inl e \<Rightarrow> (s, Inl e)
      | Inr sm \<Rightarrow>
          let s1 = (case sm of
                 None \<Rightarrow> s
               | Some x \<Rightarrow> if (case sv_last_traffic_summary s of None \<Rightarrow> True | Some y \<Rightarrow> s_run_id y = s_run_id x)
                          then s\<lparr>sv_last_traffic_summary := Some x\<rparr> else s)
          in (archive_result file_exists c s1, Inr ()))"

subsection \<open>The scenario and its links\<close>

definition replace_scenario :: "scenario \<Rightarrow> service \<Rightarrow> service \<times> scenario result" where
  "replace_scenario sc s =
     (if sv_state s \<noteq> L_STOPPED
      then (s, Inl (SimulationConflict ''SCENARIO_LOCKED''
             ''node, identity, channel, and RF settings are editable only while stopped''))
      else (s\<lparr>sv_scenario := sc\<rparr>, Inr sc))"

text \<open>The loop over \<^verbatim>\<open>zip(events, changed, strict=True)\<close>.\<close>

fun record_changes :: "packet_event list \<Rightarrow> directed_link list \<Rightarrow> controller \<Rightarrow> controller \<times> unit result" where
  "record_changes [] [] c = (c, Inr ())"
| "record_changes (e # es) (l # ls) c =
     (case record_topology_change e l c of
        (c1, Inl err) \<Rightarrow> (c1, Inl err)
      | (c1, Inr _) \<Rightarrow> record_changes es ls c1)"
| "record_changes _ _ c = (c, Inl (ValueError ''zip() arguments have different lengths''))"

definition runtime_error :: "pyerr \<Rightarrow> bool" where
  "runtime_error e =
     (case e of RuntimeError _ \<Rightarrow> True | GatewayError _ \<Rightarrow> True | PacketIdQuarantineCapacityError _ \<Rightarrow> True
      | NodeConfigurationError _ \<Rightarrow> True | SimulationConflict _ _ \<Rightarrow> True | _ \<Rightarrow> False)"

definition value_error :: "pyerr \<Rightarrow> bool" where
  "value_error e = (case e of ValueError _ \<Rightarrow> True | DecodeError _ \<Rightarrow> True | _ \<Rightarrow> False)"

definition scenario_changes :: "scenario \<Rightarrow> scenario \<Rightarrow> directed_link list result" where
  "scenario_changes current updated =
     (let previous = link_map current
      in bind_result (traverse_result (\<lambda>l. case dict_get previous (link_key l) of
             None \<Rightarrow> Inl (KeyError (arrow (link_key l))) | Some p \<Rightarrow> Inr (p \<noteq> l, l)) (sc_links updated))
           (\<lambda>marked. Inr (map snd (filter fst marked))))"

definition apply_runtime_scenario :: "env \<Rightarrow> pyfloat \<Rightarrow> scenario \<Rightarrow> service \<Rightarrow> service \<times> unit result" where
  "apply_runtime_scenario ev now updated s =
     (case sv_medium s of
        None \<Rightarrow> (s, Inl (RuntimeError ''runtime medium is unavailable''))
      | Some md \<Rightarrow>
          (case scenario_changes (sv_scenario s) updated of
             Inl e \<Rightarrow> (s, Inl e)
           | Inr changed \<Rightarrow>
               (case (case sv_traffic s of None \<Rightarrow> Inr ()
                      | Some c \<Rightarrow> ensure_topology_change_capacity (int (length changed)) c) of
                  Inl e \<Rightarrow> (s, Inl (if runtime_error e then SimulationConflict ''TOPOLOGY_HISTORY_FULL'' (exc_text e) else e))
                | Inr _ \<Rightarrow>
                    (case apply_links (service_observer ev now) now (sc_links updated) md s of
                       (md', s1, Inl e) \<Rightarrow> (s1\<lparr>sv_medium := Some md'\<rparr>, Inl e)
                     | (md', s1, Inr events) \<Rightarrow>
                         with_traffic_result (record_changes events changed) (Inr ())
                           (s1\<lparr>sv_medium := Some md', sv_scenario := updated\<rparr>)))))"

definition update_links :: "env \<Rightarrow> pyfloat \<Rightarrow> directed_link list \<Rightarrow> service \<Rightarrow> service \<times> directed_link list result" where
  "update_links ev now updates s =
     (if updates = [] then (s, Inl (SimulationConflict ''INVALID_LINK_UPDATE'' ''at least one link update is required''))
      else let update_map = dict_of (map (\<lambda>l. (link_key l, l)) updates) [] in
      if length update_map \<noteq> length updates
      then (s, Inl (SimulationConflict ''INVALID_LINK_UPDATE'' ''link updates must be unique''))
      else if sv_state s \<noteq> L_RUNNING \<or> sv_medium s = None
      then (s, Inl (SimulationConflict ''INVALID_LIFECYCLE_STATE'' ''runtime links require RUNNING state''))
      else case find (\<lambda>k. dict_get (link_map (sv_scenario s)) k = None) (dict_keys update_map) of
        Some unknown \<Rightarrow> (s, Inl (SimulationConflict ''UNKNOWN_LINK'' (''unknown directed link: '' @ arrow unknown)))
      | None \<Rightarrow>
          let links = map (\<lambda>l. dict_get_default update_map (link_key l) l) (sc_links (sv_scenario s))
          in case apply_runtime_scenario ev now ((sv_scenario s)\<lparr>sc_links := links\<rparr>) s of
               (s1, Inl e) \<Rightarrow> (s1, Inl e)
             | (s1, Inr _) \<Rightarrow> (s1, Inr updates))"

definition update_link_command :: "env \<Rightarrow> pyfloat \<Rightarrow> directed_link \<Rightarrow> service \<Rightarrow> service \<times> directed_link result" where
  "update_link_command ev now l s =
     (case update_links ev now [l] s of
        (s1, Inl e) \<Rightarrow> (s1, Inl e)
      | (s1, Inr ls) \<Rightarrow> (s1, case ls of [] \<Rightarrow> Inl IndexError | x # _ \<Rightarrow> Inr x))"

definition apply_topology :: "env \<Rightarrow> pyfloat \<Rightarrow> topology_preset \<Rightarrow> service \<Rightarrow> service \<times> scenario result" where
  "apply_topology ev now preset s =
     (case apply_topology_preset (sv_scenario s) preset of
        Inl e \<Rightarrow> (s, Inl e)
      | Inr updated \<Rightarrow>
          if sv_state s = L_STOPPED then (s\<lparr>sv_scenario := updated\<rparr>, Inr updated)
          else if sv_state s \<noteq> L_RUNNING \<or> sv_medium s = None
          then (s, Inl (SimulationConflict ''INVALID_LIFECYCLE_STATE''
                 (''cannot apply topology from '' @ lifecycle_text (sv_state s))))
          else case apply_runtime_scenario ev now updated s of
            (s1, Inl e) \<Rightarrow> (s1, Inl e)
          | (s1, Inr _) \<Rightarrow> (s1, Inr updated))"

subsection \<open>Traffic\<close>

text \<open>\<^verbatim>\<open>start_traffic\<close> up to the sampling of the baseline, which gives the controller to start.\<close>

definition start_traffic_begin :: "service \<Rightarrow> nat result" where
  "start_traffic_begin s =
     (case sv_traffic s of
        None \<Rightarrow> Inl (SimulationConflict ''INVALID_LIFECYCLE_STATE'' ''traffic requires RUNNING state'')
      | Some c \<Rightarrow>
          if sv_state s \<noteq> L_RUNNING
          then Inl (SimulationConflict ''INVALID_LIFECYCLE_STATE'' ''traffic requires RUNNING state'')
          else if t_state c \<in> {Run_RUNNING, Run_STOPPING}
          then Inl (SimulationConflict ''TRAFFIC_RUN_ACTIVE'' ''a traffic run is already active'')
          else Inr (sv_traffic_serial s))"

definition start_traffic_error :: "pyerr \<Rightarrow> pyerr" where
  "start_traffic_error e =
     (case e of
        PacketIdQuarantineCapacityError m \<Rightarrow> SimulationConflict ''PACKET_ID_QUARANTINE_FULL'' m
      | _ \<Rightarrow> if runtime_error e then SimulationConflict ''TRAFFIC_RUN_ACTIVE'' (exc_text e)
             else if value_error e then SimulationConflict ''INVALID_TRAFFIC_REQUEST'' (exc_text e) else e)"

text \<open>The rest of \<^verbatim>\<open>start_traffic\<close>, with the sample or the exception of the sampler.\<close>

definition start_traffic_end :: "pyfloat \<Rightarrow> string \<Rightarrow> bool \<Rightarrow> traffic_request \<Rightarrow> nat \<Rightarrow> failed_reception_sample result \<Rightarrow>
    service \<Rightarrow> service \<times> string result" where
  "start_traffic_end now run_id file_exists q serial baseline s =
     (case baseline of
        Inl e \<Rightarrow> (s, Inl (SimulationConflict ''LOCAL_STATS_UNAVAILABLE''
                  (''could not capture native local statistics: '' @ exc_text e)))
      | Inr sample \<Rightarrow>
          (case sv_traffic s of
             Some c \<Rightarrow>
               if sv_state s \<noteq> L_RUNNING \<or> sv_traffic_serial s \<noteq> serial
               then (s, Inl (SimulationConflict ''INVALID_LIFECYCLE_STATE''
                      ''simulation stopped while traffic baselines were being captured''))
               else let s1 = archive_result file_exists c s
                    in (case start_run now run_id q (Some (sv_scenario s)) (Full_Sample sample) (shared s1 c) of
                          (c', Inr started) \<Rightarrow> (put_traffic c' s1, Inr started)
                        | (c', Inl e) \<Rightarrow> (put_traffic c' s1, Inl (start_traffic_error e)))
           | None \<Rightarrow> (s, Inl (SimulationConflict ''INVALID_LIFECYCLE_STATE''
                      ''simulation stopped while traffic baselines were being captured''))))"

subsection \<open>Failures at run time\<close>

definition schedule_runtime_failure :: "pyfloat \<Rightarrow> string \<Rightarrow> string \<Rightarrow> service \<Rightarrow> service" where
  "schedule_runtime_failure now category detail s =
     (if sv_state s \<in> {L_STOPPING, L_STOPPED, L_FAILED} then s
      else let s1 = publish_lifecycle now (s\<lparr>sv_state := L_FAILED, sv_message := category @ '': '' @ detail\<rparr>)
           in if sv_startup_task s1 then s1
              else (case sv_failure_cleanup s1 of
                Cleanup_pending _ \<Rightarrow> s1
              | _ \<Rightarrow> s1\<lparr>sv_failure_cleanup := Cleanup_pending (sv_message s1)\<rparr>))"

definition on_medium_failure :: "pyfloat \<Rightarrow> string \<Rightarrow> pyerr \<Rightarrow> service \<Rightarrow> service" where
  "on_medium_failure now node_id e =
     schedule_runtime_failure now ''SIMULATOR_OVERLOAD''
       (''RF medium worker for '' @ node_id @ '' failed: '' @ exc_text e)"

definition on_process_failure :: "pyfloat \<Rightarrow> string \<Rightarrow> int \<Rightarrow> service \<Rightarrow> service" where
  "on_process_failure now node_id return_code s =
     (if sv_state s \<in> {L_STOPPING, L_STOPPED, L_FAILED} then s
      else schedule_runtime_failure now ''FIRMWARE_PROCESS_FAILED''
             (''Firmware node '' @ node_id @ '' exited with code '' @ show_int return_code) s)"

definition on_gateway_event :: "pyfloat \<Rightarrow> string \<Rightarrow> string \<Rightarrow> string \<Rightarrow> service \<Rightarrow> service" where
  "on_gateway_event now node_id kind detail s =
     (let s1 = (if kind \<in> {''gateway.started'', ''gateway.stopped'', ''gateway.failed'', ''gateway.client_connected'',
                          ''gateway.client_disconnected''}
                then publish ((new_event now NODE_STATE)\<lparr>e_transmitter := Some node_id, e_result := Some kind,
                       e_detail := Some detail\<rparr>) s
                else s)
      in if kind \<in> {''gateway.failed'', ''gateway.rf_queue_full''} \<and> sv_state s1 \<in> {L_WARMING_UP, L_RUNNING}
         then schedule_runtime_failure now
                (if kind = ''gateway.rf_queue_full'' then ''SIMULATOR_OVERLOAD'' else ''GATEWAY_FAILED'')
                (''Gateway for '' @ node_id @ '': '' @ detail) s1
         else s1)"

text \<open>One turn of a medium worker, and its report when it fails.\<close>

definition medium_turn :: "env \<Rightarrow> (pyfloat \<Rightarrow> rat) \<Rightarrow> pyfloat \<Rightarrow> string \<Rightarrow> service \<Rightarrow> service" where
  "medium_turn ev single now node s =
     (case sv_medium s of
        None \<Rightarrow> s
      | Some md \<Rightarrow>
          (case node_loop_turn (en_codec ev) (service_observer ev now) single now node md (sv_gateways s) s of
             (fleet, s1, out) \<Rightarrow>
               let s2 = s1\<lparr>sv_gateways := fleet\<rparr>
               in (case out of Inr _ \<Rightarrow> s2 | Inl e \<Rightarrow> on_medium_failure now node e s2)))"

subsection \<open>Messages from the firmware\<close>

record local_stats =
  ls_num_packets_tx :: int
  ls_num_packets_rx :: int
  ls_num_packets_rx_bad :: int
  ls_num_rx_dupe :: int

text \<open>A parsed telemetry message, as far as the service reads it.\<close>

datatype telemetry = Local_stats local_stats | Device_metrics pyfloat | Other_telemetry

definition observe_node_info :: "string \<Rightarrow> mesh_packet \<Rightarrow> service \<Rightarrow> service" where
  "observe_node_info node_id p s =
     (case find (\<lambda>(candidate, v). v_node_number v = p_from p) (sv_verifications s) of
        None \<Rightarrow> s
      | Some (source, _) \<Rightarrow>
          if source \<noteq> node_id
          then s\<lparr>sv_nodeinfo_observations := insert (source, node_id) (sv_nodeinfo_observations s)\<rparr> else s)"

definition record_local_stats :: "pyfloat \<Rightarrow> string \<Rightarrow> local_stats \<Rightarrow> int \<Rightarrow> node_metrics \<Rightarrow> service \<Rightarrow> service" where
  "record_local_stats now node_id ls request_id m s =
     (let m1 = m\<lparr>nm_tx := ls_num_packets_tx ls, nm_rx := ls_num_packets_rx ls, nm_rx_bad := ls_num_packets_rx_bad ls,
                nm_rx_bad_initialized := True, nm_rx_duplicate := ls_num_rx_dupe ls\<rparr>;
          s1 = s\<lparr>sv_node_metrics := dict_set node_id m1 (sv_node_metrics s)\<rparr>;
          s2 = with_traffic (\<lambda>c. record_duplicate_receptions now node_id (ls_num_rx_dupe ls)
                 (record_failed_receptions now node_id (ls_num_packets_rx_bad ls) c)) s1;
          s3 = (if nm_rx_bad_initialized m \<and> nm_rx_bad m < ls_num_packets_rx_bad ls
                then publish ((new_event now COLLISION)\<lparr>e_receiver := Some node_id, e_result := Some ''native-rx-bad'',
                       e_detail := Some ''Firmware local statistics incremented num_packets_rx_bad''\<rparr>) s2
                else s2)
      in s3\<lparr>sv_local_stats_response_ids := dict_set node_id request_id (sv_local_stats_response_ids s3)\<rparr>)"

definition handle_telemetry :: "(bytes \<Rightarrow> telemetry option) \<Rightarrow> pyfloat \<Rightarrow> string \<Rightarrow> data_msg \<Rightarrow> service \<Rightarrow> service" where
  "handle_telemetry parse now node_id d s =
     (case parse (d_payload d) of
        None \<Rightarrow> s
      | Some t \<Rightarrow>
          (case dict_get (sv_node_metrics s) node_id of
             None \<Rightarrow> s
           | Some m \<Rightarrow>
               (case t of
                  Local_stats ls \<Rightarrow> record_local_stats now node_id ls (d_request_id d) m s
                | Device_metrics u \<Rightarrow>
                    s\<lparr>sv_node_metrics := dict_set node_id (m\<lparr>nm_channel_utilization := Some u\<rparr>) (sv_node_metrics s)\<rparr>
                | Other_telemetry \<Rightarrow> s)))"

definition on_from_radio :: "env \<Rightarrow> (bytes \<Rightarrow> telemetry option) \<Rightarrow> pyfloat \<Rightarrow> string \<Rightarrow> from_radio \<Rightarrow> service \<Rightarrow>
    service \<times> unit result" where
  "on_from_radio ev parse now node_id message s =
     (case with_traffic_result (handle_from_radio ev now node_id message) (Inr ()) s of
        (s1, Inl e) \<Rightarrow> (s1, Inl e)
      | (s1, Inr _) \<Rightarrow>
          (case message of
             FR_packet p \<Rightarrow>
               (case decoded_data p of
                  None \<Rightarrow> (s1, Inr ())
                | Some d \<Rightarrow>
                    if d_portnum d = NODEINFO_APP then (observe_node_info node_id p s1, Inr ())
                    else if d_portnum d = TELEMETRY_APP then (handle_telemetry parse now node_id d s1, Inr ())
                    else (s1, Inr ()))
           | _ \<Rightarrow> (s1, Inr ())))"

subsection \<open>Sampling the local statistics\<close>

definition next_control_packet_id :: "32 word \<Rightarrow> 32 word" where
  "next_control_packet_id i = (if i + 1 = 0 then 1 else i + 1)"

definition local_stats_request :: "bytes \<Rightarrow> string \<Rightarrow> service \<Rightarrow> service \<times> to_radio result" where
  "local_stats_request telemetry_payload node_id s =
     (let i = next_control_packet_id (sv_control_packet_id s); s1 = s\<lparr>sv_control_packet_id := i\<rparr>
      in case dict_get (sv_verifications s) node_id of
           None \<Rightarrow> (s1, Inl (KeyError node_id))
         | Some v \<Rightarrow> (s1, Inr (TR_packet (empty_packet\<lparr>p_id := uint i, p_to := v_node_number v, p_reliable := True,
             p_variant := Decoded \<lparr>d_portnum = TELEMETRY_APP, d_payload = telemetry_payload, d_request_id = 0,
               d_want_response = True, d_other = []\<rparr>\<rparr>))))"

definition sampling_nodes :: "service \<Rightarrow> string list result" where
  "sampling_nodes s =
     (let names = dict_keys (sv_gateways s)
      in if names = [] \<or> set names \<noteq> set (dict_keys (sv_verifications s))
         then Inl (RuntimeError ''native nodes are not ready for local-stat sampling'') else Inr names)"

text \<open>
  \<^verbatim>\<open>sample_node\<close> for one node: the ids of the requests that were sent, and what a turn
  decides. \<open>Sampler_wait\<close> carries the seconds until the next turn, \<open>Sampler_done\<close> the node's counters.
\<close>

datatype sampler_step = Sampler_wait pyfloat | Sampler_done "(int \<times> int) option"

definition response_arrived :: "int set \<Rightarrow> string \<Rightarrow> service \<Rightarrow> bool" where
  "response_arrived expected node_id s =
     (case dict_get (sv_local_stats_response_ids s) node_id of None \<Rightarrow> False | Some i \<Rightarrow> i \<in> expected)"

definition send_from_service :: "codec \<Rightarrow> string \<Rightarrow> to_radio \<Rightarrow> service \<Rightarrow> service \<times> unit result" where
  "send_from_service pb node_id message s =
     (case dict_get (sv_gateways s) node_id of
        None \<Rightarrow> (s, Inl (KeyError node_id))
      | Some g \<Rightarrow> (case send_to_radio pb message ''controller.local-stats'' g of
          (g', out) \<Rightarrow> (s\<lparr>sv_gateways := dict_set node_id g' (sv_gateways s)\<rparr>, out)))"

definition message_id :: "to_radio \<Rightarrow> int" where
  "message_id m = (case m of TR_packet p \<Rightarrow> p_id p | TR_want_config_id n \<Rightarrow> n)"

definition sampler_turn :: "codec \<Rightarrow> bytes \<Rightarrow> pyfloat \<Rightarrow> pyfloat \<Rightarrow> string \<Rightarrow> int set \<Rightarrow> service \<Rightarrow>
    service \<times> int set \<times> sampler_step result" where
  "sampler_turn pb telemetry_payload deadline now node_id expected s =
     (if fsub deadline now \<le> 0 then (s, expected, Inr (Sampler_done None))
      else case local_stats_request telemetry_payload node_id s of
        (s1, Inl e) \<Rightarrow> (s1, expected, Inl e)
      | (s1, Inr request) \<Rightarrow>
          (case send_from_service pb node_id request s1 of
             (s2, Inl e) \<Rightarrow> (s2, expected, Inr (Sampler_wait (min (sv_local_stats_retry_seconds s2) (fsub deadline now))))
           | (s2, Inr _) \<Rightarrow>
               (s2, insert (message_id request) expected,
                Inr (Sampler_wait (min (sv_local_stats_retry_seconds s2) (fsub deadline now))))))"

text \<open>The wait ends when a response arrived: the counters are those that are then current.\<close>

definition sampler_wake :: "string \<Rightarrow> int set \<Rightarrow> service \<Rightarrow> sampler_step result option" where
  "sampler_wake node_id expected s =
     (if response_arrived expected node_id s
      then Some (case dict_get (sv_node_metrics s) node_id of
             None \<Rightarrow> Inl (KeyError node_id)
           | Some m \<Rightarrow> Inr (Sampler_done (Some (nm_rx_bad m, nm_rx_duplicate m))))
      else None)"

definition collect_sample :: "string list \<Rightarrow> (int \<times> int) option list \<Rightarrow> failed_reception_sample" where
  "collect_sample names values =
     (let present = map (\<lambda>(n, v). (n, the v)) (filter (\<lambda>(n, v). v \<noteq> None) (zip names values));
          totals = dict_of (map (\<lambda>(n, v). (n, fst v)) present) []
      in \<lparr>fs_totals = totals, fs_duplicate_totals = dict_of (map (\<lambda>(n, v). (n, snd v)) present) [],
          fs_missing_nodes = filter (\<lambda>n. dict_get totals n = None) names\<rparr>)"

definition measure_lag :: "pyfloat \<Rightarrow> pyfloat \<Rightarrow> service \<Rightarrow> service" where
  "measure_lag expected now s =
     with_traffic (set_event_loop_lag now (max 0 (fmul (fsub now expected) 1000))) s"

subsection \<open>Starting\<close>

text \<open>
  \<^verbatim>\<open>start\<close> under the lifecycle lock: \<open>False\<close> means that the simulation is already up.
\<close>

definition start_admission :: "service \<Rightarrow> bool result" where
  "start_admission s =
     (if sv_state s \<in> {L_RUNNING, L_WARMING_UP} then Inr False
      else if sv_state s \<notin> {L_STOPPED, L_FAILED}
      then Inl (SimulationConflict ''INVALID_LIFECYCLE_STATE'' (''cannot start from '' @ lifecycle_text (sv_state s)))
      else Inr True)"

definition start_capable :: "bool \<Rightarrow> service \<Rightarrow> unit result" where
  "start_capable marker_exists s =
     (let caps = capabilities marker_exists s
      in if \<not> cv_collision_available caps
         then Inl (SimulationConflict ''NATIVE_COLLISION_UNAVAILABLE''
                ''the runtime does not contain a verified collision-enabled native firmware build'')
         else if \<not> cv_provenance_available caps
         then Inl (SimulationConflict ''BUILD_METADATA_UNAVAILABLE''
                ''the runtime does not contain build metadata for the native firmware artifact'')
         else Inr ())"

definition start_announce :: "pyfloat \<Rightarrow> string \<Rightarrow> service \<Rightarrow> service" where
  "start_announce now simulation_id s =
     (publish_lifecycle now (s\<lparr>sv_simulation_id := Some simulation_id, sv_state := L_STARTING,
        sv_message := ''Starting native firmware processes''\<rparr>))\<lparr>sv_startup_task := True\<rparr>"

definition raise_if_startup_failed :: "service \<Rightarrow> unit result" where
  "raise_if_startup_failed s = (if sv_state s = L_FAILED then Inl (RuntimeError (sv_message s)) else Inr ())"

definition GATEWAY_QUEUE_SIZE :: nat where "GATEWAY_QUEUE_SIZE = 256"

text \<open>After the processes have started: the counters and the gateways of the nodes.\<close>

definition create_gateways :: "service \<Rightarrow> service" where
  "create_gateways s =
     s\<lparr>sv_node_metrics := dict_of (map (\<lambda>n. (sn_id n, new_node_metrics (sc_fresh_state (sv_scenario s)))) (sc_nodes (sv_scenario s))) [],
       sv_local_stats_response_ids := [],
       sv_gateways := dict_of (map (\<lambda>n. (sn_id n,
           new_gateway (sn_id n) (sn_api_port n) False True True GATEWAY_QUEUE_SIZE)) (sc_nodes (sv_scenario s))) []\<rparr>"

fun reserve_listeners :: "(string \<Rightarrow> int result) \<Rightarrow> (string \<times> gateway) list \<Rightarrow> (string \<times> gateway) list \<times> unit result" where
  "reserve_listeners bound [] = ([], Inr ())"
| "reserve_listeners bound ((n, g) # rest) =
     (case reserve_public_listener (bound n) g of
        (g', Inl e) \<Rightarrow> ((n, g') # rest, Inl e)
      | (g', Inr _) \<Rightarrow> (case reserve_listeners bound rest of (rest', r) \<Rightarrow> ((n, g') # rest', r)))"

definition start_gateways :: "(string \<Rightarrow> int result) \<Rightarrow> service \<Rightarrow> service \<times> unit result" where
  "start_gateways bound s =
     (let s1 = create_gateways s; (gateways, out) = reserve_listeners bound (sv_gateways s1)
      in (s1\<lparr>sv_gateways := gateways\<rparr>, out))"

definition start_configuring :: "service \<Rightarrow> service" where
  "start_configuring s = s\<lparr>sv_message := ''Configuring and verifying native nodes''\<rparr>"

text \<open>
  The rounds of \<^verbatim>\<open>_configure_nodes\<close> after the settings were written: in each round
  the pending nodes restart, and \<open>observed\<close> gives the verification of a node that stayed up,
  or \<open>None\<close>.
\<close>

fun settle_round :: "(string \<Rightarrow> verification option) \<Rightarrow> string list \<Rightarrow> (string, verification) dict \<Rightarrow>
    string list \<times> (string, verification) dict" where
  "settle_round observed [] verified = ([], verified)"
| "settle_round observed (n # ns) verified =
     (case observed n of
        None \<Rightarrow> (case settle_round observed ns verified of (pending, v) \<Rightarrow> (n # pending, v))
      | Some x \<Rightarrow> settle_round observed ns (dict_set n x verified))"

fun configure_rounds :: "(string \<Rightarrow> verification option) list \<Rightarrow> string list \<Rightarrow> (string, verification) dict \<Rightarrow>
    (string, verification) dict result" where
  "configure_rounds [] pending verified =
     Inl (RuntimeError (join '', '' pending @ '' did not stabilize after configuration restarts''))"
| "configure_rounds (observed # rounds) pending verified =
     (case settle_round observed pending verified of
        ([], v) \<Rightarrow> Inr v
      | (n # ns, v) \<Rightarrow> configure_rounds rounds (n # ns) v)"

definition CONFIGURE_ATTEMPTS :: nat where "CONFIGURE_ATTEMPTS = 3"

text \<open>The outcomes of the three attempts, first to last.\<close>

definition configure_nodes :: "(nat \<Rightarrow> string \<Rightarrow> verification option) \<Rightarrow> service \<Rightarrow> (string, verification) dict result" where
  "configure_nodes observed s =
     configure_rounds (map observed [0 ..< CONFIGURE_ATTEMPTS]) (map sn_id (sc_nodes (sv_scenario s))) []"

text \<open>After the configuration: the controller and the medium over the verified node numbers.\<close>

definition hardware_ids :: "service \<Rightarrow> (string, int) dict" where
  "hardware_ids s = map (\<lambda>(n, v). (n, v_node_number v)) (sv_verifications s)"

definition wire_traffic :: "pyfloat \<Rightarrow> (string, verification) dict \<Rightarrow> service \<Rightarrow> service" where
  "wire_traffic now verified s =
     (let s1 = s\<lparr>sv_verifications := verified\<rparr>;
          hw = hardware_ids s1;
          md = new_medium (sv_scenario s1) hw
      in put_traffic (new_controller (sv_scenario s1) hw (sv_broker s1) (sv_build s1) None True now)
           (s1\<lparr>sv_traffic_serial := sv_traffic_serial s1 + 1, sv_medium := Some (md\<lparr>md_running := True\<rparr>)\<rparr>))"

definition warmup_deadline_seconds :: "service \<Rightarrow> int" where
  "warmup_deadline_seconds s = min 30 (10 + 2 * int (length (sc_nodes (sv_scenario s))))"

text \<open>\<open>timestamp\<close> is the wall clock in seconds. The reachable pairs are computed at once.\<close>

definition start_warming :: "set_order \<Rightarrow> pyfloat \<Rightarrow> pyfloat \<Rightarrow> service \<Rightarrow> service \<times> (string \<times> string) set result" where
  "start_warming order now timestamp s =
     (let s1 = publish_lifecycle now (s\<lparr>sv_state := L_WARMING_UP,
            sv_message := ''Firmware is exchanging NodeInfo and establishing routes'',
            sv_warming_up_until := Some (fadd (fadd timestamp (float_of_int (warmup_deadline_seconds s))) (sv_warmup_seconds s))\<rparr>)
      in case reachable_pairs order (Some (rf_hop_limit (sc_rf (sv_scenario s1)))) (sv_scenario s1) of
           Inl e \<Rightarrow> (s1, Inl e)
         | Inr expected \<Rightarrow> (s1\<lparr>sv_nodeinfo_observations := {}\<rparr>, Inr expected))"

definition missing_pairs :: "(string \<times> string) set \<Rightarrow> service \<Rightarrow> (string \<times> string) set" where
  "missing_pairs expected s = expected - sv_nodeinfo_observations s"

definition start_running :: "pyfloat \<Rightarrow> (string \<times> string) set \<Rightarrow> (string \<times> string) set \<Rightarrow> service \<Rightarrow> service" where
  "start_running now missing expected s =
     publish_lifecycle now (s\<lparr>sv_state := L_RUNNING,
       sv_message := show_nat (length (sv_gateways s)) @ '' native nodes are running'' @
         (if missing = {} then ''''
          else ''; warm-up observed '' @ show_int (int (card expected) - int (card missing)) @ '' of '' @
            show_nat (card expected) @ '' graph-connected pairs''),
       sv_warming_up_until := None, sv_lag_task := True\<rparr>)"

text \<open>The \<^verbatim>\<open>except\<close> branch, before the resources are cleaned up.\<close>

definition start_raised :: "pyfloat \<Rightarrow> pyerr \<Rightarrow> service \<Rightarrow> service" where
  "start_raised now e s =
     publish_lifecycle now (s\<lparr>sv_state := L_FAILED, sv_message := ''Startup failed: '' @ exc_text e\<rparr>)"

definition start_finished :: "service \<Rightarrow> service" where
  "start_finished s = s\<lparr>sv_startup_task := False\<rparr>"

subsection \<open>Stopping and cleaning up\<close>

definition service_stop_begin :: "pyfloat \<Rightarrow> service \<Rightarrow> service" where
  "service_stop_begin now s =
     publish_lifecycle now (s\<lparr>sv_state := L_STOPPING, sv_message := ''Stopping traffic, gateways, and native processes''\<rparr>)"

definition service_stop_end :: "pyfloat \<Rightarrow> service \<Rightarrow> service" where
  "service_stop_end now s =
     publish_lifecycle now (s\<lparr>sv_state := L_STOPPED, sv_message := ''Stopped'', sv_simulation_id := None,
       sv_warming_up_until := None\<rparr>)"

text \<open>
  \<^verbatim>\<open>_cleanup_resources_unlocked\<close>: the lag task is cancelled; after the controller has
  stopped, with its answer whether the run is finalized, the summary is kept and the result archived
  or its late finalization tracked; at the end everything is dropped.
\<close>

definition cleanup_begin :: "service \<Rightarrow> service" where
  "cleanup_begin s = s\<lparr>sv_lag_task := False\<rparr>"

definition cleanup_traffic :: "pyfloat \<Rightarrow> bool \<Rightarrow> bool \<Rightarrow> service \<Rightarrow> service \<times> unit result" where
  "cleanup_traffic now finalized file_exists s =
     (case sv_traffic s of
        None \<Rightarrow> (s, Inr ())
      | Some c \<Rightarrow>
          (case summary now c of
             Inl e \<Rightarrow> (s, Inl e)
           | Inr sm \<Rightarrow>
               let s1 = s\<lparr>sv_last_traffic_summary := sm\<rparr>
               in (if finalized then archive_result file_exists c s1 else s1\<lparr>sv_late := sv_late s1 @ [c]\<rparr>, Inr ())))"

definition cleanup_medium :: "service \<Rightarrow> service" where
  "cleanup_medium s = s\<lparr>sv_medium := map_option (\<lambda>md. md\<lparr>md_running := False\<rparr>) (sv_medium s)\<rparr>"

definition stop_gateway :: "gateway \<Rightarrow> gateway" where
  "stop_gateway g =
     (if gw_state g = GW_STOPPED then stop_begin_gateway g else stop_end_gateway (stop_begin_gateway g))"

text \<open>What a gateway emits reaches the service's event handler.\<close>

fun report_outputs :: "pyfloat \<Rightarrow> string \<Rightarrow> gateway_output list \<Rightarrow> service \<Rightarrow> service" where
  "report_outputs now node [] s = s"
| "report_outputs now node (out # outs) s =
     report_outputs now node outs
       (case out of Emitted kind detail fr \<Rightarrow> on_gateway_event now node kind detail s | _ \<Rightarrow> s)"

definition put_gateway :: "pyfloat \<Rightarrow> string \<Rightarrow> gateway \<Rightarrow> gateway \<Rightarrow> service \<Rightarrow> service" where
  "put_gateway now node old new s =
     report_outputs now node (drop (length (gw_out old)) (gw_out new))
       (s\<lparr>sv_gateways := dict_set node new (sv_gateways s)\<rparr>)"

definition cleanup_gateways :: "pyfloat \<Rightarrow> service \<Rightarrow> service" where
  "cleanup_gateways now s = fold (\<lambda>(n, g). put_gateway now n g (stop_gateway g)) (sv_gateways s) s"

definition cleanup_end :: "service \<Rightarrow> service" where
  "cleanup_end s =
     s\<lparr>sv_supervisor := stop_end_processes (sv_supervisor s), sv_medium := None, sv_traffic := None,
       sv_gateways := [], sv_verifications := []\<rparr>"

subsection \<open>Reset\<close>

definition service_reset :: "(string \<Rightarrow> bool) \<Rightarrow> pyfloat \<Rightarrow> string \<Rightarrow> service \<Rightarrow> service \<times> unit result" where
  "service_reset known now new_stream_id s =
     (if sv_state s \<noteq> L_STOPPED
      then (s, Inl (SimulationConflict ''INVALID_LIFECYCLE_STATE'' ''reset is allowed only while stopped''))
      else case default_scenario known 5 of
        Inl e \<Rightarrow> (s, Inl e)
      | Inr sc \<Rightarrow>
          let s1 = publish_lifecycle now (s\<lparr>sv_scenario := sc, sv_supervisor := clear_archived_logs (sv_supervisor s),
                 sv_message := ''Scenario reset to the five-node full mesh; packet evidence and daemon logs '' @
                   ''were cleared; saved runs were preserved''\<rparr>)
          in (s1\<lparr>sv_broker := broker_clear now new_stream_id (sv_broker s1)\<rparr>, Inr ()))"

end
