(* ===== verification/Service_Laws.thy ===== *)
theory Service_Laws
  imports Service Processes_Laws Configure_Laws
begin

text \<open>
  Laws of the service's operations that one call completes: a change of the topology is all or
  nothing and keeps the medium, the scenario and the run's record in step; finished results that no
  file holds stay available; a sample of the local statistics accounts for every node; control packet
  ids stay in their range; the start of a run maps every failure to a conflict.
\<close>

subsection \<open>Link tables\<close>

lemma link_map_distinct: "distinct (map link_key (sc_links sc)) \<Longrightarrow> link_map sc = map (\<lambda>l. (link_key l, l)) (sc_links sc)"
  using dict_of_fresh [of "[]" "map (\<lambda>l. (link_key l, l)) (sc_links sc)"]
  by (simp add: link_map_def link_key_def [abs_def] comp_def)

lemma keyed_get_in:
  assumes "distinct (map k xs)" and "x \<in> set xs"
  shows "dict_get (map (\<lambda>x. (k x, x)) xs) (k x) = Some x"
  using assms by (induction xs) (auto simp: rev_image_eqI)

text \<open>The links of two scenarios with the same pairs, in the same order.\<close>

definition relinked :: "scenario \<Rightarrow> scenario \<Rightarrow> bool" where
  "relinked sc sc' \<longleftrightarrow> map link_key (sc_links sc') = map link_key (sc_links sc) \<and> sc' = sc\<lparr>sc_links := sc_links sc'\<rparr>"

definition link_changes :: "scenario \<Rightarrow> scenario \<Rightarrow> directed_link list" where
  "link_changes sc sc' = filter (\<lambda>l. dict_get (link_map sc) (link_key l) \<noteq> Some l) (sc_links sc')"

lemma relinked_wf:
  assumes "graph_wf sc" and "relinked sc sc'"
  shows "graph_wf sc'"
proof -
  have "link_key ` set (sc_links sc') = link_key ` set (sc_links sc)" using assms(2) by (metis relinked_def set_map)
  moreover have "sc_nodes sc' = sc_nodes sc" "sc_node_count sc' = sc_node_count sc"
    using assms(2) unfolding relinked_def by (metis scenario.select_convs scenario.surjective scenario.update_convs(7))+
  ultimately show ?thesis using assms unfolding graph_wf_def relinked_def by simp
qed

lemma scenario_changes_ok:
  assumes "graph_wf sc" and "relinked sc sc'"
  shows "scenario_changes sc sc' = Inr (link_changes sc sc')"
proof -
  have d: "distinct (map link_key (sc_links sc))" using assms(1) by (simp add: graph_wf_def)
  let ?mark = "\<lambda>l. (dict_get (link_map sc) (link_key l) \<noteq> Some l, l)"
  have "\<exists>p. dict_get (link_map sc) (link_key l) = Some p" if "l \<in> set (sc_links sc')" for l
  proof -
    have "link_key l \<in> set (map link_key (sc_links sc'))" using that by simp
    then have "link_key l \<in> set (map link_key (sc_links sc))" using assms(2) by (simp only: relinked_def)
    then obtain p where "p \<in> set (sc_links sc)" "link_key p = link_key l" by auto
    then show ?thesis using keyed_get_in [OF d, of p] by (auto simp: link_map_distinct [OF d])
  qed
  then have "traverse_result (\<lambda>l. case dict_get (link_map sc) (link_key l) of
      None \<Rightarrow> Inl (KeyError (arrow (link_key l))) | Some p \<Rightarrow> Inr (p \<noteq> l, l)) (sc_links sc') = Inr (map ?mark (sc_links sc'))"
    by (intro traverse_result_Inr) fastforce
  then show ?thesis by (simp add: scenario_changes_def link_changes_def filter_map comp_def)
qed

lemma published_length: "length (fst (publish_links ob now ls s)) = length ls"
  by (induction ls arbitrary: s) (simp_all add: case_prod_unfold Let_def)

lemma medium_applies:
  assumes "graph_wf sc" and "relinked sc sc'" and "md_links md = link_map sc"
  shows "apply_links ob now (sc_links sc') md s =
    (md\<lparr>md_links := link_map sc'\<rparr>, snd (publish_links ob now (link_changes sc sc') s),
     Inr (fst (publish_links ob now (link_changes sc sc') s)))"
proof -
  have "distinct (map link_key (sc_links sc'))" "distinct (map link_key (sc_links sc))"
    using relinked_wf [OF assms(1,2)] assms(1) by (simp_all add: graph_wf_def)
  then have m: "link_map sc' = map (\<lambda>l. (link_key l, l)) (sc_links sc')" "link_map sc = map (\<lambda>l. (link_key l, l)) (sc_links sc)"
    by (simp_all add: link_map_distinct)
  have "dict_keys (link_map sc') = dict_keys (link_map sc)"
    using assms(2) unfolding m by (simp add: relinked_def comp_def)
  moreover have "changed_links (link_map sc) (link_map sc') = link_changes sc sc'"
    by (simp add: changed_links_def link_changes_def m(1) filter_map comp_def)
  ultimately show ?thesis
    unfolding apply_links_def assms(3) by (simp add: link_map_def link_key_def [abs_def] Let_def case_prod_unfold del: set_map)
qed

subsection \<open>The run's record of topology changes\<close>

definition topology_record :: "packet_event \<times> directed_link \<Rightarrow> topology_change" where
  "topology_record x = \<lparr>tc_event_sequence = e_sequence (fst x), tc_monotonic_seconds = e_monotonic_seconds (fst x), tc_link = snd x\<rparr>"

definition append_changes :: "(packet_event \<times> directed_link) list \<Rightarrow> controller \<Rightarrow> controller" where
  "append_changes xs c =
     (if t_current c = None \<or> \<not> accepts_run_events False c then c
      else map_current (\<lambda>r. r\<lparr>r_topology_changes := r_topology_changes r @ map topology_record xs\<rparr>) c)"

lemma accepts_map_current [simp]: "accepts_run_events b (map_current f c) = accepts_run_events b c"
  by (simp add: accepts_run_events_def map_current_def)

lemma map_current_id: "map_current (\<lambda>r. r) c = c"
  by (simp add: map_current_def option.map_ident)

lemma record_changes_ok:
  "length es = length ls \<Longrightarrow> ensure_topology_change_capacity (int (length ls)) c = Inr () \<Longrightarrow>
   record_changes es ls c = (append_changes (zip es ls) c, Inr ())"
proof (induction es ls c rule: record_changes.induct)
  case (1 c)
  then show ?case by (simp add: append_changes_def map_current_id)
next
  case (2 e es l ls c)
  show ?case
  proof (cases "t_current c = None \<or> \<not> accepts_run_events False c")
    case True
    then have "ensure_topology_change_capacity (int (length ls)) c = Inr ()"
      by (auto simp: ensure_topology_change_capacity_def split: option.split)
    with 2 True show ?thesis by (auto simp: record_topology_change_def append_changes_def)
  next
    case False
    then obtain r where r: "t_current c = Some r" "accepts_run_events False c" by auto
    define f :: "run_result \<Rightarrow> run_result" where "f = (\<lambda>r. r\<lparr>r_topology_changes := r_topology_changes r @ [topology_record (e, l)]\<rparr>)"
    have cap: "int (length (r_topology_changes r)) + int (length (l # ls)) \<le> int MAX_TOPOLOGY_CHANGES_PER_RUN"
      using 2(3) r by (simp add: ensure_topology_change_capacity_def split: if_splits)
    then have rec: "record_topology_change e l c = (map_current f c, Inr ())"
      using r by (simp add: record_topology_change_def ensure_topology_change_capacity_def f_def topology_record_def)
    have cur: "t_current (map_current f c) = Some (f r)" by (simp add: map_current_def r)
    have "length (r_topology_changes (f r)) = length (r_topology_changes r) + 1" by (simp add: f_def)
    then have "ensure_topology_change_capacity (int (length ls)) (map_current f c) = Inr ()"
      using cap r by (simp add: ensure_topology_change_capacity_def cur)
    with 2(1) [OF rec [symmetric] refl] 2(2)
    have "record_changes es ls (map_current f c) = (append_changes (zip es ls) (map_current f c), Inr ())" by simp
    with rec have "record_changes (e # es) (l # ls) c = (append_changes (zip es ls) (map_current f c), Inr ())" by simp
    also have "append_changes (zip es ls) (map_current f c) =
        map_current (\<lambda>r. r\<lparr>r_topology_changes := r_topology_changes r @ map topology_record (zip es ls)\<rparr>) (map_current f c)"
      using r(2) by (simp add: append_changes_def cur)
    also have "\<dots> = append_changes (zip (e # es) (l # ls)) c"
      using r by (cases "t_frozen_result c") (simp_all add: append_changes_def f_def map_current_def)
    finally show ?thesis .
  qed
qed auto


subsection \<open>A change of the topology\<close>

lemma published_broker: "\<exists>b. snd (publish_links (service_observer ev now) t ls s) = s\<lparr>sv_broker := b\<rparr>"
proof (induction ls arbitrary: s)
  case Nil
  show ?case by (simp add: exI [of _ "sv_broker s"])
next
  case (Cons l ls)
  obtain b where "snd (publish_links (service_observer ev now) t ls (publish (link_update_event t l) s)) =
      (publish (link_update_event t l) s)\<lparr>sv_broker := b\<rparr>"
    using Cons.IH by blast
  then show ?case by (auto simp: Let_def case_prod_unfold service_observer_def publish_def)
qed

lemma append_changes_broker [simp]: "t_broker (append_changes xs c) = t_broker c"
  by (simp add: append_changes_def map_current_def)

lemma capacity_error: "ensure_topology_change_capacity n c = Inl e \<Longrightarrow> \<exists>m. e = RuntimeError m"
  by (auto simp: ensure_topology_change_capacity_def split: option.splits if_splits)

lemma capacity_shared [simp]:
  "ensure_topology_change_capacity n (c\<lparr>t_broker := b\<rparr>) = ensure_topology_change_capacity n c"
  by (simp add: ensure_topology_change_capacity_def accepts_run_events_def split: option.split)

lemma runtime_scenario_applies:
  assumes wf: "graph_wf (sv_scenario s)" and rel: "relinked (sv_scenario s) sc'"
    and md: "sv_medium s = Some md" "md_links md = link_map (sv_scenario s)"
    and run: "apply_runtime_scenario ev now sc' s = (s', out)"
  shows "case out of
      Inl e \<Rightarrow> s' = s \<and> (\<exists>m. e = SimulationConflict ''TOPOLOGY_HISTORY_FULL'' m)
    | Inr _ \<Rightarrow> \<exists>b es. length es = length (link_changes (sv_scenario s) sc') \<and>
        s' = s\<lparr>sv_broker := b, sv_medium := Some (md\<lparr>md_links := link_map sc'\<rparr>), sv_scenario := sc',
          sv_traffic := map_option (\<lambda>c. append_changes (zip es (link_changes (sv_scenario s) sc')) (c\<lparr>t_broker := b\<rparr>)) (sv_traffic s)\<rparr>"
proof -
  let ?ls = "link_changes (sv_scenario s) sc'"
  let ?cap = "case sv_traffic s of None \<Rightarrow> Inr () | Some c \<Rightarrow> ensure_topology_change_capacity (int (length ?ls)) c"
  note run' = run [unfolded apply_runtime_scenario_def md(1) option.case scenario_changes_ok [OF wf rel] sum.case
      medium_applies [OF wf rel md(2)] prod.case]
  show ?thesis
  proof (cases ?cap)
    case (Inl e)
    then obtain m where "e = RuntimeError m" by (auto split: option.splits dest: capacity_error)
    with Inl run' show ?thesis by (auto simp: runtime_error_def)
  next
    case (Inr u)
    obtain b where b: "snd (publish_links (service_observer ev now) now ?ls s) = s\<lparr>sv_broker := b\<rparr>"
      using published_broker by blast
    let ?es = "fst (publish_links (service_observer ev now) now ?ls s)"
    have len: "length ?es = length ?ls" by (rule published_length)
    from Inr run' have eq: "with_traffic_result (record_changes ?es ?ls) (Inr ())
        (s\<lparr>sv_broker := b, sv_medium := Some (md\<lparr>md_links := link_map sc'\<rparr>), sv_scenario := sc'\<rparr>) = (s', out)"
      by (simp add: b)
    show ?thesis
    proof (cases "sv_traffic s")
      case None
      with eq len show ?thesis by (auto simp: with_traffic_result_def intro!: exI [of _ b] exI [of _ ?es])
    next
      case (Some c)
      with Inr have "record_changes ?es ?ls (c\<lparr>t_broker := b\<rparr>) = (append_changes (zip ?es ?ls) (c\<lparr>t_broker := b\<rparr>), Inr ())"
        by (intro record_changes_ok [OF len]) simp
      with eq len Some show ?thesis
        by (auto simp: with_traffic_result_def shared_def put_traffic_def intro!: exI [of _ b] exI [of _ ?es])
    qed
  qed
qed


text \<open>
  The medium forwards over the links of the scenario; the links that the active run has recorded as
  changed, if a run is recording.
\<close>

definition in_step :: "service \<Rightarrow> bool" where
  "in_step s \<longleftrightarrow> graph_wf (sv_scenario s) \<and> (\<forall>md. sv_medium s = Some md \<longrightarrow> md_links md = link_map (sv_scenario s))"

definition link_history :: "service \<Rightarrow> directed_link list option" where
  "link_history s =
     (case sv_traffic s of
        None \<Rightarrow> None
      | Some c \<Rightarrow> if accepts_run_events False c then map_option (\<lambda>r. map tc_link (r_topology_changes r)) (t_current c) else None)"

lemma changes_recorded:
  assumes "length es = length ls"
    and "sv_traffic s' = map_option (\<lambda>c. append_changes (zip es ls) (c\<lparr>t_broker := b\<rparr>)) (sv_traffic s)"
  shows "link_history s' = map_option (\<lambda>h. h @ ls) (link_history s)"
proof (cases "sv_traffic s")
  case None
  with assms(2) show ?thesis by (simp add: link_history_def)
next
  case (Some c)
  have "map (tc_link \<circ> topology_record) (zip es ls) = map snd (zip es ls)" by (simp add: topology_record_def)
  with assms(1) have "map (tc_link \<circ> topology_record) (zip es ls) = ls" by simp
  with Some assms(2) show ?thesis
    by (cases "t_current c") (auto simp: link_history_def append_changes_def accepts_run_events_def map_current_def)
qed

lemma dict_of_distinct: "length (dict_of kvs []) = length kvs \<Longrightarrow> distinct (map fst kvs)"
proof -
  assume len: "length (dict_of kvs []) = length kvs"
  have "card (set (dict_keys (dict_of kvs []))) = length (dict_keys (dict_of kvs []))"
    by (rule distinct_card) (rule dict_of_wf, simp)
  moreover have "fst ` set (dict_of kvs []) = fst ` set kvs"
    using dom_map_of_conv_image_fst [of "dict_of kvs []"] dom_map_of_conv_image_fst [of "rev kvs"] by (simp add: map_of_dict_of)
  then have "set (dict_keys (dict_of kvs [])) = set (map fst kvs)" by (simp only: set_map)
  ultimately have "length (map fst kvs) = card (set (map fst kvs))" using len by simp
  then show ?thesis by (simp only: distinct_length_card)
qed

text \<open>The links after an update: the given ones replace those of the same pair.\<close>

definition updated_links :: "directed_link list \<Rightarrow> directed_link list \<Rightarrow> directed_link list" where
  "updated_links updates ls =
     map (\<lambda>l. dict_get_default (dict_of (map (\<lambda>l. (link_key l, l)) updates) []) (link_key l) l) ls"

lemma updated_key: "link_key (dict_get_default (dict_of (map (\<lambda>l. (link_key l, l)) updates) []) (link_key l) l) = link_key l"
  by (auto simp: dict_get_default_def map_of_dict_of split: option.split dest!: map_of_SomeD)

lemma updated_relinked: "relinked sc (sc\<lparr>sc_links := updated_links updates (sc_links sc)\<rparr>)"
  by (simp add: relinked_def updated_links_def comp_def updated_key)

lemma updated_in:
  assumes "distinct (map link_key updates)" and "u \<in> set updates" and "link_key u \<in> link_key ` set ls"
  shows "u \<in> set (updated_links updates ls)"
proof -
  let ?kvs = "map (\<lambda>l. (link_key l, l)) updates"
  have "map_of (rev ?kvs) (link_key u) = Some u"
    using assms(1,2) by (intro map_of_is_SomeI) (auto simp: rev_map [symmetric] comp_def)
  moreover obtain l where "l \<in> set ls" "link_key l = link_key u" using assms(3) by auto
  ultimately show ?thesis
    by (auto simp: updated_links_def dict_get_default_def map_of_dict_of intro!: image_eqI [of _ _ l] split: option.split)
qed

lemma kept_in:
  assumes "l \<in> set ls" and "link_key l \<notin> link_key ` set updates"
  shows "l \<in> set (updated_links updates ls)"
proof -
  have "map_of (rev (map (\<lambda>l. (link_key l, l)) updates)) (link_key l) = None"
    using assms(2) by (simp add: map_of_eq_None_iff image_image)
  with assms(1) show ?thesis
    by (auto simp: updated_links_def dict_get_default_def map_of_dict_of intro!: image_eqI [of _ _ l])
qed


text \<open>
  C6. A runtime link update is all or nothing: either it is refused with a conflict and nothing
  changes, or the given links replace the links of their pairs, all other links stay, the scenario
  stays a complete graph that the medium forwards over, and the active run records exactly the links
  that changed, in the scenario's order.
\<close>

theorem link_update_is_atomic:
  assumes "in_step s" and "update_links ev now updates s = (s', out)"
  shows "case out of
      Inl e \<Rightarrow> s' = s \<and> (\<exists>code m. e = SimulationConflict code m)
    | Inr ls \<Rightarrow> ls = updates \<and> sv_state s = L_RUNNING \<and> in_step s' \<and>
        relinked (sv_scenario s) (sv_scenario s') \<and> set updates \<subseteq> set (sc_links (sv_scenario s')) \<and>
        {l \<in> set (sc_links (sv_scenario s)). link_key l \<notin> link_key ` set updates} \<subseteq> set (sc_links (sv_scenario s')) \<and>
        link_history s' = map_option (\<lambda>h. h @ link_changes (sv_scenario s) (sv_scenario s')) (link_history s)"
proof -
  let ?kvs = "map (\<lambda>l. (link_key l, l)) updates" and ?sc = "sv_scenario s"
  let ?new = "?sc\<lparr>sc_links := updated_links updates (sc_links ?sc)\<rparr>"
  have wf: "graph_wf ?sc" using assms(1) by (simp add: in_step_def)
  show ?thesis
  proof (cases "updates \<noteq> [] \<and> length (dict_of ?kvs []) = length updates \<and> sv_state s = L_RUNNING \<and> sv_medium s \<noteq> None \<and>
      find (\<lambda>k. dict_get (link_map ?sc) k = None) (dict_keys (dict_of ?kvs [])) = None")
    case False
    with assms(2) show ?thesis by (auto simp: update_links_def Let_def split: option.splits if_splits)
  next
    case True
    then obtain md where md: "sv_medium s = Some md" by auto
    with assms(1) have links: "md_links md = link_map ?sc" by (simp add: in_step_def)
    obtain s1 r where run: "apply_runtime_scenario ev now ?new s = (s1, r)" by fastforce
    with True md assms(2) have out: "s' = s1" "out = (case r of Inl e \<Rightarrow> Inl e | Inr _ \<Rightarrow> Inr updates)"
      by (simp_all add: update_links_def Let_def updated_links_def del: dict_of.simps split: sum.splits)
    note applied = runtime_scenario_applies [OF wf updated_relinked md links run]
    show ?thesis
    proof (cases r)
      case (Inl e)
      with applied out show ?thesis by auto
    next
      case (Inr u)
      with applied obtain b es where es: "length es = length (link_changes ?sc ?new)" and s1: "s1 = s\<lparr>sv_broker := b,
          sv_medium := Some (md\<lparr>md_links := link_map ?new\<rparr>), sv_scenario := ?new, sv_traffic := map_option
            (\<lambda>c. append_changes (zip es (link_changes ?sc ?new)) (c\<lparr>t_broker := b\<rparr>)) (sv_traffic s)\<rparr>"
        by auto
      have "distinct (map fst ?kvs)" using True by (intro dict_of_distinct) simp
      then have keys: "distinct (map link_key updates)" by (simp add: comp_def)
      have known: "link_key u \<in> link_key ` set (sc_links ?sc)" if "u \<in> set updates" for u
      proof -
        have "link_key u \<in> set (dict_keys (dict_of ?kvs []))"
          using that keys by (simp add: dict_of_fresh comp_def)
        with True have "dict_get (link_map ?sc) (link_key u) \<noteq> None" by (auto simp: find_None_iff)
        moreover have "distinct (map link_key (sc_links ?sc))" using wf by (simp add: graph_wf_def)
        ultimately show ?thesis by (auto simp: link_map_distinct dest!: map_of_SomeD)
      qed
      have "link_history s1 = map_option (\<lambda>h. h @ link_changes ?sc ?new) (link_history s)"
        by (rule changes_recorded [OF es, where b = b]) (simp add: s1)
      moreover have "in_step s1" using relinked_wf [OF wf updated_relinked] by (simp add: in_step_def s1)
      moreover have "set updates \<subseteq> set (sc_links ?new)" using updated_in [OF keys] known by auto
      moreover have "{l \<in> set (sc_links ?sc). link_key l \<notin> link_key ` set updates} \<subseteq> set (sc_links ?new)"
        using kept_in by auto
      ultimately show ?thesis using Inr out True updated_relinked by (simp add: s1)
    qed
  qed
qed


definition lab_build :: build_metadata where
  "lab_build = \<lparr>bm_firmware_commit = ''f1'', bm_collision_patch_sha256 = ''p1'', bm_firmware_binary_sha256 = ''b1'',
     bm_build_architecture = ''amd64'', bm_client_library_version = ''2.7'', bm_upstream_base_image_digest = ''d1'',
     bm_meshtasticator_commit = ''m1''\<rparr>"

definition lab_service :: service where
  "lab_service = projr (new_service lab_build 5 10 1 relay_scenario (new_broker 5000 2000 ''s1'') lab_supervisor)"

definition lab_verified :: "(string, verification) dict" where
  "lab_verified = map (\<lambda>(n, i). (n, \<lparr>v_node_id = n, v_node_number = i, v_firmware_version = ''2.7'', v_owner_long_name = n,
     v_owner_short_name = n, v_role = ''CLIENT'', v_region = ''US'', v_modem_preset = ''LONG_FAST'',
     v_frequency_slot = 0, v_hop_limit = 3, v_channel_name = ''LongFast''\<rparr>))
     [(''a'', 11), (''b'', 12), (''c'', 13)]"

definition lab_serving :: service where
  "lab_serving = start_running 0 {} {} (wire_traffic 0 lab_verified lab_service)"

lemma lab_service_fields:
  "sv_scenario lab_service = relay_scenario" "sv_state lab_service = L_STOPPED" "sv_medium lab_service = None"
  "sv_traffic lab_service = None" "sv_volatile_results lab_service = []" "sv_gateways lab_service = []"
  "sv_build lab_service = lab_build" "sv_verifications lab_service = []" "sv_failure_cleanup lab_service = No_cleanup"
  by (simp_all add: lab_service_def new_service_def)

lemma wire_traffic_fields:
  "sv_scenario (wire_traffic now verified s) = sv_scenario s" "sv_state (wire_traffic now verified s) = sv_state s"
  "sv_gateways (wire_traffic now verified s) = sv_gateways s" "sv_verifications (wire_traffic now verified s) = verified"
  "sv_medium (wire_traffic now verified s) =
     Some ((new_medium (sv_scenario s) (map (\<lambda>(n, v). (n, v_node_number v)) verified))\<lparr>md_running := True\<rparr>)"
  "sv_traffic (wire_traffic now verified s) = Some (new_controller (sv_scenario s)
     (map (\<lambda>(n, v). (n, v_node_number v)) verified) (sv_broker s) (sv_build s) None True now)"
  by (simp_all add: wire_traffic_def put_traffic_def hardware_ids_def Let_def)

lemma start_running_fields:
  "sv_scenario (start_running now missing expected s) = sv_scenario s" "sv_state (start_running now missing expected s) = L_RUNNING"
  "sv_medium (start_running now missing expected s) = sv_medium s" "sv_traffic (start_running now missing expected s) = sv_traffic s"
  by (simp_all add: start_running_def publish_lifecycle_def publish_def)

lemma lab_serving_fields:
  "sv_scenario lab_serving = relay_scenario" "sv_state lab_serving = L_RUNNING"
  "\<exists>md. sv_medium lab_serving = Some md \<and> md_links md = link_map relay_scenario"
  "\<exists>c. sv_traffic lab_serving = Some c \<and> t_current c = None \<and> t_scenario c = relay_scenario"
  by (simp_all add: lab_serving_def start_running_fields wire_traffic_fields lab_service_fields new_medium_def new_controller_def)

lemma lab_serving_in_step: "in_step lab_serving"
  using lab_serving_fields(1,3) relay_graph by (auto simp: in_step_def)

lemma link_update_is_atomic_witness:
  "\<exists>l s' out. l \<in> set (sc_links relay_scenario) \<and> update_links lab_env 0 [l\<lparr>enabled := False\<rparr>] lab_serving = (s', out) \<and>
     (case out of Inl e \<Rightarrow> s' = lab_serving | Inr ls \<Rightarrow> l\<lparr>enabled := False\<rparr> \<in> set (sc_links (sv_scenario s')))"
proof -
  obtain l where l: "l \<in> set (sc_links relay_scenario)" by (auto simp: relay_scenario_def)
  obtain s' out where u: "update_links lab_env 0 [l\<lparr>enabled := False\<rparr>] lab_serving = (s', out)" by fastforce
  from link_update_is_atomic [OF lab_serving_in_step u] l u show ?thesis
    by (intro exI [of _ l] exI [of _ s'] exI [of _ out]) (auto split: sum.splits)
qed

subsection \<open>Topology presets\<close>

lemma traverse_keys:
  "(\<And>x y. f x = Inr y \<Longrightarrow> k y = k x) \<Longrightarrow> traverse_result f xs = Inr ys \<Longrightarrow> map k ys = map k xs"
proof (induction xs arbitrary: ys)
  case (Cons x xs)
  then show ?case by (auto simp: bind_result_eq_Inr)
qed simp

lemma preset_relinked:
  assumes "apply_topology_preset sc preset = Inr sc'"
  shows "relinked sc sc'"
proof -
  from assms obtain d :: "(string \<times> string, bool) dict" and ls where
    ls: "traverse_result (\<lambda>l. case dict_get d (from_node l, to_node l) of
        None \<Rightarrow> Inl (KeyError (arrow (from_node l, to_node l)))
      | Some e \<Rightarrow> Inr (l\<lparr>enabled := e\<rparr>)) (sc_links sc) = Inr ls" and sc': "sc' = sc\<lparr>sc_links := ls\<rparr>"
    unfolding apply_topology_preset_def Let_def bind_result_eq_Inr by blast
  have "map link_key ls = map link_key (sc_links sc)"
    by (rule traverse_keys [OF _ ls]) (auto simp: link_key_def split: option.splits)
  with sc' show ?thesis by (simp add: relinked_def)
qed

lemma topology_in_step:
  assumes "in_step s" and "apply_topology ev now preset s = (s', out)" and "sv_state s = L_STOPPED \<Longrightarrow> sv_medium s = None"
  shows "in_step s'"
proof (cases "apply_topology_preset (sv_scenario s) preset")
  case (Inr sc')
  have wf: "graph_wf (sv_scenario s)" using assms(1) by (simp add: in_step_def)
  note rel = preset_relinked [OF Inr]
  obtain s1 r where run: "apply_runtime_scenario ev now sc' s = (s1, r)" by fastforce
  have "in_step s1" if md: "sv_medium s = Some md" for md
  proof -
    have "md_links md = link_map (sv_scenario s)" using assms(1) md by (simp add: in_step_def)
    from runtime_scenario_applies [OF wf rel md this run] assms(1) relinked_wf [OF wf rel] show ?thesis
      by (cases r) (auto simp: in_step_def)
  qed
  moreover have "in_step (s\<lparr>sv_scenario := sc'\<rparr>)" if "sv_state s = L_STOPPED"
    using assms(3) that relinked_wf [OF wf rel] by (simp add: in_step_def)
  moreover have "s' = s \<or> s' = s1 \<and> sv_medium s \<noteq> None \<or> s' = s\<lparr>sv_scenario := sc'\<rparr> \<and> sv_state s = L_STOPPED"
    using assms(2) by (simp add: apply_topology_def Inr run split: if_splits sum.splits)
  ultimately show ?thesis using assms(1) by auto
qed (use assms in \<open>simp add: apply_topology_def\<close>)


subsection \<open>Finished results\<close>

lemma completed_volatile:
  assumes "k \<in> set (dict_keys (sv_volatile_results s))"
  shows "k \<in> set (completed_runs listing s)"
proof (cases listing)
  case None
  with assms show ?thesis by (simp add: completed_runs_def)
next
  case (Some names)
  have "finite (path_stem ` {n \<in> set names. ends_with ''.json'' n \<and> \<not> ends_with ''.summary.json'' n})" by simp
  with assms Some show ?thesis by (simp add: completed_runs_def)
qed

text \<open>
  Stopping the simulator does not lose a finished run: while the results directory has no file
  for it, the run's exact result is what the service returns before and after the stop, its summary
  stays the current one, it is listed as complete, and at most the eight newest such results are
  kept.
\<close>

theorem finished_run_survives_stop:
  assumes "ctl_reachable ev g send allowed c" and "t_frozen_result c = Some f" and "sv_traffic s = Some c"
    and "dict_wf (sv_volatile_results s)" and "length (sv_volatile_results s) \<le> MAX_VOLATILE_RESULTS"
    and "stored (r_run_id f) = None"
  shows "\<exists>s'. cleanup_traffic now True False s = (s', Inr ()) \<and> length (sv_volatile_results s') \<le> MAX_VOLATILE_RESULTS \<and>
    dict_wf (sv_volatile_results s') \<and> traffic_result stored (r_run_id f) s = Inr f \<and>
    traffic_result stored (r_run_id f) (cleanup_end s') = Inr f \<and>
    traffic_result_is_complete stored (r_run_id f) (cleanup_end s') = Inr True \<and>
    current_traffic_summary now (cleanup_end s') = Inr (Some (summarize_result f)) \<and>
    r_run_id f \<in> set (completed_runs listing (cleanup_end s'))"
proof -
  have frozen: "t_current c = Some f" "r_finished f"
    using ctl_reachable_lifecycle [OF assms(1)] assms(2) by (auto simp: Traffic_Lifecycle.lifecycle_def frozen_ok_def)
  let ?d = "dict_set (r_run_id f) f (sv_volatile_results s)"
  let ?s = "s\<lparr>sv_last_traffic_summary := Some (summarize_result f), sv_volatile_results := trim_volatile ?d\<rparr>"
  have c: "cleanup_traffic now True False s = (?s, Inr ())"
    using assms(2,3) frozen by (simp add: cleanup_traffic_def summary_def archive_result_def result_is_finalized_def run_result_of_def)
  have wf: "dict_wf ?d" using assms(4) by (simp add: distinct_update)
  have "dict_get (trim_volatile ?d) (r_run_id f) = Some f"
  proof (cases "r_run_id f \<in> set (dict_keys (sv_volatile_results s))")
    case True
    then have "dict_keys ?d = dict_keys (sv_volatile_results s)" by (simp add: dict_simps)
    then have "length ?d = length (sv_volatile_results s)" by (metis length_map)
    with assms(5) show ?thesis by (simp add: trim_volatile_def dict_simps)
  next
    case False
    then have "?d = sv_volatile_results s @ [(r_run_id f, f)]" by (simp add: dict_set_fresh)
    moreover have "length ?d - MAX_VOLATILE_RESULTS \<le> length (sv_volatile_results s)"
      by (simp add: calculation MAX_VOLATILE_RESULTS_def)
    moreover have "map_of (drop n (sv_volatile_results s)) (r_run_id f) = None" for n
      using False set_drop_subset [of n "sv_volatile_results s"] by (fastforce simp: map_of_eq_None_iff)
    ultimately show ?thesis by (simp add: trim_volatile_def map_add_def)
  qed
  note got = this dict_get_key [OF this]
  have "length (trim_volatile ?d) \<le> MAX_VOLATILE_RESULTS" by (simp add: trim_volatile_def)
  moreover have "dict_wf (trim_volatile ?d)" using wf by (simp add: trim_volatile_def drop_map [symmetric] del: drop_map)
  ultimately show ?thesis
    using assms(2,3,6) frozen got
    by (intro exI [of _ ?s] conjI c completed_volatile)
      (simp_all add: traffic_result_def current_matches_def run_result_of_def cleanup_end_def saved_result_def
        traffic_result_is_complete_def current_traffic_summary_def result_is_finalized_def)
qed


lemma finished_run_survives_stop_witness:
  "\<exists>f s'. t_frozen_result lab_failed = Some f \<and>
     cleanup_traffic 5 True False (lab_service\<lparr>sv_traffic := Some lab_failed\<rparr>) = (s', Inr ()) \<and>
     traffic_result (\<lambda>_. None) (r_run_id f) (cleanup_end s') = Inr f"
proof -
  obtain f where f: "t_frozen_result lab_failed = Some f" and r: "lab_reachable (\<lambda>_ _ _. True) lab_failed"
    by (rule lab_failed_steps)
  show ?thesis
    using finished_run_survives_stop [OF r f, where s = "lab_service\<lparr>sv_traffic := Some lab_failed\<rparr>" and stored = "\<lambda>_. None"
        and now = 5 and listing = None] f
    by (auto simp: lab_service_fields)
qed

subsection \<open>Samples of the local statistics\<close>

text \<open>
  C40. A sample of the local statistics is well formed: its totals and its duplicate totals name the
  same nodes, those nodes and the missing ones together are the sampled nodes, none is both, and a
  node's totals are the two counters that it reported.
\<close>

theorem sample_partitions_nodes:
  assumes "distinct names" and "length values = length names" and "collect_sample names values = smp"
  shows "dict_keys (fs_totals smp) = dict_keys (fs_duplicate_totals smp) \<and> dict_wf (fs_totals smp) \<and>
    set (dict_keys (fs_totals smp)) \<inter> set (fs_missing_nodes smp) = {} \<and>
    set (dict_keys (fs_totals smp)) \<union> set (fs_missing_nodes smp) = set names \<and>
    (\<forall>i < length names. case values ! i of
       None \<Rightarrow> names ! i \<in> set (fs_missing_nodes smp)
     | Some (bad, duplicate) \<Rightarrow> dict_get (fs_totals smp) (names ! i) = Some bad \<and>
         dict_get (fs_duplicate_totals smp) (names ! i) = Some duplicate)"
proof -
  let ?present = "map (\<lambda>(n, v). (n, the v)) (filter (\<lambda>(n, v). v \<noteq> None) (zip names values))"
  have names: "distinct (map fst ?present)"
  proof -
    have "distinct (map fst (zip names values))" using assms(1,2) by simp
    then have "distinct (map fst (filter (\<lambda>(n, v). v \<noteq> None) (zip names values)))" by (rule distinct_map_filter)
    then show ?thesis by (simp add: comp_def case_prod_unfold)
  qed
  have build: "dict_of (map (\<lambda>(n, v). (n, f v)) ?present) [] = map (\<lambda>(n, v). (n, f v)) ?present" for f :: "int \<times> int \<Rightarrow> int"
    using names by (intro dict_of_fresh [of "[]", simplified]) (simp add: comp_def case_prod_unfold)
  have smp: "fs_totals smp = map (\<lambda>(n, v). (n, fst v)) ?present" "fs_duplicate_totals smp = map (\<lambda>(n, v). (n, snd v)) ?present"
    "fs_missing_nodes smp = filter (\<lambda>n. dict_get (fs_totals smp) n = None) names"
    using assms(3) [symmetric] by (simp_all only: collect_sample_def Let_def failed_reception_sample.simps build)
  have keys: "dict_keys (fs_totals smp) = map fst ?present" "dict_keys (fs_duplicate_totals smp) = map fst ?present"
    by (simp_all add: smp(1,2) comp_def case_prod_unfold)
  have mem: "(n, v) \<in> set (zip names values) \<Longrightarrow> n \<in> set (map fst ?present) \<longleftrightarrow> v \<noteq> None" for n v
    using assms(1,2) by (force simp: in_set_zip nth_eq_iff_index_eq image_iff)
  have look: "dict_get (map (\<lambda>(n, v). (n, f v)) ?present) n = Some (f v)" if "(n, Some v) \<in> set (zip names values)" for n v and f :: "int \<times> int \<Rightarrow> int"
    using names that by (intro map_of_is_SomeI) (force simp: comp_def case_prod_unfold image_iff)+
  have sub: "set (map fst ?present) \<subseteq> set names" by (auto dest: set_zip_leftD)
  have missing: "set (fs_missing_nodes smp) = set names - set (dict_keys (fs_totals smp))"
    by (auto simp: smp(3) map_of_eq_None_iff)
  have "case values ! i of None \<Rightarrow> names ! i \<in> set (fs_missing_nodes smp)
     | Some (bad, duplicate) \<Rightarrow> dict_get (fs_totals smp) (names ! i) = Some bad \<and>
         dict_get (fs_duplicate_totals smp) (names ! i) = Some duplicate" if i: "i < length names" for i
  proof -
    have z: "(names ! i, values ! i) \<in> set (zip names values)" using i assms(2) by (auto simp: in_set_zip)
    show ?thesis
    proof (cases "values ! i")
      case None
      with z mem i show ?thesis by (auto simp: missing keys(1) simp del: set_map)
    next
      case (Some v)
      with z look [of "names ! i" v fst] look [of "names ! i" v snd] show ?thesis by (simp add: smp(1,2) case_prod_unfold)
    qed
  qed
  with sub names show ?thesis by (auto simp: keys missing simp del: set_map)
qed

lemma sample_partitions_nodes_witness:
  "fs_missing_nodes (collect_sample [''a'', ''b'', ''c''] [Some (4, 1), None, Some (0, 2)]) = [''b''] \<and>
   dict_get (fs_duplicate_totals (collect_sample [''a'', ''b'', ''c''] [Some (4, 1), None, Some (0, 2)])) ''c'' = Some 2"
proof
  show "fs_missing_nodes (collect_sample [''a'', ''b'', ''c''] [Some (4, 1), None, Some (0, 2)]) = [''b'']"
    by (simp add: collect_sample_def Let_def)
  show "dict_get (fs_duplicate_totals (collect_sample [''a'', ''b'', ''c''] [Some (4, 1), None, Some (0, 2)])) ''c'' = Some 2"
    using sample_partitions_nodes [of "[''a'', ''b'', ''c'']" "[Some (4, 1), None, Some (0, 2)]", OF _ _ refl]
    by (auto dest!: conjunct2 spec [of _ 2] simp: eval_nat_numeral)
qed


subsection \<open>Control packet ids\<close>

lemma id_bound: "unat (i :: 32 word) < 2 ^ 32"
  using unsigned_less [of i] by simp

lemma next_id_unat:
  assumes "i \<noteq> 0"
  shows "unat (next_control_packet_id i) = unat i mod (2 ^ 32 - 1) + 1"
proof -
  have b: "0 < unat i" "unat i < 2 ^ 32" using assms id_bound [of i] by (simp_all add: unat_gt_0)
  show ?thesis
  proof (cases "i + 1 = 0")
    case True
    then have "i = - 1" by (simp add: eq_neg_iff_add_eq_0)
    with True show ?thesis by (simp add: next_control_packet_id_def unsigned_minus_1_eq_mask mask_eq_exp_minus_1)
  next
    case False
    then have "unat (i + 1) = unat i + 1" using unatSuc [of i] by (simp add: add.commute)
    moreover from this have "unat i + 1 < 2 ^ 32" using id_bound [of "i + 1"] by simp
    ultimately show ?thesis using False b by (simp add: next_control_packet_id_def)
  qed
qed

lemma next_id_nonzero: "next_control_packet_id i \<noteq> 0"
  by (simp add: next_control_packet_id_def)

lemma later_id_unat:
  assumes "i \<noteq> 0"
  shows "unat ((next_control_packet_id ^^ n) i) = (unat i - 1 + n) mod (2 ^ 32 - 1) + 1"
proof (induction n)
  case 0
  have "0 < unat i" "unat i < 2 ^ 32" using assms id_bound [of i] by (simp_all add: unat_gt_0)
  then show ?case by simp
next
  case (Suc n)
  have "(next_control_packet_id ^^ n) i \<noteq> 0" using assms by (cases n) (simp_all add: next_id_nonzero)
  from next_id_unat [OF this] Suc.IH show ?case by (simp add: mod_Suc_eq)
qed

text \<open>
  Control packet ids wrap around without ever being zero, and a full round of the 32-bit range
  passes before an id is drawn again, so a response is never taken for one to an earlier request of
  the same round.
\<close>

theorem control_ids_do_not_repeat:
  assumes "i \<noteq> 0" and "m < n" and "n - m < 2 ^ 32 - 1"
  shows "(next_control_packet_id ^^ m) i \<noteq> (next_control_packet_id ^^ n) i \<and> (next_control_packet_id ^^ n) i \<noteq> 0"
proof
  let ?k = "unat i - 1"
  show "(next_control_packet_id ^^ m) i \<noteq> (next_control_packet_id ^^ n) i"
  proof
    assume "(next_control_packet_id ^^ m) i = (next_control_packet_id ^^ n) i"
    then have "(?k + m) mod (2 ^ 32 - 1) = (?k + n) mod (2 ^ 32 - 1)"
      using later_id_unat [OF assms(1), of m] later_id_unat [OF assms(1), of n] by simp
    then have "(2 ^ 32 - 1) dvd ((?k + n) - (?k + m))" using assms(2) by (subst mod_eq_dvd_iff_nat [symmetric]) auto
    then have "(2 ^ 32 - 1) dvd (n - m)" by simp
    with assms(2,3) show False by (auto dest: dvd_imp_le)
  qed
  show "(next_control_packet_id ^^ n) i \<noteq> 0" using assms(2) by (cases n) (simp_all add: next_id_nonzero)
qed

lemma control_ids_do_not_repeat_witness:
  "(next_control_packet_id ^^ 1) 0xFFFFFFFF \<noteq> (next_control_packet_id ^^ 3) 0xFFFFFFFF \<and> next_control_packet_id 0xFFFFFFFF = 1"
  using control_ids_do_not_repeat [of "0xFFFFFFFF" 1 3] by (simp add: next_control_packet_id_def)


subsection \<open>Starting a run\<close>

lemma bind_Inl: "bind_result r f = Inl e \<longleftrightarrow> r = Inl e \<or> (\<exists>x. r = Inr x \<and> f x = Inl e)"
  by (cases r) auto

lemma traverse_Inl: "traverse_result f xs = Inl e \<Longrightarrow> \<exists>x. f x = Inl e"
  by (induction xs) (auto simp: bind_Inl)

lemma flow_error: "validate_flow_nodes kind known f = Inl e \<Longrightarrow> value_error e"
  by (auto simp: validate_flow_nodes_def Let_def value_error_def split: if_splits option.splits)

lemma check_start_error: "check_start run_id q snapshot c = Inl e \<Longrightarrow> runtime_error e \<or> value_error e"
  by (auto simp: check_start_def Let_def bind_Inl runtime_error_def value_error_def validate_request_nodes_def
      split: if_splits dest!: traverse_Inl flow_error)

lemma retire_error: "retire_sources now srcs ids = (ids', Inl e) \<Longrightarrow> runtime_error e"
  by (induction now srcs ids rule: retire_sources.induct) (auto simp: Let_def runtime_error_def split: if_splits)

lemma start_run_error:
  assumes "start_run now run_id q sc smp c = (c', Inl e)"
  shows "runtime_error e \<or> value_error e"
proof -
  define snapshot where "snapshot = (case sc of Some s \<Rightarrow> s | None \<Rightarrow> t_scenario c)"
  obtain ids o1 where rt: "retire_packet_ids now (t_ids c) = (ids, o1)" by fastforce
  let ?c2 = "set_baseline snapshot smp (clear_accumulators now (c\<lparr>t_ids := ids\<rparr>))"
  have "t_live_latencies_ms ?c2 = []" by (simp add: set_baseline_def clear_accumulators_def Let_def)
  then obtain m where m: "live_metrics_snapshot ?c2 = Inr m" by (rule live_snapshot_empty)
  show ?thesis
  proof (cases "check_start run_id q snapshot c")
    case (Inl e')
    with assms have "e' = e" by (simp add: start_run_def snapshot_def)
    with Inl check_start_error show ?thesis by blast
  next
    case (Inr u)
    with assms rt m have "o1 = Inl e"
      by (cases o1) (auto simp: start_run_def snapshot_def [symmetric] reset_accumulators_def)
    with rt have "\<exists>srcs ids0 ids1. retire_sources now srcs ids0 = (ids1, Inl e)"
      by (auto simp: retire_packet_ids_def split: prod.splits sum.splits)
    then show ?thesis by (auto dest: retire_error)
  qed
qed

text \<open>
  A request to start traffic has two outcomes. Either the run starts, on the controller whose
  baseline was sampled, in a running simulation, and is the active one; or the request is refused
  with a conflict, whatever the sampler or the controller raised, and the state of the simulation,
  the active run and its records stay as they were.
\<close>

theorem traffic_starts_or_conflicts:
  assumes "start_traffic_end now run_id file_exists q serial baseline s = (s', out)"
  shows "case out of
      Inl e \<Rightarrow> (\<exists>code m. e = SimulationConflict code m) \<and> sv_state s' = sv_state s \<and> active_run s' = active_run s \<and>
        map_option messages (sv_traffic s') = map_option messages (sv_traffic s)
    | Inr i \<Rightarrow> i = run_id \<and> sv_state s = L_RUNNING \<and> sv_traffic_serial s = serial \<and> isOk baseline \<and>
        sv_state s' = L_RUNNING \<and> active_run s' = Some run_id"
proof -
  have archived: "sv_traffic (archive_result file_exists c s) = sv_traffic s" "sv_state (archive_result file_exists c s) = sv_state s"
    for c by (simp_all add: archive_result_def split: option.splits)
  show ?thesis
  proof (cases "isOk baseline \<and> sv_traffic s \<noteq> None \<and> sv_state s = L_RUNNING \<and> sv_traffic_serial s = serial")
    case False
    with assms show ?thesis by (auto simp: start_traffic_end_def split: sum.splits option.splits if_splits)
  next
    case True
    then obtain c sample where c: "sv_traffic s = Some c" "baseline = Inr sample" by (cases baseline) auto
    let ?c = "shared (archive_result file_exists c s) c"
    obtain c' r where run: "start_run now run_id q (Some (sv_scenario s)) (Full_Sample sample) ?c = (c', r)" by fastforce
    from assms True c run have s': "s' = put_traffic c' (archive_result file_exists c s)"
      and out: "out = (case r of Inl e \<Rightarrow> Inl (start_traffic_error e) | Inr i \<Rightarrow> Inr i)"
      by (auto simp: start_traffic_end_def Let_def split: sum.splits)
    from run show ?thesis
    proof (cases rule: start_cases)
      case (rejected e ids)
      with start_run_error [of now run_id q "Some (sv_scenario s)" "Full_Sample sample" ?c c' e] run
      have "\<exists>code m. start_traffic_error e = SimulationConflict code m"
        by (auto simp: start_traffic_error_def split: pyerr.split)
      moreover from rejected(2) have "t_current c' = t_current c" "t_state c' = t_state c" by (auto simp: shared_def)
      ultimately show ?thesis using rejected(1) out c
        by (cases "t_current c") (simp_all add: s' put_traffic_def archived active_run_def messages_def)
    next
      case (started snapshot m ids)
      with out c True show ?thesis
        by (simp add: s' put_traffic_def archived active_run_def install_run_def new_result_def)
    qed
  qed
qed


lemma traffic_starts_or_conflicts_witness:
  "\<exists>s' out. start_traffic_end 1 ''r1'' False relay_request 1
      (Inr \<lparr>fs_totals = [], fs_duplicate_totals = [], fs_missing_nodes = [''a'', ''b'', ''c'']\<rparr>) lab_serving = (s', out) \<and>
     out = Inr ''r1'' \<and> active_run s' = Some ''r1''"
proof -
  let ?sample = "\<lparr>fs_totals = [], fs_duplicate_totals = [], fs_missing_nodes = [''a'', ''b'', ''c'']\<rparr>"
  obtain s' out where s: "start_traffic_end 1 ''r1'' False relay_request 1 (Inr ?sample) lab_serving = (s', out)" by fastforce
  obtain c where c: "sv_traffic lab_serving = Some c" "t_current c = None" "\<not> t_task_active c" "t_ids c = no_packet_ids"
    by (simp add: lab_serving_def start_running_fields wire_traffic_fields new_controller_def)
  have serial: "sv_traffic_serial lab_serving = 1"
    by (simp add: lab_serving_def start_running_def publish_lifecycle_def publish_def wire_traffic_def
      put_traffic_def lab_service_def new_service_def Let_def)
  let ?c = "shared lab_serving c"
  let ?c2 = "set_baseline relay_scenario (Full_Sample ?sample) (clear_accumulators 1 (?c\<lparr>t_ids := no_packet_ids\<rparr>))"
  have "t_live_latencies_ms ?c2 = []" by (simp add: set_baseline_def clear_accumulators_def Let_def)
  then obtain m where m: "live_metrics_snapshot ?c2 = Inr m" by (rule live_snapshot_empty)
  have "check_start ''r1'' relay_request relay_scenario ?c = check_start ''r1'' relay_request relay_scenario lab"
    using c(3) by (simp add: check_start_def Let_def shared_def lab_def new_controller_def)
  moreover have "retire_packet_ids 1 (t_ids ?c) = (no_packet_ids, Inr ())"
    by (simp add: retire_packet_ids_def shared_def c(4) no_packet_ids_def)
  ultimately have "isOk (snd (start_run 1 ''r1'' relay_request (Some relay_scenario) (Full_Sample ?sample) ?c))"
    using lab_accepts m by (auto simp: start_run_def reset_accumulators_def isOk_iff)
  with s c serial have "isOk out"
    by (auto simp: start_traffic_end_def lab_serving_fields archive_result_def split: prod.splits sum.splits)
  with traffic_starts_or_conflicts [OF s] s show ?thesis
    by (intro exI [of _ s'] exI [of _ out]) (auto split: sum.splits)
qed

end
