(* ===== verification/Service_Steps.thy ===== *)
theory Service_Steps
  imports Service_Laws
begin

text \<open>
  The life cycle of \<^verbatim>\<open>src/backend/app/simulator/service.py\<close> as a step relation. A state is
  the service with what its tasks are doing: the lifecycle command that holds the lifecycle lock and
  the point where it is suspended, the commands and the cleanup task that wait for that lock in FIFO
  order, and the holder of the topology lock. A lock that was released with tasks waiting is handed
  over in a later turn of the event loop, so that the handlers of other tasks can run before. The
  cleanup lock is only taken under the lifecycle lock, so it is never contended and has no state.
  What the gateways, the controller, the medium, the supervisor and the clients do while a command is
  suspended are the rules of \<open>frame_step\<close>.
\<close>

subsection \<open>States\<close>

datatype service_command = C_start | C_stop | C_reset

datatype waiter = W_command service_command | W_cleanup

text \<open>
  The points where \<^verbatim>\<open>_cleanup_resources_unlocked\<close> and its callers wait: for the topology
  lock, the failing run, the cancelled lag task, the traffic controller, the gateways, and the
  processes.
\<close>

datatype cleanup_point = Cl_topology | Cl_fail | Cl_lag | Cl_traffic | Cl_gateways | Cl_processes

text \<open>The points where \<^verbatim>\<open>start\<close> waits.\<close>

datatype start_point =
    At_recover cleanup_point
  | At_supervisor
  | At_gateways
  | At_configure
  | At_warm_up "(string \<times> string) set"
  | At_enable "(string \<times> string) set" "(string \<times> string) set"
  | At_unwind pyerr cleanup_point

datatype activity = Idle | Starting start_point | Stopping cleanup_point | Cleaning cleanup_point

datatype topology_lock = T_free | T_start traffic_request nat | T_stop | T_cleanup

record command_result =
  cr_state :: lifecycle_state
  cr_detail :: string

datatype progress = Suspended activity | Returned "command_result result"

definition after_progress :: "progress \<Rightarrow> activity" where
  "after_progress p = (case p of Suspended a \<Rightarrow> a | Returned _ \<Rightarrow> Idle)"

record simulator =
  sm_service :: service
  sm_activity :: activity
  sm_queue :: "waiter list"
  sm_topology :: topology_lock

definition new_simulator :: "service \<Rightarrow> simulator" where
  "new_simulator s = \<lparr>sm_service = s, sm_activity = Idle, sm_queue = [], sm_topology = T_free\<rparr>"

subsection \<open>The beginning of a command\<close>

text \<open>What the surroundings give to a command: the collision marker, the clock, a fresh identifier.\<close>

record surroundings =
  su_marker_exists :: bool
  su_now :: pyfloat
  su_id :: string
  su_known :: "string \<Rightarrow> bool"

definition start_processes :: "surroundings \<Rightarrow> service \<Rightarrow> service \<times> progress" where
  "start_processes su s =
     (case start_capable (su_marker_exists su) s of
        Inl e \<Rightarrow> (s, Returned (Inl e))
      | Inr _ \<Rightarrow> (start_announce (su_now su) (su_id su) s, Suspended (Starting At_supervisor)))"

definition enter_start :: "surroundings \<Rightarrow> service \<Rightarrow> service \<times> progress" where
  "enter_start su s =
     (case start_admission s of
        Inl e \<Rightarrow> (s, Returned (Inl e))
      | Inr False \<Rightarrow> (s, Returned (Inr \<lparr>cr_state = sv_state s, cr_detail = ''already running''\<rparr>))
      | Inr True \<Rightarrow>
          if sv_state s = L_FAILED then (cleanup_begin s, Suspended (Starting (At_recover Cl_lag)))
          else start_processes su s)"

definition enter_stop :: "surroundings \<Rightarrow> service \<Rightarrow> service \<times> progress" where
  "enter_stop su s =
     (if sv_state s = L_STOPPED then (s, Returned (Inr \<lparr>cr_state = sv_state s, cr_detail = ''already stopped''\<rparr>))
      else (service_stop_begin (su_now su) s, Suspended (Stopping Cl_topology)))"

definition enter_reset :: "surroundings \<Rightarrow> service \<Rightarrow> service \<times> progress" where
  "enter_reset su s =
     (case service_reset (su_known su) (su_now su) (su_id su) s of
        (s', Inl e) \<Rightarrow> (s', Returned (Inl e))
      | (s', Inr _) \<Rightarrow> (s', Returned (Inr \<lparr>cr_state = sv_state s', cr_detail = sv_message s'\<rparr>)))"

definition enter :: "surroundings \<Rightarrow> waiter \<Rightarrow> service \<Rightarrow> service \<times> progress" where
  "enter su w s =
     (case w of
        W_command C_start \<Rightarrow> enter_start su s
      | W_command C_stop \<Rightarrow> enter_stop su s
      | W_command C_reset \<Rightarrow> enter_reset su s
      | W_cleanup \<Rightarrow> (s, Suspended (Cleaning Cl_topology)))"

subsection \<open>Cleaning up\<close>

text \<open>
  One stretch of the cleanup. The answer of \<^verbatim>\<open>traffic.stop\<close>, whether the run is finalized,
  is \<^verbatim>\<open>True\<close> for a controller with a frozen result.
\<close>

inductive cleanup_step :: "service \<times> cleanup_point \<Rightarrow> service \<times> cleanup_point \<Rightarrow> bool" where
  lag: "cleanup_step (s, Cl_lag) (with_traffic (\<lambda>c. snd (stop_begin c)) s, Cl_traffic)"
| traffic: "\<forall>c. sv_traffic s = Some c \<and> t_frozen_result c \<noteq> None \<longrightarrow> finalized \<Longrightarrow>
    cleanup_traffic now finalized file_exists s = (s', Inr ()) \<Longrightarrow>
    cleanup_step (s, Cl_traffic) (cleanup_medium s', Cl_gateways)"
| gateways: "cleanup_step (s, Cl_gateways) (cleanup_gateways now s, Cl_processes)"

inductive_cases cleanup_stepE: "cleanup_step (s, p) (s', p')"

subsection \<open>The points of a start\<close>

text \<open>The exception of a start, and the check whether a failure was reported meanwhile.\<close>

definition unwind :: "pyfloat \<Rightarrow> pyerr \<Rightarrow> service \<Rightarrow> service \<times> activity" where
  "unwind now e s = (cleanup_begin (start_raised now e s), Starting (At_unwind e Cl_lag))"

definition unless_failed :: "pyfloat \<Rightarrow> service \<Rightarrow> service \<times> activity \<Rightarrow> service \<times> activity" where
  "unless_failed now s next =
     (case raise_if_startup_failed s of Inl e \<Rightarrow> unwind now e s | Inr _ \<Rightarrow> next)"

definition after_supervisor :: "pyfloat \<Rightarrow> (string \<Rightarrow> int result) \<Rightarrow> service \<Rightarrow> service \<times> activity" where
  "after_supervisor now bound s =
     unless_failed now s
       (case start_gateways bound s of
          (s1, Inl e) \<Rightarrow> unwind now e s1
        | (s1, Inr _) \<Rightarrow> (s1, Starting At_gateways))"

definition after_gateways :: "pyfloat \<Rightarrow> service \<Rightarrow> service \<times> activity" where
  "after_gateways now s = unless_failed now s (start_configuring s, Starting At_configure)"

text \<open>\<^verbatim>\<open>medium.start\<close> only creates tasks, so the code runs on to the warm-up.\<close>

definition after_configure :: "set_order \<Rightarrow> pyfloat \<Rightarrow> pyfloat \<Rightarrow> (string, verification) dict result \<Rightarrow> service \<Rightarrow>
    service \<times> activity" where
  "after_configure order now timestamp r s =
     (case r of
        Inl e \<Rightarrow> unwind now e s
      | Inr verified \<Rightarrow>
          unless_failed now (s\<lparr>sv_verifications := verified\<rparr>)
            (case start_warming order now timestamp (wire_traffic now verified s) of
               (s1, Inl e) \<Rightarrow> unwind now e s1
             | (s1, Inr expected) \<Rightarrow> (s1, Starting (At_warm_up expected))))"

definition after_warm_up :: "pyfloat \<Rightarrow> (string \<times> string) set \<Rightarrow> service \<Rightarrow> service \<times> activity" where
  "after_warm_up now expected s = unless_failed now s (s, Starting (At_enable (missing_pairs expected s) expected))"

definition after_enable :: "pyfloat \<Rightarrow> (string \<times> string) set \<Rightarrow> (string \<times> string) set \<Rightarrow> service \<Rightarrow> service \<times> activity" where
  "after_enable now missing expected s =
     unless_failed now s (start_finished (start_running now missing expected s), Idle)"


subsection \<open>Steps of the other tasks\<close>

inductive frame_step :: "env \<Rightarrow> 'r rng \<Rightarrow> 'w send \<Rightarrow> (string \<Rightarrow> from_radio \<Rightarrow> controller \<Rightarrow> bool) \<Rightarrow>
    (bytes \<Rightarrow> telemetry option) \<Rightarrow> (pyfloat \<Rightarrow> rat) \<Rightarrow> service \<Rightarrow> service \<Rightarrow> bool"
  for ev g send allowed parse single where
  traffic: "sv_traffic s = Some c \<Longrightarrow> ctl_step ev g send allowed (shared s c) c' \<Longrightarrow>
    frame_step ev g send allowed parse single s (put_traffic c' s)"
| late: "sv_late s = xs @ c # ys \<Longrightarrow> ctl_step ev g send allowed (shared s c) c' \<Longrightarrow>
    frame_step ev g send allowed parse single s (s\<lparr>sv_late := xs @ c' # ys, sv_broker := t_broker c'\<rparr>)"
| settled: "sv_late s = xs @ c # ys \<Longrightarrow> t_finalization_done c \<Longrightarrow>
    frame_step ev g send allowed parse single s (fst (settle_late now file_exists c (s\<lparr>sv_late := xs @ ys\<rparr>)))"
| gateway: "dict_get (sv_gateways s) n = Some gw \<Longrightarrow> gw_step (en_codec ev) gw gw' \<Longrightarrow>
    frame_step ev g send allowed parse single s (put_gateway now n gw gw' s)"
| medium: "sv_medium s = Some md \<Longrightarrow> md_running md \<Longrightarrow>
    frame_step ev g send allowed parse single s (medium_turn ev single now n s)"
| radio: "frame_step ev g send allowed parse single s (fst (on_from_radio ev parse now n m s))"
| sampler: "frame_step ev g send allowed parse single s (fst (sampler_turn (en_codec ev) telemetry_payload deadline now n expected s))"
| lag: "sv_lag_task s \<Longrightarrow> frame_step ev g send allowed parse single s (measure_lag expected now s)"
| supervised: "frame_step ev g send allowed parse single s (s\<lparr>sv_supervisor := sp\<rparr>)"
| process: "frame_step ev g send allowed parse single s (on_process_failure now n code s)"
| edited: "check_scenario known sc = Inr sc' \<Longrightarrow>
    frame_step ev g send allowed parse single s (fst (replace_scenario sc' s))"

subsection \<open>Steps of the simulator\<close>

definition cleanup_context :: "(cleanup_point \<Rightarrow> activity) \<Rightarrow> bool" where
  "cleanup_context f \<longleftrightarrow> f = Stopping \<or> f = Cleaning \<or> f = (\<lambda>p. Starting (At_recover p)) \<or> (\<exists>e. f = (\<lambda>p. Starting (At_unwind e p)))"

definition cleanup_scheduled :: "service \<Rightarrow> bool" where
  "cleanup_scheduled s \<longleftrightarrow> (case sv_failure_cleanup s of Cleanup_pending _ \<Rightarrow> True | _ \<Rightarrow> False)"

definition fail_traffic :: "service \<Rightarrow> service" where
  "fail_traffic s =
     (case sv_failure_cleanup s of
        Cleanup_pending reason \<Rightarrow> with_traffic (\<lambda>c. snd (fail_begin reason c)) s
      | _ \<Rightarrow> s)"

definition release_topology :: "topology_lock \<Rightarrow> topology_lock" where
  "release_topology t = (if t = T_cleanup then T_free else t)"

text \<open>What an exception in the cleanup leaves: the task ends and releases its locks.\<close>

fun cleanup_abandoned :: "activity \<Rightarrow> service \<Rightarrow> service" where
  "cleanup_abandoned (Starting (At_unwind e p)) s = start_finished s"
| "cleanup_abandoned (Cleaning p) s = s\<lparr>sv_failure_cleanup := Cleanup_done\<rparr>"
| "cleanup_abandoned _ s = s"

definition proceed :: "service \<times> activity \<Rightarrow> simulator \<Rightarrow> simulator" where
  "proceed r sm = sm\<lparr>sm_service := fst r, sm_activity := snd r\<rparr>"

definition run_waiter :: "surroundings \<Rightarrow> waiter \<Rightarrow> service \<Rightarrow> service \<times> activity" where
  "run_waiter su w s = (case enter su w s of (s', p) \<Rightarrow> (s', after_progress p))"

text \<open>
  \<open>calm\<close> excludes one behaviour of the clients: to ask for a start while another lifecycle
  command is under way.
\<close>

inductive sim_step :: "env \<Rightarrow> 'r rng \<Rightarrow> 'w send \<Rightarrow> (string \<Rightarrow> from_radio \<Rightarrow> controller \<Rightarrow> bool) \<Rightarrow>
    (bytes \<Rightarrow> telemetry option) \<Rightarrow> (pyfloat \<Rightarrow> rat) \<Rightarrow> bool \<Rightarrow> simulator \<Rightarrow> simulator \<Rightarrow> bool"
  for ev g send allowed parse single calm where
  frame: "frame_step ev g send allowed parse single (sm_service sm) s' \<Longrightarrow>
    sim_step ev g send allowed parse single calm sm (sm\<lparr>sm_service := s'\<rparr>)"
| links: "sm_topology sm = T_free \<Longrightarrow>
    sim_step ev g send allowed parse single calm sm (sm\<lparr>sm_service := fst (update_links ev now ls (sm_service sm))\<rparr>)"
| preset: "sm_topology sm = T_free \<Longrightarrow>
    sim_step ev g send allowed parse single calm sm (sm\<lparr>sm_service := fst (apply_topology ev now ps (sm_service sm))\<rparr>)"
| traffic_begin: "sm_topology sm = T_free \<Longrightarrow> start_traffic_begin (sm_service sm) = Inr serial \<Longrightarrow>
    sim_step ev g send allowed parse single calm sm (sm\<lparr>sm_topology := T_start q serial\<rparr>)"
| traffic_end: "sm_topology sm = T_start q serial \<Longrightarrow>
    sim_step ev g send allowed parse single calm sm
      (sm\<lparr>sm_service := fst (start_traffic_end now i fe q serial baseline (sm_service sm)), sm_topology := T_free\<rparr>)"
| stop_traffic: "sm_topology sm = T_free \<Longrightarrow>
    sim_step ev g send allowed parse single calm sm
      (sm\<lparr>sm_service := with_traffic (\<lambda>c. snd (stop_begin c)) (sm_service sm), sm_topology := T_stop\<rparr>)"
| traffic_stopped: "sm_topology sm = T_stop \<Longrightarrow> sim_step ev g send allowed parse single calm sm (sm\<lparr>sm_topology := T_free\<rparr>)"
| call: "\<not> cleanup_scheduled (sm_service sm) \<Longrightarrow> sm_activity sm = Idle \<Longrightarrow> sm_queue sm = [] \<Longrightarrow>
    sim_step ev g send allowed parse single calm sm
      (proceed (run_waiter su (W_command command) ((sm_service sm)\<lparr>sv_failure_cleanup := No_cleanup\<rparr>)) sm)"
| queued: "\<not> cleanup_scheduled (sm_service sm) \<Longrightarrow> sm_activity sm \<noteq> Idle \<or> sm_queue sm \<noteq> [] \<Longrightarrow>
    \<not> (calm \<and> command = C_start) \<Longrightarrow>
    sim_step ev g send allowed parse single calm sm
      (sm\<lparr>sm_service := (sm_service sm)\<lparr>sv_failure_cleanup := No_cleanup\<rparr>, sm_queue := sm_queue sm @ [W_command command]\<rparr>)"
| handover: "sm_activity sm = Idle \<Longrightarrow> sm_queue sm = w # ws \<Longrightarrow>
    sim_step ev g send allowed parse single calm sm (proceed (run_waiter su w (sm_service sm)) (sm\<lparr>sm_queue := ws\<rparr>))"
| cleanup_at_once: "cleanup_scheduled (sm_service sm) \<Longrightarrow> sm_activity sm = Idle \<Longrightarrow> sm_queue sm = [] \<Longrightarrow>
    sim_step ev g send allowed parse single calm sm (proceed (run_waiter su W_cleanup (sm_service sm)) sm)"
| cleanup_queued: "cleanup_scheduled (sm_service sm) \<Longrightarrow> sm_activity sm \<noteq> Idle \<or> sm_queue sm \<noteq> [] \<Longrightarrow>
    W_cleanup \<notin> set (sm_queue sm) \<Longrightarrow> \<forall>p. sm_activity sm \<noteq> Cleaning p \<Longrightarrow>
    sim_step ev g send allowed parse single calm sm (sm\<lparr>sm_queue := sm_queue sm @ [W_cleanup]\<rparr>)"
| stop_locks: "sm_activity sm = Stopping Cl_topology \<Longrightarrow> sm_topology sm = T_free \<Longrightarrow>
    sim_step ev g send allowed parse single calm sm
      (proceed (cleanup_begin (sm_service sm), Stopping Cl_lag) (sm\<lparr>sm_topology := T_cleanup\<rparr>))"
| cleanup_locks: "sm_activity sm = Cleaning Cl_topology \<Longrightarrow> sm_topology sm = T_free \<Longrightarrow>
    sim_step ev g send allowed parse single calm sm
      (proceed (fail_traffic (sm_service sm), Cleaning Cl_fail) (sm\<lparr>sm_topology := T_cleanup\<rparr>))"
| cleanup_failed: "sm_activity sm = Cleaning Cl_fail \<Longrightarrow>
    sim_step ev g send allowed parse single calm sm (proceed (cleanup_begin (sm_service sm), Cleaning Cl_lag) sm)"
| cleanup: "cleanup_context f \<Longrightarrow> sm_activity sm = f p \<Longrightarrow> cleanup_step (sm_service sm, p) (s', p') \<Longrightarrow>
    sim_step ev g send allowed parse single calm sm (proceed (s', f p') sm)"
| stopped: "sm_activity sm = Stopping Cl_processes \<Longrightarrow>
    sim_step ev g send allowed parse single calm sm
      (proceed (service_stop_end now (cleanup_end (sm_service sm)), Idle) (sm\<lparr>sm_topology := T_free\<rparr>))"
| cleaned: "sm_activity sm = Cleaning Cl_processes \<Longrightarrow>
    sim_step ev g send allowed parse single calm sm
      (proceed ((cleanup_end (sm_service sm))\<lparr>sv_failure_cleanup := Cleanup_done\<rparr>, Idle) (sm\<lparr>sm_topology := T_free\<rparr>))"
| recovered: "sm_activity sm = Starting (At_recover Cl_processes) \<Longrightarrow>
    start_processes su (cleanup_end (sm_service sm)) = (s', p) \<Longrightarrow>
    sim_step ev g send allowed parse single calm sm (proceed (s', after_progress p) sm)"
| unwound: "sm_activity sm = Starting (At_unwind e Cl_processes) \<Longrightarrow>
    sim_step ev g send allowed parse single calm sm (proceed (start_finished (cleanup_end (sm_service sm)), Idle) sm)"
| abandoned: "cleanup_context f \<Longrightarrow> sm_activity sm = f p \<Longrightarrow>
    sim_step ev g send allowed parse single calm sm
      (proceed (cleanup_abandoned (f p) (sm_service sm), Idle) (sm\<lparr>sm_topology := release_topology (sm_topology sm)\<rparr>))"
| processes: "sm_activity sm = Starting At_supervisor \<Longrightarrow>
    sim_step ev g send allowed parse single calm sm
      (proceed (after_supervisor now bound ((sm_service sm)\<lparr>sv_supervisor := sp\<rparr>)) sm)"
| connect: "sm_activity sm = Starting At_gateways \<Longrightarrow>
    sim_step ev g send allowed parse single calm sm (proceed (after_gateways now (sm_service sm)) sm)"
| configure: "sm_activity sm = Starting At_configure \<Longrightarrow> r = configure_nodes observed (sm_service sm) \<Longrightarrow>
    sim_step ev g send allowed parse single calm sm (proceed (after_configure order now timestamp r (sm_service sm)) sm)"
| warm_up: "sm_activity sm = Starting (At_warm_up expected) \<Longrightarrow>
    sim_step ev g send allowed parse single calm sm (proceed (after_warm_up now expected (sm_service sm)) sm)"
| enable: "sm_activity sm = Starting (At_enable missing expected) \<Longrightarrow>
    sim_step ev g send allowed parse single calm sm (proceed (after_enable now missing expected (sm_service sm)) sm)"
| raised: "sm_activity sm = Starting p \<Longrightarrow> \<forall>q e. p \<noteq> At_recover q \<and> p \<noteq> At_unwind e q \<Longrightarrow>
    sim_step ev g send allowed parse single calm sm (proceed (unwind now e (sm_service sm)) sm)"

inductive sim_reachable :: "env \<Rightarrow> 'r rng \<Rightarrow> 'w send \<Rightarrow> (string \<Rightarrow> from_radio \<Rightarrow> controller \<Rightarrow> bool) \<Rightarrow>
    (bytes \<Rightarrow> telemetry option) \<Rightarrow> (pyfloat \<Rightarrow> rat) \<Rightarrow> bool \<Rightarrow> simulator \<Rightarrow> bool"
  for ev g send allowed parse single calm where
  new: "new_service build warmup deadline retry scenario broker processes = Inr s \<Longrightarrow> graph_wf scenario \<Longrightarrow>
    sim_reachable ev g send allowed parse single calm (new_simulator s)"
| step: "sim_reachable ev g send allowed parse single calm sm \<Longrightarrow> sim_step ev g send allowed parse single calm sm sm' \<Longrightarrow>
    sim_reachable ev g send allowed parse single calm sm'"

end
