(* ===== verification/Service_Lifecycle.thy ===== *)
theory Service_Lifecycle
  imports Service_Steps
begin

text \<open>
  What the states of the simulator mean. The invariant is stated over the \<open>core\<close> of the service,
  the part that the life cycle decides: every handler of another task keeps the core or turns it
  into that of a failed simulation, and every step of a command changes it in a known way.
\<close>

named_theorems core_simps

subsection \<open>The core of the service\<close>

record core =
  k_scenario :: scenario
  k_state :: lifecycle_state
  k_named :: bool
  k_deadline :: bool
  k_links :: "(string \<times> string, directed_link) dict option"
  k_traffic :: bool
  k_gateways :: "string list"
  k_verified :: "string list"
  k_pending :: bool
  k_startup :: bool

definition core_of :: "service \<Rightarrow> core" where
  "core_of s = \<lparr>k_scenario = sv_scenario s, k_state = sv_state s, k_named = (sv_simulation_id s \<noteq> None),
     k_deadline = (sv_warming_up_until s \<noteq> None), k_links = map_option md_links (sv_medium s),
     k_traffic = (sv_traffic s \<noteq> None), k_gateways = dict_keys (sv_gateways s),
     k_verified = dict_keys (sv_verifications s), k_pending = cleanup_scheduled s, k_startup = sv_startup_task s\<rparr>"

definition fail_core :: "core \<Rightarrow> core" where
  "fail_core k = (if k_state k \<in> {L_STOPPING, L_STOPPED, L_FAILED} then k
     else k\<lparr>k_state := L_FAILED, k_pending := k_pending k \<or> \<not> k_startup k\<rparr>)"

definition disturbed :: "core \<Rightarrow> core \<Rightarrow> bool" where
  "disturbed k k' \<longleftrightarrow> k' = k \<or> k' = fail_core k"

lemma disturbed_refl [intro!]: "disturbed k k"
  by (simp add: disturbed_def)

lemma fail_core_twice [simp]: "fail_core (fail_core k) = fail_core k"
  by (simp add: fail_core_def)

lemma disturbed_trans: "disturbed k l \<Longrightarrow> disturbed l m \<Longrightarrow> disturbed k m"
  by (auto simp: disturbed_def)

lemma core_eqI:
  assumes "sv_scenario s' = sv_scenario s" "sv_state s' = sv_state s" "sv_simulation_id s' = sv_simulation_id s"
    "sv_warming_up_until s' = sv_warming_up_until s" "map_option md_links (sv_medium s') = map_option md_links (sv_medium s)"
    "(sv_traffic s' = None) = (sv_traffic s = None)" "dict_keys (sv_gateways s') = dict_keys (sv_gateways s)"
    "sv_verifications s' = sv_verifications s" "sv_failure_cleanup s' = sv_failure_cleanup s"
    "sv_startup_task s' = sv_startup_task s"
  shows "core_of s' = core_of s"
  unfolding core_of_def cleanup_scheduled_def using assms by simp

lemma core_publish [core_simps]: "core_of (publish e s) = core_of s" "core_of (publish_lifecycle now s) = core_of s"
  by (rule core_eqI; simp add: publish_def publish_lifecycle_def)+

lemma core_put_traffic: "sv_traffic s \<noteq> None \<Longrightarrow> core_of (put_traffic c s) = core_of s"
  by (rule core_eqI) (simp_all add: put_traffic_def)

lemma core_with_traffic [core_simps]: "core_of (with_traffic f s) = core_of s"
  "core_of (fst (with_traffic_result h x s)) = core_of s"
  by (auto simp: with_traffic_def with_traffic_result_def core_put_traffic split: option.split prod.split)

lemma core_observer [core_simps]:
  "core_of (snd (ob_publish (service_observer ev now) e s)) = core_of s"
  "core_of (fst (ob_transmitted (service_observer ev now) n p air s)) = core_of s"
  "core_of (ob_dropped (service_observer ev now) n p reason s) = core_of s"
  by (simp_all add: service_observer_def core_simps)

lemma core_schedule [core_simps]: "core_of (schedule_runtime_failure now cat detail s) = fail_core (core_of s)"
proof (cases "sv_state s \<in> {L_STOPPING, L_STOPPED, L_FAILED}")
  case True
  then show ?thesis by (simp add: schedule_runtime_failure_def fail_core_def core_of_def)
next
  case False
  then show ?thesis
    by (auto simp: schedule_runtime_failure_def fail_core_def core_of_def Let_def publish_lifecycle_def publish_def
        cleanup_scheduled_def split: cleanup_task.split)
qed

lemma disturbed_gateway_event: "disturbed (core_of s) (core_of (on_gateway_event now n kind detail s))"
  by (simp add: on_gateway_event_def Let_def disturbed_def core_simps)

lemma disturbed_reports: "disturbed (core_of s) (core_of (report_outputs now n outs s))"
proof (induction outs arbitrary: s)
  case (Cons out outs)
  show ?case
    by (cases out) (auto intro: Cons.IH disturbed_trans [OF disturbed_gateway_event Cons.IH])
qed auto

lemma keys_dict_set: "dict_get d k \<noteq> None \<Longrightarrow> dict_keys (dict_set k v d) = dict_keys d"
  using dict_get_key [of d k] by (auto simp: dict_simps)

lemma disturbed_put_gateway:
  assumes "dict_get (sv_gateways s) n \<noteq> None"
  shows "disturbed (core_of s) (core_of (put_gateway now n old new s))"
proof -
  have "core_of (s\<lparr>sv_gateways := dict_set n new (sv_gateways s)\<rparr>) = core_of s"
    by (rule core_eqI) (simp_all add: keys_dict_set [OF assms])
  then show ?thesis using disturbed_reports [of "s\<lparr>sv_gateways := dict_set n new (sv_gateways s)\<rparr>"]
    by (simp add: put_gateway_def)
qed

subsection \<open>A turn of the medium\<close>

lemma core_scan: "core_of (snd (scan_links (service_observer ev t) single now n p corr port ls s)) = core_of s"
  by (induction ls arbitrary: s) (simp_all add: Let_def case_prod_unfold core_simps)

lemma core_transmit: "core_of (fst (transmit pb (service_observer ev t) single now n p md s)) = core_of s"
proof -
  let ?ob = "service_observer ev t"
  have "core_of (fst (ob_transmitted ?ob n p air s)) = core_of s" for air by (rule core_observer)
  then have *: "core_of s1 = core_of s" if "ob_transmitted ?ob n p air s = (s1, r)" for s1 r air
    using that by (metis fst_conv)
  show ?thesis
    by (auto simp: transmit_def Let_def case_prod_unfold core_scan core_simps dest: * split: sum.split prod.split)
qed

lemma core_inject:
  assumes "inject pb (service_observer ev t) now i fleet s = (fleet', s', out)"
  shows "core_of s' = core_of s \<and> dict_keys fleet' = dict_keys fleet"
  using assms by (auto simp: inject_def Let_def core_simps keys_dict_set split: option.splits prod.splits sum.splits)

lemma core_gather:
  assumes "gather_injections pb (service_observer ev t) now is fleet s = (fleet', s', out)"
  shows "core_of s' = core_of s \<and> dict_keys fleet' = dict_keys fleet"
  using assms
proof (induction "is" arbitrary: fleet s fleet' s' out)
  case (Cons i "is")
  from Cons.prems show ?case
    by (auto simp: Let_def split: prod.splits dest!: core_inject Cons.IH)
qed simp

lemma core_turn:
  assumes "node_loop_turn pb (service_observer ev t) single now n md fleet s = (fleet', s', out)"
  shows "core_of s' = core_of s \<and> dict_keys fleet' = dict_keys fleet"
proof (cases "dict_get fleet n")
  case None
  with assms show ?thesis by (simp add: node_loop_turn_def)
next
  case (Some gw)
  show ?thesis
  proof (cases "gw_rf_frames gw")
    case Nil
    with assms Some show ?thesis by (simp add: node_loop_turn_def)
  next
    case (Cons p ps)
    obtain s1 r where tr: "transmit pb (service_observer ev t) single now n p md s = (s1, r)" by fastforce
    with core_transmit [of pb ev t single now n p md s] have s1: "core_of s1 = core_of s" by simp
    have keys: "dict_keys (dict_set n (gw\<lparr>gw_rf_frames := ps\<rparr>) fleet) = dict_keys fleet" using Some by (simp add: keys_dict_set)
    show ?thesis
    proof (cases r)
      case (Inl e)
      with assms Some Cons tr s1 keys show ?thesis by (auto simp: node_loop_turn_def Let_def)
    next
      case (Inr js)
      with assms Some Cons tr have "gather_injections pb (service_observer ev t) now js (dict_set n (gw\<lparr>gw_rf_frames := ps\<rparr>) fleet) s1 = (fleet', s', out)"
        by (simp add: node_loop_turn_def Let_def)
      from core_gather [OF this] s1 keys show ?thesis by simp
    qed
  qed
qed

lemma core_fleet: "dict_keys fleet = dict_keys (sv_gateways s) \<Longrightarrow> core_of (s\<lparr>sv_gateways := fleet\<rparr>) = core_of s"
  by (rule core_eqI) simp_all


lemma disturbed_medium: "disturbed (core_of s) (core_of (medium_turn ev single now n s))"
proof (cases "sv_medium s")
  case None
  then show ?thesis by (simp add: medium_turn_def disturbed_refl)
next
  case (Some md)
  obtain fleet s1 out where turn: "node_loop_turn (en_codec ev) (service_observer ev now) single now n md (sv_gateways s) s = (fleet, s1, out)"
    by (metis prod_cases3)
  note same = core_turn [OF turn]
  then have "dict_keys (sv_gateways s1) = dict_keys (sv_gateways s)" by (simp add: core_of_def)
  with same have "core_of (s1\<lparr>sv_gateways := fleet\<rparr>) = core_of s" by (simp add: core_fleet)
  with Some turn show ?thesis
    by (cases out) (simp_all add: medium_turn_def on_medium_failure_def core_simps disturbed_def)
qed

subsection \<open>Steps of the other tasks\<close>

lemma core_stats: "core_of (record_local_stats now n ls i m s) = core_of s"
proof -
  have "core_of (s\<lparr>sv_node_metrics := d\<rparr>) = core_of s" "core_of (s\<lparr>sv_local_stats_response_ids := d'\<rparr>) = core_of s" for d d' s
    by (rule core_eqI; simp)+
  then show ?thesis by (simp add: record_local_stats_def Let_def core_simps)
qed

lemma core_radio: "core_of (fst (on_from_radio ev parse now n m s)) = core_of s"
proof -
  have *: "core_of s1 = core_of s" if "with_traffic_result h x s = (s1, r)" for h x s1 r and s :: service
    using that core_with_traffic(2) by (metis fst_conv)
  have "core_of (observe_node_info n p s) = core_of s" for p s
    by (rule core_eqI) (simp_all add: observe_node_info_def split: option.splits prod.splits)
  moreover have "core_of (handle_telemetry parse now n d s) = core_of s" for d s
    by (auto simp: handle_telemetry_def core_stats split: option.splits telemetry.splits intro: core_eqI)
  ultimately show ?thesis
    by (auto simp: on_from_radio_def dest: * split: prod.splits sum.splits from_radio.splits option.splits)
qed

lemma core_sampler: "core_of (fst (sampler_turn pb tp deadline now n expected s)) = core_of s"
proof -
  have req: "core_of s1 = core_of s" if "local_stats_request tp n s = (s1, r)" for s1 r
    using that by (auto simp: local_stats_request_def Let_def intro!: core_eqI split: option.splits)
  have send: "core_of s2 = core_of s1" if "send_from_service pb n m s1 = (s2, r)" for s1 s2 m r
    using that by (auto simp: send_from_service_def intro!: core_fleet keys_dict_set split: option.splits prod.splits)
  show ?thesis
    by (auto simp: sampler_turn_def split: prod.splits sum.splits dest!: req send)
qed

lemma core_archive: "core_of (archive_result fe c s) = core_of s"
  by (rule core_eqI) (simp_all add: archive_result_def split: option.splits)

lemma core_settle: "core_of (fst (settle_late now fe c s)) = core_of s"
proof -
  have "core_of (s\<lparr>sv_last_traffic_summary := x\<rparr>) = core_of s" for x by (rule core_eqI) simp_all
  then show ?thesis by (auto simp: settle_late_def Let_def core_archive split: sum.split option.split)
qed

lemma frame_core:
  assumes "frame_step ev g send allowed parse single s s'"
  shows "disturbed (core_of s) (core_of s') \<or>
    k_state (core_of s) = L_STOPPED \<and> (\<exists>sc. graph_wf sc \<and> core_of s' = (core_of s)\<lparr>k_scenario := sc\<rparr>)"
  using assms
proof (cases rule: frame_step.cases)
  case (edited known sc sc')
  have "graph_wf sc'" using edited(2) by (simp add: check_scenario_Inr)
  with edited(1) show ?thesis by (auto simp: replace_scenario_def core_of_def cleanup_scheduled_def disturbed_def)
next
  case (late xs c ys c')
  have "core_of s' = core_of s" unfolding late(1) by (rule core_eqI) simp_all
  then show ?thesis by (simp add: disturbed_refl)
next
  case (settled xs c ys now fe)
  have "core_of (s\<lparr>sv_late := xs @ ys\<rparr>) = core_of s" by (rule core_eqI) simp_all
  then show ?thesis unfolding settled(1) core_settle by (simp add: disturbed_refl)
next
  case (supervised sp)
  have "core_of s' = core_of s" unfolding supervised by (rule core_eqI) simp_all
  then show ?thesis by (simp add: disturbed_refl)
next
  case (process now n code)
  then show ?thesis by (simp add: on_process_failure_def core_simps disturbed_def)
qed (auto simp: core_put_traffic disturbed_put_gateway disturbed_medium core_radio core_sampler measure_lag_def core_simps)


subsection \<open>Changes of the topology and of the traffic\<close>

definition rewired :: "core \<Rightarrow> core \<Rightarrow> bool" where
  "rewired k k' \<longleftrightarrow> k' = k \<or>
     (\<exists>sc. relinked (k_scenario k) sc \<and>
       (k_state k = L_RUNNING \<and> k_links k \<noteq> None \<and> k' = k\<lparr>k_scenario := sc, k_links := Some (link_map sc)\<rparr> \<or>
        k_state k = L_STOPPED \<and> k' = k\<lparr>k_scenario := sc\<rparr>))"

lemma runtime_core:
  assumes "in_step s" and "relinked (sv_scenario s) sc'" and "sv_state s = L_RUNNING" and "sv_medium s \<noteq> None"
    and "apply_runtime_scenario ev now sc' s = (s', out)"
  shows "rewired (core_of s) (core_of s')"
proof -
  obtain md where md: "sv_medium s = Some md" "md_links md = link_map (sv_scenario s)" "graph_wf (sv_scenario s)"
    using assms(1,4) by (auto simp: in_step_def)
  from runtime_scenario_applies [OF md(3) assms(2) md(1,2) assms(5)] show ?thesis
  proof (cases out)
    case (Inr u)
    with runtime_scenario_applies [OF md(3) assms(2) md(1,2) assms(5)]
    have "core_of s' = (core_of s)\<lparr>k_scenario := sc', k_links := Some (link_map sc')\<rparr>"
      by (auto simp: core_of_def cleanup_scheduled_def)
    with assms(2,3) md(1) show ?thesis unfolding rewired_def
      by (intro disjI2 exI [of _ sc']) (simp add: core_of_def)
  qed (simp add: rewired_def)
qed

lemma links_core:
  assumes "in_step s"
  shows "rewired (core_of s) (core_of (fst (update_links ev now ls s)))"
proof -
  have *: "rewired (core_of s) (core_of s')" if "apply_runtime_scenario ev now ((sv_scenario s)\<lparr>sc_links := updated_links ls (sc_links (sv_scenario s))\<rparr>) s = (s', out)"
    and "sv_state s = L_RUNNING" "sv_medium s \<noteq> None" for s' out
    using runtime_core [OF assms updated_relinked that(2,3,1)] .
  show ?thesis
    by (auto simp: update_links_def Let_def updated_links_def [symmetric] rewired_def [of "core_of s" "core_of s"] dest: *
        split: option.split sum.split prod.split)
qed

lemma preset_core:
  assumes "in_step s"
  shows "rewired (core_of s) (core_of (fst (apply_topology ev now ps s)))"
proof (cases "apply_topology_preset (sv_scenario s) ps")
  case (Inl e)
  then show ?thesis by (simp add: apply_topology_def rewired_def)
next
  case (Inr sc')
  note rel = preset_relinked [OF Inr]
  obtain s1 r where run: "apply_runtime_scenario ev now sc' s = (s1, r)" by fastforce
  have stopped: "rewired (core_of s) (core_of (s\<lparr>sv_scenario := sc'\<rparr>))" if "sv_state s = L_STOPPED"
    unfolding rewired_def using rel that by (intro disjI2 exI [of _ sc']) (simp add: core_of_def cleanup_scheduled_def)
  have same: "rewired (core_of s) (core_of s)" by (simp add: rewired_def)
  show ?thesis
  proof (cases "sv_state s = L_RUNNING \<and> sv_medium s \<noteq> None")
    case True
    with runtime_core [OF assms rel _ _ run] show ?thesis by (cases r) (auto simp: apply_topology_def Inr run)
  next
    case False
    with stopped same show ?thesis by (auto simp: apply_topology_def Inr)
  qed
qed

lemma core_start_traffic: "core_of (fst (start_traffic_end now i fe q serial baseline s)) = core_of s"
proof (cases "sv_traffic s")
  case None
  then show ?thesis by (simp add: start_traffic_end_def split: sum.split)
next
  case (Some c)
  have "sv_traffic (archive_result fe c s) \<noteq> None" using Some by (simp add: archive_result_def split: option.splits)
  then show ?thesis using Some
    by (simp add: start_traffic_end_def Let_def core_put_traffic core_archive split: sum.split prod.split)
qed

subsection \<open>Stretches of the commands\<close>

lemma core_cleanup_begin [core_simps]: "core_of (cleanup_begin s) = core_of s"
  by (rule core_eqI) (simp_all add: cleanup_begin_def)

lemma core_fail_traffic [core_simps]: "core_of (fail_traffic s) = core_of s"
  by (simp add: fail_traffic_def core_simps split: cleanup_task.split)

lemma core_cleanup_traffic:
  assumes "cleanup_traffic now finalized fe s = (s', r)"
  shows "core_of (cleanup_medium s') = core_of s"
proof -
  have "core_of s' = core_of s"
  proof -
    have "core_of (s\<lparr>sv_last_traffic_summary := x\<rparr>) = core_of s" "core_of (s\<lparr>sv_last_traffic_summary := x, sv_late := y\<rparr>) = core_of s"
      for x y by (rule core_eqI; simp)+
    with assms show ?thesis
      by (auto simp: cleanup_traffic_def Let_def core_archive split: option.splits sum.splits if_splits)
  qed
  moreover have "core_of (cleanup_medium s') = core_of s'"
    by (rule core_eqI) (simp_all add: cleanup_medium_def option.map_comp comp_def)
  ultimately show ?thesis by simp
qed

lemma disturbed_keys: "disturbed k k' \<Longrightarrow> k_gateways k' = k_gateways k"
  by (auto simp: disturbed_def fail_core_def)

lemma disturbed_stopping:
  assumes "\<forall>(n, gw) \<in> set xs. n \<in> set (k_gateways (core_of s))"
  shows "disturbed (core_of s) (core_of (fold (\<lambda>(n, gw). put_gateway now n gw (stop_gateway gw)) xs s))"
  using assms
proof (induction xs arbitrary: s)
  case (Cons x xs)
  obtain n gw where x: "x = (n, gw)" by fastforce
  with Cons.prems have "dict_get (sv_gateways s) n \<noteq> None" by (auto simp: core_of_def map_of_eq_None_iff)
  then have one: "disturbed (core_of s) (core_of (put_gateway now n gw (stop_gateway gw) s))" by (rule disturbed_put_gateway)
  with Cons.prems x have "\<forall>(m, gw') \<in> set xs. m \<in> set (k_gateways (core_of (put_gateway now n gw (stop_gateway gw) s)))"
    by (auto simp: disturbed_keys [OF one])
  from disturbed_trans [OF one Cons.IH [OF this]] x show ?case by simp
qed (simp add: disturbed_refl)

lemma disturbed_cleanup_step:
  assumes "cleanup_step (s, p) (s', p')"
  shows "disturbed (core_of s) (core_of s')"
proof -
  have "disturbed (core_of s) (core_of (cleanup_gateways now s))" for now
    unfolding cleanup_gateways_def by (rule disturbed_stopping) (force simp: core_of_def)
  with assms show ?thesis
    by (cases rule: cleanup_step.cases) (auto simp: core_simps core_cleanup_traffic)
qed


lemma core_fields:
  "k_scenario (core_of s) = sv_scenario s" "k_state (core_of s) = sv_state s"
  "k_gateways (core_of s) = dict_keys (sv_gateways s)" "k_startup (core_of s) = sv_startup_task s"
  by (simp_all add: core_of_def)

lemma core_cleanup_end [core_simps]:
  "core_of (cleanup_end s) = (core_of s)\<lparr>k_links := None, k_traffic := False, k_gateways := [], k_verified := []\<rparr>"
  by (simp add: core_of_def cleanup_end_def cleanup_scheduled_def)

lemma core_states [core_simps]:
  "core_of (start_announce now i s) = (core_of s)\<lparr>k_named := True, k_state := L_STARTING, k_startup := True\<rparr>"
  "core_of (start_raised now e s) = (core_of s)\<lparr>k_state := L_FAILED\<rparr>"
  "core_of (start_finished s) = (core_of s)\<lparr>k_startup := False\<rparr>"
  "core_of (service_stop_begin now s) = (core_of s)\<lparr>k_state := L_STOPPING\<rparr>"
  "core_of (service_stop_end now s) = (core_of s)\<lparr>k_state := L_STOPPED, k_named := False, k_deadline := False\<rparr>"
  "core_of (start_running now missing expected s) = (core_of s)\<lparr>k_state := L_RUNNING, k_deadline := False\<rparr>"
  "core_of (start_configuring s) = core_of s"
  "core_of (s\<lparr>sv_failure_cleanup := No_cleanup\<rparr>) = (core_of s)\<lparr>k_pending := False\<rparr>"
  "core_of (s\<lparr>sv_failure_cleanup := Cleanup_done\<rparr>) = (core_of s)\<lparr>k_pending := False\<rparr>"
  "core_of (s\<lparr>sv_supervisor := sp\<rparr>) = core_of s"
  "core_of (s\<lparr>sv_verifications := v\<rparr>) = (core_of s)\<lparr>k_verified := dict_keys v\<rparr>"
  by (simp_all add: core_of_def start_announce_def start_raised_def start_finished_def service_stop_begin_def
      service_stop_end_def start_running_def start_configuring_def publish_lifecycle_def publish_def cleanup_scheduled_def)

lemma core_wire [core_simps]:
  "core_of (wire_traffic now verified s) = (core_of s)\<lparr>k_verified := dict_keys verified,
     k_links := Some (link_map (sv_scenario s)), k_traffic := True\<rparr>"
proof -
  have "sv_simulation_id (wire_traffic now verified s) = sv_simulation_id s"
    "sv_warming_up_until (wire_traffic now verified s) = sv_warming_up_until s"
    "sv_failure_cleanup (wire_traffic now verified s) = sv_failure_cleanup s"
    "sv_startup_task (wire_traffic now verified s) = sv_startup_task s"
    by (simp_all add: wire_traffic_def put_traffic_def Let_def)
  then show ?thesis by (simp add: core_of_def cleanup_scheduled_def wire_traffic_fields new_medium_def)
qed

lemma core_start_warming:
  "start_warming order now timestamp s = (s', r) \<Longrightarrow> core_of s' = (core_of s)\<lparr>k_state := L_WARMING_UP, k_deadline := True\<rparr>"
  by (auto simp: start_warming_def Let_def publish_lifecycle_def publish_def core_of_def cleanup_scheduled_def split: sum.splits)

lemma reserve_keys: "reserve_listeners bound gws = (gws', r) \<Longrightarrow> dict_keys gws' = dict_keys gws"
  by (induction bound gws arbitrary: gws' r rule: reserve_listeners.induct) (auto split: prod.splits sum.splits)

lemma core_start_gateways:
  assumes "graph_wf (sv_scenario s)" and "start_gateways bound s = (s', r)"
  shows "core_of s' = (core_of s)\<lparr>k_gateways := map sn_id (sc_nodes (sv_scenario s))\<rparr>"
proof -
  let ?kvs = "map (\<lambda>n. (sn_id n, new_gateway (sn_id n) (sn_api_port n) False True True GATEWAY_QUEUE_SIZE)) (sc_nodes (sv_scenario s))"
  have "distinct (map fst ?kvs)" using assms(1) by (simp add: graph_wf_def comp_def)
  then have "sv_gateways (create_gateways s) = ?kvs" by (simp add: create_gateways_def dict_of_fresh)
  with assms(2) obtain gws where s': "s' = (create_gateways s)\<lparr>sv_gateways := gws\<rparr>" and "dict_keys gws = map fst ?kvs"
    by (auto simp: start_gateways_def Let_def split: prod.splits dest: reserve_keys)
  then have "dict_keys gws = map sn_id (sc_nodes (sv_scenario s))" by (simp add: comp_def)
  then show ?thesis by (simp add: core_of_def s' create_gateways_def cleanup_scheduled_def)
qed

lemma core_unwind [core_simps]:
  "core_of (fst (unwind now e s)) = (core_of s)\<lparr>k_state := L_FAILED\<rparr>" "snd (unwind now e s) = Starting (At_unwind e Cl_lag)"
  by (simp_all add: unwind_def core_simps)

text \<open>A successful configuration verified every node.\<close>

lemma settle_round_keys:
  "settle_round observed ns verified = (pending, v) \<Longrightarrow>
   set (dict_keys v) \<union> set pending = set (dict_keys verified) \<union> set ns"
  by (induction observed ns verified arbitrary: pending v rule: settle_round.induct)
    (fastforce simp: dict_keys_set split: option.splits prod.splits if_splits simp del: set_map)+

lemma configure_rounds_keys:
  "configure_rounds rounds pending verified = Inr v \<Longrightarrow> set (dict_keys v) = set (dict_keys verified) \<union> set pending"
proof (induction rounds pending verified rule: configure_rounds.induct)
  case (2 observed rounds pending verified)
  obtain rest v1 where round: "settle_round observed pending verified = (rest, v1)" by fastforce
  note keys = settle_round_keys [OF round]
  show ?case
  proof (cases rest)
    case Nil
    with 2(2) round keys show ?thesis by (simp del: set_map)
  next
    case (Cons n ns)
    with 2(1) [OF round [symmetric] Cons] 2(2) round keys show ?thesis by (simp del: set_map)
  qed
qed simp

lemma configured_all: "configure_nodes observed s = Inr v \<Longrightarrow> set (dict_keys v) = sn_id ` set (sc_nodes (sv_scenario s))"
  using configure_rounds_keys [of _ "map sn_id (sc_nodes (sv_scenario s))" "[]" v]
  by (simp add: configure_nodes_def del: set_map) (simp add: set_map)

lemma reset_core:
  assumes "service_reset known now i s = (s', r)"
  shows "core_of s' = core_of s \<or> k_state (core_of s) = L_STOPPED \<and> (\<exists>sc. graph_wf sc \<and> core_of s' = (core_of s)\<lparr>k_scenario := sc\<rparr>)"
proof (cases "sv_state s = L_STOPPED \<and> isOk (default_scenario known 5)")
  case False
  with assms show ?thesis by (auto simp: service_reset_def isOk_iff split: sum.splits if_splits)
next
  case True
  then obtain sc where sc: "default_scenario known 5 = Inr sc" by (auto simp: isOk_iff)
  then have "graph_wf sc" by (auto simp: default_scenario_def bind_result_eq_Inr check_scenario_Inr Let_def split: if_splits)
  moreover have "core_of s' = (core_of s)\<lparr>k_scenario := sc\<rparr>"
    using assms True sc by (auto simp: service_reset_def Let_def core_of_def publish_lifecycle_def publish_def cleanup_scheduled_def)
  ultimately show ?thesis using True by (auto simp: core_fields)
qed


subsection \<open>What the states mean\<close>

abbreviation names_of :: "core \<Rightarrow> string list" where
  "names_of k \<equiv> map sn_id (sc_nodes (k_scenario k))"

definition up :: "core \<Rightarrow> bool" where
  "up k \<longleftrightarrow> k_links k = Some (link_map (k_scenario k)) \<and> k_traffic k \<and> k_gateways k = names_of k \<and>
     set (k_verified k) = set (names_of k)"

definition down :: "core \<Rightarrow> bool" where
  "down k \<longleftrightarrow> k_links k = None \<and> \<not> k_traffic k \<and> k_gateways k = [] \<and> k_verified k = [] \<and>
     \<not> k_named k \<and> \<not> k_deadline k"

fun point_ok :: "start_point \<Rightarrow> core \<Rightarrow> bool" where
  "point_ok (At_recover p) k \<longleftrightarrow> k_state k = L_FAILED \<and> \<not> k_startup k"
| "point_ok At_supervisor k \<longleftrightarrow> k_state k \<in> {L_STARTING, L_FAILED} \<and> k_startup k \<and> k_named k"
| "point_ok At_gateways k \<longleftrightarrow> k_state k \<in> {L_STARTING, L_FAILED} \<and> k_startup k \<and> k_named k \<and> k_gateways k = names_of k"
| "point_ok At_configure k \<longleftrightarrow> k_state k \<in> {L_STARTING, L_FAILED} \<and> k_startup k \<and> k_named k \<and> k_gateways k = names_of k"
| "point_ok (At_warm_up e) k \<longleftrightarrow> k_state k \<in> {L_WARMING_UP, L_FAILED} \<and> k_startup k \<and> k_named k \<and> up k"
| "point_ok (At_enable m e) k \<longleftrightarrow> k_state k \<in> {L_WARMING_UP, L_FAILED} \<and> k_startup k \<and> k_named k \<and> up k"
| "point_ok (At_unwind e p) k \<longleftrightarrow> k_state k = L_FAILED \<and> k_startup k"

fun activity_ok :: "activity \<Rightarrow> core \<Rightarrow> bool" where
  "activity_ok Idle k \<longleftrightarrow> \<not> k_startup k \<and> k_state k \<notin> {L_STARTING, L_WARMING_UP} \<and>
     (k_state k = L_RUNNING \<longrightarrow> up k \<and> k_named k \<and> \<not> k_deadline k) \<and> (k_state k = L_STOPPED \<longrightarrow> down k)"
| "activity_ok (Starting p) k \<longleftrightarrow> point_ok p k \<and> \<not> k_pending k"
| "activity_ok (Stopping p) k \<longleftrightarrow> k_state k = L_STOPPING \<and> \<not> k_startup k"
| "activity_ok (Cleaning p) k \<longleftrightarrow> k_pending k \<and> \<not> k_startup k \<and> k_state k \<in> {L_FAILED, L_STOPPING, L_STOPPED} \<and>
     (k_state k = L_STOPPED \<longrightarrow> down k)"

definition core_ok :: "core \<Rightarrow> activity \<Rightarrow> waiter list \<Rightarrow> bool" where
  "core_ok k act q \<longleftrightarrow> graph_wf (k_scenario k) \<and> k_links k \<in> {None, Some (link_map (k_scenario k))} \<and>
     (k_pending k \<longrightarrow> k_state k \<in> {L_FAILED, L_STOPPING, L_STOPPED}) \<and> activity_ok act k \<and>
     W_command C_start \<notin> set q \<and> count_list q W_cleanup \<le> 1 \<and>
     (W_cleanup \<in> set q \<longrightarrow> k_pending k \<and> (\<forall>p. act \<noteq> Cleaning p))"

definition sim_ok :: "simulator \<Rightarrow> bool" where
  "sim_ok sm \<longleftrightarrow> core_ok (core_of (sm_service sm)) (sm_activity sm) (sm_queue sm)"

lemma relinked_nodes: "relinked sc sc' \<Longrightarrow> sc_nodes sc' = sc_nodes sc"
  unfolding relinked_def by (metis scenario.select_convs(6) scenario.surjective scenario.update_convs(7))

lemma ok_disturbed:
  assumes "core_ok k act q" and "disturbed k k'"
  shows "core_ok k' act q"
proof (cases "k' = k")
  case False
  with assms(2) have st: "k_state k \<notin> {L_STOPPING, L_STOPPED, L_FAILED}"
    and k': "k' = k\<lparr>k_state := L_FAILED, k_pending := k_pending k \<or> \<not> k_startup k\<rparr>"
    by (auto simp: disturbed_def fail_core_def split: if_splits)
  show ?thesis
  proof (cases act)
    case (Starting p)
    with assms(1) st show ?thesis by (cases p) (auto simp: core_ok_def k' up_def)
  qed (use assms(1) st in \<open>auto simp: core_ok_def k'\<close>)
qed (use assms(1) in simp)

lemma ok_edited:
  assumes "core_ok k act q" and "graph_wf sc" and "k_state k = L_STOPPED"
  shows "core_ok (k\<lparr>k_scenario := sc\<rparr>) act q"
proof (cases act)
  case (Starting p)
  with assms show ?thesis by (cases p) (auto simp: core_ok_def)
qed (use assms in \<open>auto simp: core_ok_def down_def\<close>)

lemma ok_rewired:
  assumes "core_ok k act q" and "rewired k k'"
  shows "core_ok k' act q"
proof -
  consider "k' = k" | sc where "relinked (k_scenario k) sc" "k_state k = L_RUNNING" "k_links k \<noteq> None"
      "k' = k\<lparr>k_scenario := sc, k_links := Some (link_map sc)\<rparr>"
    | sc where "relinked (k_scenario k) sc" "k_state k = L_STOPPED" "k' = k\<lparr>k_scenario := sc\<rparr>"
    using assms(2) by (auto simp: rewired_def)
  then show ?thesis
  proof cases
    case (2 sc)
    have "graph_wf sc" using assms(1) 2(1) by (auto simp: core_ok_def intro: relinked_wf)
    moreover have "activity_ok act k \<Longrightarrow> activity_ok act k'"
    proof (cases act)
      case (Starting p)
      with 2 show "activity_ok act k \<Longrightarrow> activity_ok act k'" by (cases p) auto
    qed (use 2 in \<open>auto simp: up_def relinked_nodes\<close>)
    ultimately show ?thesis using assms(1) 2 by (auto simp: core_ok_def)
  next
    case (3 sc)
    have "graph_wf sc" using assms(1) 3(1) by (auto simp: core_ok_def intro: relinked_wf)
    from ok_edited [OF assms(1) this 3(2)] 3(3) show ?thesis by simp
  qed (use assms(1) in simp)
qed

lemma ok_in_step: "core_ok (core_of s) act q \<Longrightarrow> in_step s"
  by (auto simp: core_ok_def in_step_def core_of_def)


lemma ok_processes:
  assumes "start_processes su s = (s', p)" and "core_ok (core_of s) Idle q" and "\<not> k_pending (core_of s)"
  shows "core_ok (core_of s') (after_progress p) q"
  using assms
  by (auto simp: start_processes_def core_ok_def after_progress_def core_states split: sum.splits)

lemma ok_waiter:
  assumes "run_waiter su w s = (s', act)" and "core_ok (core_of s) Idle q" and "w = W_command C_start \<longrightarrow> \<not> k_pending (core_of s)"
    and "w = W_cleanup \<longrightarrow> k_pending (core_of s) \<and> W_cleanup \<notin> set q"
  shows "core_ok (core_of s') act q"
proof (cases w)
  case (W_command c)
  show ?thesis
  proof (cases c)
    case C_start
    have pend: "\<not> k_pending (core_of s)" using assms(3) W_command C_start by simp
    show ?thesis
    proof (cases "sv_state s = L_FAILED")
      case True
      with assms(1,2) W_command C_start pend show ?thesis
        by (auto simp: run_waiter_def enter_def enter_start_def start_admission_def after_progress_def core_ok_def core_simps core_fields [of s])
    next
      case False
      obtain s1 p where sp: "start_processes su s = (s1, p)" by fastforce
      from ok_processes [OF sp assms(2) pend] assms(1,2) W_command C_start False sp show ?thesis
        by (auto simp: run_waiter_def enter_def enter_start_def start_admission_def after_progress_def split: if_splits)
    qed
  next
    case C_stop
    show ?thesis
    proof (cases "sv_state s = L_STOPPED")
      case True
      with assms(1,2) W_command C_stop show ?thesis by (simp add: run_waiter_def enter_def enter_stop_def after_progress_def)
    next
      case False
      with assms(1) W_command C_stop have "s' = service_stop_begin (su_now su) s" "act = Stopping Cl_topology"
        by (simp_all add: run_waiter_def enter_def enter_stop_def after_progress_def)
      with assms(2) show ?thesis by (auto simp: core_ok_def core_simps)
    qed
  next
    case C_reset
    obtain s1 r where rs: "service_reset (su_known su) (su_now su) (su_id su) s = (s1, r)" by fastforce
    with assms(1) W_command C_reset have "s' = s1" "act = Idle"
      by (auto simp: run_waiter_def enter_def enter_reset_def after_progress_def split: sum.splits)
    with reset_core [OF rs] assms(2) show ?thesis by (auto intro: ok_edited)
  qed
next
  case W_cleanup
  with assms show ?thesis
    by (auto simp: run_waiter_def enter_def after_progress_def core_ok_def)
qed

lemma ok_unwind:
  assumes "core_ok (core_of s) (Starting p) q" and "k_startup (core_of s)"
  shows "core_ok (core_of (fst (unwind now e s))) (snd (unwind now e s)) q"
  using assms by (auto simp: core_simps core_ok_def)

lemma ok_unless_failed:
  assumes "core_ok (core_of s) (Starting p) q" and "k_startup (core_of s)"
    and "sv_state s \<noteq> L_FAILED \<Longrightarrow> core_ok (core_of (fst r)) (snd r) q"
  shows "core_ok (core_of (fst (unless_failed now s r))) (snd (unless_failed now s r)) q"
  using assms by (auto simp: unless_failed_def raise_if_startup_failed_def intro: ok_unwind)

lemma started_flag: "core_ok (core_of s) (Starting p) q \<Longrightarrow> \<forall>q. p \<noteq> At_recover q \<Longrightarrow> k_startup (core_of s)"
  by (cases p) (auto simp: core_ok_def)

lemma ok_supervisor:
  assumes "core_ok (core_of s) (Starting At_supervisor) q"
  shows "core_ok (core_of (fst (after_supervisor now bound s))) (snd (after_supervisor now bound s)) q"
proof -
  have flag: "k_startup (core_of s)" using started_flag [OF assms] by simp
  have wf: "graph_wf (sv_scenario s)" using assms by (simp add: core_ok_def core_fields)
  obtain s1 r where g: "start_gateways bound s = (s1, r)" by fastforce
  note c1 = core_start_gateways [OF wf g]
  have k1: "core_ok (core_of s1) (Starting At_gateways) q" "k_startup (core_of s1)"
    using assms flag by (auto simp: core_ok_def c1 core_fields)
  show ?thesis unfolding after_supervisor_def
  proof (rule ok_unless_failed [OF assms flag])
    show "core_ok (core_of (fst (case start_gateways bound s of (s1, Inl e) \<Rightarrow> unwind now e s1 | (s1, Inr u) \<Rightarrow> (s1, Starting At_gateways))))
      (snd (case start_gateways bound s of (s1, Inl e) \<Rightarrow> unwind now e s1 | (s1, Inr u) \<Rightarrow> (s1, Starting At_gateways))) q"
      using k1 by (cases r) (simp_all add: g ok_unwind [OF k1])
  qed
qed

lemma ok_gateways:
  assumes "core_ok (core_of s) (Starting At_gateways) q"
  shows "core_ok (core_of (fst (after_gateways now s))) (snd (after_gateways now s)) q"
  unfolding after_gateways_def
  by (rule ok_unless_failed [OF assms started_flag [OF assms]]) (use assms in \<open>auto simp: core_ok_def core_simps\<close>)

lemma ok_configure:
  assumes "core_ok (core_of s) (Starting At_configure) q" and "r = configure_nodes observed s"
  shows "core_ok (core_of (fst (after_configure order now timestamp r s))) (snd (after_configure order now timestamp r s)) q"
proof (cases r)
  case (Inl e)
  have "k_startup (core_of s)" using started_flag [OF assms(1)] by simp
  from ok_unwind [OF assms(1) this] Inl show ?thesis by (simp add: after_configure_def)
next
  case (Inr verified)
  let ?s1 = "s\<lparr>sv_verifications := verified\<rparr>" and ?s2 = "wire_traffic now verified s"
  have names: "set (dict_keys verified) = set (names_of (core_of s))"
    using configured_all [of observed s verified] assms(2) Inr by (simp add: core_fields)
  have ok1: "core_ok (core_of ?s1) (Starting At_configure) q" and flag: "k_startup (core_of ?s1)"
    using assms(1) by (auto simp: core_ok_def core_simps)
  obtain s3 w where warm: "start_warming order now timestamp ?s2 = (s3, w)" by fastforce
  have c3: "core_of s3 = (core_of s)\<lparr>k_verified := dict_keys verified, k_links := Some (link_map (sv_scenario s)),
      k_traffic := True, k_state := L_WARMING_UP, k_deadline := True\<rparr>"
    using core_start_warming [OF warm] by (simp add: core_simps)
  have ok3: "core_ok (core_of s3) (Starting (At_warm_up e)) q" "k_startup (core_of s3)" for e
    using assms(1) names by (auto simp: core_ok_def c3 up_def core_fields)
  show ?thesis unfolding after_configure_def Inr sum.case
  proof (rule ok_unless_failed [OF ok1 flag])
    show "core_ok (core_of (fst (case start_warming order now timestamp ?s2 of (s1, Inl e) \<Rightarrow> unwind now e s1
        | (s1, Inr expected) \<Rightarrow> (s1, Starting (At_warm_up expected)))))
      (snd (case start_warming order now timestamp ?s2 of (s1, Inl e) \<Rightarrow> unwind now e s1
        | (s1, Inr expected) \<Rightarrow> (s1, Starting (At_warm_up expected)))) q"
      using ok3 by (cases w) (simp_all add: warm ok_unwind [OF ok3])
  qed
qed

lemma ok_warm_up:
  assumes "core_ok (core_of s) (Starting (At_warm_up expected)) q"
  shows "core_ok (core_of (fst (after_warm_up now expected s))) (snd (after_warm_up now expected s)) q"
  unfolding after_warm_up_def
  by (rule ok_unless_failed [OF assms started_flag [OF assms]]) (use assms in \<open>auto simp: core_ok_def\<close>)

lemma ok_enable:
  assumes "core_ok (core_of s) (Starting (At_enable missing expected)) q"
  shows "core_ok (core_of (fst (after_enable now missing expected s))) (snd (after_enable now missing expected s)) q"
  unfolding after_enable_def
  by (rule ok_unless_failed [OF assms started_flag [OF assms]])
    (use assms in \<open>auto simp: core_ok_def core_simps core_fields [of s] up_def split: if_splits\<close>)


lemma sim_ok_proceed [simp]:
  "sim_ok (proceed r sm) \<longleftrightarrow> core_ok (core_of (fst r)) (snd r) (sm_queue sm)"
  by (simp add: sim_ok_def proceed_def)

lemma ok_cleanup_step:
  assumes "core_ok (core_of s) (f p) q" and "cleanup_context f" and "cleanup_step (s, p) (s', p')"
  shows "core_ok (core_of s') (f p') q"
proof -
  have "core_ok (core_of s') (f p) q" by (rule ok_disturbed [OF assms(1) disturbed_cleanup_step [OF assms(3)]])
  then show ?thesis using assms(2) by (auto simp: cleanup_context_def core_ok_def)
qed

lemma ok_abandoned:
  assumes "core_ok (core_of s) (f p) q" and "cleanup_context f"
  shows "core_ok (core_of (cleanup_abandoned (f p) s)) Idle q"
proof -
  from assms(2) consider "f p = Stopping p" | "f p = Cleaning p" | "f p = Starting (At_recover p)"
    | e where "f p = Starting (At_unwind e p)"
    unfolding cleanup_context_def by metis
  then show ?thesis using assms(1) by cases (auto simp: core_ok_def core_states down_def)
qed

lemma pending_core [simp]: "k_pending (core_of s) \<longleftrightarrow> cleanup_scheduled s"
  by (simp add: core_of_def)

lemma no_pending_core: "\<not> cleanup_scheduled s \<Longrightarrow> core_of (s\<lparr>sv_failure_cleanup := No_cleanup\<rparr>) = core_of s"
  by (simp add: core_of_def cleanup_scheduled_def)

lemma sim_step_ok:
  assumes "sim_step ev g send allowed parse single True sm sm'" and "sim_ok sm"
  shows "sim_ok sm'"
  using assms(1)
proof cases
  case (frame s')
  from frame_core [OF frame(2)] assms(2) show ?thesis
    unfolding frame(1) sim_ok_def by (auto intro: ok_disturbed ok_edited)
next
  case (links now ls)
  with assms(2) show ?thesis by (simp add: sim_ok_def ok_rewired [OF _ links_core [OF ok_in_step]])
next
  case (preset now ps)
  with assms(2) show ?thesis by (simp add: sim_ok_def ok_rewired [OF _ preset_core [OF ok_in_step]])
next
  case (call su command)
  let ?s = "(sm_service sm)\<lparr>sv_failure_cleanup := No_cleanup\<rparr>"
  obtain s' act where w: "run_waiter su (W_command command) ?s = (s', act)" by fastforce
  have "core_ok (core_of ?s) Idle (sm_queue sm)" using assms(2) call by (simp add: sim_ok_def no_pending_core)
  then have "core_ok (core_of s') act (sm_queue sm)" by (rule ok_waiter [OF w]) (simp_all add: cleanup_scheduled_def)
  with w show ?thesis unfolding call(1) by simp
next
  case (queued command)
  with assms(2) show ?thesis by (cases command) (simp_all add: sim_ok_def core_ok_def no_pending_core)
next
  case (handover w ws su)
  obtain s' act where w: "run_waiter su w (sm_service sm) = (s', act)" by fastforce
  have "core_ok (core_of (sm_service sm)) Idle ws" "w \<noteq> W_command C_start"
    "w = W_cleanup \<longrightarrow> cleanup_scheduled (sm_service sm) \<and> W_cleanup \<notin> set ws"
    using assms(2) handover(2,3) by (auto simp: sim_ok_def core_ok_def count_list_0_iff split: if_splits)
  then have "core_ok (core_of s') act ws" by (intro ok_waiter [OF w]) simp_all
  with w show ?thesis unfolding handover(1) by simp
next
  case (cleanup_at_once su)
  obtain s' act where w: "run_waiter su W_cleanup (sm_service sm) = (s', act)" by fastforce
  have "core_ok (core_of s') act (sm_queue sm)"
    using assms(2) cleanup_at_once by (intro ok_waiter [OF w]) (simp_all add: sim_ok_def)
  with w show ?thesis unfolding cleanup_at_once(1) by simp
next
  case cleanup_queued
  with assms(2) show ?thesis by (simp add: sim_ok_def core_ok_def count_list_0_iff)
next
  case (cleanup f p s' p')
  have "core_ok (core_of (sm_service sm)) (f p) (sm_queue sm)" using assms(2) cleanup(3) by (simp add: sim_ok_def)
  from ok_cleanup_step [OF this cleanup(2,4)] show ?thesis unfolding cleanup(1) by simp
next
  case (recovered su s' p)
  have "core_ok (core_of (cleanup_end (sm_service sm))) Idle (sm_queue sm)" "\<not> k_pending (core_of (cleanup_end (sm_service sm)))"
    using assms(2) recovered(2) by (auto simp: sim_ok_def core_ok_def core_cleanup_end simp del: pending_core)
  from ok_processes [OF recovered(3) this] show ?thesis unfolding recovered(1) by simp
next
  case (abandoned f p)
  have "core_ok (core_of (sm_service sm)) (f p) (sm_queue sm)" using assms(2) abandoned(3) by (simp add: sim_ok_def)
  then have "core_ok (core_of (cleanup_abandoned (f p) (sm_service sm))) Idle (sm_queue sm)"
    by (rule ok_abandoned [OF _ abandoned(2)])
  then show ?thesis unfolding abandoned(1) by simp
next
  case (processes now bound sp)
  have "core_ok (core_of ((sm_service sm)\<lparr>sv_supervisor := sp\<rparr>)) (Starting At_supervisor) (sm_queue sm)"
    using assms(2) processes(2) by (simp add: sim_ok_def core_states)
  from ok_supervisor [OF this] show ?thesis unfolding processes(1) by simp
next
  case (raised p now e)
  have "k_startup (core_of (sm_service sm))" using started_flag [of "sm_service sm" p "sm_queue sm"] assms(2) raised by (simp add: sim_ok_def)
  with assms(2) raised(2) have "core_ok (core_of (fst (unwind now e (sm_service sm)))) (snd (unwind now e (sm_service sm))) (sm_queue sm)"
    by (intro ok_unwind [of _ p]) (simp_all add: sim_ok_def)
  then show ?thesis unfolding raised(1) by simp
next
  case (connect now)
  with assms(2) have "core_ok (core_of (sm_service sm)) (Starting At_gateways) (sm_queue sm)" by (simp add: sim_ok_def)
  from ok_gateways [OF this] show ?thesis unfolding connect(1) by simp
next
  case (configure r observed now order timestamp)
  with assms(2) have "core_ok (core_of (sm_service sm)) (Starting At_configure) (sm_queue sm)" by (simp add: sim_ok_def)
  from ok_configure [OF this configure(3)] show ?thesis unfolding configure(1) by simp
next
  case (warm_up expected now)
  with assms(2) have "core_ok (core_of (sm_service sm)) (Starting (At_warm_up expected)) (sm_queue sm)" by (simp add: sim_ok_def)
  from ok_warm_up [OF this] show ?thesis unfolding warm_up(1) by simp
next
  case (enable missing expected now)
  with assms(2) have "core_ok (core_of (sm_service sm)) (Starting (At_enable missing expected)) (sm_queue sm)" by (simp add: sim_ok_def)
  from ok_enable [OF this] show ?thesis unfolding enable(1) by simp
next
  case (stop_locks)
  with assms(2) have "core_ok (core_of (sm_service sm)) (Stopping Cl_topology) (sm_queue sm)" by (simp add: sim_ok_def)
  then show ?thesis unfolding stop_locks(1) by (simp add: core_simps core_ok_def)
next
  case (cleanup_locks)
  with assms(2) have "core_ok (core_of (sm_service sm)) (Cleaning Cl_topology) (sm_queue sm)" by (simp add: sim_ok_def)
  then show ?thesis unfolding cleanup_locks(1) by (simp add: core_simps core_ok_def del: pending_core)
next
  case (cleanup_failed)
  with assms(2) have "core_ok (core_of (sm_service sm)) (Cleaning Cl_fail) (sm_queue sm)" by (simp add: sim_ok_def)
  then show ?thesis unfolding cleanup_failed(1) by (simp add: core_simps core_ok_def del: pending_core)
next
  case (stopped now)
  with assms(2) have "core_ok (core_of (sm_service sm)) (Stopping Cl_processes) (sm_queue sm)" by (simp add: sim_ok_def)
  then show ?thesis unfolding stopped(1) by (simp add: core_simps core_ok_def down_def del: pending_core)
next
  case (cleaned)
  with assms(2) have "core_ok (core_of (sm_service sm)) (Cleaning Cl_processes) (sm_queue sm)" by (simp add: sim_ok_def)
  then show ?thesis unfolding cleaned(1) by (auto simp: core_simps core_ok_def down_def simp del: pending_core)
next
  case (unwound e)
  with assms(2) have "core_ok (core_of (sm_service sm)) (Starting (At_unwind e Cl_processes)) (sm_queue sm)" by (simp add: sim_ok_def)
  then show ?thesis unfolding unwound(1) by (auto simp: core_simps core_ok_def simp del: pending_core)
qed (use assms(2) in \<open>simp_all add: sim_ok_def core_start_traffic core_with_traffic\<close>)


lemma sim_reachable_ok: "sim_reachable ev g send allowed parse single True sm \<Longrightarrow> sim_ok sm"
proof (induction rule: sim_reachable.induct)
  case (new build warmup deadline retry scenario broker processes s)
  then show ?case
    by (auto simp: new_service_def new_simulator_def sim_ok_def core_ok_def core_of_def down_def cleanup_scheduled_def split: if_splits)
next
  case (step sm sm')
  then show ?case by (blast intro: sim_step_ok)
qed

text \<open>
  C3. What the life cycle state says is true of the simulator, in every state of a calm run, which is one
  in which no start is requested while another command is under way or waiting; C16 shows that this
  is needed. When it is RUNNING, no command is under way, the medium forwards over exactly the links of the
  scenario, a traffic controller exists, and every node, and nothing else, has a gateway and a verified
  identity. When it is STOPPED, none of that is left. STARTING and WARMING_UP are shown only while a start is
  under way, and STOPPING never is; a stop that was abandoned by an exception leaves STOPPING behind.
  FAILED is not shown during a stop. The scenario is always a complete graph. Processes,
  gateways, clients, failures and the other commands may interleave in any way.
\<close>

theorem lifecycle_states_are_honest:
  assumes "sim_reachable ev g send allowed parse single True sm" and "sm_service sm = s"
  shows "graph_wf (sv_scenario s) \<and>
    (case sv_state s of
       L_RUNNING \<Rightarrow> sm_activity sm = Idle \<and> sv_traffic s \<noteq> None \<and> sv_simulation_id s \<noteq> None \<and>
         map_option md_links (sv_medium s) = Some (link_map (sv_scenario s)) \<and>
         dict_keys (sv_gateways s) = map sn_id (sc_nodes (sv_scenario s)) \<and>
         set (dict_keys (sv_verifications s)) = set (map sn_id (sc_nodes (sv_scenario s)))
     | L_STOPPED \<Rightarrow> sv_traffic s = None \<and> sv_simulation_id s = None \<and> sv_medium s = None \<and>
         sv_gateways s = [] \<and> sv_verifications s = []
     | L_STARTING \<Rightarrow> \<exists>p. sm_activity sm = Starting p
     | L_WARMING_UP \<Rightarrow> \<exists>p. sm_activity sm = Starting p
     | L_STOPPING \<Rightarrow> \<not> sv_startup_task s \<and> (\<forall>p. sm_activity sm \<noteq> Starting p)
     | L_FAILED \<Rightarrow> \<forall>p. sm_activity sm \<noteq> Stopping p)"
proof -
  have ok: "core_ok (core_of s) (sm_activity sm) (sm_queue sm)"
    using sim_reachable_ok [OF assms(1)] assms(2) by (simp add: sim_ok_def)
  then have "graph_wf (sv_scenario s)" by (simp add: core_ok_def core_fields)
  moreover have a: "activity_ok (sm_activity sm) (core_of s)" using ok by (simp add: core_ok_def)
  show ?thesis
  proof (cases "sm_activity sm")
    case (Starting p)
    with a calculation show ?thesis by (cases p) (auto simp: core_fields split: lifecycle_state.split)
  next
    case Idle
    with a calculation show ?thesis by (auto simp: core_of_def up_def down_def split: lifecycle_state.split)
  next
    case (Stopping p)
    with a calculation show ?thesis by (auto simp: core_fields)
  next
    case (Cleaning p)
    with a calculation show ?thesis by (auto simp: core_of_def down_def split: lifecycle_state.split)
  qed
qed

subsection \<open>How the state changes\<close>

text \<open>The state and the activity that a change of the life cycle state starts from, and the activity it leads to.\<close>

definition transition_ok :: "lifecycle_state \<Rightarrow> activity \<Rightarrow> lifecycle_state \<Rightarrow> activity \<Rightarrow> bool" where
  "transition_ok st act st' act' \<longleftrightarrow> st' = st \<or>
     (case st' of
        L_STARTING \<Rightarrow> act' = Starting At_supervisor \<and>
          (st = L_STOPPED \<and> act = Idle \<or> st = L_FAILED \<and> act = Starting (At_recover Cl_processes))
      | L_WARMING_UP \<Rightarrow> st = L_STARTING \<and> act = Starting At_configure \<and> (\<exists>e. act' = Starting (At_warm_up e))
      | L_RUNNING \<Rightarrow> st = L_WARMING_UP \<and> (\<exists>m e. act = Starting (At_enable m e)) \<and> act' = Idle
      | L_STOPPING \<Rightarrow> st \<noteq> L_STOPPED \<and> act = Idle \<and> act' = Stopping Cl_topology
      | L_STOPPED \<Rightarrow> st = L_STOPPING \<and> act = Stopping Cl_processes \<and> act' = Idle
      | L_FAILED \<Rightarrow> st \<in> {L_STARTING, L_WARMING_UP, L_RUNNING} \<and>
          (act' = act \<or> (\<exists>e. act' = Starting (At_unwind e Cl_lag))))"

text \<open>The order of the stages of a start. From every stage but the recovery, it can begin to unwind.\<close>

fun start_follows :: "start_point \<Rightarrow> start_point \<Rightarrow> bool" where
  "start_follows (At_recover p) q \<longleftrightarrow> (\<exists>p'. q = At_recover p') \<or> p = Cl_processes \<and> q = At_supervisor"
| "start_follows (At_unwind e p) q \<longleftrightarrow> (\<exists>p'. q = At_unwind e p')"
| "start_follows At_supervisor q \<longleftrightarrow> q = At_gateways \<or> (\<exists>e. q = At_unwind e Cl_lag)"
| "start_follows At_gateways q \<longleftrightarrow> q = At_configure \<or> (\<exists>e. q = At_unwind e Cl_lag)"
| "start_follows At_configure q \<longleftrightarrow> (\<exists>x. q = At_warm_up x) \<or> (\<exists>e. q = At_unwind e Cl_lag)"
| "start_follows (At_warm_up x) q \<longleftrightarrow> (\<exists>m. q = At_enable m x) \<or> (\<exists>e. q = At_unwind e Cl_lag)"
| "start_follows (At_enable m x) q \<longleftrightarrow> (\<exists>e. q = At_unwind e Cl_lag)"

text \<open>
  What a step does with a start: it stays where it is, or goes on to the next stage; when a failure has been
  reported, it goes on to nothing but its unwinding. A start begins from an idle simulator.
\<close>

definition start_guarded :: "lifecycle_state \<Rightarrow> activity \<Rightarrow> activity \<Rightarrow> bool" where
  "start_guarded st act act' \<longleftrightarrow>
     (case act of
        Starting p \<Rightarrow> act' = act \<or>
          (case act' of
             Starting q \<Rightarrow> start_follows p q \<and> (st = L_FAILED \<longrightarrow> (\<exists>c. p = At_recover c) \<or> (\<exists>e c. q = At_unwind e c))
           | Idle \<Rightarrow> (\<exists>c. p = At_recover c) \<or> (\<exists>e c. p = At_unwind e c) \<or> (\<exists>m e. p = At_enable m e) \<and> st = L_WARMING_UP
           | _ \<Rightarrow> False)
      | Idle \<Rightarrow> (\<forall>q. act' = Starting q \<longrightarrow> q = At_supervisor \<and> st = L_STOPPED \<or> q = At_recover Cl_lag \<and> st = L_FAILED)
      | _ \<Rightarrow> (\<forall>q. act' \<noteq> Starting q))"

definition change_ok :: "service \<Rightarrow> activity \<Rightarrow> service \<Rightarrow> activity \<Rightarrow> bool" where
  "change_ok s act s' act' \<longleftrightarrow> transition_ok (sv_state s) act (sv_state s') act' \<and> start_guarded (sv_state s) act act'"

lemma change_same: "sv_state s' = sv_state s \<Longrightarrow> change_ok s act s' act"
  by (auto simp: change_ok_def transition_ok_def start_guarded_def split: activity.split)

lemma change_disturbed: "disturbed (core_of s) (core_of s') \<Longrightarrow> change_ok s act s' act"
  using core_fields(2) [of s] core_fields(2) [of s']
  by (cases "sv_state s") (auto simp: disturbed_def fail_core_def change_ok_def transition_ok_def start_guarded_def
      split: activity.split if_splits)

lemma state_of_core: "core_of s' = core_of s \<Longrightarrow> sv_state s' = sv_state s" "k_state (core_of s) = sv_state s"
  by (metis core_fields(2)) (simp add: core_fields)

lemma state_steps [simp]:
  "sv_state (cleanup_begin s) = sv_state s" "sv_state (fail_traffic s) = sv_state s" "sv_state (cleanup_end s) = sv_state s"
  "sv_state (start_announce now i s) = L_STARTING" "sv_state (start_finished s) = sv_state s"
  "sv_state (service_stop_begin now s) = L_STOPPING" "sv_state (service_stop_end now s) = L_STOPPED"
  "sv_state (start_running now missing expected s) = L_RUNNING" "sv_state (start_configuring s) = sv_state s"
  "sv_state (fst (unwind now e s)) = L_FAILED" "snd (unwind now e s) = Starting (At_unwind e Cl_lag)"
  using core_states [THEN arg_cong [where f = k_state]] core_simps(6)
  by (simp_all add: state_of_core core_simps flip: core_fields(2))

definition stage :: "start_point \<Rightarrow> bool" where
  "stage p \<longleftrightarrow> (\<forall>c. p \<noteq> At_recover c) \<and> (\<forall>e c. p \<noteq> At_unwind e c)"

lemma stage_simps [simp]: "stage At_supervisor" "stage At_gateways" "stage At_configure" "stage (At_warm_up e)" "stage (At_enable m e)"
  "\<not> stage (At_recover c)" "\<not> stage (At_unwind x c)"
  by (simp_all add: stage_def)

lemma stage_unwinds: "stage p \<Longrightarrow> start_follows p (At_unwind e Cl_lag)"
  by (cases p) (auto simp: stage_def)

lemma change_unwind:
  assumes "stage p" and "sv_state s \<in> {L_STARTING, L_WARMING_UP, L_FAILED}"
  shows "change_ok s (Starting p) (fst (unwind now e s1)) (Starting (At_unwind e Cl_lag))"
  using assms stage_unwinds [OF assms(1), of e] by (auto simp: change_ok_def transition_ok_def start_guarded_def)

lemma change_unless_failed:
  assumes "stage p" and "sv_state s \<in> {L_STARTING, L_WARMING_UP, L_FAILED}" and "sv_state s1 = sv_state s"
    and "sv_state s \<noteq> L_FAILED \<Longrightarrow> change_ok s (Starting p) (fst r) (snd r)"
  shows "change_ok s (Starting p) (fst (unless_failed now s1 r)) (snd (unless_failed now s1 r))"
  using assms change_unwind [OF assms(1,2)] by (auto simp: unless_failed_def raise_if_startup_failed_def)

lemma change_stage:
  "start_follows p q \<Longrightarrow> sv_state s' = sv_state s \<Longrightarrow> sv_state s \<noteq> L_FAILED \<Longrightarrow> change_ok s (Starting p) s' (Starting q)"
  by (simp add: change_ok_def transition_ok_def start_guarded_def)

lemma change_supervisor:
  assumes "graph_wf (sv_scenario s)" and "sv_state s \<in> {L_STARTING, L_FAILED}"
  shows "change_ok s (Starting At_supervisor) (fst (after_supervisor now bound (s\<lparr>sv_supervisor := sp\<rparr>)))
    (snd (after_supervisor now bound (s\<lparr>sv_supervisor := sp\<rparr>)))"
proof -
  let ?s = "s\<lparr>sv_supervisor := sp\<rparr>"
  obtain s1 r where g: "start_gateways bound ?s = (s1, r)" by fastforce
  have "graph_wf (sv_scenario ?s)" using assms(1) by simp
  then have "k_state (core_of s1) = k_state (core_of ?s)" using core_start_gateways [OF _ g] by simp
  then have "sv_state s1 = sv_state s" by (simp add: core_fields)
  with assms(2) show ?thesis unfolding after_supervisor_def
    by (intro change_unless_failed) (auto simp: g intro: change_stage change_unwind split: sum.split)
qed

lemma change_gateways:
  "sv_state s \<in> {L_STARTING, L_FAILED} \<Longrightarrow>
   change_ok s (Starting At_gateways) (fst (after_gateways now s)) (snd (after_gateways now s))"
  unfolding after_gateways_def by (intro change_unless_failed) (auto intro: change_stage)

lemma change_configure:
  assumes "sv_state s \<in> {L_STARTING, L_FAILED}"
  shows "change_ok s (Starting At_configure) (fst (after_configure order now timestamp r s)) (snd (after_configure order now timestamp r s))"
proof (cases r)
  case (Inl e)
  then show ?thesis using assms by (auto simp: after_configure_def intro: change_unwind)
next
  case (Inr verified)
  obtain s3 w where warm: "start_warming order now timestamp (wire_traffic now verified s) = (s3, w)" by fastforce
  have "sv_state s3 = L_WARMING_UP" using core_start_warming [OF warm] core_fields(2) [of s3] by simp
  with assms show ?thesis unfolding after_configure_def Inr sum.case
    by (intro change_unless_failed)
      (auto simp: warm change_ok_def transition_ok_def start_guarded_def split: sum.split)
qed

lemma change_warm_up:
  "sv_state s \<in> {L_WARMING_UP, L_FAILED} \<Longrightarrow>
   change_ok s (Starting (At_warm_up expected)) (fst (after_warm_up now expected s)) (snd (after_warm_up now expected s))"
  unfolding after_warm_up_def by (intro change_unless_failed) (auto intro: change_stage)

lemma change_enable:
  "sv_state s \<in> {L_WARMING_UP, L_FAILED} \<Longrightarrow>
   change_ok s (Starting (At_enable missing expected)) (fst (after_enable now missing expected s)) (snd (after_enable now missing expected s))"
  unfolding after_enable_def
  by (intro change_unless_failed) (auto simp: change_ok_def transition_ok_def start_guarded_def)

lemma change_waiter:
  assumes "run_waiter su w s = (s', act)"
  shows "change_ok s Idle s' act"
proof (cases w)
  case (W_command c)
  have "sv_state s1 = sv_state s" if "service_reset known now i s = (s1, r)" for s1 r known now i
    using reset_core [OF that] core_fields(2) [of s] core_fields(2) [of s1] by auto
  with assms W_command show ?thesis
    by (cases c) (auto simp: run_waiter_def enter_def enter_start_def enter_stop_def enter_reset_def start_processes_def
        start_admission_def after_progress_def change_ok_def transition_ok_def start_guarded_def split: sum.splits prod.splits if_splits)
next
  case W_cleanup
  with assms show ?thesis
    by (auto simp: run_waiter_def enter_def after_progress_def change_ok_def transition_ok_def start_guarded_def)
qed

lemma change_cleanup:
  assumes "cleanup_context f" and "cleanup_step (s, p) (s', p')" and "sv_state s \<in> {L_STOPPING, L_STOPPED, L_FAILED}"
  shows "change_ok s (f p) s' (f p')"
proof -
  have "sv_state s' = sv_state s"
    using disturbed_cleanup_step [OF assms(2)] assms(3) core_fields(2) [of s] core_fields(2) [of s']
    by (auto simp: disturbed_def fail_core_def)
  with assms(1) show ?thesis by (auto simp: cleanup_context_def change_ok_def transition_ok_def start_guarded_def)
qed

lemma cleanup_state:
  assumes "core_ok (core_of s) (f p) q" and "cleanup_context f"
  shows "sv_state s \<in> {L_STOPPING, L_STOPPED, L_FAILED}"
  using assms by (auto simp: cleanup_context_def core_ok_def core_fields)

lemma change_abandoned:
  assumes "cleanup_context f"
  shows "change_ok s (f p) (cleanup_abandoned (f p) s) Idle"
  using assms by (auto simp: cleanup_context_def change_ok_def transition_ok_def start_guarded_def)

lemma change_rewired: "rewired (core_of s) (core_of s') \<Longrightarrow> change_ok s act s' act"
  using core_fields(2) [of s] core_fields(2) [of s'] by (intro change_same) (auto simp: rewired_def)

lemma sim_step_change:
  assumes "sim_step ev g send allowed parse single calm sm sm'" and "sim_ok sm"
  shows "change_ok (sm_service sm) (sm_activity sm) (sm_service sm') (sm_activity sm')"
proof -
  have ok: "core_ok (core_of (sm_service sm)) (sm_activity sm) (sm_queue sm)" using assms(2) by (simp add: sim_ok_def)
  have wf: "graph_wf (sv_scenario (sm_service sm))" using ok by (simp add: core_ok_def core_fields)
  have at: "sm_activity sm = Starting p \<Longrightarrow> point_ok p (core_of (sm_service sm))" for p using ok by (simp add: core_ok_def)
  show ?thesis using assms(1)
  proof (cases rule: sim_step.cases)
    case (frame s')
    then show ?thesis using frame_core [OF frame(2)] core_fields(2) [of "sm_service sm"] core_fields(2) [of s']
      by (auto intro: change_disturbed change_same)
  next
    case (links now ls)
    then show ?thesis using links_core [OF ok_in_step [OF ok]] by (auto intro: change_rewired)
  next
    case (preset now ps)
    then show ?thesis using preset_core [OF ok_in_step [OF ok]] by (auto intro: change_rewired)
  next
    case (traffic_end q serial now i fe baseline)
    then show ?thesis using core_start_traffic by (auto intro!: change_same state_of_core(1))
  next
    case stop_traffic
    then show ?thesis by (auto intro!: change_same state_of_core(1) simp: core_with_traffic)
  next
    case (call su command)
    let ?s = "(sm_service sm)\<lparr>sv_failure_cleanup := No_cleanup\<rparr>"
    have "change_ok ?s Idle (fst (run_waiter su (W_command command) ?s)) (snd (run_waiter su (W_command command) ?s))"
      by (rule change_waiter) simp
    then show ?thesis using call by (simp add: change_ok_def proceed_def)
  next
    case (handover w ws su)
    then show ?thesis using change_waiter [of su w "sm_service sm"] by (simp add: proceed_def prod_eq_iff)
  next
    case (cleanup_at_once su)
    then show ?thesis using change_waiter [of su W_cleanup "sm_service sm"] by (simp add: proceed_def prod_eq_iff)
  next
    case (cleanup f p s' p')
    then have "core_ok (core_of (sm_service sm)) (f p) (sm_queue sm)" using ok by simp
    with cleanup show ?thesis using change_cleanup [OF cleanup(2,4)] cleanup_state [OF _ cleanup(2)] by (simp add: proceed_def)
  next
    case (recovered su s' p)
    then show ?thesis using at [OF recovered(2)]
      by (auto simp: proceed_def start_processes_def after_progress_def change_ok_def transition_ok_def start_guarded_def core_fields split: sum.splits)
  next
    case (abandoned f p)
    then show ?thesis using change_abandoned [OF abandoned(2)] by (simp add: proceed_def)
  next
    case (processes now bound sp)
    then show ?thesis using change_supervisor [OF wf] at [OF processes(2)] by (simp add: proceed_def core_fields)
  next
    case (connect now)
    then show ?thesis using change_gateways at [OF connect(2)] by (simp add: proceed_def core_fields)
  next
    case (configure r observed now order timestamp)
    then show ?thesis using change_configure at [OF configure(2)] by (simp add: proceed_def core_fields)
  next
    case (warm_up expected now)
    then show ?thesis using change_warm_up at [OF warm_up(2)] by (simp add: proceed_def core_fields)
  next
    case (enable missing expected now)
    then show ?thesis using change_enable at [OF enable(2)] by (simp add: proceed_def core_fields)
  next
    case (raised p now e)
    then have st: "stage p" by (simp add: stage_def)
    then have "sv_state (sm_service sm) \<in> {L_STARTING, L_WARMING_UP, L_FAILED}"
      using at [OF raised(2)] by (cases p) (auto simp: core_fields)
    with raised change_unwind [OF st] show ?thesis by (simp add: proceed_def)
  next
    case (stopped now)
    then show ?thesis using ok by (simp add: proceed_def core_ok_def core_fields change_ok_def transition_ok_def start_guarded_def)
  qed (simp_all add: proceed_def change_ok_def transition_ok_def start_guarded_def split: activity.split)
qed

text \<open>
  C13. The life cycle is the state machine it is meant to be. In a calm run, a step changes the state only so:
  from STOPPED, or from FAILED after the recovery has cleaned up, to STARTING, when a start enters its first
  stage; from STARTING to WARMING_UP at the end of the configuration; from WARMING_UP to RUNNING, and from
  nowhere else, when the last stage of a start ends; to STOPPING when a stop begins, from there to STOPPED when
  it ends; and to FAILED from STARTING, WARMING_UP and RUNNING. A start goes through its stages in order. When
  a failure has been reported, no stage is followed by the next one: the start can only unwind, so
  that no failure during a start, of a process, a gateway or the medium, ends in RUNNING.
\<close>

theorem lifecycle_is_guarded:
  assumes "sim_reachable ev g send allowed parse single True sm" and "sim_step ev g send allowed parse single True sm sm'"
  shows "transition_ok (sv_state (sm_service sm)) (sm_activity sm) (sv_state (sm_service sm')) (sm_activity sm') \<and>
    start_guarded (sv_state (sm_service sm)) (sm_activity sm) (sm_activity sm')"
  using sim_step_change [OF assms(2) sim_reachable_ok [OF assms(1)]] by (simp add: change_ok_def)

end
