(* ===== verification/Service_Paths.thy ===== *)
theory Service_Paths
  imports Service_Lifecycle Reachability
begin

text \<open>
  Courses of the simulator: a start in which nothing fails, a cleanup and a stop run to their end, and the
  cleanup of a failure that finds a new start waiting before it destroys the new simulation.
\<close>

subsection \<open>The course of a start\<close>

lemma reserve_succeeds:
  "(\<And>n gw. (n, gw) \<in> set gws \<Longrightarrow> isOk (bound n)) \<Longrightarrow> \<exists>gws'. reserve_listeners bound gws = (gws', Inr ())"
proof (induction bound gws rule: reserve_listeners.induct)
  case (2 bound n gw rest)
  from 2(2) obtain p where p: "bound n = Inr p" by (auto simp: isOk_iff)
  have "\<exists>gw'. reserve_public_listener (bound n) gw = (gw', Inr ())" by (simp add: reserve_public_listener_def p)
  then obtain gw' where gw': "reserve_public_listener (bound n) gw = (gw', Inr ())" by blast
  from 2(1) [OF gw' [symmetric] refl] 2(2) obtain rest' where "reserve_listeners bound rest = (rest', Inr ())" by auto
  with gw' show ?case by simp
qed simp

lemma settle_round_all:
  "(\<And>n. n \<in> set ns \<Longrightarrow> observed n \<noteq> None) \<Longrightarrow> \<exists>v. settle_round observed ns verified = ([], v)"
proof (induction observed ns verified rule: settle_round.induct)
  case (2 observed n ns verified)
  then obtain x where x: "observed n = Some x" by fastforce
  with 2(2) [OF x] 2(3) show ?case by auto
qed simp

lemma configure_succeeds:
  assumes "\<forall>n \<in> set (map sn_id (sc_nodes (sv_scenario s))). observed 0 n \<noteq> None"
  shows "\<exists>v. configure_nodes observed s = Inr v"
proof -
  obtain v where "settle_round (observed 0) (map sn_id (sc_nodes (sv_scenario s))) [] = ([], v)"
    using settle_round_all assms by blast
  then show ?thesis by (simp add: configure_nodes_def CONFIGURE_ATTEMPTS_def upt_conv_Cons)
qed


lemma proceed_fields [simp]:
  "sm_service (proceed r sm) = fst r" "sm_activity (proceed r sm) = snd r" "sm_queue (proceed r sm) = sm_queue sm"
  "sm_topology (proceed r sm) = sm_topology sm" "proceed r (proceed r' sm) = proceed r sm"
  by (simp_all add: proceed_def)

text \<open>A controller without a run.\<close>

definition unused :: "controller \<Rightarrow> bool" where
  "unused c \<longleftrightarrow> t_current c = None \<and> t_frozen_result c = None \<and> t_finalization_done c \<and> \<not> t_task_active c \<and> t_state c = Run_IDLE"

definition no_run :: "service \<Rightarrow> bool" where
  "no_run s \<longleftrightarrow> (\<forall>c. sv_traffic s = Some c \<longrightarrow> unused c)"

text \<open>
  The stages of a start in which nothing fails, up to RUNNING. The steps leave open what the supervisor and
  the gateways did, so that this course only serves the examples and the interleaving below; it does not
  say that the processes come up.
\<close>

lemma start_path:
  assumes "sm_activity sm = Starting At_supervisor" and "sm_service sm = s1" and "sv_state s1 = L_STARTING"
    and "graph_wf (sv_scenario s1)"
  shows "\<exists>s5. (sim_step ev g send allowed parse single calm)\<^sup>*\<^sup>* sm (proceed (s5, Idle) sm) \<and> sv_state s5 = L_RUNNING \<and>
    sv_scenario s5 = sv_scenario s1 \<and> sv_failure_cleanup s5 = sv_failure_cleanup s1 \<and> sv_build s5 = sv_build s1 \<and>
    sv_medium s5 \<noteq> None \<and> sv_traffic s5 \<noteq> None \<and> no_run s5 \<and> \<not> sv_startup_task s5"
proof -
  let ?step = "sim_step ev g send allowed parse single calm"
  define bound :: "string \<Rightarrow> int result" where "bound = (\<lambda>_. Inr 4403)"
  define observed :: "nat \<Rightarrow> string \<Rightarrow> verification option" where "observed = (\<lambda>_ n. dict_get lab_verified ''a'')"
  define order :: set_order where "order = sorted_list_of_set"
  have observed: "observed 0 n \<noteq> None" for n by (simp add: observed_def lab_verified_def)
  have same: "proceed (s1, Starting At_supervisor) sm = sm" using assms(1,2) by (simp add: proceed_def)
  obtain gws where gws: "reserve_listeners bound (sv_gateways (create_gateways s1)) = (gws, Inr ())"
    using reserve_succeeds [of _ bound] by (auto simp: bound_def)
  define s2 where "s2 = (create_gateways s1)\<lparr>sv_gateways := gws\<rparr>"
  have s2: "sv_state s2 = L_STARTING" "sv_scenario s2 = sv_scenario s1" by (simp_all add: s2_def create_gateways_def assms(3))
  have "start_gateways bound s1 = (s2, Inr ())" by (simp add: start_gateways_def gws s2_def Let_def)
  then have "after_supervisor 0 bound s1 = (s2, Starting At_gateways)"
    using assms(3) by (simp add: after_supervisor_def unless_failed_def raise_if_startup_failed_def)
  with sim_step.processes [of "proceed (s1, Starting At_supervisor) sm" ev g send allowed parse single calm 0 bound "sv_supervisor s1"]
  have step2: "?step (proceed (s1, Starting At_supervisor) sm) (proceed (s2, Starting At_gateways) sm)"
    by (simp add: proceed_def)
  define s3 where "s3 = start_configuring s2"
  have s3: "sv_state s3 = L_STARTING" "sv_scenario s3 = sv_scenario s2" using s2 by (simp_all add: s3_def start_configuring_def)
  have "after_gateways 0 s2 = (s3, Starting At_configure)"
    using s2 by (simp add: after_gateways_def unless_failed_def raise_if_startup_failed_def s3_def)
  with sim_step.connect [of "proceed (s2, Starting At_gateways) sm" ev g send allowed parse single calm 0]
  have step3: "?step (proceed (s2, Starting At_gateways) sm) (proceed (s3, Starting At_configure) sm)"
    by (simp add: proceed_def)
  obtain v where v: "configure_nodes observed s3 = Inr v" using configure_succeeds [of s3 observed] observed by blast
  have "validate_graph (sv_scenario s3) = Inr (sv_scenario s3)" using assms(4) s2 s3 by (simp add: validate_graph_Inr)
  then obtain expected where pairs: "reachable_pairs order (Some (rf_hop_limit (sc_rf (sv_scenario s3)))) (sv_scenario s3) = Inr expected"
    using reachable_graph [of "sv_scenario s3" order] by (auto simp: order_def)
  obtain s4 r where warm: "start_warming order 0 0 (wire_traffic 0 v s3) = (s4, r)" by fastforce
  have r: "r = Inr expected"
    using warm pairs by (auto simp: start_warming_def Let_def publish_lifecycle_def publish_def wire_traffic_fields split: sum.splits)
  have s4: "sv_state s4 = L_WARMING_UP" "sv_scenario s4 = sv_scenario s3" "sv_medium s4 \<noteq> None"
    "sv_failure_cleanup s4 = sv_failure_cleanup s1" "sv_build s4 = sv_build s1" "sv_traffic s4 \<noteq> None" "no_run s4"
    using warm by (auto simp: start_warming_def Let_def publish_lifecycle_def publish_def wire_traffic_fields wire_traffic_def
        put_traffic_def s3_def start_configuring_def s2_def create_gateways_def no_run_def unused_def new_controller_def split: sum.splits)
  have "after_configure order 0 0 (Inr v) s3 = (s4, Starting (At_warm_up expected))"
    using s3 warm r by (simp add: after_configure_def unless_failed_def raise_if_startup_failed_def)
  with sim_step.configure [of "proceed (s3, Starting At_configure) sm" "Inr v" observed ev g send allowed parse single calm order 0 0] v
  have step4: "?step (proceed (s3, Starting At_configure) sm) (proceed (s4, Starting (At_warm_up expected)) sm)"
    by (simp add: proceed_def)
  let ?missing = "missing_pairs expected s4"
  have "after_warm_up 0 expected s4 = (s4, Starting (At_enable ?missing expected))"
    using s4 by (simp add: after_warm_up_def unless_failed_def raise_if_startup_failed_def)
  with sim_step.warm_up [of "proceed (s4, Starting (At_warm_up expected)) sm" expected ev g send allowed parse single calm 0]
  have step5: "?step (proceed (s4, Starting (At_warm_up expected)) sm) (proceed (s4, Starting (At_enable ?missing expected)) sm)"
    by (simp add: proceed_def)
  define s5 where "s5 = start_finished (start_running 0 ?missing expected s4)"
  have "after_enable 0 ?missing expected s4 = (s5, Idle)"
    using s4 by (simp add: after_enable_def unless_failed_def raise_if_startup_failed_def s5_def)
  with sim_step.enable [of "proceed (s4, Starting (At_enable ?missing expected)) sm" ?missing expected ev g send allowed parse single calm 0]
  have step6: "?step (proceed (s4, Starting (At_enable ?missing expected)) sm) (proceed (s5, Idle) sm)"
    by (simp add: proceed_def)
  have s5: "sv_state s5 = L_RUNNING" "sv_scenario s5 = sv_scenario s4" "sv_medium s5 = sv_medium s4" "\<not> sv_startup_task s5"
    "sv_failure_cleanup s5 = sv_failure_cleanup s4" "sv_build s5 = sv_build s4" "sv_traffic s5 = sv_traffic s4"
    by (simp_all add: s5_def start_finished_def start_running_def publish_lifecycle_def publish_def)
  have "?step\<^sup>*\<^sup>* sm (proceed (s5, Idle) sm)"
    using step2 step3 step4 step5 step6 unfolding same by (meson converse_rtranclp_into_rtranclp rtranclp.rtrancl_refl)
  with s5 s4 s3 s2 show ?thesis by (intro exI [of _ s5]) (simp add: no_run_def)
qed

lemma lab_stopped:
  "new_service lab_build 5 10 1 relay_scenario (new_broker 5000 2000 ''s1'') lab_supervisor = Inr lab_service"
  by (simp add: lab_service_def new_service_def)

lemma lab_simulator: "sim_reachable ev g send allowed parse single calm (new_simulator lab_service)"
  by (rule sim_reachable.new [OF lab_stopped relay_graph])

lemma lab_available: "metadata_available lab_build"
  by code_simp

lemma lifecycle_is_guarded_witness:
  "\<exists>sm. sim_step lab_env zero_rng accept_all (\<lambda>_ _ _. True) (\<lambda>_. None) id True (new_simulator lab_service) sm \<and>
     sv_state (sm_service sm) = L_STARTING \<and> sm_activity sm = Starting At_supervisor \<and>
     transition_ok L_STOPPED Idle L_STARTING (Starting At_supervisor)"
proof -
  define s0 where "s0 = lab_service\<lparr>sv_failure_cleanup := No_cleanup\<rparr>"
  define s1 where "s1 = start_announce 0 ''run'' s0"
  define su where "su = \<lparr>su_marker_exists = True, su_now = 0, su_id = ''run'', su_known = (\<lambda>_. True)\<rparr>"
  let ?sm = "proceed (s1, Starting At_supervisor) (new_simulator lab_service)"
  have s1: "sv_state s1 = L_STARTING"
    by (simp add: s1_def s0_def start_announce_def publish_lifecycle_def publish_def lab_service_fields)
  have "run_waiter su (W_command C_start) s0 = (s1, Starting At_supervisor)"
    using lab_available by (simp add: run_waiter_def enter_def enter_start_def start_admission_def start_processes_def
        after_progress_def start_capable_def capabilities_def Let_def s0_def s1_def su_def lab_service_fields)
  with sim_step.call [of "new_simulator lab_service" lab_env zero_rng accept_all "\<lambda>_ _ _. True" "\<lambda>_. None" id True su C_start]
  have step: "sim_step lab_env zero_rng accept_all (\<lambda>_ _ _. True) (\<lambda>_. None) id True (new_simulator lab_service) ?sm"
    by (simp add: s0_def new_simulator_def cleanup_scheduled_def lab_service_fields)
  from lifecycle_is_guarded [OF lab_simulator step] s1
  have "transition_ok L_STOPPED Idle L_STARTING (Starting At_supervisor)"
    by (simp add: new_simulator_def lab_service_fields)
  with step s1 show ?thesis by (intro exI [of _ ?sm]) simp
qed

subsection \<open>The course of a cleanup\<close>

lemma published_fields: "sv_build (publish e s) = sv_build s" "sv_failure_cleanup (publish e s) = sv_failure_cleanup s"
  by (simp_all add: publish_def)

lemma quiet_reports:
  "\<forall>kind detail fr. Emitted kind detail fr \<in> set outs \<longrightarrow> kind = ''gateway.stopped'' \<Longrightarrow>
   core_of (report_outputs now n outs s) = core_of s \<and> sv_build (report_outputs now n outs s) = sv_build s \<and>
   sv_failure_cleanup (report_outputs now n outs s) = sv_failure_cleanup s"
proof (induction outs arbitrary: s)
  case (Cons out outs)
  have "\<forall>kind detail fr. Emitted kind detail fr \<in> set outs \<longrightarrow> kind = ''gateway.stopped''" using Cons.prems by simp
  note rest = Cons.IH [OF this]
  show ?case
  proof (cases out)
    case (Emitted kind detail fr)
    then have kind: "kind = ''gateway.stopped''" using Cons.prems by simp
    have "core_of (on_gateway_event now n kind detail s) = core_of s \<and> sv_build (on_gateway_event now n kind detail s) = sv_build s \<and>
        sv_failure_cleanup (on_gateway_event now n kind detail s) = sv_failure_cleanup s"
      unfolding kind by (simp add: on_gateway_event_def Let_def core_simps published_fields)
    with rest Emitted show ?thesis by simp
  qed (simp_all add: rest)
qed simp

lemma waiter_outputs: "Emitted kind detail fr \<notin> set (fail_waiters ws d)"
  by (induction ws d rule: fail_waiters.induct) auto

lemma closing_outputs:
  "\<exists>outs. gw_out (close_transports gw) = gw_out gw @ outs \<and> (\<forall>kind detail fr. Emitted kind detail fr \<notin> set outs)"
  by (auto simp: close_transports_def put_out_def Let_def waiter_outputs)

lemma stop_outputs:
  "\<forall>kind detail fr. Emitted kind detail fr \<in> set (drop (length (gw_out gw)) (gw_out (stop_gateway gw))) \<longrightarrow> kind = ''gateway.stopped''"
proof (cases "gw_state gw = GW_STOPPED")
  case True
  obtain outs where "gw_out (close_transports gw) = gw_out gw @ outs" "\<forall>kind detail fr. Emitted kind detail fr \<notin> set outs"
    using closing_outputs by blast
  with True show ?thesis by (simp add: stop_gateway_def stop_begin_gateway_def)
next
  case False
  let ?gw = "gw\<lparr>gw_state := GW_STOPPING\<rparr>"
  obtain outs where "gw_out (close_transports ?gw) = gw_out ?gw @ outs" "\<forall>kind detail fr. Emitted kind detail fr \<notin> set outs"
    using closing_outputs by blast
  with False show ?thesis
    by (auto simp: stop_gateway_def stop_begin_gateway_def stop_end_gateway_def emit_def put_out_def cancel_tasks_def)
qed

lemma core_stop_gateways:
  assumes "\<forall>(n, gw) \<in> set xs. n \<in> set (k_gateways (core_of s))"
  shows "core_of (fold (\<lambda>(n, gw). put_gateway now n gw (stop_gateway gw)) xs s) = core_of s \<and>
    sv_build (fold (\<lambda>(n, gw). put_gateway now n gw (stop_gateway gw)) xs s) = sv_build s \<and>
    sv_failure_cleanup (fold (\<lambda>(n, gw). put_gateway now n gw (stop_gateway gw)) xs s) = sv_failure_cleanup s"
  using assms
proof (induction xs arbitrary: s)
  case (Cons x xs)
  obtain n gw where x: "x = (n, gw)" by fastforce
  let ?s1 = "put_gateway now n gw (stop_gateway gw) s"
  have "dict_get (sv_gateways s) n \<noteq> None" using Cons.prems x by (auto simp: core_of_def map_of_eq_None_iff)
  then have "core_of (s\<lparr>sv_gateways := dict_set n (stop_gateway gw) (sv_gateways s)\<rparr>) = core_of s"
    by (rule core_fleet [OF keys_dict_set])
  then have one: "core_of ?s1 = core_of s" "sv_build ?s1 = sv_build s" "sv_failure_cleanup ?s1 = sv_failure_cleanup s"
    using quiet_reports [OF stop_outputs [of gw], of now n "s\<lparr>sv_gateways := dict_set n (stop_gateway gw) (sv_gateways s)\<rparr>"]
    by (simp_all add: put_gateway_def)
  with Cons.prems have "\<forall>(m, gw') \<in> set xs. m \<in> set (k_gateways (core_of ?s1))" by auto
  from Cons.IH [OF this] one x show ?case by simp
qed simp

lemma core_cleanup_gateways:
  "core_of (cleanup_gateways now s) = core_of s \<and> sv_build (cleanup_gateways now s) = sv_build s \<and>
   sv_failure_cleanup (cleanup_gateways now s) = sv_failure_cleanup s"
  unfolding cleanup_gateways_def by (rule core_stop_gateways) (force simp: core_of_def)


lemma unused_stops: "unused c \<Longrightarrow> snd (stop_begin c) = c" "unused c \<Longrightarrow> snd (fail_begin reason c) = c"
  by (simp_all add: unused_def stop_begin_def fail_begin_def active_finalization_def)

lemma unused_shared: "unused (shared s c) \<longleftrightarrow> unused c"
  by (simp add: unused_def shared_def)

lemma quiet_traffic:
  assumes "no_run s" and "\<And>c. unused c \<Longrightarrow> f c = c"
  shows "no_run (with_traffic f s)" and "sv_build (with_traffic f s) = sv_build s"
    and "sv_failure_cleanup (with_traffic f s) = sv_failure_cleanup s"
  using assms by (auto simp: no_run_def with_traffic_def put_traffic_def unused_shared split: option.split)

lemma cleanup_path:
  assumes "cleanup_context f" and "sm_activity sm = f Cl_lag" and "no_run (sm_service sm)"
  shows "\<exists>s'. (sim_step ev g send allowed parse single calm)\<^sup>*\<^sup>* sm (proceed (s', f Cl_processes) sm) \<and>
    core_of s' = core_of (sm_service sm) \<and> sv_build s' = sv_build (sm_service sm) \<and>
    sv_failure_cleanup s' = sv_failure_cleanup (sm_service sm)"
proof -
  let ?step = "sim_step ev g send allowed parse single calm" and ?s = "sm_service sm"
  define s1 where "s1 = with_traffic (\<lambda>c. snd (stop_begin c)) ?s"
  have s1: "no_run s1" "sv_build s1 = sv_build ?s" "sv_failure_cleanup s1 = sv_failure_cleanup ?s"
    unfolding s1_def by (rule quiet_traffic [OF assms(3) unused_stops(1)]; assumption)+
  have c1: "core_of s1 = core_of ?s" by (simp add: s1_def core_with_traffic)
  have step1: "?step sm (proceed (s1, f Cl_traffic) sm)"
    unfolding s1_def by (rule sim_step.cleanup [OF assms(1,2) cleanup_step.lag])
  define s2 where "s2 = (if sv_traffic s1 = None then s1 else s1\<lparr>sv_last_traffic_summary := None\<rparr>)"
  have t: "cleanup_traffic 0 True False s1 = (s2, Inr ())"
    using s1(1) by (auto simp: cleanup_traffic_def s2_def no_run_def unused_def summary_def archive_result_def split: option.split)
  have step2: "?step (proceed (s1, f Cl_traffic) sm) (proceed (cleanup_medium s2, f Cl_gateways) sm)"
    using sim_step.cleanup [OF assms(1), of "proceed (s1, f Cl_traffic) sm" Cl_traffic "cleanup_medium s2" Cl_gateways]
      cleanup_step.traffic [OF _ t] by simp
  let ?s3 = "cleanup_gateways 0 (cleanup_medium s2)"
  have step3: "?step (proceed (cleanup_medium s2, f Cl_gateways) sm) (proceed (?s3, f Cl_processes) sm)"
    using sim_step.cleanup [OF assms(1), of "proceed (cleanup_medium s2, f Cl_gateways) sm" Cl_gateways ?s3 Cl_processes]
      cleanup_step.gateways [of "cleanup_medium s2" 0] by simp
  have "?step\<^sup>*\<^sup>* sm (proceed (?s3, f Cl_processes) sm)"
    using step1 step2 step3 by (meson converse_rtranclp_into_rtranclp rtranclp.rtrancl_refl)
  moreover have "sv_build (cleanup_medium s2) = sv_build ?s" "sv_failure_cleanup (cleanup_medium s2) = sv_failure_cleanup ?s"
    using s1 by (simp_all add: s2_def cleanup_medium_def)
  ultimately show ?thesis
    using core_cleanup_gateways [of 0 "cleanup_medium s2"] core_cleanup_traffic [OF t] c1 by (intro exI [of _ ?s3]) simp
qed

lemma recover_context: "cleanup_context (\<lambda>p. Starting (At_recover p))" "cleanup_context Cleaning" "cleanup_context Stopping"
  by (auto simp: cleanup_context_def)

subsection \<open>The cleanup of an old failure\<close>

abbreviation sim :: "service \<Rightarrow> activity \<Rightarrow> waiter list \<Rightarrow> topology_lock \<Rightarrow> simulator" where
  "sim s a q t \<equiv> \<lparr>sm_service = s, sm_activity = a, sm_queue = q, sm_topology = t\<rparr>"

lemma start_course:
  assumes "sv_state s1 = L_STARTING" and "graph_wf (sv_scenario s1)"
  obtains s5 where "(sim_step ev g send allowed parse single calm)\<^sup>*\<^sup>* (sim s1 (Starting At_supervisor) q t) (sim s5 Idle q t)"
    and "sv_state s5 = L_RUNNING" and "sv_scenario s5 = sv_scenario s1" and "sv_failure_cleanup s5 = sv_failure_cleanup s1"
    and "sv_build s5 = sv_build s1" and "no_run s5" and "\<not> sv_startup_task s5"
  using start_path [of "sim s1 (Starting At_supervisor) q t" s1 ev g send allowed parse single calm] assms
  by (auto simp: proceed_def)

lemma cleanup_course:
  assumes "cleanup_context f" and "no_run s"
  obtains s' where "(sim_step ev g send allowed parse single calm)\<^sup>*\<^sup>* (sim s (f Cl_lag) q t) (sim s' (f Cl_processes) q t)"
    and "core_of s' = core_of s" and "sv_build s' = sv_build s" and "sv_failure_cleanup s' = sv_failure_cleanup s"
  using cleanup_path [OF assms(1), of "sim s (f Cl_lag) q t" ev g send allowed parse single calm] assms(2)
  by (auto simp: proceed_def)

text \<open>A process fails between a start and the start that waited for it.\<close>

lemma failure_at_handover:
  assumes "sv_state s = L_STOPPED" and "\<not> cleanup_scheduled s" and "graph_wf (sv_scenario s)" and "metadata_available (sv_build s)"
  obtains s6 where "(sim_step ev g send allowed parse single False)\<^sup>*\<^sup>* (sim s Idle [] t) (sim s6 Idle [W_command C_start, W_cleanup] t)"
    and "sv_state s6 = L_FAILED" and "sv_scenario s6 = sv_scenario s" and "sv_build s6 = sv_build s" and "no_run s6"
    and "cleanup_scheduled s6"
proof -
  let ?step = "sim_step ev g send allowed parse single False"
  define su where "su = \<lparr>su_marker_exists = True, su_now = 0, su_id = ''run'', su_known = (\<lambda>_. True)\<rparr>"
  define s0 where "s0 = s\<lparr>sv_failure_cleanup := No_cleanup\<rparr>"
  define s1 where "s1 = start_announce 0 ''run'' s0"
  have s1: "sv_state s1 = L_STARTING" "sv_scenario s1 = sv_scenario s" "sv_failure_cleanup s1 = No_cleanup" "sv_build s1 = sv_build s"
    by (simp_all add: s1_def s0_def start_announce_def publish_lifecycle_def publish_def)
  have "run_waiter su (W_command C_start) s0 = (s1, Starting At_supervisor)"
    using assms(1,4) by (simp add: run_waiter_def enter_def enter_start_def start_admission_def start_processes_def
        after_progress_def start_capable_def capabilities_def Let_def s0_def s1_def su_def)
  with sim_step.call [of "sim s Idle [] t" ev g send allowed parse single False su C_start] assms(2)
  have step1: "?step (sim s Idle [] t) (sim s1 (Starting At_supervisor) [] t)" by (simp add: s0_def proceed_def)
  have "s1\<lparr>sv_failure_cleanup := No_cleanup\<rparr> = s1" using s1(3) by (cases s1) simp
  with sim_step.queued [of "sim s1 (Starting At_supervisor) [] t" False C_start ev g send allowed parse single] s1(3)
  have step2: "?step (sim s1 (Starting At_supervisor) [] t) (sim s1 (Starting At_supervisor) [W_command C_start] t)"
    by (simp add: cleanup_scheduled_def)
  have wf: "graph_wf (sv_scenario s1)" using assms(3) s1(2) by simp
  obtain s5 where step3: "?step\<^sup>*\<^sup>* (sim s1 (Starting At_supervisor) [W_command C_start] t) (sim s5 Idle [W_command C_start] t)"
    and s5: "sv_state s5 = L_RUNNING" "sv_scenario s5 = sv_scenario s1" "sv_failure_cleanup s5 = sv_failure_cleanup s1"
    "sv_build s5 = sv_build s1" "no_run s5" "\<not> sv_startup_task s5"
    by (rule start_course [OF s1(1) wf])
  define s6 where "s6 = on_process_failure 0 ''a'' 1 s5"
  have s6: "sv_state s6 = L_FAILED" "sv_scenario s6 = sv_scenario s5" "sv_build s6 = sv_build s5" "no_run s6" "cleanup_scheduled s6"
    using s5 s1(3) by (simp_all add: s6_def on_process_failure_def schedule_runtime_failure_def publish_lifecycle_def publish_def
        no_run_def cleanup_scheduled_def Let_def)
  have step4: "?step (sim s5 Idle [W_command C_start] t) (sim s6 Idle [W_command C_start] t)"
    using sim_step.frame [of ev g send allowed parse single "sim s5 Idle [W_command C_start] t" s6 False]
      frame_step.process [of ev g send allowed parse single s5 0 "''a''" 1]
    by (simp add: s6_def)
  have step5: "?step (sim s6 Idle [W_command C_start] t) (sim s6 Idle [W_command C_start, W_cleanup] t)"
    using sim_step.cleanup_queued [of "sim s6 Idle [W_command C_start] t" ev g send allowed parse single False] s6(5) by simp
  have "?step\<^sup>*\<^sup>* (sim s Idle [] t) (sim s6 Idle [W_command C_start, W_cleanup] t)"
    using step1 step2 step3 step4 step5 by (meson converse_rtranclp_into_rtranclp rtranclp.rtrancl_into_rtrancl)
  with s6 s5 s1 show thesis by (intro that [of s6]) simp_all
qed

text \<open>The waiting start recovers from the failure and brings up a new simulation.\<close>

lemma start_after_failure:
  assumes "sv_state s = L_FAILED" and "cleanup_scheduled s" and "graph_wf (sv_scenario s)" and "metadata_available (sv_build s)"
    and "no_run s"
  obtains s5 where "(sim_step ev g send allowed parse single calm)\<^sup>*\<^sup>* (sim s Idle (W_command C_start # q) t) (sim s5 Idle q t)"
    and "sv_state s5 = L_RUNNING" and "cleanup_scheduled s5" and "no_run s5"
proof -
  let ?step = "sim_step ev g send allowed parse single calm"
  define su where "su = \<lparr>su_marker_exists = True, su_now = 0, su_id = ''run'', su_known = (\<lambda>_. True)\<rparr>"
  have "run_waiter su (W_command C_start) s = (cleanup_begin s, Starting (At_recover Cl_lag))"
    using assms(1) by (simp add: run_waiter_def enter_def enter_start_def start_admission_def after_progress_def)
  with sim_step.handover [of "sim s Idle (W_command C_start # q) t" "W_command C_start" q ev g send allowed parse single calm su]
  have step1: "?step (sim s Idle (W_command C_start # q) t) (sim (cleanup_begin s) (Starting (At_recover Cl_lag)) q t)"
    by (simp add: proceed_def)
  have "no_run (cleanup_begin s)" using assms(5) by (simp add: no_run_def cleanup_begin_def)
  then obtain s2 where step2: "?step\<^sup>*\<^sup>* (sim (cleanup_begin s) (Starting (At_recover Cl_lag)) q t) (sim s2 (Starting (At_recover Cl_processes)) q t)"
    and s2: "core_of s2 = core_of (cleanup_begin s)" "sv_build s2 = sv_build (cleanup_begin s)"
    "sv_failure_cleanup s2 = sv_failure_cleanup (cleanup_begin s)"
    by (rule cleanup_course [OF recover_context(1)])
  define s3 where "s3 = start_announce 0 ''run'' (cleanup_end s2)"
  have s3: "sv_state s3 = L_STARTING" "sv_scenario s3 = sv_scenario s" "sv_failure_cleanup s3 = sv_failure_cleanup s"
    using s2 core_fields(1) [of s2] core_fields(1) [of "cleanup_begin s"]
    by (simp_all add: s3_def start_announce_def publish_lifecycle_def publish_def cleanup_end_def cleanup_begin_def)
  have "sv_build (cleanup_end s2) = sv_build s" using s2(2) by (simp add: cleanup_end_def cleanup_begin_def)
  then have "start_processes su (cleanup_end s2) = (s3, Suspended (Starting At_supervisor))"
    using assms(4) by (simp add: start_processes_def start_capable_def capabilities_def Let_def su_def s3_def)
  with sim_step.recovered [of "sim s2 (Starting (At_recover Cl_processes)) q t" su s3 _ ev g send allowed parse single calm]
  have step3: "?step (sim s2 (Starting (At_recover Cl_processes)) q t) (sim s3 (Starting At_supervisor) q t)"
    by (simp add: proceed_def after_progress_def)
  have wf: "graph_wf (sv_scenario s3)" using assms(3) s3(2) by simp
  obtain s5 where step4: "?step\<^sup>*\<^sup>* (sim s3 (Starting At_supervisor) q t) (sim s5 Idle q t)"
    and s5: "sv_state s5 = L_RUNNING" "sv_failure_cleanup s5 = sv_failure_cleanup s3" "no_run s5"
    by (rule start_course [OF s3(1) wf])
  have "?step\<^sup>*\<^sup>* (sim s Idle (W_command C_start # q) t) (sim s5 Idle q t)"
    using step1 step2 step3 step4 by (meson converse_rtranclp_into_rtranclp rtranclp_trans)
  with s5 s3 assms(2) show thesis by (intro that [of s5]) (simp_all add: cleanup_scheduled_def)
qed

text \<open>The cleanup task destroys whatever it finds.\<close>

lemma stale_cleanup:
  assumes "cleanup_scheduled s" and "no_run s"
  obtains s' where "(sim_step ev g send allowed parse single calm)\<^sup>*\<^sup>* (sim s Idle [W_cleanup] T_free) (sim s' Idle [] T_free)"
    and "sv_state s' = sv_state s" and "sv_medium s' = None" and "sv_traffic s' = None" and "sv_gateways s' = []"
    and "\<not> cleanup_scheduled s'"
proof -
  let ?step = "sim_step ev g send allowed parse single calm"
  fix su
  have step1: "?step (sim s Idle [W_cleanup] T_free) (sim s (Cleaning Cl_topology) [] T_free)"
    using sim_step.handover [of "sim s Idle [W_cleanup] T_free" W_cleanup "[]" ev g send allowed parse single calm]
    by (simp add: proceed_def run_waiter_def enter_def after_progress_def)
  have step2: "?step (sim s (Cleaning Cl_topology) [] T_free) (sim (fail_traffic s) (Cleaning Cl_fail) [] T_cleanup)"
    using sim_step.cleanup_locks [of "sim s (Cleaning Cl_topology) [] T_free" ev g send allowed parse single calm]
    by (simp add: proceed_def)
  let ?s3 = "cleanup_begin (fail_traffic s)"
  have step3: "?step (sim (fail_traffic s) (Cleaning Cl_fail) [] T_cleanup) (sim ?s3 (Cleaning Cl_lag) [] T_cleanup)"
    using sim_step.cleanup_failed [of "sim (fail_traffic s) (Cleaning Cl_fail) [] T_cleanup" ev g send allowed parse single calm]
    by (simp add: proceed_def)
  have "no_run ?s3"
    using quiet_traffic(1) [OF assms(2) unused_stops(2)] assms(2)
    by (auto simp: fail_traffic_def no_run_def cleanup_begin_def split: cleanup_task.split)
  then obtain s4 where step4: "?step\<^sup>*\<^sup>* (sim ?s3 (Cleaning Cl_lag) [] T_cleanup) (sim s4 (Cleaning Cl_processes) [] T_cleanup)"
    and s4: "core_of s4 = core_of ?s3"
    by (rule cleanup_course [OF recover_context(2)])
  let ?s5 = "(cleanup_end s4)\<lparr>sv_failure_cleanup := Cleanup_done\<rparr>"
  have step5: "?step (sim s4 (Cleaning Cl_processes) [] T_cleanup) (sim ?s5 Idle [] T_free)"
    using sim_step.cleaned [of "sim s4 (Cleaning Cl_processes) [] T_cleanup" ev g send allowed parse single calm]
    by (simp add: proceed_def)
  have "sv_state ?s5 = sv_state s"
    using s4 core_fields(2) [of s4] core_fields(2) [of s] by (simp add: core_simps cleanup_end_def)
  moreover have "?step\<^sup>*\<^sup>* (sim s Idle [W_cleanup] T_free) (sim ?s5 Idle [] T_free)"
    using step1 step2 step3 step4 step5 by (meson converse_rtranclp_into_rtranclp rtranclp.rtrancl_into_rtrancl)
  ultimately show thesis by (intro that [of ?s5]) (simp_all add: cleanup_end_def cleanup_scheduled_def)
qed

text \<open>
  C16. The cleanup of a failure can destroy a simulation that was started after the failure: when a
  second start waits for the lifecycle lock while the first one finishes, and a process fails in the
  turn in which the lock changes hands, the second start recovers and brings up a new simulation, and
  then the cleanup of the old failure, which was queued behind it, tears the new one down. The
  simulator is left idle in the state RUNNING, without a medium, a controller or a gateway.
\<close>

theorem stale_cleanup_destroys_new_simulation:
  assumes "sv_state s = L_STOPPED" and "\<not> cleanup_scheduled s" and "graph_wf (sv_scenario s)" and "metadata_available (sv_build s)"
  shows "\<exists>s'. (sim_step ev g send allowed parse single False)\<^sup>*\<^sup>* (sim s Idle [] T_free) (sim s' Idle [] T_free) \<and>
    sv_state s' = L_RUNNING \<and> sv_medium s' = None \<and> sv_traffic s' = None \<and> sv_gateways s' = [] \<and> \<not> cleanup_scheduled s'"
proof -
  let ?step = "sim_step ev g send allowed parse single False"
  obtain s1 where 1: "?step\<^sup>*\<^sup>* (sim s Idle [] T_free) (sim s1 Idle [W_command C_start, W_cleanup] T_free)"
    and s1: "sv_state s1 = L_FAILED" "sv_scenario s1 = sv_scenario s" "sv_build s1 = sv_build s" "no_run s1" "cleanup_scheduled s1"
    by (rule failure_at_handover [OF assms])
  have wf: "graph_wf (sv_scenario s1)" "metadata_available (sv_build s1)" using assms(3,4) s1 by simp_all
  obtain s2 where 2: "?step\<^sup>*\<^sup>* (sim s1 Idle [W_command C_start, W_cleanup] T_free) (sim s2 Idle [W_cleanup] T_free)"
    and s2: "sv_state s2 = L_RUNNING" "cleanup_scheduled s2" "no_run s2"
    by (rule start_after_failure [OF s1(1,5) wf s1(4)])
  obtain s3 where 3: "?step\<^sup>*\<^sup>* (sim s2 Idle [W_cleanup] T_free) (sim s3 Idle [] T_free)" and s3: "sv_state s3 = sv_state s2"
    "sv_medium s3 = None" "sv_traffic s3 = None" "sv_gateways s3 = []" "\<not> cleanup_scheduled s3"
    by (rule stale_cleanup [OF s2(2,3)])
  from rtranclp_trans [OF rtranclp_trans [OF 1 2] 3] s2 s3 show ?thesis by auto
qed

lemma stale_cleanup_destroys_new_simulation_witness:
  "\<exists>s'. (sim_step lab_env zero_rng accept_all (\<lambda>_ _ _. True) (\<lambda>_. None) id False)\<^sup>*\<^sup>* (new_simulator lab_service) (sim s' Idle [] T_free) \<and>
     sv_state s' = L_RUNNING \<and> sv_medium s' = None"
  using stale_cleanup_destroys_new_simulation [of lab_service lab_env zero_rng accept_all "\<lambda>_ _ _. True" "\<lambda>_. None" id] lab_available
  by (auto simp: new_simulator_def lab_service_fields cleanup_scheduled_def relay_graph)


subsection \<open>A stop\<close>

lemma reachable_course:
  "(sim_step ev g send allowed parse single calm)\<^sup>*\<^sup>* sm sm' \<Longrightarrow> sim_reachable ev g send allowed parse single calm sm \<Longrightarrow>
   sim_reachable ev g send allowed parse single calm sm'"
  by (induction rule: rtranclp_induct) (auto intro: sim_reachable.step)

lemma lifecycle_states_are_honest_witness:
  "\<exists>sm. sim_reachable lab_env zero_rng accept_all (\<lambda>_ _ _. True) (\<lambda>_. None) id True sm \<and> sv_state (sm_service sm) = L_RUNNING \<and>
     dict_keys (sv_gateways (sm_service sm)) = [''a'', ''b'', ''c'']"
proof -
  let ?step = "sim_step lab_env zero_rng accept_all (\<lambda>_ _ _. True) (\<lambda>_. None) id True"
  define s0 where "s0 = lab_service\<lparr>sv_failure_cleanup := No_cleanup\<rparr>"
  define s1 where "s1 = start_announce 0 ''run'' s0"
  define su where "su = \<lparr>su_marker_exists = True, su_now = 0, su_id = ''run'', su_known = (\<lambda>_. True)\<rparr>"
  have s1: "sv_state s1 = L_STARTING" "sv_scenario s1 = relay_scenario"
    by (simp_all add: s1_def s0_def start_announce_def publish_lifecycle_def publish_def lab_service_fields)
  have "run_waiter su (W_command C_start) s0 = (s1, Starting At_supervisor)"
    using lab_available by (simp add: run_waiter_def enter_def enter_start_def start_admission_def start_processes_def
        after_progress_def start_capable_def capabilities_def Let_def s0_def s1_def su_def lab_service_fields)
  with sim_step.call [of "new_simulator lab_service" lab_env zero_rng accept_all "\<lambda>_ _ _. True" "\<lambda>_. None" id True su C_start]
  have "?step (new_simulator lab_service) (sim s1 (Starting At_supervisor) [] T_free)"
    by (simp add: s0_def proceed_def new_simulator_def cleanup_scheduled_def lab_service_fields)
  moreover have "graph_wf (sv_scenario s1)" using s1(2) relay_graph by simp
  then obtain s5 where "?step\<^sup>*\<^sup>* (sim s1 (Starting At_supervisor) [] T_free) (sim s5 Idle [] T_free)"
    and s5: "sv_state s5 = L_RUNNING" "sv_scenario s5 = sv_scenario s1"
    by (rule start_course [OF s1(1)])
  ultimately have r: "sim_reachable lab_env zero_rng accept_all (\<lambda>_ _ _. True) (\<lambda>_. None) id True (sim s5 Idle [] T_free)"
    using lab_simulator by (blast intro: reachable_course converse_rtranclp_into_rtranclp)
  from lifecycle_states_are_honest [OF r refl] s5 s1(2) have "dict_keys (sv_gateways s5) = map sn_id (sc_nodes relay_scenario)" by simp
  with r s5(1) show ?thesis by (intro exI [of _ "sim s5 Idle [] T_free"]) (simp add: relay_scenario_def)
qed

text \<open>
  A stop takes the simulator down from every state in which no command is under way: with no run
  to finish, the course of the stop ends in STOPPED, with every part of the simulation gone, the
  topology lock free again and the scenario as it was.
\<close>

theorem stop_reaches_stopped:
  assumes "sv_state s \<noteq> L_STOPPED" and "\<not> cleanup_scheduled s" and "no_run s"
  shows "\<exists>s'. (sim_step ev g send allowed parse single calm)\<^sup>*\<^sup>* (sim s Idle [] T_free) (sim s' Idle [] T_free) \<and>
    sv_state s' = L_STOPPED \<and> sv_medium s' = None \<and> sv_traffic s' = None \<and> sv_gateways s' = [] \<and> sv_verifications s' = [] \<and>
    sv_simulation_id s' = None \<and> sv_warming_up_until s' = None \<and> sv_scenario s' = sv_scenario s"
proof -
  let ?step = "sim_step ev g send allowed parse single calm"
  define su where "su = \<lparr>su_marker_exists = True, su_now = 0, su_id = ''run'', su_known = (\<lambda>_. True)\<rparr>"
  let ?s1 = "service_stop_begin 0 (s\<lparr>sv_failure_cleanup := No_cleanup\<rparr>)"
  have "run_waiter su (W_command C_stop) (s\<lparr>sv_failure_cleanup := No_cleanup\<rparr>) = (?s1, Stopping Cl_topology)"
    using assms(1) by (simp add: run_waiter_def enter_def enter_stop_def after_progress_def su_def)
  with sim_step.call [of "sim s Idle [] T_free" ev g send allowed parse single calm su C_stop] assms(2)
  have step1: "?step (sim s Idle [] T_free) (sim ?s1 (Stopping Cl_topology) [] T_free)" by (simp add: proceed_def)
  let ?s2 = "cleanup_begin ?s1"
  have step2: "?step (sim ?s1 (Stopping Cl_topology) [] T_free) (sim ?s2 (Stopping Cl_lag) [] T_cleanup)"
    using sim_step.stop_locks [of "sim ?s1 (Stopping Cl_topology) [] T_free" ev g send allowed parse single calm]
    by (simp add: proceed_def)
  have "no_run ?s2"
    using assms(3) by (simp add: no_run_def cleanup_begin_def service_stop_begin_def publish_lifecycle_def publish_def)
  then obtain s3 where step3: "?step\<^sup>*\<^sup>* (sim ?s2 (Stopping Cl_lag) [] T_cleanup) (sim s3 (Stopping Cl_processes) [] T_cleanup)"
    and s3: "core_of s3 = core_of ?s2"
    by (rule cleanup_course [OF recover_context(3)])
  let ?s4 = "service_stop_end 0 (cleanup_end s3)"
  have step4: "?step (sim s3 (Stopping Cl_processes) [] T_cleanup) (sim ?s4 Idle [] T_free)"
    using sim_step.stopped [of "sim s3 (Stopping Cl_processes) [] T_cleanup" ev g send allowed parse single calm 0]
    by (simp add: proceed_def)
  have "sv_scenario s3 = sv_scenario s"
    using s3 core_fields(1) [of s3] core_fields(1) [of s] by (simp add: core_simps)
  moreover have "?step\<^sup>*\<^sup>* (sim s Idle [] T_free) (sim ?s4 Idle [] T_free)"
    using step1 step2 step3 step4 by (meson converse_rtranclp_into_rtranclp rtranclp.rtrancl_into_rtrancl)
  ultimately show ?thesis
    by (intro exI [of _ ?s4]) (simp add: service_stop_end_def cleanup_end_def publish_lifecycle_def publish_def)
qed

lemma lab_serving_unused: "no_run lab_serving" "\<not> cleanup_scheduled lab_serving"
  by (simp_all add: lab_serving_def no_run_def unused_def start_running_fields wire_traffic_fields new_controller_def
      cleanup_scheduled_def start_running_def publish_lifecycle_def publish_def wire_traffic_def put_traffic_def
      lab_service_fields Let_def)

lemma stop_reaches_stopped_witness:
  "\<exists>s'. (sim_step lab_env zero_rng accept_all (\<lambda>_ _ _. True) (\<lambda>_. None) id True)\<^sup>*\<^sup>* (sim lab_serving Idle [] T_free) (sim s' Idle [] T_free) \<and>
     sv_state s' = L_STOPPED \<and> sv_scenario s' = relay_scenario"
  using stop_reaches_stopped [OF _ lab_serving_unused(2,1), of lab_env zero_rng accept_all "\<lambda>_ _ _. True" "\<lambda>_. None" id True]
  by (auto simp: lab_serving_fields)

end
