(* ===== verification/Api.thy ===== *)
theory Api
  imports Service
begin

text \<open>
  The HTTP interface, \<^verbatim>\<open>src/backend/app/main.py\<close>: the routes with the checks of their
  parameters, the two exception handlers, the export of runs and scenarios, the shutdown, and the
  event stream of the web socket, which replays the retained events and then forwards a
  subscription. JSON encoding, static files and the parsing of request bodies are the framework's.
  The theorems show that a stream never repeats, reorders or withholds what its subscription
  delivers, and that the scenario's name cannot break out of its response header.
\<close>

subsection \<open>Responses\<close>

text \<open>
  A response with its value, an error body with a code, the body of an \<^verbatim>\<open>HTTPException\<close>, the
  framework's rejection of a parameter, and an exception that no handler takes.
\<close>

datatype 'a response =
    Response 'a
  | Error_body int string string
  | Detail_body int string
  | Unprocessable
  | Unhandled pyerr

definition respond :: "'a result \<Rightarrow> 'a response" where
  "respond r =
     (case r of
        Inr x \<Rightarrow> Response x
      | Inl (SimulationConflict code message) \<Rightarrow> Error_body 409 code message
      | Inl (FileNotFoundError message) \<Rightarrow> Error_body 404 ''NOT_FOUND'' message
      | Inl e \<Rightarrow> Unhandled e)"

definition status_of :: "'a response \<Rightarrow> int" where
  "status_of r = (case r of Response _ \<Rightarrow> 200 | Error_body n _ _ \<Rightarrow> n | Detail_body n _ \<Rightarrow> n | Unprocessable \<Rightarrow> 422 | Unhandled _ \<Rightarrow> 500)"

subsection \<open>State, nodes and runs\<close>

record health_view =
  hv_status :: string
  hv_ready :: bool
  hv_lifecycle :: string

definition health :: "service \<Rightarrow> health_view" where
  "health s = \<lparr>hv_status = ''ok'', hv_ready = (lifecycle_text (sv_state s) = ''RUNNING''), hv_lifecycle = lifecycle_text (sv_state s)\<rparr>"

text \<open>The end of the application's life: a simulator that is not stopped is stopped.\<close>

definition shutdown_stops :: "service \<Rightarrow> bool" where
  "shutdown_stops s \<longleftrightarrow> lifecycle_text (sv_state s) \<noteq> ''STOPPED''"

record node_logs_view =
  nl_node_id :: string
  nl_stream :: string
  nl_lines :: "text_line list"

definition node_logs :: "string \<Rightarrow> string \<Rightarrow> int \<Rightarrow> service \<Rightarrow> node_logs_view response" where
  "node_logs node_id stream limit s =
     (if stream \<notin> {''stdout'', ''stderr''} \<or> \<not> in_range 1 250 limit then Unprocessable
      else if \<not> has_logs node_id (sv_supervisor s) then Detail_body 404 (''unknown or stopped node: '' @ node_id)
      else case recent_logs node_id stream limit (sv_supervisor s) of
        Inl e \<Rightarrow> respond (Inl e)
      | Inr ls \<Rightarrow> Response \<lparr>nl_node_id = node_id, nl_stream = stream, nl_lines = ls\<rparr>)"

datatype traffic_view = Run_summary_view run_summary | Idle_traffic

definition summary_or_idle :: "run_summary option \<Rightarrow> traffic_view" where
  "summary_or_idle x = (case x of None \<Rightarrow> Idle_traffic | Some m \<Rightarrow> Run_summary_view m)"

definition stopped_traffic :: "pyfloat \<Rightarrow> service \<Rightarrow> traffic_view response" where
  "stopped_traffic now s =
     respond (bind_result (case sv_traffic s of None \<Rightarrow> Inr None | Some c \<Rightarrow> summary now c) (\<lambda>x. Inr (summary_or_idle x)))"

definition current_traffic :: "pyfloat \<Rightarrow> service \<Rightarrow> traffic_view response" where
  "current_traffic now s = respond (bind_result (current_traffic_summary now s) (\<lambda>x. Inr (summary_or_idle x)))"

record traffic_started =
  ts_run_id :: string
  ts_state :: run_state

definition started_traffic :: "service \<times> string result \<Rightarrow> service \<times> traffic_started response" where
  "started_traffic r = (fst r, respond (bind_result (snd r) (\<lambda>i. Inr \<lparr>ts_run_id = i, ts_state = Run_RUNNING\<rparr>)))"

datatype export_body = Saved_file string | Result_body run_result

definition export_traffic_result :: "(string \<Rightarrow> run_result result option) \<Rightarrow> string \<Rightarrow> service \<Rightarrow> export_body response" where
  "export_traffic_result stored run_id s =
     respond (bind_result (traffic_result_is_complete stored run_id s) (\<lambda>complete.
       if \<not> complete
       then Inl (SimulationConflict ''TRAFFIC_RUN_NOT_COMPLETE'' ''traffic results can be exported after the run finishes'')
       else if stored run_id \<noteq> None then Inr (Saved_file (run_id @ ''.json''))
       else bind_result (traffic_result stored run_id s) (\<lambda>r. Inr (Result_body r))))"

subsection \<open>Commands on the scenario\<close>

text \<open>
  The bodies are validated by the framework before the handler runs: a body that the model rejects
  never reaches the service.
\<close>

definition replace_scenario_route :: "(string \<Rightarrow> bool) \<Rightarrow> scenario \<Rightarrow> service \<Rightarrow> service \<times> scenario response" where
  "replace_scenario_route known body s =
     (case check_scenario known body of
        Inl _ \<Rightarrow> (s, Unprocessable)
      | Inr sc \<Rightarrow> map_prod id respond (replace_scenario sc s))"

definition update_link_route :: "env \<Rightarrow> pyfloat \<Rightarrow> directed_link \<Rightarrow> service \<Rightarrow> service \<times> directed_link response" where
  "update_link_route ev now body s =
     (case check_link body of
        Inl _ \<Rightarrow> (s, Unprocessable)
      | Inr l \<Rightarrow> map_prod id respond (update_link_command ev now l s))"

definition update_links_route :: "env \<Rightarrow> pyfloat \<Rightarrow> directed_link list \<Rightarrow> service \<Rightarrow> service \<times> directed_link list response" where
  "update_links_route ev now body s =
     (case traverse_result check_link body of
        Inl _ \<Rightarrow> (s, Unprocessable)
      | Inr ls \<Rightarrow> map_prod id respond (update_links ev now ls s))"

definition apply_topology_route :: "env \<Rightarrow> pyfloat \<Rightarrow> topology_preset \<Rightarrow> service \<Rightarrow> service \<times> scenario response" where
  "apply_topology_route ev now preset s = map_prod id respond (apply_topology ev now preset s)"

text \<open>The part of \<^verbatim>\<open>start_traffic\<close> before the service waits for its baseline sample.\<close>

definition start_traffic_route_begin :: "traffic_request \<Rightarrow> service \<Rightarrow> (traffic_request \<times> nat) response" where
  "start_traffic_route_begin body s =
     (case check_request body of
        Inl _ \<Rightarrow> Unprocessable
      | Inr q \<Rightarrow> respond (bind_result (start_traffic_begin s) (\<lambda>serial. Inr (q, serial))))"

text \<open>
  The routes that start, stop and reset the simulation pass on what the service's command returns
  or raises once it has run (the commands are stretches of \<open>Service\<close> and \<open>Service_Steps\<close>).
\<close>

definition lifecycle_route :: "lifecycle_view result \<Rightarrow> lifecycle_view response" where
  "lifecycle_route answer = respond answer"

definition traffic_result_route :: "(string \<Rightarrow> run_result result option) \<Rightarrow> (string \<Rightarrow> run_summary result option) \<Rightarrow> pyfloat \<Rightarrow> string \<Rightarrow>
    service \<Rightarrow> run_summary response" where
  "traffic_result_route stored stored_summary now run_id s = respond (traffic_summary stored stored_summary now run_id s)"

definition completed_runs_route :: "string list option \<Rightarrow> service \<Rightarrow> (string \<times> string list) response" where
  "completed_runs_route listing s = Response (''runIds'', completed_runs listing s)"

subsection \<open>Exporting the scenario\<close>

text \<open>\<^verbatim>\<open>urllib.parse.quote\<close> with \<^verbatim>\<open>safe=""\<close>.\<close>

definition unreserved :: "nat \<Rightarrow> bool" where
  "unreserved b \<longleftrightarrow> 65 \<le> b \<and> b \<le> 90 \<or> 97 \<le> b \<and> b \<le> 122 \<or> 48 \<le> b \<and> b \<le> 57 \<or> b \<in> {95, 46, 45, 126}"

definition upper_hex :: "nat \<Rightarrow> char" where
  "upper_hex n = char_of (if n < 10 then 48 + n else 55 + n)"

definition quote_byte :: "nat \<Rightarrow> string" where
  "quote_byte b = (if unreserved b then [char_of b] else [CHR ''%'', upper_hex (b div 16), upper_hex (b mod 16)])"

definition quote_text :: "text_line \<Rightarrow> string result" where
  "quote_text cs = bind_result (encode_text cs) (\<lambda>bs. Inr (concat (map quote_byte bs)))"

definition scenario_disposition :: "text_line \<Rightarrow> string result" where
  "scenario_disposition name =
     bind_result (quote_text (name @ map of_char ''.json'')) (\<lambda>q.
       Inr (''attachment; filename=\"scenario.json\"; filename*=UTF-8'' @ [char_of (39 :: nat), char_of (39 :: nat)] @ q))"

subsection \<open>Events\<close>

definition MAX_EVENTS :: int where "MAX_EVENTS = 5000"

definition recent_events :: "int \<Rightarrow> string option \<Rightarrow> event_type option \<Rightarrow> service \<Rightarrow> packet_event list response" where
  "recent_events limit node_id ty s =
     (if \<not> in_range 1 MAX_EVENTS limit then Unprocessable else Response (recent (nat limit) node_id ty (sv_broker s)))"

definition stream_parameters_ok :: "int \<Rightarrow> string option \<Rightarrow> bool" where
  "stream_parameters_ok after_sequence sid \<longleftrightarrow>
     0 \<le> after_sequence \<and> (case sid of None \<Rightarrow> True | Some x \<Rightarrow> in_range 1 64 (int (length x)))"

definition event_history :: "int \<Rightarrow> int \<Rightarrow> string option \<Rightarrow> service \<Rightarrow> event_history_page response" where
  "event_history after_sequence limit sid s =
     (if \<not> stream_parameters_ok after_sequence sid \<or> \<not> in_range 1 MAX_EVENTS limit then Unprocessable
      else Response (history_page (nat after_sequence) (nat limit) sid (sv_broker s)))"

text \<open>
  One connection of the web socket: the subscription it reads, and the stream and the sequence number
  of what it sent last.
\<close>

record event_client =
  ec_subscription :: nat
  ec_stream_id :: string
  ec_sequence :: nat

definition stream_notice :: "pyfloat \<Rightarrow> event_history_page \<Rightarrow> packet_event list" where
  "stream_notice now p =
     (if hp_stream_changed p
      then [(new_event now UI_EVENTS_DROPPED)\<lparr>e_stream_id := hp_stream_id p, e_result := Some ''stream-reset'',
              e_detail := Some ''the event stream restarted; replaying retained history''\<rparr>]
      else if hp_history_gap p
      then [(new_event now UI_EVENTS_DROPPED)\<lparr>e_stream_id := hp_stream_id p, e_result := Some ''history-gap'',
              e_detail := Some (''event history before sequence '' @
                (case hp_first_available_sequence p of None \<Rightarrow> ''None'' | Some n \<Rightarrow> show_nat n) @ '' is no longer available'')\<rparr>]
      else [])"

text \<open>The connection subscribes and takes the page in one turn; \<open>i\<close> is the identity of the subscription.\<close>

definition open_event_stream :: "pyfloat \<Rightarrow> nat \<Rightarrow> string option \<Rightarrow> nat \<Rightarrow> event_broker \<Rightarrow>
    event_client \<times> packet_event list \<times> event_broker" where
  "open_event_stream now after_sequence sid i b =
     (let b1 = broker_subscribe i b; history = history_page after_sequence (nat MAX_EVENTS) sid b1
      in (\<lparr>ec_subscription = i, ec_stream_id = hp_stream_id history, ec_sequence = hp_latest_sequence history\<rparr>,
          stream_notice now history @ hp_events history, b1))"

definition forward_event :: "packet_event \<Rightarrow> event_client \<Rightarrow> event_client \<times> packet_event list" where
  "forward_event e cl =
     (let cl1 = (if e_stream_id e \<noteq> ec_stream_id cl then cl\<lparr>ec_stream_id := e_stream_id e, ec_sequence := 0\<rparr> else cl)
      in if e_sequence e \<noteq> 0 \<and> e_sequence e \<le> ec_sequence cl1 then (cl1, [])
         else (cl1\<lparr>ec_sequence := max (ec_sequence cl1) (e_sequence e)\<rparr>, [e]))"

text \<open>
  One turn of the loop: \<open>None\<close> waits. A message of the client only ends the loop when it is the
  disconnection.
\<close>

definition event_stream_turn :: "pyfloat \<Rightarrow> event_client \<Rightarrow> event_broker \<Rightarrow>
    (event_client \<times> packet_event list \<times> event_broker) option" where
  "event_stream_turn now cl b =
     map_option (\<lambda>(e, b'). case forward_event e cl of (cl', sent) \<Rightarrow> (cl', sent, b'))
       (broker_next now (ec_subscription cl) b)"

definition close_event_stream :: "event_client \<Rightarrow> event_broker \<Rightarrow> event_broker" where
  "close_event_stream cl b = broker_unsubscribe (ec_subscription cl) b"

end
