(* ===== verification/Api_Laws.thy ===== *)
theory Api_Laws
  imports Api Service_Laws
begin

text \<open>
  Laws of the HTTP interface: an event stream sends what its subscription delivers, in order and once;
  the exported file name stays inside its header.
\<close>

subsection \<open>The event stream\<close>

datatype stream_op = Elsewhere broker_op | Stream_turn pyfloat

text \<open>What the subscription delivered, what the connection sent, and the state after a run.\<close>

fun stream_run :: "stream_op list \<Rightarrow> event_client \<Rightarrow> event_broker \<Rightarrow>
    packet_event list \<times> packet_event list \<times> event_client \<times> event_broker" where
  "stream_run [] cl b = ([], [], cl, b)"
| "stream_run (Elsewhere op # ops) cl b = stream_run ops cl (broker_apply b op)"
| "stream_run (Stream_turn now # ops) cl b =
     (case broker_next now (ec_subscription cl) b of
        None \<Rightarrow> stream_run ops cl b
      | Some (e, b') \<Rightarrow>
          (case forward_event e cl of (cl', sent) \<Rightarrow>
            (case stream_run ops cl' b' of (got, later, cl2, b2) \<Rightarrow> (e # got, sent @ later, cl2, b2))))"

text \<open>Other clients' operations leave this subscription alone; the fresh stream names of the resets.\<close>

definition foreign :: "nat \<Rightarrow> stream_op \<Rightarrow> bool" where
  "foreign i op \<longleftrightarrow> (case op of Elsewhere (Subscribe j) \<Rightarrow> j \<noteq> i | Elsewhere (Unsubscribe j) \<Rightarrow> j \<noteq> i
     | Elsewhere (Next _ j) \<Rightarrow> j \<noteq> i | _ \<Rightarrow> True)"

fun clear_names :: "stream_op list \<Rightarrow> string list" where
  "clear_names [] = []"
| "clear_names (Elsewhere (Clear now name) # ops) = name # clear_names ops"
| "clear_names (_ # ops) = clear_names ops"

text \<open>No event comes before one of the same stream with a smaller or equal number.\<close>

definition in_order :: "packet_event \<Rightarrow> packet_event \<Rightarrow> bool" where
  "in_order x y \<longleftrightarrow> (e_stream_id x = e_stream_id y \<and> e_sequence x \<noteq> 0 \<and> e_sequence y \<noteq> 0 \<longrightarrow> e_sequence x < e_sequence y)"

definition queue_ok :: "event_client \<Rightarrow> event_broker \<Rightarrow> packet_event list \<Rightarrow> bool" where
  "queue_ok cl b q \<longleftrightarrow> sorted_wrt in_order q \<and>
     (\<forall>e \<in> set q. e_stream_id e = b_stream_id b \<and> e_sequence e \<le> b_sequence b) \<and>
     (ec_stream_id cl = b_stream_id b \<longrightarrow> ec_sequence cl \<le> b_sequence b \<and>
       (\<forall>e \<in> set q. e_sequence e \<noteq> 0 \<longrightarrow> ec_sequence cl < e_sequence e))"

definition stream_ok :: "event_client \<Rightarrow> event_broker \<Rightarrow> bool" where
  "stream_ok cl b \<longleftrightarrow> (\<exists>s. dict_get (b_subscribers b) (ec_subscription cl) = Some s \<and> sub_ok s \<and>
     s_stream_id s = b_stream_id b \<and> queue_ok cl b (s_queue s))"

lemma dict_get_values: "dict_get (map (\<lambda>(i, s). (i, f s)) d) k = map_option f (dict_get d k)"
  by (simp add: map_of_map)

lemma stream_ok_publish:
  assumes "stream_ok cl b"
  shows "stream_ok cl (snd (broker_publish e b))"
proof -
  obtain s where s: "dict_get (b_subscribers b) (ec_subscription cl) = Some s" "sub_ok s" "s_stream_id s = b_stream_id b"
    "queue_ok cl b (s_queue s)"
    using assms by (auto simp: stream_ok_def)
  let ?e = "e\<lparr>e_sequence := b_sequence b + 1, e_stream_id := b_stream_id b\<rparr>" and ?b = "snd (broker_publish e b)"
  have b: "b_stream_id ?b = b_stream_id b" "b_sequence ?b = b_sequence b + 1"
    by (simp_all add: broker_publish_def Let_def)
  have q: "queue_ok cl ?b (s_queue s @ [?e])"
    using s(4) by (auto simp: queue_ok_def b sorted_wrt_append in_order_def le_Suc_eq)
  then have "queue_ok cl ?b (tl (s_queue s) @ [?e])"
    by (cases "s_queue s") (auto simp: queue_ok_def)
  with q s(2) have "queue_ok cl ?b (s_queue (sub_publish ?e s))" by (simp add: sub_publish_eq)
  moreover have "dict_get (b_subscribers ?b) (ec_subscription cl) = Some (sub_publish ?e s)"
    by (simp add: broker_publish_def Let_def dict_get_values s(1))
  moreover have "s_stream_id (sub_publish ?e s) = s_stream_id s" by (simp add: sub_publish_eq [OF s(2)])
  ultimately show ?thesis using s(2,3) by (auto simp: stream_ok_def b intro: sub_publish_ok)
qed

lemma stream_ok_clear:
  assumes "stream_ok cl b" and "name \<noteq> ec_stream_id cl"
  shows "stream_ok cl (broker_clear now name b)"
proof -
  obtain s where s: "dict_get (b_subscribers b) (ec_subscription cl) = Some s" "sub_ok s"
    using assms by (auto simp: stream_ok_def)
  have "dict_get (b_subscribers (broker_clear now name b)) (ec_subscription cl) = Some (sub_restart now name s)"
    by (simp add: broker_clear_def dict_get_values s(1))
  moreover have "queue_ok cl (broker_clear now name b) (s_queue (sub_restart now name s))"
    using assms(2) by (simp add: queue_ok_def broker_clear_def sub_restart_def new_event_def)
  ultimately show ?thesis using s(2)
    by (auto simp: stream_ok_def sub_restart_ok) (simp add: sub_restart_def broker_clear_def)
qed

lemma stream_ok_elsewhere:
  assumes "stream_ok cl b" and "foreign (ec_subscription cl) (Elsewhere op)"
    and "\<And>now name. op = Clear now name \<Longrightarrow> name \<noteq> ec_stream_id cl"
  shows "stream_ok cl (broker_apply b op)"
proof (cases op)
  case (Publish e)
  with assms(1) show ?thesis by (simp add: broker_apply_def stream_ok_publish)
next
  case (Clear now name)
  with assms show ?thesis by (simp add: broker_apply_def stream_ok_clear)
qed (use assms in \<open>auto simp: broker_apply_def foreign_def broker_subscribe_def broker_unsubscribe_def broker_next_def
    stream_ok_def queue_ok_def dict_simps split: option.splits\<close>)

text \<open>A turn: the event is sent, and the position moves on to it.\<close>

lemma stream_ok_turn:
  assumes "stream_ok cl b" and "broker_next now (ec_subscription cl) b = Some (e, b')" and "forward_event e cl = (cl', sent)"
  shows "sent = [e] \<and> e_stream_id e = b_stream_id b \<and> b_stream_id b' = b_stream_id b \<and> stream_ok cl' b' \<and>
    ec_subscription cl' = ec_subscription cl \<and> ec_stream_id cl' = b_stream_id b \<and> e_sequence e \<le> ec_sequence cl' \<and>
    (ec_stream_id cl = b_stream_id b \<longrightarrow> ec_sequence cl \<le> ec_sequence cl' \<and> (e_sequence e \<noteq> 0 \<longrightarrow> ec_sequence cl < e_sequence e))"
proof -
  obtain s where s: "dict_get (b_subscribers b) (ec_subscription cl) = Some s" "sub_ok s" "s_stream_id s = b_stream_id b"
    "queue_ok cl b (s_queue s)"
    using assms(1) by (auto simp: stream_ok_def)
  then obtain s' where n: "sub_next now s = Some (e, s')" and b': "b' = b\<lparr>b_subscribers := dict_set (ec_subscription cl) s' (b_subscribers b)\<rparr>"
    using assms(2) by (auto simp: broker_next_def)
  have ok': "sub_ok s'" by (rule sub_next_ok [OF s(2) n])
  have e: "e_stream_id e = b_stream_id b \<and> e_sequence e \<le> b_sequence b \<and> s_stream_id s' = b_stream_id b \<and>
      (\<forall>y \<in> set (s_queue s'). in_order e y \<and> y \<in> set (s_queue s)) \<and> sorted_wrt in_order (s_queue s') \<and>
      (e_sequence e \<noteq> 0 \<longrightarrow> e \<in> set (s_queue s))"
  proof (cases "s_dropped s \<noteq> 0 \<and> \<not> s_delivered_drop_notice_last s")
    case True
    with n s(3,4) show ?thesis
      by (auto simp: sub_next_def drop_notice_def new_event_def queue_ok_def in_order_def)
  next
    case False
    with n obtain q where "s_queue s = e # q" "s' = s\<lparr>s_queue := q, s_delivered_drop_notice_last := False\<rparr>"
      by (auto simp: sub_next_def get_nowait_def split: if_splits list.splits)
    with s(3,4) show ?thesis by (auto simp: queue_ok_def)
  qed
  have "sent = [e] \<and> cl' = \<lparr>ec_subscription = ec_subscription cl, ec_stream_id = b_stream_id b,
      ec_sequence = max (if ec_stream_id cl = b_stream_id b then ec_sequence cl else 0) (e_sequence e)\<rparr>"
    using assms(3) e s(4) by (auto simp: forward_event_def Let_def queue_ok_def split: if_splits)
  with e s(4) b' ok' show ?thesis
    by (auto simp: stream_ok_def queue_ok_def dict_simps in_order_def)
qed


lemma apply_stream_id:
  "b_stream_id (broker_apply b op) = (case op of Clear now name \<Rightarrow> name | _ \<Rightarrow> b_stream_id b)"
  by (cases op) (auto simp: broker_apply_def broker_publish_def broker_clear_def broker_subscribe_def broker_unsubscribe_def
      broker_next_def Let_def split: option.splits)

lemma clear_names_elsewhere:
  "clear_names (Elsewhere op # ops) = (case op of Clear now name \<Rightarrow> name # clear_names ops | _ \<Rightarrow> clear_names ops)"
  by (cases op) simp_all

lemma stream_run_ok:
  assumes "stream_ok cl b" and "\<forall>op \<in> set ops. foreign (ec_subscription cl) op"
    and "distinct (b_stream_id b # clear_names ops)" and "ec_stream_id cl \<notin> set (clear_names ops)"
    and "stream_run ops cl b = (got, sent, cl2, b2)"
  shows "sent = got \<and> sorted_wrt in_order sent \<and>
    (\<forall>y \<in> set sent. e_stream_id y \<in> insert (b_stream_id b) (set (clear_names ops)) \<and>
      (e_stream_id y = ec_stream_id cl \<and> e_sequence y \<noteq> 0 \<longrightarrow> ec_sequence cl < e_sequence y))"
  using assms
proof (induction ops cl b arbitrary: got sent rule: stream_run.induct)
  case (2 op ops cl b)
  have ok: "stream_ok cl (broker_apply b op)"
    using "2.prems" by (intro stream_ok_elsewhere) (auto simp: clear_names_elsewhere)
  have fo: "\<forall>op \<in> set ops. foreign (ec_subscription cl) op" using "2.prems"(2) by simp
  have names: "distinct (b_stream_id (broker_apply b op) # clear_names ops)" "ec_stream_id cl \<notin> set (clear_names ops)"
    using "2.prems"(3,4) by (auto simp: clear_names_elsewhere apply_stream_id split: broker_op.splits)
  have run: "stream_run ops cl (broker_apply b op) = (got, sent, cl2, b2)" using "2.prems"(5) by simp
  show ?case
    using "2.IH" [OF ok fo names run] by (auto simp: clear_names_elsewhere apply_stream_id split: broker_op.splits)
next
  case (3 now ops cl b)
  show ?case
  proof (cases "broker_next now (ec_subscription cl) b")
    case None
    have fo: "\<forall>op \<in> set ops. foreign (ec_subscription cl) op" using "3.prems"(2) by simp
    have names: "distinct (b_stream_id b # clear_names ops)" "ec_stream_id cl \<notin> set (clear_names ops)"
      using "3.prems"(3,4) by simp_all
    have run: "stream_run ops cl b = (got, sent, cl2, b2)" using "3.prems"(5) None by simp
    show ?thesis using "3.IH"(1) [OF None "3.prems"(1) fo names run] by auto
  next
    case (Some r)
    then obtain e b' where n: "broker_next now (ec_subscription cl) b = Some (e, b')" by (cases r) auto
    obtain cl' s1 where f: "forward_event e cl = (cl', s1)" by fastforce
    obtain got1 sent1 where run: "stream_run ops cl' b' = (got1, sent1, cl2, b2)" and eqs: "got = e # got1" "sent = s1 @ sent1"
      using "3.prems"(5) n f by (auto split: prod.splits)
    note turn = stream_ok_turn [OF "3.prems"(1) n f]
    then have pre: "stream_ok cl' b'" "\<forall>op \<in> set ops. foreign (ec_subscription cl') op"
      "distinct (b_stream_id b' # clear_names ops)" "ec_stream_id cl' \<notin> set (clear_names ops)"
      using "3.prems"(2,3) by auto
    have later: "sent1 = got1 \<and> sorted_wrt in_order sent1 \<and>
      (\<forall>y \<in> set sent1. e_stream_id y \<in> insert (b_stream_id b') (set (clear_names ops)) \<and>
        (e_stream_id y = ec_stream_id cl' \<and> e_sequence y \<noteq> 0 \<longrightarrow> ec_sequence cl' < e_sequence y))"
      using "3.IH"(2) [OF n refl f [symmetric] pre run] by auto
    moreover have "in_order e y" if "y \<in> set sent1" for y
      using later turn that by (fastforce simp: in_order_def)
    moreover have "ec_sequence cl < e_sequence y" if "y \<in> set sent1" "e_stream_id y = ec_stream_id cl" "e_sequence y \<noteq> 0" for y
    proof (cases "ec_stream_id cl = b_stream_id b")
      case True
      with later turn that show ?thesis by fastforce
    next
      case False
      with later turn that "3.prems"(4) show ?thesis by auto
    qed
    ultimately show ?thesis using turn eqs by auto
  qed
qed simp

lemma stream_ok_open:
  assumes "window b" and "subs_ok b" and "open_event_stream now c sid i b = (cl, replay, b1)"
  shows "stream_ok cl b1 \<and> ec_subscription cl = i \<and> ec_stream_id cl = b_stream_id b \<and> b_stream_id b1 = b_stream_id b \<and>
    ec_sequence cl = b_sequence b"
  using assms(2,3)
  by (auto simp: open_event_stream_def Let_def history_page_def broker_subscribe_def stream_ok_def dict_simps new_subscription_def
      sub_ok_def queue_ok_def subs_ok_def)

text \<open>
  C9. An event stream is faithful. After its notice, if any, a connection replays every retained event
  after the client's cursor; then it sends exactly what its subscription delivers, so the check of
  the cursor never withholds an event; and whatever happens in between, publications, resets with
  fresh stream names, other clients that come, read and go, no event of a stream is sent twice or
  after a later one of the same stream.
\<close>

theorem event_stream_is_faithful:
  assumes "b = broker_run history (new_broker history_size (Suc buffer_size) name)" and "history_size \<le> 5000"
    and "open_event_stream now c sid i b = (cl, replay, b1)" and "stream_run ops cl b1 = (got, sent, cl2, b2)"
    and "\<forall>op \<in> set ops. foreign i op" and "distinct (b_stream_id b # clear_names ops)"
  shows "sent = got \<and> sorted_wrt in_order (replay @ sent) \<and>
    (\<exists>notices. replay = notices @ unseen (if sid \<noteq> None \<and> sid \<noteq> Some (b_stream_id b) then 0 else c) b \<and>
      length notices \<le> 1 \<and> (\<forall>e \<in> set notices. e_event_type e = UI_EVENTS_DROPPED \<and> e_sequence e = 0))"
proof -
  have w: "window b" unfolding assms(1) by (rule window_reachable)
  have so: "subs_ok b" unfolding assms(1) by (rule subs_ok_run) (simp add: subs_ok_def new_broker_def)
  note cl = stream_ok_open [OF w so assms(3)]
  then have run: "sent = got \<and> sorted_wrt in_order sent \<and>
    (\<forall>y \<in> set sent. e_stream_id y \<in> insert (b_stream_id b) (set (clear_names ops)) \<and>
      (e_stream_id y = ec_stream_id cl \<and> e_sequence y \<noteq> 0 \<longrightarrow> ec_sequence cl < e_sequence y))"
    using stream_run_ok [OF _ _ _ _ assms(4)] assms(5,6) by auto
  let ?u = "unseen (if sid \<noteq> None \<and> sid \<noteq> Some (b_stream_id b) then 0 else c) b"
  let ?p = "history_page c (nat MAX_EVENTS) sid (broker_subscribe i b)"
  have "b_history_size b \<le> 5000" unfolding assms(1) run_history_size by (simp add: new_broker_def assms(2))
  then have "length (b_history b) \<le> 5000" using w by (simp add: window_def)
  then have "length ?u \<le> nat MAX_EVENTS" by (simp add: MAX_EVENTS_def unseen_def le_trans [OF length_filter_le])
  then have page: "hp_events ?p = ?u"
    by (simp add: history_page_def broker_subscribe_def Let_def unseen_def)
  have "replay = stream_notice now ?p @ hp_events ?p" using assms(3) by (auto simp: open_event_stream_def Let_def)
  with page have replay: "replay = stream_notice now ?p @ ?u" by simp
  have notices: "length (stream_notice now ?p) \<le> 1 \<and> (\<forall>e \<in> set (stream_notice now ?p). e_event_type e = UI_EVENTS_DROPPED \<and> e_sequence e = 0)"
    by (auto simp: stream_notice_def new_event_def)
  have u: "\<forall>e \<in> set ?u. e_stream_id e = b_stream_id b \<and> e_sequence e \<le> b_sequence b"
  proof -
    have "e_sequence e \<in> set (map e_sequence (b_history b))" if "e \<in> set (b_history b)" for e using that by simp
    then have "e_sequence e \<in> {Suc (b_sequence b) - length (b_history b) ..< Suc (b_sequence b)}" if "e \<in> set (b_history b)" for e
      using that w by (simp only: window_def set_upt)
    with w show ?thesis by (fastforce simp: unseen_def window_def list_all_iff)
  qed
  have "sorted_wrt in_order (unseen k b)" for k
    using unseen_sorted [OF w, of k] unfolding sorted_wrt_map
    by (rule sorted_wrt_mono_rel [rotated]) (simp add: in_order_def)
  then have "sorted_wrt in_order ?u" .
  moreover have "in_order x y" if "x \<in> set ?u" "y \<in> set sent" for x y
    using that u run cl by (fastforce simp: in_order_def)
  ultimately have "sorted_wrt in_order (replay @ sent)"
    using run notices by (auto simp: replay sorted_wrt_append in_order_def stream_notice_def)
  with run replay notices show ?thesis by blast
qed


lemma event_stream_is_faithful_witness:
  "\<exists>cl replay b1 got sent cl2 b2.
     open_event_stream 0 1 (Some ''s'') 7 (broker_run [Publish (new_event 0 TRAFFIC), Publish (new_event 1 METRICS)] (new_broker 5000 (Suc 8) ''s''))
       = (cl, replay, b1) \<and> map e_sequence replay = [2] \<and>
     stream_run [Elsewhere (Publish (new_event 2 TRAFFIC)), Stream_turn 0] cl b1 = (got, sent, cl2, b2) \<and>
     sent = got \<and> map e_sequence got = [3]"
proof -
  let ?b = "broker_run [Publish (new_event 0 TRAFFIC), Publish (new_event 1 METRICS)] (new_broker 5000 (Suc 8) ''s'')"
  let ?ops = "[Elsewhere (Publish (new_event 2 TRAFFIC)), Stream_turn 0]"
  obtain cl replay b1 where o: "open_event_stream 0 1 (Some ''s'') 7 ?b = (cl, replay, b1)" by (metis prod_cases3)
  obtain got sent cl2 b2 where r: "stream_run ?ops cl b1 = (got, sent, cl2, b2)" by (metis prod_cases4)
  have b: "b_stream_id ?b = ''s''"
    by (simp add: broker_run_def broker_apply_def broker_publish_def new_broker_def Let_def)
  have "map e_sequence replay = [2]" and cl: "cl = \<lparr>ec_subscription = 7, ec_stream_id = ''s'', ec_sequence = 2\<rparr>" and "b1 = broker_subscribe 7 ?b"
    using o by (auto simp: open_event_stream_def Let_def history_page_def broker_subscribe_def broker_run_def broker_apply_def
        broker_publish_def new_broker_def MAX_EVENTS_def stream_notice_def push_bounded_def new_event_def)
  moreover from this have "map e_sequence got = [3]"
    using r by (auto simp: broker_subscribe_def broker_run_def broker_apply_def broker_publish_def new_broker_def broker_next_def
        new_subscription_def sub_publish_def put_nowait_def queue_full_def sub_next_def get_nowait_def Let_def new_event_def
        split: prod.splits)
  ultimately show ?thesis
    using event_stream_is_faithful [OF refl _ o r] o r b
    by (intro exI [of _ cl] exI [of _ replay] exI [of _ b1] exI [of _ got] exI [of _ sent] exI [of _ cl2] exI [of _ b2])
      (simp add: foreign_def)
qed

subsection \<open>Exports\<close>

lemma quoted_chars:
  assumes "b < 256" and "ch \<in> set (quote_byte b)"
  shows "ch = CHR ''%'' \<or> unreserved (of_char ch)"
proof (cases "unreserved b")
  case True
  with assms show ?thesis by (simp add: quote_byte_def)
next
  case False
  have hex: "unreserved (of_char (upper_hex n))" if "n < 16" for n
    using that by (auto simp: upper_hex_def unreserved_def)
  have "b div 16 < 16" using assms(1) by (simp add: less_mult_imp_div_less)
  with False assms(2) hex [of "b div 16"] hex [of "b mod 16"] show ?thesis by (auto simp: quote_byte_def)
qed

lemma encoded_byte:
  assumes "scalar_value c" and "b \<in> set (utf8_encode_code c)"
  shows "b < 256"
proof -
  have c: "c < 1114112" using assms(1) by (auto simp: scalar_value_def)
  then have "c div 262144 < 5" by (simp add: less_mult_imp_div_less)
  moreover have "c < 65536 \<Longrightarrow> c div 4096 < 16" "c < 2048 \<Longrightarrow> c div 64 < 32" by (simp_all add: less_mult_imp_div_less)
  moreover have "k mod 64 < 64" for k :: nat by simp
  ultimately show ?thesis using assms(2)
    by (auto simp: utf8_encode_code_def split: if_splits intro: less_trans [of _ "128 + 64"])
qed

text \<open>
  The name of a scenario cannot break out of the header of its export: for every name that has a
  UTF-8 encoding, and only for those, the header is built, and its quoted part contains only letters,
  digits and the marks that need no quoting in a header, whatever the name contains.
\<close>

theorem export_header_is_safe:
  "case scenario_disposition name of
     Inl _ \<Rightarrow> \<not> list_all scalar_value name
   | Inr header \<Rightarrow> list_all scalar_value name \<and>
       (\<exists>quoted. header = ''attachment; filename=\"scenario.json\"; filename*=UTF-8'' @ [char_of (39 :: nat), char_of (39 :: nat)] @ quoted \<and>
         list_all (\<lambda>ch. ch = CHR ''%'' \<or> unreserved (of_char ch)) quoted)"
proof (cases "list_all scalar_value name")
  case False
  then show ?thesis by (simp add: scenario_disposition_def quote_text_def encode_text_def)
next
  case True
  let ?cs = "name @ map of_char ''.json''"
  have all: "list_all scalar_value ?cs" using True by (simp add: scalar_value_def)
  have "ch = CHR ''%'' \<or> unreserved (of_char ch)" if ch: "ch \<in> set (concat (map quote_byte (utf8_encode ?cs)))" for ch
  proof -
    from ch obtain b where b: "b \<in> set (utf8_encode ?cs)" "ch \<in> set (quote_byte b)" by auto
    then obtain c where "c \<in> set ?cs" "b \<in> set (utf8_encode_code c)" unfolding utf8_encode_def set_concat set_map by blast
    with all have "b < 256" by (intro encoded_byte [of c]) (auto simp: list_all_iff)
    from quoted_chars [OF this b(2)] show ?thesis .
  qed
  then show ?thesis using all True by (simp add: scenario_disposition_def quote_text_def encode_text_def list_all_iff)
qed

subsection \<open>Responses\<close>

text \<open>The routes' responses: a refusal of the service is a 409, a missing run is a 404.\<close>

lemma respond_status:
  "status_of (respond r) = (case r of Inr _ \<Rightarrow> 200 | Inl (SimulationConflict _ _) \<Rightarrow> 409 | Inl (FileNotFoundError _) \<Rightarrow> 404 | Inl _ \<Rightarrow> 500)"
  by (auto simp: respond_def status_of_def split: sum.split pyerr.split)

text \<open>
  C39. The result of a run can be exported exactly when the run has ended: the current run once its
  result is frozen, and then with that result, a saved run, and an archived one; a run under way is
  refused with a conflict, and any other is not found. An export never shows the records of a run that is
  still changing.
\<close>

theorem export_needs_a_finished_run:
  assumes "\<And>c. sv_traffic s = Some c \<Longrightarrow> ctl_reachable ev g send allowed c"
  shows "export_traffic_result stored run_id s =
    (case current_matches run_id s of
       Some c \<Rightarrow>
         (case t_frozen_result c of
            None \<Rightarrow> Error_body 409 ''TRAFFIC_RUN_NOT_COMPLETE'' ''traffic results can be exported after the run finishes''
          | Some f \<Rightarrow> Response (if stored run_id = None then Result_body f else Saved_file (run_id @ ''.json'')))
     | None \<Rightarrow>
         if stored run_id \<noteq> None then Response (Saved_file (run_id @ ''.json''))
         else case dict_get (sv_volatile_results s) run_id of
           Some r \<Rightarrow> Response (Result_body r)
         | None \<Rightarrow> Error_body 404 ''NOT_FOUND'' run_id)"
proof (cases "current_matches run_id s")
  case None
  then show ?thesis
    by (auto simp: export_traffic_result_def traffic_result_is_complete_def traffic_result_def saved_result_def respond_def
        split: option.split)
next
  case (Some c)
  then obtain r where c: "sv_traffic s = Some c" "t_current c = Some r" "r_run_id r = run_id"
    by (auto simp: current_matches_def split: option.splits if_splits)
  have "t_current c = Some f" if "t_frozen_result c = Some f" for f
    using ctl_reachable_lifecycle [OF assms [OF c(1)]] that by (simp add: Traffic_Lifecycle.lifecycle_def frozen_ok_def)
  with c Some show ?thesis
    by (auto simp: export_traffic_result_def traffic_result_is_complete_def traffic_result_def respond_def
        result_is_finalized_def run_result_of_def split: option.split)
qed

lemma export_needs_a_finished_run_witness:
  "\<exists>f. t_frozen_result lab_failed = Some f \<and>
     export_traffic_result (\<lambda>_. None) (r_run_id f) (lab_service\<lparr>sv_traffic := Some lab_failed\<rparr>) = Response (Result_body f)"
proof -
  obtain f where f: "t_frozen_result lab_failed = Some f" and r: "lab_reachable (\<lambda>_ _ _. True) lab_failed"
    by (rule lab_failed_steps)
  have "t_current lab_failed = Some f"
    using ctl_reachable_lifecycle [OF r] f by (simp add: Traffic_Lifecycle.lifecycle_def frozen_ok_def)
  then have "current_matches (r_run_id f) (lab_service\<lparr>sv_traffic := Some lab_failed\<rparr>) = Some lab_failed"
    by (simp add: current_matches_def)
  with export_needs_a_finished_run [of "lab_service\<lparr>sv_traffic := Some lab_failed\<rparr>" lab_env zero_rng accept_all "\<lambda>_ _ _. True"
      "\<lambda>_. None" "r_run_id f"] f r
  show ?thesis by simp
qed

end
