(* ===== verification/Traffic_Authors.thy ===== *)
theory Traffic_Authors
  imports Traffic_Pending
begin

text \<open>
  Who wrote the messages of a run: every generated message belongs to a flow of the run's own
  request, comes from a source of that flow, and goes to the broadcast address or to another
  node. Every operation but the submission of a new message keeps the \<open>authors\<close> of a state, the
  request with the flow, source and destination of each message.
\<close>

named_theorems author_simps \<open>operations that write no message\<close>

definition byline :: "generated_message \<Rightarrow> string \<times> string \<times> string" where
  "byline m = (g_flow m, g_source_node m, g_destination_node m)"

definition authors :: "run_result option \<Rightarrow> (traffic_request \<times> (string \<times> string \<times> string) list) option" where
  "authors cur = map_option (\<lambda>r. (r_request r, map byline (r_generated_messages r))) cur"

definition credits :: "controller \<Rightarrow> (traffic_request \<times> (string \<times> string \<times> string) list) option \<times> scenario" where
  "credits c = (authors (t_current c), t_run_scenario c)"

lemma byline_fields [simp]:
  "byline (m\<lparr>g_submitted := b\<rparr>) = byline m" "byline (m\<lparr>g_submission_error := e\<rparr>) = byline m"
  "byline (m\<lparr>g_transmitted := b\<rparr>) = byline m" "byline (m\<lparr>g_delivered_to := ns\<rparr>) = byline m"
  "byline (m\<lparr>g_acknowledged := b\<rparr>) = byline m" "byline (m\<lparr>g_latency_ms := x\<rparr>) = byline m"
  by (simp_all add: byline_def)

lemma map_parts [author_simps]:
  "t_run_scenario (map_current f c) = t_run_scenario c" "t_run_scenario (map_message i g c) = t_run_scenario c"
  by (simp_all add: map_message_def map_current_def)

lemma authors_map_current [author_simps]:
  assumes "\<And>r. r_request (f r) = r_request r \<and> map byline (r_generated_messages (f r)) = map byline (r_generated_messages r)"
  shows "authors (t_current (map_current f c)) = authors (t_current c)"
  using assms by (simp add: map_current_def authors_def option.map_comp comp_def)

lemma authors_map_message [author_simps]:
  assumes "\<And>m. byline (g m) = byline m"
  shows "authors (t_current (map_message i g c)) = authors (t_current c)"
proof -
  have "map byline (ms[i := g (ms ! i)]) = map byline ms" for ms
    unfolding map_update assms by (metis list_update_id map_update)
  then show ?thesis unfolding map_message_def by (intro authors_map_current) simp
qed

lemma credits_small [author_simps]:
  "credits (note_activity now c) = credits c"
  "credits (publish_metric_update_as res now v c) = credits c"
  "credits (publish_event e c) = credits c"
  "credits (count_transmission tx air i c) = credits c"
  "credits (add_drop reason c) = credits c"
  "credits (publish_submission now s i res detail c) = credits c"
  "credits (count_submitted i c) = credits c"
  "credits (count_submission_failed i err c) = credits c"
  "credits (snd (count_delivery now n i c)) = credits c"
  "credits (count_acknowledgment now i c) = credits c"
  "credits (publish_routing now ty n p r sq res c) = credits c"
  by (simp_all add: credits_def note_activity_def count_transmission_def add_drop_def publish_submission_def count_submitted_def
      count_submission_failed_def count_delivery_def count_acknowledgment_def publish_routing_def Let_def ctl_simps author_simps)

lemma credits_fields [author_simps]:
  "credits (c\<lparr>t_broker := b\<rparr>) = credits c" "credits (c\<lparr>t_sequence := n\<rparr>) = credits c"
  "credits (c\<lparr>t_last_activity := x\<rparr>) = credits c" "credits (c\<lparr>t_activity_changed := f\<rparr>) = credits c"
  "credits (c\<lparr>t_relay_transmissions := k\<rparr>) = credits c" "credits (c\<lparr>t_duplicates := k\<rparr>) = credits c"
  "credits (c\<lparr>t_failed_receptions := k\<rparr>) = credits c" "credits (c\<lparr>t_latest_failed_receptions := d\<rparr>) = credits c"
  "credits (c\<lparr>t_latest_duplicate_receptions := d\<rparr>) = credits c" "credits (c\<lparr>t_event_loop_lag_ms := l\<rparr>) = credits c"
  "credits (c\<lparr>t_routing_terminal_sequences := s\<rparr>) = credits c" "credits (c\<lparr>t_messages_by_packet := mp\<rparr>) = credits c"
  "credits (c\<lparr>t_messages_by_key := mk\<rparr>) = credits c" "credits (c\<lparr>t_pending_submissions := pd\<rparr>) = credits c"
  "credits (c\<lparr>t_ids := ids\<rparr>) = credits c" "credits (c\<lparr>t_state := st\<rparr>) = credits c" "credits (c\<lparr>t_phase := ph\<rparr>) = credits c"
  "credits (c\<lparr>t_task_active := a\<rparr>) = credits c" "credits (c\<lparr>t_finalization_done := f\<rparr>) = credits c"
  "credits (c\<lparr>t_finalization_wait_timed_out := f\<rparr>) = credits c" "credits (c\<lparr>t_drain_deadline := dl\<rparr>) = credits c"
  "credits (c\<lparr>t_metrics := m\<rparr>) = credits c" "credits (c\<lparr>t_maximum_packet_airtime_ms := k\<rparr>) = credits c"
  "credits (c\<lparr>t_maximum_retransmission_delay_ms := k\<rparr>) = credits c" "credits (c\<lparr>t_submitted_count := k\<rparr>) = credits c"
  "credits (c\<lparr>t_generated_count := k\<rparr>) = credits c" "credits (c\<lparr>t_submission_failed_count := k\<rparr>) = credits c"
  "credits (c\<lparr>t_receiver_deliveries := k\<rparr>) = credits c" "credits (c\<lparr>t_unique_deliveries := k\<rparr>) = credits c"
  "credits (c\<lparr>t_latencies_ms := xs\<rparr>) = credits c" "credits (c\<lparr>t_live_latencies_ms := xs\<rparr>) = credits c"
  by (simp_all add: credits_def)

lemma credits_map [author_simps]:
  "(\<And>m. byline (g m) = byline m) \<Longrightarrow> credits (map_message i g c) = credits c"
  "(\<And>r. r_request (f r) = r_request r \<and> r_generated_messages (f r) = r_generated_messages r) \<Longrightarrow>
     credits (map_current f c) = credits c"
  by (simp_all add: credits_def author_simps)

lemma credits_identity: "message_for_packet_identity pb tr p c = (found, c') \<Longrightarrow> credits c' = credits c"
  by (auto simp: message_for_packet_identity_def author_simps split: option.splits)

lemma credits_correlated: "correlated_delivery_message ev p c = (found, c') \<Longrightarrow> credits c' = credits c"
  by (auto simp: correlated_delivery_message_def dest: credits_identity split: option.splits prod.splits if_splits)

lemma credits_reports [author_simps]:
  "credits (fst (record_rf_transmission ev now tx p air c)) = credits c"
  "credits (record_drop ev now tx p reason c) = credits c"
  "credits (record_failed_receptions now n k c) = credits c"
  "credits (record_duplicate_receptions now n k c) = credits c"
  "credits (fst (record_topology_change e l c)) = credits c"
  "credits (set_event_loop_lag now x c) = credits c"
  by (auto simp: record_rf_transmission_def record_drop_def record_failed_receptions_def
      record_duplicate_receptions_def record_topology_change_def set_event_loop_lag_def Let_def
      author_simps credits_identity split: option.splits prod.splits sum.splits)

lemma credits_text [author_simps]: "credits (handle_text ev now n p r c) = credits c"
proof -
  obtain found c1 where f: "correlated_delivery_message ev p c = (found, c1)" by fastforce
  have "credits c2 = credits c1" if "count_delivery now n i c1 = (x, c2)" for i x c2
    using credits_small(9) [where now = now and n = n and i = i and c = c1] by (simp add: that)
  with f credits_correlated [OF f] show ?thesis
    by (auto simp: handle_text_def Let_def author_simps split: option.splits prod.splits)
qed

lemma credits_routing_parts [author_simps]:
  "credits (fst (handle_routing_error now n p i e r c)) = credits c"
  "credits (fst (handle_acknowledgment now n p origin i r c)) = credits c"
  by (simp_all add: handle_routing_error_def handle_acknowledgment_def Let_def author_simps split: sum.splits option.splits)

lemma credits_control [author_simps]:
  "credits (drain_begin now c) = credits c" "credits (snd (drain_check now quiet deadline c)) = credits c"
  "credits (begin_draining c) = credits c" "credits (cancel_run_task c) = credits c"
  "credits (snd (stop_begin c)) = credits c" "credits (snd (fail_begin reason c)) = credits c"
  "credits (run_raised e c) = credits c" "credits (run_done c) = credits c"
  "credits (finalization_wait_timeout c) = credits c" "credits (fst (measure_packet ev now p c)) = credits c"
  by (simp_all add: drain_begin_def drain_check_def begin_draining_def cancel_run_task_def stop_begin_def
      fail_begin_def run_raised_def run_done_def finalization_wait_timeout_def measure_packet_def Let_def
      author_simps split: option.splits sum.splits)

lemma credits_samples [author_simps]:
  "credits (snd (sample_failed now ts missing c)) = credits c" "credits (sample_duplicates now ts c) = credits c"
  "credits (sample_final_failed_receptions now sampled c) = credits c"
proof -
  show a: "credits (snd (sample_failed now ts missing c)) = credits c" for ts missing c
    by (induction now ts missing c rule: sample_failed.induct) (simp_all add: author_simps)
  show b: "credits (sample_duplicates now ts c) = credits c" for ts c
    by (induction now ts c rule: sample_duplicates.induct) (simp_all add: author_simps)
  show "credits (sample_final_failed_receptions now sampled c) = credits c"
    by (simp add: sample_final_failed_receptions_def Let_def case_prod_unfold a b author_simps split: option.splits)
qed

lemma credits_resolve [author_simps]: "credits (resolve_submission now s i err c) = credits c"
  by (simp add: resolve_submission_def author_simps split: option.split)

lemma credits_resolve_all: "credits (resolve_all now ps c) = credits c"
  by (induction now ps c rule: resolve_all.induct) (simp_all add: author_simps)

lemma credits_submissions [author_simps]:
  "credits (record_queue_status ev now n st c) = credits c"
  "credits (finalize_pending_submissions now c) = credits c"
  "credits (withdraw_submission i c) = credits c"
  "credits (record_pretransmission_rejection now s i reason c) = credits c"
proof -
  show w: "credits (withdraw_submission i c) = credits c" for c by (simp add: withdraw_submission_def author_simps)
  show "credits (record_queue_status ev now n st c) = credits c"
    by (simp add: record_queue_status_def Let_def author_simps split: option.split)
  show "credits (finalize_pending_submissions now c) = credits c"
    by (simp add: finalize_pending_submissions_def credits_resolve_all author_simps)
  show "credits (record_pretransmission_rejection now s i reason c) = credits c"
    by (simp add: record_pretransmission_rejection_def Let_def w author_simps)
qed

lemma credits_radio [author_simps]: "credits (fst (handle_from_radio ev now n msg c)) = credits c"
proof -
  have "credits (fst (handle_routing ev now n p d r c)) = credits c" for p d r
    by (simp add: handle_routing_def Let_def author_simps split: option.split)
  then show ?thesis by (simp add: handle_from_radio_def author_simps split: option.split from_radio.split)
qed

lemma credits_ends [author_simps]:
  "credits (drain_end now timed_out c) = credits c"
  "credits (fst (finish_end now st err c)) = credits c"
proof -
  show "credits (drain_end now timed_out c) = credits c" by (simp add: drain_end_def author_simps)
  show "credits (fst (finish_end now st err c)) = credits c"
    by (auto simp: finish_end_def finish_metrics_def finish_freeze_def persistence_failed_def terminal_result_def Let_def
        ctl_simps credits_def authors_def split: option.splits sum.splits)
qed

lemma credits_finish_begin: "finish_begin now c = Some c' \<Longrightarrow> credits c' = credits c"
  by (auto simp: finish_begin_def author_simps split: if_splits)

subsection \<open>New messages\<close>

lemma credits_register:
  assumes "t_current c = Some r"
  shows "credits (register_message now m origin c) =
    (Some (r_request r, map byline (r_generated_messages r) @ [byline m]), t_run_scenario c)"
  using assms by (simp add: register_message_def Let_def ctl_simps credits_def authors_def map_current_def)

lemma credits_hand_over: "credits (fst (hand_over send now source p i w c)) = credits c"
  by (auto simp: hand_over_def author_simps split: prod.split sum.split)

lemma credits_submit:
  assumes "submit ev g send now source destination flow s w c = Some (c', s', w', out)"
  shows "credits c' = credits c \<or> (\<exists>r. t_current c = Some r \<and>
    credits c' = (Some (r_request r, map byline (r_generated_messages r) @ [(flow, source, destination)]), t_run_scenario c))"
  using assms
proof (cases rule: submit_cases)
  case (registered r pid ids s1 payload p c4 o4)
  let ?m = "new_message (Suc (t_sequence c)) flow source destination pid now"
  let ?c0 = "c\<lparr>t_sequence := Suc (t_sequence c), t_ids := ids\<rparr>"
  have "credits c' = credits c4"
    using registered(5) credits_hand_over [of send now source p "length (r_generated_messages r)" w c4] by (auto split: if_splits)
  also have "\<dots> = credits (register_message now ?m (p_from p) ?c0)"
    using credits_control(10) [of ev now p "register_message now ?m (p_from p) ?c0"] registered(4) by simp
  also have "\<dots> = (Some (r_request r, map byline (r_generated_messages r) @ [byline ?m]), t_run_scenario c)"
    using credits_register [of ?c0 r] registered(1) by simp
  finally show ?thesis using registered(1) by (simp add: byline_def new_message_def)
qed (simp_all add: author_simps)

subsection \<open>Every message is authored\<close>

definition authored :: "traffic_request \<Rightarrow> string \<times> string \<times> string \<Rightarrow> bool" where
  "authored q b \<longleftrightarrow>
     (\<exists>f \<in> set (scheduling_flows q). fst b = f_name f \<and> fst (snd b) \<in> set (f_source_nodes f)) \<and>
     (if q_kind q = BROADCAST_TEXT then snd (snd b) = ''broadcast'' else snd (snd b) \<noteq> fst (snd b))"

definition credited :: "controller \<Rightarrow> bool" where
  "credited c \<longleftrightarrow>
     (case credits c of
        (None, _) \<Rightarrow> True
      | (Some (q, bs), sc) \<Rightarrow> validate_request_nodes q sc = Inr () \<and> list_all (authored q) bs)"

lemma credited_same: "credits c' = credits c \<Longrightarrow> credited c \<Longrightarrow> credited c'"
  by (simp add: credited_def)

lemma fixed_destination_differs:
  assumes "validate_request_nodes q sc = Inr ()" and "f \<in> set (scheduling_flows q)" and "q_kind q = DIRECT_TEXT"
    and "f_destination_strategy f = FIXED" and "f_fixed_destination f = Some d" and "s \<in> set (f_source_nodes f)"
  shows "d \<noteq> s"
proof -
  have "isOk (validate_flow_nodes (q_kind q) (map sn_id (sc_nodes sc)) f)"
    using assms(1,2) unfolding validate_request_nodes_def bind_result_eq_Inr isOk_iff [symmetric]
    by (metis isOk_iff isOk_traverse)
  with assms(3-6) show ?thesis by (auto simp: validate_flow_nodes_def Let_def split: if_splits)
qed

lemma candidate_differs: "i < length (candidates sc s) \<Longrightarrow> candidates sc s ! i \<noteq> s"
  using nth_mem [of i "candidates sc s"] by (auto simp: candidates_def)

lemma chosen_destination:
  assumes "rng_ok g" and "choose_destination g sc kind strategy fixed source s rr = Inr (d, s', rr')"
    and "strategy = FIXED \<Longrightarrow> kind = DIRECT_TEXT \<Longrightarrow> fixed \<noteq> Some source"
  shows "if kind = BROADCAST_TEXT then d = ''broadcast'' else d \<noteq> source"
proof (cases kind)
  case BROADCAST_TEXT
  with assms(2) show ?thesis by (simp add: choose_destination_def)
next
  case DIRECT_TEXT
  have "fst (rng_choice_index g s n) < n" if "0 < n" for n using assms(1) that by (simp add: rng_ok_def)
  then have "candidates sc source \<noteq> [] \<Longrightarrow>
      candidates sc source ! fst (rng_choice_index g s (length (candidates sc source))) \<noteq> source"
    by (intro candidate_differs) simp
  with DIRECT_TEXT assms(2,3) show ?thesis
    by (auto simp: choose_destination_def candidate_differs case_prod_unfold Let_def split: destination_strategy.splits option.splits if_splits)
qed

lemma credited_turn:
  assumes "rng_ok g" and "credited c" and "\<And>r. t_current c = Some r \<Longrightarrow> task_of (r_request r) rt"
    and "run_turn ev g send now rt w c = Some (rt', c', w', out)"
  shows "credited c'"
proof (cases "t_current c")
  case None
  have "credits c' = credits c"
    using assms(4) by (auto simp: run_turn_def submit_def None Let_def bind_eq_Some_conv split: sum.splits prod.splits)
  with assms(2) show ?thesis by (rule credited_same [rotated])
next
  case (Some r)
  let ?q = "r_request r" and ?sc = "t_run_scenario c"
  have task: "task_of ?q rt" by (rule assms(3) [OF Some])
  have ok: "validate_request_nodes ?q ?sc = Inr ()" "list_all (authored ?q) (map byline (r_generated_messages r))"
    using assms(2) Some by (simp_all add: credited_def credits_def authors_def)
  obtain k t where n: "next_due (rt_plan rt) (rt_next_tick rt) = (k, t)" by fastforce
  then have "(k, t) \<in> set (rt_next_tick rt)" using next_due_in [of "rt_next_tick rt" "rt_plan rt"] task by (simp add: task_of_def)
  then have f: "scheduling_flows ?q ! fst k \<in> set (scheduling_flows ?q)" "snd k \<in> set (f_source_nodes (scheduling_flows ?q ! fst k))"
    using task by (auto simp: task_of_def)
  let ?f = "scheduling_flows ?q ! fst k"
  have "c' = c \<or> (\<exists>d s1 rr s s2 o1 w1. choose_destination g ?sc (q_kind ?q) (f_destination_strategy ?f) (f_fixed_destination ?f)
        (snd k) (rt_destination_randomizers rt ! fst k) (rt_round_robin rt ! fst k) = Inr (d, s1, rr) \<and>
      submit ev g send now (snd k) d (f_name ?f) s w c = Some (c', s2, w1, o1))"
    using assms(4) n task by (auto simp: run_turn_def task_of_def Let_def bind_eq_Some_conv unit_result split: sum.splits prod.splits)
  then consider "c' = c"
    | d s1 rr s s2 o1 w1 where "choose_destination g ?sc (q_kind ?q) (f_destination_strategy ?f) (f_fixed_destination ?f)
        (snd k) (rt_destination_randomizers rt ! fst k) (rt_round_robin rt ! fst k) = Inr (d, s1, rr)"
      "submit ev g send now (snd k) d (f_name ?f) s w c = Some (c', s2, w1, o1)" by blast
  then show ?thesis
  proof cases
    case 1
    with assms(2) show ?thesis by simp
  next
    case 2
    have "f_fixed_destination ?f \<noteq> Some (snd k)" if "f_destination_strategy ?f = FIXED" "q_kind ?q = DIRECT_TEXT"
      using fixed_destination_differs [OF ok(1) f(1)] that f(2) by blast
    from chosen_destination [OF assms(1) 2(1) this] f have "authored ?q (f_name ?f, snd k, d)" by (auto simp: authored_def)
    with credits_submit [OF 2(2)] ok Some assms(2) show ?thesis by (auto simp: credited_def)
  qed
qed

lemma credited_start:
  assumes "credited c"
  shows "credited (fst (start_run now run_id q sc raw c))"
proof -
  obtain c' out where s: "start_run now run_id q sc raw c = (c', out)" by fastforce
  then show ?thesis
  proof (cases rule: start_cases)
    case (rejected e ids)
    with assms s show ?thesis by (auto simp: credited_def author_simps)
  next
    case (started snapshot m ids)
    have "validate_request_nodes q snapshot = Inr ()"
      using started(2) by (auto simp: check_start_def Let_def bind_result_eq_Inr split: if_splits)
    with s started(3) show ?thesis
      by (simp add: credited_def credits_def authors_def install_run_def new_result_def set_baseline_def Let_def)
  qed
qed

lemma ctl_step_credited:
  assumes "ctl_step ev g send allowed c c'" and "rng_ok g" and "credited c"
  shows "credited c'"
  using assms
proof (cases rule: ctl_step.cases)
  case (turn rt now w rt' w' out)
  from credited_turn [OF assms(2,3) turn(3,4)] show ?thesis by blast
next
  case (finish_begin now)
  with assms(3) show ?thesis by (blast intro: credited_same credits_finish_begin)
next
  case (start now run_id q sc raw)
  with assms(3) show ?thesis by (simp add: credited_start)
qed (use assms(3) in \<open>simp_all add: credited_same author_simps\<close>)

lemma ctl_reachable_credited:
  assumes "ctl_reachable ev g send allowed c" and "rng_ok g"
  shows "credited c"
  using assms
proof (induction rule: ctl_reachable.induct)
  case (new sc hw broker build settle has_sampler now)
  show ?case by (simp add: new_controller_def credited_def credits_def authors_def)
qed (blast intro: ctl_step_credited)

text \<open>
  C10. Every message of a run was written by the run's own request: it belongs to one of the request's
  flows, its source is a source of that flow, and it is addressed to all in a broadcast run and to
  another node in a direct one, whatever events, failures and restarts happen in between.
\<close>

theorem messages_belong_to_flows:
  assumes "ctl_reachable ev g send allowed c" and "rng_ok g" and "t_current c = Some r"
  shows "validate_request_nodes (r_request r) (t_run_scenario c) = Inr () \<and>
    list_all (\<lambda>m. (\<exists>f \<in> set (scheduling_flows (r_request r)). g_flow m = f_name f \<and> g_source_node m \<in> set (f_source_nodes f)) \<and>
      (if q_kind (r_request r) = BROADCAST_TEXT then g_destination_node m = ''broadcast''
       else g_destination_node m \<noteq> g_source_node m)) (r_generated_messages r)"
  using ctl_reachable_credited [OF assms(1,2)] assms(3)
  by (auto simp: credited_def credits_def authors_def list_all_iff authored_def byline_def split: if_splits)

lemma lab_requests:
  "t_current lab_started = Some r \<Longrightarrow> r_request r = relay_request"
  "t_current lab_busy = Some r \<Longrightarrow> r_request r = relay_request"
  "t_current lab_failed = Some r \<Longrightarrow> r_request r = relay_request"
proof -
  show started: "r_request r = relay_request" if "t_current lab_started = Some r" for r
    using lab_task_of [OF that] by (simp add: task_of_def lab_task_def begin_run_def Let_def)
  obtain r0 where r0: "t_current lab_started = Some r0"
    using lab_started_fields(2) ctl_reachable_lifecycle [OF lab_started_reachable] by (auto simp: lifecycle_def)
  show busy: "r_request r = relay_request" if "t_current lab_busy = Some r" for r
    using lab_busy_facts(4) that r0 started [OF r0] by (simp add: outline_def)
  let ?c = "snd (fail_begin ''node a exited'' lab_busy)"
  have "credits lab_failed = credits (case finish_begin 1 ?c of Some c \<Rightarrow> c | None \<Rightarrow> lab_started)"
    by (simp add: lab_failed_def author_simps)
  also have "\<dots> \<in> {credits lab_busy, credits lab_started}"
    using credits_finish_begin [of 1 ?c] by (auto simp: author_simps split: option.split)
  finally have "credits lab_failed \<in> {credits lab_busy, credits lab_started}" .
  moreover have req: "map_option fst (fst (credits c)) = map_option r_request (t_current c)" for c
    by (cases "t_current c") (simp_all add: credits_def authors_def)
  moreover obtain r1 where "t_current lab_busy = Some r1" using lab_busy_facts(4) r0 by (auto simp: outline_def)
  ultimately have "map_option r_request (t_current lab_failed) = Some relay_request"
    using r0 started busy by (metis insertE option.simps(9) singletonD)
  then show "r_request r = relay_request" if "t_current lab_failed = Some r" using that by simp
qed

lemma messages_belong_to_flows_witness:
  "\<exists>r m. t_current lab_busy = Some r \<and> r_generated_messages r = [m] \<and> g_destination_node m \<noteq> g_source_node m"
proof -
  have "t_current lab_busy \<noteq> None" using lab_busy_facts(2) by (auto simp: messages_def split: option.splits)
  then obtain r where r: "t_current lab_busy = Some r" by blast
  then obtain m where m: "r_generated_messages r = [m]" using lab_busy_facts(2) by (auto simp: messages_def length_Suc_conv)
  have "q_kind (r_request r) = DIRECT_TEXT" using lab_requests(2) [OF r] by (simp add: relay_request_def)
  with messages_belong_to_flows [OF lab_busy_facts(1) zero_rng_ok r] r m show ?thesis by simp
qed

end
