(* ===== verification/Result_Files.thy ===== *)
theory Result_Files
  imports Service_Laws Traffic_Results
begin

text \<open>
  The saved results of traffic runs: how \<^verbatim>\<open>TrafficController._freeze_and_persist\<close>
  (\<^verbatim>\<open>src/backend/app/traffic/controller.py\<close>) writes a terminal result and its summary through
  temporary files, and how the service finds them again. The directory is a map from file names to
  the documents in them; a document is the model it serializes, as parsing inverts printing, or torn.
  What each file operation does is an argument. The theorem says that a run is saved as a whole or
  not at all, and that what was saved is what the routes for results return.
\<close>

datatype document =
    Full_result run_result
  | Result_summary run_summary
  | Torn

type_synonym result_files = "string \<Rightarrow> document option"

text \<open>
  The outcome of each operation by file name: a write that raises leaves the file as it was
  or torn, a replacement is atomic, and an \<^verbatim>\<open>unlink\<close> that fails leaves its file.
\<close>

record disk =
  dk_mkdir :: "unit result"
  dk_write :: "string \<Rightarrow> unit result"
  dk_tears :: "string \<Rightarrow> bool"
  dk_replace :: "string \<Rightarrow> unit result"
  dk_unlinks :: "string \<Rightarrow> bool"

type_synonym file_step = "result_files \<Rightarrow> result_files \<times> unit result"

definition write_document :: "disk \<Rightarrow> string \<Rightarrow> document \<Rightarrow> file_step" where
  "write_document dk path doc files =
     (case dk_write dk path of
        Inr _ \<Rightarrow> (files(path := Some doc), Inr ())
      | Inl e \<Rightarrow> (if dk_tears dk path then files(path := Some Torn) else files, Inl e))"

definition replace_file :: "disk \<Rightarrow> string \<Rightarrow> string \<Rightarrow> file_step" where
  "replace_file dk source target files =
     (case dk_replace dk source of
        Inr _ \<Rightarrow> (files(target := files source, source := None), Inr ())
      | Inl e \<Rightarrow> (files, Inl e))"

definition unlink_file :: "disk \<Rightarrow> string \<Rightarrow> result_files \<Rightarrow> result_files" where
  "unlink_file dk path files = (if dk_unlinks dk path then files(path := None) else files)"

fun file_steps :: "file_step list \<Rightarrow> file_step" where
  "file_steps [] files = (files, Inr ())"
| "file_steps (st # sts) files = (case st files of (files', Inl e) \<Rightarrow> (files', Inl e) | (files', Inr _) \<Rightarrow> file_steps sts files')"

definition destination :: "string \<Rightarrow> string" where "destination run_id = run_id @ ''.json''"
definition summary_destination :: "string \<Rightarrow> string" where "summary_destination run_id = run_id @ ''.summary.json''"
definition temporary :: "string \<Rightarrow> string" where "temporary run_id = run_id @ ''.tmp''"
definition summary_temporary :: "string \<Rightarrow> string" where "summary_temporary run_id = run_id @ ''.summary.tmp''"

definition freeze_and_persist :: "disk \<Rightarrow> run_result \<Rightarrow> result_files \<Rightarrow> result_files \<times> run_result result" where
  "freeze_and_persist dk current files =
     (let run_id = r_run_id current in
      case file_steps
             [\<lambda>files. (files, dk_mkdir dk),
              write_document dk (temporary run_id) (Full_result current),
              write_document dk (summary_temporary run_id) (Result_summary (summarize_result current)),
              replace_file dk (temporary run_id) (destination run_id),
              replace_file dk (summary_temporary run_id) (summary_destination run_id)] files of
        (files', Inr _) \<Rightarrow> (files', Inr current)
      | (files', Inl e) \<Rightarrow>
          (fold (unlink_file dk) [temporary run_id, summary_temporary run_id, destination run_id, summary_destination run_id] files', Inl e))"

text \<open>The end of a run, with the outcome of the files in place of the text it raises.\<close>

definition persist_end :: "disk \<Rightarrow> run_result \<Rightarrow> controller \<Rightarrow> result_files \<Rightarrow> result_files \<times> controller" where
  "persist_end dk terminal c files =
     (case freeze_and_persist dk terminal files of
        (files', Inr _) \<Rightarrow> (files', finish_freeze None terminal c)
      | (files', Inl e) \<Rightarrow> (files', finish_freeze (Some (exc_text e)) terminal c))"

text \<open>What validating a file gives; a torn file or one of the other kind fails.\<close>

definition stored_of :: "result_files \<Rightarrow> string \<Rightarrow> run_result result option" where
  "stored_of files run_id = map_option (\<lambda>doc. case doc of Full_result r \<Rightarrow> Inr r | _ \<Rightarrow> Inl (ValueError ''TrafficRunResult'')) (files (destination run_id))"

definition stored_summary_of :: "result_files \<Rightarrow> string \<Rightarrow> run_summary result option" where
  "stored_summary_of files run_id =
     map_option (\<lambda>doc. case doc of Result_summary sm \<Rightarrow> Inr sm | _ \<Rightarrow> Inl (ValueError ''TrafficRunSummary'')) (files (summary_destination run_id))"

text \<open>\<^verbatim>\<open>dict.setdefault\<close>\<close>

definition set_default :: "'k \<Rightarrow> 'v \<Rightarrow> ('k, 'v) dict \<Rightarrow> ('k, 'v) dict" where
  "set_default k v d = (if dict_get d k = None then dict_set k v d else d)"

text \<open>\<^verbatim>\<open>migrate_legacy_provenance\<close> on the object of a result file; \<open>unavailable\<close> is the string as a JSON value.\<close>

definition migrate_legacy_provenance :: "'v \<Rightarrow> (string, 'v) dict \<Rightarrow> (string, 'v) dict" where
  "migrate_legacy_provenance unavailable values =
     (case dict_get values ''firmwareImageDigest'' of
        None \<Rightarrow> values
      | Some legacy_digest \<Rightarrow>
          fold (\<lambda>(k, v). set_default k v)
            [(''collisionPatchSha256'', unavailable), (''firmwareBinarySha256'', unavailable), (''buildArchitecture'', unavailable),
             (''upstreamBaseImageDigest'', legacy_digest)]
            (dict_pop ''firmwareImageDigest'' values))"

subsection \<open>Saving and finding\<close>

lemma paths_distinct:
  "distinct [temporary run_id, summary_temporary run_id, destination run_id, summary_destination run_id]"
  by (simp add: temporary_def summary_temporary_def destination_def summary_destination_def)

text \<open>
  A run is saved as a whole or not at all: either both documents are in place, or none of its files is left.
\<close>

lemma freeze_all_or_nothing:
  assumes "list_all (dk_unlinks dk) [temporary i, summary_temporary i, destination i, summary_destination i]" and "r_run_id r = i"
  shows "case freeze_and_persist dk r files of
      (files', Inr f) \<Rightarrow> f = r \<and> files' = files(destination i \<mapsto> Full_result r, summary_destination i \<mapsto> Result_summary (summarize_result r),
        temporary i := None, summary_temporary i := None)
    | (files', Inl e) \<Rightarrow> files' = files(temporary i := None, summary_temporary i := None, destination i := None, summary_destination i := None)"
  using assms paths_distinct [of i]
  by (auto simp: freeze_and_persist_def write_document_def replace_file_def unlink_file_def Let_def fun_upd_twist split: sum.split if_splits)

lemma finish_freeze_result:
  "t_frozen_result (finish_freeze err r c) = Some (case err of None \<Rightarrow> r | Some exc \<Rightarrow> persistence_failed exc r)"
  "t_current (finish_freeze err r c) = t_frozen_result (finish_freeze err r c)"
  by (simp_all add: finish_freeze_def Let_def split: option.split)

text \<open>
  C11. A finished run is saved as a whole or not at all, and what is saved is what is served. When the
  files of a run can be removed, the end of the run leaves either both documents, of
  exactly the result that the controller keeps, or no file of the run, and then the controller's
  result says that the run failed; the files of other runs are untouched. A service that no longer holds
  the run returns the saved result unchanged, and its summary is the one of that result; after
  a failed save it returns what it kept in memory, if anything.
\<close>

theorem saved_run_is_served:
  assumes "list_all (dk_unlinks dk) [temporary i, summary_temporary i, destination i, summary_destination i]"
    and "r_run_id r = i" and "current_matches i s = None"
  shows "case persist_end dk r c files of (files', c') \<Rightarrow> \<exists>f. t_frozen_result c' = Some f \<and>
    (if f = r
     then traffic_result (stored_of files') i s = Inr f \<and>
       traffic_summary (stored_of files') (stored_summary_of files') now i s = Inr (summarize_result f)
     else r_state f = Run_FAILED \<and> files' (destination i) = None \<and> files' (summary_destination i) = None \<and>
       traffic_result (stored_of files') i s =
         (case dict_get (sv_volatile_results s) i of Some v \<Rightarrow> Inr v | None \<Rightarrow> Inl (FileNotFoundError i))) \<and>
    files' (temporary i) = None \<and> files' (summary_temporary i) = None \<and>
    (\<forall>path. path \<notin> {temporary i, summary_temporary i, destination i, summary_destination i} \<longrightarrow> files' path = files path)"
proof -
  obtain files' out where fp: "freeze_and_persist dk r files = (files', out)" by (cases "freeze_and_persist dk r files")
  note all = freeze_all_or_nothing [OF assms(1,2), of files] and d = paths_distinct [of i]
  show ?thesis
  proof (cases out)
    case (Inr f)
    with all fp have files': "files' = files(destination i \<mapsto> Full_result r, summary_destination i \<mapsto> Result_summary (summarize_result r),
        temporary i := None, summary_temporary i := None)" by simp
    have "stored_of files' i = Some (Inr r)" "stored_summary_of files' i = Some (Inr (summarize_result r))"
      using d by (auto simp: stored_of_def stored_summary_of_def files')
    then have "traffic_result (stored_of files') i s = Inr r"
      "traffic_summary (stored_of files') (stored_summary_of files') now i s = Inr (summarize_result r)"
      by (simp_all add: traffic_result_def traffic_summary_def saved_result_def assms(3))
    then show ?thesis using d by (auto simp: persist_end_def fp Inr finish_freeze_result files')
  next
    case (Inl e)
    with all fp have files': "files' = files(temporary i := None, summary_temporary i := None, destination i := None, summary_destination i := None)"
      by simp
    have failed: "r_failure (persistence_failed (exc_text e) r) \<noteq> r_failure r"
      by (auto simp: persistence_failed_def Let_def split: option.splits list.splits)
    then have ne: "persistence_failed (exc_text e) r \<noteq> r" by metis
    have "stored_of files' i = None" using d by (auto simp: stored_of_def files')
    then have "traffic_result (stored_of files') i s =
         (case dict_get (sv_volatile_results s) i of Some v \<Rightarrow> Inr v | None \<Rightarrow> Inl (FileNotFoundError i))"
      by (simp add: traffic_result_def saved_result_def assms(3))
    moreover have "r_state (persistence_failed (exc_text e) r) = Run_FAILED" by (simp add: persistence_failed_def Let_def)
    ultimately show ?thesis using d ne by (auto simp: persist_end_def fp Inl finish_freeze_result files')
  qed
qed

text \<open>The result of the example run, saved on a disk that works.\<close>

lemma saved_run_is_served_witness:
  "\<exists>r files c. t_frozen_result lab_failed = Some r \<and>
     persist_end \<lparr>dk_mkdir = Inr (), dk_write = (\<lambda>_. Inr ()), dk_tears = (\<lambda>_. True), dk_replace = (\<lambda>_. Inr ()), dk_unlinks = (\<lambda>_. True)\<rparr>
       r lab_failed (\<lambda>_. None) = (files, c) \<and>
     traffic_result (stored_of files) (r_run_id r) lab_service = Inr r \<and>
     traffic_summary (stored_of files) (stored_summary_of files) 0 (r_run_id r) lab_service = Inr (summarize_result r) \<and>
     files (temporary (r_run_id r)) = None"
proof -
  let ?dk = "\<lparr>dk_mkdir = Inr (), dk_write = (\<lambda>_. Inr ()), dk_tears = (\<lambda>_. True), dk_replace = (\<lambda>_. Inr ()), dk_unlinks = (\<lambda>_. True)\<rparr>"
  obtain r where r: "t_frozen_result lab_failed = Some r" by (rule lab_failed_steps)
  obtain files c where p: "persist_end ?dk r lab_failed (\<lambda>_. None) = (files, c)" by (cases "persist_end ?dk r lab_failed (\<lambda>_. None)")
  then have "t_frozen_result c = Some r"
    by (auto simp: persist_end_def freeze_and_persist_def write_document_def replace_file_def Let_def finish_freeze_result)
  moreover have "list_all (dk_unlinks ?dk) [temporary (r_run_id r), summary_temporary (r_run_id r), destination (r_run_id r), summary_destination (r_run_id r)]"
    by simp
  moreover have "current_matches (r_run_id r) lab_service = None"
    by (simp add: current_matches_def lab_service_def new_service_def)
  ultimately show ?thesis using saved_run_is_served [where dk = ?dk and i = "r_run_id r" and r = r and s = lab_service and c = lab_failed and files = "\<lambda>_. None" and now = 0] r p by auto
qed

text \<open>An old result keeps every field it has and gets the missing ones, the old digest as that of the base image.\<close>

lemma set_default_get: "dict_get (set_default k v d) j = (if j = k \<and> dict_get d k = None then Some v else dict_get d j)"
  by (simp add: set_default_def dict_simps)

lemma migrated_fields:
  assumes "dict_get values ''firmwareImageDigest'' = Some legacy"
  shows "dict_get (migrate_legacy_provenance unavailable values) k =
    (if k = ''firmwareImageDigest'' then None
     else if dict_get values k \<noteq> None then dict_get values k
     else if k \<in> {''collisionPatchSha256'', ''firmwareBinarySha256'', ''buildArchitecture''} then Some unavailable
     else if k = ''upstreamBaseImageDigest'' then Some legacy else None)"
proof -
  have "dict_get (dict_pop ''firmwareImageDigest'' values) j = (if j = ''firmwareImageDigest'' then None else dict_get values j)" for j
    by (simp add: dict_simps)
  note get = set_default_get this
  have "migrate_legacy_provenance unavailable values =
      set_default ''upstreamBaseImageDigest'' legacy (set_default ''buildArchitecture'' unavailable
        (set_default ''firmwareBinarySha256'' unavailable (set_default ''collisionPatchSha256'' unavailable
          (dict_pop ''firmwareImageDigest'' values))))"
    by (simp add: migrate_legacy_provenance_def assms)
  then show ?thesis unfolding get by (simp add: get)
qed

lemma current_fields_kept: "dict_get values ''firmwareImageDigest'' = None \<Longrightarrow> migrate_legacy_provenance unavailable values = values"
  by (simp add: migrate_legacy_provenance_def)

end
