(* ===== verification/Bench.thy ===== *)
theory Bench
  imports Traffic_Outcome Log_Files
begin

text \<open>
  The capacity experiments, \<^verbatim>\<open>src/experiments/run_system_bench.py\<close>: the declarative
  workloads and the built-in experiments, the scenarios they start, the loops that poll the service,
  the summaries of resources, flows and trials, and the selection that \<^verbatim>\<open>main\<close> runs. What the
  service answers is the argument of each loop, as the list of the answers that come before the
  deadline; a list that ends before the loop does is the deadline. Docker, files and printing are
  left out. Results are typed records: every field that the script looks up is present in a
  result that the service exports.
\<close>

subsection \<open>Definitions of experiments\<close>

record resource_sample =
  rs_monotonic_seconds :: pyfloat
  rs_cpu_percent :: pyfloat
  rs_memory :: "nat list"
  rs_pids :: int

record bench_experiment =
  ex_name :: string
  ex_request :: traffic_request
  ex_link_schedule :: "(pyfloat \<times> directed_link) list"
  ex_repetitions :: nat

definition TRAFFIC_WAIT_GRACE_SECONDS :: pyfloat where "TRAFFIC_WAIT_GRACE_SECONDS = 30"

definition TERMINAL_TRAFFIC_STATES :: "string set" where
  "TERMINAL_TRAFFIC_STATES = {''COMPLETED'', ''FAILED'', ''CANCELLED''}"

definition run_state_text :: "run_state \<Rightarrow> string" where
  "run_state_text s =
     (case s of Run_IDLE \<Rightarrow> ''IDLE'' | Run_RUNNING \<Rightarrow> ''RUNNING'' | Run_STOPPING \<Rightarrow> ''STOPPING''
      | Run_COMPLETED \<Rightarrow> ''COMPLETED'' | Run_CANCELLED \<Rightarrow> ''CANCELLED'' | Run_FAILED \<Rightarrow> ''FAILED'')"

definition source_timing_text :: "source_timing \<Rightarrow> string" where
  "source_timing_text t =
     (case t of ALIGNED \<Rightarrow> ''aligned'' | EVENLY_STAGGERED \<Rightarrow> ''evenly-staggered''
      | DETERMINISTIC_JITTER \<Rightarrow> ''deterministic-jitter'')"

definition topology_text :: "topology_preset \<Rightarrow> string" where
  "topology_text t = (case t of FULL_MESH \<Rightarrow> ''full-mesh'' | LINE \<Rightarrow> ''line'' | STAR \<Rightarrow> ''star'' | ALL_ISOLATED \<Rightarrow> ''all-isolated'')"

record workload_settings =
  ws_node_count :: int
  ws_topology :: topology_preset
  ws_region :: string
  ws_frequency_slot :: int
  ws_hop_limit :: int
  ws_fresh_state :: bool

record workload =
  wl_name :: string
  wl_scenario :: workload_settings
  wl_modem_presets :: "string list"
  wl_traffic :: traffic_request
  wl_trials :: int

text \<open>The constraints of the fields; the region is not constrained here.\<close>

definition check_workload_settings :: "workload_settings \<Rightarrow> workload_settings result" where
  "check_workload_settings w =
     (if \<not> in_range 2 10 (ws_node_count w) then Inl (ValueError ''nodeCount'')
      else if \<not> in_range 0 255 (ws_frequency_slot w) then Inl (ValueError ''frequencySlot'')
      else if \<not> in_range 1 7 (ws_hop_limit w) then Inl (ValueError ''hopLimit'')
      else Inr w)"

text \<open>The pattern \<^verbatim>\<open>^[a-z0-9][a-z0-9-]{0,63}$\<close>.\<close>

definition workload_name_ok :: "string \<Rightarrow> bool" where
  "workload_name_ok s = (case codes s of [] \<Rightarrow> False
     | c # cs \<Rightarrow> id_char c \<and> length cs \<le> 63 \<and> list_all (\<lambda>c. id_char c \<or> c = 45) cs)"

definition validate_modem_presets :: "(string \<Rightarrow> bool) \<Rightarrow> string list \<Rightarrow> string list result" where
  "validate_modem_presets known vs =
     (if card (set vs) \<noteq> length vs then Inl (ValueError ''modemPresets must be unique'')
      else bind_result (traverse_result (\<lambda>v. check_rf known (default_rf\<lparr>rf_modem_preset := v\<rparr>)) vs) (\<lambda>_. Inr vs))"

definition check_workload :: "(string \<Rightarrow> bool) \<Rightarrow> workload \<Rightarrow> workload result" where
  "check_workload known w =
     (if \<not> workload_name_ok (wl_name w) then Inl (ValueError ''name'')
      else bind_result (check_workload_settings (wl_scenario w)) (\<lambda>_.
        if \<not> in_range 1 9 (int (length (wl_modem_presets w))) then Inl (ValueError ''modemPresets'')
        else bind_result (validate_modem_presets known (wl_modem_presets w)) (\<lambda>_.
          bind_result (check_request (wl_traffic w)) (\<lambda>_.
            if \<not> in_range 1 10 (wl_trials w) then Inl (ValueError ''trials'') else Inr w))))"

subsection \<open>Scenarios\<close>

text \<open>\<^verbatim>\<open>str.lower()\<close> and \<^verbatim>\<open>str.replace("_", "-")\<close> on the names of presets, which are ASCII.\<close>

definition lower_char :: "char \<Rightarrow> char" where
  "lower_char c = (let n = of_char c :: nat in if 65 \<le> n \<and> n \<le> 90 then char_of (n + 32) else c)"

definition preset_slug :: "string \<Rightarrow> string" where
  "preset_slug preset = map (\<lambda>c. if c = CHR ''_'' then CHR ''-'' else c) (map lower_char preset)"

text \<open>The assignments to the attributes are not validated by the models.\<close>

definition bench_scenario :: "(string \<Rightarrow> bool) \<Rightarrow> int \<Rightarrow> topology_preset \<Rightarrow> string \<Rightarrow> scenario result" where
  "bench_scenario known node_count topology preset =
     bind_result (default_scenario known node_count) (\<lambda>sc0.
     bind_result (apply_topology_preset sc0 topology) (\<lambda>sc.
       Inr (sc\<lparr>sc_name := ''bench-'' @ show_int node_count @ ''-'' @ topology_text topology @ ''-'' @ map lower_char preset,
               sc_rf := (sc_rf sc)\<lparr>rf_modem_preset := preset\<rparr>\<rparr>)))"

definition workload_scenario :: "(string \<Rightarrow> bool) \<Rightarrow> workload \<Rightarrow> string \<Rightarrow> scenario result" where
  "workload_scenario known w preset =
     (let settings = wl_scenario w in
      bind_result (default_scenario known (ws_node_count settings)) (\<lambda>sc0.
      bind_result (apply_topology_preset sc0 (ws_topology settings)) (\<lambda>sc.
      bind_result (check_rf known \<lparr>rf_region = ws_region settings, rf_modem_preset = preset,
          rf_frequency_slot = ws_frequency_slot settings, rf_hop_limit = ws_hop_limit settings, rf_collision_mode = NATIVE\<rparr>) (\<lambda>rf.
        Inr (sc\<lparr>sc_name := wl_name w @ ''-'' @ preset_slug preset, sc_rf := rf, sc_fresh_state := ws_fresh_state settings\<rparr>)))))"

subsection \<open>Waiting for the service\<close>

text \<open>
  The answers of the status route: the field \<^verbatim>\<open>state\<close> of the body, or the exception of a failed request.
  \<open>render\<close> prints the last body for an error message.
\<close>

fun wait_for_state :: "(string option \<Rightarrow> string) \<Rightarrow> string \<Rightarrow> string option result list \<Rightarrow> string result" where
  "wait_for_state render expected [] = Inl TimeoutError"
| "wait_for_state render expected (Inl e # polls) = Inl e"
| "wait_for_state render expected (Inr st # polls) =
     (if st = Some expected then Inr expected
      else if st = Some ''FAILED''
      then Inl (RuntimeError (''simulation failed while waiting for '' @ expected @ '': '' @ render st))
      else wait_for_state render expected polls)"

subsection \<open>Resources\<close>

text \<open>
  One sample of \<^verbatim>\<open>docker stats\<close>: \<open>None\<close> is the timeout of the command; an answer has the return
  code and the standard output. \<open>st_space\<close> is \<^verbatim>\<open>str.isspace\<close>; \<open>st_float\<close> and \<open>st_int\<close> parse
  numbers, \<open>None\<close> is their exception.
\<close>

definition strip_spaces :: "(nat \<Rightarrow> bool) \<Rightarrow> nat list \<Rightarrow> nat list" where
  "strip_spaces space cs = rev (dropWhile space (rev (dropWhile space cs)))"

definition strip_percent :: "nat list \<Rightarrow> nat list" where
  "strip_percent cs = rev (dropWhile (\<lambda>c. c = 37) (rev cs))"

record stats_text =
  st_space :: "nat \<Rightarrow> bool"
  st_float :: "nat list \<Rightarrow> pyfloat option"
  st_int :: "nat list \<Rightarrow> int option"

definition sample_of :: "stats_text \<Rightarrow> pyfloat \<Rightarrow> (int \<times> nat list) option \<Rightarrow> resource_sample option result" where
  "sample_of txt elapsed answer =
     (case answer of
        None \<Rightarrow> Inr None
      | Some (returncode, stdout) \<Rightarrow>
          (let fields = split_max (length stdout) 124 (strip_spaces (st_space txt) stdout) in
           if returncode \<noteq> 0 \<or> length fields \<noteq> 3 then Inr None
           else case st_float txt (strip_percent (fields ! 0)) of
             None \<Rightarrow> Inl (ValueError ''could not convert string to float'')
           | Some cpu \<Rightarrow>
               (case st_int txt (fields ! 2) of
                  None \<Rightarrow> Inl (ValueError ''invalid literal for int() with base 10'')
                | Some pids \<Rightarrow> Inr (Some \<lparr>rs_monotonic_seconds = elapsed, rs_cpu_percent = cpu, rs_memory = fields ! 1, rs_pids = pids\<rparr>))))"

text \<open>The turns of the sampler until it is stopped: the clock reading and the answer of each.\<close>

type_synonym stats_answers = "(pyfloat \<times> (int \<times> nat list) option) list"

fun sample_resources :: "stats_text \<Rightarrow> stats_answers \<Rightarrow> resource_sample list result" where
  "sample_resources txt [] = Inr []"
| "sample_resources txt ((elapsed, answer) # turns) =
     bind_result (sample_of txt elapsed answer) (\<lambda>s. bind_result (sample_resources txt turns) (\<lambda>ss.
       Inr (case s of None \<Rightarrow> ss | Some x \<Rightarrow> x # ss)))"

text \<open>The sampler is awaited whether or not the operation succeeded, so its exception comes first.\<close>

definition timed_resource_capture :: "stats_text \<Rightarrow> stats_answers \<Rightarrow> pyfloat \<Rightarrow> 'a result \<Rightarrow>
    ('a \<times> resource_sample list \<times> pyfloat) result" where
  "timed_resource_capture txt turns elapsed operation =
     bind_result (sample_resources txt turns) (\<lambda>samples. bind_result operation (\<lambda>r. Inr (r, samples, elapsed)))"

record resource_summary =
  su_samples :: int
  su_peak_cpu_percent :: "pyfloat option"
  su_peak_pids :: "int option"
  su_last_memory :: "nat list option"
  su_raw :: "resource_sample list"

definition py_max :: "'a :: linorder list \<Rightarrow> 'a option" where
  "py_max xs = (case xs of [] \<Rightarrow> None | y # ys \<Rightarrow> Some (foldl max y ys))"

definition py_min_value :: "'a :: linorder list \<Rightarrow> 'a option" where
  "py_min_value xs = (case xs of [] \<Rightarrow> None | y # ys \<Rightarrow> Some (foldl min y ys))"

definition summarize_resources :: "resource_sample list \<Rightarrow> resource_summary" where
  "summarize_resources samples =
     \<lparr>su_samples = int (length samples), su_peak_cpu_percent = py_max (map rs_cpu_percent samples),
      su_peak_pids = py_max (map rs_pids samples),
      su_last_memory = (if samples = [] then None else Some (rs_memory (last samples))), su_raw = samples\<rparr>"

subsection \<open>Starting a scenario\<close>

text \<open>The answers to the requests of one start; a node view stands for its id.\<close>

record start_answers =
  sa_stop_sent :: "unit result"
  sa_stop_polls :: "string option result list"
  sa_replaced :: "unit result"
  sa_started :: "unit result"
  sa_run_polls :: "string option result list"
  sa_stats :: stats_answers
  sa_elapsed :: pyfloat
  sa_nodes :: "string list result"

record startup =
  sp_scenario :: string
  sp_startup_seconds :: pyfloat
  sp_state :: string
  sp_nodes :: "string list"
  sp_resources :: resource_summary

definition start_scenario :: "stats_text \<Rightarrow> (string option \<Rightarrow> string) \<Rightarrow> scenario \<Rightarrow> start_answers \<Rightarrow> startup result" where
  "start_scenario txt render definition_of a =
     bind_result (sa_stop_sent a) (\<lambda>_. bind_result (wait_for_state render ''STOPPED'' (sa_stop_polls a)) (\<lambda>_.
     bind_result (sa_replaced a) (\<lambda>_.
     bind_result (timed_resource_capture txt (sa_stats a) (sa_elapsed a)
         (bind_result (sa_started a) (\<lambda>_. wait_for_state render ''RUNNING'' (sa_run_polls a)))) (\<lambda>(st, samples, elapsed).
     bind_result (sa_nodes a) (\<lambda>ns.
       Inr \<lparr>sp_scenario = sc_name definition_of, sp_startup_seconds = elapsed, sp_state = st, sp_nodes = ns,
            sp_resources = summarize_resources samples\<rparr>)))))"

subsection \<open>One run\<close>

text \<open>
  The link changes of an experiment: the seconds to sleep before each, for the clock readings
  \<open>nows\<close>, and what is sent until an answer raises.
\<close>

fun apply_link_schedule :: "pyfloat \<Rightarrow> (pyfloat \<times> directed_link) list \<Rightarrow> (pyfloat \<times> unit result) list \<Rightarrow>
    (pyfloat \<times> directed_link) list \<times> unit result" where
  "apply_link_schedule started ((offset, l) # changes) ((now, answer) # answers) =
     (let pause = max 0 (fsub (fadd started offset) now) in
      case answer of
        Inl e \<Rightarrow> ([(pause, l)], Inl e)
      | Inr _ \<Rightarrow> (let (sent, out) = apply_link_schedule started changes answers in ((pause, l) # sent, out)))"
| "apply_link_schedule started _ _ = ([], Inr ())"

record status_sample =
  ss_elapsed_seconds :: pyfloat
  ss_state :: string
  ss_phase :: run_phase
  ss_requested :: int
  ss_submitted :: int
  ss_pending_firmware_admissions :: int
  ss_unresolved_direct_messages :: int
  ss_drain_remaining :: "pyfloat option"

text \<open>\<^verbatim>\<open>round(x, n)\<close>: the double nearest to the decimal with \<open>n\<close> digits nearest to \<open>x\<close>.\<close>

definition py_round :: "nat \<Rightarrow> pyfloat \<Rightarrow> pyfloat" where
  "py_round n x = fl (of_int (round_half_even (x * 10 ^ n)) / 10 ^ n)"

text \<open>The polls of a run: the seconds since the wait began, and the answer before it is rounded.\<close>

fun wait_for_traffic :: "(pyfloat \<times> status_sample result) list \<Rightarrow> status_sample list \<times> status_sample result" where
  "wait_for_traffic [] = ([], Inl TimeoutError)"
| "wait_for_traffic ((elapsed, Inl e) # polls) = ([], Inl e)"
| "wait_for_traffic ((elapsed, Inr m) # polls) =
     (let sample = m\<lparr>ss_elapsed_seconds := py_round 3 elapsed, ss_drain_remaining := map_option (py_round 1) (ss_drain_remaining m)\<rparr>
      in if ss_state m \<in> TERMINAL_TRAFFIC_STATES then ([sample], Inr m)
         else let (samples, out) = wait_for_traffic polls in (sample # samples, out))"

definition traffic_wait_deadline :: "traffic_request \<Rightarrow> pyfloat result" where
  "traffic_wait_deadline request =
     bind_result (check_request request) (\<lambda>validated.
       let offsets = map (\<lambda>f. if f_source_timing f = ALIGNED then 0 else fdiv 60 (f_messages_per_minute f)) (scheduling_flows validated)
       in case py_max offsets of
            None \<Rightarrow> Inl (ValueError ''max() iterable argument is empty'')
          | Some maximum_phase_offset \<Rightarrow>
              Inr (fadd (fadd (fadd (q_duration_seconds validated) maximum_phase_offset) MAX_DRAIN_SECONDS) TRAFFIC_WAIT_GRACE_SECONDS))"

subsection \<open>Flows\<close>

record flow_summary =
  fw_source_nodes :: "string list"
  fw_source_count :: int
  fw_messages_per_minute :: pyfloat
  fw_interval_seconds :: pyfloat
  fw_destination_strategy :: destination_strategy
  fw_fixed_destination :: "string option"
  fw_source_timing :: source_timing
  fw_requested :: int
  fw_submitted :: int
  fw_submission_failed :: int
  fw_transmitted :: int
  fw_delivered :: int
  fw_acknowledged :: int
  fw_admission_ratio :: "pyfloat option"
  fw_delivery_ratio :: "pyfloat option"
  fw_on_time_deliveries :: int
  fw_on_time_delivery_ratio :: "pyfloat option"
  fw_acknowledgment_success_ratio :: "pyfloat option"
  fw_median_latency_ms :: "pyfloat option"
  fw_p95_latency_ms :: "pyfloat option"
  fw_maximum_latency_ms :: "pyfloat option"

definition flow_delivered :: "generated_message \<Rightarrow> bool" where
  "flow_delivered m \<longleftrightarrow>
     (if g_destination_node m = ''broadcast'' then list_ex (\<lambda>r. r \<noteq> g_source_node m) (g_delivered_to m)
      else g_destination_node m \<in> set (g_delivered_to m))"

definition ratio_of :: "int \<Rightarrow> int \<Rightarrow> pyfloat option" where
  "ratio_of a b = (if b = 0 then None else Some (int_truediv a b))"

definition flow_latencies :: "generated_message list \<Rightarrow> pyfloat list" where
  "flow_latencies ms = concat (map (\<lambda>m. case g_latency_ms m of None \<Rightarrow> [] | Some x \<Rightarrow> [x]) (filter flow_delivered ms))"

definition flow_summary_of :: "bool \<Rightarrow> traffic_flow \<Rightarrow> generated_message list \<Rightarrow> flow_summary result" where
  "flow_summary_of acknowledgments_expected f ms =
     (let submitted = filter g_submitted ms;
          latencies = flow_latencies ms;
          requested_count = int (length ms);
          submitted_count = int (length submitted);
          interval_seconds = fdiv 60 (f_messages_per_minute f);
          on_time = count_if (\<lambda>x. x \<le> fmul interval_seconds 1000) latencies
      in bind_result (percentile latencies (1 / 2) 1) (\<lambda>p50.
         bind_result (percentile latencies (fl (95 / 100)) 20) (\<lambda>p95.
         Inr \<lparr>fw_source_nodes = f_source_nodes f, fw_source_count = int (length (f_source_nodes f)),
           fw_messages_per_minute = f_messages_per_minute f, fw_interval_seconds = interval_seconds,
           fw_destination_strategy = f_destination_strategy f, fw_fixed_destination = f_fixed_destination f,
           fw_source_timing = f_source_timing f, fw_requested = requested_count, fw_submitted = submitted_count,
           fw_submission_failed = count_if (\<lambda>m. g_submission_error m \<noteq> None) ms,
           fw_transmitted = count_if g_transmitted ms, fw_delivered = int (length (filter flow_delivered ms)),
           fw_acknowledged = count_if g_acknowledged ms,
           fw_admission_ratio = ratio_of submitted_count requested_count,
           fw_delivery_ratio = ratio_of (int (length (filter flow_delivered ms))) requested_count,
           fw_on_time_deliveries = on_time, fw_on_time_delivery_ratio = ratio_of on_time requested_count,
           fw_acknowledgment_success_ratio =
             (if acknowledgments_expected then ratio_of (count_if g_acknowledged submitted) submitted_count else None),
           fw_median_latency_ms = p50, fw_p95_latency_ms = p95, fw_maximum_latency_ms = py_max latencies\<rparr>)))"

definition summarize_flows :: "run_result \<Rightarrow> (string, flow_summary) dict result" where
  "summarize_flows r =
     (let request = r_request r;
          acknowledgments_expected = (q_kind request = DIRECT_TEXT \<and> q_acknowledgment_requested request);
          definitions = dict_of (map (\<lambda>f. (f_name f, f)) (scheduling_flows request)) []
      in traverse_result (\<lambda>(name, f).
           bind_result (flow_summary_of acknowledgments_expected f (filter (\<lambda>m. g_flow m = name) (r_generated_messages r)))
             (\<lambda>s. Inr (name, s))) definitions)"

subsection \<open>Trials\<close>

record artifact =
  ar_name :: string
  ar_experiment :: string
  ar_trial :: nat
  ar_elapsed_seconds :: pyfloat
  ar_resources :: resource_summary
  ar_status_samples :: "status_sample list"
  ar_result :: run_result
  ar_flows :: "(string, flow_summary) dict"

text \<open>The answers that one run gets, and those of the sampler of its resources.\<close>

record run_answers =
  ra_posted :: "unit result"
  ra_polls :: "(pyfloat \<times> status_sample result) list"
  ra_stats :: stats_answers
  ra_elapsed :: pyfloat
  ra_links :: "unit result"
  ra_exported :: "run_result result"

definition artifact_name :: "bench_experiment \<Rightarrow> nat \<Rightarrow> string" where
  "artifact_name ex trial = (if ex_repetitions ex = 1 then ex_name ex else ex_name ex @ ''-r'' @ show_nat trial)"

text \<open>A failure of the wait cancels the link changes; their own failure is seen once the wait is over.\<close>

definition run_experiment :: "stats_text \<Rightarrow> bench_experiment \<Rightarrow> nat \<Rightarrow> run_answers \<Rightarrow> artifact result" where
  "run_experiment txt ex trial a =
     bind_result (ra_posted a) (\<lambda>_. bind_result (traffic_wait_deadline (ex_request ex)) (\<lambda>_.
     bind_result (timed_resource_capture txt (ra_stats a) (ra_elapsed a) (snd (wait_for_traffic (ra_polls a))))
       (\<lambda>(_, samples, elapsed).
     bind_result (ra_links a) (\<lambda>_. bind_result (ra_exported a) (\<lambda>exported.
     bind_result (summarize_flows exported) (\<lambda>flows.
       Inr \<lparr>ar_name = artifact_name ex trial, ar_experiment = ex_name ex, ar_trial = trial, ar_elapsed_seconds = elapsed,
            ar_resources = summarize_resources samples, ar_status_samples = fst (wait_for_traffic (ra_polls a)),
            ar_result = exported, ar_flows = flows\<rparr>))))))"

text \<open>\<^verbatim>\<open>statistics.median\<close>\<close>

definition median_of :: "pyfloat list \<Rightarrow> pyfloat" where
  "median_of xs =
     (let ys = sort xs; n = length ys; i = n div 2
      in if odd n then ys ! i else fdiv (fadd (ys ! (i - 1)) (ys ! i)) 2)"

record distribution =
  di_median :: pyfloat
  di_minimum :: pyfloat
  di_maximum :: pyfloat

definition completed_artifacts :: "artifact list \<Rightarrow> artifact list" where
  "completed_artifacts as = filter (\<lambda>a. run_state_text (r_state (ar_result a)) = ''COMPLETED'') as"

text \<open>The values of one path in the completed artifacts; a path that is absent or null has none.\<close>

definition trial_values :: "(artifact \<Rightarrow> pyfloat option) \<Rightarrow> artifact list \<Rightarrow> pyfloat list" where
  "trial_values path as = concat (map (\<lambda>a. case path a of None \<Rightarrow> [] | Some x \<Rightarrow> [x]) (completed_artifacts as))"

definition distribution_of :: "(artifact \<Rightarrow> pyfloat option) \<Rightarrow> artifact list \<Rightarrow> distribution option" where
  "distribution_of path as =
     (case (py_min_value (trial_values path as), py_max (trial_values path as)) of
        (Some lo, Some hi) \<Rightarrow> Some \<lparr>di_median = median_of (trial_values path as), di_minimum = lo, di_maximum = hi\<rparr>
      | _ \<Rightarrow> None)"

definition of_count :: "(artifact \<Rightarrow> int) \<Rightarrow> artifact \<Rightarrow> pyfloat option" where
  "of_count f a = Some (float_of_int (f a))"

definition of_flow :: "string \<Rightarrow> (flow_summary \<Rightarrow> pyfloat option) \<Rightarrow> artifact \<Rightarrow> pyfloat option" where
  "of_flow name f a = Option.bind (dict_get (ar_flows a) name) f"

record flow_distributions =
  fd_requested :: "distribution option"
  fd_admission_ratio :: "distribution option"
  fd_delivery_ratio :: "distribution option"
  fd_on_time_delivery_ratio :: "distribution option"
  fd_acknowledgment_success_ratio :: "distribution option"
  fd_median_latency_ms :: "distribution option"
  fd_p95_latency_ms :: "distribution option"
  fd_maximum_latency_ms :: "distribution option"

record trial_summary =
  tr_name :: string
  tr_trials :: int
  tr_completed_trials :: int
  tr_incomplete_trials :: int
  tr_terminal_state_counts :: "(string, int) dict"
  tr_failed_reception_metrics_complete_trials :: int
  tr_source_timing :: string
  tr_submitted :: "distribution option"
  tr_unique_delivered :: "distribution option"
  tr_receiver_delivery_ratio :: "distribution option"
  tr_median_latency_ms :: "distribution option"
  tr_p95_latency_ms :: "distribution option"
  tr_rf_transmissions :: "distribution option"
  tr_observed_airtime_ms :: "distribution option"
  tr_elapsed_seconds :: "distribution option"
  tr_peak_cpu_percent :: "distribution option"
  tr_flows :: "(string, flow_distributions) dict"

definition experiment_timing :: "traffic_request \<Rightarrow> string" where
  "experiment_timing q =
     (let flow_timings = set (map f_source_timing (q_flows q))
      in if card flow_timings = 1 then source_timing_text (f_source_timing (hd (q_flows q)))
         else if flow_timings \<noteq> {} then ''mixed'' else source_timing_text (q_source_timing q))"

definition flow_distributions_of :: "artifact list \<Rightarrow> string \<Rightarrow> flow_distributions" where
  "flow_distributions_of as name =
     \<lparr>fd_requested = distribution_of (of_flow name (\<lambda>f. Some (float_of_int (fw_requested f)))) as,
      fd_admission_ratio = distribution_of (of_flow name fw_admission_ratio) as,
      fd_delivery_ratio = distribution_of (of_flow name fw_delivery_ratio) as,
      fd_on_time_delivery_ratio = distribution_of (of_flow name fw_on_time_delivery_ratio) as,
      fd_acknowledgment_success_ratio = distribution_of (of_flow name fw_acknowledgment_success_ratio) as,
      fd_median_latency_ms = distribution_of (of_flow name fw_median_latency_ms) as,
      fd_p95_latency_ms = distribution_of (of_flow name fw_p95_latency_ms) as,
      fd_maximum_latency_ms = distribution_of (of_flow name fw_maximum_latency_ms) as\<rparr>"

definition summarize_trials :: "bench_experiment \<Rightarrow> artifact list \<Rightarrow> trial_summary" where
  "summarize_trials ex as =
     (let done = completed_artifacts as in
      \<lparr>tr_name = ex_name ex, tr_trials = int (length as), tr_completed_trials = int (length done),
       tr_incomplete_trials = int (length as) - int (length done),
       tr_terminal_state_counts = sort_key fst (counter_of (map (\<lambda>a. run_state_text (r_state (ar_result a))) as)),
       tr_failed_reception_metrics_complete_trials = count_if (\<lambda>a. r_failed_reception_metrics_complete (ar_result a)) done,
       tr_source_timing = experiment_timing (ex_request ex),
       tr_submitted = distribution_of (of_count (\<lambda>a. r_submitted (ar_result a))) as,
       tr_unique_delivered = distribution_of (of_count (\<lambda>a. r_delivered (ar_result a))) as,
       tr_receiver_delivery_ratio = distribution_of (\<lambda>a. m_receiver_delivery_ratio (r_metrics (ar_result a))) as,
       tr_median_latency_ms = distribution_of (\<lambda>a. m_median_latency_ms (r_metrics (ar_result a))) as,
       tr_p95_latency_ms = distribution_of (\<lambda>a. m_p95_latency_ms (r_metrics (ar_result a))) as,
       tr_rf_transmissions = distribution_of (of_count (\<lambda>a. m_rf_transmissions (r_metrics (ar_result a)))) as,
       tr_observed_airtime_ms = distribution_of (of_count (\<lambda>a. m_observed_airtime_ms (r_metrics (ar_result a)))) as,
       tr_elapsed_seconds = distribution_of (\<lambda>a. Some (ar_elapsed_seconds a)) as,
       tr_peak_cpu_percent = distribution_of (\<lambda>a. su_peak_cpu_percent (ar_resources a)) as,
       tr_flows = map (\<lambda>name. (name, flow_distributions_of as name))
         (sorted_list_of_set (\<Union>a \<in> set done. fst ` set (ar_flows a)))\<rparr>)"

subsection \<open>The built-in experiments\<close>

type_synonym bench_group = "scenario \<times> bench_experiment list"

definition bench_link :: "string \<Rightarrow> string \<Rightarrow> bool \<Rightarrow> directed_link" where
  "bench_link s t on = \<lparr>from_node = s, to_node = t, enabled = on, rssi_dbm = - 85, snr_db = 8\<rparr>"

definition sources_10 :: "string list" where
  "sources_10 = map (\<lambda>index. ''node-'' @ show_nat index) [1 ..< 11]"

text \<open>The fields in which the requests of the built-in experiments differ.\<close>

definition broadcast_request :: "string list \<Rightarrow> pyfloat \<Rightarrow> int \<Rightarrow> pyfloat \<Rightarrow> source_timing \<Rightarrow> int \<Rightarrow> traffic_request" where
  "broadcast_request sources rate octets duration timing seed =
     \<lparr>q_kind = BROADCAST_TEXT, q_source_nodes = sources, q_destination_strategy = FIXED, q_fixed_destination = None,
      q_messages_per_minute = rate, q_payload_bytes = octets, q_duration_seconds = duration,
      q_acknowledgment_requested = False, q_source_timing = timing, q_flows = [], q_seed = seed\<rparr>"

definition direct_request :: "pyfloat \<Rightarrow> int \<Rightarrow> traffic_request" where
  "direct_request duration seed =
     \<lparr>q_kind = DIRECT_TEXT, q_source_nodes = [''node-1''], q_destination_strategy = FIXED, q_fixed_destination = Some ''node-5'',
      q_messages_per_minute = 3, q_payload_bytes = 64, q_duration_seconds = duration,
      q_acknowledgment_requested = True, q_source_timing = ALIGNED, q_flows = [], q_seed = seed\<rparr>"

definition plain_experiment :: "string \<Rightarrow> traffic_request \<Rightarrow> nat \<Rightarrow> bench_experiment" where
  "plain_experiment name q repetitions = \<lparr>ex_name = name, ex_request = q, ex_link_schedule = [], ex_repetitions = repetitions\<rparr>"

definition full_mesh_experiments :: "bench_experiment list" where
  "full_mesh_experiments =
     [plain_experiment ''long-fast-one-talker'' (broadcast_request [''node-1''] 6 64 21 ALIGNED 101) 3,
      plain_experiment ''long-fast-ten-talker-aligned'' (broadcast_request sources_10 3 64 21 ALIGNED 102) 3,
      plain_experiment ''long-fast-ten-talker-jittered'' (broadcast_request sources_10 3 64 21 DETERMINISTIC_JITTER 102) 3,
      plain_experiment ''long-fast-ingest-saturation'' (broadcast_request sources_10 600 200 10 ALIGNED 103) 1]"

definition short_fast_experiments :: "bench_experiment list" where
  "short_fast_experiments =
     [plain_experiment ''short-fast-ten-talker-aligned'' (broadcast_request sources_10 3 64 21 ALIGNED 102) 3,
      plain_experiment ''short-fast-ten-talker-jittered'' (broadcast_request sources_10 3 64 21 DETERMINISTIC_JITTER 102) 3]"

definition line_experiments :: "bench_experiment list" where
  "line_experiments =
     [plain_experiment ''long-fast-four-hop-direct'' (direct_request 21 104) 1,
      (plain_experiment ''long-fast-partition-recovery'' (direct_request 41 105) 1)
        \<lparr>ex_link_schedule :=
           [(12, bench_link ''node-3'' ''node-4'' False), (12, bench_link ''node-4'' ''node-3'' False),
            (32, bench_link ''node-3'' ''node-4'' True), (32, bench_link ''node-4'' ''node-3'' True)]\<rparr>]"

definition hidden_terminal_experiments :: "bench_experiment list" where
  "hidden_terminal_experiments =
     [plain_experiment ''long-fast-hidden-terminal'' (broadcast_request [''node-1'', ''node-3''] 60 200 5 ALIGNED 106) 1]"

text \<open>\<open>hidden_terminal\<close> is the content of \<^verbatim>\<open>scenarios/hidden-terminal.json\<close>.\<close>

definition builtin_groups :: "(string \<Rightarrow> bool) \<Rightarrow> scenario \<Rightarrow> bench_group list result" where
  "builtin_groups known hidden_terminal =
     bind_result (bench_scenario known 10 FULL_MESH ''LONG_FAST'') (\<lambda>long_fast.
     bind_result (bench_scenario known 10 FULL_MESH ''SHORT_FAST'') (\<lambda>short_fast.
     bind_result (bench_scenario known 5 LINE ''LONG_FAST'') (\<lambda>chain.
       Inr [(long_fast, full_mesh_experiments), (short_fast, short_fast_experiments), (chain, line_experiments),
            (hidden_terminal, hidden_terminal_experiments)])))"

subsection \<open>What \<^verbatim>\<open>main\<close> runs\<close>

text \<open>\<^verbatim>\<open>trials or default\<close>: zero counts as absent.\<close>

definition or_trials :: "nat option \<Rightarrow> nat \<Rightarrow> nat" where
  "or_trials trials n = (case trials of None \<Rightarrow> n | Some k \<Rightarrow> if k = 0 then n else k)"

definition workload_groups :: "(string \<Rightarrow> bool) \<Rightarrow> nat option \<Rightarrow> workload \<Rightarrow> bench_group list result" where
  "workload_groups known trials w =
     traverse_result (\<lambda>preset. bind_result (workload_scenario known w preset) (\<lambda>sc.
       Inr (sc, [plain_experiment (wl_name w @ ''-'' @ preset_slug preset) (wl_traffic w) (or_trials trials (nat (wl_trials w)))])))
       (wl_modem_presets w)"

definition filter_groups :: "string set option \<Rightarrow> nat option \<Rightarrow> bench_group list \<Rightarrow> bench_group list" where
  "filter_groups only trials groups =
     filter (\<lambda>g. snd g \<noteq> []) (map (\<lambda>(sc, exs). (sc,
       map (\<lambda>ex. ex\<lparr>ex_repetitions := or_trials trials (ex_repetitions ex)\<rparr>)
         (filter (\<lambda>ex. case only of None \<Rightarrow> True | Some names \<Rightarrow> ex_name ex \<in> names) exs))) groups)"

definition group_names :: "bench_group list \<Rightarrow> string list" where
  "group_names groups = map ex_name (concat (map snd groups))"

definition select_groups :: "(string \<Rightarrow> bool) \<Rightarrow> scenario \<Rightarrow> string set option \<Rightarrow> nat option \<Rightarrow> workload option \<Rightarrow>
    bench_group list result" where
  "select_groups known hidden_terminal only trials definition_file =
     bind_result (builtin_groups known hidden_terminal) (\<lambda>groups.
       case definition_file of
         Some w \<Rightarrow>
           if only \<noteq> None then Inl (ValueError ''--only cannot be combined with --workload'')
           else bind_result (check_workload known w) (workload_groups known trials)
       | None \<Rightarrow>
           (let unknown_names = (case only of None \<Rightarrow> {} | Some names \<Rightarrow> names) - set (group_names groups) in
            if unknown_names \<noteq> {}
            then Inl (ValueError (''unknown experiments: '' @ join '', '' (sorted_list_of_set unknown_names)))
            else if only \<noteq> None \<or> trials \<noteq> None then Inr (filter_groups only trials groups)
            else Inr groups))"

record bench_entry =
  be_name :: string
  be_experiment :: string
  be_trial :: nat
  be_artifact_file :: string

record bench_summary =
  bs_groups :: "(startup \<times> string \<times> nat) list"
  bs_experiments :: "bench_entry list"
  bs_aggregates :: "trial_summary list"

text \<open>
  What the world answers to the script: the answers to each start and run, to the request for the
  capabilities, and to the stop after the runs.
\<close>

record bench_world =
  bw_text :: stats_text
  bw_render :: "string option \<Rightarrow> string"
  bw_start :: "bench_experiment \<Rightarrow> nat \<Rightarrow> start_answers"
  bw_run :: "bench_experiment \<Rightarrow> nat \<Rightarrow> run_answers"
  bw_capabilities :: "unit result"
  bw_stop_sent :: "unit result"
  bw_stop_polls :: "string option result list"

text \<open>The trials of an experiment stop at the first exception.\<close>

definition run_fresh_trials :: "bench_world \<Rightarrow> scenario \<Rightarrow> bench_experiment \<Rightarrow>
    ((startup \<times> string \<times> nat) \<times> artifact) list result" where
  "run_fresh_trials w definition_of ex =
     traverse_result (\<lambda>trial.
       bind_result (start_scenario (bw_text w) (bw_render w) definition_of (bw_start w ex trial)) (\<lambda>started.
       bind_result (run_experiment (bw_text w) ex trial (bw_run w ex trial)) (\<lambda>a. Inr ((started, ex_name ex, trial), a))))
       [1 ..< ex_repetitions ex + 1]"

definition entries_of :: "bench_experiment \<Rightarrow> artifact list \<Rightarrow> bench_entry list" where
  "entries_of ex as = map (\<lambda>(trial, a). \<lparr>be_name = ar_name a, be_experiment = ex_name ex, be_trial = trial,
      be_artifact_file = ar_name a @ ''.json''\<rparr>) (enumerate 1 as)"

fun run_experiments :: "bench_world \<Rightarrow> (scenario \<times> bench_experiment) list \<Rightarrow> bench_summary \<Rightarrow> bench_summary result" where
  "run_experiments w [] s = Inr s"
| "run_experiments w ((definition_of, ex) # exs) s =
     bind_result (run_fresh_trials w definition_of ex) (\<lambda>runs.
       run_experiments w exs
         (s\<lparr>bs_groups := bs_groups s @ map fst runs,
            bs_experiments := bs_experiments s @ entries_of ex (map snd runs),
            bs_aggregates := bs_aggregates s @ [summarize_trials ex (map snd runs)]\<rparr>))"

definition all_experiments :: "bench_group list \<Rightarrow> (scenario \<times> bench_experiment) list" where
  "all_experiments groups = concat (map (\<lambda>(definition_of, exs). map (Pair definition_of) exs) groups)"

text \<open>
  The stop after the runs is awaited even when they raised, and its exception comes first. The
  summary is written before an incomplete trial is reported.
\<close>

definition bench_main :: "(string \<Rightarrow> bool) \<Rightarrow> scenario \<Rightarrow> string set option \<Rightarrow> nat option \<Rightarrow> workload option \<Rightarrow>
    bench_world \<Rightarrow> string \<Rightarrow> bench_summary option \<times> unit result" where
  "bench_main known hidden_terminal only trials definition_file w output_dir =
     (case bind_result (select_groups known hidden_terminal only trials definition_file) (\<lambda>groups.
             bind_result (bw_capabilities w) (\<lambda>_.
               (let ran = run_experiments w (all_experiments groups) \<lparr>bs_groups = [], bs_experiments = [], bs_aggregates = []\<rparr> in
                bind_result (bw_stop_sent w) (\<lambda>_.
                bind_result (wait_for_state (bw_render w) ''STOPPED'' (bw_stop_polls w)) (\<lambda>_. ran))))) of
        Inl e \<Rightarrow> (None, Inl e)
      | Inr s \<Rightarrow>
          (let incomplete_trials = sum_list (map tr_incomplete_trials (bs_aggregates s)) in
           (Some s, if incomplete_trials \<noteq> 0
             then Inl (RuntimeError (show_int incomplete_trials @ '' traffic trial(s) did not complete; results: '' @ output_dir))
             else Inr ())))"

end
