(* ===== verification/Bench_Laws.thy ===== *)
theory Bench_Laws
  imports Bench Traffic_Authors Reachability "HOL-Library.Multiset"
begin

text \<open>
  The experiments report what happened: the summary of trials counts every trial once and its
  distributions are exactly those of the completed trials, and the flow summaries of an exported
  result add up to the totals of the run.
\<close>

subsection \<open>Order statistics\<close>

lemma foldl_max: "foldl max y ys \<in> insert y (set ys) \<and> (\<forall>x \<in> insert y (set ys). x \<le> foldl max y ys)"
  for y :: "'a :: linorder"
proof (induction ys arbitrary: y)
  case (Cons a ys)
  from Cons [of "max y a"] show ?case by (auto simp: max_def split: if_splits)
qed simp

lemma foldl_min: "foldl min y ys \<in> insert y (set ys) \<and> (\<forall>x \<in> insert y (set ys). foldl min y ys \<le> x)"
  for y :: "'a :: linorder"
proof (induction ys arbitrary: y)
  case (Cons a ys)
  from Cons [of "min y a"] show ?case by (auto simp: min_def split: if_splits)
qed simp

lemma py_max_Some: "py_max xs = Some m \<Longrightarrow> m \<in> set xs \<and> (\<forall>x \<in> set xs. x \<le> m)"
  using foldl_max by (auto simp: py_max_def split: list.splits)

lemma py_min_Some: "py_min_value xs = Some m \<Longrightarrow> m \<in> set xs \<and> (\<forall>x \<in> set xs. m \<le> x)"
  using foldl_min by (auto simp: py_min_value_def split: list.splits)

lemma py_extremum_None [simp]: "py_max xs = None \<longleftrightarrow> xs = []" "py_min_value xs = None \<longleftrightarrow> xs = []"
  by (cases xs; simp add: py_max_def py_min_value_def)+

subsection \<open>Trials\<close>

lemma sort_key_wf: "dict_wf d \<Longrightarrow> dict_wf (sort_key fst d)"
  by (metis mset_eq_imp_distinct_iff mset_map mset_sort)

lemma sort_key_get: "dict_wf d \<Longrightarrow> dict_get (sort_key fst d) = dict_get d"
  by (simp add: map_of_inject_set sort_key_wf)

lemma sort_key_total: "counter_total (sort_key fst d) = counter_total d"
  unfolding counter_total_def by (metis mset_map mset_sort sum_mset_sum_list)

lemma counter_of_wf: "dict_wf (counter_of ks)"
  by (simp add: counter_of_def counter_of_from_wf)

lemma counter_of_exact: "counter_total (counter_of ks) = int (length ks)"
  "dict_get_default (counter_of ks) k 0 = int (count_list ks k)"
  using counter_of_from_total [of "[]" ks] counter_of_from_lookup [of "[]" ks k]
  by (simp_all add: counter_of_def counter_total_def dict_get_default_def)

lemma filter_full: "length (filter P xs) = length xs \<longleftrightarrow> list_all P xs"
proof (induction xs)
  case (Cons x xs)
  then show ?case using length_filter_le [of P xs] by (auto simp del: length_filter_le)
qed simp

lemma completed_text [simp]: "run_state_text s = ''COMPLETED'' \<longleftrightarrow> s = Run_COMPLETED"
  by (cases s) (simp_all add: run_state_text_def)

lemma completed_artifacts_alt: "completed_artifacts as = filter (\<lambda>a. r_state (ar_result a) = Run_COMPLETED) as"
  by (simp add: completed_artifacts_def)

text \<open>
  The distribution of a list of values, specified without sorting: a value is the \<open>k\<close>-th smallest when at
  most \<open>k\<close> values are below it and more than \<open>k\<close> are not above it. The median is the middle one of an
  odd number of values and the rounded mean of the two middle ones of an even number.
\<close>

definition kth_smallest :: "pyfloat list \<Rightarrow> nat \<Rightarrow> pyfloat \<Rightarrow> bool" where
  "kth_smallest vs k x \<longleftrightarrow>
     x \<in> set vs \<and> length (filter (\<lambda>y. y < x) vs) \<le> k \<and> k < length (filter (\<lambda>y. y \<le> x) vs)"

definition exact_median :: "pyfloat list \<Rightarrow> pyfloat \<Rightarrow> bool" where
  "exact_median vs m \<longleftrightarrow>
     (let n = length vs in
      if odd n then kth_smallest vs (n div 2) m
      else \<exists>a b. kth_smallest vs (n div 2 - 1) a \<and> kth_smallest vs (n div 2) b \<and> m = fdiv (fadd a b) 2)"

definition exact_distribution :: "pyfloat list \<Rightarrow> distribution option \<Rightarrow> bool" where
  "exact_distribution vs od \<longleftrightarrow>
     (case od of
        None \<Rightarrow> vs = []
      | Some d \<Rightarrow> {di_minimum d, di_maximum d} \<subseteq> set vs \<and>
          list_all (\<lambda>x. di_minimum d \<le> x \<and> x \<le> di_maximum d) vs \<and> exact_median vs (di_median d))"

text \<open>The values of the completed trials, in the order of the trials.\<close>

definition completed_values :: "(artifact \<Rightarrow> pyfloat option) \<Rightarrow> artifact list \<Rightarrow> pyfloat list" where
  "completed_values f as = List.map_filter f (filter (\<lambda>a. r_state (ar_result a) = Run_COMPLETED) as)"

lemma kth_smallest_unique: "kth_smallest vs k x \<Longrightarrow> kth_smallest vs k y \<Longrightarrow> x = y"
proof (rule ccontr)
  have False if "kth_smallest vs k u" "kth_smallest vs k v" "u < v" for u v
  proof -
    have "length (filter (\<lambda>z. z \<le> u) vs) \<le> length (filter (\<lambda>z. z < v) vs)"
      unfolding length_filter_conv_card by (rule card_mono) (use that(3) in auto)
    with that(1,2) show False by (simp add: kth_smallest_def)
  qed
  then show "kth_smallest vs k x \<Longrightarrow> kth_smallest vs k y \<Longrightarrow> x \<noteq> y \<Longrightarrow> False" by (meson linorder_neqE)
qed

lemma kth_smallest_sort:
  assumes "k < length vs"
  shows "kth_smallest vs k (sort vs ! k)"
proof -
  let ?ys = "sort vs"
  have k: "k < length ?ys" and so: "sorted ?ys" using assms by simp_all
  have len: "length (filter P vs) = length (filter P ?ys)" for P by (simp add: filter_sort)
  have mono: "?ys ! i \<le> ?ys ! j" if "i \<le> j" "j < length ?ys" for i j
    by (rule sorted_nth_mono [OF so that])
  have "{i. i < length ?ys \<and> ?ys ! i < ?ys ! k} \<subseteq> {..<k}"
  proof
    fix i assume "i \<in> {i. i < length ?ys \<and> ?ys ! i < ?ys ! k}"
    then have "i < length ?ys" "\<not> ?ys ! k \<le> ?ys ! i" by simp_all
    with mono [of k i] show "i \<in> {..<k}" by (meson lessThan_iff not_le)
  qed
  then have below: "length (filter (\<lambda>y. y < ?ys ! k) vs) \<le> k"
    unfolding len unfolding length_filter_conv_card using card_mono [of "{..<k}" "{i. i < length ?ys \<and> ?ys ! i < ?ys ! k}"] by simp
  have "{..k} \<subseteq> {i. i < length ?ys \<and> ?ys ! i \<le> ?ys ! k}" using mono k by auto
  from card_mono [OF _ this] have "k < length (filter (\<lambda>y. y \<le> ?ys ! k) vs)"
    unfolding len unfolding length_filter_conv_card by simp
  moreover have "?ys ! k \<in> set vs" using nth_mem [OF k] by simp
  ultimately show ?thesis using below by (simp add: kth_smallest_def)
qed

lemma exact_median_of: "vs \<noteq> [] \<Longrightarrow> exact_median vs (median_of vs)"
proof -
  assume "vs \<noteq> []"
  then have "length vs div 2 < length vs" "length vs div 2 - 1 < length vs" by (cases vs; simp)+
  note kth_smallest_sort [OF this(1)] kth_smallest_sort [OF this(2)]
  then show ?thesis by (auto simp: exact_median_def median_of_def Let_def)
qed

lemma trial_values_completed: "trial_values f as = completed_values f as"
proof -
  have "concat (map (\<lambda>a. case f a of None \<Rightarrow> [] | Some x \<Rightarrow> [x]) xs) = List.map_filter f xs" for xs
    by (induction xs) (simp_all split: option.split)
  then show ?thesis by (simp add: trial_values_def completed_values_def completed_artifacts_alt)
qed

lemma exact_distribution_of [simp]: "exact_distribution (completed_values f as) (distribution_of f as)"
proof (cases "completed_values f as = []")
  case True
  then show ?thesis
    by (simp add: exact_distribution_def distribution_of_def trial_values_completed py_min_value_def py_max_def)
next
  case False
  let ?vs = "completed_values f as"
  from False obtain lo hi where m: "py_min_value ?vs = Some lo" "py_max ?vs = Some hi"
    by (metis option.exhaust py_extremum_None)
  with py_min_Some [OF m(1)] py_max_Some [OF m(2)] exact_median_of [OF False] show ?thesis
    by (simp add: exact_distribution_def distribution_of_def trial_values_completed list_all_iff)
qed

lemma of_flow_alt: "of_flow name f = (\<lambda>a. Option.bind (dict_get (ar_flows a) name) f)"
  by (simp add: of_flow_def fun_eq_iff)

lemma trial_counts:
  "tr_trials (summarize_trials ex as) = int (length as)"
  "tr_completed_trials (summarize_trials ex as) + tr_incomplete_trials (summarize_trials ex as) = int (length as)"
  "tr_completed_trials (summarize_trials ex as) = int (length (filter (\<lambda>a. r_state (ar_result a) = Run_COMPLETED) as))"
  "tr_incomplete_trials (summarize_trials ex as) = 0 \<longleftrightarrow> list_all (\<lambda>a. r_state (ar_result a) = Run_COMPLETED) as"
  "tr_failed_reception_metrics_complete_trials (summarize_trials ex as) =
    int (length (filter (\<lambda>a. r_state (ar_result a) = Run_COMPLETED \<and> r_failed_reception_metrics_complete (ar_result a)) as))"
proof -
  have "int (length as) = int (length (completed_artifacts as)) \<longleftrightarrow> list_all (\<lambda>a. r_state (ar_result a) = Run_COMPLETED) as"
    by (simp add: completed_artifacts_alt flip: filter_full) auto
  then show "tr_incomplete_trials (summarize_trials ex as) = 0 \<longleftrightarrow> list_all (\<lambda>a. r_state (ar_result a) = Run_COMPLETED) as"
    by (simp add: summarize_trials_def Let_def)
qed (simp_all add: summarize_trials_def Let_def completed_artifacts_alt count_if_def conj_commute)

lemma trial_state_counts:
  "counter_total (tr_terminal_state_counts (summarize_trials ex as)) = int (length as)"
  "dict_get_default (tr_terminal_state_counts (summarize_trials ex as)) st 0 =
    int (length (filter (\<lambda>a. run_state_text (r_state (ar_result a)) = st) as))"
  "sorted (dict_keys (tr_terminal_state_counts (summarize_trials ex as)))"
proof -
  let ?states = "map (\<lambda>a. run_state_text (r_state (ar_result a))) as"
  have "tr_terminal_state_counts (summarize_trials ex as) = sort_key fst (counter_of ?states)"
    by (simp add: summarize_trials_def Let_def)
  moreover have "dict_get_default (sort_key fst (counter_of ?states)) st 0 = int (count_list ?states st)"
    using counter_of_exact(2) by (simp add: dict_get_default_def sort_key_get [OF counter_of_wf])
  moreover have "count_list ?states st = length (filter (\<lambda>a. run_state_text (r_state (ar_result a)) = st) as)"
    by (simp add: count_list_eq_length_filter filter_map comp_def eq_commute)
  moreover have "sorted (dict_keys (sort_key fst d))" for d :: "(string, int) dict" by simp
  ultimately show "counter_total (tr_terminal_state_counts (summarize_trials ex as)) = int (length as)"
    "dict_get_default (tr_terminal_state_counts (summarize_trials ex as)) st 0 =
      int (length (filter (\<lambda>a. run_state_text (r_state (ar_result a)) = st) as))"
    "sorted (dict_keys (tr_terminal_state_counts (summarize_trials ex as)))"
    by (simp_all add: sort_key_total counter_of_exact)
qed

lemma trial_flow_names:
  "sorted_wrt (<) (dict_keys (tr_flows (summarize_trials ex as)))"
  "set (dict_keys (tr_flows (summarize_trials ex as))) =
    {name. \<exists>a \<in> set as. r_state (ar_result a) = Run_COMPLETED \<and> name \<in> set (dict_keys (ar_flows a))}"
proof -
  have "dict_keys (tr_flows (summarize_trials ex as)) =
      sorted_list_of_set (\<Union>a \<in> set (completed_artifacts as). fst ` set (ar_flows a))"
    by (simp add: summarize_trials_def Let_def comp_def)
  then show "sorted_wrt (<) (dict_keys (tr_flows (summarize_trials ex as)))"
    "set (dict_keys (tr_flows (summarize_trials ex as))) =
      {name. \<exists>a \<in> set as. r_state (ar_result a) = Run_COMPLETED \<and> name \<in> set (dict_keys (ar_flows a))}"
    by (auto simp: completed_artifacts_alt)
qed

text \<open>
  C30. The summary of an experiment's trials is exact: every trial is counted once, as completed or as
  incomplete and under its terminal state, the states sorted. Each of the nine distributions of the
  summary, and each of the eight that it has for every flow of a completed trial, is that of its own field
  over the completed trials alone: absent exactly when none of them has the value, else with
  their least and greatest value and their median, the middle value or the rounded mean of the two
  middle values. The flows are those of the completed trials, in order of name.
\<close>

theorem trials_are_summarized_exactly:
  "let s = summarize_trials ex as in
    tr_trials s = int (length as) \<and>
    tr_completed_trials s + tr_incomplete_trials s = int (length as) \<and>
    tr_completed_trials s = int (length (filter (\<lambda>a. r_state (ar_result a) = Run_COMPLETED) as)) \<and>
    (tr_incomplete_trials s = 0 \<longleftrightarrow> list_all (\<lambda>a. r_state (ar_result a) = Run_COMPLETED) as) \<and>
    tr_failed_reception_metrics_complete_trials s =
      int (length (filter (\<lambda>a. r_state (ar_result a) = Run_COMPLETED \<and> r_failed_reception_metrics_complete (ar_result a)) as)) \<and>
    counter_total (tr_terminal_state_counts s) = int (length as) \<and>
    dict_get_default (tr_terminal_state_counts s) st 0 =
      int (length (filter (\<lambda>a. run_state_text (r_state (ar_result a)) = st) as)) \<and>
    sorted (dict_keys (tr_terminal_state_counts s)) \<and>
    exact_distribution (completed_values (\<lambda>a. Some (float_of_int (r_submitted (ar_result a)))) as) (tr_submitted s) \<and>
    exact_distribution (completed_values (\<lambda>a. Some (float_of_int (r_delivered (ar_result a)))) as) (tr_unique_delivered s) \<and>
    exact_distribution (completed_values (\<lambda>a. m_receiver_delivery_ratio (r_metrics (ar_result a))) as) (tr_receiver_delivery_ratio s) \<and>
    exact_distribution (completed_values (\<lambda>a. m_median_latency_ms (r_metrics (ar_result a))) as) (tr_median_latency_ms s) \<and>
    exact_distribution (completed_values (\<lambda>a. m_p95_latency_ms (r_metrics (ar_result a))) as) (tr_p95_latency_ms s) \<and>
    exact_distribution (completed_values (\<lambda>a. Some (float_of_int (m_rf_transmissions (r_metrics (ar_result a))))) as) (tr_rf_transmissions s) \<and>
    exact_distribution (completed_values (\<lambda>a. Some (float_of_int (m_observed_airtime_ms (r_metrics (ar_result a))))) as) (tr_observed_airtime_ms s) \<and>
    exact_distribution (completed_values (\<lambda>a. Some (ar_elapsed_seconds a)) as) (tr_elapsed_seconds s) \<and>
    exact_distribution (completed_values (\<lambda>a. su_peak_cpu_percent (ar_resources a)) as) (tr_peak_cpu_percent s) \<and>
    sorted_wrt (<) (dict_keys (tr_flows s)) \<and>
    set (dict_keys (tr_flows s)) =
      {name. \<exists>a \<in> set as. r_state (ar_result a) = Run_COMPLETED \<and> name \<in> set (dict_keys (ar_flows a))} \<and>
    list_all (\<lambda>(name, fd). let flow = (\<lambda>f a. Option.bind (dict_get (ar_flows a) name) f) in
      exact_distribution (completed_values (flow (\<lambda>w. Some (float_of_int (fw_requested w)))) as) (fd_requested fd) \<and>
      exact_distribution (completed_values (flow fw_admission_ratio) as) (fd_admission_ratio fd) \<and>
      exact_distribution (completed_values (flow fw_delivery_ratio) as) (fd_delivery_ratio fd) \<and>
      exact_distribution (completed_values (flow fw_on_time_delivery_ratio) as) (fd_on_time_delivery_ratio fd) \<and>
      exact_distribution (completed_values (flow fw_acknowledgment_success_ratio) as) (fd_acknowledgment_success_ratio fd) \<and>
      exact_distribution (completed_values (flow fw_median_latency_ms) as) (fd_median_latency_ms fd) \<and>
      exact_distribution (completed_values (flow fw_p95_latency_ms) as) (fd_p95_latency_ms fd) \<and>
      exact_distribution (completed_values (flow fw_maximum_latency_ms) as) (fd_maximum_latency_ms fd)) (tr_flows s)"
  unfolding Let_def
  by (intro conjI trial_counts trial_state_counts trial_flow_names)
    (simp_all add: summarize_trials_def Let_def of_count_def [abs_def] list_all_iff flow_distributions_of_def flip: of_flow_alt)

subsection \<open>Flows\<close>

lemma count_if_split_flows:
  assumes "distinct names" and "g_flow ` set ms \<subseteq> set names"
  shows "sum_list (map (\<lambda>n. count_if P (filter (\<lambda>m. g_flow m = n) ms)) names) = count_if P ms"
  using assms(2)
proof (induction ms)
  case Nil
  then show ?case by (simp add: count_if_def)
next
  case (Cons m ms)
  have "sum_list (map (\<lambda>n. of_bool (g_flow m = n)) names) = (1 :: int)"
    using Cons.prems assms(1) by (simp add: sum_list_distinct_conv_sum_set of_bool_def)
  moreover have "count_if P (filter (\<lambda>m. g_flow m = n) (m # ms)) =
      count_if P (filter (\<lambda>m. g_flow m = n) ms) + of_bool (P m) * of_bool (g_flow m = n)" for n
    by (simp add: count_if_def)
  moreover have "count_if P (m # ms) = count_if P ms + of_bool (P m)" by (simp add: count_if_def)
  ultimately show ?case using Cons by (simp add: sum_list_addf sum_list_const_mult del: filter.simps)
qed

lemma interpolate_total:
  assumes "0 \<le> p" and "p \<le> of_int (int (length xs) - 1)"
  shows "\<exists>x. interpolate xs p = Inr x"
proof -
  have "0 \<le> \<lfloor>p\<rfloor>" "\<lfloor>p\<rfloor> \<le> \<lceil>p\<rceil>" using assms(1) by (simp_all add: floor_le_ceiling)
  moreover have "\<lceil>p\<rceil> \<le> int (length xs) - 1" by (rule ceiling_le [OF assms(2)])
  ultimately have b: "0 \<le> \<lfloor>p\<rfloor>" "\<lfloor>p\<rfloor> \<le> \<lceil>p\<rceil>" "\<lceil>p\<rceil> \<le> int (length xs) - 1" by simp_all
  have "\<exists>x. py_index xs i = Inr x" if "0 \<le> i" "i \<le> int (length xs) - 1" for i
    using that by (simp add: py_index_def)
  then have "\<exists>x. py_index xs \<lfloor>p\<rfloor> = Inr x" "\<exists>x. py_index xs \<lceil>p\<rceil> = Inr x" using b by (meson order_trans)+
  then show ?thesis unfolding interpolate_def Let_def by (metis (no_types) bind_result_simps(2))
qed

lemma percentile_total:
  assumes "int (length xs) \<le> 2 ^ 53" and "0 \<le> q" and "q \<le> 1" and "0 < n"
  shows "\<exists>r. percentile xs q n = Inr r"
proof (cases "length xs < n")
  case False
  with assms(4) have "0 < length xs" by linarith
  from interpolate_total [of _ "sort xs"] percentile_position [OF assms(2,3) this assms(1)]
  obtain x where "interpolate (sort xs) (fmul (float_of_int (int (length xs) - 1)) q) = Inr x" by auto
  with assms False show ?thesis by (auto simp: percentile_def Let_def)
qed (simp add: percentile_def)

lemma flow_latencies_length: "length (flow_latencies ms) \<le> length ms"
proof (induction ms)
  case (Cons m ms)
  then show ?case by (auto simp: flow_latencies_def split: option.splits)
qed (simp add: flow_latencies_def)

text \<open>The summary of a flow always exists.\<close>

lemma flow_summary_total:
  assumes "int (length ms) \<le> 2 ^ 53"
  obtains s where "flow_summary_of expected f ms = Inr s" and "fw_requested s = count_if (\<lambda>_. True) ms"
    and "fw_submitted s = count_if g_submitted ms" and "fw_submission_failed s = count_if (\<lambda>m. g_submission_error m \<noteq> None) ms"
    and "fw_transmitted s = count_if g_transmitted ms" and "fw_delivered s = count_if flow_delivered ms"
    and "fw_acknowledged s = count_if g_acknowledged ms" and "fw_on_time_deliveries s \<le> fw_delivered s"
proof -
  have n: "int (length (flow_latencies ms)) \<le> 2 ^ 53" using flow_latencies_length [of ms] assms by linarith
  have "(1 :: rat) = fl 1" using fl_of_int [of 1] by simp
  then have p: "0 \<le> fl (95 / 100)" "fl (95 / 100) \<le> 1" using fl_mono [of 0 "95 / 100"] fl_mono [of "95 / 100" 1] by (simp_all add: fl_def)
  obtain a where a: "percentile (flow_latencies ms) (1 / 2) 1 = Inr a" using percentile_total [OF n, of "1 / 2" 1] by auto
  obtain b where b: "percentile (flow_latencies ms) (fl (95 / 100)) 20 = Inr b" using percentile_total [OF n p, of 20] by (metis zero_less_numeral)
  have "count_if (\<lambda>x. x \<le> y) (flow_latencies ms) \<le> count_if flow_delivered ms" for y
  proof -
    have "length (flow_latencies ms) \<le> length (filter flow_delivered ms)"
      using flow_latencies_length [of "filter flow_delivered ms"] by (simp add: flow_latencies_def)
    then show ?thesis unfolding count_if_def of_nat_le_iff by (rule le_trans [OF length_filter_le])
  qed
  moreover have "\<exists>s. flow_summary_of expected f ms = Inr s" using a b by (simp add: flow_summary_of_def Let_def)
  then obtain s where s: "flow_summary_of expected f ms = Inr s" ..
  ultimately show thesis using a b by (intro that [OF s]) (use s in \<open>auto simp: flow_summary_of_def Let_def count_if_def\<close>)
qed

definition flow_total :: "(flow_summary \<Rightarrow> int) \<Rightarrow> (string, flow_summary) dict \<Rightarrow> int" where
  "flow_total field tables = sum_list (map (\<lambda>(name, s). field s) tables)"

lemma flows_summarized:
  assumes "distinct (map f_name (scheduling_flows (r_request r)))"
    and "g_flow ` set (r_generated_messages r) \<subseteq> f_name ` set (scheduling_flows (r_request r))"
    and "int (length (r_generated_messages r)) \<le> 2 ^ 53"
  obtains tables where "summarize_flows r = Inr tables" and "dict_keys tables = map f_name (scheduling_flows (r_request r))"
    and "flow_total fw_requested tables = int (length (r_generated_messages r))"
    and "flow_total fw_submitted tables = count_if g_submitted (r_generated_messages r)"
    and "flow_total fw_submission_failed tables = count_if (\<lambda>m. g_submission_error m \<noteq> None) (r_generated_messages r)"
    and "flow_total fw_transmitted tables = count_if g_transmitted (r_generated_messages r)"
    and "flow_total fw_delivered tables = count_if flow_delivered (r_generated_messages r)"
    and "flow_total fw_acknowledged tables = count_if g_acknowledged (r_generated_messages r)"
    and "list_all (\<lambda>(name, s). fw_on_time_deliveries s \<le> fw_delivered s) tables"
proof -
  let ?fs = "scheduling_flows (r_request r)" and ?ms = "r_generated_messages r"
  define expected where "expected \<longleftrightarrow> q_kind (r_request r) = DIRECT_TEXT \<and> q_acknowledgment_requested (r_request r)"
  define part :: "traffic_flow \<Rightarrow> generated_message list" where "part f = filter (\<lambda>m. g_flow m = f_name f) ?ms" for f
  have "\<exists>s. flow_summary_of expected f (part f) = Inr s \<and> fw_requested s = count_if (\<lambda>_. True) (part f) \<and>
      fw_submitted s = count_if g_submitted (part f) \<and> fw_submission_failed s = count_if (\<lambda>m. g_submission_error m \<noteq> None) (part f) \<and>
      fw_transmitted s = count_if g_transmitted (part f) \<and> fw_delivered s = count_if flow_delivered (part f) \<and>
      fw_acknowledged s = count_if g_acknowledged (part f) \<and> fw_on_time_deliveries s \<le> fw_delivered s" for f
  proof (rule flow_summary_total [of "part f" expected f])
    have "length (part f) \<le> length ?ms" by (simp add: part_def)
    then show "int (length (part f)) \<le> 2 ^ 53" using assms(3) by linarith
  qed blast
  then obtain g where g: "flow_summary_of expected f (part f) = Inr (g f)" "fw_requested (g f) = count_if (\<lambda>_. True) (part f)"
      "fw_submitted (g f) = count_if g_submitted (part f)"
      "fw_submission_failed (g f) = count_if (\<lambda>m. g_submission_error m \<noteq> None) (part f)"
      "fw_transmitted (g f) = count_if g_transmitted (part f)" "fw_delivered (g f) = count_if flow_delivered (part f)"
      "fw_acknowledged (g f) = count_if g_acknowledged (part f)" "fw_on_time_deliveries (g f) \<le> fw_delivered (g f)" for f
    by metis
  let ?tables = "map (\<lambda>f. (f_name f, g f)) ?fs"
  have defs: "dict_of (map (\<lambda>f. (f_name f, f)) ?fs) [] = map (\<lambda>f. (f_name f, f)) ?fs"
    using assms(1) by (simp add: dict_of_fresh comp_def)
  have run: "summarize_flows r = Inr ?tables"
    unfolding summarize_flows_def Let_def defs expected_def [symmetric] traverse_result_eq_Inr
    by (simp add: g(1) [unfolded part_def] comp_def)
  have total: "flow_total field ?tables = count_if P ?ms" if "\<And>f. field (g f) = count_if P (part f)" for field P
    using count_if_split_flows [OF assms(1), of ?ms P] assms(2)
    by (simp add: flow_total_def that part_def comp_def)
  have late: "list_all (\<lambda>(name, s). fw_on_time_deliveries s \<le> fw_delivered s) ?tables"
    using g(8) by (simp add: list_all_iff)
  have all: "count_if (\<lambda>_. True) ?ms = int (length ?ms)" by (simp add: count_if_def)
  show thesis
    by (rule that [OF run _ _ _ _ _ _ _ late]) (simp_all add: total g(2-7) all comp_def)
qed

text \<open>The script and the controller agree on what is delivered.\<close>

lemma flow_delivered_iff:
  assumes "receivers_ok (Some kind) m"
    and "if kind = BROADCAST_TEXT then g_destination_node m = ''broadcast'' else g_destination_node m \<noteq> g_source_node m"
  shows "flow_delivered m \<longleftrightarrow> delivered m"
proof (cases kind)
  case BROADCAST_TEXT
  with assms show ?thesis
    by (cases "g_delivered_to m") (auto simp: flow_delivered_def delivered_def receivers_ok_def list_ex_iff)
next
  case DIRECT_TEXT
  with assms show ?thesis
    by (cases "g_delivered_to m") (auto simp: flow_delivered_def delivered_def receivers_ok_def list_ex_iff)
qed

lemma request_flow_names: "check_request q = Inr q \<Longrightarrow> distinct (map f_name (scheduling_flows q))"
  by (auto simp: check_request_def validate_request_def bind_result_eq_Inr scheduling_flows_def card_distinct split: if_splits)

text \<open>
  C15. The flow summaries of an exported result add up to the totals of the run. The summaries always
  exist, one for every configured flow in order; what they count as requested, submitted, refused,
  transmitted, delivered and acknowledged sums to exactly what the controller counted, although the
  script decides on its own from the records which message is delivered; and no flow has more
  deliveries in time than deliveries.
\<close>

theorem flow_summaries_add_up:
  assumes "ctl_reachable ev g send allowed c" and "rng_ok g" and "t_frozen_result c = Some r"
    and "check_request (r_request r) = Inr (r_request r)" and "r_requested r \<le> 2 ^ 53"
  shows "\<exists>tables. summarize_flows r = Inr tables \<and> dict_keys tables = map f_name (scheduling_flows (r_request r)) \<and>
    flow_total fw_requested tables = r_requested r \<and> flow_total fw_submitted tables = r_submitted r \<and>
    flow_total fw_submission_failed tables = r_submission_failed r \<and>
    flow_total fw_transmitted tables = r_transmitted r \<and> flow_total fw_delivered tables = r_delivered r \<and>
    flow_total fw_acknowledged tables = t_acknowledgments c \<and>
    list_all (\<lambda>(name, s). fw_on_time_deliveries s \<le> fw_delivered s) tables"
proof -
  let ?ms = "r_generated_messages r"
  note tot = frozen_totals [OF assms(1,3)]
  have auth: "\<forall>m \<in> set ?ms. authored (r_request r) (byline m)"
    using ctl_reachable_credited [OF assms(1,2)] tot(1) by (simp add: credited_def credits_def authors_def list_all_iff)
  then have flows: "g_flow ` set ?ms \<subseteq> f_name ` set (scheduling_flows (r_request r))"
    by (fastforce simp: authored_def byline_def)
  have "flow_delivered m \<longleftrightarrow> delivered m" if "m \<in> set ?ms" for m
    by (rule flow_delivered_iff [of "q_kind (r_request r)"])
      (use that auth tot(8) in \<open>auto simp: authored_def byline_def list_all_iff\<close>)
  then have "count_if flow_delivered ?ms = count_if delivered ?ms" by (simp add: count_if_def cong: filter_cong)
  moreover have n: "int (length ?ms) \<le> 2 ^ 53" using assms(5) tot(4) by (simp add: counters_ok_def)
  moreover obtain tables where "summarize_flows r = Inr tables" "dict_keys tables = map f_name (scheduling_flows (r_request r))"
    "flow_total fw_requested tables = int (length ?ms)" "flow_total fw_submitted tables = count_if g_submitted ?ms"
    "flow_total fw_submission_failed tables = count_if (\<lambda>m. g_submission_error m \<noteq> None) ?ms"
    "flow_total fw_transmitted tables = count_if g_transmitted ?ms" "flow_total fw_delivered tables = count_if flow_delivered ?ms"
    "flow_total fw_acknowledged tables = count_if g_acknowledged ?ms"
    "list_all (\<lambda>(name, s). fw_on_time_deliveries s \<le> fw_delivered s) tables"
    by (rule flows_summarized [OF request_flow_names [OF assms(4)] flows n])
  ultimately show ?thesis using tot(4,5) unfolding counters_ok_def by (intro exI [of _ tables]) simp
qed

lemma flow_summaries_add_up_witness:
  "\<exists>r tables. t_frozen_result lab_failed = Some r \<and> summarize_flows r = Inr tables \<and> dict_keys tables = [''default''] \<and>
     flow_total fw_requested tables = r_requested r \<and> r_requested r = 1 \<and>
     flow_total fw_submission_failed tables = r_submission_failed r"
proof -
  obtain r where r: "t_frozen_result lab_failed = Some r" "lab_reachable (\<lambda>_ _ _. True) lab_failed"
    and n: "length (r_generated_messages r) = 1" by (rule lab_failed_steps)
  note tot = frozen_totals [OF r(2,1)]
  have q: "r_request r = relay_request" by (rule lab_requests(3) [OF tot(1)])
  have one: "r_requested r = 1" using tot(4) n by (simp add: counters_ok_def)
  moreover have "map f_name (scheduling_flows relay_request) = [''default'']"
    by (simp add: scheduling_flows_def default_flow_def relay_request_def)
  ultimately show ?thesis
    using flow_summaries_add_up [OF r(2) zero_rng_ok r(1)] r(1) q relay_request_valid(1) by auto
qed

text \<open>Four trials of the exported example: completed after 3, 8 and 5 seconds, and one that failed after 100.\<close>

definition lab_artifact :: "run_result \<Rightarrow> run_state \<Rightarrow> pyfloat \<Rightarrow> artifact" where
  "lab_artifact r st seconds =
     \<lparr>ar_name = ''relay'', ar_experiment = ''relay'', ar_trial = 1, ar_elapsed_seconds = seconds,
      ar_resources = summarize_resources [], ar_status_samples = [], ar_result = r\<lparr>r_state := st\<rparr>, ar_flows = []\<rparr>"

lemma trial_summary_example:
  "\<exists>r. t_frozen_result lab_failed = Some r \<and>
     (let as = lab_artifact r Run_FAILED 100 # map (lab_artifact r Run_COMPLETED) [3, 8, 5];
          s = summarize_trials (plain_experiment ''relay'' relay_request 4) as
      in tr_trials s = 4 \<and> tr_incomplete_trials s = 1 \<and>
         tr_elapsed_seconds s = Some \<lparr>di_median = 5, di_minimum = 3, di_maximum = 8\<rparr>)"
proof -
  obtain r where r: "t_frozen_result lab_failed = Some r" by (rule lab_failed_steps)
  let ?as = "lab_artifact r Run_FAILED 100 # map (lab_artifact r Run_COMPLETED) [3, 8, 5]"
  have v: "trial_values (\<lambda>a. Some (ar_elapsed_seconds a)) ?as = [3, 8, 5]"
    by (simp add: trial_values_def completed_artifacts_alt lab_artifact_def)
  have "distribution_of (\<lambda>a. Some (ar_elapsed_seconds a)) ?as = Some \<lparr>di_median = 5, di_minimum = 3, di_maximum = 8\<rparr>"
    unfolding distribution_of_def v by (simp add: py_min_value_def py_max_def median_of_def Let_def)
  then show ?thesis using r
    by (simp add: Let_def summarize_trials_def completed_artifacts_alt lab_artifact_def)
qed

end
