(* ===== verification/Bench_Runs.thy ===== *)
theory Bench_Runs
  imports Bench_Laws
begin

text \<open>
  The selection and the runs of the experiments: the scenario that a workload describes is one that
  the service accepts, and when \<^verbatim>\<open>main\<close> ends well, every trial of every selected experiment has
  completed and is recorded in a file of its own.
\<close>

subsection \<open>Scenarios of a workload\<close>

lemma default_checked:
  assumes "default_scenario known n = Inr sc"
  shows "check_scenario known sc = Inr sc" and "sc_node_count sc = n" and "sc_nodes sc \<noteq> []"
proof -
  show c: "check_scenario known sc = Inr sc" and n: "sc_node_count sc = n"
    using assms by (auto simp: default_scenario_def bind_result_eq_Inr check_scenario_Inr)
  then show "sc_nodes sc \<noteq> []" by (auto simp: check_scenario_Inr graph_wf_def in_range_def)
qed

lemma workload_name_length: "workload_name_ok s \<Longrightarrow> 1 \<le> length s \<and> length s \<le> 64"
  by (cases s) (auto simp: workload_name_ok_def codes_def)

lemma length_preset_slug [simp]: "length (preset_slug preset) = length preset"
  by (simp add: preset_slug_def)

lemma supported_preset_length: "preset \<in> SUPPORTED_MODEM_PRESETS \<Longrightarrow> length preset \<le> 15"
  by (auto simp: SUPPORTED_MODEM_PRESETS_def)

lemma check_workload_facts:
  assumes "check_workload known w = Inr w'"
  shows "w' = w" and "workload_name_ok (wl_name w)" and "distinct (wl_modem_presets w)"
    and "set (wl_modem_presets w) \<subseteq> SUPPORTED_MODEM_PRESETS" and "isOk (check_request (wl_traffic w))"
    and "in_range 0 255 (ws_frequency_slot (wl_scenario w))" and "in_range 1 7 (ws_hop_limit (wl_scenario w))"
    and "in_range 2 10 (ws_node_count (wl_scenario w))" and "in_range 1 10 (wl_trials w)" and "wl_modem_presets w \<noteq> []"
proof -
  note u = check_workload_def check_workload_settings_def validate_modem_presets_def bind_result_eq_Inr if_Inl_eq_Inr
  show "w' = w" "workload_name_ok (wl_name w)" "isOk (check_request (wl_traffic w))"
    "in_range 0 255 (ws_frequency_slot (wl_scenario w))" "in_range 1 7 (ws_hop_limit (wl_scenario w))"
    "in_range 2 10 (ws_node_count (wl_scenario w))" "in_range 1 10 (wl_trials w)"
    using assms by (auto simp: u isOk_iff)
  show "wl_modem_presets w \<noteq> []" using assms by (auto simp: u in_range_def)
  have card: "card (set (wl_modem_presets w)) = length (wl_modem_presets w)" using assms by (auto simp: u)
  then show "distinct (wl_modem_presets w)" by (rule card_distinct)
  have "isOk (traverse_result (\<lambda>v. check_rf known (default_rf\<lparr>rf_modem_preset := v\<rparr>)) (wl_modem_presets w))"
    using assms by (auto simp: u isOk_iff)
  then show "set (wl_modem_presets w) \<subseteq> SUPPORTED_MODEM_PRESETS"
    unfolding isOk_traverse by (auto simp: isOk_iff check_rf_def bind_result_eq_Inr if_Inl_eq_Inr)
qed

text \<open>
  C31. A validated workload describes scenarios that the service accepts. For each of its presets the
  script builds a scenario that passes the validation of the scenario route unchanged, with the
  requested number of nodes, the links of the requested topology, the requested radio settings
  and storage mode; the only thing that can still fail is the region, which the definition
  of a workload does not check, with the error of the region's own validator.
\<close>

theorem workload_scenarios_are_accepted:
  assumes "known ''US''" and "check_workload known w = Inr w" and "preset \<in> set (wl_modem_presets w)"
  shows "case workload_scenario known w preset of
      Inl e \<Rightarrow> validate_region known (ws_region (wl_scenario w)) = Inl e
    | Inr sc \<Rightarrow> check_scenario known sc = Inr sc \<and> int (length (sc_nodes sc)) = ws_node_count (wl_scenario w) \<and>
        list_all (\<lambda>l. enabled l = preset_link (ws_topology (wl_scenario w)) (map sn_id (sc_nodes sc)) (link_key l)) (sc_links sc) \<and>
        rf_region (sc_rf sc) = ws_region (wl_scenario w) \<and> rf_modem_preset (sc_rf sc) = preset \<and>
        rf_frequency_slot (sc_rf sc) = ws_frequency_slot (wl_scenario w) \<and> rf_hop_limit (sc_rf sc) = ws_hop_limit (wl_scenario w) \<and>
        sc_fresh_state sc = ws_fresh_state (wl_scenario w)"
proof -
  let ?s = "wl_scenario w"
  note f = check_workload_facts [OF assms(2)]
  obtain sc0 where sc0: "default_scenario known (ws_node_count ?s) = Inr sc0"
    using default_scenario_valid [of known "ws_node_count ?s"] assms(1) f(8)
    by (cases "default_scenario known (ws_node_count ?s)") (auto simp: in_range_def)
  note d = default_checked [OF sc0]
  have wf: "graph_wf sc0" using d(1) by (simp add: check_scenario_Inr)
  let ?links = "map (\<lambda>l. l\<lparr>enabled := preset_link (ws_topology ?s) (map sn_id (sc_nodes sc0)) (link_key l)\<rparr>) (sc_links sc0)"
  note top = apply_preset_ok [OF wf d(3), of "ws_topology ?s"]
  let ?rf = "\<lparr>rf_region = ws_region ?s, rf_modem_preset = preset, rf_frequency_slot = ws_frequency_slot ?s,
    rf_hop_limit = ws_hop_limit ?s, rf_collision_mode = NATIVE\<rparr>"
  have supported: "preset \<in> SUPPORTED_MODEM_PRESETS" using f(4) assms(3) by auto
  have rf: "check_rf known ?rf = bind_result (validate_region known (ws_region ?s)) (\<lambda>_. Inr ?rf)"
    using f(6,7) supported by (simp add: check_rf_def)
  show ?thesis
  proof (cases "validate_region known (ws_region ?s)")
    case (Inl e)
    then show ?thesis by (simp add: workload_scenario_def Let_def sc0 top rf)
  next
    case (Inr r)
    let ?sc = "sc0\<lparr>sc_links := ?links, sc_name := wl_name w @ ''-'' @ preset_slug preset, sc_rf := ?rf, sc_fresh_state := ws_fresh_state ?s\<rparr>"
    have made: "workload_scenario known w preset = Inr ?sc" using Inr by (simp add: workload_scenario_def Let_def sc0 top rf)
    have "graph_wf ?sc" using apply_preset_wf [OF wf] by (simp add: graph_wf_def)
    moreover have "in_range 1 80 (int (length (sc_name ?sc)))"
      using workload_name_length [OF f(2)] supported_preset_length [OF supported] by (auto simp: in_range_def)
    moreover have "isOk (check_rf known ?rf)" using rf Inr by simp
    moreover have "isOk (check_link (l\<lparr>enabled := b\<rparr>))" if "isOk (check_link l)" for l b
      using that by (auto simp: check_link_def isOk_iff split: if_splits)
    ultimately have "check_scenario known ?sc = Inr ?sc"
      using d(1) by (auto simp: check_scenario_Inr)
    moreover have "int (length (sc_nodes sc0)) = ws_node_count ?s" using wf d(2) by (simp add: graph_wf_def)
    ultimately show ?thesis using made by (simp add: list_all_iff)
  qed
qed

definition lab_workload :: workload where
  "lab_workload =
     \<lparr>wl_name = ''relay-sweep'',
      wl_scenario = \<lparr>ws_node_count = 3, ws_topology = LINE, ws_region = ''US'', ws_frequency_slot = 20, ws_hop_limit = 4, ws_fresh_state = True\<rparr>,
      wl_modem_presets = [''LONG_FAST'', ''SHORT_FAST''], wl_traffic = relay_request, wl_trials = 2\<rparr>"

lemma lab_workload_valid: "check_workload (\<lambda>r. r = ''US'') lab_workload = Inr lab_workload"
  by (simp add: check_workload_def lab_workload_def check_workload_settings_def validate_modem_presets_def in_range_def
    workload_name_ok_def codes_def id_char_def check_rf_def default_rf_def validate_region_def SUPPORTED_MODEM_PRESETS_def relay_request_valid(1))

lemma preset_slugs [simp]:
  "preset_slug ''LONG_FAST'' = ''long-fast''" "preset_slug ''LONG_SLOW'' = ''long-slow''"
  "preset_slug ''MEDIUM_SLOW'' = ''medium-slow''" "preset_slug ''MEDIUM_FAST'' = ''medium-fast''"
  "preset_slug ''SHORT_SLOW'' = ''short-slow''" "preset_slug ''SHORT_FAST'' = ''short-fast''"
  "preset_slug ''LONG_MODERATE'' = ''long-moderate''" "preset_slug ''SHORT_TURBO'' = ''short-turbo''"
  "preset_slug ''LONG_TURBO'' = ''long-turbo''"
  by (simp_all add: preset_slug_def lower_char_def Let_def char_of_def bit_0)

lemma workload_scenarios_are_accepted_witness:
  "\<exists>sc. workload_scenario (\<lambda>r. r = ''US'') lab_workload ''SHORT_FAST'' = Inr sc \<and>
     check_scenario (\<lambda>r. r = ''US'') sc = Inr sc \<and> length (sc_nodes sc) = 3 \<and> rf_hop_limit (sc_rf sc) = 4"
  using workload_scenarios_are_accepted [OF _ lab_workload_valid, of "''SHORT_FAST''"]
  by (cases "workload_scenario (\<lambda>r. r = ''US'') lab_workload ''SHORT_FAST''") (auto simp: lab_workload_def validate_region_def)

lemma preset_slug_inj: "inj_on preset_slug SUPPORTED_MODEM_PRESETS"
  by (simp add: inj_on_def SUPPORTED_MODEM_PRESETS_def)

subsection \<open>Names of artifacts\<close>

lemma split_at_last:
  assumes "xs @ c # ds = xs' @ c # ds'" and "c \<notin> set ds" and "c \<notin> set ds'"
  shows "xs = xs' \<and> ds = ds'"
proof -
  have t: "takeWhile (\<lambda>x. x \<noteq> c) (rev (ys @ c # es)) = rev es" if "c \<notin> set es" for ys es
    using that by (subst rev_append) (simp, subst takeWhile_append2, auto)
  have "ds = ds'" using t [OF assms(2), of xs] t [OF assms(3), of xs'] assms(1) by simp
  with assms(1) show ?thesis by simp
qed

lemma show_nat_no_r: "CHR ''r'' \<notin> set (show_nat n)"
proof
  assume "CHR ''r'' \<in> set (show_nat n)"
  then obtain c where "c \<in> set (show_nat_codes n)" "CHR ''r'' = char_of c" by (auto simp: show_nat_def)
  moreover from this show_nat_codes_digits [of n] have "48 \<le> c \<and> c \<le> 57" by (auto simp: is_digit_def)
  ultimately have "of_char (CHR ''r'') = c" by simp
  with \<open>48 \<le> c \<and> c \<le> 57\<close> show False by simp
qed

text \<open>A trial is told apart from every other when an experiment has several.\<close>

lemma artifact_name_inj:
  assumes "ex_repetitions ex \<noteq> 1" and "ex_repetitions ex' \<noteq> 1" and "artifact_name ex i = artifact_name ex' j"
  shows "ex_name ex = ex_name ex' \<and> i = j"
  using assms split_at_last [of "ex_name ex @ ''-''" "CHR ''r''" "show_nat i" "ex_name ex' @ ''-''" "show_nat j"]
  by (simp add: artifact_name_def show_nat_no_r show_nat_inj)

definition artifact_names :: "bench_experiment list \<Rightarrow> string list" where
  "artifact_names exs = concat (map (\<lambda>ex. map (artifact_name ex) [1 ..< ex_repetitions ex + 1]) exs)"

lemma artifact_names_distinct:
  assumes "distinct (map ex_name exs)"
    and "\<And>ex ex' i. ex \<in> set exs \<Longrightarrow> ex' \<in> set exs \<Longrightarrow> ex_repetitions ex = 1 \<Longrightarrow> ex_repetitions ex' \<noteq> 1 \<Longrightarrow>
      ex_name ex \<noteq> artifact_name ex' i"
  shows "distinct (artifact_names exs)"
  using assms
proof (induction exs)
  case (Cons ex exs)
  have own: "distinct (map (artifact_name ex) [1 ..< ex_repetitions ex + 1])"
    using artifact_name_inj [of ex ex] by (cases "ex_repetitions ex = 1") (auto simp: distinct_map inj_on_def simp del: upt_Suc)
  have "artifact_name ex i \<noteq> artifact_name ex' j" if x: "ex' \<in> set exs" for ex' i j
  proof -
    have n: "ex_name ex \<noteq> ex_name ex'" using x Cons.prems(1) by auto
    have one: "artifact_name e k = ex_name e" if "ex_repetitions e = 1" for e k using that by (simp add: artifact_name_def)
    show ?thesis
      using n x one Cons.prems(2) [of ex ex' j] Cons.prems(2) [of ex' ex i] artifact_name_inj [of ex ex' i j]
      by (cases "ex_repetitions ex = 1"; cases "ex_repetitions ex' = 1") (auto simp: one)
  qed
  moreover have "distinct (artifact_names exs)" by (rule Cons.IH) (use Cons.prems in auto)
  ultimately show ?case using own by (auto simp: artifact_names_def simp del: upt_Suc)
qed (simp add: artifact_names_def)

text \<open>A numbered name ends in a digit, which the built-in names do not.\<close>

lemma numbered_name_digit: "ex_repetitions ex \<noteq> 1 \<Longrightarrow> is_digit (of_char (last (artifact_name ex i)))"
proof -
  have "show_nat_codes i \<noteq> []" by (subst show_nat_codes.simps) simp
  then have "of_char (last (show_nat i)) = last (show_nat_codes i) mod 256" "show_nat i \<noteq> []"
    by (simp_all add: show_nat_def last_map)
  moreover have "is_digit (last (show_nat_codes i))"
    using show_nat_codes_digits [of i] last_in_set [OF \<open>show_nat_codes i \<noteq> []\<close>] by blast
  moreover assume "ex_repetitions ex \<noteq> 1"
  ultimately show ?thesis by (simp add: artifact_name_def is_digit_def)
qed

subsection \<open>The selection\<close>

lemma or_trials_pos [simp]: "or_trials (Some k) n = (if k = 0 then n else k)" "or_trials None n = n"
  by (simp_all add: or_trials_def)

lemma all_experiments_filter:
  "all_experiments (filter_groups only trials groups) =
     map (\<lambda>(d, ex). (d, ex\<lparr>ex_repetitions := or_trials trials (ex_repetitions ex)\<rparr>))
       (filter (\<lambda>(d, ex). case only of None \<Rightarrow> True | Some names \<Rightarrow> ex_name ex \<in> names) (all_experiments groups))"
proof (induction groups)
  case (Cons g groups)
  obtain d exs where g: "g = (d, exs)" by (cases g)
  show ?case using Cons by (simp add: g all_experiments_def filter_groups_def filter_map comp_def)
qed (simp add: all_experiments_def filter_groups_def)

lemma group_names_alt: "group_names groups = map ex_name (map snd (all_experiments groups))"
  by (induction groups) (auto simp: group_names_def all_experiments_def comp_def)

lemma selected_names:
  "set (group_names (filter_groups (Some names) trials groups)) = names \<inter> set (group_names groups)"
  unfolding group_names_alt all_experiments_filter by (force simp: image_iff)

lemma builtin_selected:
  assumes "builtin_groups known hidden = Inr groups"
  shows "map snd (all_experiments groups) = full_mesh_experiments @ short_fast_experiments @ line_experiments @ hidden_terminal_experiments"
  using assms by (auto simp: builtin_groups_def bind_result_eq_Inr all_experiments_def comp_def)

lemmas builtin_defs = full_mesh_experiments_def short_fast_experiments_def line_experiments_def hidden_terminal_experiments_def
  plain_experiment_def

lemma builtin_names_distinct:
  "distinct (map ex_name (full_mesh_experiments @ short_fast_experiments @ line_experiments @ hidden_terminal_experiments))"
  by (simp add: builtin_defs)

lemma builtin_names_letters:
  "list_all (\<lambda>ex. \<not> is_digit (of_char (last (ex_name ex))))
     (full_mesh_experiments @ short_fast_experiments @ line_experiments @ hidden_terminal_experiments)"
  by (simp add: builtin_defs is_digit_def)

text \<open>What is selected has distinct artifact names, and a selection by name has exactly the names.\<close>

lemma builtin_selection_distinct:
  assumes "builtin_groups known hidden = Inr groups"
  shows "distinct (artifact_names (map snd (all_experiments (filter_groups only trials groups))))"
    and "distinct (artifact_names (map snd (all_experiments groups)))"
proof -
  let ?all = "full_mesh_experiments @ short_fast_experiments @ line_experiments @ hidden_terminal_experiments"
  have *: "distinct (artifact_names exs)"
    if "distinct (map ex_name exs)" "ex_name ` set exs \<subseteq> ex_name ` set ?all" for exs :: "bench_experiment list"
  proof (rule artifact_names_distinct [OF that(1)])
    fix ex ex' :: bench_experiment and i assume "ex \<in> set exs" and "ex_repetitions ex' \<noteq> 1"
    moreover from this that(2) builtin_names_letters have "\<not> is_digit (of_char (last (ex_name ex)))"
      by (fastforce simp: list_all_iff)
    ultimately show "ex_name ex \<noteq> artifact_name ex' i" using numbered_name_digit [of ex' i] by metis
  qed
  have all: "map snd (all_experiments groups) = ?all" by (rule builtin_selected [OF assms])
  then have names: "map ex_name ?all = map (ex_name \<circ> snd) (all_experiments groups)" by (metis map_map)
  show "distinct (artifact_names (map snd (all_experiments groups)))"
    unfolding all by (rule * [OF builtin_names_distinct order_refl])
  let ?P = "\<lambda>(d, ex). case only of None \<Rightarrow> True | Some ns \<Rightarrow> ex_name ex \<in> ns"
  have sel: "map ex_name (map snd (all_experiments (filter_groups only trials groups))) = map (ex_name \<circ> snd) (filter ?P (all_experiments groups))"
    by (simp add: all_experiments_filter comp_def case_prod_unfold)
  show "distinct (artifact_names (map snd (all_experiments (filter_groups only trials groups))))"
  proof (rule *)
    show "distinct (map ex_name (map snd (all_experiments (filter_groups only trials groups))))"
      unfolding sel using builtin_names_distinct unfolding names by (rule distinct_map_filter)
    have "ex_name ` set (map snd (all_experiments (filter_groups only trials groups))) = set (map (ex_name \<circ> snd) (filter ?P (all_experiments groups)))"
      unfolding sel [symmetric] by (simp add: image_image)
    also have "\<dots> \<subseteq> set (map (ex_name \<circ> snd) (all_experiments groups))" by auto
    finally show "ex_name ` set (map snd (all_experiments (filter_groups only trials groups))) \<subseteq> ex_name ` set ?all"
      unfolding names [symmetric] by (simp add: image_Un)
  qed
qed

lemma workload_selected:
  assumes "check_workload known w = Inr w'" and "workload_groups known trials w = Inr groups"
  shows "distinct (artifact_names (map snd (all_experiments groups)))"
    and "map snd (all_experiments groups) = map (\<lambda>preset. plain_experiment (wl_name w @ ''-'' @ preset_slug preset) (wl_traffic w)
      (or_trials trials (nat (wl_trials w)))) (wl_modem_presets w)"
proof -
  let ?ex = "\<lambda>preset. plain_experiment (wl_name w @ ''-'' @ preset_slug preset) (wl_traffic w) (or_trials trials (nat (wl_trials w)))"
  have "map snd (all_experiments gs) = map ?ex ps"
    if "map (\<lambda>p. bind_result (workload_scenario known w p) (\<lambda>sc. Inr (sc, [?ex p]))) ps = map Inr gs" for ps gs
    using that by (induction ps arbitrary: gs) (auto simp: all_experiments_def bind_result_eq_Inr Cons_eq_map_conv)
  then show all: "map snd (all_experiments groups) = map ?ex (wl_modem_presets w)"
    using assms(2) by (simp add: workload_groups_def traverse_result_eq_Inr)
  note f = check_workload_facts [OF assms(1)]
  have "distinct (map preset_slug (wl_modem_presets w))"
    using f(3) inj_on_subset [OF preset_slug_inj f(4)] by (simp add: distinct_map)
  then have "distinct (map ex_name (map ?ex (wl_modem_presets w)))"
    by (simp add: distinct_map plain_experiment_def inj_on_def)
  then show "distinct (artifact_names (map snd (all_experiments groups)))"
    unfolding all by (rule artifact_names_distinct) (auto simp: plain_experiment_def)
qed

lemma selected_distinct:
  assumes "select_groups known hidden only trials w = Inr groups"
  shows "distinct (artifact_names (map snd (all_experiments groups)))"
    and "only = Some names \<Longrightarrow> set (group_names groups) = names"
proof -
  from assms obtain builtin where b: "builtin_groups known hidden = Inr builtin"
    by (auto simp: select_groups_def bind_result_eq_Inr)
  show "distinct (artifact_names (map snd (all_experiments groups)))"
  proof (cases w)
    case None
    with assms b have "groups = filter_groups only trials builtin \<or> groups = builtin"
      by (auto simp: select_groups_def Let_def split: if_splits)
    with builtin_selection_distinct [OF b] show ?thesis by auto
  next
    case (Some d)
    with assms b obtain d' where d': "check_workload known d = Inr d'" and g: "workload_groups known trials d' = Inr groups"
      by (auto simp: select_groups_def bind_result_eq_Inr split: if_splits)
    have "d' = d" by (rule check_workload_facts(1) [OF d'])
    with d' g show ?thesis by (simp add: workload_selected(1) [of known d d' trials])
  qed
  assume o: "only = Some names"
  from assms [unfolded o] b have "groups = filter_groups (Some names) trials builtin" "names \<subseteq> set (group_names builtin)"
    by (auto simp: select_groups_def Let_def split: if_splits option.splits)
  then show "set (group_names groups) = names"
    by (auto simp: selected_names)
qed

subsection \<open>The runs\<close>

lemma run_experiment_named:
  "run_experiment txt ex trial a = Inr art \<Longrightarrow> ar_name art = artifact_name ex trial"
  by (auto simp: run_experiment_def bind_result_eq_Inr)

lemma fresh_trials_named:
  assumes "run_fresh_trials w d ex = Inr runs"
  shows "map (\<lambda>run. ar_name (snd run)) runs = map (artifact_name ex) [1 ..< ex_repetitions ex + 1]"
    and "map (\<lambda>run. snd (fst run)) runs = map (Pair (ex_name ex)) [1 ..< ex_repetitions ex + 1]"
proof -
  define f where "f trial = bind_result (start_scenario (bw_text w) (bw_render w) d (bw_start w ex trial)) (\<lambda>started.
       bind_result (run_experiment (bw_text w) ex trial (bw_run w ex trial)) (\<lambda>a. Inr ((started, ex_name ex, trial), a)))" for trial
  have one: "f trial = Inr run \<Longrightarrow> ar_name (snd run) = artifact_name ex trial \<and> snd (fst run) = (ex_name ex, trial)" for trial run
    by (auto simp: f_def bind_result_eq_Inr run_experiment_named)
  have m: "map f ts = map Inr rs \<Longrightarrow>
      map (\<lambda>run. ar_name (snd run)) rs = map (artifact_name ex) ts \<and> map (\<lambda>run. snd (fst run)) rs = map (Pair (ex_name ex)) ts" for ts rs
    using one by (induction ts arbitrary: rs) (auto simp: Cons_eq_map_conv)
  have "map f [1 ..< ex_repetitions ex + 1] = map Inr runs"
    using assms unfolding run_fresh_trials_def f_def traverse_result_eq_Inr .
  from m [OF this] show "map (\<lambda>run. ar_name (snd run)) runs = map (artifact_name ex) [1 ..< ex_repetitions ex + 1]"
    and "map (\<lambda>run. snd (fst run)) runs = map (Pair (ex_name ex)) [1 ..< ex_repetitions ex + 1]" by auto
qed

definition trial_plan :: "bench_experiment list \<Rightarrow> (string \<times> nat) list" where
  "trial_plan exs = concat (map (\<lambda>ex. map (Pair (ex_name ex)) [1 ..< ex_repetitions ex + 1]) exs)"

lemma entries_files: "map be_artifact_file (entries_of ex as) = map (\<lambda>a. ar_name a @ ''.json'') as"
proof -
  have "map be_artifact_file (entries_of ex as) = map (\<lambda>a. ar_name a @ ''.json'') (map snd (enumerate 1 as))"
    unfolding entries_of_def map_map by (rule map_cong) auto
  then show ?thesis by (simp only: map_snd_enumerate)
qed

lemma entries_plan: "map (\<lambda>e. (be_experiment e, be_trial e)) (entries_of ex as) = map (Pair (ex_name ex)) [1 ..< length as + 1]"
proof -
  have "map (\<lambda>e. (be_experiment e, be_trial e)) (entries_of ex as) = map (Pair (ex_name ex)) (map fst (enumerate 1 as))"
    unfolding entries_of_def map_map by (rule map_cong) auto
  then show ?thesis by (simp only: map_fst_enumerate) (simp add: add.commute)
qed

text \<open>What the runs add to the summary.\<close>

lemma runs_recorded:
  assumes "run_experiments w exs s = Inr s'"
  shows "map (\<lambda>e. (be_experiment e, be_trial e)) (bs_experiments s') =
      map (\<lambda>e. (be_experiment e, be_trial e)) (bs_experiments s) @ trial_plan (map snd exs) \<and>
    map snd (bs_groups s') = map snd (bs_groups s) @ trial_plan (map snd exs) \<and>
    map be_artifact_file (bs_experiments s') =
      map be_artifact_file (bs_experiments s) @ map (\<lambda>n. n @ ''.json'') (artifact_names (map snd exs)) \<and>
    map (\<lambda>t. (tr_name t, tr_trials t)) (bs_aggregates s') =
      map (\<lambda>t. (tr_name t, tr_trials t)) (bs_aggregates s) @ map (\<lambda>(d, ex). (ex_name ex, int (ex_repetitions ex))) exs \<and>
    (list_all (\<lambda>t. 0 \<le> tr_incomplete_trials t) (bs_aggregates s) \<longrightarrow> list_all (\<lambda>t. 0 \<le> tr_incomplete_trials t) (bs_aggregates s'))"
  using assms
proof (induction exs arbitrary: s)
  case (Cons dex exs)
  obtain d ex where dex: "dex = (d, ex)" by (cases dex)
  from Cons.prems obtain runs where runs: "run_fresh_trials w d ex = Inr runs"
    and rest: "run_experiments w exs (s\<lparr>bs_groups := bs_groups s @ map fst runs,
            bs_experiments := bs_experiments s @ entries_of ex (map snd runs),
            bs_aggregates := bs_aggregates s @ [summarize_trials ex (map snd runs)]\<rparr>) = Inr s'"
    by (auto simp: dex bind_result_eq_Inr)
  note n = fresh_trials_named [OF runs]
  have len: "length runs = ex_repetitions ex" using arg_cong [OF n(1), of length] by simp
  have "map be_artifact_file (entries_of ex (map snd runs)) = map (\<lambda>n. n @ ''.json'') (map (artifact_name ex) [1 ..< ex_repetitions ex + 1])"
    unfolding entries_files n(1) [symmetric] by simp
  moreover have "map snd (map fst runs) = map (Pair (ex_name ex)) [1 ..< ex_repetitions ex + 1]"
    using n(2) by (simp add: comp_def)
  moreover have "tr_name (summarize_trials ex as) = ex_name ex" "tr_trials (summarize_trials ex as) = int (length as)"
    "0 \<le> tr_incomplete_trials (summarize_trials ex as)" for as
    by (simp_all add: summarize_trials_def Let_def completed_artifacts_alt)
  ultimately show ?case using Cons.IH [OF rest]
    by (simp add: dex trial_plan_def artifact_names_def entries_plan len del: upt_Suc)
qed (simp add: trial_plan_def artifact_names_def)

text \<open>
  C14. What \<^verbatim>\<open>main\<close> leaves behind accounts for every trial. Whenever a summary is written, it lists each
  trial of each selected experiment once, in the order of the selection, among the starts and
  among the runs; no two trials write the same artifact file; the aggregates are of the selected
  experiments with their repetitions, and a selection by name has exactly the names that were asked
  for; and the script ends without an error exactly when no aggregate has an incomplete trial.
\<close>

theorem experiments_are_accounted_for:
  assumes "bench_main known hidden only trials w world dir = (Some s, out)"
  shows "\<exists>groups. select_groups known hidden only trials w = Inr groups \<and>
    map (\<lambda>e. (be_experiment e, be_trial e)) (bs_experiments s) = trial_plan (map snd (all_experiments groups)) \<and>
    map snd (bs_groups s) = trial_plan (map snd (all_experiments groups)) \<and>
    distinct (map be_artifact_file (bs_experiments s)) \<and>
    map (\<lambda>t. (tr_name t, tr_trials t)) (bs_aggregates s) =
      map (\<lambda>(d, ex). (ex_name ex, int (ex_repetitions ex))) (all_experiments groups) \<and>
    (case only of None \<Rightarrow> True | Some names \<Rightarrow> set (group_names groups) = names) \<and>
    (out = Inr () \<longleftrightarrow> list_all (\<lambda>t. tr_incomplete_trials t = 0) (bs_aggregates s))"
proof -
  let ?start = "\<lparr>bs_groups = [], bs_experiments = [], bs_aggregates = []\<rparr>"
  obtain groups where sel: "select_groups known hidden only trials w = Inr groups"
    and ran: "run_experiments world (all_experiments groups) ?start = Inr s"
    and out: "out = Inr () \<longleftrightarrow> sum_list (map tr_incomplete_trials (bs_aggregates s)) = 0"
    using assms by (auto simp: bench_main_def Let_def bind_result_eq_Inr split: sum.splits if_splits)
  have r: "map (\<lambda>e. (be_experiment e, be_trial e)) (bs_experiments s) = trial_plan (map snd (all_experiments groups))"
    "map snd (bs_groups s) = trial_plan (map snd (all_experiments groups))"
    "map be_artifact_file (bs_experiments s) = map (\<lambda>n. n @ ''.json'') (artifact_names (map snd (all_experiments groups)))"
    "map (\<lambda>t. (tr_name t, tr_trials t)) (bs_aggregates s) =
      map (\<lambda>(d, ex). (ex_name ex, int (ex_repetitions ex))) (all_experiments groups)"
    "list_all (\<lambda>t. 0 \<le> tr_incomplete_trials t) (bs_aggregates s)"
    using runs_recorded [OF ran] by simp_all
  have "distinct (map be_artifact_file (bs_experiments s))"
    unfolding r(3) using selected_distinct(1) [OF sel] by (simp add: distinct_map inj_on_def)
  moreover have "sum_list (map tr_incomplete_trials (bs_aggregates s)) = 0 \<longleftrightarrow> list_all (\<lambda>t. tr_incomplete_trials t = 0) (bs_aggregates s)"
    using r(5) by (subst sum_list_nonneg_eq_0_iff) (auto simp: list_all_iff)
  moreover have "case only of None \<Rightarrow> True | Some names \<Rightarrow> set (group_names groups) = names"
    using selected_distinct(2) [OF sel] by (auto split: option.splits)
  ultimately show ?thesis using sel r(1,2,4) out by (intro exI [of _ groups]) simp
qed

lemma topology_made:
  assumes "known ''US''" and "in_range 2 10 n"
  obtains sc0 sc where "default_scenario known n = Inr sc0" and "apply_topology_preset sc0 t = Inr sc"
proof -
  obtain sc0 where sc0: "default_scenario known n = Inr sc0"
    using default_scenario_valid [of known n] assms by (cases "default_scenario known n") (auto simp: in_range_def)
  have "graph_wf sc0" using default_checked(1) [OF sc0] by (simp add: check_scenario_Inr)
  from that [OF sc0 apply_preset_ok [OF this default_checked(3) [OF sc0]]] show thesis .
qed

lemma builtin_made:
  assumes "known ''US''"
  obtains groups where "builtin_groups known hidden = Inr groups"
proof -
  have made: "isOk (bench_scenario known n t preset)" if "in_range 2 10 n" for n t preset
    by (rule topology_made [of known n t, OF assms that]) (simp add: bench_scenario_def)
  have "isOk (builtin_groups known hidden)"
    using made [of 10 FULL_MESH "''LONG_FAST''"] made [of 10 FULL_MESH "''SHORT_FAST''"] made [of 5 LINE "''LONG_FAST''"]
    by (auto simp: builtin_groups_def in_range_def isOk_iff)
  with that show thesis by (auto simp: isOk_iff)
qed

text \<open>A sweep of one trial for each of two presets, whose exported results have no messages.\<close>

definition lab_world :: "run_result \<Rightarrow> bench_world" where
  "lab_world r =
     \<lparr>bw_text = \<lparr>st_space = (\<lambda>_. False), st_float = (\<lambda>_. None), st_int = (\<lambda>_. None)\<rparr>, bw_render = (\<lambda>_. []),
      bw_start = (\<lambda>_ _. \<lparr>sa_stop_sent = Inr (), sa_stop_polls = [Inr (Some ''RUNNING''), Inr (Some ''STOPPED'')], sa_replaced = Inr (),
        sa_started = Inr (), sa_run_polls = [Inr (Some ''RUNNING'')], sa_stats = [(0, None)], sa_elapsed = 1, sa_nodes = Inr [''node-1'']\<rparr>),
      bw_run = (\<lambda>_ _. \<lparr>ra_posted = Inr (), ra_polls = [(1, Inr \<lparr>ss_elapsed_seconds = 0, ss_state = ''COMPLETED'', ss_phase = Ph_TERMINAL,
            ss_requested = 0, ss_submitted = 0, ss_pending_firmware_admissions = 0, ss_unresolved_direct_messages = 0,
            ss_drain_remaining = None\<rparr>)],
        ra_stats = [], ra_elapsed = 1, ra_links = Inr (), ra_exported = Inr (r\<lparr>r_generated_messages := [], r_state := Run_COMPLETED\<rparr>)\<rparr>),
      bw_capabilities = Inr (), bw_stop_sent = Inr (), bw_stop_polls = [Inr (Some ''STOPPED'')]\<rparr>"

lemma lab_world_run:
  assumes "r_request r = relay_request" and "ex_request ex = relay_request"
  shows "\<exists>a. run_experiment (bw_text (lab_world r)) ex trial (bw_run (lab_world r) ex trial) = Inr a \<and>
    r_state (ar_result a) = Run_COMPLETED"
proof -
  have f: "scheduling_flows relay_request = [default_flow relay_request]" by (simp add: scheduling_flows_def relay_request_def)
  have "isOk (summarize_flows (r\<lparr>r_generated_messages := [], r_state := Run_COMPLETED\<rparr>))"
    using assms(1) by (simp add: summarize_flows_def f Let_def flow_summary_of_def percentile_def flow_latencies_def)
  moreover have "isOk (traffic_wait_deadline relay_request)"
    by (simp add: traffic_wait_deadline_def relay_request_valid(1) f py_max_def)
  ultimately show ?thesis using assms(2)
    by (auto simp: run_experiment_def lab_world_def timed_resource_capture_def isOk_iff TERMINAL_TRAFFIC_STATES_def Let_def)
qed

lemma lab_workload_groups:
  "\<exists>a b. workload_groups (\<lambda>r. r = ''US'') (Some 1) lab_workload =
     Inr [(a, [plain_experiment ''relay-sweep-long-fast'' relay_request 1]), (b, [plain_experiment ''relay-sweep-short-fast'' relay_request 1])]"
proof -
  obtain sc0 sc where d: "default_scenario (\<lambda>r. r = ''US'') 3 = Inr sc0" "apply_topology_preset sc0 LINE = Inr sc"
    by (rule topology_made [of "\<lambda>r. r = ''US''" 3 LINE]) (simp_all add: in_range_def)
  have "isOk (workload_scenario (\<lambda>r. r = ''US'') lab_workload preset)" if "preset \<in> SUPPORTED_MODEM_PRESETS" for preset
    using that d by (simp add: workload_scenario_def lab_workload_def check_rf_def validate_region_def in_range_def Let_def)
  from this [of "''LONG_FAST''"] this [of "''SHORT_FAST''"]
  obtain a b where "workload_scenario (\<lambda>r. r = ''US'') lab_workload ''LONG_FAST'' = Inr a"
    "workload_scenario (\<lambda>r. r = ''US'') lab_workload ''SHORT_FAST'' = Inr b"
    by (auto simp: SUPPORTED_MODEM_PRESETS_def isOk_iff)
  moreover have "wl_modem_presets lab_workload = [''LONG_FAST'', ''SHORT_FAST'']" "wl_traffic lab_workload = relay_request"
    "wl_name lab_workload = ''relay-sweep''" by (simp_all add: lab_workload_def)
  ultimately show ?thesis by (simp add: workload_groups_def)
qed

lemma experiments_are_accounted_for_witness:
  "\<exists>r s. t_frozen_result lab_failed = Some r \<and>
     bench_main (\<lambda>r. r = ''US'') relay_scenario None (Some 1) (Some lab_workload) (lab_world r) ''out'' = (Some s, Inr ()) \<and>
     map (\<lambda>e. (be_experiment e, be_trial e)) (bs_experiments s) = [(''relay-sweep-long-fast'', 1), (''relay-sweep-short-fast'', 1)] \<and>
     distinct (map be_artifact_file (bs_experiments s)) \<and> list_all (\<lambda>t. tr_incomplete_trials t = 0) (bs_aggregates s)"
proof -
  obtain r where r: "t_frozen_result lab_failed = Some r" "lab_reachable (\<lambda>_ _ _. True) lab_failed" by (rule lab_failed_steps)
  have q: "r_request r = relay_request" by (rule lab_requests(3) [OF frozen_totals(1) [OF r(2,1)]])
  let ?w = "lab_world r" and ?ex = "\<lambda>name. plain_experiment name relay_request 1"
  obtain a b where groups: "workload_groups (\<lambda>r. r = ''US'') (Some 1) lab_workload =
     Inr [(a, [?ex ''relay-sweep-long-fast'']), (b, [?ex ''relay-sweep-short-fast''])]" using lab_workload_groups by auto
  obtain builtin where "builtin_groups (\<lambda>r. r = ''US'') relay_scenario = Inr builtin"
    using builtin_made [of "\<lambda>r. r = ''US''" relay_scenario] by auto
  then have sel: "select_groups (\<lambda>r. r = ''US'') relay_scenario None (Some 1) (Some lab_workload) =
      Inr [(a, [?ex ''relay-sweep-long-fast'']), (b, [?ex ''relay-sweep-short-fast''])]"
    by (simp add: select_groups_def lab_workload_valid groups [simplified])
  have "\<exists>runs. run_fresh_trials ?w d (?ex name) = Inr runs \<and> list_all (\<lambda>a. r_state (ar_result a) = Run_COMPLETED) (map snd runs)" for d name
  proof -
    obtain x where x: "run_experiment (bw_text ?w) (?ex name) 1 (bw_run ?w (?ex name) 1) = Inr x" "r_state (ar_result x) = Run_COMPLETED"
      using lab_world_run [OF q, of "?ex name" 1] by (auto simp: plain_experiment_def)
    have "isOk (start_scenario (bw_text ?w) (bw_render ?w) d (bw_start ?w (?ex name) 1))"
      by (simp add: start_scenario_def lab_world_def timed_resource_capture_def sample_of_def)
    with x show ?thesis by (auto simp: run_fresh_trials_def plain_experiment_def isOk_iff)
  qed
  then obtain as bs where runs: "run_fresh_trials ?w a (?ex ''relay-sweep-long-fast'') = Inr as"
    "run_fresh_trials ?w b (?ex ''relay-sweep-short-fast'') = Inr bs"
    and ok: "list_all (\<lambda>a. r_state (ar_result a) = Run_COMPLETED) (map snd as)" "list_all (\<lambda>a. r_state (ar_result a) = Run_COMPLETED) (map snd bs)"
    by meson
  have none: "tr_incomplete_trials (summarize_trials ex as) = 0" if "list_all (\<lambda>a. r_state (ar_result a) = Run_COMPLETED) as" for ex as
    using that by (simp add: summarize_trials_def Let_def completed_artifacts_alt list_all_iff)
  have stop: "bw_capabilities ?w = Inr ()" "bw_stop_sent ?w = Inr ()"
    "wait_for_state (bw_render ?w) ''STOPPED'' (bw_stop_polls ?w) = Inr ''STOPPED''" by (simp_all add: lab_world_def)
  have main: "bench_main (\<lambda>r. r = ''US'') relay_scenario None (Some 1) (Some lab_workload) ?w ''out'' = (Some s, Inr ())"
    if "run_experiments ?w [(a, ?ex ''relay-sweep-long-fast''), (b, ?ex ''relay-sweep-short-fast'')]
          \<lparr>bs_groups = [], bs_experiments = [], bs_aggregates = []\<rparr> = Inr s"
      and "sum_list (map tr_incomplete_trials (bs_aggregates s)) = 0" for s
    unfolding bench_main_def sel using that by (simp add: stop all_experiments_def)
  obtain s where s: "bench_main (\<lambda>r. r = ''US'') relay_scenario None (Some 1) (Some lab_workload) ?w ''out'' = (Some s, Inr ())"
    by (rule that, rule main, unfold run_experiments.simps runs bind_result_simps, rule refl) (simp add: none ok)
  show ?thesis using experiments_are_accounted_for [OF s] sel r(1) s
    by (auto simp: trial_plan_def all_experiments_def plain_experiment_def)
qed

end
