(* ===== verification/Acceptance.thy ===== *)
theory Acceptance
  imports Traffic_State
begin

text \<open>
  The acceptance run, \<^verbatim>\<open>src/scripts/acceptance.py\<close>, and the port check before a start,
  \<^verbatim>\<open>src/scripts/preflight.py\<close>. A run is a sequence of stretches on a state that keeps the
  step, the clients it holds, the public ports, whether it started the stack, and the
  actions it has taken, in order; an operation that raises ends the body, and the cleanup follows
  whatever the body did. The answers of the service, of the official clients and of the sockets are
  arguments. A list of answers that ends before its loop does is the deadline of the loop.
  Messages leave out the bodies that the script prints into them.
\<close>

subsection \<open>Waiting\<close>

text \<open>The answers of the status route: the fields \<^verbatim>\<open>state\<close> and \<^verbatim>\<open>message\<close>, or an exception.\<close>

fun acceptance_wait_for_state :: "string \<Rightarrow> (string option \<times> string) result list \<Rightarrow> unit result" where
  "acceptance_wait_for_state expected [] = Inl (AcceptanceFailure (''timed out waiting for '' @ expected))"
| "acceptance_wait_for_state expected (Inl e # polls) = Inl e"
| "acceptance_wait_for_state expected (Inr (st, message) # polls) =
     (if st = Some expected then Inr ()
      else if st = Some ''FAILED'' then Inl (AcceptanceFailure (''simulation failed: '' @ message))
      else acceptance_wait_for_state expected polls)"

text \<open>\<open>None\<close> is an \<^verbatim>\<open>httpx.HTTPError\<close>, which is suppressed; an answer has its status code.\<close>

fun wait_for_api :: "int option list \<Rightarrow> unit result" where
  "wait_for_api [] = Inl (AcceptanceFailure ''API health endpoint did not become available'')"
| "wait_for_api (p # polls) = (if p = Some 200 then Inr () else wait_for_api polls)"

text \<open>
  What \<^verbatim>\<open>Queue.get\<close> does in a turn: the clock at the test of the loop and the received text, \<open>None\<close> for
  \<^verbatim>\<open>queue.Empty\<close>.
\<close>

type_synonym queue_turns = "(pyfloat \<times> string option) list"

definition quoted :: "string \<Rightarrow> string" where
  "quoted s = CHR 0x27 # s @ [CHR 0x27]"

definition not_received :: "string \<Rightarrow> pyerr" where
  "not_received expected = AcceptanceFailure (''did not receive '' @ quoted expected)"

fun receive_expected :: "string \<Rightarrow> pyfloat \<Rightarrow> queue_turns \<Rightarrow> unit result" where
  "receive_expected expected deadline [] = Inl (not_received expected)"
| "receive_expected expected deadline ((now, got) # turns) =
     (if \<not> now < deadline then Inl (not_received expected)
      else case got of
        None \<Rightarrow> Inl (not_received expected)
      | Some v \<Rightarrow> if v = expected then Inr () else receive_expected expected deadline turns)"

fun assert_not_received :: "string \<Rightarrow> pyfloat \<Rightarrow> queue_turns \<Rightarrow> unit result" where
  "assert_not_received expected deadline [] = Inr ()"
| "assert_not_received expected deadline ((now, got) # turns) =
     (if \<not> now < deadline then Inr ()
      else case got of
        None \<Rightarrow> Inr ()
      | Some v \<Rightarrow>
          if v = expected
          then Inl (AcceptanceFailure (''unexpectedly received '' @ quoted expected @ '' across the disabled relay link''))
          else assert_not_received expected deadline turns)"

subsection \<open>Listeners\<close>

text \<open>
  How a probe of a port ends: \<^verbatim>\<open>create_connection\<close> raises, the peer sends a byte or closes, the read
  times out, or the connection breaks.
\<close>

datatype probe = Probe_refused | Probe_data | Probe_eof | Probe_timeout | Probe_reset

definition occupied_ports :: "(int \<Rightarrow> probe) \<Rightarrow> int list \<Rightarrow> int list" where
  "occupied_ports probes ports = filter (\<lambda>p. probes p \<in> {Probe_data, Probe_timeout}) ports"

definition show_ports :: "int list \<Rightarrow> string" where
  "show_ports ports = join '', '' (map show_int ports)"

definition listeners_closed :: "(int \<Rightarrow> probe) \<Rightarrow> int list \<Rightarrow> unit result" where
  "listeners_closed probes ports =
     (let occupied = occupied_ports probes ports in
      if occupied = [] then Inr ()
      else Inl (AcceptanceFailure (''public listeners remained open after stop: ['' @ show_ports occupied @ '']'')))"

text \<open>\<^verbatim>\<open>preflight.py\<close>: \<open>binds\<close> says whether a port can be bound.\<close>

definition REQUIRED_PORTS :: "int list" where
  "REQUIRED_PORTS = 8080 # [45001 .. 45010]"

fun unavailable_ports :: "(int \<Rightarrow> bool) \<Rightarrow> int list \<Rightarrow> int list" where
  "unavailable_ports binds [] = []"
| "unavailable_ports binds (p # ports) =
     (if binds p then unavailable_ports binds ports else p # unavailable_ports binds ports)"

definition preflight_main :: "(int \<Rightarrow> bool) \<Rightarrow> string option" where
  "preflight_main binds =
     (let unavailable = unavailable_ports binds REQUIRED_PORTS in
      if unavailable = [] then None
      else Some (''Meshtastic Lab cannot bind 127.0.0.1; unavailable ports: '' @ show_ports unavailable @
                 ''. Stop the conflicting process or stack, then retry.''))"

subsection \<open>The state of a run\<close>

datatype acceptance_action =
    Compose_up
  | Compose_down
  | Stop_simulation
  | Put_scenario
  | Start_simulation
  | Open_client int
  | Close_client int
  | Subscribe_text
  | Unsubscribe_text
  | Send_text int string int
  | Put_link directed_link
  | Start_run traffic_request

record acceptance =
  ac_step :: string
  ac_stack_owned :: bool
  ac_interfaces :: "int list"
  ac_ports :: "int list"
  ac_actions :: "acceptance_action list"

definition new_acceptance :: acceptance where
  "new_acceptance = \<lparr>ac_step = ''initialize'', ac_stack_owned = False, ac_interfaces = [], ac_ports = [], ac_actions = []\<rparr>"

type_synonym 'a stretch = "acceptance \<Rightarrow> acceptance \<times> 'a result"

text \<open>One stretch after another; a stretch that raises ends the sequence in the state it reached.\<close>

definition andthen :: "'a stretch \<Rightarrow> ('a \<Rightarrow> 'b stretch) \<Rightarrow> 'b stretch" where
  "andthen m f s = (case m s of (s', Inl e) \<Rightarrow> (s', Inl e) | (s', Inr x) \<Rightarrow> f x s')"

definition outcome :: "'a result \<Rightarrow> 'a stretch" where
  "outcome r s = (s, r)"

definition step_named :: "string \<Rightarrow> unit stretch" where
  "step_named name s = (s\<lparr>ac_step := name\<rparr>, Inr ())"

text \<open>An action is taken whether or not its answer raises.\<close>

definition act :: "acceptance_action \<Rightarrow> 'a result \<Rightarrow> 'a stretch" where
  "act a answer s = (s\<lparr>ac_actions := ac_actions s @ [a]\<rparr>, answer)"

definition require :: "bool \<Rightarrow> string \<Rightarrow> unit stretch" where
  "require ok message = outcome (if ok then Inr () else Inl (AcceptanceFailure message))"

subsection \<open>What the world answers\<close>

text \<open>\<^verbatim>\<open>capabilities.get(field)\<close> and the same of an export: an absent key and a null value are \<open>None\<close>.\<close>

type_synonym provenance_view = "(string, string option) dict"

definition field_of :: "provenance_view \<Rightarrow> string \<Rightarrow> string option" where
  "field_of d f = (case dict_get d f of None \<Rightarrow> None | Some v \<Rightarrow> v)"

record acceptance_capabilities =
  ca_collision_available :: bool
  ca_provenance_available :: bool
  ca_fields :: provenance_view
  ca_collision_model :: string

record node_info =
  ni_id :: string
  ni_number :: "int option"
  ni_public_endpoint :: string

record run_poll =
  rp_state :: "string option"
  rp_transmitted :: int
  rp_metrics :: metrics_snapshot

text \<open>One attempt to send: the outcome of the send, the deadline, and the turns of the queue.\<close>

type_synonym send_attempt = "unit result \<times> pyfloat \<times> queue_turns"

record acceptance_world =
  aw_health :: "int option list"
  aw_compose_up :: "unit result"
  aw_health_again :: "int option list"
  aw_capabilities :: "acceptance_capabilities result"
  aw_simulator_commit :: "string option"
  aw_stop :: "unit result"
  aw_stop_polls :: "(string option \<times> string) result list"
  aw_replaced :: "unit result"
  aw_started :: "unit result"
  aw_run_polls :: "(string option \<times> string) result list"
  aw_nodes :: "node_info list result"
  aw_port_text :: "nat list \<Rightarrow> int option"
  aw_connect :: "int \<Rightarrow> bool result"
  aw_first_attempts :: "nat \<Rightarrow> send_attempt"
  aw_disabled :: "unit result"
  aw_blocked :: send_attempt
  aw_restored :: "unit result"
  aw_later_attempts :: "nat \<Rightarrow> send_attempt"
  aw_traffic_started :: "string result"
  aw_current_polls :: "run_poll result list"
  aw_events :: "packet_event list result"
  aw_persisted :: "(string option \<times> bool) result"
  aw_exported :: "(bool \<times> provenance_view) result"
  aw_final_stop :: "unit result"
  aw_final_polls :: "(string option \<times> string) result list"
  aw_probes :: "int \<Rightarrow> probe"
  aw_compose_down :: "unit result"

subsection \<open>The steps\<close>

definition reach_api :: "acceptance_world \<Rightarrow> bool \<Rightarrow> unit stretch" where
  "reach_api w start_stack =
     andthen (step_named ''wait for API health'') (\<lambda>_ s.
       case wait_for_api (aw_health w) of
         Inr _ \<Rightarrow> (s, Inr ())
       | Inl e \<Rightarrow>
           if \<not> start_stack then (s, Inl e)
           else andthen (act Compose_up (aw_compose_up w))
                  (\<lambda>_ s. outcome (wait_for_api (aw_health_again w)) (s\<lparr>ac_stack_owned := True\<rparr>)) s)"

definition provenance_fields :: "string list" where
  "provenance_fields = [''firmwareCommit'', ''collisionPatchSha256'', ''firmwareBinarySha256'', ''buildArchitecture'',
     ''clientLibraryVersion'', ''upstreamBaseImageDigest'', ''meshtasticatorCommit'']"

definition check_capabilities :: "acceptance_world \<Rightarrow> acceptance_capabilities stretch" where
  "check_capabilities w =
     andthen (outcome (aw_capabilities w)) (\<lambda>c.
     andthen (require (ca_collision_available c) ''native collision capability unavailable'') (\<lambda>_.
     andthen (require (ca_provenance_available c \<and>
         list_all (\<lambda>f. field_of (ca_fields c) f \<notin> {None, Some '''', Some ''unavailable''}) provenance_fields)
         ''native build provenance unavailable'') (\<lambda>_.
     andthen (require (case aw_simulator_commit w of
           None \<Rightarrow> True
         | Some commit \<Rightarrow> commit = '''' \<or> commit = ''unavailable'' \<or> field_of (ca_fields c) ''meshtasticatorCommit'' = Some commit)
         ''native simulator provenance differs from the checked-out revision'') (\<lambda>_.
       outcome (Inr c)))))"

definition load_and_start :: "acceptance_world \<Rightarrow> unit stretch" where
  "load_and_start w =
     andthen (step_named ''load and start three-node relay scenario'') (\<lambda>_.
     andthen (act Stop_simulation (aw_stop w)) (\<lambda>_.
     andthen (outcome (acceptance_wait_for_state ''STOPPED'' (aw_stop_polls w))) (\<lambda>_.
     andthen (act Put_scenario (aw_replaced w)) (\<lambda>_.
     andthen (act Start_simulation (aw_started w)) (\<lambda>_.
       outcome (acceptance_wait_for_state ''RUNNING'' (aw_run_polls w)))))))"

text \<open>\<^verbatim>\<open>int(str(endpoint).rsplit(":", 1)[1])\<close>\<close>

definition endpoint_port :: "(nat list \<Rightarrow> int option) \<Rightarrow> string \<Rightarrow> int result" where
  "endpoint_port port_text endpoint =
     (if 58 \<notin> set (codes endpoint) then Inl IndexError
      else case port_text (rev (takeWhile (\<lambda>c. c \<noteq> 58) (rev (codes endpoint)))) of
        None \<Rightarrow> Inl (ValueError ''invalid literal for int() with base 10'')
      | Some port \<Rightarrow> Inr port)"

definition verify_nodes :: "acceptance_world \<Rightarrow> node_info list stretch" where
  "verify_nodes w =
     andthen (step_named ''verify API node information'') (\<lambda>_.
     andthen (outcome (aw_nodes w)) (\<lambda>views.
     andthen (require (length views = 3 \<and> list_all (\<lambda>v. ni_number v \<noteq> None) views) ''node information was not verified'') (\<lambda>_.
     andthen (outcome (traverse_result (\<lambda>v. endpoint_port (aw_port_text w) (ni_public_endpoint v)) views)) (\<lambda>ports s.
       (s\<lparr>ac_ports := ports\<rparr>, Inr views)))))"

text \<open>
  The clients connect together: when one fails, the failure is raised, while the others that
  connect are not held by the run.
\<close>

definition connect_clients :: "acceptance_world \<Rightarrow> unit stretch" where
  "connect_clients w s =
     (let ports = ac_ports s;
          s' = s\<lparr>ac_step := ''connect three official clients'',
                ac_actions := ac_actions s @ map Open_client (filter (\<lambda>p. isOk (aw_connect w p)) ports)\<rparr>
      in case traverse_result (aw_connect w) ports of
           Inl e \<Rightarrow> (s', Inl e)
         | Inr infos \<Rightarrow>
             require (list_all (\<lambda>info. info) infos) ''an official client did not receive local node information''
               (s'\<lparr>ac_interfaces := ports\<rparr>))"

definition target_number :: "node_info list \<Rightarrow> int result" where
  "target_number views =
     (case find (\<lambda>v. ni_id v = ''node-3'') views of
        None \<Rightarrow> Inl StopIteration
      | Some v \<Rightarrow> (case ni_number v of None \<Rightarrow> Inl (TypeError ''int() argument'') | Some n \<Rightarrow> Inr n))"

fun send_attempts :: "int \<Rightarrow> string \<Rightarrow> int \<Rightarrow> send_attempt list \<Rightarrow> unit stretch" where
  "send_attempts source expected target [] =
     outcome (Inl (AcceptanceFailure (''did not receive '' @ quoted expected @ '' after 3 native RF attempts'')))"
| "send_attempts source expected target ((sent, deadline, turns) # attempts) =
     andthen (act (Send_text source expected target) sent) (\<lambda>_.
       case receive_expected expected deadline turns of
         Inr _ \<Rightarrow> outcome (Inr ())
       | Inl _ \<Rightarrow> send_attempts source expected target attempts)"

definition send_until_received :: "int \<Rightarrow> string \<Rightarrow> int \<Rightarrow> (nat \<Rightarrow> send_attempt) \<Rightarrow> unit stretch" where
  "send_until_received source expected target answers = send_attempts source expected target (map answers [0, 1, 2])"

definition relay_link :: "bool \<Rightarrow> directed_link" where
  "relay_link on = \<lparr>from_node = ''node-2'', to_node = ''node-3'', enabled = on, rssi_dbm = - 85, snr_db = 8\<rparr>"

text \<open>The first of the three clients sends; a link that is taken away and given back in between.\<close>

definition exercise_from :: "acceptance_world \<Rightarrow> int \<Rightarrow> int \<Rightarrow> unit stretch" where
  "exercise_from w source target =
     andthen (step_named ''deliver through firmware relay'') (\<lambda>_.
     andthen (send_until_received source ''accept-relay-one'' target (aw_first_attempts w)) (\<lambda>_.
     andthen (step_named ''disable relay link and confirm bounded non-delivery'') (\<lambda>_.
     andthen (act (Put_link (relay_link False)) (aw_disabled w)) (\<lambda>_.
     andthen (act (Send_text source ''accept-relay-blocked'' target) (fst (aw_blocked w))) (\<lambda>_.
     andthen (outcome (assert_not_received ''accept-relay-blocked'' (fst (snd (aw_blocked w))) (snd (snd (aw_blocked w))))) (\<lambda>_.
     andthen (step_named ''restore relay link and confirm delivery'') (\<lambda>_.
     andthen (act (Put_link (relay_link True)) (aw_restored w)) (\<lambda>_.
       send_until_received source ''accept-relay-restored'' target (aw_later_attempts w)))))))))"

definition exercise_relay :: "acceptance_world \<Rightarrow> int \<Rightarrow> unit stretch" where
  "exercise_relay w target s = exercise_from w (hd (ac_interfaces s)) target s"

definition acceptance_request :: traffic_request where
  "acceptance_request =
     \<lparr>q_kind = DIRECT_TEXT, q_source_nodes = [''node-1''], q_destination_strategy = FIXED, q_fixed_destination = Some ''node-3'',
      q_messages_per_minute = 30, q_payload_bytes = 64, q_duration_seconds = 8, q_acknowledgment_requested = True,
      q_source_timing = ALIGNED, q_flows = [], q_seed = 17\<rparr>"

text \<open>The last body that the polls of the current run return, until a terminal state.\<close>

fun await_run :: "run_poll option \<Rightarrow> run_poll result list \<Rightarrow> run_poll option result" where
  "await_run latest [] = Inr latest"
| "await_run latest (Inl e # polls) = Inl e"
| "await_run latest (Inr p # polls) =
     (if rp_state p \<in> Some ` {''COMPLETED'', ''FAILED'', ''CANCELLED''} then Inr (Some p) else await_run (Some p) polls)"

definition run_traffic :: "acceptance_world \<Rightarrow> (string \<times> run_poll option) stretch" where
  "run_traffic w =
     andthen (step_named ''run fixed-rate traffic'') (\<lambda>_.
     andthen (act (Start_run acceptance_request) (aw_traffic_started w)) (\<lambda>run_id.
     andthen (outcome (await_run None (aw_current_polls w))) (\<lambda>last_poll. outcome (Inr (run_id, last_poll)))))"

definition required_positive :: "metrics_snapshot \<Rightarrow> (string \<times> pyfloat option) list" where
  "required_positive m =
     [(''generatedApplicationMessages'', Some (of_int (m_generated m))),
      (''uniqueApplicationMessagesDelivered'', Some (of_int (m_delivered m))),
      (''rfTransmissions'', Some (of_int (m_rf_transmissions m))),
      (''observedAirtimeMs'', Some (of_int (m_observed_airtime_ms m))),
      (''medianLatencyMs'', m_median_latency_ms m)]"

definition acknowledgment_evidence :: "string \<Rightarrow> packet_event \<Rightarrow> bool" where
  "acknowledgment_evidence run_id e \<longleftrightarrow>
     e_traffic_run_id e = Some run_id \<and> e_traffic_sequence e \<noteq> None \<and> e_transmitter e = Some ''node-3'' \<and>
     e_intended_destination e = Some ''node-1''"

record acceptance_summary =
  am_run_id :: string
  am_metrics :: "(string \<times> pyfloat option) list"
  am_collision_model :: string

definition validate_traffic :: "acceptance_world \<Rightarrow> acceptance_capabilities \<Rightarrow> string \<times> run_poll option \<Rightarrow> acceptance_summary stretch" where
  "validate_traffic w c = (\<lambda>(run_id, last_poll).
     andthen (step_named ''validate persisted traffic metrics'') (\<lambda>_.
       case last_poll of
         None \<Rightarrow> outcome (Inl (AcceptanceFailure ''traffic run did not complete''))
       | Some p \<Rightarrow>
           andthen (require (rp_state p = Some ''COMPLETED'') ''traffic run did not complete'') (\<lambda>_.
           andthen (require (list_all (\<lambda>(_, v). case v of None \<Rightarrow> False | Some x \<Rightarrow> 0 < x) (required_positive (rp_metrics p)))
               ''traffic metrics were not internally useful'') (\<lambda>_.
           andthen (require (rp_transmitted p \<le> m_rf_transmissions (rp_metrics p))
               ''RF transmission count is below transmitted application count'') (\<lambda>_.
           andthen (outcome (aw_events w)) (\<lambda>events.
           andthen (require (list_ex (acknowledgment_evidence run_id) events)
               ''encrypted acknowledgment RF evidence was not correlated to the traffic run'') (\<lambda>_.
           andthen (outcome (aw_persisted w)) (\<lambda>(snapshot_name, has_messages).
           andthen (require (snapshot_name = Some ''three-node-relay'') ''persisted run did not contain the exact scenario snapshot'') (\<lambda>_.
           andthen (require (\<not> has_messages) ''bounded result endpoint exposed generated message records'') (\<lambda>_.
           andthen (outcome (aw_exported w)) (\<lambda>(messages_exported, fields).
           andthen (require messages_exported ''completed export omitted generated message records'') (\<lambda>_.
           andthen (require (list_all (\<lambda>f. field_of fields f = field_of (ca_fields c) f) provenance_fields)
               ''completed export provenance differs'') (\<lambda>_.
             outcome (Inr \<lparr>am_run_id = run_id, am_metrics = required_positive (rp_metrics p), am_collision_model = ca_collision_model c\<rparr>))))))))))))))"

definition acceptance_body :: "acceptance_world \<Rightarrow> bool \<Rightarrow> acceptance_summary stretch" where
  "acceptance_body w start_stack =
     andthen (reach_api w start_stack) (\<lambda>_.
     andthen (check_capabilities w) (\<lambda>c.
     andthen (load_and_start w) (\<lambda>_.
     andthen (verify_nodes w) (\<lambda>views.
     andthen (connect_clients w) (\<lambda>_.
     andthen (act Subscribe_text (Inr ())) (\<lambda>_.
     andthen (outcome (target_number views)) (\<lambda>target.
     andthen (exercise_relay w target) (\<lambda>_.
     andthen (run_traffic w) (validate_traffic w c)))))))))"

subsection \<open>Failure and cleanup\<close>

definition exc_name :: "pyerr \<Rightarrow> string" where
  "exc_name e =
     (case e of ValueError _ \<Rightarrow> ''ValueError'' | KeyError _ \<Rightarrow> ''KeyError'' | IndexError \<Rightarrow> ''IndexError'' | StopIteration \<Rightarrow> ''StopIteration''
      | RuntimeError _ \<Rightarrow> ''RuntimeError'' | GatewayError _ \<Rightarrow> ''GatewayError'' | QueueFull \<Rightarrow> ''QueueFull''
      | PacketIdQuarantineCapacityError _ \<Rightarrow> ''PacketIdQuarantineCapacityError'' | FileNotFoundError _ \<Rightarrow> ''FileNotFoundError''
      | SimulationConflict _ _ \<Rightarrow> ''SimulationConflict'' | OverflowError \<Rightarrow> ''OverflowError'' | DecodeError _ \<Rightarrow> ''DecodeError''
      | TypeError _ \<Rightarrow> ''TypeError'' | ZeroDivisionError \<Rightarrow> ''ZeroDivisionError'' | NodeConfigurationError _ \<Rightarrow> ''NodeConfigurationError''
      | TimeoutError \<Rightarrow> ''TimeoutError'' | OSError _ \<Rightarrow> ''OSError'' | AcceptanceFailure _ \<Rightarrow> ''AcceptanceFailure'')"

definition failed_step :: "string \<Rightarrow> pyerr \<Rightarrow> pyerr" where
  "failed_step name e = AcceptanceFailure (name @ '': '' @ exc_name e @ '': '' @ exc_text e)"

text \<open>
  The \<^verbatim>\<open>finally\<close> block. Failures to unsubscribe and to close a client are suppressed; the failure of the
  stop or of the listeners is raised only when the body succeeded.
\<close>

definition acceptance_cleanup :: "acceptance_world \<Rightarrow> bool \<Rightarrow> unit stretch" where
  "acceptance_cleanup w original_failure s =
     (let cleanup = bind_result (aw_final_stop w) (\<lambda>_. bind_result (acceptance_wait_for_state ''STOPPED'' (aw_final_polls w)) (\<lambda>_.
            listeners_closed (aw_probes w) (ac_ports s)));
          s' = s\<lparr>ac_actions := ac_actions s @ [Unsubscribe_text] @ map Close_client (ac_interfaces s) @ [Stop_simulation]
                 @ (if ac_stack_owned s then [Compose_down] else [])\<rparr>
      in (s', bind_result (if ac_stack_owned s then aw_compose_down w else Inr ()) (\<lambda>_.
           if original_failure then Inr () else cleanup)))"

definition run_acceptance :: "acceptance_world \<Rightarrow> bool \<Rightarrow> acceptance_summary stretch" where
  "run_acceptance w start_stack s0 =
     (case acceptance_body w start_stack s0 of
        (s, r) \<Rightarrow>
          (case acceptance_cleanup w (\<not> isOk r) s of
             (s', Inl e) \<Rightarrow> (s', Inl e)
           | (s', Inr _) \<Rightarrow> (s', case r of Inl e \<Rightarrow> Inl (failed_step (ac_step s) e) | Inr x \<Rightarrow> Inr x)))"

text \<open>The exit status and what is printed before the summary.\<close>

definition acceptance_main :: "acceptance_world \<Rightarrow> bool \<Rightarrow> int \<times> string" where
  "acceptance_main w no_start_stack =
     (case snd (run_acceptance w (\<not> no_start_stack) new_acceptance) of
        Inl e \<Rightarrow> (1, ''ACCEPTANCE FAILED: '' @ exc_text e)
      | Inr _ \<Rightarrow> (0, ''ACCEPTANCE PASSED''))"

end
