(* ===== verification/Acceptance_Laws.thy ===== *)
theory Acceptance_Laws
  imports Acceptance
begin

text \<open>
  What the acceptance run guarantees: whatever fails, it lets go of the clients it holds, stops
  the simulation and takes down the stack it started, and reports the step that failed; an exit
  status of zero is evidence for everything it set out to check; and the ports that are checked before
  a start cover every scenario.
\<close>

subsection \<open>Arrivals\<close>

text \<open>The specification of both waits: the text is among those received before the deadline or a gap.\<close>

definition arrives :: "string \<Rightarrow> pyfloat \<Rightarrow> queue_turns \<Rightarrow> bool" where
  "arrives expected deadline turns \<longleftrightarrow>
     list_ex (\<lambda>(now, got). got = Some expected) (takeWhile (\<lambda>(now, got). now < deadline \<and> got \<noteq> None) turns)"

lemma receive_expected_iff: "receive_expected expected deadline turns = Inr () \<longleftrightarrow> arrives expected deadline turns"
  by (induction turns rule: receive_expected.induct) (auto simp: arrives_def split: option.splits)

lemma assert_not_received_iff: "assert_not_received expected deadline turns = Inr () \<longleftrightarrow> \<not> arrives expected deadline turns"
  by (induction turns rule: assert_not_received.induct) (auto simp: arrives_def split: option.splits)

subsection \<open>Stretches\<close>

definition keeps :: "(acceptance \<Rightarrow> bool) \<Rightarrow> 'a stretch \<Rightarrow> bool" where
  "keeps I m \<longleftrightarrow> (\<forall>s. I s \<longrightarrow> I (fst (m s)))"

named_theorems keeps_intros \<open>stretches that keep an invariant\<close>

lemma keeps_andthen [keeps_intros]: "keeps I m \<Longrightarrow> (\<And>x. keeps I (f x)) \<Longrightarrow> keeps I (andthen m f)"
  by (auto simp: keeps_def andthen_def split: prod.split sum.split)

lemma keeps_outcome [keeps_intros]: "keeps I (outcome r)"
  by (simp add: keeps_def outcome_def)

lemma keeps_require [keeps_intros]: "keeps I (require ok message)"
  by (simp add: require_def keeps_outcome)

lemma andthen_Inr:
  "andthen m f s = (s', Inr y) \<longleftrightarrow> (\<exists>s1 x. m s = (s1, Inr x) \<and> f x s1 = (s', Inr y))"
  by (auto simp: andthen_def split: prod.split sum.split)

lemma outcome_Inr: "outcome r s = (s', Inr y) \<longleftrightarrow> s' = s \<and> r = Inr y"
  by (auto simp: outcome_def)

lemma act_Inr: "act a r s = (s', Inr y) \<longleftrightarrow> s' = s\<lparr>ac_actions := ac_actions s @ [a]\<rparr> \<and> r = Inr y"
  by (auto simp: act_def)

lemma step_named_Inr: "step_named n s = (s', Inr y) \<longleftrightarrow> s' = s\<lparr>ac_step := n\<rparr>"
  by (auto simp: step_named_def)

lemma require_Inr: "require ok message s = (s', Inr y) \<longleftrightarrow> s' = s \<and> ok"
  by (auto simp: require_def outcome_def)

lemmas stretch_simps = andthen_Inr outcome_Inr act_Inr step_named_Inr require_Inr

subsection \<open>Cleanup\<close>

text \<open>What the body never does itself, and how what it holds relates to what it did.\<close>

definition held :: "acceptance_world \<Rightarrow> bool \<Rightarrow> acceptance \<Rightarrow> bool" where
  "held w start_stack s \<longleftrightarrow>
     list_all (\<lambda>a. a \<noteq> Compose_down \<and> a \<noteq> Unsubscribe_text \<and> (\<forall>p. a \<noteq> Close_client p)) (ac_actions s) \<and>
     (ac_stack_owned s \<longrightarrow> Compose_up \<in> set (ac_actions s)) \<and>
     (Compose_up \<in> set (ac_actions s) \<longrightarrow> start_stack \<and> (ac_stack_owned s \<or> \<not> isOk (aw_compose_up w))) \<and>
     (\<forall>p. Open_client p \<in> set (ac_actions s) \<longrightarrow> p \<in> set (ac_interfaces s) \<or> (\<exists>q \<in> set (ac_ports s). \<not> isOk (aw_connect w q)))"

lemma held_act:
  "held w st s \<Longrightarrow> a \<notin> {Compose_up, Compose_down, Unsubscribe_text} \<Longrightarrow> (\<And>p. a \<noteq> Close_client p \<and> a \<noteq> Open_client p) \<Longrightarrow>
   held w st (s\<lparr>ac_actions := ac_actions s @ [a]\<rparr>)"
  by (auto simp: held_def)

lemma held_keeps [keeps_intros]:
  "keeps (held w st) (step_named n)"
  "keeps (held w st) (act Subscribe_text r)" "keeps (held w st) (act Stop_simulation r1)" "keeps (held w st) (act Put_scenario r2)"
  "keeps (held w st) (act Start_simulation r3)" "keeps (held w st) (act (Send_text source text target) r4)"
  "keeps (held w st) (act (Put_link l) r5)" "keeps (held w st) (act (Start_run q) r6)"
  by (auto simp: keeps_def step_named_def act_def held_act) (auto simp: held_def)

lemma held_send_attempts [keeps_intros]: "keeps (held w st) (send_attempts source expected target attempts)"
  by (induction source expected target attempts rule: send_attempts.induct)
    (auto intro!: keeps_intros split: sum.split)

definition unopened :: "acceptance \<Rightarrow> bool" where
  "unopened s \<longleftrightarrow> (\<forall>p. Open_client p \<notin> set (ac_actions s))"

lemma unopened_keeps [keeps_intros]:
  "keeps unopened (step_named n)" "keeps unopened (act Stop_simulation r1)" "keeps unopened (act Put_scenario r2)"
  "keeps unopened (act Start_simulation r3)"
  by (auto simp: keeps_def step_named_def act_def unopened_def)

lemma keeps_both: "keeps I m \<Longrightarrow> keeps J m \<Longrightarrow> keeps (\<lambda>s. I s \<and> J s) m"
  by (simp add: keeps_def)

text \<open>The body up to the connection of the clients, and from there on.\<close>

lemma before_clients [keeps_intros]:
  "keeps (\<lambda>s. held w st s \<and> unopened s) (reach_api w st)" "keeps (\<lambda>s. held w st s \<and> unopened s) (check_capabilities w)"
  "keeps (\<lambda>s. held w st s \<and> unopened s) (load_and_start w)" "keeps (\<lambda>s. held w st s \<and> unopened s) (verify_nodes w)"
proof -
  show "keeps (\<lambda>s. held w st s \<and> unopened s) (reach_api w st)"
    by (auto simp: keeps_def reach_api_def andthen_def step_named_def act_def outcome_def held_def unopened_def split: sum.split prod.splits)
  show "keeps (\<lambda>s. held w st s \<and> unopened s) (check_capabilities w)"
    unfolding check_capabilities_def by (intro keeps_both keeps_intros)
  show "keeps (\<lambda>s. held w st s \<and> unopened s) (load_and_start w)"
    unfolding load_and_start_def by (intro keeps_both keeps_intros)
  have "keeps (\<lambda>s. held w st s \<and> unopened s) (\<lambda>s. (s\<lparr>ac_ports := ports\<rparr>, Inr views))" for ports views
    by (auto simp: keeps_def held_def unopened_def)
  then show "keeps (\<lambda>s. held w st s \<and> unopened s) (verify_nodes w)"
    unfolding verify_nodes_def
    by (intro keeps_andthen keeps_both [OF held_keeps(1) unopened_keeps(1)] keeps_outcome keeps_require)
qed

lemma held_connect:
  assumes "held w st s" and "unopened s"
  shows "held w st (fst (connect_clients w s))"
proof (cases "traverse_result (aw_connect w) (ac_ports s)")
  case (Inl e)
  then obtain q where "q \<in> set (ac_ports s)" "\<not> isOk (aw_connect w q)"
    using isOk_traverse [of "aw_connect w" "ac_ports s"] by auto
  with Inl assms show ?thesis unfolding held_def connect_clients_def by (auto simp: Let_def list_all_iff)
next
  case (Inr infos)
  with assms show ?thesis by (auto simp: connect_clients_def Let_def held_def require_def outcome_def unopened_def list_all_iff)
qed

lemma after_clients [keeps_intros]:
  "keeps (held w st) (exercise_relay w target)" "keeps (held w st) (run_traffic w)" "keeps (held w st) (validate_traffic w c x)"
proof -
  have "keeps (held w st) (exercise_from w source target)" for source
    unfolding exercise_from_def send_until_received_def by (intro keeps_intros)
  then show "keeps (held w st) (exercise_relay w target)" by (simp add: exercise_relay_def keeps_def)
  show "keeps (held w st) (run_traffic w)"
    unfolding run_traffic_def by (intro keeps_intros)
  show "keeps (held w st) (validate_traffic w c x)"
    unfolding validate_traffic_def by (auto intro!: keeps_intros split: prod.split option.split)
qed

text \<open>A first stretch that keeps one invariant establishes the other for what follows.\<close>

lemma andthen_into:
  assumes "J s" and "keeps J m" and "\<And>x s. J s \<Longrightarrow> I (fst (f x s))" and "\<And>s. J s \<Longrightarrow> I s"
  shows "I (fst (andthen m f s))"
  using assms by (auto simp: andthen_def keeps_def split: prod.split sum.split)

lemma body_held: "held w st s \<Longrightarrow> unopened s \<Longrightarrow> held w st (fst (acceptance_body w st s))"
proof -
  define J where "J s \<longleftrightarrow> held w st s \<and> unopened s" for s
  have J: "keeps J (reach_api w st)" "keeps J (check_capabilities w)" "keeps J (load_and_start w)" "keeps J (verify_nodes w)"
    and weak: "\<And>s. J s \<Longrightarrow> held w st s"
    using before_clients unfolding J_def by auto
  have conn: "held w st (fst (andthen (connect_clients w) f s))" if "J s" "\<And>x. keeps (held w st) (f x)" for f :: "unit \<Rightarrow> 'a stretch" and s
    using held_connect [of w st s] that by (auto simp: J_def andthen_def keeps_def split: prod.split sum.split)
  have tail: "keeps (held w st) (andthen (act Subscribe_text (Inr ())) (\<lambda>_. andthen (outcome (target_number views)) (\<lambda>target.
     andthen (exercise_relay w target) (\<lambda>_. andthen (run_traffic w) (validate_traffic w c)))))" for c views
    by (intro keeps_intros)
  note into = andthen_into [where J = J and I = "held w st"]
  assume "held w st s" "unopened s"
  then have "J s" by (simp add: J_def)
  then show ?thesis
    unfolding acceptance_body_def
    by (rule into [OF _ J(1) into [OF _ J(2) into [OF _ J(3) into [OF _ J(4) conn [OF _ tail] weak] weak] weak] weak])
qed

text \<open>
  C28. The acceptance run cleans up whatever happens. After its body it unsubscribes, closes every
  client it holds, stops the simulation and takes the stack down exactly when it had started
  it, and nothing of this happens earlier; every client it opened is closed unless another client
  failed to connect, and a stack it tried to start is taken down unless the start itself
  failed. It passes only when the body passed, the stop was confirmed and no public port is still
  served; a failure of the body is reported with its step, and no failure of the cleanup hides it.
\<close>

theorem acceptance_always_cleans_up:
  assumes "run_acceptance w start_stack new_acceptance = (s, out)" and "isOk (aw_compose_down w)"
  shows "\<exists>body_actions. ac_actions s = body_actions @ [Unsubscribe_text] @ map Close_client (ac_interfaces s) @ [Stop_simulation] @
      (if ac_stack_owned s then [Compose_down] else []) \<and>
    list_all (\<lambda>a. a \<noteq> Compose_down \<and> a \<noteq> Unsubscribe_text \<and> (\<forall>p. a \<noteq> Close_client p)) body_actions \<and>
    (\<forall>p. Open_client p \<in> set body_actions \<longrightarrow> p \<in> set (ac_interfaces s) \<or> \<not> list_all (\<lambda>q. isOk (aw_connect w q)) (ac_ports s)) \<and>
    (Compose_up \<in> set body_actions \<longrightarrow> start_stack \<and> (ac_stack_owned s \<or> \<not> isOk (aw_compose_up w))) \<and>
    (case out of
       Inr sm \<Rightarrow> snd (acceptance_body w start_stack new_acceptance) = Inr sm \<and> isOk (aw_final_stop w) \<and>
         isOk (acceptance_wait_for_state ''STOPPED'' (aw_final_polls w)) \<and> occupied_ports (aw_probes w) (ac_ports s) = []
     | Inl e \<Rightarrow> (case snd (acceptance_body w start_stack new_acceptance) of
           Inl e' \<Rightarrow> e = failed_step (ac_step s) e' | Inr _ \<Rightarrow> True))"
proof -
  define b where "b = fst (acceptance_body w start_stack new_acceptance)"
  define r where "r = snd (acceptance_body w start_stack new_acceptance)"
  have br: "acceptance_body w start_stack new_acceptance = (b, r)" by (simp add: b_def r_def)
  have "held w start_stack b"
    unfolding b_def by (rule body_held) (simp_all add: new_acceptance_def held_def unopened_def)
  then have held: "list_all (\<lambda>a. a \<noteq> Compose_down \<and> a \<noteq> Unsubscribe_text \<and> (\<forall>p. a \<noteq> Close_client p)) (ac_actions b)"
    "\<forall>p. Open_client p \<in> set (ac_actions b) \<longrightarrow> p \<in> set (ac_interfaces b) \<or> \<not> list_all (\<lambda>q. isOk (aw_connect w q)) (ac_ports b)"
    "Compose_up \<in> set (ac_actions b) \<longrightarrow> start_stack \<and> (ac_stack_owned b \<or> \<not> isOk (aw_compose_up w))"
    by (simp_all add: held_def list_all_iff Bex_def)
  have s: "s = fst (acceptance_cleanup w (\<not> isOk r) b)"
    using assms(1) by (auto simp: run_acceptance_def br split: prod.splits sum.splits)
  then have same: "ac_interfaces s = ac_interfaces b" "ac_stack_owned s = ac_stack_owned b" "ac_ports s = ac_ports b" "ac_step s = ac_step b"
    "ac_actions s = ac_actions b @ [Unsubscribe_text] @ map Close_client (ac_interfaces b) @ [Stop_simulation] @
      (if ac_stack_owned b then [Compose_down] else [])"
    by (simp_all add: acceptance_cleanup_def Let_def)
  have "case out of
       Inr sm \<Rightarrow> r = Inr sm \<and> isOk (aw_final_stop w) \<and>
         isOk (acceptance_wait_for_state ''STOPPED'' (aw_final_polls w)) \<and> occupied_ports (aw_probes w) (ac_ports b) = []
     | Inl e \<Rightarrow> (case r of Inl e' \<Rightarrow> e = failed_step (ac_step b) e' | Inr _ \<Rightarrow> True)"
    using assms unfolding run_acceptance_def br acceptance_cleanup_def
    by (auto simp: Let_def isOk_iff bind_result_def listeners_closed_def split: sum.splits if_splits)
  then show ?thesis unfolding same r_def [symmetric] using held by (intro exI [of _ "ac_actions b"]) simp
qed

subsection \<open>What a pass shows\<close>

definition attempt_arrives :: "string \<Rightarrow> (nat \<Rightarrow> send_attempt) \<Rightarrow> bool" where
  "attempt_arrives expected answers \<longleftrightarrow>
     (\<exists>k < 3. fst (answers k) = Inr () \<and> arrives expected (fst (snd (answers k))) (snd (snd (answers k))))"

lemma send_attempts_Inr:
  "send_attempts source expected target attempts s = (s', Inr y) \<Longrightarrow>
     list_ex (\<lambda>(sent, deadline, turns). sent = Inr () \<and> arrives expected deadline turns) attempts"
proof (induction attempts arbitrary: s)
  case (Cons a attempts)
  obtain sent deadline turns where a: "a = (sent, deadline, turns)" by (cases a)
  show ?case
  proof (cases "receive_expected expected deadline turns")
    case Inl
    with Cons show ?thesis by (auto simp: a stretch_simps)
  next
    case Inr
    with Cons.prems receive_expected_iff [of expected deadline turns] show ?thesis by (auto simp: a stretch_simps)
  qed
qed (simp add: outcome_def)

lemma send_until_received_Inr:
  assumes "send_until_received source expected target answers s = (s', Inr y)"
  shows "attempt_arrives expected answers"
proof -
  have "k < 3" if "k \<in> {0, 1, 2}" for k :: nat using that by auto
  moreover obtain k where "k \<in> {0, 1, 2}" "fst (answers k) = Inr ()" "arrives expected (fst (snd (answers k))) (snd (snd (answers k)))"
    using send_attempts_Inr [OF assms [unfolded send_until_received_def]] by (auto simp: case_prod_unfold)
  ultimately show ?thesis unfolding attempt_arrives_def by blast
qed

text \<open>The clients and ports do not change once they are connected.\<close>

definition same_clients :: "int list \<Rightarrow> int list \<Rightarrow> acceptance \<Rightarrow> bool" where
  "same_clients i p s \<longleftrightarrow> ac_interfaces s = i \<and> ac_ports s = p"

lemma same_keeps [keeps_intros]: "keeps (same_clients i p) (step_named n)" "keeps (same_clients i p) (act a r)"
  by (simp_all add: keeps_def same_clients_def step_named_def act_def)

lemma same_send [keeps_intros]: "keeps (same_clients i p) (send_attempts source expected target attempts)"
  by (induction source expected target attempts rule: send_attempts.induct) (auto intro!: keeps_intros split: sum.split)

lemma same_after: "keeps (same_clients i p) (exercise_relay w target)" "keeps (same_clients i p) (run_traffic w)"
    "keeps (same_clients i p) (validate_traffic w c x)"
proof -
  have "keeps (same_clients i p) (exercise_from w source target)" for source
    unfolding exercise_from_def send_until_received_def by (intro keeps_intros)
  then show "keeps (same_clients i p) (exercise_relay w target)" by (simp add: exercise_relay_def keeps_def)
  show "keeps (same_clients i p) (run_traffic w)" unfolding run_traffic_def by (intro keeps_intros)
  show "keeps (same_clients i p) (validate_traffic w c x)"
    unfolding validate_traffic_def by (auto intro!: keeps_intros split: prod.split option.split)
qed

definition provenance_known :: "provenance_view \<Rightarrow> bool" where
  "provenance_known d \<longleftrightarrow> list_all (\<lambda>f. field_of d f \<notin> {None, Some '''', Some ''unavailable''}) provenance_fields"

lemma check_capabilities_Inr:
  "check_capabilities w s = (s', Inr c) \<Longrightarrow>
     s' = s \<and> aw_capabilities w = Inr c \<and> ca_collision_available c \<and> ca_provenance_available c \<and> provenance_known (ca_fields c)"
  by (auto simp: check_capabilities_def stretch_simps provenance_known_def)

lemma verify_nodes_Inr:
  assumes "verify_nodes w s = (s', Inr views)"
  shows "aw_nodes w = Inr views \<and> length views = 3 \<and> length (ac_ports s') = 3"
proof -
  obtain ports where "aw_nodes w = Inr views" "length views = 3" "ac_ports s' = ports"
    and t: "traverse_result (\<lambda>v. endpoint_port (aw_port_text w) (ni_public_endpoint v)) views = Inr ports"
    using assms by (auto simp: verify_nodes_def stretch_simps)
  moreover have "length ports = length views" using t unfolding traverse_result_eq_Inr by (metis length_map)
  ultimately show ?thesis by simp
qed

lemma connect_clients_Inr:
  assumes "connect_clients w s = (s', Inr y)"
  shows "ac_ports s' = ac_ports s \<and> ac_interfaces s' = ac_ports s \<and> list_all (\<lambda>p. aw_connect w p = Inr True) (ac_ports s)"
proof -
  obtain infos where "traverse_result (aw_connect w) (ac_ports s) = Inr infos" and infos: "list_all (\<lambda>info. info) infos"
    and s': "ac_ports s' = ac_ports s" "ac_interfaces s' = ac_ports s"
    using assms by (auto simp: connect_clients_def Let_def require_Inr split: sum.splits)
  then have "set (map (aw_connect w) (ac_ports s)) = set (map Inr infos)" unfolding traverse_result_eq_Inr by simp
  moreover have "set (map Inr infos :: bool result list) \<subseteq> {Inr True}" using infos by (auto simp: list_all_iff)
  ultimately have "aw_connect w ` set (ac_ports s) \<subseteq> {Inr True}" by simp
  with s' show ?thesis unfolding list_all_iff by blast
qed

lemma exercise_relay_Inr:
  assumes "exercise_relay w target s = (s', Inr y)"
  shows "attempt_arrives ''accept-relay-one'' (aw_first_attempts w)"
    and "\<not> arrives ''accept-relay-blocked'' (fst (snd (aw_blocked w))) (snd (snd (aw_blocked w)))"
    and "attempt_arrives ''accept-relay-restored'' (aw_later_attempts w)"
  using assms unfolding exercise_relay_def exercise_from_def andthen_Inr outcome_Inr
  by (auto dest: send_until_received_Inr simp: assert_not_received_iff)

lemma validate_traffic_Inr:
  assumes "validate_traffic w c (run_id, latest) s = (s', Inr sm)"
  shows "\<exists>p events fields. latest = Some p \<and> rp_state p = Some ''COMPLETED'' \<and>
    list_all (\<lambda>(_, v). case v of None \<Rightarrow> False | Some x \<Rightarrow> 0 < x) (required_positive (rp_metrics p)) \<and>
    rp_transmitted p \<le> m_rf_transmissions (rp_metrics p) \<and>
    aw_events w = Inr events \<and> list_ex (acknowledgment_evidence run_id) events \<and>
    aw_persisted w = Inr (Some ''three-node-relay'', False) \<and> aw_exported w = Inr (True, fields) \<and>
    list_all (\<lambda>f. field_of fields f = field_of (ca_fields c) f) provenance_fields"
  using assms by (auto simp: validate_traffic_def stretch_simps split: option.splits prod.splits)

text \<open>
  C29. A zero exit status of the acceptance run is evidence. It says that the service reports
  collisions and complete provenance, three clients each connected and knew their node, a text
  arrived through the relay within three attempts, did not arrive before the deadline while the
  relay's link was disabled and arrived again after it was restored, the traffic run completed with
  positive metrics, at least one transmission per transmitted message and an acknowledgment seen
  on the air, the export carries the same provenance, and afterwards no public port is served.
\<close>

theorem acceptance_pass_is_evidence:
  assumes "acceptance_main w no_start_stack = (0, line)"
  shows "\<exists>s sm c views (p :: run_poll) events fields. run_acceptance w (\<not> no_start_stack) new_acceptance = (s, Inr sm) \<and>
    aw_capabilities w = Inr c \<and> ca_collision_available c \<and> provenance_known (ca_fields c) \<and>
    aw_nodes w = Inr views \<and> length views = 3 \<and>
    length (ac_ports s) = 3 \<and> ac_interfaces s = ac_ports s \<and> list_all (\<lambda>q. aw_connect w q = Inr True) (ac_ports s) \<and>
    attempt_arrives ''accept-relay-one'' (aw_first_attempts w) \<and>
    \<not> arrives ''accept-relay-blocked'' (fst (snd (aw_blocked w))) (snd (snd (aw_blocked w))) \<and>
    attempt_arrives ''accept-relay-restored'' (aw_later_attempts w) \<and>
    rp_state p = Some ''COMPLETED'' \<and> rp_transmitted p \<le> m_rf_transmissions (rp_metrics p) \<and>
    am_metrics sm = required_positive (rp_metrics p) \<and>
    list_all (\<lambda>(_, v). case v of None \<Rightarrow> False | Some x \<Rightarrow> 0 < x) (am_metrics sm) \<and>
    aw_events w = Inr events \<and> list_ex (acknowledgment_evidence (am_run_id sm)) events \<and>
    aw_exported w = Inr (True, fields) \<and> list_all (\<lambda>f. field_of fields f = field_of (ca_fields c) f) provenance_fields \<and>
    occupied_ports (aw_probes w) (ac_ports s) = []"
proof -
  let ?b = "acceptance_body w (\<not> no_start_stack) new_acceptance"
  obtain s sm where run: "run_acceptance w (\<not> no_start_stack) new_acceptance = (s, Inr sm)"
    using assms by (auto simp: acceptance_main_def split: sum.splits) (metis prod.collapse)
  then have body: "snd ?b = Inr sm" and s: "s = fst (acceptance_cleanup w False (fst ?b))" and ok: "isOk (snd (acceptance_cleanup w False (fst ?b)))"
    by (auto simp: run_acceptance_def isOk_iff split: prod.splits sum.splits)
  have same: "ac_ports s = ac_ports (fst ?b)" "ac_interfaces s = ac_interfaces (fst ?b)"
    unfolding s by (simp_all add: acceptance_cleanup_def Let_def)
  from ok have closed: "occupied_ports (aw_probes w) (ac_ports s) = []"
    unfolding same by (auto simp: acceptance_cleanup_def Let_def isOk_iff bind_result_eq_Inr listeners_closed_def split: if_splits)
  have "?b = (fst ?b, Inr sm)" using body by (metis prod.collapse)
  then obtain s1 s2 s3 s4 s5 s6 s7 s8 c views target run_id latest where
    c: "check_capabilities w s1 = (s2, Inr c)" and views: "verify_nodes w s3 = (s4, Inr views)"
    and conn: "connect_clients w s4 = (s5, Inr ())" and s6: "act Subscribe_text (Inr ()) s5 = (s6, Inr ())"
    and ex: "exercise_relay w target s6 = (s7, Inr ())" and tr: "run_traffic w s7 = (s8, Inr (run_id, latest))"
    and va: "validate_traffic w c (run_id, latest) s8 = (fst ?b, Inr sm)"
    unfolding acceptance_body_def andthen_Inr outcome_Inr by (auto simp del: split_paired_Ex)
  note cc = connect_clients_Inr [OF conn] and vn = verify_nodes_Inr [OF views]
  let ?same = "same_clients (ac_ports s4) (ac_ports s4)"
  have "?same s5" using cc by (simp add: same_clients_def)
  then have "?same s6" using s6 same_keeps(2) [of _ _ Subscribe_text "Inr ()"] unfolding keeps_def by (metis fst_conv)
  then have "?same s7" using ex same_after(1) unfolding keeps_def by (metis fst_conv)
  then have "?same s8" using tr same_after(2) unfolding keeps_def by (metis fst_conv)
  then have "?same (fst ?b)" using va same_after(3) unfolding keeps_def by (metis fst_conv)
  then have "ac_ports s = ac_ports s4" "ac_interfaces s = ac_ports s4" by (simp_all add: same same_clients_def)
  moreover obtain p events fields where "latest = Some p" "rp_state p = Some ''COMPLETED''"
    "list_all (\<lambda>(_, v). case v of None \<Rightarrow> False | Some x \<Rightarrow> 0 < x) (required_positive (rp_metrics p))"
    "rp_transmitted p \<le> m_rf_transmissions (rp_metrics p)" "aw_events w = Inr events"
    "list_ex (acknowledgment_evidence run_id) events" "aw_exported w = Inr (True, fields)"
    "list_all (\<lambda>f. field_of fields f = field_of (ca_fields c) f) provenance_fields"
    using validate_traffic_Inr [OF va] by blast
  moreover from this(1) va have "am_run_id sm = run_id" "am_metrics sm = required_positive (rp_metrics p)"
    by (auto simp: validate_traffic_def stretch_simps split: prod.splits)
  ultimately show ?thesis
    using run check_capabilities_Inr [OF c] vn cc exercise_relay_Inr [OF ex] closed
    by (intro exI [of _ s] exI [of _ sm] exI [of _ c] exI [of _ views] exI [of _ p] exI [of _ events] exI [of _ fields]) simp
qed

subsection \<open>Ports before a start\<close>

lemma unavailable_filter: "unavailable_ports binds ports = filter (\<lambda>p. \<not> binds p) ports"
  by (induction ports) simp_all

lemma preflight_iff: "preflight_main binds = None \<longleftrightarrow> list_all binds REQUIRED_PORTS"
  by (auto simp: preflight_main_def Let_def unavailable_filter filter_empty_conv list_all_iff)

text \<open>
  A clean preflight covers every scenario. When the script finds every port it requires free, every
  node of every scenario that passes validation can bind its public port, and the port is not the
  one of the interface itself.
\<close>

theorem preflight_covers_scenarios:
  assumes "preflight_main binds = None" and "check_scenario known sc = Inr sc" and "n \<in> set (sc_nodes sc)"
  shows "binds (sn_api_port n) \<and> sn_api_port n \<noteq> 8080 \<and> binds 8080"
proof -
  have "isOk (check_node n)" using assms(2,3) by (simp add: check_scenario_Inr)
  then have "sn_api_port n \<in> {45001 .. 45010}"
    by (auto simp: isOk_iff check_node_def in_range_def PUBLIC_PORT_MIN_def PUBLIC_PORT_MAX_def split: if_splits)
  moreover from this have "sn_api_port n \<in> set REQUIRED_PORTS"
    unfolding REQUIRED_PORTS_def list.set set_upto by blast
  moreover have "8080 \<in> set REQUIRED_PORTS" by (simp add: REQUIRED_PORTS_def)
  ultimately show ?thesis using assms(1) by (auto simp: preflight_iff list_all_iff)
qed

subsection \<open>An example\<close>

definition lab_metrics :: metrics_snapshot where
  "lab_metrics =
     \<lparr>m_generated = 4, m_delivered = 4, m_delivery_ratio = Some 1, m_receiver_deliveries = 4, m_receiver_delivery_ratio = Some 1,
      m_acknowledgment_success_ratio = Some 1, m_median_latency_ms = Some 700, m_p95_latency_ms = None, m_p99_latency_ms = None,
      m_rf_transmissions = 16, m_rf_transmissions_per_delivery = Some 4, m_relay_transmissions = 8, m_duplicate_receptions = 0,
      m_failed_receptions = 0, m_drops_by_reason = [], m_observed_airtime_ms = 3200, m_per_node_transmit_counts = [],
      m_per_node_airtime_ms = [], m_event_loop_lag_ms = None, m_receivers_per_broadcast = []\<rparr>"

definition lab_fields :: provenance_view where
  "lab_fields = map (\<lambda>f. (f, Some ''known'')) provenance_fields"

definition lab_acknowledgment :: packet_event where
  "lab_acknowledgment = (new_event 9 RF_TRANSMIT)\<lparr>e_transmitter := Some ''node-3'', e_intended_destination := Some ''node-1'',
     e_traffic_run_id := Some ''run'', e_traffic_sequence := Some 1\<rparr>"

text \<open>The first attempt hears only an older text; the second gets through.\<close>

definition lab_attempt :: "string \<Rightarrow> nat \<Rightarrow> send_attempt" where
  "lab_attempt expected k = (Inr (), 15, if k = 0 then [(0, Some ''older''), (3, None)] else [(1, Some ''older''), (2, Some expected)])"

definition lab_views :: "node_info list" where
  "lab_views =
     [\<lparr>ni_id = ''node-1'', ni_number = Some 1, ni_public_endpoint = ''lab:45001''\<rparr>,
      \<lparr>ni_id = ''node-2'', ni_number = Some 2, ni_public_endpoint = ''lab:45002''\<rparr>,
      \<lparr>ni_id = ''node-3'', ni_number = Some 3, ni_public_endpoint = ''lab:45003''\<rparr>]"

definition lab_acceptance :: acceptance_world where
  "lab_acceptance =
     \<lparr>aw_health = [], aw_compose_up = Inr (), aw_health_again = [None, Some 503, Some 200],
      aw_capabilities = Inr \<lparr>ca_collision_available = True, ca_provenance_available = True, ca_fields = lab_fields, ca_collision_model = ''native''\<rparr>,
      aw_simulator_commit = Some ''known'', aw_stop = Inr (), aw_stop_polls = [Inr (Some ''STOPPED'', '''')],
      aw_replaced = Inr (), aw_started = Inr (), aw_run_polls = [Inr (Some ''STARTING'', ''''), Inr (Some ''RUNNING'', '''')],
      aw_nodes = Inr lab_views,
      aw_port_text = (\<lambda>cs. Some (int (digits_value cs))), aw_connect = (\<lambda>_. Inr True),
      aw_first_attempts = lab_attempt ''accept-relay-one'', aw_disabled = Inr (), aw_blocked = (Inr (), 7, [(0, Some ''older''), (5, None)]),
      aw_restored = Inr (), aw_later_attempts = lab_attempt ''accept-relay-restored'', aw_traffic_started = Inr ''run'',
      aw_current_polls = [Inr \<lparr>rp_state = Some ''COMPLETED'', rp_transmitted = 4, rp_metrics = lab_metrics\<rparr>],
      aw_events = Inr [lab_acknowledgment], aw_persisted = Inr (Some ''three-node-relay'', False), aw_exported = Inr (True, lab_fields),
      aw_final_stop = Inr (), aw_final_polls = [Inr (Some ''STOPPED'', '''')], aw_probes = (\<lambda>_. Probe_refused), aw_compose_down = Inr ()\<rparr>"

lemma lab_fields_known: "provenance_known lab_fields" "field_of lab_fields ''meshtasticatorCommit'' = Some ''known''"
  by (simp_all add: provenance_known_def lab_fields_def provenance_fields_def field_of_def)

lemmas stretch_defs = andthen_def outcome_def act_def step_named_def require_def

lemma andthen_eq: "m s = (s', Inr x) \<Longrightarrow> andthen m f s = f x s'"
  by (simp add: andthen_def)

lemma andthen_raise: "m s = (s', Inl e) \<Longrightarrow> andthen m f s = (s', Inl e)"
  by (simp add: andthen_def)

text \<open>The stretches before the clients, for any way in which these connect.\<close>

definition lab_ready :: acceptance where
  "lab_ready = \<lparr>ac_step = ''verify API node information'', ac_stack_owned = True, ac_interfaces = [], ac_ports = [45001, 45002, 45003],
     ac_actions = [Compose_up, Stop_simulation, Put_scenario, Start_simulation]\<rparr>"

lemma lab_prefix:
  "acceptance_body (lab_acceptance\<lparr>aw_connect := answers\<rparr>) True new_acceptance =
     andthen (connect_clients (lab_acceptance\<lparr>aw_connect := answers\<rparr>)) (\<lambda>_.
       andthen (act Subscribe_text (Inr ())) (\<lambda>_. andthen (outcome (Inr 3)) (\<lambda>target.
       andthen (exercise_relay (lab_acceptance\<lparr>aw_connect := answers\<rparr>) target) (\<lambda>_.
       andthen (run_traffic (lab_acceptance\<lparr>aw_connect := answers\<rparr>)) (validate_traffic (lab_acceptance\<lparr>aw_connect := answers\<rparr>)
         \<lparr>ca_collision_available = True, ca_provenance_available = True, ca_fields = lab_fields, ca_collision_model = ''native''\<rparr>))))) lab_ready"
proof -
  let ?w = "lab_acceptance\<lparr>aw_connect := answers\<rparr>"
  have 1: "reach_api ?w True new_acceptance = (new_acceptance\<lparr>ac_step := ''wait for API health'', ac_stack_owned := True, ac_actions := [Compose_up]\<rparr>, Inr ())"
    by (simp add: reach_api_def stretch_defs lab_acceptance_def new_acceptance_def)
  have 2: "check_capabilities ?w s = (s, Inr \<lparr>ca_collision_available = True, ca_provenance_available = True, ca_fields = lab_fields, ca_collision_model = ''native''\<rparr>)" for s
    using lab_fields_known by (simp add: check_capabilities_def stretch_defs lab_acceptance_def provenance_known_def)
  have 3: "load_and_start ?w s = (s\<lparr>ac_step := ''load and start three-node relay scenario'',
      ac_actions := ac_actions s @ [Stop_simulation, Put_scenario, Start_simulation]\<rparr>, Inr ())" for s
    by (simp add: load_and_start_def stretch_defs lab_acceptance_def)
  have 4: "verify_nodes ?w s = (s\<lparr>ac_step := ''verify API node information'', ac_ports := [45001, 45002, 45003]\<rparr>, Inr lab_views)" for s
    by (simp add: verify_nodes_def stretch_defs lab_acceptance_def lab_views_def endpoint_port_def codes_def digits_value_def)
  have 5: "target_number lab_views = Inr 3" by (simp add: lab_views_def target_number_def)
  show ?thesis
    unfolding acceptance_body_def andthen_eq [of "reach_api ?w True", OF 1] andthen_eq [of "check_capabilities ?w", OF 2]
      andthen_eq [of "load_and_start ?w", OF 3] andthen_eq [of "verify_nodes ?w", OF 4] 5
    by (simp add: lab_ready_def new_acceptance_def)
qed

lemma lab_passes:
  "\<exists>s. run_acceptance lab_acceptance True new_acceptance =
     (s, Inr \<lparr>am_run_id = ''run'', am_metrics = required_positive lab_metrics, am_collision_model = ''native''\<rparr>) \<and>
     ac_ports s = [45001, 45002, 45003] \<and> ac_stack_owned s"
proof -
  let ?sm = "\<lparr>am_run_id = ''run'', am_metrics = required_positive lab_metrics, am_collision_model = ''native''\<rparr>"
  let ?c = "\<lparr>ca_collision_available = True, ca_provenance_available = True, ca_fields = lab_fields, ca_collision_model = ''native''\<rparr>"
  have w: "lab_acceptance\<lparr>aw_connect := \<lambda>_. Inr True\<rparr> = lab_acceptance" by (simp add: lab_acceptance_def)
  have 1: "\<exists>s'. connect_clients lab_acceptance lab_ready = (s', Inr ()) \<and> ac_ports s' = [45001, 45002, 45003] \<and> ac_stack_owned s'"
    by (simp add: connect_clients_def Let_def lab_acceptance_def lab_ready_def require_def outcome_def)
  have 2: "\<exists>s'. exercise_relay lab_acceptance 3 s = (s', Inr ()) \<and> ac_ports s' = ac_ports s \<and> ac_stack_owned s' = ac_stack_owned s" for s
    by (simp add: exercise_relay_def exercise_from_def send_until_received_def stretch_defs lab_acceptance_def lab_attempt_def)
  have 3: "\<exists>s'. run_traffic lab_acceptance s = (s', Inr (''run'', Some \<lparr>rp_state = Some ''COMPLETED'', rp_transmitted = 4, rp_metrics = lab_metrics\<rparr>)) \<and>
      ac_ports s' = ac_ports s \<and> ac_stack_owned s' = ac_stack_owned s" for s
    by (simp add: run_traffic_def stretch_defs lab_acceptance_def)
  have 4: "\<exists>s'. validate_traffic lab_acceptance ?c (''run'', Some \<lparr>rp_state = Some ''COMPLETED'', rp_transmitted = 4, rp_metrics = lab_metrics\<rparr>) s = (s', Inr ?sm) \<and>
      ac_ports s' = ac_ports s \<and> ac_stack_owned s' = ac_stack_owned s" for s
    by (simp add: validate_traffic_def stretch_defs lab_acceptance_def required_positive_def lab_metrics_def
      acknowledgment_evidence_def lab_acknowledgment_def list_all_iff)
  obtain s1 where s1: "connect_clients lab_acceptance lab_ready = (s1, Inr ())" "ac_ports s1 = [45001, 45002, 45003]" "ac_stack_owned s1" using 1 by auto
  define s2 where "s2 = s1\<lparr>ac_actions := ac_actions s1 @ [Subscribe_text]\<rparr>"
  obtain s3 where s3: "exercise_relay lab_acceptance 3 s2 = (s3, Inr ())" "ac_ports s3 = ac_ports s2" "ac_stack_owned s3 = ac_stack_owned s2" using 2 by blast
  obtain s4 where s4: "run_traffic lab_acceptance s3 = (s4, Inr (''run'', Some \<lparr>rp_state = Some ''COMPLETED'', rp_transmitted = 4, rp_metrics = lab_metrics\<rparr>))"
    "ac_ports s4 = ac_ports s3" "ac_stack_owned s4 = ac_stack_owned s3" using 3 by blast
  obtain s5 where s5: "validate_traffic lab_acceptance ?c (''run'', Some \<lparr>rp_state = Some ''COMPLETED'', rp_transmitted = 4, rp_metrics = lab_metrics\<rparr>) s4 = (s5, Inr ?sm)"
    "ac_ports s5 = ac_ports s4" "ac_stack_owned s5 = ac_stack_owned s4" using 4 by blast
  have a2: "act Subscribe_text (Inr ()) s1 = (s2, Inr ())" by (simp add: act_def s2_def)
  have "acceptance_body lab_acceptance True new_acceptance = (s5, Inr ?sm)"
    unfolding lab_prefix [of "\<lambda>_. Inr True", unfolded w]
    by (simp only: andthen_eq [of "connect_clients lab_acceptance", OF s1(1)] andthen_eq [of "act Subscribe_text (Inr ())", OF a2]
      andthen_eq [of "outcome (Inr 3)", OF outcome_def] andthen_eq [of "exercise_relay lab_acceptance 3", OF s3(1)]
      andthen_eq [of "run_traffic lab_acceptance", OF s4(1)] s5(1))
  then show ?thesis using s1 s3 s4 s5
    by (simp add: run_acceptance_def acceptance_cleanup_def Let_def s2_def lab_acceptance_def listeners_closed_def occupied_ports_def)
qed

lemma acceptance_pass_is_evidence_witness:
  "acceptance_main lab_acceptance False = (0, ''ACCEPTANCE PASSED'') \<and>
   attempt_arrives ''accept-relay-restored'' (aw_later_attempts lab_acceptance) \<and>
   \<not> arrives ''accept-relay-blocked'' (fst (snd (aw_blocked lab_acceptance))) (snd (snd (aw_blocked lab_acceptance)))"
proof -
  have "acceptance_main lab_acceptance False = (0, ''ACCEPTANCE PASSED'')"
    using lab_passes by (auto simp: acceptance_main_def)
  with acceptance_pass_is_evidence [OF this] show ?thesis by blast
qed

text \<open>The second client does not connect: the other two are opened and never closed.\<close>

lemma acceptance_always_cleans_up_witness:
  "\<exists>s e. run_acceptance (lab_acceptance\<lparr>aw_connect := \<lambda>p. if p = 45002 then Inl (OSError ''refused'') else Inr True\<rparr>) True new_acceptance = (s, Inl e) \<and>
     e = failed_step ''connect three official clients'' (OSError ''refused'') \<and>
     ac_actions s = [Compose_up, Stop_simulation, Put_scenario, Start_simulation, Open_client 45001, Open_client 45003,
       Unsubscribe_text, Stop_simulation, Compose_down]"
proof -
  let ?answers = "\<lambda>p :: int. if p = 45002 then Inl (OSError ''refused'') else Inr True"
  let ?w = "lab_acceptance\<lparr>aw_connect := ?answers\<rparr>"
  define s1 where "s1 = lab_ready\<lparr>ac_step := ''connect three official clients'',
    ac_actions := [Compose_up, Stop_simulation, Put_scenario, Start_simulation, Open_client 45001, Open_client 45003]\<rparr>"
  have "connect_clients ?w lab_ready = (s1, Inl (OSError ''refused''))"
    by (simp add: connect_clients_def Let_def lab_ready_def s1_def)
  then have b: "acceptance_body ?w True new_acceptance = (s1, Inl (OSError ''refused''))"
    unfolding lab_prefix by (rule andthen_raise)
  have down: "isOk (aw_compose_down ?w)" by (simp add: lab_acceptance_def)
  have step: "ac_step s1 = ''connect three official clients''" by (simp add: s1_def)
  obtain s e where r: "run_acceptance ?w True new_acceptance = (s, Inl e)" "ac_actions s = ac_actions s1 @ [Unsubscribe_text, Stop_simulation, Compose_down]"
    "ac_step s = ac_step s1"
    using down by (auto simp: run_acceptance_def b acceptance_cleanup_def Let_def s1_def lab_ready_def isOk_iff)
  have "e = failed_step (ac_step s) (OSError ''refused'')"
    using acceptance_always_cleans_up [OF r(1) down] by (auto simp: b)
  with r show ?thesis by (simp add: step) (simp add: s1_def)
qed

lemma preflight_covers_scenarios_witness:
  "preflight_main (\<lambda>p. p \<noteq> 45011) = None \<and> check_scenario (\<lambda>r. r = ''US'') relay_scenario = Inr relay_scenario \<and>
   sn_api_port (sc_nodes relay_scenario ! 1) \<noteq> 8080 \<and> sn_api_port (sc_nodes relay_scenario ! 1) \<noteq> 45011"
proof -
  have free: "preflight_main (\<lambda>p. p \<noteq> 45011) = None" by (simp add: preflight_iff REQUIRED_PORTS_def list_all_iff)
  have "graph_wf relay_scenario" using relay_valid by (simp add: validate_graph_Inr)
  then have ok: "check_scenario (\<lambda>r. r = ''US'') relay_scenario = Inr relay_scenario"
    by (auto simp: check_scenario_Inr relay_scenario_def check_rf_def default_rf_def validate_region_def in_range_def
      SUPPORTED_MODEM_PRESETS_def check_channel_def default_channel_def b64decode_def codes_def base64_value_def
      check_node_def node_id_ok_def id_char_def PUBLIC_PORT_MIN_def PUBLIC_PORT_MAX_def check_link_def)
  have "sc_nodes relay_scenario ! 1 \<in> set (sc_nodes relay_scenario)" by (simp add: relay_scenario_def)
  from preflight_covers_scenarios [OF free ok this] free ok show ?thesis by simp
qed

end
