(* ===== verification/Spec2Isabelle.thy ===== *)
theory Spec2Isabelle
  imports Framing Airtime_Laws Metrics Events Reachability Provenance System Log_Files Processes_Laws Configure_Laws
    Service_Paths Api_Laws Traffic_Authors Result_Files Bench_Runs Acceptance_Laws
begin

text \<open>
  A verification development for the Meshtastic Lab: the backend in \<^verbatim>\<open>src/backend/app\<close>, which runs
  native Meshtastic firmware for two to ten nodes, connects the nodes through a simulated radio medium
  and measures traffic; the capacity experiments in \<^verbatim>\<open>src/experiments\<close>; and the acceptance
  and preflight scripts in \<^verbatim>\<open>src/scripts\<close>.

  \<^bold>\<open>The parts and how they interact.\<close> The service (\<^verbatim>\<open>simulator/service.py\<close>) owns
  everything. A start launches one firmware process per node (\<^verbatim>\<open>runtime/processes.py\<close>), one
  gateway per node (\<^verbatim>\<open>gateway/node_gateway.py\<close>), which speaks the framed stream of
  \<^verbatim>\<open>gateway/framing.py\<close> with the daemon and with clients, configures and verifies the nodes through
  the official client (\<^verbatim>\<open>runtime/configure.py\<close>), and then creates the medium
  (\<^verbatim>\<open>simulator/medium.py\<close>) and the traffic controller (\<^verbatim>\<open>traffic/controller.py\<close>). A frame
  that a firmware sends goes from its gateway to the medium, which forwards it over the enabled
  directed links of the scenario (\<^verbatim>\<open>models/scenario.py\<close>) and tells the controller and the event
  broker (\<^verbatim>\<open>metrics/events.py\<close>) about it, with its air time (\<^verbatim>\<open>metrics/airtime.py\<close>).
  The controller generates messages on a schedule, submits them through the gateways, recognises them
  on the air and on arrival, and reports metrics (\<^verbatim>\<open>metrics/calculations.py\<close>) and a frozen
  result with the build metadata (\<^verbatim>\<open>provenance.py\<close>). \<^verbatim>\<open>main.py\<close> is the HTTP
  interface; the scripts drive the program through it.

  \<^bold>\<open>Shared theories.\<close> \<open>Prelude\<close> has the exceptions as the datatype \<open>pyerr\<close>, results as \<open>pyerr + 'a\<close>,
  dictionaries and bounded queues with the locales \<open>ordered_dict\<close> and \<open>bounded_fifo\<close> interpreted on
  them; \<open>Py_Text\<close> and \<open>Py_Float\<close> are Python's text functions and double-precision arithmetic (rationals
  rounded after every operation, so comparisons and ties are the code's); \<open>Mesh_Packets\<close> has the
  protobuf messages as records, with the codec as a parameter.

  \<^bold>\<open>Components.\<close>
  \<^item> \<open>Framing\<close>: \<open>feed\<close> and \<open>encode_frame\<close> are \<^verbatim>\<open>FrameParser.feed\<close> and
    \<^verbatim>\<open>encode_frame\<close>; independence of how the stream is cut, bounded buffer, and the round trip.
  \<^item> \<open>Airtime\<close>, \<open>Airtime_Laws\<close>: the modem table and \<^verbatim>\<open>airtime_ms\<close>; monotone in the
    payload under rounding, with a sufficient retransmission bound.
  \<^item> \<open>Metrics\<close>: percentiles and \<^verbatim>\<open>calculate_metrics\<close>; the running counters give what the lists give.
  \<^item> \<open>Events\<close>: the history, replay pages and bounded subscriptions; the history is a gapless window,
    pages are exact, and a slow subscriber loses the oldest events and is told how many.
  \<^item> \<open>Scenario\<close>, \<open>Reachability\<close>: the schema's validators, the presets and \<^verbatim>\<open>reachable_pairs\<close>;
    accepted graphs are the complete directed ones, and the search returns exactly the pairs joined
    within the hop limit, in any order in which sets are iterated.
  \<^item> \<open>Gateway\<close>, \<open>Gateway_Laws\<close>: one definition per stretch between suspension points of \<^verbatim>\<open>NodeGateway\<close>,
    a step relation and its invariants: what it writes parses back into whole frames, queues stay
    bounded, every frame of a read is forwarded, handed to the controller or lost with an event, and no
    configuration request is left waiting. A read is handled frame by frame in the step relation, since a
    handler can suspend. The locale \<open>message_sink\<close> is what medium and controller rely on.
  \<^item> \<open>Medium\<close>, \<open>System\<close>: the link table and the turn of a node's worker over any observer, and the
    composition of medium, controller and gateways; a frame reaches exactly the enabled links,
    and an admitted submission is in its gateway's queue.
  \<^item> \<open>Traffic_Request\<close>, \<open>Traffic_Schedule\<close>, \<open>Traffic_Ids\<close>: requests and their validation, the
    generating loop's schedule (every tick of every source once, in order, and the loop returns), the
    payload marker and the packet identifiers with their quarantine. \<open>id_history\<close> has allocations,
    retirements and refused retirements; an identifier is reused late unless a retirement was refused.
  \<^item> \<open>Traffic_State\<close>, \<open>Traffic_Handlers\<close>, \<open>Traffic_Run\<close>: the controller's state, its event handlers,
    and start, task, drain, stop, fail and finalization. \<open>Traffic_Invariant\<close> shows that the
    counters equal a recount after every step; \<open>Traffic_Lifecycle\<close> has the relation \<open>ctl_step\<close> with its
    reachable states; \<open>Traffic_Results\<close>, \<open>Traffic_Pending\<close>, \<open>Traffic_Outcome\<close> and \<open>Traffic_Authors\<close>
    show that frozen results are exact, the live metrics are a recount over a window of latencies, no
    submission is lost, starting is all or nothing, draining is bounded, late events change nothing, and every message is one the request asked for.
  \<^item> \<open>Processes\<close>, \<open>Log_Files\<close>, \<open>Processes_Laws\<close>: the supervisor, its bounded logs on disk and the
    draining of a stream, with the limit of asyncio's stream reader and with the answers of the disk to
    each write; no child without record and monitor, logs keep the newest output.
  \<^item> \<open>Configure\<close>, \<open>Configure_Laws\<close>: the settings transaction and the verification of a node.
  \<^item> \<open>Service\<close>, \<open>Service_Laws\<close>, \<open>Service_Steps\<close>, \<open>Service_Lifecycle\<close>, \<open>Service_Paths\<close>: the service's
    operations, its life cycle as the relation \<open>sim_step\<close> with locks, waiting commands and the failure
    cleanup, what each state promises, along which transitions it changes and how a failure stops the
    stages of a start, the course of a stop, and the stale cleanup that destroys a new simulation.
  \<^item> \<open>Result_Files\<close>: the files of a finished run, saved as a whole or not at all and served unchanged.
  \<^item> \<open>Api\<close>, \<open>Api_Laws\<close>: the routes with their checks and status codes, and the event stream of the web
    socket as a refinement of its subscription.
  \<^item> \<open>Provenance\<close>: the build metadata.
  \<^item> \<open>Bench\<close>, \<open>Bench_Laws\<close>, \<open>Bench_Runs\<close>: the experiments; summaries of trials and flows are exact, a
    workload's scenarios are accepted, and every selected trial is accounted for.
  \<^item> \<open>Acceptance\<close>, \<open>Acceptance_Laws\<close>: the acceptance run and the preflight check; it cleans up
    whatever fails, and a pass is evidence for each thing it checks.

  \<^bold>\<open>Steps and interleavings.\<close> A coroutine is cut at its suspension points; each piece is one definition,
  and the interleavings are sequences of steps. \<open>ctl_step\<close> and \<open>sim_step\<close> contain more runs than the
  event loop can produce (a time-out may come early, an event may repeat), so an invariant proved
  for them holds of the code; what needs a stronger environment says so in its premises: \<open>allowed\<close>
  restricts the messages that radios deliver, \<open>task_of\<close> ties a running task to the current request,
  and \<open>calm\<close> excludes a start that waits behind another command, without which the lifecycle
  promises fail (\<open>stale_cleanup_destroys_new_simulation\<close>). Since what the supervisor and the gateways did
  during a start is left open, \<open>sim_step\<close> says what a start cannot do, and not that it succeeds.
  Three things that the code can do are not steps: a stop of the supervisor that is itself cancelled; a
  second finalization by a \<^verbatim>\<open>_finish\<close> that waited for another one, which does not look at the frozen
  result again (\<open>finish_begin\<close> does); and cancelling the draining of a stream after its time-out.

  \<^bold>\<open>Loops.\<close> A loop over data is recursion on it, the parser's loop has a termination proof by the
  length of its buffer, and polling loops take the list of answers that come before the deadline, where
  the end of the list is the deadline. Three loops are partial functions: the schedule, whose
  return is proved, and the two rejection loops that draw packet identifiers and hardware ids,
  which need not return; no fuel is used anywhere.

  \<^bold>\<open>Parameters.\<close> What is not in the repository is an argument: protobuf encoding, the region table and
  the official client of the \<^verbatim>\<open>meshtastic\<close> package, SHA-256, \<^verbatim>\<open>random.Random\<close> (with the
  documented ranges as \<open>rng_ok\<close>), the Unicode tables, the order of set iteration, clocks, fresh
  identifiers, sockets, processes, signals and the file system's answers. Every property with such a
  premise has a witness on concrete functions.

  \<^bold>\<open>Not modelled.\<close> The \<^verbatim>\<open>__init__.py\<close> files (re-exports), \<^verbatim>\<open>logging_config.py\<close> and log
  calls (output only), the parsing and printing of JSON, of command lines and of request bodies by
  the frameworks, coercions of pydantic beyond the constraints, wall-clock timestamps (never read),
  infinite floats, the creation and cancellation of asyncio tasks apart from their effect on the state,
  static files, Docker, and the TypeScript frontend. Error texts of the scripts leave out the
  bodies that they print.
\<close>

end
